(* ===== verification/Swarm_Prelude.thy ===== *)
theory Swarm_Prelude
  imports Main "HOL-Library.Char_ord" "HOL-Library.List_Lexorder" "HOL-Library.Product_Lexorder"
begin

text \<open>
  What every component of the control plane shares: the exceptions as one datatype, fallible
  code as a sum (\<open>Inl\<close> an exception, \<open>Inr\<close> a result), SQL tables as lists of rows with the
  statements the code issues on them, and SQLite transactions.

  Text is a list of UTF-8 bytes. Comparing two texts lexicographically is then what SQLite's
  BINARY collation and Python's \<open>sorted\<close> both do, \<open>length\<close> is the size of the encoded text
  and \<open>py_len\<close> the number of code points.
\<close>

section \<open>Exceptions and fallible results\<close>

text \<open>One constructor per exception class the modelled code raises, with its message.\<close>

datatype py_error =
    ValueError string
  | TypeError string
  | RuntimeError string
  | KeyError string
  | OverflowError string
  | IntegrityError string
  | MaintenanceLeaseConflict string
  | MaintenanceLeaseLost string
  | ControlPlaneInstanceConflict string
  | EventPrivacyError string
  | DistributedStateConflict string
  | MessageBoardUnavailableError string
  | MessageBoardDedupeConflict string
  | ConsumerDeliveryConflict string
  | ConsumerLeaseLost string
  | PermissionPolicyError string
  | WorkerSkillPolicyStateError string
  | WorkerSkillPolicyFenceError string
  | PlanValidationError string "string option"
  | ApprovalConflict string
  | GoalBudgetExceeded string
  | GoalLoopDetected string
  | IdempotencyConflict string
  | ExecutionError string string
  | ExecutionConflict string
  | ExecutionOutcomeUncertain string
  | ProcessSandboxError string
  | AgentDispatchConflict string
  | StateConflict string
  | PairingRateLimited string
  | PairingConflict string
  | IPhoneCapabilityConflict string
  | CapabilityRequestBindingError string
  | OtherException string

text \<open>\<open>type(error).__name__\<close>\<close>

fun exception_name :: "py_error \<Rightarrow> string" where
  "exception_name (ValueError m) = ''ValueError''"
| "exception_name (TypeError m) = ''TypeError''"
| "exception_name (RuntimeError m) = ''RuntimeError''"
| "exception_name (KeyError m) = ''KeyError''"
| "exception_name (OverflowError m) = ''OverflowError''"
| "exception_name (IntegrityError m) = ''IntegrityError''"
| "exception_name (MaintenanceLeaseConflict m) = ''MaintenanceLeaseConflict''"
| "exception_name (MaintenanceLeaseLost m) = ''MaintenanceLeaseLost''"
| "exception_name (ControlPlaneInstanceConflict m) = ''ControlPlaneInstanceConflict''"
| "exception_name (EventPrivacyError m) = ''EventPrivacyError''"
| "exception_name (DistributedStateConflict m) = ''DistributedStateConflict''"
| "exception_name (MessageBoardUnavailableError m) = ''MessageBoardUnavailableError''"
| "exception_name (MessageBoardDedupeConflict m) = ''MessageBoardDedupeConflict''"
| "exception_name (ConsumerDeliveryConflict m) = ''ConsumerDeliveryConflict''"
| "exception_name (ConsumerLeaseLost m) = ''ConsumerLeaseLost''"
| "exception_name (PermissionPolicyError m) = ''PermissionPolicyError''"
| "exception_name (WorkerSkillPolicyStateError m) = ''WorkerSkillPolicyStateError''"
| "exception_name (WorkerSkillPolicyFenceError m) = ''WorkerSkillPolicyFenceError''"
| "exception_name (ApprovalConflict m) = ''ApprovalConflict''"
| "exception_name (GoalBudgetExceeded m) = ''GoalBudgetExceeded''"
| "exception_name (GoalLoopDetected m) = ''GoalLoopDetected''"
| "exception_name (IdempotencyConflict m) = ''IdempotencyConflict''"
| "exception_name (ExecutionError m d) = ''ExecutionError''"
| "exception_name (ExecutionConflict m) = ''ExecutionConflict''"
| "exception_name (ExecutionOutcomeUncertain m) = ''ExecutionOutcomeUncertain''"
| "exception_name (ProcessSandboxError m) = ''ProcessSandboxError''"
| "exception_name (AgentDispatchConflict m) = ''AgentDispatchConflict''"
| "exception_name (StateConflict m) = ''StateConflict''"
| "exception_name (PairingRateLimited m) = ''PairingRateLimited''"
| "exception_name (PairingConflict m) = ''PairingConflict''"
| "exception_name (IPhoneCapabilityConflict m) = ''IPhoneCapabilityConflict''"
| "exception_name (CapabilityRequestBindingError m) = ''CapabilityRequestBindingError''"
| "exception_name (OtherException name) = name"
| "exception_name (PlanValidationError m d) = ''PlanValidationError''"

named_theorems table_simps \<open>rewriting SQL statements on tables\<close>
named_theorems result_simps \<open>inverting fallible code\<close>

fun and_then :: "'e + 'a \<Rightarrow> ('a \<Rightarrow> 'e + 'b) \<Rightarrow> 'e + 'b" where
  "and_then (Inl e) f = Inl e"
| "and_then (Inr a) f = f a"

definition require :: "bool \<Rightarrow> 'e \<Rightarrow> 'e + unit" where
  "require c e = (if c then Inr () else Inl e)"

lemma and_then_Inr_iff [result_simps]:
  "and_then m f = Inr b \<longleftrightarrow> (\<exists>a. m = Inr a \<and> f a = Inr b)"
  by (cases m) auto

lemma and_then_InrE [elim!]:
  assumes "and_then m f = Inr b" obtains a where "m = Inr a" "f a = Inr b"
  using assms by (cases m) auto

lemma and_then_Inl_iff [result_simps]:
  "and_then m f = Inl e \<longleftrightarrow> m = Inl e \<or> (\<exists>a. m = Inr a \<and> f a = Inl e)"
  by (cases m) auto

lemma require_Inr_iff [result_simps]: "require c e = Inr u \<longleftrightarrow> c"
  by (simp add: require_def)

lemma require_Inl_iff [result_simps]: "require c e = Inl e' \<longleftrightarrow> \<not> c \<and> e' = e"
  by (auto simp: require_def)

lemma require_simps [simp]:
  "c \<Longrightarrow> require c e = Inr ()"
  "\<not> c \<Longrightarrow> require c e = Inl e"
  by (simp_all add: require_def)

text \<open>A loop over a list whose body may raise and threads a state.\<close>

fun for_each :: "('a \<Rightarrow> 's \<Rightarrow> 'e + 's) \<Rightarrow> 'a list \<Rightarrow> 's \<Rightarrow> 'e + 's" where
  "for_each f [] s = Inr s"
| "for_each f (x # xs) s = and_then (f x s) (for_each f xs)"

lemma for_each_append:
  "for_each f (xs @ ys) s = and_then (for_each f xs s) (for_each f ys)"
proof (induction xs arbitrary: s)
  case Nil
  then show ?case by simp
next
  case (Cons x xs)
  then show ?case by (cases "f x s") auto
qed

lemma for_each_invariant:
  assumes "for_each f xs s = Inr s'" and "P s"
    and "\<And>x s s'. x \<in> set xs \<Longrightarrow> P s \<Longrightarrow> f x s = Inr s' \<Longrightarrow> P s'"
  shows "P s'"
  using assms
proof (induction xs arbitrary: s)
  case Nil
  then show ?case by simp
next
  case (Cons x xs)
  then obtain t where t: "f x s = Inr t" "for_each f xs t = Inr s'"
    by (auto simp: and_then_Inr_iff)
  moreover have "P t" using Cons.prems t by auto
  ultimately show ?case using Cons.IH Cons.prems(3) by auto
qed

section \<open>Transactions\<close>

text \<open>
  \<open>BEGIN IMMEDIATE\<close> takes SQLite's single writer lock, so a transaction runs alone: its body
  maps the database to an exception, after which everything is rolled back, or to a result and
  the database to commit.
\<close>

definition transaction :: "('db \<Rightarrow> 'e + ('a \<times> 'db)) \<Rightarrow> 'db \<Rightarrow> ('e + 'a) \<times> 'db" where
  "transaction body db =
     (case body db of Inl e \<Rightarrow> (Inl e, db) | Inr (a, db') \<Rightarrow> (Inr a, db'))"

lemma transaction_Inl: "fst (transaction body db) = Inl e \<Longrightarrow> snd (transaction body db) = db"
  by (auto simp: transaction_def split: sum.splits)

lemma transaction_Inr_iff [result_simps]:
  "transaction body db = (Inr a, db') \<longleftrightarrow> body db = Inr (a, db')"
  by (auto simp: transaction_def split: sum.splits)

lemma transaction_Inl_iff [result_simps]:
  "transaction body db = (Inl e, db') \<longleftrightarrow> body db = Inl e \<and> db' = db"
  by (auto simp: transaction_def split: sum.splits)

lemma snd_transaction:
  "snd (transaction body db) = (case body db of Inl e \<Rightarrow> db | Inr p \<Rightarrow> snd p)"
  by (auto simp: transaction_def split: sum.splits)

lemma fst_transaction:
  "fst (transaction body db) = (case body db of Inl e \<Rightarrow> Inl e | Inr p \<Rightarrow> Inr (fst p))"
  by (auto simp: transaction_def split: sum.splits)

text \<open>What holds before a transaction and after its commit holds whatever its outcome.\<close>

lemma transaction_preserves:
  assumes "P db" and "\<And>a db'. body db = Inr (a, db') \<Longrightarrow> P db'"
  shows "P (snd (transaction body db))"
  using assms by (auto simp: transaction_def split: sum.split)

section \<open>Tables\<close>

text \<open>A table is the list of its rows in insertion order.\<close>

type_synonym 'r sql_table = "'r list"

definition sql_select :: "('r \<Rightarrow> bool) \<Rightarrow> 'r sql_table \<Rightarrow> 'r list" where
  "sql_select P t = filter P t"

definition sql_update :: "('r \<Rightarrow> bool) \<Rightarrow> ('r \<Rightarrow> 'r) \<Rightarrow> 'r sql_table \<Rightarrow> 'r sql_table" where
  "sql_update P f t = map (\<lambda>r. if P r then f r else r) t"

definition sql_rowcount :: "('r \<Rightarrow> bool) \<Rightarrow> 'r sql_table \<Rightarrow> nat" where
  "sql_rowcount P t = length (filter P t)"

fun fetchone :: "'r list \<Rightarrow> 'r option" where
  "fetchone [] = None"
| "fetchone (r # rs) = Some r"

text \<open>The column is not NULL and compares as stated; a comparison with NULL is not true.\<close>

fun null_le :: "'a::ord option \<Rightarrow> 'a \<Rightarrow> bool" where
  "null_le None y = False"
| "null_le (Some x) y = (x \<le> y)"

fun null_gt :: "'a::ord option \<Rightarrow> 'a \<Rightarrow> bool" where
  "null_gt None y = False"
| "null_gt (Some x) y = (y < x)"

text \<open>The next value of an \<open>AUTOINCREMENT\<close> key, for a table no row is ever deleted from.\<close>

definition next_rowid :: "('r \<Rightarrow> int) \<Rightarrow> 'r sql_table \<Rightarrow> int" where
  "next_rowid key t = fold (\<lambda>r m. max m (key r)) t 0 + 1"

lemma sql_select_update_simps [table_simps]:
  "sql_select P [] = []"
  "sql_select P (r # t) = (if P r then r # sql_select P t else sql_select P t)"
  "sql_update P f [] = []"
  "sql_update P f (r # t) = (if P r then f r else r) # sql_update P f t"
  "sql_rowcount P [] = 0"
  "sql_rowcount P (r # t) = (if P r then Suc (sql_rowcount P t) else sql_rowcount P t)"
  by (simp_all add: sql_select_def sql_update_def sql_rowcount_def)

lemma length_sql_update [simp]: "length (sql_update P f t) = length t"
  by (simp add: sql_update_def)

lemma set_sql_select [simp]: "set (sql_select P t) = {r \<in> set t. P r}"
  by (simp add: sql_select_def)

lemma sql_select_append [simp]: "sql_select P (t @ u) = sql_select P t @ sql_select P u"
  by (simp add: sql_select_def)

lemma sql_update_id: "(\<And>r. r \<in> set t \<Longrightarrow> \<not> P r) \<Longrightarrow> sql_update P f t = t"
  by (induction t) (auto simp: sql_update_def)

lemma sql_rowcount_0_iff: "sql_rowcount P t = 0 \<longleftrightarrow> (\<forall>r \<in> set t. \<not> P r)"
  by (auto simp: sql_rowcount_def filter_empty_conv)

lemma sql_update_none: "sql_rowcount P t = 0 \<Longrightarrow> sql_update P f t = t"
  by (simp add: sql_rowcount_0_iff sql_update_id)

lemma map_sql_update:
  "(\<And>r. r \<in> set t \<Longrightarrow> P r \<Longrightarrow> k (f r) = k r) \<Longrightarrow> map k (sql_update P f t) = map k t"
  by (auto simp: sql_update_def)

lemma fetchone_None_iff: "fetchone rs = None \<longleftrightarrow> rs = []"
  by (cases rs) auto

lemma fetchone_mem: "fetchone rs = Some r \<Longrightarrow> r \<in> set rs"
  by (cases rs) auto

lemma fetchone_select_Some: "fetchone (sql_select P t) = Some r \<Longrightarrow> r \<in> set t \<and> P r"
  by (drule fetchone_mem) simp

lemma fetchone_select_None: "fetchone (sql_select P t) = None \<longleftrightarrow> (\<forall>r \<in> set t. \<not> P r)"
  by (auto simp: fetchone_None_iff sql_select_def filter_empty_conv)

text \<open>Lookup by a key column.\<close>

abbreviation row_by :: "('r \<Rightarrow> 'k) \<Rightarrow> 'k \<Rightarrow> 'r sql_table \<Rightarrow> 'r option" where
  "row_by key k t \<equiv> fetchone (sql_select (\<lambda>r. key r = k) t)"

lemma row_by_SomeD: "row_by key k t = Some r \<Longrightarrow> r \<in> set t \<and> key r = k"
  by (rule fetchone_select_Some)

lemma row_by_None_iff: "row_by key k t = None \<longleftrightarrow> k \<notin> key ` set t"
  by (simp only: fetchone_select_None) auto

lemma row_by_unique:
  assumes "distinct (map key t)" and "r \<in> set t"
  shows "row_by key (key r) t = Some r"
  using assms by (induction t) (auto simp: sql_select_def)

lemma distinct_key_eq:
  "distinct (map key t) \<Longrightarrow> r \<in> set t \<Longrightarrow> s \<in> set t \<Longrightarrow> key r = key s \<Longrightarrow> r = s"
  by (metis row_by_unique option.inject)

lemma row_by_iff:
  assumes "distinct (map key t)"
  shows "row_by key k t = Some r \<longleftrightarrow> r \<in> set t \<and> key r = k"
  using assms row_by_unique row_by_SomeD by metis

text \<open>A statement that keeps the key column moves a row exactly when it matches.\<close>

lemma row_by_sql_update:
  assumes "\<And>r. r \<in> set t \<Longrightarrow> P r \<Longrightarrow> key (f r) = key r"
  shows "row_by key k (sql_update P f t) =
    map_option (\<lambda>r. if P r then f r else r) (row_by key k t)"
  using assms by (induction t) (auto simp: sql_select_def sql_update_def)

lemma row_by_sql_update_proj:
  assumes "\<And>r. P r \<Longrightarrow> key (f r) = key r" and "\<And>r. P r \<Longrightarrow> h (f r) = h r"
  shows "map_option h (row_by key k (sql_update P f t)) = map_option h (row_by key k t)"
  using assms by (simp add: row_by_sql_update option.map_comp comp_def)
    (cases "row_by key k t", auto)

lemma row_by_append:
  "row_by key k (t @ [r]) =
    (case row_by key k t of Some x \<Rightarrow> Some x | None \<Rightarrow> if key r = k then Some r else None)"
  by (cases "sql_select (\<lambda>r. key r = k) t") (auto simp: sql_select_def)

lemma sql_rowcount_key:
  assumes "distinct (map key t)" and "r \<in> set t" and "P r" and "\<And>x. P x \<Longrightarrow> key x = key r"
  shows "sql_rowcount P t = 1"
proof -
  have "filter P t = filter (\<lambda>x. key x = key r \<and> P x) t"
    using assms(4) by (intro filter_cong) auto
  also have "\<dots> = [r]"
    using assms(1,2,3)
  proof (induction t)
    case Nil
    then show ?case by simp
  next
    case (Cons y t)
    show ?case
    proof (cases "y = r")
      case True
      with Cons.prems have "\<forall>x \<in> set t. key x \<noteq> key r"
        by (metis distinct.simps(2) image_eqI list.map(2) list.set_map)
      then have "filter (\<lambda>x. key x = key r \<and> P x) t = []" by (simp add: filter_empty_conv)
      with True Cons.prems show ?thesis by simp
    next
      case False
      with Cons.prems have "key y \<noteq> key r" by (auto simp: image_iff)
      with False Cons show ?thesis by auto
    qed
  qed
  finally show ?thesis by (simp add: sql_rowcount_def)
qed

lemma sql_rowcount_le_1:
  assumes "distinct (map key t)" and "\<And>x. P x \<Longrightarrow> key x = k"
  shows "sql_rowcount P t \<le> 1"
proof (cases "\<exists>r \<in> set t. P r")
  case True
  then obtain r where r: "r \<in> set t" "P r" by auto
  then have "sql_rowcount P t = 1"
    using assms by (intro sql_rowcount_key [of key]) auto
  then show ?thesis by simp
next
  case False
  then show ?thesis by (auto simp: sql_rowcount_def filter_empty_conv)
qed

lemma fold_max_ge: "(m::int) \<le> fold (\<lambda>r m. max m (key r)) t m"
proof (induction t arbitrary: m)
  case Nil
  then show ?case by simp
next
  case (Cons r t)
  show ?case using Cons [of "max m (key r)"] by simp
qed

lemma next_rowid_fresh: "r \<in> set t \<Longrightarrow> key r < next_rowid key t"
proof -
  have "r \<in> set t \<Longrightarrow> key r \<le> fold (\<lambda>r m. max m (key r)) t m" for m
  proof (induction t arbitrary: m)
    case Nil
    then show ?case by simp
  next
    case (Cons x t)
    then show ?case using fold_max_ge [of "max m (key x)" key t] by auto
  qed
  then show "r \<in> set t \<Longrightarrow> ?thesis" by (fastforce simp: next_rowid_def)
qed

lemma next_rowid_pos: "0 < next_rowid key t"
  using fold_max_ge [of 0 key t] by (simp add: next_rowid_def)

section \<open>Text\<close>

text \<open>The number of code points of a UTF-8 text: its bytes that do not continue a code point.\<close>

definition py_len :: "string \<Rightarrow> nat" where
  "py_len s = length (filter (\<lambda>c. \<not> (128 \<le> (of_char c :: nat) \<and> of_char c < (192 :: nat))) s)"

definition is_lower :: "char \<Rightarrow> bool" where
  "is_lower c \<longleftrightarrow> CHR ''a'' \<le> c \<and> c \<le> CHR ''z''"

definition is_upper :: "char \<Rightarrow> bool" where
  "is_upper c \<longleftrightarrow> CHR ''A'' \<le> c \<and> c \<le> CHR ''Z''"

definition is_digit :: "char \<Rightarrow> bool" where
  "is_digit c \<longleftrightarrow> CHR ''0'' \<le> c \<and> c \<le> CHR ''9''"

definition digit_char :: "nat \<Rightarrow> char" where
  "digit_char d = char_of (48 + d)"

text \<open>\<open>str(n)\<close> of an integer.\<close>

fun show_nat :: "nat \<Rightarrow> string" where
  "show_nat n = (if n < 10 then [digit_char n] else show_nat (n div 10) @ [digit_char (n mod 10)])"

declare show_nat.simps [simp del]

definition show_int :: "int \<Rightarrow> string" where
  "show_int i = (if i < 0 then CHR ''-'' # show_nat (nat (- i)) else show_nat (nat i))"

lemma show_nat_nonempty [simp]: "show_nat n \<noteq> []"
  by (subst show_nat.simps) simp

text \<open>\<open>max(lo, min(limit, hi))\<close>, the bound every listing puts on its limit.\<close>

definition bounded_limit :: "int \<Rightarrow> int \<Rightarrow> nat" where
  "bounded_limit hi limit = nat (max 1 (min limit hi))"

lemma bounded_limit_bounds: "1 \<le> hi \<Longrightarrow> 1 \<le> bounded_limit hi limit \<and> int (bounded_limit hi limit) \<le> hi"
  by (auto simp: bounded_limit_def)

end
