(* ===== verification/Iso_Time.thy ===== *)
theory Iso_Time
  imports Swarm_Prelude
begin

text \<open>
  Timestamps. The services read a clock, convert the value to UTC and store
  \<open>datetime.isoformat()\<close> in TEXT columns; every deadline (leases, claims, approvals) is then
  decided by comparing two such texts, in SQL or in Python. This theory models a datetime as
  the microseconds since 0001-01-01T00:00 UTC, writes \<open>isoformat\<close> out (the fraction is omitted
  when it is zero, as Python does) and proves that comparing the texts compares the instants.
\<close>

section \<open>The civil calendar\<close>

definition days_before_year :: "nat \<Rightarrow> nat" where
  "days_before_year y = 365 * y + y div 4 + y div 400 - y div 100"

text \<open>The number of whole years before a day, by the 400, 100, 4 and 1 year cycles.\<close>

definition year_offset :: "nat \<Rightarrow> nat" where
  "year_offset n =
    (let q = n div 146097; r = n mod 146097;
         a = min 3 (r div 36524); r1 = r - a * 36524;
         b = r1 div 1461; r2 = r1 - b * 1461;
         c = min 3 (r2 div 365)
     in 400 * q + 100 * a + 4 * b + c)"

definition is_leap_offset :: "nat \<Rightarrow> bool" where
  "is_leap_offset y \<longleftrightarrow>
    (y + 1) mod 4 = 0 \<and> ((y + 1) mod 100 \<noteq> 0 \<or> (y + 1) mod 400 = 0)"

definition month_lengths :: "bool \<Rightarrow> nat list" where
  "month_lengths leap = [31, if leap then 29 else 28, 31, 30, 31, 30, 31, 31, 30, 31, 30, 31]"

fun split_months :: "nat \<Rightarrow> nat list \<Rightarrow> nat \<Rightarrow> nat \<times> nat" where
  "split_months m [] d = (m, d + 1)"
| "split_months m (l # ls) d = (if d < l then (m, d + 1) else split_months (m + 1) ls (d - l))"

definition civil :: "nat \<Rightarrow> nat \<times> nat \<times> nat" where
  "civil n =
    (let y = year_offset n
     in (y + 1, split_months 1 (month_lengths (is_leap_offset y)) (n - days_before_year y)))"

lemma days_before_year_cycle:
  assumes "a \<le> 3" "b \<le> 24" "c \<le> 3"
  shows "days_before_year (400 * q + 100 * a + 4 * b + c) =
    146097 * q + 36524 * a + 1461 * b + 365 * c"
proof -
  have "(400 * q + 100 * a + 4 * b + c) div 4 = 100 * q + 25 * a + b" using assms by arith
  moreover have "(400 * q + 100 * a + 4 * b + c) div 100 = 4 * q + a" using assms by arith
  moreover have "(400 * q + 100 * a + 4 * b + c) div 400 = q" using assms by arith
  ultimately show ?thesis by (simp add: days_before_year_def)
qed

lemma days_before_year_mono: "y \<le> z \<Longrightarrow> days_before_year y \<le> days_before_year z"
proof (rule lift_Suc_mono_le [of days_before_year])
  fix n :: nat
  have "Suc n div 100 \<le> Suc (n div 100)" and "n div 4 \<le> Suc n div 4"
    and "n div 400 \<le> Suc n div 400"
    by (simp_all add: div_Suc)
  moreover have "z' \<le> Suc z \<Longrightarrow> x \<le> x' \<Longrightarrow> y \<le> y' \<Longrightarrow>
      365 * n + x + y - z \<le> 365 * Suc n + x' + y' - z'" for x x' y y' z z' :: nat
    by simp
  ultimately show "days_before_year n \<le> days_before_year (Suc n)"
    unfolding days_before_year_def by blast
qed

lemma year_offset_bounds:
  "days_before_year (year_offset n) \<le> n \<and> n < days_before_year (Suc (year_offset n))"
proof -
  define q where "q = n div 146097"
  define r where "r = n mod 146097"
  define a where "a = min 3 (r div 36524)"
  define r1 where "r1 = r - a * 36524"
  define b where "b = r1 div 1461"
  define r2 where "r2 = r1 - b * 1461"
  define c where "c = min 3 (r2 div 365)"
  have y: "year_offset n = 400 * q + 100 * a + 4 * b + c"
    by (simp only: year_offset_def Let_def q_def r_def a_def r1_def b_def r2_def c_def)
  have n: "n = 146097 * q + r" and r: "r < 146097" by (simp_all add: q_def r_def)
  have a: "a \<le> 3" by (simp add: a_def)
  have "a * 36524 \<le> r div 36524 * 36524" by (simp add: a_def)
  then have ra: "r = 36524 * a + r1" by (simp add: r1_def)
  have "r < r div 36524 * 36524 + 36524"
    using div_mod_decomp [of r 36524] mod_less_divisor [of 36524 r] by linarith
  then have "a = r div 36524 \<Longrightarrow> r1 < 36524" using ra by linarith
  moreover have "a = r div 36524 \<or> a = 3" unfolding a_def by linarith
  ultimately have r1: "r1 < 36524 \<or> a = 3 \<and> r1 \<le> 36524" using r ra by linarith
  have rb: "r1 = 1461 * b + r2" and r2: "r2 < 1461"
    by (simp_all add: b_def r2_def minus_div_mult_eq_mod [symmetric] mult.commute)
  have "r1 \<le> 36524" using r1 by linarith
  then have b: "b \<le> 24" using div_le_mono [of r1 36524 1461] by (simp add: b_def)
  have r2': "b = 24 \<Longrightarrow> a < 3 \<Longrightarrow> r2 < 1460" using r1 rb by simp
  have c: "c \<le> 3" and rc: "365 * c \<le> r2" and r3: "c < 3 \<Longrightarrow> r2 < 365 * c + 365"
    by (auto simp: c_def min_def split: if_splits)
  have lo: "days_before_year (year_offset n) = 146097 * q + 36524 * a + 1461 * b + 365 * c"
    using a b c by (simp add: y days_before_year_cycle)
  have "n < days_before_year (Suc (year_offset n))"
  proof (cases "c < 3")
    case True
    then have "days_before_year (Suc (year_offset n)) =
        146097 * q + 36524 * a + 1461 * b + 365 * (c + 1)"
      using a b days_before_year_cycle [of a b "c + 1" q] by (simp add: y)
    with True r3 n ra rb show ?thesis by simp
  next
    case c3: False
    show ?thesis
    proof (cases "b < 24")
      case True
      with c3 c have "Suc (year_offset n) = 400 * q + 100 * a + 4 * (b + 1) + 0" by (simp add: y)
      with True a have "days_before_year (Suc (year_offset n)) =
          146097 * q + 36524 * a + 1461 * (b + 1)"
        using days_before_year_cycle [of a "b + 1" 0 q] by (simp only: mult_0_right add_0_right)
      with n ra rb r2 show ?thesis by simp
    next
      case b24: False
      show ?thesis
      proof (cases "a < 3")
        case True
        with c3 c b24 b have "Suc (year_offset n) = 400 * q + 100 * (a + 1) + 4 * 0 + 0"
          by (simp add: y)
        with True have "days_before_year (Suc (year_offset n)) = 146097 * q + 36524 * (a + 1)"
          using days_before_year_cycle [of "a + 1" 0 0 q] by (simp only: mult_0_right add_0_right)
        with n ra rb r2' b24 b True show ?thesis by simp
      next
        case False
        with c3 c b24 b a have "Suc (year_offset n) = 400 * (q + 1) + 100 * 0 + 4 * 0 + 0"
          by (simp add: y)
        then have "days_before_year (Suc (year_offset n)) = 146097 * (q + 1)"
          using days_before_year_cycle [of 0 0 0 "q + 1"] by simp
        with n r show ?thesis by simp
      qed
    qed
  qed
  moreover have "days_before_year (year_offset n) \<le> n"
    using lo n ra rb rc by simp
  ultimately show ?thesis by simp
qed

lemma year_offset_mono: "m \<le> n \<Longrightarrow> year_offset m \<le> year_offset n"
proof (rule ccontr)
  assume "m \<le> n" "\<not> year_offset m \<le> year_offset n"
  then have "Suc (year_offset n) \<le> year_offset m" by simp
  from days_before_year_mono [OF this] have "n < m"
    using year_offset_bounds [of m] year_offset_bounds [of n] by simp
  with \<open>m \<le> n\<close> show False by simp
qed

lemma split_months_mono:
  "d < e \<Longrightarrow> split_months m ls d < split_months m ls e"
proof (induction ls arbitrary: m d e)
  case Nil
  then show ?case by (simp add: less_prod_def)
next
  case (Cons l ls)
  have ge: "m \<le> fst (split_months m ls d)" for m d
    by (induction ls arbitrary: m d) (auto intro: order.trans [OF le_SucI, rotated] Suc_leD)
  show ?case
  proof (cases "e < l")
    case True
    with Cons.prems show ?thesis by (simp add: less_prod_def)
  next
    case False
    show ?thesis
    proof (cases "d < l")
      case True
      with False ge [of "m + 1" "e - l"] show ?thesis by (simp add: less_prod_def')
    next
      case False
      with Cons show ?thesis by simp
    qed
  qed
qed

lemma civil_mono: "m < n \<Longrightarrow> civil m < civil n"
proof -
  assume less: "m < n"
  then have le: "year_offset m \<le> year_offset n" by (simp add: year_offset_mono)
  show ?thesis
  proof (cases "year_offset m = year_offset n")
    case True
    have "m - days_before_year (year_offset m) < n - days_before_year (year_offset m)"
      using less year_offset_bounds [of m] by (intro diff_less_mono) simp_all
    then have "split_months 1 ls (m - days_before_year (year_offset m))
        < split_months 1 ls (n - days_before_year (year_offset m))" for ls
      by (rule split_months_mono)
    then show ?thesis
      by (simp add: civil_def Let_def True [symmetric] less_prod_def')
  next
    case False
    with le show ?thesis by (simp add: civil_def Let_def less_prod_def')
  qed
qed

section \<open>The ISO text of an instant\<close>

text \<open>\<open>f"{n:0{w}d}"\<close>: the last \<open>w\<close> decimal digits.\<close>

fun pad :: "nat \<Rightarrow> nat \<Rightarrow> string" where
  "pad 0 n = []"
| "pad (Suc w) n = pad w (n div 10) @ [digit_char (n mod 10)]"

definition iso_date :: "nat \<Rightarrow> string" where
  "iso_date d = (case civil d of (y, m, dd) \<Rightarrow> pad 4 y @ ''-'' @ pad 2 m @ ''-'' @ pad 2 dd)"

definition iso_clock :: "nat \<Rightarrow> string" where
  "iso_clock s = pad 2 (s div 3600) @ '':'' @ pad 2 (s div 60 mod 60) @ '':'' @ pad 2 (s mod 60)"

definition iso_fraction :: "nat \<Rightarrow> string" where
  "iso_fraction u = (if u = 0 then [] else ''.'' @ pad 6 u) @ ''+00:00''"

definition us_per_second :: nat where "us_per_second = 1000000"
definition us_per_day :: nat where "us_per_day = 86400000000"

text \<open>9999-12-31T23:59:59.999999 is the last instant Python represents.\<close>

definition max_instant :: nat where "max_instant = 3652059 * us_per_day"

definition isoformat :: "nat \<Rightarrow> string" where
  "isoformat t = iso_date (t div us_per_day) @ ''T'' @
     iso_clock (t mod us_per_day div us_per_second) @ iso_fraction (t mod us_per_second)"

lemma append_less_iff:
  "length xs = length ys \<Longrightarrow>
    (xs @ us < ys @ vs) = (xs < ys \<or> xs = ys \<and> us < (vs :: 'a::order list))"
  by (induction xs ys rule: list_induct2) auto

lemma length_pad [simp]: "length (pad w n) = w"
  by (induction w arbitrary: n) auto

lemma of_char_digit: "d < 10 \<Longrightarrow> of_char (digit_char d) = 48 + d"
  by (simp add: digit_char_def)

lemma digit_char_less_iff: "d < 10 \<Longrightarrow> e < 10 \<Longrightarrow> digit_char d < digit_char e \<longleftrightarrow> d < e"
  by (simp add: less_char_def of_char_digit)

lemma digit_char_eq_iff: "d < 10 \<Longrightarrow> e < 10 \<Longrightarrow> digit_char d = digit_char e \<longleftrightarrow> d = e"
  using digit_char_less_iff [of d e] digit_char_less_iff [of e d] by (metis less_irrefl linorder_neqE_nat)

lemma pad_less: "m < n \<Longrightarrow> n < 10 ^ w \<Longrightarrow> pad w m < pad w n"
proof (induction w arbitrary: m n)
  case 0
  then show ?case by simp
next
  case (Suc w)
  show ?case
  proof (cases "m div 10 = n div 10")
    case True
    with \<open>m < n\<close> have "m mod 10 < n mod 10" by (metis div_mult_mod_eq nat_add_left_cancel_less)
    then show ?thesis by (simp add: append_less_iff True digit_char_less_iff)
  next
    case False
    with \<open>m < n\<close> have "m div 10 < n div 10" by (simp add: div_le_mono le_neq_implies_less)
    moreover have "n div 10 < 10 ^ w" using Suc.prems by (simp add: less_mult_imp_div_less)
    ultimately show ?thesis using Suc.IH by (simp add: append_less_iff)
  qed
qed

lemma split_months_month: "fst (split_months m ls d) \<le> m + length ls"
proof (induction ls arbitrary: m d)
  case Nil
  then show ?case by simp
next
  case (Cons l ls)
  from Cons [of "m + 1" "d - l"] show ?case by simp
qed

lemma split_months_day:
  "d < sum_list ls + k \<Longrightarrow> \<forall>l \<in> set ls. l \<le> 31 \<Longrightarrow> snd (split_months m ls d) \<le> max 31 k"
  by (induction ls arbitrary: m d) (auto simp: less_diff_conv2)

lemma days_before_year_Suc: "days_before_year (Suc y) \<le> days_before_year y + 367"
proof -
  have "y div 100 \<le> Suc y div 100" and "Suc y div 4 \<le> Suc (y div 4)"
    and "Suc y div 400 \<le> Suc (y div 400)" and "y div 100 \<le> y"
    by (simp_all add: div_Suc)
  moreover have "b \<le> b' \<Longrightarrow> a' \<le> Suc a \<Longrightarrow> c' \<le> Suc c \<Longrightarrow> b \<le> y \<Longrightarrow>
      365 * Suc y + a' + c' - b' \<le> 365 * y + a + c - b + 367" for a a' b b' c c' :: nat
    by simp
  ultimately show ?thesis unfolding days_before_year_def by blast
qed

lemma civil_bounds:
  assumes "n < 3652059" "civil n = (y, m, d)"
  shows "y < 10 ^ 4" "m < 10 ^ 2" "d < 10 ^ 2"
proof -
  let ?o = "year_offset n"
  let ?ls = "month_lengths (is_leap_offset ?o)"
  have *: "y = ?o + 1" "(m, d) = split_months 1 ?ls (n - days_before_year ?o)"
    using assms(2) by (simp_all add: civil_def Let_def)
  have "?o < 9999"
  proof (rule ccontr)
    assume "\<not> ?thesis"
    then have "days_before_year 9999 \<le> n"
      using days_before_year_mono year_offset_bounds [of n] order.trans by (metis not_less)
    with assms(1) show False by (simp add: days_before_year_def)
  qed
  with * show "y < 10 ^ 4" by simp
  have "fst (m, d) \<le> 1 + length ?ls" unfolding * by (rule split_months_month)
  then show "m < 10 ^ 2" by (simp add: month_lengths_def)
  have "n - days_before_year ?o < 367"
    using year_offset_bounds [of n] days_before_year_Suc [of ?o] by linarith
  then have "snd (m, d) \<le> max 31 2"
    unfolding * by (intro split_months_day) (auto simp: month_lengths_def)
  then show "d < 10 ^ 2" by simp
qed

lemma iso_date_mono:
  assumes "m < n" "n < 3652059"
  shows "iso_date m < iso_date n"
proof -
  obtain y1 m1 d1 where c1: "civil m = (y1, m1, d1)" by (cases "civil m")
  obtain y2 m2 d2 where c2: "civil n = (y2, m2, d2)" by (cases "civil n")
  note civil_bounds [OF assms(2) c2]
  moreover have "y1 < y2 \<or> y1 = y2 \<and> (m1 < m2 \<or> m1 = m2 \<and> d1 < d2)"
    using civil_mono [OF assms(1)] by (simp add: c1 c2 less_prod_def')
  ultimately show ?thesis
    by (auto simp: iso_date_def c1 c2 append_less_iff intro: pad_less)
qed

lemma iso_clock_mono:
  assumes "s < t" "t < 86400"
  shows "iso_clock s < iso_clock t"
proof -
  have 1: "s div 3600 \<le> t div 3600" "t div 3600 < 100" "t div 60 mod 60 < 100" "t mod 60 < 100"
    using assms by (auto simp: div_le_mono intro: order.strict_trans [of _ 60])
  have 2: "s div 60 mod 60 \<le> t div 60 mod 60" if "s div 3600 = t div 3600"
  proof -
    have "s div 60 div 60 = t div 60 div 60" using that by (simp add: div_mult2_eq [symmetric])
    moreover have "s div 60 \<le> t div 60" using assms by (simp add: div_le_mono)
    ultimately show ?thesis by (metis div_mult_mod_eq nat_add_left_cancel_le)
  qed
  have 3: "s mod 60 < t mod 60" if "s div 3600 = t div 3600" "s div 60 mod 60 = t div 60 mod 60"
  proof -
    have "s div 60 div 60 = t div 60 div 60" using that by (simp add: div_mult2_eq [symmetric])
    with that have "s div 60 = t div 60" by (metis div_mult_mod_eq)
    with assms(1) show ?thesis by (metis div_mult_mod_eq nat_add_left_cancel_less)
  qed
  from 1 2 3 consider "s div 3600 < t div 3600"
    | "s div 3600 = t div 3600" "s div 60 mod 60 < t div 60 mod 60"
    | "s div 3600 = t div 3600" "s div 60 mod 60 = t div 60 mod 60" "s mod 60 < t mod 60"
    by (metis le_neq_implies_less)
  then show ?thesis
    using 1 by cases (auto simp: iso_clock_def append_less_iff intro: pad_less)
qed

lemma iso_fraction_mono:
  assumes "u < v" "v < 1000000"
  shows "iso_fraction u < iso_fraction v"
  using assms pad_less [OF assms(1), of 6]
  by (auto simp: iso_fraction_def append_less_iff less_char_def simp del: pad.simps)

lemma length_iso_date [simp]: "length (iso_date d) = 10"
  by (auto simp: iso_date_def simp del: pad.simps split: prod.splits)

lemma length_iso_clock [simp]: "length (iso_clock s) = 8"
  by (simp add: iso_clock_def del: pad.simps)

text \<open>Later instants have greater texts, whether or not either has a fraction.\<close>

lemma isoformat_mono:
  assumes "s < t" "t < max_instant"
  shows "isoformat s < isoformat t"
proof -
  let ?sec = "\<lambda>t. t mod us_per_day div us_per_second"
  have d: "t div us_per_day < 3652059"
    using assms(2) by (simp add: max_instant_def less_mult_imp_div_less)
  have frac: "t mod us_per_second < 1000000" by (simp add: us_per_second_def)
  have sec: "?sec t < 86400"
    by (rule less_mult_imp_div_less) (simp add: us_per_day_def us_per_second_def)
  have split: "t mod us_per_second = t mod us_per_day mod us_per_second" for t
    by (simp add: us_per_day_def us_per_second_def mod_mod_cancel)
  consider "s div us_per_day < t div us_per_day"
    | "s div us_per_day = t div us_per_day" "s mod us_per_day < t mod us_per_day"
    using assms(1) by (metis div_le_mono div_mult_mod_eq le_neq_implies_less less_imp_le
      nat_add_left_cancel_less)
  then show ?thesis
  proof cases
    case 1
    then show ?thesis using iso_date_mono [OF 1 d] by (simp add: isoformat_def append_less_iff)
  next
    case 2
    show ?thesis
    proof (cases "?sec s = ?sec t")
      case True
      with 2 have "s mod us_per_second < t mod us_per_second"
        by (metis split div_mult_mod_eq nat_add_left_cancel_less)
      then show ?thesis using iso_fraction_mono [OF _ frac] 2 True
        by (simp add: isoformat_def append_less_iff)
    next
      case False
      with 2 have "?sec s < ?sec t" by (simp add: div_le_mono le_neq_implies_less)
      then show ?thesis using iso_clock_mono [OF _ sec] 2
        by (simp add: isoformat_def append_less_iff)
    qed
  qed
qed

lemma isoformat_less_iff:
  assumes "s < max_instant" "t < max_instant"
  shows "isoformat s < isoformat t \<longleftrightarrow> s < t"
  using assms isoformat_mono [of s t] isoformat_mono [of t s]
  by (metis less_asym' less_irrefl linorder_neqE_nat)

lemma isoformat_le_iff:
  assumes "s < max_instant" "t < max_instant"
  shows "isoformat s \<le> isoformat t \<longleftrightarrow> s \<le> t"
  using isoformat_less_iff [OF assms(2,1)] by (simp add: not_less [symmetric])

section \<open>Datetimes as the services read them\<close>

text \<open>
  A value of the clock: an instant and whether it carries a time zone. \<open>astimezone(UTC)\<close> keeps
  the instant.
\<close>

record py_datetime =
  dt_instant :: nat
  dt_aware :: bool

definition dt_add_seconds :: "nat \<Rightarrow> int \<Rightarrow> py_error + nat" where
  "dt_add_seconds t s =
     (let t' = int t + s * int us_per_second
      in if 0 \<le> t' \<and> t' < int max_instant then Inr (nat t')
         else Inl (OverflowError ''date value out of range''))"

lemma dt_add_seconds_Inr:
  "dt_add_seconds t s = Inr t' \<Longrightarrow> t' < max_instant \<and> int t' = int t + s * int us_per_second"
  by (auto simp: dt_add_seconds_def Let_def split: if_splits)

end
