(* ===== verification/Control_Plane_Instance.thy ===== *)
theory Control_Plane_Instance
  imports Iso_Time
begin

text \<open>
  \<open>server/app/services/control_plane_instance.py\<close>: one random identity per boot of the control
  plane, persisted in \<open>control_plane_instances\<close>. Leases are owned by these identities.
\<close>

record instance_row =
  ci_instance_id :: string
  ci_hostname_label :: string
  ci_version :: string
  ci_started_at :: string
  ci_heartbeat_at :: string
  ci_stopped_at :: "string option"

record instance_db =
  control_plane_instances :: "instance_row sql_table"

record instance_service =
  is_version :: string
  is_instance_id :: string
  is_hostname_label :: string

section \<open>Construction\<close>

text \<open>\<open>str.strip()\<close> over the ASCII white space; \<open>strip(c)\<close> over one character.\<close>

definition py_space :: "char \<Rightarrow> bool" where
  "py_space c \<longleftrightarrow> (let n = of_char c :: nat in 9 \<le> n \<and> n \<le> 13 \<or> 28 \<le> n \<and> n \<le> 32)"

definition rstrip_by :: "(char \<Rightarrow> bool) \<Rightarrow> string \<Rightarrow> string" where
  "rstrip_by P s = rev (dropWhile P (rev s))"

definition strip_by :: "(char \<Rightarrow> bool) \<Rightarrow> string \<Rightarrow> string" where
  "strip_by P s = rstrip_by P (dropWhile P s)"

definition ascii_lower :: "char \<Rightarrow> char" where
  "ascii_lower c = (if is_upper c then char_of (of_char c + 32 :: nat) else c)"

definition label_char :: "char \<Rightarrow> bool" where
  "label_char c \<longleftrightarrow> is_lower c \<or> is_digit c"

text \<open>\<open>re.sub(r"[^a-z0-9]+", "-", s)\<close>: a run of other characters becomes one dash.\<close>

fun dash_runs :: "bool \<Rightarrow> string \<Rightarrow> string" where
  "dash_runs in_run [] = []"
| "dash_runs in_run (c # s) =
    (if label_char c then c # dash_runs False s
     else if in_run then dash_runs True s
     else CHR ''-'' # dash_runs True s)"

definition safe_hostname_label :: "string \<Rightarrow> string" where
  "safe_hostname_label hostname =
    (let normalized = strip_by (\<lambda>c. c = CHR ''-'') (dash_runs False (map ascii_lower hostname));
         label = rstrip_by (\<lambda>c. c = CHR ''-'') (take 48 normalized)
     in if label = [] then ''host'' else label)"

text \<open>\<open>^[A-Za-z0-9._:-]{1,128}$\<close>\<close>

definition valid_instance_id :: "string \<Rightarrow> bool" where
  "valid_instance_id s \<longleftrightarrow> s \<noteq> [] \<and> length s \<le> 128 \<and>
    list_all (\<lambda>c. is_lower c \<or> is_upper c \<or> is_digit c \<or> c \<in> set ''._:-'') s"

definition new_instance_service ::
    "string \<Rightarrow> string option \<Rightarrow> string \<Rightarrow> string \<Rightarrow> py_error + instance_service" where
  "new_instance_service version instance_id uuid_hex hostname =
    (let normalized_version = strip_by py_space version;
         generated_id = (case instance_id of
           Some i \<Rightarrow> if i = [] then ''cp_'' @ uuid_hex else i | None \<Rightarrow> ''cp_'' @ uuid_hex)
     in if normalized_version = [] \<or> py_len normalized_version > 64 \<or>
           list_ex (\<lambda>c. (of_char c :: nat) < 32) normalized_version
        then Inl (ValueError ''control-plane version must be a short printable value'')
        else if \<not> valid_instance_id generated_id
        then Inl (ValueError ''control-plane instance ID has an invalid format'')
        else Inr \<lparr>is_version = normalized_version, is_instance_id = generated_id,
                  is_hostname_label = safe_hostname_label hostname\<rparr>)"

definition instance_now :: "py_datetime \<Rightarrow> py_error + string" where
  "instance_now value =
    (if \<not> dt_aware value
     then Inl (RuntimeError ''control-plane instance clock must be timezone-aware'')
     else Inr (isoformat (dt_instant value)))"

section \<open>Operations\<close>

definition instance_start ::
    "instance_service \<Rightarrow> py_datetime \<Rightarrow> 'z instance_db_scheme
      \<Rightarrow> (py_error + instance_row) \<times> 'z instance_db_scheme" where
  "instance_start svc clk = transaction (\<lambda>db.
    and_then (instance_now clk) (\<lambda>now.
    and_then
      (case row_by ci_instance_id (is_instance_id svc) (control_plane_instances db) of
         None \<Rightarrow> Inr (db\<lparr>control_plane_instances := control_plane_instances db @
           [\<lparr>ci_instance_id = is_instance_id svc, ci_hostname_label = is_hostname_label svc,
             ci_version = is_version svc, ci_started_at = now, ci_heartbeat_at = now,
             ci_stopped_at = None\<rparr>]\<rparr>)
       | Some row \<Rightarrow>
           if ci_stopped_at row \<noteq> None
           then Inl (ControlPlaneInstanceConflict ''stopped instance identity cannot restart'')
           else if ci_hostname_label row \<noteq> is_hostname_label svc \<or> ci_version row \<noteq> is_version svc
           then Inl (ControlPlaneInstanceConflict ''instance identity metadata does not match'')
           else Inr (db\<lparr>control_plane_instances :=
             sql_update (\<lambda>r. ci_instance_id r = is_instance_id svc \<and> ci_stopped_at r = None)
               (\<lambda>r. r\<lparr>ci_heartbeat_at := now\<rparr>) (control_plane_instances db)\<rparr>))
      (\<lambda>db'. case row_by ci_instance_id (is_instance_id svc) (control_plane_instances db') of
         None \<Rightarrow> Inl (RuntimeError ''control-plane instance registration was not persisted'')
       | Some current \<Rightarrow> Inr (current, db'))))"

definition instance_heartbeat ::
    "instance_service \<Rightarrow> py_datetime \<Rightarrow> 'z instance_db_scheme
      \<Rightarrow> (py_error + instance_row) \<times> 'z instance_db_scheme" where
  "instance_heartbeat svc clk = transaction (\<lambda>db.
    and_then (instance_now clk) (\<lambda>now.
      let live = (\<lambda>r. ci_instance_id r = is_instance_id svc \<and> ci_stopped_at r = None);
          db' = db\<lparr>control_plane_instances :=
            sql_update live (\<lambda>r. r\<lparr>ci_heartbeat_at := now\<rparr>) (control_plane_instances db)\<rparr>
      in if sql_rowcount live (control_plane_instances db) \<noteq> 1
         then Inl (ControlPlaneInstanceConflict ''instance is missing or already stopped'')
         else case row_by ci_instance_id (is_instance_id svc) (control_plane_instances db') of
           None \<Rightarrow> Inl (RuntimeError ''control-plane instance heartbeat was not persisted'')
         | Some current \<Rightarrow> Inr (current, db')))"

definition instance_stop ::
    "instance_service \<Rightarrow> py_datetime \<Rightarrow> 'z instance_db_scheme
      \<Rightarrow> (py_error + instance_row) \<times> 'z instance_db_scheme" where
  "instance_stop svc clk = transaction (\<lambda>db.
    and_then (instance_now clk) (\<lambda>now.
      case row_by ci_instance_id (is_instance_id svc) (control_plane_instances db) of
        None \<Rightarrow> Inl (ControlPlaneInstanceConflict ''instance is not registered'')
      | Some row \<Rightarrow>
          let db' = (if ci_stopped_at row = None
            then db\<lparr>control_plane_instances :=
              sql_update (\<lambda>r. ci_instance_id r = is_instance_id svc \<and> ci_stopped_at r = None)
                (\<lambda>r. r\<lparr>ci_heartbeat_at := now, ci_stopped_at := Some now\<rparr>)
                (control_plane_instances db)\<rparr>
            else db)
          in (case row_by ci_instance_id (is_instance_id svc) (control_plane_instances db') of
            None \<Rightarrow> Inl (RuntimeError ''control-plane instance stop was not persisted'')
          | Some current \<Rightarrow> Inr (current, db'))))"

text \<open>An identity that is registered and has not stopped.\<close>

definition instance_active :: "string \<Rightarrow> 'z instance_db_scheme \<Rightarrow> bool" where
  "instance_active i db \<longleftrightarrow>
    (\<exists>r \<in> set (control_plane_instances db). ci_instance_id r = i \<and> ci_stopped_at r = None)"

definition instance_wf :: "'z instance_db_scheme \<Rightarrow> bool" where
  "instance_wf db \<longleftrightarrow> distinct (map ci_instance_id (control_plane_instances db))"

section \<open>Lemmas\<close>

lemma instance_start_wf: "instance_wf db \<Longrightarrow> instance_wf (snd (instance_start svc clk db))"
  unfolding instance_start_def
  by (rule transaction_preserves, assumption)
    (auto simp: instance_wf_def map_sql_update row_by_None_iff
      split: option.split_asm if_split_asm)

lemma instance_heartbeat_wf: "instance_wf db \<Longrightarrow> instance_wf (snd (instance_heartbeat svc clk db))"
  unfolding instance_heartbeat_def
  by (rule transaction_preserves, assumption)
    (auto simp: instance_wf_def Let_def map_sql_update
      split: option.split_asm if_split_asm)

lemma instance_stop_wf: "instance_wf db \<Longrightarrow> instance_wf (snd (instance_stop svc clk db))"
  unfolding instance_stop_def
  by (rule transaction_preserves, assumption)
    (auto simp: instance_wf_def Let_def map_sql_update
      split: option.split_asm if_split_asm)

text \<open>A stopped identity stays stopped, whatever instance operation runs next.\<close>

definition instance_stopped :: "string \<Rightarrow> 'z instance_db_scheme \<Rightarrow> bool" where
  "instance_stopped i db \<longleftrightarrow>
    (case row_by ci_instance_id i (control_plane_instances db) of
       None \<Rightarrow> False | Some r \<Rightarrow> ci_stopped_at r \<noteq> None)"

lemma instance_start_stopped:
  "instance_stopped i db \<Longrightarrow> instance_stopped i (snd (instance_start svc clk db))"
  unfolding instance_start_def
  by (rule transaction_preserves, assumption)
    (auto simp: instance_stopped_def row_by_sql_update row_by_append
      simp del: sql_select_append split: option.split_asm if_split_asm)

lemma instance_heartbeat_stopped:
  "instance_stopped i db \<Longrightarrow> instance_stopped i (snd (instance_heartbeat svc clk db))"
  unfolding instance_heartbeat_def
  by (rule transaction_preserves, assumption)
    (auto simp: instance_stopped_def Let_def row_by_sql_update
      split: option.split_asm if_split_asm)

lemma instance_stop_stopped:
  "instance_stopped i db \<Longrightarrow> instance_stopped i (snd (instance_stop svc clk db))"
  unfolding instance_stop_def
  by (rule transaction_preserves, assumption)
    (auto simp: instance_stopped_def Let_def row_by_sql_update
      split: option.split_asm if_split_asm)

lemmas instance_stopped_kept =
  instance_start_stopped instance_heartbeat_stopped instance_stop_stopped

lemma instance_stopped_not_active:
  assumes "instance_wf db" and "instance_stopped i db"
  shows "\<not> instance_active i db"
proof
  assume "instance_active i db"
  then obtain r where "r \<in> set (control_plane_instances db)" "ci_instance_id r = i"
    "ci_stopped_at r = None" by (auto simp: instance_active_def)
  with assms(1) have "row_by ci_instance_id i (control_plane_instances db) = Some r"
    using row_by_unique [of ci_instance_id] by (auto simp: instance_wf_def)
  with assms(2) \<open>ci_stopped_at r = None\<close> show False by (simp add: instance_stopped_def)
qed

end
