(* ===== verification/Fenced_Claims.thy ===== *)
theory Fenced_Claims
  imports Swarm_Prelude
begin

text \<open>
  The contract behind every lease of the control plane. A keyed row carries a generation and
  possibly a holder; an operation may leave both, clear the holder, or raise the generation and
  install any holder. Whoever was handed a generation can then be fenced off: once the row has
  moved on, no later state ever shows that holder with that generation again.

  Maintenance leases, outbox publications, consumer deliveries and job leases each interpret it.
\<close>

locale fenced_claims =
  fixes step :: "'s \<Rightarrow> 's \<Rightarrow> bool"
    and claim :: "'s \<Rightarrow> 'k \<Rightarrow> (int \<times> 'o option) option"
  assumes claim_step: "step s t \<Longrightarrow> claim s k = Some (g, h) \<Longrightarrow>
    \<exists>g' h'. claim t k = Some (g', h') \<and> (g < g' \<or> g' = g \<and> (h' = h \<or> h' = None))"
begin

lemma claim_steps:
  assumes "step\<^sup>*\<^sup>* s t" and "claim s k = Some (g, h)"
  shows "\<exists>g' h'. claim t k = Some (g', h') \<and> (g < g' \<or> g' = g \<and> (h' = h \<or> h' = None))"
  using assms
proof (induction rule: rtranclp_induct)
  case base
  then show ?case by simp
next
  case (step t u)
  then obtain g' h' where t: "claim t k = Some (g', h')"
    "g < g' \<or> g' = g \<and> (h' = h \<or> h' = None)" by blast
  from claim_step [OF step.hyps(2) t(1)] obtain g'' h'' where
    "claim u k = Some (g'', h'')" "g' < g'' \<or> g'' = g' \<and> (h'' = h' \<or> h'' = None)" by blast
  with t(2) show ?case by fastforce
qed

text \<open>Generations never go back.\<close>

lemma generation_mono:
  assumes "step\<^sup>*\<^sup>* s t" "claim s k = Some (g, h)" "claim t k = Some (g', h')"
  shows "g \<le> g'"
  using claim_steps [OF assms(1,2)] assms(3) by auto

text \<open>Two holders of one key at different times: the later has a later generation, or is the same.\<close>

lemma fenced:
  assumes "step\<^sup>*\<^sup>* s t" "claim s k = Some (g, Some h)" "claim t k = Some (g', Some h')"
  shows "g < g' \<or> g = g' \<and> h = h'"
  using claim_steps [OF assms(1,2)] assms(3) by auto

text \<open>Once the row shows another holder or none at \<open>g\<close>, or a later generation, \<open>(g, h)\<close> is gone.\<close>

lemma lost_forever:
  assumes "step\<^sup>*\<^sup>* s t" "claim s k = Some (g', h')" "g < g' \<or> g' = g \<and> h' \<noteq> Some h"
  shows "claim t k \<noteq> Some (g, Some h)"
  using claim_steps [OF assms(1,2)] assms(3) by auto

end

end
