(* ===== verification/Maintenance_Lease.thy ===== *)
theory Maintenance_Lease
  imports Control_Plane_Instance Fenced_Claims
begin

text \<open>
  \<open>server/app/services/maintenance_lease.py\<close>: leases that let one instance of the control
  plane run a singleton maintenance operation, fenced by a generation that every authoritative
  write checks inside its own transaction.
\<close>

record lease_row =
  ml_name :: string
  ml_owner_instance_id :: string
  ml_generation :: int
  ml_acquired_at :: string
  ml_renewed_at :: string
  ml_expires_at :: string

text \<open>The dataclass \<open>MaintenanceLease\<close> has the columns of its row.\<close>

type_synonym maintenance_lease = lease_row

record lease_db = instance_db +
  maintenance_leases :: "lease_row sql_table"

record lease_service =
  ls_lease_seconds :: int

section \<open>The service\<close>

definition new_lease_service :: "int \<Rightarrow> py_error + lease_service" where
  "new_lease_service lease_seconds =
    (if lease_seconds < 1
     then Inl (ValueError ''maintenance lease duration must be positive'')
     else Inr \<lparr>ls_lease_seconds = lease_seconds\<rparr>)"

text \<open>\<open>^[a-z][a-z0-9-]{0,99}$\<close>\<close>

definition valid_lease_name :: "string \<Rightarrow> bool" where
  "valid_lease_name name \<longleftrightarrow>
    (case name of [] \<Rightarrow> False
     | c # cs \<Rightarrow> is_lower c \<and> length cs \<le> 99 \<and>
         list_all (\<lambda>c. is_lower c \<or> is_digit c \<or> c = CHR ''-'') cs)"

definition validate_name :: "string \<Rightarrow> py_error + unit" where
  "validate_name name =
    require (valid_lease_name name) (ValueError ''maintenance lease name has an invalid format'')"

definition time_window :: "lease_service \<Rightarrow> py_datetime \<Rightarrow> py_error + (string \<times> string)" where
  "time_window svc value =
    (if \<not> dt_aware value
     then Inl (RuntimeError ''maintenance lease clock must be timezone-aware'')
     else and_then (dt_add_seconds (dt_instant value) (ls_lease_seconds svc)) (\<lambda>later.
       Inr (isoformat (dt_instant value), isoformat later)))"

definition require_active_instance_locked ::
    "string \<Rightarrow> 'z lease_db_scheme \<Rightarrow> py_error + unit" where
  "require_active_instance_locked owner db =
    (case fetchone (sql_select (\<lambda>r. ci_instance_id r = owner \<and> ci_stopped_at r = None)
        (control_plane_instances db)) of
       None \<Rightarrow> Inl (MaintenanceLeaseConflict ''maintenance owner is not an active instance'')
     | Some r \<Rightarrow> Inr ())"

definition lease_fetch_locked :: "string \<Rightarrow> 'z lease_db_scheme \<Rightarrow> lease_row option" where
  "lease_fetch_locked name db = row_by ml_name name (maintenance_leases db)"

definition lease_fetch_exact_locked ::
    "string \<Rightarrow> string \<Rightarrow> int \<Rightarrow> 'z lease_db_scheme \<Rightarrow> lease_row option" where
  "lease_fetch_exact_locked name owner generation db =
    fetchone (sql_select (\<lambda>r. ml_name r = name \<and> ml_owner_instance_id r = owner \<and>
      ml_generation r = generation) (maintenance_leases db))"

text \<open>
  The three writing branches of \<open>acquire\<close>: insert a first lease, renew one's own unexpired
  lease, take over an expired one. Each gives the generation acquired and the database;
  \<open>None\<close> is the branch where another instance holds the lease.
\<close>

definition acquire_write_locked ::
    "string \<Rightarrow> string \<Rightarrow> string \<Rightarrow> string \<Rightarrow> 'z lease_db_scheme
      \<Rightarrow> py_error + (int \<times> 'z lease_db_scheme) option" where
  "acquire_write_locked name owner now expires_at db =
    (case lease_fetch_locked name db of
       None \<Rightarrow>
         Inr (Some (1, db\<lparr>maintenance_leases := maintenance_leases db @
           [\<lparr>ml_name = name, ml_owner_instance_id = owner, ml_generation = 1,
             ml_acquired_at = now, ml_renewed_at = now, ml_expires_at = expires_at\<rparr>]\<rparr>))
     | Some current \<Rightarrow>
         if ml_owner_instance_id current = owner \<and> now < ml_expires_at current
         then
           let own = (\<lambda>r. ml_name r = name \<and> ml_owner_instance_id r = owner \<and>
                 ml_generation r = ml_generation current \<and> now < ml_expires_at r)
           in if sql_rowcount own (maintenance_leases db) \<noteq> 1
              then Inl (MaintenanceLeaseConflict ''maintenance lease changed during renewal'')
              else Inr (Some (ml_generation current, db\<lparr>maintenance_leases :=
                sql_update own (\<lambda>r. r\<lparr>ml_renewed_at := now, ml_expires_at := expires_at\<rparr>)
                  (maintenance_leases db)\<rparr>))
         else if ml_expires_at current \<le> now
         then
           let stale = (\<lambda>r. ml_name r = name \<and> ml_generation r = ml_generation current \<and>
                 ml_expires_at r = ml_expires_at current);
               generation = ml_generation current + 1
           in if sql_rowcount stale (maintenance_leases db) \<noteq> 1
              then Inl (MaintenanceLeaseConflict ''maintenance lease changed during takeover'')
              else Inr (Some (generation, db\<lparr>maintenance_leases :=
                sql_update stale (\<lambda>r. r\<lparr>ml_owner_instance_id := owner, ml_generation := generation,
                    ml_acquired_at := now, ml_renewed_at := now, ml_expires_at := expires_at\<rparr>)
                  (maintenance_leases db)\<rparr>))
         else Inr None)"

definition lease_acquire ::
    "lease_service \<Rightarrow> py_datetime \<Rightarrow> string \<Rightarrow> string \<Rightarrow> 'z lease_db_scheme
      \<Rightarrow> (py_error + maintenance_lease option) \<times> 'z lease_db_scheme" where
  "lease_acquire svc clk name owner = transaction (\<lambda>db.
    and_then (validate_name name) (\<lambda>_.
    and_then (time_window svc clk) (\<lambda>(now, expires_at).
    and_then (require_active_instance_locked owner db) (\<lambda>_.
    and_then (acquire_write_locked name owner now expires_at db) (\<lambda>written.
      case written of
        None \<Rightarrow> Inr (None, db)
      | Some (acquired_generation, db') \<Rightarrow>
          (case lease_fetch_exact_locked name owner acquired_generation db' of
             None \<Rightarrow> Inl (MaintenanceLeaseConflict
               ''maintenance lease acquisition did not preserve its owner and generation'')
           | Some acquired \<Rightarrow> Inr (Some acquired, db')))))))"

definition lease_renew ::
    "lease_service \<Rightarrow> py_datetime \<Rightarrow> string \<Rightarrow> string \<Rightarrow> int \<Rightarrow> 'z lease_db_scheme
      \<Rightarrow> (py_error + maintenance_lease option) \<times> 'z lease_db_scheme" where
  "lease_renew svc clk name owner generation = transaction (\<lambda>db.
    and_then (validate_name name) (\<lambda>_.
    and_then (time_window svc clk) (\<lambda>(now, expires_at).
      let own = (\<lambda>r. ml_name r = name \<and> ml_owner_instance_id r = owner \<and>
            ml_generation r = generation \<and> now < ml_expires_at r \<and> instance_active owner db);
          db' = db\<lparr>maintenance_leases :=
            sql_update own (\<lambda>r. r\<lparr>ml_renewed_at := now, ml_expires_at := expires_at\<rparr>)
              (maintenance_leases db)\<rparr>
      in Inr (if sql_rowcount own (maintenance_leases db) \<noteq> 1 then None
              else lease_fetch_locked name db', db'))))"

definition lease_release ::
    "lease_service \<Rightarrow> py_datetime \<Rightarrow> string \<Rightarrow> string \<Rightarrow> int \<Rightarrow> 'z lease_db_scheme
      \<Rightarrow> (py_error + bool) \<times> 'z lease_db_scheme" where
  "lease_release svc clk name owner generation = transaction (\<lambda>db.
    and_then (validate_name name) (\<lambda>_.
    and_then (time_window svc clk) (\<lambda>(now, _).
      let own = (\<lambda>r. ml_name r = name \<and> ml_owner_instance_id r = owner \<and>
            ml_generation r = generation \<and> now < ml_expires_at r)
      in Inr (sql_rowcount own (maintenance_leases db) = 1,
              db\<lparr>maintenance_leases :=
                sql_update own (\<lambda>r. r\<lparr>ml_renewed_at := now, ml_expires_at := now\<rparr>)
                  (maintenance_leases db)\<rparr>))))"

text \<open>The fence: the named generation is unexpired and its owner has not stopped.\<close>

definition lease_require_current_locked ::
    "lease_service \<Rightarrow> py_datetime \<Rightarrow> string \<Rightarrow> string \<Rightarrow> int \<Rightarrow> 'z lease_db_scheme
      \<Rightarrow> py_error + unit" where
  "lease_require_current_locked svc clk name owner generation db =
    and_then (validate_name name) (\<lambda>_.
    and_then (time_window svc clk) (\<lambda>(now, _).
      if \<exists>lease \<in> set (maintenance_leases db). \<exists>ins \<in> set (control_plane_instances db).
           ci_instance_id ins = ml_owner_instance_id lease \<and>
           ml_name lease = name \<and> ml_owner_instance_id lease = owner \<and>
           ml_generation lease = generation \<and> now < ml_expires_at lease \<and>
           ci_stopped_at ins = None
      then Inr ()
      else Inl (MaintenanceLeaseConflict ''maintenance lease is stale or expired'')))"

definition lease_is_current ::
    "lease_service \<Rightarrow> py_datetime \<Rightarrow> string \<Rightarrow> string \<Rightarrow> int \<Rightarrow> 'z lease_db_scheme
      \<Rightarrow> py_error + bool" where
  "lease_is_current svc clk name owner generation db =
    (case lease_require_current_locked svc clk name owner generation db of
       Inl (MaintenanceLeaseConflict m) \<Rightarrow> Inr False
     | Inl e \<Rightarrow> Inl e
     | Inr u \<Rightarrow> Inr True)"

definition lease_get :: "string \<Rightarrow> 'z lease_db_scheme \<Rightarrow> py_error + maintenance_lease option" where
  "lease_get name db = and_then (validate_name name) (\<lambda>_. Inr (lease_fetch_locked name db))"

text \<open>The join of live leases with active instances, ordered by name, as a dict.\<close>

definition lease_current_owners ::
    "lease_service \<Rightarrow> py_datetime \<Rightarrow> 'z lease_db_scheme \<Rightarrow> py_error + (string \<times> string) list" where
  "lease_current_owners svc clk db =
    and_then (time_window svc clk) (\<lambda>(now, _).
      Inr (map (\<lambda>r. (ml_name r, ml_owner_instance_id r))
        (sort_key ml_name (sql_select
          (\<lambda>r. now < ml_expires_at r \<and> instance_active (ml_owner_instance_id r) db)
          (maintenance_leases db)))))"

section \<open>The guard handed to a maintenance operation\<close>

record lease_guard =
  lg_lease :: maintenance_lease
  lg_lost :: bool
  lg_lost_reason :: "string option"

definition new_guard :: "maintenance_lease \<Rightarrow> lease_guard" where
  "new_guard lease = \<lparr>lg_lease = lease, lg_lost = False, lg_lost_reason = None\<rparr>"

definition guard_mark_lost :: "string \<Rightarrow> lease_guard \<Rightarrow> lease_guard" where
  "guard_mark_lost reason g =
    (if lg_lost g then g else g\<lparr>lg_lost_reason := Some reason, lg_lost := True\<rparr>)"

text \<open>\<open>self._lost_reason or "..."\<close>: an empty reason counts as none.\<close>

definition lost_error :: "lease_guard \<Rightarrow> py_error" where
  "lost_error g = MaintenanceLeaseLost
    (case lg_lost_reason g of
       Some r \<Rightarrow> if r = [] then ''maintenance lease was lost'' else r
     | None \<Rightarrow> ''maintenance lease was lost'')"

definition guard_raise_if_lost :: "lease_guard \<Rightarrow> py_error + unit" where
  "guard_raise_if_lost g = require (\<not> lg_lost g) (lost_error g)"

definition guard_replace_lease ::
    "maintenance_lease \<Rightarrow> lease_guard \<Rightarrow> (py_error + unit) \<times> lease_guard" where
  "guard_replace_lease lease g =
    (if ml_name lease \<noteq> ml_name (lg_lease g) \<or>
        ml_owner_instance_id lease \<noteq> ml_owner_instance_id (lg_lease g) \<or>
        ml_generation lease \<noteq> ml_generation (lg_lease g)
     then (let g' = guard_mark_lost ''maintenance lease renewal changed its identity'' g
           in (Inl (lost_error g'), g'))
     else (Inr (), g\<lparr>lg_lease := lease\<rparr>))"

definition guard_renew_now ::
    "lease_service \<Rightarrow> py_datetime \<Rightarrow> lease_guard \<Rightarrow> 'z lease_db_scheme
      \<Rightarrow> (py_error + unit) \<times> lease_guard \<times> 'z lease_db_scheme" where
  "guard_renew_now svc clk g db =
    (case guard_raise_if_lost g of
       Inl e \<Rightarrow> (Inl e, g, db)
     | Inr _ \<Rightarrow>
         (case lease_renew svc clk (ml_name (lg_lease g)) (ml_owner_instance_id (lg_lease g))
             (ml_generation (lg_lease g)) db of
            (Inl e, db') \<Rightarrow>
              (Inl (MaintenanceLeaseLost ''maintenance lease renewal failed''),
               guard_mark_lost ''maintenance lease renewal failed'' g, db')
          | (Inr None, db') \<Rightarrow>
              (Inl (MaintenanceLeaseLost ''maintenance lease is stale or expired''),
               guard_mark_lost ''maintenance lease is stale or expired'' g, db')
          | (Inr (Some renewed), db') \<Rightarrow>
              (case guard_replace_lease renewed g of (r, g') \<Rightarrow> (r, g', db'))))"

definition guard_require_current_locked ::
    "lease_service \<Rightarrow> py_datetime \<Rightarrow> lease_guard \<Rightarrow> 'z lease_db_scheme
      \<Rightarrow> (py_error + unit) \<times> lease_guard" where
  "guard_require_current_locked svc clk g db =
    (case guard_raise_if_lost g of
       Inl e \<Rightarrow> (Inl e, g)
     | Inr _ \<Rightarrow>
         (case lease_require_current_locked svc clk (ml_name (lg_lease g))
             (ml_owner_instance_id (lg_lease g)) (ml_generation (lg_lease g)) db of
            Inl (MaintenanceLeaseConflict m) \<Rightarrow>
              (let g' = guard_mark_lost ''maintenance lease is stale or expired'' g
               in (Inl (lost_error g'), g'))
          | Inl e \<Rightarrow> (Inl e, g)
          | Inr u \<Rightarrow> (Inr (), g)))"

text \<open>
  One fenced mutation: the lease is checked when the transaction starts and again, at a later
  reading of the clock, just before the commit.
\<close>

definition guard_run_locked ::
    "lease_service \<Rightarrow> py_datetime \<Rightarrow> py_datetime
      \<Rightarrow> ('z lease_db_scheme \<Rightarrow> py_error + ('a \<times> 'z lease_db_scheme))
      \<Rightarrow> lease_guard \<Rightarrow> 'z lease_db_scheme
      \<Rightarrow> (py_error + 'a) \<times> lease_guard \<times> 'z lease_db_scheme" where
  "guard_run_locked svc clk clk' mutation g db =
    (case guard_raise_if_lost g of
       Inl e \<Rightarrow> (Inl e, g, db)
     | Inr _ \<Rightarrow>
         (case guard_require_current_locked svc clk g db of
            (Inl e, g1) \<Rightarrow> (Inl e, g1, db)
          | (Inr _, g1) \<Rightarrow>
              (case mutation db of
                 Inl e \<Rightarrow> (Inl e, g1, db)
               | Inr (result, db') \<Rightarrow>
                   (case guard_require_current_locked svc clk' g1 db' of
                      (Inl e, g2) \<Rightarrow> (Inl e, g2, db)
                    | (Inr _, g2) \<Rightarrow> (Inr result, g2, db')))))"

section \<open>Invariants\<close>

text \<open>\<open>name\<close> is the primary key of \<open>maintenance_leases\<close>.\<close>

definition lease_wf :: "'z lease_db_scheme \<Rightarrow> bool" where
  "lease_wf db \<longleftrightarrow> distinct (map ml_name (maintenance_leases db))"

definition lease_claim :: "'z lease_db_scheme \<Rightarrow> string \<Rightarrow> (int \<times> string option) option" where
  "lease_claim db name =
    map_option (\<lambda>r. (ml_generation r, Some (ml_owner_instance_id r))) (lease_fetch_locked name db)"

lemmas lease_tx_simps = Let_def map_sql_update row_by_None_iff

lemma lease_acquire_wf: "lease_wf db \<Longrightarrow> lease_wf (snd (lease_acquire svc clk name owner db))"
  unfolding lease_acquire_def
  by (rule transaction_preserves, assumption)
    (auto simp: lease_wf_def acquire_write_locked_def lease_fetch_locked_def lease_tx_simps
      split: option.split_asm if_split_asm)

lemma lease_renew_wf: "lease_wf db \<Longrightarrow> lease_wf (snd (lease_renew svc clk name owner g db))"
  unfolding lease_renew_def
  by (rule transaction_preserves, assumption) (auto simp: lease_wf_def lease_tx_simps)

lemma lease_release_wf: "lease_wf db \<Longrightarrow> lease_wf (snd (lease_release svc clk name owner g db))"
  unfolding lease_release_def
  by (rule transaction_preserves, assumption) (auto simp: lease_wf_def lease_tx_simps)

text \<open>Instance operations do not touch the leases.\<close>

lemma instance_ops_leases [simp]:
  "maintenance_leases (snd (instance_start isvc clk db)) = maintenance_leases db"
  "maintenance_leases (snd (instance_heartbeat isvc clk db)) = maintenance_leases db"
  "maintenance_leases (snd (instance_stop isvc clk db)) = maintenance_leases db"
  unfolding instance_start_def instance_heartbeat_def instance_stop_def
  by (rule transaction_preserves; auto simp: Let_def split: option.split_asm if_split_asm)+

section \<open>Runs of the control plane\<close>

text \<open>
  Any instances interleave any lease and instance operations at any clock readings, and any
  other transaction that leaves the two tables alone.
\<close>

inductive lease_step :: "'z lease_db_scheme \<Rightarrow> 'z lease_db_scheme \<Rightarrow> bool" where
  acquire: "lease_step db (snd (lease_acquire svc clk name owner db))"
| renew: "lease_step db (snd (lease_renew svc clk name owner g db))"
| release: "lease_step db (snd (lease_release svc clk name owner g db))"
| start: "lease_step db (snd (instance_start isvc clk db))"
| heartbeat: "lease_step db (snd (instance_heartbeat isvc clk db))"
| stop: "lease_step db (snd (instance_stop isvc clk db))"
| other: "maintenance_leases db' = maintenance_leases db \<Longrightarrow>
    control_plane_instances db' = control_plane_instances db \<Longrightarrow> lease_step db db'"

lemma lease_step_wf: "lease_step s t \<Longrightarrow> lease_wf s \<Longrightarrow> lease_wf t"
  by (induction rule: lease_step.induct)
    (simp_all add: lease_acquire_wf lease_renew_wf lease_release_wf, simp_all add: lease_wf_def)

lemma lease_steps_wf: "lease_step\<^sup>*\<^sup>* s t \<Longrightarrow> lease_wf s \<Longrightarrow> lease_wf t"
  by (induction rule: rtranclp_induct) (auto dest: lease_step_wf)

definition claim_advances ::
    "(int \<times> string option) option \<Rightarrow> (int \<times> string option) option \<Rightarrow> bool" where
  "claim_advances c c' \<longleftrightarrow> (\<forall>g h. c = Some (g, h) \<longrightarrow>
     (\<exists>g' h'. c' = Some (g', h') \<and> (g < g' \<or> g' = g \<and> (h' = h \<or> h' = None))))"

lemma claim_advances_refl [simp]: "claim_advances c c"
  by (auto simp: claim_advances_def)

lemma acquire_claim_advances:
  "claim_advances (lease_claim db k) (lease_claim (snd (lease_acquire svc clk name owner db)) k)"
  unfolding lease_acquire_def
  by (rule transaction_preserves, simp)
    (auto simp: lease_claim_def acquire_write_locked_def lease_fetch_locked_def claim_advances_def
      Let_def row_by_sql_update row_by_append simp del: sql_select_append
      split: option.split_asm if_split_asm)

lemma renew_claim:
  "lease_claim (snd (lease_renew svc clk name owner g db)) k = lease_claim db k"
  unfolding lease_renew_def
  by (rule transaction_preserves, simp)
    (auto simp: lease_claim_def lease_fetch_locked_def Let_def row_by_sql_update_proj)

lemma release_claim:
  "lease_claim (snd (lease_release svc clk name owner g db)) k = lease_claim db k"
  unfolding lease_release_def
  by (rule transaction_preserves, simp)
    (auto simp: lease_claim_def lease_fetch_locked_def Let_def row_by_sql_update_proj)

lemma lease_step_claim:
  "lease_step s t \<Longrightarrow> claim_advances (lease_claim s k) (lease_claim t k)"
  by (induction rule: lease_step.induct)
    (simp_all add: acquire_claim_advances renew_claim release_claim,
     simp_all add: lease_claim_def lease_fetch_locked_def)

interpretation lease: fenced_claims lease_step lease_claim
  by unfold_locales (metis claim_advances_def lease_step_claim)

section \<open>What the operations guarantee\<close>

lemma lease_acquire_InrD:
  assumes "lease_wf db" and "lease_acquire svc clk name owner db = (Inr (Some l), db')"
  shows "lease_fetch_locked name db' = Some l" "ml_name l = name"
    "ml_owner_instance_id l = owner" "lease_wf db'"
proof -
  show wf: "lease_wf db'" using lease_acquire_wf [OF assms(1), of svc clk name owner] assms(2) by simp
  obtain g where "lease_fetch_exact_locked name owner g db' = Some l"
    using assms(2) by (auto simp: lease_acquire_def transaction_Inr_iff
        split: option.split_asm prod.split_asm)
  then have *: "l \<in> set (maintenance_leases db')" "ml_name l = name" "ml_owner_instance_id l = owner"
    by (auto simp: lease_fetch_exact_locked_def dest: fetchone_select_Some)
  then show "ml_name l = name" "ml_owner_instance_id l = owner" by simp_all
  show "lease_fetch_locked name db' = Some l"
    using wf * by (simp add: lease_wf_def lease_fetch_locked_def row_by_iff)
qed

lemma lease_acquire_claim:
  assumes "lease_wf db" and "lease_acquire svc clk name owner db = (Inr (Some l), db')"
  shows "lease_claim db' name = Some (ml_generation l, Some owner)"
  using lease_acquire_InrD [OF assms] by (simp add: lease_claim_def)

text \<open>The fence passes only for the holder the row shows.\<close>

lemma require_current_claim:
  assumes "lease_wf db" and "lease_require_current_locked svc clk name owner g db = Inr u"
  shows "lease_claim db name = Some (g, Some owner)"
proof -
  obtain r where "r \<in> set (maintenance_leases db)" "ml_name r = name"
    "ml_owner_instance_id r = owner" "ml_generation r = g"
    using assms(2) by (auto simp: lease_require_current_locked_def split: if_split_asm prod.split_asm)
  with assms(1) show ?thesis
    using row_by_unique [of ml_name "maintenance_leases db" r]
    by (auto simp: lease_wf_def lease_claim_def lease_fetch_locked_def)
qed

lemma guard_run_locked_Inr:
  assumes "guard_run_locked svc clk clk' mutation g db = (Inr a, g', db')"
  shows "lease_require_current_locked svc clk (ml_name (lg_lease g))
      (ml_owner_instance_id (lg_lease g)) (ml_generation (lg_lease g)) db = Inr ()"
    and "lease_require_current_locked svc clk' (ml_name (lg_lease g))
      (ml_owner_instance_id (lg_lease g)) (ml_generation (lg_lease g)) db' = Inr ()"
    and "mutation db = Inr (a, db')" "g' = g" "\<not> lg_lost g"
  using assms
  by (auto simp: guard_run_locked_def guard_require_current_locked_def guard_raise_if_lost_def
      require_def Let_def split: sum.split_asm prod.split_asm py_error.split_asm if_split_asm)

lemma guard_run_locked_Inl:
  assumes "guard_run_locked svc clk clk' mutation g db = (Inl e, g', db')"
  shows "db' = db"
  using assms
  by (auto simp: guard_run_locked_def split: sum.split_asm prod.split_asm)

text \<open>
  C1. Fencing. Once another instance has acquired a lease, no maintenance operation still
  holding the earlier lease can commit a write, in any later state, whatever the clocks show
  and whatever ran in between: its fenced transaction raises and leaves the database alone.
\<close>

theorem stale_lease_cannot_commit:
  assumes "lease_wf s0"
    and "lease_acquire svc1 clk1 name o1 s0 = (Inr (Some l1), s1)"
    and "lease_step\<^sup>*\<^sup>* s1 s2"
    and "lease_acquire svc2 clk2 name o2 s2 = (Inr (Some l2), s3)" and "o2 \<noteq> o1"
    and "lease_step\<^sup>*\<^sup>* s3 s4"
    and "lg_lease g = l1"
  shows "ml_generation l1 < ml_generation l2 \<and>
    (\<exists>e g'. guard_run_locked svc clk clk' mutation g s4 = (Inl e, g', s4))"
proof -
  note l1 = lease_acquire_InrD [OF assms(1,2)]
  have wf2: "lease_wf s2" by (rule lease_steps_wf [OF assms(3) l1(4)])
  note l2 = lease_acquire_InrD [OF wf2 assms(4)]
  have c1: "lease_claim s1 name = Some (ml_generation l1, Some o1)"
    and c3: "lease_claim s3 name = Some (ml_generation l2, Some o2)"
    using lease_acquire_claim [OF assms(1,2)] lease_acquire_claim [OF wf2 assms(4)] by simp_all
  have "lease_step s2 s3" using lease_step.acquire [of s2 svc2 clk2 name o2] assms(4) by simp
  with assms(3) have "lease_step\<^sup>*\<^sup>* s1 s3" by simp
  from lease.fenced [OF this c1 c3] have less: "ml_generation l1 < ml_generation l2"
    using assms(5) by auto
  have gone: "lease_claim s4 name \<noteq> Some (ml_generation l1, Some o1)"
    using lease.lost_forever [OF assms(6) c3] less by blast
  have "lease_wf s4" by (rule lease_steps_wf [OF assms(6) l2(4)])
  obtain r g' t where run: "guard_run_locked svc clk clk' mutation g s4 = (r, g', t)"
    by (cases "guard_run_locked svc clk clk' mutation g s4") auto
  have "\<exists>e g'. guard_run_locked svc clk clk' mutation g s4 = (Inl e, g', s4)"
  proof (cases r)
    case (Inl e)
    then show ?thesis using run guard_run_locked_Inl by blast
  next
    case (Inr a)
    from guard_run_locked_Inr(1) [OF run [unfolded Inr]] have
      "lease_claim s4 name = Some (ml_generation l1, Some o1)"
      using require_current_claim [OF \<open>lease_wf s4\<close>] assms(7) l1(2,3) by simp
    with gone show ?thesis by simp
  qed
  with less show ?thesis by blast
qed

lemma acquire_write_expiry:
  assumes "acquire_write_locked name owner now later db = Inr (Some (g, db'))"
    and "row_by ml_name name (maintenance_leases db') = Some l"
  shows "ml_expires_at l = later"
  using assms
  by (auto simp: acquire_write_locked_def lease_fetch_locked_def Let_def row_by_sql_update
      row_by_append simp del: sql_select_append dest: row_by_SomeD split: option.split_asm if_split_asm)

lemma acquired_expiry:
  assumes "lease_wf db" and "lease_acquire svc clk name owner db = (Inr (Some l), db')"
  shows "dt_aware clk" "time_window svc clk = Inr (isoformat (dt_instant clk), ml_expires_at l)"
    "instance_active owner db'"
proof -
  have l: "l \<in> set (maintenance_leases db')" "ml_name l = name"
    using lease_acquire_InrD [OF assms] by (auto simp: lease_fetch_locked_def dest: row_by_SomeD)
  obtain now later where tw: "time_window svc clk = Inr (now, later)"
    and act: "require_active_instance_locked owner db = Inr ()"
    and w: "\<exists>g. acquire_write_locked name owner now later db = Inr (Some (g, db'))"
    using assms(2) by (auto simp: lease_acquire_def transaction_Inr_iff
        split: option.split_asm prod.split_asm)
  have "row_by ml_name name (maintenance_leases db') = Some l"
    using lease_acquire_InrD(1) [OF assms] by (simp add: lease_fetch_locked_def)
  then have "ml_expires_at l = later"
    using w by (auto simp: acquire_write_expiry)
  with tw show "dt_aware clk"
    "time_window svc clk = Inr (isoformat (dt_instant clk), ml_expires_at l)"
    by (auto simp: time_window_def split: if_split_asm)
  have "control_plane_instances db' = control_plane_instances db"
    using w by (auto simp: acquire_write_locked_def Let_def split: option.split_asm if_split_asm)
  with act show "instance_active owner db'"
    by (auto simp: require_active_instance_locked_def instance_active_def
        split: option.split_asm dest: fetchone_select_Some)
qed

lemma time_window_Inr:
  "time_window svc clk = Inr (now, later) \<longleftrightarrow>
    dt_aware clk \<and> now = isoformat (dt_instant clk) \<and>
    (\<exists>t. dt_add_seconds (dt_instant clk) (ls_lease_seconds svc) = Inr t \<and> later = isoformat t)"
  by (auto simp: time_window_def result_simps)

text \<open>What the code relies on of a clock: aware, and inside the calendar of \<open>datetime\<close>.\<close>

definition clock_ok :: "py_datetime \<Rightarrow> bool" where
  "clock_ok clk \<longleftrightarrow> dt_aware clk \<and> dt_instant clk < max_instant"

lemma expiry_instant:
  assumes "time_window svc clk = Inr (now, later)" and "clock_ok clk'"
  shows "isoformat (dt_instant clk') < later \<longleftrightarrow>
    int (dt_instant clk') < int (dt_instant clk) + ls_lease_seconds svc * int us_per_second"
proof -
  obtain t where t: "dt_add_seconds (dt_instant clk) (ls_lease_seconds svc) = Inr t" "later = isoformat t"
    using assms(1) by (auto simp: time_window_Inr)
  then have "t < max_instant" "int t = int (dt_instant clk) + ls_lease_seconds svc * int us_per_second"
    using dt_add_seconds_Inr by blast+
  then show ?thesis
    using t(2) assms(2) isoformat_less_iff [of "dt_instant clk'" t] by (auto simp: clock_ok_def)
qed

lemma lease_acquire_held:
  assumes "lease_fetch_locked name db = Some l" and "ml_owner_instance_id l \<noteq> owner"
    and "isoformat (dt_instant clk) < ml_expires_at l"
  shows "snd (lease_acquire svc clk name owner db) = db \<and>
    (\<forall>r. fst (lease_acquire svc clk name owner db) \<noteq> Inr (Some r))"
  using assms(1,2) assms(3) [folded not_le]
  by (auto simp: lease_acquire_def transaction_def acquire_write_locked_def time_window_Inr
      split: sum.split)

text \<open>
  Mutual exclusion. For the seconds the service grants, counted on the clock, the instance
  that acquired a lease keeps it: another instance asking for it before then is told \<open>None\<close>
  or fails, and changes nothing.
\<close>

theorem acquired_lease_excludes_others:
  assumes "lease_wf s0"
    and "lease_acquire svc1 clk1 name o1 s0 = (Inr (Some l1), s1)"
    and "o2 \<noteq> o1" and "clock_ok clk2"
    and "int (dt_instant clk2) < int (dt_instant clk1) + ls_lease_seconds svc1 * int us_per_second"
  shows "snd (lease_acquire svc2 clk2 name o2 s1) = s1 \<and>
    (\<forall>r. fst (lease_acquire svc2 clk2 name o2 s1) \<noteq> Inr (Some r))"
  using lease_acquire_held [OF lease_acquire_InrD(1) [OF assms(1,2)]]
    lease_acquire_InrD(3) [OF assms(1,2)] assms(3,5)
    expiry_instant [OF acquired_expiry(2) [OF assms(1,2)] assms(4)] by auto

lemma require_current_intro:
  assumes "valid_lease_name name" and "time_window svc clk = Inr (now, later)"
    and "lease_fetch_locked name db = Some l" and "now < ml_expires_at l"
    and "instance_active (ml_owner_instance_id l) db"
  shows "lease_require_current_locked svc clk name (ml_owner_instance_id l) (ml_generation l) db = Inr ()"
  using assms
  by (fastforce simp: lease_require_current_locked_def validate_name_def lease_fetch_locked_def
      instance_active_def dest: row_by_SomeD)

lemma expired_takeover:
  assumes "lease_wf db" and "valid_lease_name name" and "instance_active owner db"
    and "time_window svc clk = Inr (now, later)" and "1 \<le> ls_lease_seconds svc"
    and "lease_fetch_locked name db = Some old" and "ml_expires_at old \<le> now"
  shows "\<exists>l db'. lease_acquire svc clk name owner db = (Inr (Some l), db') \<and>
    ml_generation l = ml_generation old + 1 \<and> ml_owner_instance_id l = owner \<and>
    lease_is_current svc clk name owner (ml_generation old + 1) db' = Inr True"
proof -
  let ?P = "\<lambda>r. ml_name r = name \<and> ml_generation r = ml_generation old \<and>
    ml_expires_at r = ml_expires_at old"
  let ?f = "\<lambda>r. r\<lparr>ml_owner_instance_id := owner, ml_generation := ml_generation old + 1,
    ml_acquired_at := now, ml_renewed_at := now, ml_expires_at := later\<rparr>"
  let ?db = "db\<lparr>maintenance_leases := sql_update ?P ?f (maintenance_leases db)\<rparr>"
  have old: "old \<in> set (maintenance_leases db)" "ml_name old = name"
    using assms(6) by (auto simp: lease_fetch_locked_def dest: row_by_SomeD)
  have wf: "distinct (map ml_name (maintenance_leases db))" using assms(1) by (simp add: lease_wf_def)
  have one: "sql_rowcount ?P (maintenance_leases db) = 1"
    using old by (intro sql_rowcount_key [OF wf]) auto
  have new: "lease_fetch_locked name ?db = Some (?f old)"
    using assms(6) old by (auto simp: lease_fetch_locked_def row_by_sql_update)
  have wf': "lease_wf ?db" using wf by (simp add: lease_wf_def map_sql_update)
  then have "row_by ml_name name (maintenance_leases ?db) = Some (?f old)"
    and wf'': "distinct (map ml_name (maintenance_leases ?db))"
    using new by (simp_all add: lease_fetch_locked_def lease_wf_def)
  then have mem: "?f old \<in> set (maintenance_leases ?db)" by (blast dest: row_by_SomeD)
  have exact: "\<exists>l. lease_fetch_exact_locked name owner (ml_generation old + 1) ?db = Some l \<and>
    ml_owner_instance_id l = owner \<and> ml_generation l = ml_generation old + 1"
  proof (cases "lease_fetch_exact_locked name owner (ml_generation old + 1) ?db")
    case None
    then have "\<not> (ml_name (?f old) = name \<and> ml_owner_instance_id (?f old) = owner \<and>
      ml_generation (?f old) = ml_generation old + 1)"
      using mem unfolding lease_fetch_exact_locked_def fetchone_select_None by blast
    then show ?thesis using old by simp
  next
    case (Some l)
    then show ?thesis by (auto simp: lease_fetch_exact_locked_def dest: fetchone_select_Some)
  qed
  have act: "require_active_instance_locked owner db = Inr ()"
    using assms(3)
    by (auto simp: require_active_instance_locked_def instance_active_def fetchone_select_None
        split: option.split)
  have "\<exists>l. lease_acquire svc clk name owner db = (Inr (Some l), ?db) \<and>
    ml_generation l = ml_generation old + 1 \<and> ml_owner_instance_id l = owner"
    using exact act one assms(2,4,6,7)
    by (auto simp: lease_acquire_def transaction_def validate_name_def acquire_write_locked_def Let_def)
  moreover have "now < later"
  proof -
    obtain t where "dt_add_seconds (dt_instant clk) (ls_lease_seconds svc) = Inr t"
      "later = isoformat t" "now = isoformat (dt_instant clk)"
      using assms(4) by (auto simp: time_window_Inr)
    then show ?thesis
      using dt_add_seconds_Inr [of "dt_instant clk" "ls_lease_seconds svc" t] assms(5)
      by (auto intro!: isoformat_mono simp: us_per_second_def)
  qed
  moreover have "instance_active owner ?db" using assms(3) by (simp add: instance_active_def)
  ultimately show ?thesis
    using require_current_intro [OF assms(2,4) new] by (auto simp: lease_is_current_def)
qed

text \<open>
  Takeover. A lease past its expiry is granted to any active instance that asks, at the next
  generation, and the grant passes the fence at once: a crashed holder blocks nobody for
  longer than its lease.
\<close>

theorem expired_lease_is_taken_over:
  assumes "lease_wf db" and "valid_lease_name name" and "instance_active owner db"
    and "time_window svc clk = Inr (now, later)" and "1 \<le> ls_lease_seconds svc"
    and "lease_fetch_locked name db = Some old" and "ml_expires_at old \<le> now"
  shows "\<exists>l db'. lease_acquire svc clk name owner db = (Inr (Some l), db') \<and>
    ml_generation l = ml_generation old + 1 \<and> ml_owner_instance_id l = owner \<and>
    lease_is_current svc clk name owner (ml_generation old + 1) db' = Inr True"
  by (rule expired_takeover [OF assms])

text \<open>A fetched row is the only one an exact statement on its key can touch.\<close>

lemma lease_rowcount_1:
  assumes "lease_wf db" and "lease_fetch_locked name db = Some l" and "P l"
    and "\<And>r. P r \<Longrightarrow> ml_name r = name"
  shows "sql_rowcount P (maintenance_leases db) = 1"
  using assms by (intro sql_rowcount_key [of ml_name])
    (auto simp: lease_wf_def lease_fetch_locked_def dest: row_by_SomeD)

lemma lease_release_Inr_True:
  assumes "lease_wf db" and "lease_release svc clk name owner g db = (Inr True, db')"
  shows "\<exists>l. lease_fetch_locked name db' = Some l \<and> ml_owner_instance_id l = owner \<and>
    ml_generation l = g \<and> ml_expires_at l = isoformat (dt_instant clk)"
proof -
  let ?now = "isoformat (dt_instant clk)"
  let ?P = "\<lambda>r. ml_name r = name \<and> ml_owner_instance_id r = owner \<and> ml_generation r = g \<and>
    ?now < ml_expires_at r"
  have one: "sql_rowcount ?P (maintenance_leases db) = 1"
    and db': "db' = db\<lparr>maintenance_leases := sql_update ?P
      (\<lambda>r. r\<lparr>ml_renewed_at := ?now, ml_expires_at := ?now\<rparr>) (maintenance_leases db)\<rparr>"
    using assms(2)
    by (auto simp: lease_release_def transaction_Inr_iff Let_def time_window_Inr)
  from one have "sql_rowcount ?P (maintenance_leases db) \<noteq> 0" by linarith
  then obtain r where r: "r \<in> set (maintenance_leases db)" "?P r"
    by (auto simp: sql_rowcount_0_iff)
  then have "lease_fetch_locked name db = Some r"
    using assms(1) row_by_unique [of ml_name "maintenance_leases db" r]
    by (auto simp: lease_fetch_locked_def lease_wf_def)
  then show ?thesis
    using r db' by (auto simp: lease_fetch_locked_def row_by_sql_update)
qed

lemma require_current_Inr:
  assumes "lease_wf db" and "lease_require_current_locked svc clk name owner g db = Inr u"
  shows "\<exists>l. lease_fetch_locked name db = Some l \<and> ml_owner_instance_id l = owner \<and>
    ml_generation l = g \<and> isoformat (dt_instant clk) < ml_expires_at l \<and> instance_active owner db"
proof -
  obtain l ins where "l \<in> set (maintenance_leases db)" "ml_name l = name"
    "ins \<in> set (control_plane_instances db)" "ci_instance_id ins = owner" "ci_stopped_at ins = None"
    "ml_owner_instance_id l = owner" "ml_generation l = g" "isoformat (dt_instant clk) < ml_expires_at l"
    using assms(2)
    by (auto simp: lease_require_current_locked_def time_window_Inr split: if_split_asm)
  then show ?thesis
    using assms(1) row_by_unique [of ml_name "maintenance_leases db" l]
    by (auto simp: lease_fetch_locked_def lease_wf_def instance_active_def)
qed

text \<open>
  Release. After a successful release the released generation never passes the fence again,
  at any reading of the clock from the release on, and any other active instance that asks gets
  the lease at once, at the next generation.
\<close>

theorem released_lease_is_free:
  assumes "lease_wf db" and "lease_release svc clk name owner g db = (Inr True, db')"
    and "clock_ok clk" and "clock_ok clk'" and "dt_instant clk \<le> dt_instant clk'"
    and "valid_lease_name name" and "instance_active o2 db'"
    and "time_window svc2 clk' = Inr w" and "1 \<le> ls_lease_seconds svc2"
  shows "lease_is_current svc clk' name owner g db' \<noteq> Inr True \<and>
    (\<exists>l db''. lease_acquire svc2 clk' name o2 db' = (Inr (Some l), db'') \<and>
       ml_generation l = g + 1 \<and> ml_owner_instance_id l = o2)"
proof -
  have wf: "lease_wf db'" using lease_release_wf [OF assms(1), of svc clk name owner g] assms(2) by simp
  obtain l where l: "lease_fetch_locked name db' = Some l" "ml_generation l = g"
    "ml_expires_at l = isoformat (dt_instant clk)"
    using lease_release_Inr_True [OF assms(1,2)] by blast
  have le: "ml_expires_at l \<le> isoformat (dt_instant clk')"
    using l(3) assms(3-5) by (simp add: clock_ok_def isoformat_le_iff)
  have "lease_require_current_locked svc clk' name owner g db' \<noteq> Inr u" for u
    using require_current_Inr [OF wf] l(1) le by (fastforce simp: not_le [symmetric])
  then have "lease_is_current svc clk' name owner g db' \<noteq> Inr True"
    by (auto simp: lease_is_current_def split: sum.split py_error.split)
  moreover obtain now later where "w = (now, later)" by fastforce
  then have tw: "time_window svc2 clk' = Inr (isoformat (dt_instant clk'), later)"
    using assms(8) by (simp add: time_window_Inr)
  show ?thesis
    using expired_takeover [OF wf assms(6,7) tw assms(9) l(1) le] l(2) calculation by auto
qed

text \<open>
  A fenced mutation is all or nothing, and commits only under a current lease: either the
  database is exactly the one before, and the guard still names the same lease, or the mutation
  ran and its lease was unexpired, with its owner active, both at the first reading of the
  clock and at the reading just before the commit.
\<close>

theorem fenced_mutation_is_atomic:
  assumes "lease_wf db" and "\<And>a db'. mutation db = Inr (a, db') \<Longrightarrow> lease_wf db'"
    and "guard_run_locked svc clk clk' mutation g db = (r, g', db')"
    and "l = lg_lease g"
  shows "lg_lease g' = l \<and>
    (case r of
       Inl e \<Rightarrow> db' = db
     | Inr a \<Rightarrow> mutation db = Inr (a, db') \<and> \<not> lg_lost g \<and>
         (\<forall>(c, d) \<in> {(clk, db), (clk', db')}. instance_active (ml_owner_instance_id l) d \<and>
           (\<exists>row. lease_fetch_locked (ml_name l) d = Some row \<and>
             ml_owner_instance_id row = ml_owner_instance_id l \<and>
             ml_generation row = ml_generation l \<and>
             isoformat (dt_instant c) < ml_expires_at row)))"
proof (cases r)
  case (Inl e)
  have "lg_lease g' = lg_lease g"
    using assms(3)
    by (auto simp: guard_run_locked_def guard_require_current_locked_def guard_mark_lost_def Let_def
        split: sum.split_asm prod.split_asm py_error.split_asm if_split_asm)
  then show ?thesis using Inl guard_run_locked_Inl assms(3,4) by auto
next
  case (Inr a)
  note run = guard_run_locked_Inr [OF assms(3) [unfolded Inr]]
  have wf': "lease_wf db'" using run(3) assms(2) by blast
  note first = require_current_Inr [OF assms(1) run(1), folded assms(4)]
    and second = require_current_Inr [OF wf' run(2), folded assms(4)]
  show ?thesis using Inr run(3-5) first second assms(4) by auto
qed

section \<open>Concrete instances\<close>

definition demo_clock :: "nat \<Rightarrow> py_datetime" where
  "demo_clock t = \<lparr>dt_instant = t, dt_aware = True\<rparr>"

definition demo_instance :: "string \<Rightarrow> instance_row" where
  "demo_instance i = \<lparr>ci_instance_id = i, ci_hostname_label = ''host'', ci_version = ''1.0'',
    ci_started_at = ''2026-01-01'', ci_heartbeat_at = ''2026-01-01'', ci_stopped_at = None\<rparr>"

definition demo_lease_db :: lease_db where
  "demo_lease_db = \<lparr>control_plane_instances = [demo_instance ''cp_a'', demo_instance ''cp_b''],
    maintenance_leases = []\<rparr>"

definition demo_lease :: "string \<Rightarrow> int \<Rightarrow> nat \<Rightarrow> nat \<Rightarrow> lease_row" where
  "demo_lease owner g t u = \<lparr>ml_name = ''outbox'', ml_owner_instance_id = owner, ml_generation = g,
    ml_acquired_at = isoformat t, ml_renewed_at = isoformat t, ml_expires_at = isoformat u\<rparr>"

definition demo_lease_service :: lease_service where
  "demo_lease_service = \<lparr>ls_lease_seconds = 1\<rparr>"

lemmas demo_defs = demo_clock_def demo_instance_def demo_lease_db_def demo_lease_def
  demo_lease_service_def

lemma demo_window:
  "t \<le> 9000000 \<Longrightarrow> time_window demo_lease_service (demo_clock t) =
    Inr (isoformat t, isoformat (t + 1000000))"
  by (simp add: time_window_def demo_defs dt_add_seconds_def us_per_second_def max_instant_def
      us_per_day_def Let_def nat_add_distrib)

lemma demo_iso [simp]:
  "t \<le> 10000000 \<Longrightarrow> u \<le> 10000000 \<Longrightarrow> isoformat t < isoformat u \<longleftrightarrow> t < u"
  "t \<le> 10000000 \<Longrightarrow> u \<le> 10000000 \<Longrightarrow> isoformat t \<le> isoformat u \<longleftrightarrow> t \<le> u"
  by (simp_all add: isoformat_less_iff isoformat_le_iff max_instant_def us_per_day_def)

lemma demo_clock_ok [simp]: "t \<le> 10000000 \<Longrightarrow> clock_ok (demo_clock t)"
  by (simp add: clock_ok_def demo_defs max_instant_def us_per_day_def)

lemma demo_name [simp]: "valid_lease_name ''outbox''" "validate_name ''outbox'' = Inr ()"
  by (simp_all add: validate_name_def valid_lease_name_def is_lower_def)

lemmas demo_run = lease_acquire_def lease_release_def transaction_def demo_window
  require_active_instance_locked_def acquire_write_locked_def lease_fetch_locked_def
  lease_fetch_exact_locked_def Let_def table_simps

lemma demo_wf: "lease_wf demo_lease_db"
  by (simp add: lease_wf_def demo_defs)

lemma demo_acquire:
  "lease_acquire demo_lease_service (demo_clock 0) ''outbox'' ''cp_a'' demo_lease_db =
    (Inr (Some (demo_lease ''cp_a'' 1 0 1000000)),
     demo_lease_db\<lparr>maintenance_leases := [demo_lease ''cp_a'' 1 0 1000000]\<rparr>)"
  by (simp add: demo_run) (simp add: demo_defs table_simps)

lemma demo_takeover:
  "lease_acquire demo_lease_service (demo_clock 2000000) ''outbox'' ''cp_b''
      (demo_lease_db\<lparr>maintenance_leases := [demo_lease ''cp_a'' 1 0 1000000]\<rparr>) =
    (Inr (Some (demo_lease ''cp_b'' 2 2000000 3000000)),
     demo_lease_db\<lparr>maintenance_leases := [demo_lease ''cp_b'' 2 2000000 3000000]\<rparr>)"
  by (simp add: demo_run) (simp add: demo_defs table_simps)

lemma stale_lease_cannot_commit_witness:
  "\<exists>e g'. guard_run_locked demo_lease_service (demo_clock 2500000) (demo_clock 2600000)
      (\<lambda>db. Inr ((), db)) (new_guard (demo_lease ''cp_a'' 1 0 1000000))
      (demo_lease_db\<lparr>maintenance_leases := [demo_lease ''cp_b'' 2 2000000 3000000]\<rparr>) =
    (Inl e, g', demo_lease_db\<lparr>maintenance_leases := [demo_lease ''cp_b'' 2 2000000 3000000]\<rparr>)"
  by (rule stale_lease_cannot_commit [OF demo_wf demo_acquire rtranclp.rtrancl_refl demo_takeover _
        rtranclp.rtrancl_refl, THEN conjunct2])
    (simp_all add: new_guard_def)

lemma acquired_lease_excludes_others_witness:
  "snd (lease_acquire demo_lease_service (demo_clock 900000) ''outbox'' ''cp_b''
      (demo_lease_db\<lparr>maintenance_leases := [demo_lease ''cp_a'' 1 0 1000000]\<rparr>)) =
    demo_lease_db\<lparr>maintenance_leases := [demo_lease ''cp_a'' 1 0 1000000]\<rparr>"
  using acquired_lease_excludes_others [OF demo_wf demo_acquire, of "''cp_b''" "demo_clock 900000"]
  by (simp add: demo_clock_ok) (simp add: demo_clock_def demo_lease_service_def us_per_second_def)

lemma demo_held_wf: "lease_wf (demo_lease_db\<lparr>maintenance_leases := [l]\<rparr>)"
  by (simp add: lease_wf_def)

lemma demo_active: "instance_active ''cp_b'' (demo_lease_db\<lparr>maintenance_leases := ls\<rparr>)"
  by (simp add: instance_active_def demo_defs)

lemma demo_fetch:
  "lease_fetch_locked ''outbox'' (demo_lease_db\<lparr>maintenance_leases := [demo_lease i g t u]\<rparr>) =
    Some (demo_lease i g t u)"
  by (simp add: lease_fetch_locked_def table_simps demo_lease_def)

lemma expired_lease_is_taken_over_witness:
  "\<exists>l db'. lease_acquire demo_lease_service (demo_clock 2000000) ''outbox'' ''cp_b''
      (demo_lease_db\<lparr>maintenance_leases := [demo_lease ''cp_a'' 1 0 1000000]\<rparr>) = (Inr (Some l), db') \<and>
    ml_generation l = 2"
  using expired_lease_is_taken_over [OF demo_held_wf demo_name(1) demo_active demo_window _ demo_fetch,
      of 2000000 "''cp_a''" 1 0 1000000]
  by (auto simp: demo_lease_def demo_lease_service_def)

lemma demo_release:
  "lease_release demo_lease_service (demo_clock 500000) ''outbox'' ''cp_a'' 1
      (demo_lease_db\<lparr>maintenance_leases := [demo_lease ''cp_a'' 1 0 1000000]\<rparr>) =
    (Inr True, demo_lease_db\<lparr>maintenance_leases :=
      [demo_lease ''cp_a'' 1 0 1000000\<lparr>ml_renewed_at := isoformat 500000,
         ml_expires_at := isoformat 500000\<rparr>]\<rparr>)"
  by (simp add: demo_run) (simp add: demo_defs table_simps)

lemma released_lease_is_free_witness:
  "\<exists>l db''. lease_acquire demo_lease_service (demo_clock 600000) ''outbox'' ''cp_b''
      (demo_lease_db\<lparr>maintenance_leases :=
        [demo_lease ''cp_a'' 1 0 1000000\<lparr>ml_renewed_at := isoformat 500000,
           ml_expires_at := isoformat 500000\<rparr>]\<rparr>) = (Inr (Some l), db'') \<and> ml_generation l = 2"
  using released_lease_is_free [OF demo_held_wf demo_release _ _ _ demo_name(1) demo_active demo_window,
      of 600000]
  by (fastforce simp: demo_clock_def demo_lease_service_def clock_ok_def max_instant_def us_per_day_def)

lemma fenced_mutation_is_atomic_witness:
  "\<exists>r g' db'. guard_run_locked demo_lease_service (demo_clock 2500000) (demo_clock 2600000)
      (\<lambda>db. Inr ((), db)) (new_guard (demo_lease ''cp_b'' 2 2000000 3000000))
      (demo_lease_db\<lparr>maintenance_leases := [demo_lease ''cp_b'' 2 2000000 3000000]\<rparr>) = (r, g', db') \<and>
    lg_lease g' = demo_lease ''cp_b'' 2 2000000 3000000"
proof -
  let ?db = "demo_lease_db\<lparr>maintenance_leases := [demo_lease ''cp_b'' 2 2000000 3000000]\<rparr>"
  obtain r g' db' where "guard_run_locked demo_lease_service (demo_clock 2500000) (demo_clock 2600000)
      (\<lambda>db. Inr ((), db)) (new_guard (demo_lease ''cp_b'' 2 2000000 3000000)) ?db = (r, g', db')"
    by (metis prod_cases3)
  with fenced_mutation_is_atomic [OF demo_held_wf _ this refl] show ?thesis
    by (auto simp: new_guard_def demo_held_wf)
qed

end
