(* ===== verification/Json_Text.thy ===== *)
theory Json_Text
  imports Swarm_Prelude
begin

text \<open>
  JSON values and their text. The services store payloads with
  \<open>json.dumps(value, allow_nan=False, ensure_ascii=False, separators=(",", ":"), sort_keys=True)\<close>
  and read them back with \<open>json.loads\<close>; digests are taken over that text. Both directions are
  written out for null, booleans, integers, strings, arrays and objects (the payloads of the
  modelled components hold no floats), and \<open>json_loads_dumps\<close> shows that reading a stored
  value gives the value back with its keys sorted.
\<close>

datatype json =
    JNull
  | JBool bool
  | JInt int
  | JStr string
  | JArr "json list"
  | JObj "(string \<times> json) list"

section \<open>Printing\<close>

definition hex_char :: "nat \<Rightarrow> char" where
  "hex_char d = (if d < 10 then char_of (48 + d) else char_of (87 + d))"

definition escape_char :: "char \<Rightarrow> string" where
  "escape_char c =
    (if c = CHR 0x22 then [CHR 0x5C, CHR 0x22]
     else if c = CHR 0x5C then [CHR 0x5C, CHR 0x5C]
     else if c = CHR 0x0A then [CHR 0x5C, CHR ''n'']
     else if c = CHR 0x0D then [CHR 0x5C, CHR ''r'']
     else if c = CHR 0x09 then [CHR 0x5C, CHR ''t'']
     else if c = CHR 0x0C then [CHR 0x5C, CHR ''f'']
     else if c = CHR 0x08 then [CHR 0x5C, CHR ''b'']
     else if (of_char c :: nat) < 32 then
       [CHR 0x5C, CHR ''u'', CHR ''0'', CHR ''0'',
        hex_char (of_char c div 16), hex_char (of_char c mod 16)]
     else [c])"

definition json_quote :: "string \<Rightarrow> string" where
  "json_quote s = CHR 0x22 # concat (map escape_char s) @ [CHR 0x22]"

fun join :: "string \<Rightarrow> string list \<Rightarrow> string" where
  "join sep [] = []"
| "join sep [x] = x"
| "join sep (x # xs) = x @ sep @ join sep xs"

definition dump_pairs :: "(string \<times> string) list \<Rightarrow> string" where
  "dump_pairs kvs = join '','' (map (\<lambda>(k, v). json_quote k @ '':'' @ v) kvs)"

primrec json_dumps :: "json \<Rightarrow> string" where
  "json_dumps JNull = ''null''"
| "json_dumps (JBool b) = (if b then ''true'' else ''false'')"
| "json_dumps (JInt i) = show_int i"
| "json_dumps (JStr s) = json_quote s"
| "json_dumps (JArr xs) = ''['' @ join '','' (map json_dumps xs) @ '']''"
| "json_dumps (JObj kvs) =
     ''{'' @ dump_pairs (sort_key fst (map (map_prod id json_dumps) kvs)) @ ''}''"

text \<open>
  \<open>json.dumps\<close> with its default \<open>ensure_ascii\<close>: code points outside ASCII, and DEL, are escaped, with a
  surrogate pair above 0xFFFF. The separators and \<open>sort_keys\<close> are arguments.
\<close>

fun code_points :: "string \<Rightarrow> nat list" where
  "code_points [] = []"
| "code_points (c # r) =
    (let n = of_char c :: nat in
     if n < 128 then n # code_points r
     else (case r of
         [] \<Rightarrow> [n]
       | c1 # r1 \<Rightarrow>
           let n1 = of_char c1 mod 64 :: nat in
           if n < 224 then ((n - 192) * 64 + n1) # code_points r1
           else (case r1 of
               [] \<Rightarrow> [n]
             | c2 # r2 \<Rightarrow>
                 let n2 = of_char c2 mod 64 :: nat in
                 if n < 240 then ((n - 224) * 4096 + n1 * 64 + n2) # code_points r2
                 else (case r2 of
                     [] \<Rightarrow> [n]
                   | c3 # r3 \<Rightarrow>
                       ((n - 240) * 262144 + n1 * 4096 + n2 * 64 + of_char c3 mod 64) # code_points r3))))"

definition escape_unit :: "nat \<Rightarrow> string" where
  "escape_unit n = [CHR 0x5C, CHR ''u'', hex_char (n div 4096), hex_char (n div 256 mod 16),
    hex_char (n div 16 mod 16), hex_char (n mod 16)]"

definition escape_point :: "nat \<Rightarrow> string" where
  "escape_point n =
    (if n < 127 then escape_char (char_of n)
     else if n < 65536 then escape_unit n
     else escape_unit (55296 + (n - 65536) div 1024) @ escape_unit (56320 + (n - 65536) mod 1024))"

definition ascii_quote :: "string \<Rightarrow> string" where
  "ascii_quote s = CHR 0x22 # concat (map escape_point (code_points s)) @ [CHR 0x22]"

primrec json_ascii :: "bool \<Rightarrow> string \<Rightarrow> string \<Rightarrow> json \<Rightarrow> string" where
  "json_ascii sort_keys item_sep key_sep JNull = ''null''"
| "json_ascii sort_keys item_sep key_sep (JBool b) = (if b then ''true'' else ''false'')"
| "json_ascii sort_keys item_sep key_sep (JInt i) = show_int i"
| "json_ascii sort_keys item_sep key_sep (JStr s) = ascii_quote s"
| "json_ascii sort_keys item_sep key_sep (JArr xs) =
     ''['' @ join item_sep (map (json_ascii sort_keys item_sep key_sep) xs) @ '']''"
| "json_ascii sort_keys item_sep key_sep (JObj kvs) =
     ''{'' @ join item_sep (map (\<lambda>(k, v). ascii_quote k @ key_sep @ v)
       ((if sort_keys then sort_key fst else (\<lambda>ps. ps)) (map (map_prod id (json_ascii sort_keys item_sep key_sep)) kvs))) @
     ''}''"

text \<open>The value with every object's keys in order, which is what reading the text gives.\<close>

primrec json_sort :: "json \<Rightarrow> json" where
  "json_sort JNull = JNull"
| "json_sort (JBool b) = JBool b"
| "json_sort (JInt i) = JInt i"
| "json_sort (JStr s) = JStr s"
| "json_sort (JArr xs) = JArr (map json_sort xs)"
| "json_sort (JObj kvs) = JObj (sort_key fst (map (map_prod id json_sort) kvs))"

text \<open>Every object is a Python dict: its keys are distinct.\<close>

primrec json_dict :: "json \<Rightarrow> bool" where
  "json_dict JNull = True"
| "json_dict (JBool b) = True"
| "json_dict (JInt i) = True"
| "json_dict (JStr s) = True"
| "json_dict (JArr xs) = list_all id (map json_dict xs)"
| "json_dict (JObj kvs) =
     (distinct (map fst kvs) \<and> list_all snd (map (map_prod id json_dict) kvs))"

section \<open>Reading\<close>

definition is_ws :: "char \<Rightarrow> bool" where
  "is_ws c \<longleftrightarrow> c = CHR 0x20 \<or> c = CHR 0x09 \<or> c = CHR 0x0A \<or> c = CHR 0x0D"

definition skip_ws :: "string \<Rightarrow> string" where
  "skip_ws s = dropWhile is_ws s"

definition hex_value :: "char \<Rightarrow> nat option" where
  "hex_value c =
    (let n = of_char c :: nat in
     if 48 \<le> n \<and> n \<le> 57 then Some (n - 48)
     else if 97 \<le> n \<and> n \<le> 102 then Some (n - 87)
     else if 65 \<le> n \<and> n \<le> 70 then Some (n - 55)
     else None)"

definition hex4 :: "char \<Rightarrow> char \<Rightarrow> char \<Rightarrow> char \<Rightarrow> nat option" where
  "hex4 a b c d =
    (case (hex_value a, hex_value b, hex_value c, hex_value d) of
       (Some w, Some x, Some y, Some z) \<Rightarrow> Some (w * 4096 + x * 256 + y * 16 + z)
     | _ \<Rightarrow> None)"

text \<open>The UTF-8 bytes of a code point.\<close>

definition utf8 :: "nat \<Rightarrow> string" where
  "utf8 n =
    (if n < 128 then [char_of n]
     else if n < 2048 then [char_of (192 + n div 64), char_of (128 + n mod 64)]
     else if n < 65536
     then [char_of (224 + n div 4096), char_of (128 + n div 64 mod 64), char_of (128 + n mod 64)]
     else [char_of (240 + n div 262144), char_of (128 + n div 4096 mod 64),
       char_of (128 + n div 64 mod 64), char_of (128 + n mod 64)])"

text \<open>The code point of a high surrogate followed by an escaped low one.\<close>

definition surrogate_pair :: "nat \<Rightarrow> char \<Rightarrow> char \<Rightarrow> char \<Rightarrow> char \<Rightarrow> char \<Rightarrow> char \<Rightarrow> nat option" where
  "surrogate_pair n b v k1 k2 k3 k4 =
    (if 55296 \<le> n \<and> n < 56320 \<and> b = CHR 0x5C \<and> v = CHR ''u'' then
       (case hex4 k1 k2 k3 k4 of
          Some m \<Rightarrow> if 56320 \<le> m \<and> m < 57344 then Some (65536 + (n - 55296) * 1024 + (m - 56320)) else None
        | None \<Rightarrow> None)
     else None)"

definition unescape :: "char \<Rightarrow> char option" where
  "unescape e =
    (if e = CHR 0x22 then Some (CHR 0x22)
     else if e = CHR 0x5C then Some (CHR 0x5C)
     else if e = CHR ''/'' then Some (CHR ''/'')
     else if e = CHR ''n'' then Some (CHR 0x0A)
     else if e = CHR ''r'' then Some (CHR 0x0D)
     else if e = CHR ''t'' then Some (CHR 0x09)
     else if e = CHR ''f'' then Some (CHR 0x0C)
     else if e = CHR ''b'' then Some (CHR 0x08)
     else None)"

fun parse_string :: "string \<Rightarrow> (string \<times> string) option" where
  "parse_string [] = None"
| "parse_string (c # r) =
    (if c = CHR 0x22 then Some ([], r)
     else if c = CHR 0x5C then
       (case r of [] \<Rightarrow> None
        | e # r1 \<Rightarrow>
            if e = CHR ''u'' then
              (case r1 of h1 # h2 # h3 # h4 # r2 \<Rightarrow>
                 (case hex4 h1 h2 h3 h4 of None \<Rightarrow> None
                  | Some n \<Rightarrow>
                      (case r2 of b # v # k1 # k2 # k3 # k4 # r3 \<Rightarrow>
                         (case surrogate_pair n b v k1 k2 k3 k4 of
                            Some p \<Rightarrow> map_option (apfst (append (utf8 p))) (parse_string r3)
                          | None \<Rightarrow> map_option (apfst (append (utf8 n))) (parse_string r2))
                       | _ \<Rightarrow> map_option (apfst (append (utf8 n))) (parse_string r2)))
               | _ \<Rightarrow> None)
            else
              (case unescape e of None \<Rightarrow> None
               | Some ch \<Rightarrow> map_option (apfst (Cons ch)) (parse_string r1)))
     else if (of_char c :: nat) < 32 then None
     else map_option (apfst (Cons c)) (parse_string r))"

definition digits_value :: "string \<Rightarrow> nat" where
  "digits_value ds = foldl (\<lambda>n c. 10 * n + (of_char c - 48)) 0 ds"

text \<open>An integer literal; a fraction or an exponent after it is not read.\<close>

definition parse_nat :: "string \<Rightarrow> (nat \<times> string) option" where
  "parse_nat s =
    (let ds = takeWhile is_digit s;
         tok = (if ds \<noteq> [] \<and> hd ds = CHR ''0'' then [CHR ''0''] else ds);
         r = drop (length tok) s
     in if tok = [] then None
        else case r of
            c # _ \<Rightarrow> if c = CHR ''.'' \<or> c = CHR ''e'' \<or> c = CHR ''E'' then None
                     else Some (digits_value tok, r)
          | [] \<Rightarrow> Some (digits_value tok, r))"

definition strip_prefix :: "string \<Rightarrow> string \<Rightarrow> string option" where
  "strip_prefix p s = (if take (length p) s = p then Some (drop (length p) s) else None)"

text \<open>\<open>d[k] = v\<close> on an association list in insertion order.\<close>

fun dict_set :: "'k \<Rightarrow> 'v \<Rightarrow> ('k \<times> 'v) list \<Rightarrow> ('k \<times> 'v) list" where
  "dict_set k v [] = [(k, v)]"
| "dict_set k v ((k', v') # kvs) = (if k' = k then (k, v) # kvs else (k', v') # dict_set k v kvs)"

definition dict_of_pairs :: "('k \<times> 'v) list \<Rightarrow> ('k \<times> 'v) list" where
  "dict_of_pairs kvs = foldl (\<lambda>d (k, v). dict_set k v d) [] kvs"

fun parse_value :: "nat \<Rightarrow> string \<Rightarrow> (json \<times> string) option"
  and parse_items :: "nat \<Rightarrow> string \<Rightarrow> (json list \<times> string) option"
  and parse_members :: "nat \<Rightarrow> string \<Rightarrow> ((string \<times> json) list \<times> string) option" where
  "parse_value 0 s = None"
| "parse_value (Suc f) s =
    (case s of
       [] \<Rightarrow> None
     | c # r \<Rightarrow>
         if c = CHR 0x22 then map_option (apfst JStr) (parse_string r)
         else if c = CHR ''['' then
           (case skip_ws r of
              [] \<Rightarrow> None
            | d # r' \<Rightarrow> if d = CHR '']'' then Some (JArr [], r')
                else map_option (apfst JArr) (parse_items f (d # r')))
         else if c = CHR ''{'' then
           (case skip_ws r of
              [] \<Rightarrow> None
            | d # r' \<Rightarrow> if d = CHR ''}'' then Some (JObj [], r')
                else map_option (apfst (JObj \<circ> dict_of_pairs)) (parse_members f (d # r')))
         else if c = CHR ''n'' then map_option (Pair JNull) (strip_prefix ''ull'' r)
         else if c = CHR ''t'' then map_option (Pair (JBool True)) (strip_prefix ''rue'' r)
         else if c = CHR ''f'' then map_option (Pair (JBool False)) (strip_prefix ''alse'' r)
         else if c = CHR ''-'' then map_option (apfst (\<lambda>n. JInt (- int n))) (parse_nat r)
         else map_option (apfst (\<lambda>n. JInt (int n))) (parse_nat s))"
| "parse_items 0 s = None"
| "parse_items (Suc f) s =
    (case parse_value f s of
       None \<Rightarrow> None
     | Some (v, r) \<Rightarrow>
         (case skip_ws r of
            [] \<Rightarrow> None
          | d # r' \<Rightarrow>
              if d = CHR '']'' then Some ([v], r')
              else if d = CHR '','' then map_option (apfst (Cons v)) (parse_items f (skip_ws r'))
              else None))"
| "parse_members 0 s = None"
| "parse_members (Suc f) s =
    (case s of
       [] \<Rightarrow> None
     | q # r0 \<Rightarrow>
        if q \<noteq> CHR 0x22 then None
        else
         (case parse_string r0 of
            None \<Rightarrow> None
          | Some (k, r1) \<Rightarrow>
              (case skip_ws r1 of
                 [] \<Rightarrow> None
               | col # r2 \<Rightarrow>
                   if col \<noteq> CHR '':'' then None
                   else
                     (case parse_value f (skip_ws r2) of
                        None \<Rightarrow> None
                      | Some (v, r) \<Rightarrow>
                          (case skip_ws r of
                             [] \<Rightarrow> None
                           | d # r' \<Rightarrow>
                               if d = CHR ''}'' then Some ([(k, v)], r')
                               else if d = CHR '','' then
                                 map_option (apfst (Cons (k, v))) (parse_members f (skip_ws r'))
                               else None)))))"

definition json_loads :: "string \<Rightarrow> json option" where
  "json_loads s =
    (case parse_value (length s) (skip_ws s) of
       None \<Rightarrow> None
     | Some (v, r) \<Rightarrow> if skip_ws r = [] then Some v else None)"

declare parse_value.simps [simp del] parse_items.simps [simp del] parse_members.simps [simp del]

section \<open>Reading what was printed\<close>

lemma hex_value_hex_char [simp]: "d < 16 \<Longrightarrow> hex_value (hex_char d) = Some d"
  by (auto simp: hex_value_def hex_char_def Let_def)

lemma hex4_control: "n < 32 \<Longrightarrow>
    hex4 (CHR ''0'') (CHR ''0'') (hex_char (n div 16)) (hex_char (n mod 16)) = Some n"
  by (simp add: hex4_def) (simp add: hex_value_def)

lemma no_surrogate_pair: "n < 55296 \<Longrightarrow>
    (case r of b # v # k1 # k2 # k3 # k4 # r3 \<Rightarrow>
       (case surrogate_pair n b v k1 k2 k3 k4 of Some p \<Rightarrow> F p r3 | None \<Rightarrow> d)
     | _ \<Rightarrow> d) = d"
  by (simp add: surrogate_pair_def split: list.split)

lemma parse_string_escape:
  "parse_string (escape_char c @ r) = map_option (apfst (Cons c)) (parse_string r)"
proof (cases "(of_char c :: nat) < 32")
  case True
  then have "hex4 (CHR ''0'') (CHR ''0'') (hex_char (of_char c div 16)) (hex_char (of_char c mod 16))
      = Some (of_char c)"
    by (rule hex4_control)
  with True show ?thesis
    by (auto simp: escape_char_def unescape_def utf8_def apfst_def map_prod_def no_surrogate_pair)
next
  case False
  then show ?thesis by (auto simp: escape_char_def unescape_def)
qed

lemma parse_string_quote:
  "parse_string (concat (map escape_char s) @ CHR 0x22 # r) = Some (s, r)"
  by (induction s) (simp_all add: parse_string_escape del: parse_string.simps, simp)

lemma is_digit_digit_char: "d < 10 \<Longrightarrow> is_digit (digit_char d)"
  by (simp add: is_digit_def digit_char_def less_eq_char_def)

lemma show_nat_digits: "c \<in> set (show_nat n) \<Longrightarrow> is_digit c"
proof (induction n rule: show_nat.induct)
  case (1 n)
  then show ?case
    by (cases "n < 10") (auto simp: show_nat.simps [of n] is_digit_digit_char)
qed

lemma digits_value_show_nat: "digits_value (show_nat n) = n"
proof (induction n rule: show_nat.induct)
  case (1 n)
  then show ?case
    by (cases "n < 10") (simp_all add: show_nat.simps [of n] digits_value_def digit_char_def)
qed

lemma hd_show_nat: "hd (show_nat n) = CHR ''0'' \<Longrightarrow> show_nat n = [CHR ''0'']"
proof (induction n rule: show_nat.induct)
  case (1 n)
  show ?case
  proof (cases "n < 10")
    case True
    with "1.prems" show ?thesis by (simp add: show_nat.simps [of n])
  next
    case False
    with 1 have "show_nat (n div 10) = [CHR ''0'']" by (simp add: show_nat.simps [of n])
    then have "n div 10 = 0" using digits_value_show_nat [of "n div 10"] by (simp add: digits_value_def)
    with False show ?thesis by simp
  qed
qed

text \<open>What may follow a value: the end, a comma or a closing bracket.\<close>

definition delimited :: "string \<Rightarrow> bool" where
  "delimited r \<longleftrightarrow> (case r of [] \<Rightarrow> True | c # _ \<Rightarrow> c \<in> {CHR '','', CHR '']'', CHR ''}''})"

lemma parse_nat_show:
  assumes "delimited r"
  shows "parse_nat (show_nat n @ r) = Some (n, r)"
proof -
  have "\<not> is_digit c" if "r = c # r'" for c r'
    using assms that by (auto simp: delimited_def is_digit_def less_eq_char_def)
  then have tw: "takeWhile is_digit (show_nat n @ r) = show_nat n"
    using show_nat_digits [of _ n]
    by (cases r) (auto simp: takeWhile_append2 takeWhile_append1)
  have tok: "(if show_nat n \<noteq> [] \<and> hd (show_nat n) = CHR ''0'' then [CHR ''0''] else show_nat n) = show_nat n"
    using hd_show_nat [of n] by auto
  show ?thesis
    unfolding parse_nat_def Let_def tw tok
    using assms by (cases r) (auto simp: delimited_def digits_value_show_nat)
qed

lemma dict_set_fresh: "k \<notin> fst ` set d \<Longrightarrow> dict_set k v d = d @ [(k, v)]"
  by (induction d) auto

lemma dict_of_pairs_distinct: "distinct (map fst kvs) \<Longrightarrow> dict_of_pairs kvs = kvs"
proof -
  have "distinct (map fst (d @ kvs)) \<Longrightarrow> foldl (\<lambda>d (k, v). dict_set k v d) d kvs = d @ kvs" for d
    by (induction kvs arbitrary: d) (auto simp: dict_set_fresh)
  from this [of "[]"] show "distinct (map fst kvs) \<Longrightarrow> ?thesis"
    by (simp add: dict_of_pairs_def)
qed

lemma sort_key_map_snd:
  "sort_key fst (map (map_prod id g) kvs) = map (map_prod id (g :: 'c \<Rightarrow> 'd)) (sort_key fst (kvs :: ('k::linorder \<times> 'c) list))"
proof -
  have "insort_key fst (map_prod id g x) (map (map_prod id g) ys) = map (map_prod id g) (insort_key fst x ys)"
    for x :: "'k \<times> 'c" and ys
    by (induction ys) auto
  then show ?thesis by (induction kvs) simp_all
qed

definition opens :: "string \<Rightarrow> bool" where
  "opens s \<longleftrightarrow> (\<exists>c cs. s = c # cs \<and> \<not> is_ws c \<and> c \<noteq> CHR '']'' \<and> c \<noteq> CHR ''}'')"

lemma opens_skip: "opens s \<Longrightarrow> skip_ws (s @ r) = s @ r"
  by (auto simp: opens_def skip_ws_def)

lemma opens_append: "opens s \<Longrightarrow> opens (s @ r)"
  by (auto simp: opens_def)

lemma is_digit_not_ws: "is_digit c \<Longrightarrow> \<not> is_ws c \<and> c \<noteq> CHR '']'' \<and> c \<noteq> CHR ''}'' \<and> c \<noteq> CHR 0x22 \<and>
    c \<noteq> CHR ''['' \<and> c \<noteq> CHR ''{'' \<and> c \<noteq> CHR ''n'' \<and> c \<noteq> CHR ''t'' \<and> c \<noteq> CHR ''f'' \<and> c \<noteq> CHR ''-''"
  by (auto simp: is_digit_def is_ws_def less_eq_char_def)

lemma show_nat_Cons: "\<exists>c cs. show_nat n = c # cs \<and> is_digit c"
  using show_nat_digits [of "hd (show_nat n)" n] by (cases "show_nat n") auto

lemma opens_quote: "opens (json_quote s)"
  by (auto simp: opens_def json_quote_def is_ws_def)

lemma opens_dumps: "opens (json_dumps v)"
proof (cases v)
  case (JInt i)
  then show ?thesis
    using show_nat_Cons [of "nat i"] is_digit_not_ws
    by (auto simp: show_int_def opens_def is_ws_def)
qed (auto simp: opens_quote, auto simp: opens_def is_ws_def)

lemma skip_ws_delim: "\<not> is_ws c \<Longrightarrow> skip_ws (c # r) = c # r"
  by (simp add: skip_ws_def)

lemma parse_items_join:
  assumes "xs \<noteq> []"
    and "\<And>x f r. x \<in> set xs \<Longrightarrow> delimited r \<Longrightarrow> length (json_dumps x) \<le> f \<Longrightarrow>
      parse_value f (json_dumps x @ r) = Some (g x, r)"
    and "length (join '','' (map json_dumps xs)) < f"
  shows "parse_items f (join '','' (map json_dumps xs) @ CHR '']'' # r) = Some (map g xs, r)"
  using assms
proof (induction xs arbitrary: f)
  case Nil
  then show ?case by simp
next
  case (Cons x xs)
  then obtain f' where f: "f = Suc f'" by (cases f) auto
  show ?case
  proof (cases xs)
    case Nil
    with Cons.prems f show ?thesis
      by (simp add: parse_items.simps delimited_def skip_ws_delim is_ws_def)
  next
    case (Cons y ys)
    let ?rest = "join '','' (map json_dumps xs) @ CHR '']'' # r"
    have shape: "join '','' (map json_dumps (x # xs)) @ CHR '']'' # r = json_dumps x @ CHR '','' # ?rest"
      using Cons by simp
    have x: "parse_value f' (json_dumps x @ CHR '','' # ?rest) = Some (g x, CHR '','' # ?rest)"
      using Cons.prems Cons f by (intro Cons.prems(2)) (auto simp: delimited_def)
    have "opens (json_dumps y)" by (rule opens_dumps)
    then have "skip_ws ?rest = ?rest"
      using opens_skip [of "json_dumps y"] Cons by (cases ys) simp_all
    moreover have "parse_items f' ?rest = Some (map g xs, r)"
      using Cons.prems Cons f by (intro Cons.IH) auto
    ultimately show ?thesis
      unfolding shape f by (simp add: parse_items.simps x skip_ws_delim is_ws_def)
  qed
qed

lemma parse_members_join:
  assumes "kvs \<noteq> []"
    and "\<And>k x f r. (k, x) \<in> set kvs \<Longrightarrow> delimited r \<Longrightarrow> length (json_dumps x) \<le> f \<Longrightarrow>
      parse_value f (json_dumps x @ r) = Some (g x, r)"
    and "length (dump_pairs (map (map_prod id json_dumps) kvs)) < f"
  shows "parse_members f (dump_pairs (map (map_prod id json_dumps) kvs) @ CHR ''}'' # r) =
    Some (map (map_prod id g) kvs, r)"
  using assms
proof (induction kvs arbitrary: f)
  case Nil
  then show ?case by simp
next
  case (Cons kv kvs)
  obtain k x where kv: "kv = (k, x)" by (cases kv)
  from Cons.prems obtain f' where f: "f = Suc f'" by (cases f) auto
  let ?str = "concat (map escape_char k)"
  show ?case
  proof (cases kvs)
    case Nil
    have x: "parse_value f' (json_dumps x @ CHR ''}'' # r) = Some (g x, CHR ''}'' # r)"
      using Cons.prems kv f Nil by (intro Cons.prems(2)) (auto simp: delimited_def dump_pairs_def json_quote_def)
    show ?thesis
      using Nil by (simp add: kv f dump_pairs_def json_quote_def parse_members.simps parse_string_quote
        skip_ws_delim is_ws_def opens_skip [OF opens_dumps] x)
  next
    case (Cons y ys)
    let ?rest = "dump_pairs (map (map_prod id json_dumps) kvs) @ CHR ''}'' # r"
    have shape: "dump_pairs (map (map_prod id json_dumps) (kv # kvs)) @ CHR ''}'' # r =
        CHR 0x22 # ?str @ CHR 0x22 # CHR '':'' # json_dumps x @ CHR '','' # ?rest"
      using Cons by (simp add: kv dump_pairs_def json_quote_def)
    have len: "Suc (length (json_dumps x) + length (dump_pairs (map (map_prod id json_dumps) kvs))) < f"
      using Cons.prems(3) arg_cong [OF shape, of length] by (simp add: id_def)
    have x: "parse_value f' (json_dumps x @ CHR '','' # ?rest) = Some (g x, CHR '','' # ?rest)"
      using len kv f by (intro Cons.prems(2)) (auto simp: delimited_def)
    obtain k' v' where y: "y = (k', v')" by (cases y)
    have "opens (json_quote k')" by (rule opens_quote)
    then have "skip_ws ?rest = ?rest"
      using opens_skip [of "json_quote k'"] Cons y by (cases ys) (simp_all add: dump_pairs_def)
    moreover have "parse_members f' ?rest = Some (map (map_prod id g) kvs, r)"
    proof (rule Cons.IH)
      show "kvs \<noteq> []" using Cons by simp
      show "length (dump_pairs (map (map_prod id json_dumps) kvs)) < f'" using len f by simp
    qed (use Cons.prems(2) in auto)
    ultimately show ?thesis
      unfolding shape f
      by (simp add: kv parse_members.simps parse_string_quote skip_ws_delim is_ws_def
        opens_skip [OF opens_dumps] x [unfolded id_def] id_def)
  qed
qed

lemma parse_value_dumps:
  "json_dict v \<Longrightarrow> delimited r \<Longrightarrow> length (json_dumps v) \<le> f \<Longrightarrow>
    parse_value f (json_dumps v @ r) = Some (json_sort v, r)"
proof (induction v arbitrary: r f)
  case JNull
  then show ?case by (cases f) (auto simp: parse_value.simps strip_prefix_def)
next
  case (JBool b)
  then show ?case by (cases f; cases b) (auto simp: parse_value.simps strip_prefix_def)
next
  case (JInt i)
  have nat: "parse_nat (show_nat n @ r) = Some (n, r)" for n
    using JInt.prems by (simp add: parse_nat_show)
  show ?case
  proof (cases f)
    case 0
    with JInt.prems show ?thesis by (simp add: show_int_def split: if_splits)
  next
    case (Suc f')
    show ?thesis
    proof (cases "i < 0")
      case True
      then show ?thesis using Suc by (simp add: show_int_def parse_value.simps nat)
    next
      case False
      obtain c cs where c: "show_nat (nat i) = c # cs" "is_digit c" using show_nat_Cons by blast
      then show ?thesis
        using Suc False is_digit_not_ws [OF c(2)] nat [of "nat i"]
        by (simp add: show_int_def parse_value.simps)
    qed
  qed
next
  case (JStr s)
  then show ?case
    by (cases f) (auto simp: parse_value.simps json_quote_def parse_string_quote)
next
  case (JArr xs)
  from JArr.prems obtain f' where f: "f = Suc f'" by (cases f) auto
  show ?case
  proof (cases "xs = []")
    case True
    then show ?thesis by (simp add: f parse_value.simps skip_ws_delim is_ws_def)
  next
    case False
    let ?body = "join '','' (map json_dumps xs)"
    have items: "parse_items f' (?body @ CHR '']'' # r) = Some (map json_sort xs, r)"
      using False JArr f by (intro parse_items_join) (auto simp: list_all_iff)
    have "opens ?body"
      using False opens_dumps by (cases xs rule: list.exhaust [case_names Nil Cons])
        (simp, metis append.assoc join.simps(2,3) list.exhaust list.map(1,2) opens_append)
    then obtain c cs where "?body = c # cs" "\<not> is_ws c" "c \<noteq> CHR '']''"
      by (auto simp: opens_def)
    with items show ?thesis by (simp add: f parse_value.simps skip_ws_delim)
  qed
next
  case (JObj kvs)
  from JObj.prems obtain f' where f: "f = Suc f'" by (cases f) auto
  let ?kvs = "sort_key fst kvs"
  show ?case
  proof (cases "kvs = []")
    case True
    then show ?thesis by (simp add: f parse_value.simps dump_pairs_def skip_ws_delim is_ws_def)
  next
    case False
    then have ne: "?kvs \<noteq> []" by (metis set_empty set_sort)
    let ?body = "dump_pairs (map (map_prod id json_dumps) ?kvs)"
    have members: "parse_members f' (?body @ CHR ''}'' # r) = Some (map (map_prod id json_sort) ?kvs, r)"
    proof (rule parse_members_join [OF ne])
      fix k x f r
      assume *: "(k, x) \<in> set ?kvs" "delimited r" "length (json_dumps x) \<le> f"
      then show "parse_value f (json_dumps x @ r) = Some (json_sort x, r)"
        using JObj.IH [of "(k, x)" x r f] JObj.prems(1) by (fastforce simp: list_all_iff)
    next
      show "length ?body < f'" using JObj.prems(3) by (simp add: f sort_key_map_snd)
    qed
    have "distinct (map fst (map (map_prod id json_sort) ?kvs))"
      using JObj.prems(1) by (simp add: comp_def) (metis distinct_map distinct_sort set_sort)
    then have dict: "dict_of_pairs (map (map_prod id json_sort) ?kvs) = map (map_prod id json_sort) ?kvs"
      by (rule dict_of_pairs_distinct)
    obtain k x kvs' where "?kvs = (k, x) # kvs'" using ne by (cases ?kvs) auto
    then have "\<exists>cs. ?body = CHR 0x22 # cs"
      by (cases kvs') (auto simp: dump_pairs_def json_quote_def)
    then obtain cs where "?body = CHR 0x22 # cs" by blast
    with members dict show ?thesis
      by (simp add: f parse_value.simps skip_ws_delim is_ws_def sort_key_map_snd)
  qed
qed

text \<open>Reading back the text of a value gives the value with its keys sorted.\<close>

lemma json_loads_dumps: "json_dict v \<Longrightarrow> json_loads (json_dumps v) = Some (json_sort v)"
  using parse_value_dumps [of v "[]" "length (json_dumps v)"] opens_skip [OF opens_dumps, of v "[]"]
  by (simp add: json_loads_def delimited_def skip_ws_def)

section \<open>Canonical values\<close>

lemma sort_key_sorted: "sorted (map f xs) \<Longrightarrow> sort_key f xs = xs"
proof (induction xs)
  case Nil
  then show ?case by simp
next
  case (Cons x xs)
  then show ?case by (cases xs) (auto)
qed

lemma json_sort_idem: "json_sort (json_sort v) = json_sort v"
proof (induction v)
  case (JObj kvs)
  have "map (map_prod id json_sort) (map (map_prod id json_sort) kvs) = map (map_prod id json_sort) kvs"
    using JObj by (fastforce simp: prod_set_defs)
  then show ?case
    by (simp only: json_sort.simps sort_key_map_snd [symmetric]) (simp add: sort_key_sorted)
qed auto

lemma json_dict_sort: "json_dict v \<Longrightarrow> json_dict (json_sort v)"
proof (induction v)
  case (JObj kvs)
  have *: "json_dict (json_sort x)" if "(k, x) \<in> set kvs" for k x
    using JObj.IH [OF that, of x] JObj.prems that by (force simp: list_all_iff prod_set_defs)
  have d: "distinct (map fst (sort_key fst (map (map_prod id json_sort) kvs)))"
    using JObj.prems by (simp add: distinct_map inj_on_def) (force simp: comp_def)
  have l: "list_all snd (map (map_prod id json_dict) (sort_key fst (map (map_prod id json_sort) kvs)))"
    using * by (auto simp: list_all_iff)
  show ?case using d l by simp
qed (auto simp: list_all_iff)

text \<open>Objects with one canonical form hold the same members, up to canonical form.\<close>

lemma json_sort_obj_eq:
  assumes "json_sort (JObj xs) = json_sort (JObj ys)"
    and "distinct (map fst xs)" and "distinct (map fst ys)"
  shows "map_option json_sort (map_of xs k) = map_option json_sort (map_of ys k)"
proof -
  let ?f = "map (map_prod id json_sort)"
  have eq: "sort_key fst (?f xs) = sort_key fst (?f ys)" using assms(1) by simp
  have "set (?f xs) = set (?f ys)" using arg_cong [OF eq, of set] by (simp only: set_sort)
  moreover have "map fst (?f zs) = map fst zs" for zs :: "(string \<times> json) list" by simp
  ultimately have "map_of (?f xs) = map_of (?f ys)"
    using assms(2,3) by (simp only: map_of_inject_set)
  moreover have "map_of (?f zs) k = map_option json_sort (map_of zs k)" for zs :: "(string \<times> json) list"
    by (induction zs) auto
  ultimately show ?thesis by metis
qed

end
