(* ===== verification/Audit_Log.thy ===== *)
theory Audit_Log
  imports Maintenance_Lease Json_Text
begin

text \<open>
  \<open>server/app/services/audit_log.py\<close>: the hash-chained audit log. SHA-256 (as a hexadecimal
  digest) is the parameter \<open>H\<close>; what is used of it is stated where it is used.
\<close>

record audit_row =
  ae_id :: int
  ae_trace_id :: string
  ae_event_type :: string
  ae_actor_type :: string
  ae_actor_id :: string
  ae_task_id :: "string option"
  ae_payload_json :: string
  ae_prev_hash :: "string option"
  ae_hash :: "string option"
  ae_created_at :: string

record audit_db = lease_db +
  audit_events :: "audit_row sql_table"

section \<open>Operations\<close>

text \<open>\<open>x or ""\<close> for an optional text.\<close>

definition or_empty :: "string option \<Rightarrow> string" where
  "or_empty x = (case x of None \<Rightarrow> [] | Some s \<Rightarrow> s)"

definition audit_material ::
    "string option \<Rightarrow> string \<Rightarrow> string \<Rightarrow> string \<Rightarrow> string \<Rightarrow> string option \<Rightarrow> string \<Rightarrow> string \<Rightarrow> string" where
  "audit_material prev_hash trace_id event_type actor_type actor_id task_id payload_json created_at =
    join [CHR 0x1F] [or_empty prev_hash, trace_id, event_type, actor_type, actor_id,
      or_empty task_id, payload_json, created_at]"

definition audit_event_hash ::
    "(string \<Rightarrow> string) \<Rightarrow> string option \<Rightarrow> string \<Rightarrow> string \<Rightarrow> string \<Rightarrow> string \<Rightarrow> string option
      \<Rightarrow> string \<Rightarrow> string \<Rightarrow> string" where
  "audit_event_hash H prev_hash trace_id event_type actor_type actor_id task_id payload_json created_at =
    H (audit_material prev_hash trace_id event_type actor_type actor_id task_id payload_json created_at)"

text \<open>\<open>SELECT hash ... WHERE hash IS NOT NULL ORDER BY id DESC LIMIT 1\<close>\<close>

definition latest_audit_hash :: "audit_row sql_table \<Rightarrow> string option" where
  "latest_audit_hash t =
    (case fetchone (rev (sort_key ae_id (sql_select (\<lambda>r. ae_hash r \<noteq> None) t))) of
       None \<Rightarrow> None | Some r \<Rightarrow> ae_hash r)"

text \<open>
  \<open>fresh\<close> is the text of a new \<open>uuid4\<close> and \<open>clk\<close> the reading of \<open>datetime.now(UTC)\<close>. The
  dictionary returned holds the columns of the row written.
\<close>

definition append_audit_event ::
    "(string \<Rightarrow> string) \<Rightarrow> string \<Rightarrow> nat \<Rightarrow> string \<Rightarrow> json \<Rightarrow> string \<Rightarrow> string \<Rightarrow> string option
      \<Rightarrow> string option \<Rightarrow> string option \<Rightarrow> 'z audit_db_scheme \<Rightarrow> audit_row \<times> 'z audit_db_scheme" where
  "append_audit_event H fresh clk event_type payload actor_type actor_id task_id trace_id created_at db =
    (let now = (if or_empty created_at = [] then isoformat clk else or_empty created_at);
         resolved_trace_id = (if or_empty trace_id = [] then ''trc_'' @ fresh else or_empty trace_id);
         payload_json = json_dumps payload;
         prev_hash = latest_audit_hash (audit_events db);
         event_hash = audit_event_hash H prev_hash resolved_trace_id event_type actor_type actor_id
           task_id payload_json now;
         row = \<lparr>ae_id = next_rowid ae_id (audit_events db), ae_trace_id = resolved_trace_id,
           ae_event_type = event_type, ae_actor_type = actor_type, ae_actor_id = actor_id,
           ae_task_id = task_id, ae_payload_json = payload_json, ae_prev_hash = prev_hash,
           ae_hash = Some event_hash, ae_created_at = now\<rparr>
     in (row, db\<lparr>audit_events := audit_events db @ [row]\<rparr>))"

section \<open>The chain\<close>

text \<open>
  A row's own hash recomputed from its columns, as \<open>approval_binding\<close> recomputes it before it
  trusts a consent record.
\<close>

definition row_hash :: "(string \<Rightarrow> string) \<Rightarrow> audit_row \<Rightarrow> string" where
  "row_hash H r = audit_event_hash H (ae_prev_hash r) (ae_trace_id r) (ae_event_type r)
    (ae_actor_type r) (ae_actor_id r) (ae_task_id r) (ae_payload_json r) (ae_created_at r)"

text \<open>Every hashed row recomputes, and names the hash of the hashed row before it.\<close>

fun audit_chain :: "(string \<Rightarrow> string) \<Rightarrow> string option \<Rightarrow> audit_row list \<Rightarrow> bool" where
  "audit_chain H prev [] = True"
| "audit_chain H prev (r # rs) =
    (if ae_hash r = None then audit_chain H prev rs
     else ae_prev_hash r = prev \<and> ae_hash r = Some (row_hash H r) \<and> audit_chain H (ae_hash r) rs)"

fun chain_head :: "string option \<Rightarrow> audit_row list \<Rightarrow> string option" where
  "chain_head prev [] = prev"
| "chain_head prev (r # rs) = chain_head (if ae_hash r = None then prev else ae_hash r) rs"

definition audit_wf :: "'z audit_db_scheme \<Rightarrow> bool" where
  "audit_wf db \<longleftrightarrow> sorted (map ae_id (audit_events db)) \<and> distinct (map ae_id (audit_events db))"

lemma audit_chain_append:
  "audit_chain H prev (rs @ rs') \<longleftrightarrow> audit_chain H prev rs \<and> audit_chain H (chain_head prev rs) rs'"
  by (induction rs arbitrary: prev) auto

lemma chain_head_append: "chain_head prev (rs @ rs') = chain_head (chain_head prev rs) rs'"
  by (induction rs arbitrary: prev) auto

lemma chain_head_filter: "chain_head prev (filter (\<lambda>r. ae_hash r \<noteq> None) rs) = chain_head prev rs"
  by (induction rs arbitrary: prev) auto

lemma audit_chain_filter: "audit_chain H prev (filter (\<lambda>r. ae_hash r \<noteq> None) rs) = audit_chain H prev rs"
  by (induction rs arbitrary: prev) auto

lemma latest_audit_hash_head:
  assumes "sorted (map ae_id t)"
  shows "latest_audit_hash t = chain_head None t"
proof -
  have s: "sort_key ae_id (sql_select (\<lambda>r. ae_hash r \<noteq> None) t) = filter (\<lambda>r. ae_hash r \<noteq> None) t"
    using assms by (simp add: sort_key_sorted sql_select_def sorted_filter)
  have "case_option None ae_hash (fetchone (rev rs)) = chain_head None rs"
    if "\<forall>r \<in> set rs. ae_hash r \<noteq> None" for rs
    using that by (induction rs rule: rev_induct) (auto simp: chain_head_append)
  then have "case_option None ae_hash (fetchone (rev (filter (\<lambda>r. ae_hash r \<noteq> None) t))) =
    chain_head None (filter (\<lambda>r. ae_hash r \<noteq> None) t)"
    by (metis (mono_tags, lifting) mem_Collect_eq set_filter)
  then show ?thesis unfolding latest_audit_hash_def s by (simp only: chain_head_filter)
qed

text \<open>
  Appending keeps the log a chain: the new row takes the next identifier, points at the
  latest hash and recomputes, so a log that verifies goes on verifying from its first row.
\<close>

theorem append_audit_event_extends_chain:
  assumes "audit_wf db" and "audit_chain H None (audit_events db)"
    and "append_audit_event H fresh clk ty p at ai task trace created db = (r, db')"
  shows "audit_events db' = audit_events db @ [r] \<and> audit_wf db' \<and>
    audit_chain H None (audit_events db') \<and>
    ae_prev_hash r = chain_head None (audit_events db) \<and>
    chain_head None (audit_events db') = Some (row_hash H r)"
proof -
  let ?t = "audit_events db"
  have t': "audit_events db' = ?t @ [r]" and id: "ae_id r = next_rowid ae_id ?t"
    and p: "ae_prev_hash r = latest_audit_hash ?t" and h: "ae_hash r = Some (row_hash H r)"
    using assms(3) by (auto simp: append_audit_event_def row_hash_def Let_def)
  have "audit_wf db'"
    using assms(1) next_rowid_fresh [of _ ?t ae_id] id t'
    by (fastforce simp: audit_wf_def sorted_append)
  moreover have "ae_prev_hash r = chain_head None ?t"
    using p assms(1) by (simp add: latest_audit_hash_head audit_wf_def)
  ultimately show ?thesis
    using t' h assms(2) by (simp add: audit_chain_append chain_head_append)
qed

section \<open>Tamper evidence\<close>

text \<open>What the hash of a row covers; a missing task identifier hashes like an empty one.\<close>

definition audit_content :: "audit_row \<Rightarrow> string list" where
  "audit_content r = [ae_trace_id r, ae_event_type r, ae_actor_type r, ae_actor_id r,
    or_empty (ae_task_id r), ae_payload_json r, ae_created_at r]"

definition separator_free :: "string \<Rightarrow> bool" where
  "separator_free s \<longleftrightarrow> CHR 0x1F \<notin> set s"

definition hashed_content :: "audit_row list \<Rightarrow> string list list" where
  "hashed_content rs = map audit_content (filter (\<lambda>r. ae_hash r \<noteq> None) rs)"

text \<open>A hexadecimal digest: not empty, and without the separator.\<close>

definition digest_like :: "(string \<Rightarrow> string) \<Rightarrow> bool" where
  "digest_like H \<longleftrightarrow> (\<forall>m. H m \<noteq> [] \<and> separator_free (H m))"

lemma split_at_separator:
  "c \<notin> set x \<Longrightarrow> c \<notin> set y \<Longrightarrow> x @ c # u = y @ c # v \<Longrightarrow> x = y \<and> u = v"
proof (induction x arbitrary: y)
  case Nil
  then show ?case by (cases y) auto
next
  case (Cons a x)
  then show ?case by (cases y) auto
qed

lemma join_inj:
  assumes "join [c] xs = join [c] ys" and "length xs = length ys"
    and "\<forall>x \<in> set xs. c \<notin> set x" and "\<forall>y \<in> set ys. c \<notin> set y"
  shows "xs = ys"
  using assms
proof (induction xs arbitrary: ys)
  case Nil
  then show ?case by simp
next
  case (Cons x xs)
  then obtain y ys' where ys: "ys = y # ys'" by (cases ys) auto
  show ?case
  proof (cases xs)
    case Nil
    then show ?thesis using Cons.prems ys by simp
  next
    case (Cons x' xs')
    then obtain y' ys'' where ys': "ys' = y' # ys''" using Cons.prems ys by (cases ys') auto
    have eq: "x @ c # join [c] xs = y @ c # join [c] ys'"
      using Cons.prems(1) Cons ys ys' by simp
    have "c \<notin> set x" "c \<notin> set y" using Cons.prems(3,4) ys by auto
    then have "x = y \<and> join [c] xs = join [c] ys'" using eq by (rule split_at_separator)
    then show ?thesis using Cons.IH [of ys'] Cons.prems ys by auto
  qed
qed

text \<open>The text the hash of a row is taken of.\<close>

definition row_material :: "audit_row \<Rightarrow> string" where
  "row_material r = audit_material (ae_prev_hash r) (ae_trace_id r) (ae_event_type r) (ae_actor_type r)
    (ae_actor_id r) (ae_task_id r) (ae_payload_json r) (ae_created_at r)"

lemma row_hash_material: "row_hash H r = H (row_material r)"
  by (simp add: row_hash_def audit_event_hash_def row_material_def)

lemma row_material_inj:
  assumes "\<forall>s \<in> set (audit_content r). separator_free s" "\<forall>s \<in> set (audit_content r'). separator_free s"
    and "separator_free (or_empty (ae_prev_hash r))" "separator_free (or_empty (ae_prev_hash r'))"
    and "row_material r = row_material r'"
  shows "audit_content r = audit_content r' \<and> or_empty (ae_prev_hash r) = or_empty (ae_prev_hash r')"
proof -
  let ?m = "\<lambda>r. join [CHR 0x1F] (or_empty (ae_prev_hash r) # audit_content r)"
  have "?m x = row_material x" for x
    by (simp add: row_material_def audit_material_def audit_content_def)
  then have eq: "?m r = ?m r'" using assms(5) by simp
  have "or_empty (ae_prev_hash r) # audit_content r = or_empty (ae_prev_hash r') # audit_content r'"
    by (rule join_inj [OF eq]) (use assms in \<open>auto simp: separator_free_def audit_content_def\<close>)
  then show ?thesis by simp
qed

text \<open>Two of the rows whose different texts have one digest.\<close>

definition colliding_rows :: "(string \<Rightarrow> string) \<Rightarrow> audit_row list \<Rightarrow> audit_row list \<Rightarrow> bool" where
  "colliding_rows H rs rs' \<longleftrightarrow> (\<exists>r \<in> set rs. \<exists>r' \<in> set rs'. ae_hash r \<noteq> None \<and> ae_hash r' = ae_hash r \<and>
    row_material r \<noteq> row_material r' \<and> H (row_material r) = H (row_material r'))"

lemma colliding_rows_mono:
  "colliding_rows H rs rs' \<Longrightarrow> set rs \<subseteq> set ts \<Longrightarrow> set rs' \<subseteq> set ts' \<Longrightarrow> colliding_rows H ts ts'"
  unfolding colliding_rows_def by blast

lemma digest_separator_free: "digest_like H \<Longrightarrow> separator_free (or_empty (Some (H m)))"
  by (simp add: digest_like_def or_empty_def)

lemma chained_head_digest:
  "audit_chain H None rs \<Longrightarrow> chain_head None rs = Some h \<Longrightarrow> \<exists>m. h = H m"
proof (induction rs arbitrary: h rule: rev_induct)
  case Nil
  then show ?case by simp
next
  case (snoc r rs)
  then show ?case
    by (auto simp: audit_chain_append chain_head_append row_hash_def audit_event_hash_def
        split: if_split_asm)
qed

lemma head_separator_free:
  assumes "digest_like H" "audit_chain H None rs"
  shows "separator_free (or_empty (chain_head None rs))"
proof (cases "chain_head None rs")
  case None
  then show ?thesis by (simp add: or_empty_def separator_free_def)
next
  case (Some h)
  then obtain m where "h = H m" using chained_head_digest [OF assms(2)] by blast
  with Some digest_separator_free [OF assms(1)] show ?thesis by simp
qed

lemma head_or_empty_inj:
  assumes "digest_like H" "audit_chain H None rs" "audit_chain H None rs'"
    and "or_empty (chain_head None rs) = or_empty (chain_head None rs')"
  shows "chain_head None rs = chain_head None rs'"
proof -
  have "h \<noteq> []" if "audit_chain H None xs" "chain_head None xs = Some h" for xs h
    using chained_head_digest [OF that] assms(1) by (auto simp: digest_like_def)
  with assms(2-4) show ?thesis
    by (cases "chain_head None rs"; cases "chain_head None rs'") (auto simp: or_empty_def)
qed

lemma same_head_same_log:
  assumes "digest_like H" and "audit_chain H None rs" "audit_chain H None rs'"
    and "\<forall>r \<in> set rs. ae_hash r \<noteq> None" "\<forall>r \<in> set rs'. ae_hash r \<noteq> None"
    and "\<forall>r \<in> set rs \<union> set rs'. \<forall>s \<in> set (audit_content r). separator_free s"
    and "chain_head None rs = chain_head None rs'"
  shows "map audit_content rs = map audit_content rs' \<or> colliding_rows H rs rs'"
  using assms(2-)
proof (induction rs arbitrary: rs' rule: rev_induct)
  case Nil
  then show ?case by (cases rs' rule: rev_cases) (auto simp: chain_head_append)
next
  case (snoc r rs)
  then obtain r' ts where rs': "rs' = ts @ [r']"
    by (cases rs' rule: rev_cases) (auto simp: chain_head_append)
  have c: "audit_chain H None rs" "audit_chain H None ts"
    "ae_prev_hash r = chain_head None rs" "ae_prev_hash r' = chain_head None ts"
    "ae_hash r = Some (row_hash H r)" "ae_hash r' = Some (row_hash H r')" "ae_hash r' = ae_hash r"
    using snoc.prems rs' by (auto simp: audit_chain_append chain_head_append)
  show ?case
  proof (cases "row_material r = row_material r'")
    case True
    have "audit_content r = audit_content r' \<and> or_empty (ae_prev_hash r) = or_empty (ae_prev_hash r')"
      by (rule row_material_inj [OF _ _ _ _ True])
        (use snoc.prems(5) rs' c head_separator_free [OF assms(1) c(1)] head_separator_free [OF assms(1) c(2)] in auto)
    moreover from this have "chain_head None rs = chain_head None ts"
      using head_or_empty_inj [OF assms(1) c(1,2)] c(3,4) by simp
    with snoc.IH [OF c(1,2)] snoc.prems rs'
    have "map audit_content rs = map audit_content ts \<or> colliding_rows H rs ts" by auto
    ultimately show ?thesis
      using rs' colliding_rows_mono [of H rs ts "rs @ [r]" rs'] by auto
  next
    case False
    have "H (row_material r) = H (row_material r')" using c(5-7) by (simp add: row_hash_material)
    then have "colliding_rows H (rs @ [r]) rs'"
      unfolding colliding_rows_def using False c(5,7) rs' by auto
    then show ?thesis ..
  qed
qed

text \<open>
  C2. Tamper evidence. Take two logs that both verify and end in the same hash, whose texts do not hold
  the separator \<open>0x1F\<close>. Then their hashed rows are, in order, the same events (a missing task identifier
  counting as an empty one; rows without a hash, from before the chain, are not covered), or the two logs
  themselves hold a collision of SHA-256: a row of each, with different texts under the one stored digest.
  So nobody can change, drop, add or reorder hashed rows and keep the head without having found one.
\<close>

theorem audit_log_tamper_evident:
  assumes "digest_like H" and "audit_chain H None rs" "audit_chain H None rs'"
    and "chain_head None rs = chain_head None rs'"
    and "\<forall>r \<in> set rs \<union> set rs'. \<forall>s \<in> set (audit_content r). separator_free s"
  shows "hashed_content rs = hashed_content rs' \<or>
    (\<exists>r \<in> set rs. \<exists>r' \<in> set rs'. ae_hash r \<noteq> None \<and> ae_hash r' = ae_hash r \<and>
      row_material r \<noteq> row_material r' \<and> H (row_material r) = H (row_material r'))"
proof -
  let ?f = "filter (\<lambda>r. ae_hash r \<noteq> None)"
  have "map audit_content (?f rs) = map audit_content (?f rs') \<or> colliding_rows H (?f rs) (?f rs')"
  proof (rule same_head_same_log [OF assms(1)])
    show "audit_chain H None (?f rs)" "audit_chain H None (?f rs')"
      unfolding audit_chain_filter using assms(2,3) by simp_all
    show "chain_head None (?f rs) = chain_head None (?f rs')"
      unfolding chain_head_filter by (rule assms(4))
  qed (use assms(5) in auto)
  then show ?thesis
    using colliding_rows_mono [of H "?f rs" "?f rs'" rs rs'] by (auto simp: hashed_content_def colliding_rows_def)
qed

text \<open>A payload's JSON text never holds the separator: control characters are escaped.\<close>

lemma hex_value_unit_separator: "hex_value (CHR 0x1F) = None"
  by (simp add: hex_value_def)

lemma hex_char_separator_free: "d < 16 \<Longrightarrow> hex_char d \<noteq> CHR 0x1F"
  using hex_value_hex_char [of d] by (metis hex_value_unit_separator option.distinct(1))

lemma escape_char_separator_free: "CHR 0x1F \<notin> set (escape_char c)"
proof (cases "(of_char c :: nat) < 32")
  case True
  then have "hex_char (of_char c div 16) \<noteq> CHR 0x1F" "hex_char (of_char c mod 16) \<noteq> CHR 0x1F"
    by (simp_all add: hex_char_separator_free)
  with True show ?thesis by (simp add: escape_char_def)
next
  case False
  then have "c \<noteq> CHR 0x1F" by auto
  with False show ?thesis by (simp add: escape_char_def)
qed

lemma set_join: "set (join sep xs) \<subseteq> set sep \<union> (\<Union>x \<in> set xs. set x)"
  by (induction sep xs rule: join.induct) auto

lemma json_quote_separator_free: "CHR 0x1F \<notin> set (json_quote s)"
  using escape_char_separator_free by (auto simp: json_quote_def)

lemma dump_pairs_separator_free:
  assumes "\<forall>(k, v) \<in> set kvs. CHR 0x1F \<notin> set v"
  shows "CHR 0x1F \<notin> set (dump_pairs kvs)"
  using assms set_join [of "'',''" "map (\<lambda>(k, v). json_quote k @ '':'' @ v) kvs"]
    json_quote_separator_free
  by (fastforce simp: dump_pairs_def)

lemma show_int_separator_free: "CHR 0x1F \<notin> set (show_int i)"
proof -
  have "CHR 0x1F \<notin> set (show_nat n)" for n
    using show_nat_digits [of "CHR 0x1F" n] by (auto simp: is_digit_def less_eq_char_def)
  then show ?thesis by (simp add: show_int_def)
qed

lemma json_dumps_separator_free: "separator_free (json_dumps v)"
  unfolding separator_free_def
proof (induction v)
  case (JArr xs)
  then show ?case using set_join [of "'',''" "map json_dumps xs"] by auto
next
  case (JObj kvs)
  have "\<forall>(k, v) \<in> set (sort_key fst (map (map_prod id json_dumps) kvs)). CHR 0x1F \<notin> set v"
    using JObj by (fastforce simp: prod_set_defs)
  then show ?case using dump_pairs_separator_free by fastforce
qed (auto simp: json_quote_separator_free show_int_separator_free)

section \<open>Concrete instances\<close>

definition demo_digest :: "string \<Rightarrow> string" where
  "demo_digest m = show_nat (length m)"

lemma demo_digest_like: "digest_like demo_digest"
  using show_nat_digits [of "CHR 0x1F"]
  by (auto simp: digest_like_def separator_free_def demo_digest_def is_digit_def less_eq_char_def)

definition demo_audit_db :: audit_db where
  "demo_audit_db = \<lparr>control_plane_instances = [], maintenance_leases = [], audit_events = []\<rparr>"

definition demo_append :: "string \<Rightarrow> audit_db \<Rightarrow> audit_row \<times> audit_db" where
  "demo_append actor = append_audit_event demo_digest ''f'' 0 ''approval.requested'' (JObj [])
    ''device'' actor None (Some ''t1'') (Some ''2026-01-01'')"

lemma append_audit_event_extends_chain_witness:
  "audit_chain demo_digest None (audit_events (snd (demo_append ''a'' demo_audit_db)))"
proof -
  obtain r db' where run: "demo_append ''a'' demo_audit_db = (r, db')" by fastforce
  show ?thesis
    unfolding run snd_conv
    by (rule append_audit_event_extends_chain [OF _ _ run [unfolded demo_append_def],
          THEN conjunct2, THEN conjunct2, THEN conjunct1])
      (simp_all add: audit_wf_def demo_audit_db_def)
qed

lemma audit_log_tamper_evident_witness:
  "let log1 = audit_events (snd (demo_append ''a'' demo_audit_db));
       log2 = audit_events (snd (demo_append ''b'' demo_audit_db))
   in chain_head None log1 = chain_head None log2 \<and> hashed_content log1 \<noteq> hashed_content log2 \<and>
     (\<exists>r \<in> set log1. \<exists>r' \<in> set log2. row_material r \<noteq> row_material r' \<and>
       demo_digest (row_material r) = demo_digest (row_material r'))"
proof -
  let ?log = "\<lambda>x. audit_events (snd (demo_append x demo_audit_db))"
  note run = demo_append_def demo_audit_db_def append_audit_event_def latest_audit_hash_def Let_def
    or_empty_def table_simps audit_event_hash_def audit_material_def dump_pairs_def
  have c: "audit_chain demo_digest None (?log x)" for x
    by (simp add: run row_hash_def)
  have h: "chain_head None (?log ''a'') = chain_head None (?log ''b'')"
    by (simp add: run demo_digest_def)
  have d: "hashed_content (?log ''a'') \<noteq> hashed_content (?log ''b'')"
    by (simp add: run hashed_content_def audit_content_def)
  have s: "\<forall>r \<in> set (?log ''a'') \<union> set (?log ''b''). \<forall>s \<in> set (audit_content r). separator_free s"
    by (simp add: run audit_content_def separator_free_def)
  show ?thesis
    using audit_log_tamper_evident [OF demo_digest_like c c h s] h d unfolding Let_def by blast
qed

end
