(* ===== verification/Event_Privacy.thy ===== *)
theory Event_Privacy
  imports Json_Text Control_Plane_Instance
begin

text \<open>
  \<open>server/app/services/event_privacy.py\<close>: which payloads may enter the outbox and the shared
  board, and the projection every WebSocket event passes through.

  A forbidden key is decided exactly: a key with a character outside ASCII is forbidden before
  it is folded, and on ASCII text \<open>_fold_confusables\<close> is lower case with an underscore at each
  camel-case boundary. The scan of text values for credentials (\<open>_contains_secret_text\<close>, a
  regular expression over text folded by Python's Unicode tables) is the parameter \<open>secret\<close>.
\<close>

section \<open>Keys\<close>

definition forbidden_key_parts :: "string list" where
  "forbidden_key_parts = [''access_key'', ''api_key'', ''authorization'', ''bearer'', ''cookie'',
    ''credential'', ''password'', ''private_key'', ''session_id'', ''secret'', ''token'',
    ''grant_id'', ''grant_digest'', ''lease_token'', ''token_hash'', ''native_result'',
    ''result_json'', ''arguments_json'']"

definition forbidden_key_segments :: "string list" where
  "forbidden_key_segments = [''auth'', ''grant'']"

definition board_boolean_markers :: "string list" where
  "board_boolean_markers = [''arguments_redacted'', ''result_redacted'']"

definition board_forbidden_key_parts :: "string list" where
  "board_forbidden_key_parts = [''argument'', ''body'', ''contact'', ''coordinate'', ''email'',
    ''latitude'', ''longitude'', ''message_body'', ''native_payload'', ''output'', ''path'',
    ''phone'', ''result'', ''sms'']"

definition board_forbidden_keys :: "string list" where
  "board_forbidden_keys = [''address'', ''addresses'', ''bcc'', ''cc'', ''lat'', ''lng'',
    ''recipient'', ''recipients'', ''text'', ''to'']"

definition board_natural_language_keys :: "string list" where
  "board_natural_language_keys = [''content'', ''description'', ''input'', ''message'', ''note'',
    ''notes'', ''prompt'', ''summary'', ''title'']"

definition is_ascii :: "string \<Rightarrow> bool" where
  "is_ascii s = list_all (\<lambda>c. (of_char c :: nat) < 128) s"

text \<open>\<open>_CAMEL_BOUNDARY.sub("_", s)\<close>\<close>

fun camel_boundaries :: "string \<Rightarrow> string" where
  "camel_boundaries (a # b # s) =
    (if (is_lower a \<or> is_digit a) \<and> is_upper b then a # CHR ''_'' # camel_boundaries (b # s)
     else a # camel_boundaries (b # s))"
| "camel_boundaries s = s"

definition fold_ascii :: "string \<Rightarrow> string" where
  "fold_ascii s = map ascii_lower (camel_boundaries s)"

text \<open>\<open>re.sub(r"[^a-z0-9]+", "_", s)\<close>\<close>

fun underscore_runs :: "bool \<Rightarrow> string \<Rightarrow> string" where
  "underscore_runs in_run [] = []"
| "underscore_runs in_run (c # s) =
    (if label_char c then c # underscore_runs False s
     else if in_run then underscore_runs True s
     else CHR ''_'' # underscore_runs True s)"

definition normalized_key :: "string \<Rightarrow> string" where
  "normalized_key key = strip_by (\<lambda>c. c = CHR ''_'') (underscore_runs False (fold_ascii key))"

definition compact_key :: "string \<Rightarrow> string" where
  "compact_key s = filter (\<lambda>c. c \<noteq> CHR ''_'') s"

text \<open>\<open>s.split("_")\<close>\<close>

fun split_underscore :: "string \<Rightarrow> string list" where
  "split_underscore [] = [[]]"
| "split_underscore (c # s) =
    (if c = CHR ''_'' then [] # split_underscore s
     else (case split_underscore s of [] \<Rightarrow> [[c]] | w # ws \<Rightarrow> (c # w) # ws))"

text \<open>\<open>part in s\<close>\<close>

fun contains :: "string \<Rightarrow> string \<Rightarrow> bool" where
  "contains part [] \<longleftrightarrow> part = []"
| "contains part (c # s) \<longleftrightarrow> take (length part) (c # s) = part \<or> contains part s"

definition key_includes :: "string \<Rightarrow> string \<Rightarrow> bool" where
  "key_includes normalized part \<longleftrightarrow>
    contains part normalized \<or> contains (compact_key part) (compact_key normalized)"

definition ends_with :: "string \<Rightarrow> string \<Rightarrow> bool" where
  "ends_with suffix s \<longleftrightarrow> length suffix \<le> length s \<and> drop (length s - length suffix) s = suffix"

definition starts_with :: "string \<Rightarrow> string \<Rightarrow> bool" where
  "starts_with prefix s \<longleftrightarrow> take (length prefix) s = prefix"

definition forbidden_key :: "string \<Rightarrow> bool \<Rightarrow> bool \<Rightarrow> bool" where
  "forbidden_key key board_payload natural_language_payload \<longleftrightarrow>
    (if \<not> is_ascii key then True
     else
       let normalized = normalized_key key;
           segments = split_underscore normalized
       in list_ex (\<lambda>p. p \<in> set forbidden_key_segments) segments \<or>
          list_ex (key_includes normalized) forbidden_key_parts \<or>
          board_payload \<and> (normalized \<in> set board_forbidden_keys \<or>
            list_ex (key_includes normalized) board_forbidden_key_parts) \<or>
          natural_language_payload \<and> list_ex (\<lambda>p. p \<in> set board_natural_language_keys) segments \<and>
            \<not> ends_with ''_id'' normalized)"

text \<open>
  \<open>key.casefold() in _BOARD_BOOLEAN_MARKERS\<close>. Of the characters outside ASCII only the long s
  (\<open>U+017F\<close>, bytes C5 BF) folds into text of a marker.
\<close>

fun casefold_marker :: "string \<Rightarrow> string" where
  "casefold_marker (a # b # s) =
    (if a = CHR 0xC5 \<and> b = CHR 0xBF then CHR ''s'' # casefold_marker s
     else ascii_lower a # casefold_marker (b # s))"
| "casefold_marker s = map ascii_lower s"

definition is_board_marker :: "string \<Rightarrow> bool" where
  "is_board_marker key \<longleftrightarrow> casefold_marker key \<in> set board_boolean_markers"

section \<open>The walk over a shared payload\<close>

text \<open>Keys of \<open>json\<close> are texts, so the check that they are is the type.\<close>

fun walk_shared :: "(string \<Rightarrow> bool) \<Rightarrow> bool \<Rightarrow> string \<Rightarrow> json \<Rightarrow> py_error + unit"
  and walk_members :: "(string \<Rightarrow> bool) \<Rightarrow> bool \<Rightarrow> string \<Rightarrow> (string \<times> json) list \<Rightarrow> py_error + unit"
  and walk_items :: "(string \<Rightarrow> bool) \<Rightarrow> bool \<Rightarrow> string \<Rightarrow> nat \<Rightarrow> json list \<Rightarrow> py_error + unit" where
  "walk_shared secret board path (JObj kvs) = walk_members secret board path kvs"
| "walk_shared secret board path (JArr xs) = walk_items secret board path 0 xs"
| "walk_shared secret board path (JStr s) =
    require (\<not> secret s) (EventPrivacyError (''shared event contains credential-like text at '' @ path))"
| "walk_shared secret board path JNull = Inr ()"
| "walk_shared secret board path (JBool b) = Inr ()"
| "walk_shared secret board path (JInt i) = Inr ()"
| "walk_members secret board path [] = Inr ()"
| "walk_members secret board path ((key, nested) # kvs) =
    (if board \<and> is_board_marker key
     then and_then
       (require (nested = JBool True)
         (EventPrivacyError (''shared event redaction marker is invalid at '' @ path)))
       (\<lambda>_. walk_members secret board path kvs)
     else if forbidden_key key board board
     then Inl (EventPrivacyError (''shared event field is forbidden at '' @ path))
     else and_then (walk_shared secret board (path @ ''.'' @ key) nested)
       (\<lambda>_. walk_members secret board path kvs))"
| "walk_items secret board path n [] = Inr ()"
| "walk_items secret board path n (x # xs) =
    and_then (walk_shared secret board (path @ ''['' @ show_nat n @ '']'') x)
      (\<lambda>_. walk_items secret board path (Suc n) xs)"

definition assert_safe_shared_payload :: "(string \<Rightarrow> bool) \<Rightarrow> json \<Rightarrow> py_error + unit" where
  "assert_safe_shared_payload secret payload =
    (case payload of
       JObj kvs \<Rightarrow> walk_shared secret True ''payload'' payload
     | _ \<Rightarrow> Inl (TypeError ''shared event payload must be an object''))"

section \<open>The projection of WebSocket events\<close>

definition redacted_result :: json where
  "redacted_result = JObj [(''result_redacted'', JBool True)]"

definition redacted_text :: string where
  "redacted_text = ''<redacted sensitive text>''"

text \<open>\<open>nested == {"result_redacted": True}\<close>; in Python \<open>1 == True\<close>.\<close>

definition equals_redacted_result :: "json \<Rightarrow> bool" where
  "equals_redacted_result v \<longleftrightarrow>
    v = redacted_result \<or> v = JObj [(''result_redacted'', JInt 1)]"

fun sanitize :: "(string \<Rightarrow> bool) \<Rightarrow> bool \<Rightarrow> json \<Rightarrow> py_error + json"
  and sanitize_members :: "(string \<Rightarrow> bool) \<Rightarrow> bool \<Rightarrow> (string \<times> json) list
      \<Rightarrow> py_error + (string \<times> json) list"
  and sanitize_items :: "(string \<Rightarrow> bool) \<Rightarrow> bool \<Rightarrow> json list \<Rightarrow> py_error + json list" where
  "sanitize secret shared (JObj kvs) =
    and_then (sanitize_members secret shared kvs) (\<lambda>kvs'. Inr (JObj kvs'))"
| "sanitize secret shared (JArr xs) =
    and_then (sanitize_items secret shared xs) (\<lambda>xs'. Inr (JArr xs'))"
| "sanitize secret shared (JStr s) = Inr (JStr (if secret s then redacted_text else s))"
| "sanitize secret shared JNull = Inr JNull"
| "sanitize secret shared (JBool b) = Inr (JBool b)"
| "sanitize secret shared (JInt i) = Inr (JInt i)"
| "sanitize_members secret shared [] = Inr []"
| "sanitize_members secret shared ((key, nested) # kvs) =
    (if key \<in> set board_boolean_markers
     then (case nested of
         JBool b \<Rightarrow> and_then (sanitize_members secret shared kvs) (\<lambda>r. Inr ((key, nested) # r))
       | _ \<Rightarrow> Inl (EventPrivacyError ''WebSocket event redaction marker must be boolean''))
     else if key = ''result'' \<and> equals_redacted_result nested
     then and_then (sanitize_members secret shared kvs) (\<lambda>r. Inr ((key, redacted_result) # r))
     else if forbidden_key key shared False
     then sanitize_members secret shared kvs
     else and_then (sanitize secret shared nested) (\<lambda>nested'.
       and_then (sanitize_members secret shared kvs) (\<lambda>r. Inr ((key, nested') # r))))"
| "sanitize_items secret shared [] = Inr []"
| "sanitize_items secret shared (x # xs) =
    and_then (sanitize secret shared x) (\<lambda>y.
      and_then (sanitize_items secret shared xs) (\<lambda>ys. Inr (y # ys)))"

text \<open>\<open>{key: payload[key] for key in allowed if key in payload}\<close>\<close>

definition project_fields :: "string list \<Rightarrow> (string \<times> json) list \<Rightarrow> (string \<times> json) list" where
  "project_fields allowed payload =
    concat (map (\<lambda>k. case map_of payload k of None \<Rightarrow> [] | Some v \<Rightarrow> [(k, v)]) allowed)"

definition refetch_notification :: "(string \<times> json) list \<Rightarrow> string list \<Rightarrow> (string \<times> json) list" where
  "refetch_notification payload allowed_fields =
    dict_set ''refetch_required'' (JBool True) (project_fields allowed_fields payload)"

definition task_notification_fields :: "string list" where
  "task_notification_fields = [''id'', ''task_id'', ''conversation_id'', ''status'', ''created_at'',
    ''updated_at'', ''completed_at'']"

definition message_notification_fields :: "string list" where
  "message_notification_fields = [''id'', ''message_id'', ''conversation_id'', ''task_id'', ''role'',
    ''agent_id'', ''status'', ''created_at'', ''updated_at'']"

definition orchestrator_notification_fields :: "string list" where
  "orchestrator_notification_fields = [''task_id'', ''planner_source'', ''status'', ''created_at'',
    ''updated_at'']"

definition approval_notification_fields :: "string list" where
  "approval_notification_fields = [''id'', ''approval_id'', ''task_id'', ''tool_call_id'', ''status'',
    ''created_at'', ''expires_at'', ''decided_at'']"

definition goal_notification_fields :: "string list" where
  "goal_notification_fields = [''id'', ''root_task_id'', ''status'', ''current_phase'', ''updated_at'',
    ''completed_at'']"

definition plan_node_notification_fields :: "string list" where
  "plan_node_notification_fields = [''id'', ''goal_run_id'', ''status'', ''updated_at'', ''completed_at'']"

definition goal_result_notification_fields :: "string list" where
  "goal_result_notification_fields = [''goal_run_id'', ''root_task_id'', ''status'', ''completed_at'']"

definition redact_tool_payload :: "(string \<times> json) list \<Rightarrow> (string \<times> json) list" where
  "redact_tool_payload payload =
    (let projected = (case map_of payload ''result'' of
           None \<Rightarrow> payload
         | Some v \<Rightarrow> if v = JNull then payload else dict_set ''result'' redacted_result payload)
     in filter (\<lambda>(k, v). k \<noteq> ''error_json'') projected)"

definition project_event :: "string \<Rightarrow> (string \<times> json) list \<Rightarrow> (string \<times> json) list" where
  "project_event event_type payload =
    (if starts_with ''iphone.capability.'' event_type
     then project_fields [''request_id'', ''capability_name'', ''expires_at'', ''status'', ''preview''] payload
     else if starts_with ''tool.'' event_type then redact_tool_payload payload
     else if event_type = ''memory.updated''
     then project_fields [''id'', ''pinned'', ''updated_at'', ''scope'', ''kind''] payload
     else if starts_with ''task.'' event_type then refetch_notification payload task_notification_fields
     else if starts_with ''message.'' event_type then refetch_notification payload message_notification_fields
     else if event_type = ''orchestrator.proposed''
     then refetch_notification payload orchestrator_notification_fields
     else if starts_with ''approval.'' event_type then refetch_notification payload approval_notification_fields
     else if event_type = ''goal.updated'' then refetch_notification payload goal_notification_fields
     else if event_type = ''plan.node.updated''
     then refetch_notification payload plan_node_notification_fields
     else if event_type = ''goal.result.updated''
     then refetch_notification payload goal_result_notification_fields
     else payload)"

definition safe_websocket_event :: "(string \<Rightarrow> bool) \<Rightarrow> (string \<times> json) list \<Rightarrow> py_error + json" where
  "safe_websocket_event secret event =
    (if set (map fst event) \<noteq> {''type'', ''payload''}
     then Inl (EventPrivacyError ''WebSocket event must contain only type and payload'')
     else (case (map_of event ''type'', map_of event ''payload'') of
         (Some (JStr event_type), Some (JObj payload)) \<Rightarrow>
           if event_type = [] then Inl (EventPrivacyError ''WebSocket event shape is invalid'')
           else and_then (sanitize secret True (JObj (project_event event_type payload))) (\<lambda>sanitized.
             and_then (walk_shared secret False ''payload'' sanitized) (\<lambda>_.
               Inr (JObj [(''type'', JStr event_type), (''payload'', sanitized)])))
       | _ \<Rightarrow> Inl (EventPrivacyError ''WebSocket event shape is invalid'')))"

section \<open>What a value holds\<close>

text \<open>Every member (key and value) and every text value, at any depth.\<close>

primrec json_members :: "json \<Rightarrow> (string \<times> json) list" where
  "json_members JNull = []"
| "json_members (JBool b) = []"
| "json_members (JInt i) = []"
| "json_members (JStr s) = []"
| "json_members (JArr xs) = concat (map json_members xs)"
| "json_members (JObj kvs) = kvs @ concat (map snd (map (map_prod id json_members) kvs))"

primrec json_texts :: "json \<Rightarrow> string list" where
  "json_texts JNull = []"
| "json_texts (JBool b) = []"
| "json_texts (JInt i) = []"
| "json_texts (JStr s) = [s]"
| "json_texts (JArr xs) = concat (map json_texts xs)"
| "json_texts (JObj kvs) = concat (map snd (map (map_prod id json_texts) kvs))"

lemma json_parts_simps [simp]:
  "json_members (JObj ((k, v) # kvs)) = (k, v) # kvs @ json_members v @
     concat (map snd (map (map_prod id json_members) kvs))"
  "json_texts (JObj ((k, v) # kvs)) = json_texts v @ json_texts (JObj kvs)"
  "json_members (JArr (x # xs)) = json_members x @ json_members (JArr xs)"
  "json_texts (JArr (x # xs)) = json_texts x @ json_texts (JArr xs)"
  by simp_all

text \<open>One member the walk accepts.\<close>

definition member_ok :: "bool \<Rightarrow> string \<times> json \<Rightarrow> bool" where
  "member_ok board kv \<longleftrightarrow>
    (if board \<and> is_board_marker (fst kv) then snd kv = JBool True
     else \<not> forbidden_key (fst kv) board board)"

lemma walk_iff:
  "walk_shared secret board path v = Inr () \<longleftrightarrow>
    (\<forall>kv \<in> set (json_members v). member_ok board kv) \<and> (\<forall>s \<in> set (json_texts v). \<not> secret s)"
  "walk_members secret board path kvs = Inr () \<longleftrightarrow>
    (\<forall>kv \<in> set (json_members (JObj kvs)). member_ok board kv) \<and>
    (\<forall>s \<in> set (json_texts (JObj kvs)). \<not> secret s)"
  "walk_items secret board path n xs = Inr () \<longleftrightarrow>
    (\<forall>kv \<in> set (json_members (JArr xs)). member_ok board kv) \<and>
    (\<forall>s \<in> set (json_texts (JArr xs)). \<not> secret s)"
proof (induction secret board path v and secret board path kvs and secret board path n xs
    rule: walk_shared_walk_members_walk_items.induct)
  case (8 secret board path key nested kvs)
  show ?case
  proof (cases "board \<and> is_board_marker key")
    case True
    show ?thesis
    proof (cases "nested = JBool True")
      case nested: True
      show ?thesis using 8(1) True nested by (simp add: member_ok_def)
    next
      case False
      then show ?thesis using True by (simp add: member_ok_def)
    qed
  next
    case False
    show ?thesis
    proof (cases "forbidden_key key board board")
      case True
      then show ?thesis using False by (cases board) (simp_all add: member_ok_def)
    next
      case not_forbidden: False
      have ok: "member_ok board (key, nested)"
        using False not_forbidden by (auto simp: member_ok_def)
      have "walk_members secret board path ((key, nested) # kvs) = Inr () \<longleftrightarrow>
        walk_shared secret board (path @ ''.'' @ key) nested = Inr () \<and>
        walk_members secret board path kvs = Inr ()"
        using False not_forbidden by (cases board) (simp_all add: and_then_Inr_iff)
      then show ?thesis
        unfolding 8(2) [OF False not_forbidden] 8(3) [OF False not_forbidden] json_parts_simps
        using ok by (simp add: ball_Un) blast
    qed
  qed
next
  case (10 secret board path n x xs)
  then show ?case by (simp add: and_then_Inr_iff ball_Un) blast
qed (simp_all add: require_Inr_iff)

text \<open>
  C3. What may enter the outbox and the board: a payload is admitted exactly when it is an
  object in which, at every depth, each redaction marker holds \<open>True\<close>, no other key is
  forbidden and no text looks like a credential.
\<close>

theorem shared_payload_admitted_iff:
  "assert_safe_shared_payload secret payload = Inr () \<longleftrightarrow>
    (\<exists>kvs. payload = JObj kvs) \<and>
    (\<forall>(k, v) \<in> set (json_members payload).
       if is_board_marker k then v = JBool True else \<not> forbidden_key k True True) \<and>
    (\<forall>s \<in> set (json_texts payload). \<not> secret s)"
proof -
  have "(\<forall>(k, v) \<in> set (json_members payload).
      if is_board_marker k then v = JBool True else \<not> forbidden_key k True True) \<longleftrightarrow>
    (\<forall>kv \<in> set (json_members payload). member_ok True kv)"
    by (simp add: member_ok_def case_prod_beta)
  then show ?thesis
    by (cases payload) (simp_all add: assert_safe_shared_payload_def walk_iff(1)
        del: walk_shared.simps json_members.simps json_texts.simps)
qed

section \<open>What the projection lets through\<close>

definition sanitized_member :: "bool \<Rightarrow> string \<times> json \<Rightarrow> bool" where
  "sanitized_member shared kv \<longleftrightarrow>
    fst kv \<in> set board_boolean_markers \<and> (\<exists>b. snd kv = JBool b) \<or>
    fst kv = ''result'' \<and> snd kv = redacted_result \<or>
    \<not> forbidden_key (fst kv) shared False"

lemma redacted_result_parts [simp]:
  "json_members redacted_result = [(''result_redacted'', JBool True)]"
  "json_texts redacted_result = []"
  by (simp_all add: redacted_result_def)

lemma marker_result_redacted [simp]: "''result_redacted'' \<in> set board_boolean_markers"
  by (simp add: board_boolean_markers_def)

lemma sanitized:
  "sanitize secret shared v = Inr v' \<Longrightarrow> \<not> secret redacted_text \<Longrightarrow>
    (\<forall>kv \<in> set (json_members v'). sanitized_member shared kv) \<and> (\<forall>s \<in> set (json_texts v'). \<not> secret s)"
  "sanitize_members secret shared kvs = Inr kvs' \<Longrightarrow> \<not> secret redacted_text \<Longrightarrow>
    (\<forall>kv \<in> set (json_members (JObj kvs')). sanitized_member shared kv) \<and>
    (\<forall>s \<in> set (json_texts (JObj kvs')). \<not> secret s)"
  "sanitize_items secret shared xs = Inr xs' \<Longrightarrow> \<not> secret redacted_text \<Longrightarrow>
    (\<forall>kv \<in> set (json_members (JArr xs')). sanitized_member shared kv) \<and>
    (\<forall>s \<in> set (json_texts (JArr xs')). \<not> secret s)"
proof (induction secret shared v and secret shared kvs and secret shared xs
    arbitrary: v' and kvs' and xs' rule: sanitize_sanitize_members_sanitize_items.induct)
  case (8 secret shared key nested kvs)
  consider (marker) "key \<in> set board_boolean_markers"
    | (result) "key \<notin> set board_boolean_markers" "key = ''result'' \<and> equals_redacted_result nested"
    | (dropped) "key \<notin> set board_boolean_markers" "\<not> (key = ''result'' \<and> equals_redacted_result nested)"
        "forbidden_key key shared False"
    | (kept) "key \<notin> set board_boolean_markers" "\<not> (key = ''result'' \<and> equals_redacted_result nested)"
        "\<not> forbidden_key key shared False" by blast
  then show ?case
  proof cases
    case marker
    with 8(6) obtain b r where "nested = JBool b" "sanitize_members secret shared kvs = Inr r"
      "kvs' = (key, JBool b) # r" by (cases nested) (auto simp: and_then_Inr_iff)
    moreover have "sanitized_member shared (key, JBool b)"
      using marker by (simp add: sanitized_member_def)
    ultimately show ?thesis using 8(1) [OF marker] 8(7) by (simp add: ball_Un)
  next
    case result
    with 8(6) obtain r where "sanitize_members secret shared kvs = Inr r"
      "kvs' = (key, redacted_result) # r" by (auto simp: and_then_Inr_iff)
    moreover have "sanitized_member shared (key, redacted_result)"
      "sanitized_member shared (''result_redacted'', JBool True)"
      using result by (auto simp: sanitized_member_def)
    ultimately show ?thesis using 8(2) [OF result] 8(7) by (simp add: ball_Un)
  next
    case dropped
    with 8(6) have "sanitize_members secret shared kvs = Inr kvs'" by auto
    then show ?thesis using 8(3) [OF dropped] 8(7) by simp
  next
    case kept
    with 8(6) obtain n r where n: "sanitize secret shared nested = Inr n"
      "sanitize_members secret shared kvs = Inr r" "kvs' = (key, n) # r"
      by (auto simp: and_then_Inr_iff)
    moreover have "sanitized_member shared (key, n)"
      using kept by (simp add: sanitized_member_def)
    ultimately show ?thesis using 8(4) [OF kept n(1) 8(7)] 8(5) [OF kept n(2) 8(7)] by (simp add: ball_Un)
  qed
next
  case (10 secret shared x xs)
  from 10(3) obtain y ys where y: "sanitize secret shared x = Inr y"
    "sanitize_items secret shared xs = Inr ys" "xs' = y # ys" by (auto simp: and_then_Inr_iff)
  show ?case
    using 10(1) [OF y(1) 10(4)] 10(2) [OF y(2) 10(4)] y(3) by (simp add: ball_Un)
next
  case (3 secret shared s)
  then show ?case by (auto simp: eq_commute [of _ v'])
qed (auto simp: and_then_Inr_iff)

lemma forbidden_key_board_mono: "\<not> forbidden_key k True n \<Longrightarrow> \<not> forbidden_key k b False"
  by (auto simp: forbidden_key_def Let_def split: if_split_asm)

lemma projected_keys_admitted:
  "\<not> forbidden_key ''result'' False False"
  "\<not> forbidden_key ''arguments_redacted'' False False"
  "\<not> forbidden_key ''result_redacted'' False False"
  by code_simp+

lemma sanitized_member_walk:
  assumes "sanitized_member True kv"
  shows "member_ok False kv"
proof -
  have "fst kv \<in> set board_boolean_markers \<or> fst kv = ''result'' \<or> \<not> forbidden_key (fst kv) True False"
    using assms unfolding sanitized_member_def by blast
  then have "\<not> forbidden_key (fst kv) False False"
    using projected_keys_admitted forbidden_key_board_mono [of "fst kv" False False]
    unfolding board_boolean_markers_def by fastforce
  then show ?thesis by (simp add: member_ok_def)
qed

lemma sanitized_walk:
  "sanitize secret True v = Inr v' \<Longrightarrow> \<not> secret redacted_text \<Longrightarrow> walk_shared secret False path v' = Inr ()"
  using sanitized(1) [of secret True v v'] sanitized_member_walk by (auto simp: walk_iff(1))

lemma sanitize_total:
  "(\<forall>(k, x) \<in> set (json_members v). k \<in> set board_boolean_markers \<longrightarrow> (\<exists>b. x = JBool b)) \<Longrightarrow>
    \<exists>v'. sanitize secret shared v = Inr v'"
  "(\<forall>(k, x) \<in> set (json_members (JObj kvs)). k \<in> set board_boolean_markers \<longrightarrow> (\<exists>b. x = JBool b)) \<Longrightarrow>
    \<exists>kvs'. sanitize_members secret shared kvs = Inr kvs'"
  "(\<forall>(k, x) \<in> set (json_members (JArr xs)). k \<in> set board_boolean_markers \<longrightarrow> (\<exists>b. x = JBool b)) \<Longrightarrow>
    \<exists>xs'. sanitize_items secret shared xs = Inr xs'"
proof (induction secret shared v and secret shared kvs and secret shared xs
    rule: sanitize_sanitize_members_sanitize_items.induct)
  case (8 secret shared key nested kvs)
  let ?ok = "\<lambda>ms. \<forall>(k, x) \<in> set ms. k \<in> set board_boolean_markers \<longrightarrow> (\<exists>b. x = JBool b)"
  have ok: "?ok (json_members nested)" "?ok (json_members (JObj kvs))"
    and b: "key \<in> set board_boolean_markers \<Longrightarrow> \<exists>b. nested = JBool b"
    using 8(6) by auto
  consider (marker) "key \<in> set board_boolean_markers"
    | (result) "key \<notin> set board_boolean_markers" "key = ''result'' \<and> equals_redacted_result nested"
    | (dropped) "key \<notin> set board_boolean_markers" "\<not> (key = ''result'' \<and> equals_redacted_result nested)"
        "forbidden_key key shared False"
    | (kept) "key \<notin> set board_boolean_markers" "\<not> (key = ''result'' \<and> equals_redacted_result nested)"
        "\<not> forbidden_key key shared False" by blast
  then show ?case
  proof cases
    case marker
    then obtain b where "nested = JBool b" using b by blast
    then show ?thesis using 8(1) [OF marker _ ok(2)] marker by fastforce
  next
    case result
    then show ?thesis using 8(2) [OF result ok(2)] by auto
  next
    case dropped
    then show ?thesis using 8(3) [OF dropped ok(2)] by auto
  next
    case kept
    obtain n r where "sanitize secret shared nested = Inr n" "sanitize_members secret shared kvs = Inr r"
      using 8(4) [OF kept ok(1)] 8(5) [OF kept ok(2)] by blast
    then have "sanitize_members secret shared ((key, nested) # kvs) = Inr ((key, n) # r)"
      using kept by auto
    then show ?thesis by blast
  qed
next
  case (10 secret shared x xs)
  have "\<exists>y. sanitize secret shared x = Inr y" using 10(1,3) by auto
  moreover have "\<exists>ys. sanitize_items secret shared xs = Inr ys" using 10(2,3) by auto
  ultimately show ?case by fastforce
qed auto

text \<open>
  C4. What a paired device receives: an event that is delivered keeps its type, and its payload
  holds, at every depth, only boolean redaction markers, redacted results and keys the board
  vocabulary admits, with no text that looks like a credential.
\<close>

theorem websocket_event_is_sanitized:
  assumes "safe_websocket_event secret event = Inr out" and "\<not> secret redacted_text"
  shows "\<exists>ty payload. map_of event ''type'' = Some (JStr ty) \<and>
    out = JObj [(''type'', JStr ty), (''payload'', payload)] \<and>
    (\<forall>(k, v) \<in> set (json_members payload).
       k \<in> set board_boolean_markers \<and> (\<exists>b. v = JBool b) \<or>
       k = ''result'' \<and> v = redacted_result \<or> \<not> forbidden_key k True False) \<and>
    (\<forall>s \<in> set (json_texts payload). \<not> secret s)"
proof -
  obtain ty p q where *: "map_of event ''type'' = Some (JStr ty)"
    "sanitize secret True (JObj (project_event ty p)) = Inr q"
    "out = JObj [(''type'', JStr ty), (''payload'', q)]"
    using assms(1)
    by (auto simp: safe_websocket_event_def simp del: sanitize.simps walk_shared.simps
        split: if_split_asm option.split_asm json.split_asm)
  show ?thesis
    using * sanitized(1) [OF *(2) assms(2)] by (auto simp: sanitized_member_def)
qed

lemma set_dict_set: "set (dict_set k v d) \<subseteq> insert (k, v) (set d)"
  by (induction k v d rule: dict_set.induct) (auto split: if_split_asm)

lemma set_project_fields: "set (project_fields allowed payload) \<subseteq> set payload"
  by (auto simp: project_fields_def eq_commute [of "Some _"] split: option.split_asm intro: map_of_SomeD)

lemma set_refetch_notification:
  "set (refetch_notification payload allowed) \<subseteq> insert (''refetch_required'', JBool True) (set payload)"
  using set_dict_set [of "''refetch_required''" "JBool True" "project_fields allowed payload"]
    set_project_fields [of allowed payload] by (auto simp: refetch_notification_def)

lemma set_redact_tool_payload:
  "set (redact_tool_payload payload) \<subseteq> insert (''result'', redacted_result) (set payload)"
  using set_dict_set [of "''result''" redacted_result payload]
  by (auto simp: redact_tool_payload_def Let_def split: option.split_asm if_split_asm)

lemma set_project_event:
  "set (project_event ty payload) \<subseteq>
    insert (''refetch_required'', JBool True) (insert (''result'', redacted_result) (set payload))"
proof -
  let ?all = "insert (''refetch_required'', JBool True) (insert (''result'', redacted_result) (set payload))"
  have *: "set (project_fields fs payload) \<subseteq> ?all" "set (refetch_notification payload fs) \<subseteq> ?all"
    "set (redact_tool_payload payload) \<subseteq> ?all" "set payload \<subseteq> ?all" for fs
    using set_project_fields [of fs payload] set_refetch_notification [of payload fs]
      set_redact_tool_payload [of payload] by blast+
  show ?thesis
    unfolding project_event_def if_distrib [of set] if_distrib [of "\<lambda>s. s \<subseteq> ?all"]
    by (simp only: * if_cancel)
qed

text \<open>
  C5. Nothing well-formed is lost: an event with a type and an object payload, whose redaction
  markers are booleans, is always delivered; whatever else its payload holds is dropped or
  redacted and never makes the final walk fail.
\<close>

theorem websocket_event_is_delivered:
  assumes "event = [(''type'', JStr ty), (''payload'', JObj p)]" and "ty \<noteq> []"
    and "\<forall>(k, v) \<in> set (json_members (JObj p)). k \<in> set board_boolean_markers \<longrightarrow> (\<exists>b. v = JBool b)"
    and "\<not> secret redacted_text"
  shows "\<exists>payload. safe_websocket_event secret event =
    Inr (JObj [(''type'', JStr ty), (''payload'', payload)])"
proof -
  let ?p = "JObj (project_event ty p)"
  have "k \<in> set board_boolean_markers \<longrightarrow> (\<exists>b. v = JBool b)"
    if kv: "(k, v) \<in> set (json_members ?p)" for k v
  proof -
    have split: "(k, v) \<in> set (json_members (JObj xs)) \<longleftrightarrow>
      (k, v) \<in> set xs \<or> (\<exists>kv \<in> set xs. (k, v) \<in> set (json_members (snd kv)))" for xs
      by (auto simp: image_iff)
    consider "(k, v) \<in> set (json_members (JObj p))" | "(k, v) = (''refetch_required'', JBool True)"
      | "(k, v) = (''result'', redacted_result)" | "(k, v) = (''result_redacted'', JBool True)"
      using kv set_project_event [of ty p] unfolding split by fastforce
    then show ?thesis using assms(3) by cases (auto simp: board_boolean_markers_def)
  qed
  then obtain q where q: "sanitize secret True ?p = Inr q"
    using sanitize_total(1) [of ?p secret True] by blast
  show ?thesis
    using sanitized_walk [OF q assms(4)] q assms(1,2) by (auto simp: safe_websocket_event_def)
qed

section \<open>Concrete instances\<close>

definition demo_event :: "(string \<times> json) list" where
  "demo_event = [(''type'', JStr ''tool.completed''),
    (''payload'', JObj [(''id'', JStr ''t1''), (''result'', JStr ''x''), (''apiToken'', JStr ''y''),
      (''result_redacted'', JBool True)])]"

definition demo_event_out :: json where
  "demo_event_out = JObj [(''type'', JStr ''tool.completed''),
    (''payload'', JObj [(''id'', JStr ''t1''), (''result'', redacted_result), (''result_redacted'', JBool True)])]"

lemma demo_event_run: "safe_websocket_event (\<lambda>s. False) demo_event = Inr demo_event_out"
  by code_simp

lemma websocket_event_is_sanitized_witness:
  "\<exists>payload. demo_event_out = JObj [(''type'', JStr ''tool.completed''), (''payload'', payload)] \<and>
    (\<forall>s \<in> set (json_texts payload). \<not> False)"
  using websocket_event_is_sanitized [OF demo_event_run] by (simp add: demo_event_out_def)

lemma websocket_event_is_delivered_witness:
  "\<exists>payload. safe_websocket_event (\<lambda>s. False) demo_event =
    Inr (JObj [(''type'', JStr ''tool.completed''), (''payload'', payload)])"
  using websocket_event_is_delivered [OF demo_event_def, of "\<lambda>s. False"]
  by (auto simp: board_boolean_markers_def)

lemma shared_payload_admitted_iff_witness:
  "assert_safe_shared_payload (\<lambda>s. False) (JObj [(''task_id'', JStr ''t1''), (''result_redacted'', JBool True)]) = Inr () \<and>
    assert_safe_shared_payload (\<lambda>s. False) (JObj [(''meta'', JObj [(''accessToken'', JStr ''x'')])]) \<noteq> Inr ()"
proof -
  have "\<not> forbidden_key ''task_id'' True True" "is_board_marker ''result_redacted''"
    "forbidden_key ''accessToken'' True True" "\<not> is_board_marker ''accessToken''" "\<not> is_board_marker ''task_id''"
    by code_simp+
  then show ?thesis unfolding shared_payload_admitted_iff by auto
qed

end
