(* ===== verification/Message_Board.thy ===== *)
theory Message_Board
  imports Audit_Log Event_Privacy
begin

text \<open>
  \<open>server/app/services/message_board.py\<close>: the durable event envelope, the digests that bind a
  dedupe key to it, and the SQLite board. The Redis Streams adapter is not modelled: it is one
  more provider of the board interface the outbox is proved against.
\<close>

text \<open>
  What the code takes from outside: SHA-256, the credential scan of \<open>event_privacy\<close> and
  \<open>datetime.fromisoformat\<close> (\<open>None\<close> where it raises, else whether the value carries a zone).
\<close>

record board_env =
  env_sha256 :: "string \<Rightarrow> string"
  env_secret_text :: "string \<Rightarrow> bool"
  env_fromisoformat :: "string \<Rightarrow> bool option"

section \<open>Durable events\<close>

definition event_schema_version :: string where
  "event_schema_version = ''1.0''"

definition max_event_bytes :: nat where
  "max_event_bytes = 1000000"

definition canonical_json :: "json \<Rightarrow> py_error + string" where
  "canonical_json value =
    (let encoded = json_dumps value in
     if length encoded > max_event_bytes
     then Inl (ValueError ''message board payload is too large'')
     else Inr encoded)"

text \<open>A text or None as JSON.\<close>

definition json_opt :: "string option \<Rightarrow> json" where
  "json_opt x = (case x of None \<Rightarrow> JNull | Some s \<Rightarrow> JStr s)"

record durable_event =
  de_schema_version :: string
  de_event_id :: string
  de_dedupe_key :: string
  de_topic :: string
  de_event_type :: string
  de_aggregate_type :: string
  de_aggregate_id :: string
  de_payload :: json
  de_created_at :: string
  de_task_id :: "string option"
  de_agent_id :: "string option"

definition durable_envelope :: "durable_event \<Rightarrow> json" where
  "durable_envelope e = JObj
    [(''schema_version'', JStr (de_schema_version e)), (''event_id'', JStr (de_event_id e)),
     (''created_at'', JStr (de_created_at e)), (''topic'', JStr (de_topic e)),
     (''event_type'', JStr (de_event_type e)), (''aggregate_type'', JStr (de_aggregate_type e)),
     (''aggregate_id'', JStr (de_aggregate_id e)), (''task_id'', json_opt (de_task_id e)),
     (''agent_id'', json_opt (de_agent_id e)), (''payload'', de_payload e)]"

definition domain_envelope :: "durable_event \<Rightarrow> json" where
  "domain_envelope e = JObj
    [(''schema_version'', JStr (de_schema_version e)), (''topic'', JStr (de_topic e)),
     (''event_type'', JStr (de_event_type e)), (''aggregate_type'', JStr (de_aggregate_type e)),
     (''aggregate_id'', JStr (de_aggregate_id e)), (''task_id'', json_opt (de_task_id e)),
     (''agent_id'', json_opt (de_agent_id e)), (''payload'', de_payload e)]"

definition durable_event_binding_digest :: "board_env \<Rightarrow> durable_event \<Rightarrow> py_error + string" where
  "durable_event_binding_digest env e =
    and_then (canonical_json (durable_envelope e)) (\<lambda>encoded. Inr (''sha256:'' @ env_sha256 env encoded))"

definition domain_event_binding_digest :: "board_env \<Rightarrow> durable_event \<Rightarrow> py_error + string" where
  "domain_event_binding_digest env e =
    and_then (canonical_json (domain_envelope e)) (\<lambda>encoded. Inr (''sha256:'' @ env_sha256 env encoded))"

definition required_ok :: "string \<Rightarrow> string \<Rightarrow> py_error + unit" where
  "required_ok label value =
    require (value \<noteq> [] \<and> py_len value \<le> 300)
      (ValueError (''durable event '' @ label @ '' is invalid''))"

text \<open>
  \<open>DurableEvent(...)\<close>: \<open>__post_init__\<close> validates the envelope and replaces the payload by its
  canonical form.
\<close>

definition new_durable_event :: "board_env \<Rightarrow> durable_event \<Rightarrow> py_error + durable_event" where
  "new_durable_event env e =
    and_then (require (de_schema_version e = event_schema_version)
      (ValueError ''unsupported durable event schema version'')) (\<lambda>_.
    and_then (required_ok ''event_id'' (de_event_id e)) (\<lambda>_.
    and_then (required_ok ''dedupe_key'' (de_dedupe_key e)) (\<lambda>_.
    and_then (required_ok ''topic'' (de_topic e)) (\<lambda>_.
    and_then (required_ok ''event_type'' (de_event_type e)) (\<lambda>_.
    and_then (required_ok ''aggregate_type'' (de_aggregate_type e)) (\<lambda>_.
    and_then (required_ok ''aggregate_id'' (de_aggregate_id e)) (\<lambda>_.
    and_then (case de_payload e of
        JObj _ \<Rightarrow> Inr () | _ \<Rightarrow> Inl (TypeError ''durable event payload must be an object'')) (\<lambda>_.
    and_then (assert_safe_shared_payload (env_secret_text env) (de_payload e)) (\<lambda>_.
    and_then (canonical_json (de_payload e)) (\<lambda>encoded_payload.
    and_then (case env_fromisoformat env (de_created_at e) of
        None \<Rightarrow> Inl (ValueError ''durable event timestamp is invalid'')
      | Some aware \<Rightarrow> require aware (ValueError ''durable event timestamp must be timezone-aware'')) (\<lambda>_.
      (case json_loads encoded_payload of
         Some (JObj canonical_payload) \<Rightarrow> Inr (e\<lparr>de_payload := JObj canonical_payload\<rparr>)
       | _ \<Rightarrow> Inl (TypeError ''durable event payload must be an object'')))))))))))))"

section \<open>The SQLite board\<close>

record board_row =
  mb_id :: int
  mb_schema_version :: string
  mb_event_id :: string
  mb_topic :: string
  mb_event_type :: string
  mb_message_id :: string
  mb_aggregate_type :: string
  mb_aggregate_id :: string
  mb_agent_id :: "string option"
  mb_task_id :: "string option"
  mb_payload_json :: string
  mb_created_at :: string
  mb_dedupe_key :: "string option"

record board_db = audit_db +
  message_board_events :: "board_row sql_table"

text \<open>The acknowledgement of a publication, whatever the adapter.\<close>

record board_ack =
  ack_backend_id :: string
  ack_event_id :: string
  ack_dedupe_key :: string
  ack_duplicate :: bool
  ack_created_at :: string

definition board_event_types :: "string list" where
  "board_event_types = [''published'', ''claimed'', ''acked'', ''failed'', ''heartbeat'', ''cancelled'',
    ''lease_expired'', ''dead_lettered'', ''capability_requested'', ''capability_authorized'',
    ''capability_consumed'', ''capability_result'']"

definition row_of_event :: "int \<Rightarrow> durable_event \<Rightarrow> string \<Rightarrow> board_row" where
  "row_of_event i e encoded =
    \<lparr>mb_id = i, mb_schema_version = de_schema_version e, mb_event_id = de_event_id e,
     mb_topic = de_topic e, mb_event_type = de_event_type e, mb_message_id = de_aggregate_id e,
     mb_aggregate_type = de_aggregate_type e, mb_aggregate_id = de_aggregate_id e,
     mb_agent_id = de_agent_id e, mb_task_id = de_task_id e, mb_payload_json = encoded,
     mb_created_at = de_created_at e, mb_dedupe_key = Some (de_dedupe_key e)\<rparr>"

definition stored_event :: "board_row \<Rightarrow> json \<Rightarrow> durable_event" where
  "stored_event r payload =
    \<lparr>de_schema_version = mb_schema_version r, de_event_id = mb_event_id r,
     de_dedupe_key = (case mb_dedupe_key r of None \<Rightarrow> [] | Some k \<Rightarrow> k),
     de_topic = mb_topic r, de_event_type = mb_event_type r,
     de_aggregate_type = mb_aggregate_type r, de_aggregate_id = mb_aggregate_id r,
     de_payload = payload, de_created_at = mb_created_at r, de_task_id = mb_task_id r,
     de_agent_id = mb_agent_id r\<rparr>"

text \<open>
  \<open>INSERT ... ON CONFLICT(dedupe_key) DO NOTHING\<close>: a row with the key makes it do nothing; a row
  with the (also unique) event identifier makes it fail.
\<close>

definition publish_event :: "board_env \<Rightarrow> durable_event \<Rightarrow> 'z board_db_scheme
    \<Rightarrow> (py_error + board_ack) \<times> 'z board_db_scheme" where
  "publish_event env event = transaction (\<lambda>db.
    and_then (assert_safe_shared_payload (env_secret_text env) (de_payload event)) (\<lambda>_.
    and_then (canonical_json (de_payload event)) (\<lambda>encoded.
      case row_by mb_dedupe_key (Some (de_dedupe_key event)) (message_board_events db) of
        Some row \<Rightarrow>
          (case json_loads (mb_payload_json row) of
             Some (JObj stored_payload) \<Rightarrow>
               and_then (durable_event_binding_digest env (stored_event row (JObj stored_payload)))
                 (\<lambda>stored_digest.
               and_then (durable_event_binding_digest env event) (\<lambda>digest.
                 if stored_digest \<noteq> digest
                 then Inl (MessageBoardDedupeConflict
                   ''message board dedupe key is bound to a different event'')
                 else Inr (\<lparr>ack_backend_id = show_int (mb_id row), ack_event_id = mb_event_id row,
                   ack_dedupe_key = de_dedupe_key event, ack_duplicate = True,
                   ack_created_at = mb_created_at row\<rparr>, db)))
           | _ \<Rightarrow> Inl (MessageBoardDedupeConflict ''stored dedupe binding is invalid''))
      | None \<Rightarrow>
          (case row_by mb_event_id (de_event_id event) (message_board_events db) of
             Some row \<Rightarrow> Inl (IntegrityError ''UNIQUE constraint failed: message_board_events.event_id'')
           | None \<Rightarrow>
               let backend_id = next_rowid mb_id (message_board_events db) in
               Inr (\<lparr>ack_backend_id = show_int backend_id, ack_event_id = de_event_id event,
                   ack_dedupe_key = de_dedupe_key event, ack_duplicate = False,
                   ack_created_at = de_created_at event\<rparr>,
                 db\<lparr>message_board_events := message_board_events db @
                   [row_of_event backend_id event encoded]\<rparr>)))))"

definition record_board_event :: "board_env \<Rightarrow> nat \<Rightarrow> string \<Rightarrow> string \<Rightarrow> string \<Rightarrow> string \<Rightarrow> string
    \<Rightarrow> string option \<Rightarrow> string option \<Rightarrow> json \<Rightarrow> string option \<Rightarrow> 'z board_db_scheme
    \<Rightarrow> (py_error + board_ack) \<times> 'z board_db_scheme" where
  "record_board_event env clk fresh1 fresh2 event_type message_id topic task_id agent_id payload dedupe_key db =
    (if event_type \<notin> set board_event_types
     then (Inl (ValueError ''unsupported message board event''), db)
     else if topic = [] \<or> py_len topic > 200 \<or> message_id = [] \<or> py_len message_id > 200
     then (Inl (ValueError ''invalid message board identifier''), db)
     else (case new_durable_event env
         \<lparr>de_schema_version = event_schema_version, de_event_id = ''evt_'' @ fresh1,
          de_dedupe_key = (if or_empty dedupe_key = [] then ''legacy:'' @ fresh2 else or_empty dedupe_key),
          de_topic = topic, de_event_type = event_type, de_aggregate_type = ''message'',
          de_aggregate_id = message_id, de_payload = payload, de_created_at = isoformat clk,
          de_task_id = task_id, de_agent_id = agent_id\<rparr> of
         Inl e \<Rightarrow> (Inl e, db)
       | Inr durable \<Rightarrow> publish_event env durable db))"

definition list_events :: "string option \<Rightarrow> int \<Rightarrow> int \<Rightarrow> 'z board_db_scheme
    \<Rightarrow> (board_row \<times> json option) list" where
  "list_events topic after_id limit db =
    map (\<lambda>r. (r, json_loads (mb_payload_json r)))
      (take (bounded_limit 500 limit) (sort_key mb_id (sql_select
        (\<lambda>r. after_id < mb_id r \<and> (case topic of None \<Rightarrow> True | Some t \<Rightarrow> mb_topic r = t))
        (message_board_events db))))"

section \<open>Events and their digests\<close>

text \<open>What construction guarantees of an event: its payload is a canonical object.\<close>

definition canonical_object :: "json \<Rightarrow> bool" where
  "canonical_object v \<longleftrightarrow> json_dict v \<and> json_sort v = v \<and> (case v of JObj kvs \<Rightarrow> True | _ \<Rightarrow> False)"

lemma canonical_object_sort: "json_dict (JObj kvs) \<Longrightarrow> canonical_object (json_sort (JObj kvs))"
  unfolding canonical_object_def by (intro conjI json_dict_sort json_sort_idem) simp_all

lemma canonical_json_Inr:
  "canonical_json v = Inr s \<longleftrightarrow> s = json_dumps v \<and> length (json_dumps v) \<le> max_event_bytes"
  by (auto simp: canonical_json_def Let_def)

lemma new_durable_event_Inr:
  assumes "new_durable_event env e = Inr e'" and "json_dict (de_payload e)"
  shows "e' = e\<lparr>de_payload := json_sort (de_payload e)\<rparr>" "canonical_object (de_payload e')"
    "assert_safe_shared_payload (env_secret_text env) (de_payload e) = Inr ()"
    "length (json_dumps (de_payload e)) \<le> max_event_bytes"
    "de_event_id e \<noteq> []" "de_dedupe_key e \<noteq> []"
proof -
  obtain kvs where kvs: "de_payload e = JObj kvs"
    and enc: "canonical_json (de_payload e) = Inr (json_dumps (de_payload e))"
    and safe: "assert_safe_shared_payload (env_secret_text env) (de_payload e) = Inr ()"
    and ids: "de_event_id e \<noteq> []" "de_dedupe_key e \<noteq> []"
    and e': "(case json_loads (json_dumps (de_payload e)) of
       Some (JObj c) \<Rightarrow> Inr (e\<lparr>de_payload := JObj c\<rparr>)
       | _ \<Rightarrow> Inl (TypeError ''durable event payload must be an object'')) = Inr e'"
    using assms(1)
    by (auto simp: new_durable_event_def canonical_json_Inr required_ok_def require_Inr_iff
        simp del: json_dumps.simps split: json.split_asm if_split_asm)
  show "e' = e\<lparr>de_payload := json_sort (de_payload e)\<rparr>"
    using e' kvs json_loads_dumps [OF assms(2)] by auto
  then show "canonical_object (de_payload e')"
    using kvs assms(2) canonical_object_sort [of kvs] by simp
  show "length (json_dumps (de_payload e)) \<le> max_event_bytes"
    using enc by (simp add: canonical_json_Inr)
  show "assert_safe_shared_payload (env_secret_text env) (de_payload e) = Inr ()"
    "de_event_id e \<noteq> []" "de_dedupe_key e \<noteq> []" using safe ids by simp_all
qed

text \<open>The envelope without its payload's representation: all a digest binds.\<close>

definition same_envelope :: "durable_event \<Rightarrow> durable_event \<Rightarrow> bool" where
  "same_envelope e e' \<longleftrightarrow> e\<lparr>de_dedupe_key := []\<rparr> = e'\<lparr>de_dedupe_key := []\<rparr>"

definition same_domain :: "durable_event \<Rightarrow> durable_event \<Rightarrow> bool" where
  "same_domain e e' \<longleftrightarrow>
    e\<lparr>de_dedupe_key := [], de_event_id := [], de_created_at := []\<rparr> =
    e'\<lparr>de_dedupe_key := [], de_event_id := [], de_created_at := []\<rparr>"

lemma same_envelope_fields:
  assumes "same_envelope e e'"
  shows "de_schema_version e = de_schema_version e'" "de_event_id e = de_event_id e'"
    "de_topic e = de_topic e'" "de_event_type e = de_event_type e'"
    "de_aggregate_type e = de_aggregate_type e'" "de_aggregate_id e = de_aggregate_id e'"
    "de_task_id e = de_task_id e'" "de_agent_id e = de_agent_id e'"
    "de_created_at e = de_created_at e'" "de_payload e = de_payload e'"
  using assms by (cases e; cases e'; simp add: same_envelope_def)+

lemma json_opt_simps [simp]: "json_dict (json_opt x)" "json_sort (json_opt x) = json_opt x"
  by (cases x; simp add: json_opt_def)+

lemma json_opt_inj [simp]: "json_opt x = json_opt y \<longleftrightarrow> x = y"
  by (cases x; cases y) (simp_all add: json_opt_def)

lemma dumps_inj: "json_dict v \<Longrightarrow> json_dict w \<Longrightarrow> json_dumps v = json_dumps w \<Longrightarrow> json_sort v = json_sort w"
  by (metis json_loads_dumps option.inject)

lemma canonical_payload: "canonical_object v \<Longrightarrow> json_dict v" "canonical_object v \<Longrightarrow> json_sort v = v"
  by (simp_all add: canonical_object_def)

lemma domain_envelope_inj:
  assumes "canonical_object (de_payload e)" "canonical_object (de_payload e')"
    and "json_dumps (domain_envelope e) = json_dumps (domain_envelope e')"
  shows "same_domain e e'"
proof -
  have d: "json_dict (domain_envelope x)" if "canonical_object (de_payload x)" for x
    using canonical_payload [OF that] by (simp add: domain_envelope_def)
  have eq: "json_sort (domain_envelope e) = json_sort (domain_envelope e')"
    by (rule dumps_inj [OF d d assms(3)]) (fact assms)+
  note m = json_sort_obj_eq [OF eq [unfolded domain_envelope_def]]
  show ?thesis
    using m [of "''schema_version''"] m [of "''topic''"] m [of "''event_type''"]
      m [of "''aggregate_type''"] m [of "''aggregate_id''"] m [of "''task_id''"]
      m [of "''agent_id''"] m [of "''payload''"]
      canonical_payload [OF assms(1)] canonical_payload [OF assms(2)]
    by (simp add: same_domain_def)
qed

lemma durable_envelope_inj:
  assumes "canonical_object (de_payload e)" "canonical_object (de_payload e')"
    and "json_dumps (durable_envelope e) = json_dumps (durable_envelope e')"
  shows "same_envelope e e'"
proof -
  have d: "json_dict (durable_envelope x)" if "canonical_object (de_payload x)" for x
    using canonical_payload [OF that] by (simp add: durable_envelope_def)
  have eq: "json_sort (durable_envelope e) = json_sort (durable_envelope e')"
    by (rule dumps_inj [OF d d assms(3)]) (fact assms)+
  note m = json_sort_obj_eq [OF eq [unfolded durable_envelope_def]]
  show ?thesis
    using m [of "''schema_version''"] m [of "''topic''"] m [of "''event_type''"]
      m [of "''aggregate_type''"] m [of "''aggregate_id''"] m [of "''task_id''"]
      m [of "''agent_id''"] m [of "''payload''"] m [of "''event_id''"] m [of "''created_at''"]
      canonical_payload [OF assms(1)] canonical_payload [OF assms(2)]
    by (simp add: same_envelope_def)
qed

section \<open>The board over time\<close>

definition board_wf :: "'z board_db_scheme \<Rightarrow> bool" where
  "board_wf db \<longleftrightarrow>
    sorted (map mb_id (message_board_events db)) \<and> distinct (map mb_id (message_board_events db)) \<and>
    distinct (map mb_event_id (message_board_events db)) \<and>
    distinct (map mb_dedupe_key (filter (\<lambda>r. mb_dedupe_key r \<noteq> None) (message_board_events db))) \<and>
    (\<forall>r \<in> set (message_board_events db). mb_dedupe_key r \<noteq> None \<longrightarrow>
       (\<exists>v. canonical_object v \<and> mb_payload_json r = json_dumps v))"

definition collision :: "(string \<Rightarrow> string) \<Rightarrow> bool" where
  "collision H \<longleftrightarrow> (\<exists>m m'. m \<noteq> m' \<and> H m = H m')"

text \<open>The row a dedupe key is bound to holds the event.\<close>

definition on_board :: "'z board_db_scheme \<Rightarrow> durable_event \<Rightarrow> bool" where
  "on_board db e \<longleftrightarrow>
    (\<exists>r v. row_by mb_dedupe_key (Some (de_dedupe_key e)) (message_board_events db) = Some r \<and>
       json_loads (mb_payload_json r) = Some v \<and> canonical_object v \<and> same_envelope (stored_event r v) e)"

lemma canonical_loads: "canonical_object v \<Longrightarrow> json_loads (json_dumps v) = Some v"
  by (simp add: json_loads_dumps canonical_object_def)

lemma canonical_object_cases: "canonical_object v \<Longrightarrow> \<exists>kvs. v = JObj kvs"
  by (cases v) (simp_all add: canonical_object_def)

lemma row_of_event_stored:
  "stored_event (row_of_event i e (json_dumps (de_payload e))) (de_payload e) = e"
  by (simp add: stored_event_def row_of_event_def)

lemma same_envelope_refl [simp]: "same_envelope e e"
  by (simp add: same_envelope_def)

lemma row_by_extend: "row_by key k t = Some r \<Longrightarrow> row_by key k (t @ u) = Some r"
  by (cases "sql_select (\<lambda>r. key r = k) t") auto

text \<open>The two ways a publication succeeds.\<close>

lemma publish_event_cases:
  assumes "publish_event env e db = (Inr ack, db')"
  obtains (duplicate) r kvs d where
      "row_by mb_dedupe_key (Some (de_dedupe_key e)) (message_board_events db) = Some r"
      "json_loads (mb_payload_json r) = Some (JObj kvs)"
      "durable_event_binding_digest env (stored_event r (JObj kvs)) = Inr d"
      "durable_event_binding_digest env e = Inr d"
      "ack = \<lparr>ack_backend_id = show_int (mb_id r), ack_event_id = mb_event_id r,
         ack_dedupe_key = de_dedupe_key e, ack_duplicate = True, ack_created_at = mb_created_at r\<rparr>"
      "db' = db"
  | (inserted) i where
      "row_by mb_dedupe_key (Some (de_dedupe_key e)) (message_board_events db) = None"
      "row_by mb_event_id (de_event_id e) (message_board_events db) = None"
      "i = next_rowid mb_id (message_board_events db)"
      "ack = \<lparr>ack_backend_id = show_int i, ack_event_id = de_event_id e,
         ack_dedupe_key = de_dedupe_key e, ack_duplicate = False, ack_created_at = de_created_at e\<rparr>"
      "db' = db\<lparr>message_board_events := message_board_events db @
         [row_of_event i e (json_dumps (de_payload e))]\<rparr>"
proof (cases "row_by mb_dedupe_key (Some (de_dedupe_key e)) (message_board_events db)")
  case None
  then show ?thesis using assms inserted
    by (auto simp: publish_event_def transaction_Inr_iff canonical_json_Inr Let_def
        split: option.split_asm)
next
  case (Some r)
  then show ?thesis using assms duplicate
    by (auto simp: publish_event_def transaction_Inr_iff canonical_json_Inr
        split: option.split_asm json.split_asm if_split_asm)
qed

lemma publish_event_Inl: "publish_event env e db = (Inl x, db') \<Longrightarrow> db' = db"
  unfolding publish_event_def by (simp only: transaction_Inl_iff)

lemma publish_event_wf:
  assumes "board_wf db" and "canonical_object (de_payload e)"
  shows "board_wf (snd (publish_event env e db))"
proof -
  obtain r db' where run: "publish_event env e db = (r, db')" by fastforce
  have "board_wf db'"
  proof (cases r)
    case (Inl x)
    then show ?thesis using run assms publish_event_Inl by blast
  next
    case (Inr ack)
    from run [unfolded Inr] show ?thesis
    proof (cases rule: publish_event_cases)
      case duplicate
      then show ?thesis using assms by simp
    next
      case (inserted i)
      then show ?thesis
        using assms next_rowid_fresh [of _ "message_board_events db" mb_id]
        by (fastforce simp: board_wf_def sorted_append row_of_event_def row_by_None_iff
            image_iff simp del: sql_select_append)
    qed
  qed
  with run show ?thesis by simp
qed

lemma digest_binds:
  assumes "canonical_object (de_payload e)" "canonical_object (de_payload e')"
    and "durable_event_binding_digest env e = Inr d" "durable_event_binding_digest env e' = Inr d"
  shows "same_envelope e e' \<or> collision (env_sha256 env)"
proof -
  have "env_sha256 env (json_dumps (durable_envelope e)) = env_sha256 env (json_dumps (durable_envelope e'))"
    using assms(3,4) by (auto simp: durable_event_binding_digest_def canonical_json_Inr)
  then show ?thesis
    using durable_envelope_inj [OF assms(1,2)] unfolding collision_def by blast
qed

lemma stored_payload_canonical:
  assumes "board_wf db" "row_by mb_dedupe_key (Some k) (message_board_events db) = Some r"
    and "json_loads (mb_payload_json r) = Some v"
  shows "canonical_object v"
proof -
  have "r \<in> set (message_board_events db)" "mb_dedupe_key r \<noteq> None"
    using assms(2) by (auto dest: row_by_SomeD)
  then obtain w where "canonical_object w" "mb_payload_json r = json_dumps w"
    using assms(1) by (auto simp: board_wf_def)
  with assms(3) show ?thesis by (simp add: canonical_loads)
qed

text \<open>Runs of the board: publications of constructed events, and whatever leaves its table alone.\<close>

inductive board_step :: "'z board_db_scheme \<Rightarrow> 'z board_db_scheme \<Rightarrow> bool" where
  publish: "canonical_object (de_payload e) \<Longrightarrow> board_step db (snd (publish_event env e db))"
| other: "message_board_events db' = message_board_events db \<Longrightarrow> board_step db db'"

lemma publish_event_grows:
  "\<exists>u. message_board_events (snd (publish_event env e db)) = message_board_events db @ u"
proof -
  obtain r db' where run: "publish_event env e db = (r, db')" by fastforce
  show ?thesis
  proof (cases r)
    case (Inl x)
    then show ?thesis using run publish_event_Inl by fastforce
  next
    case (Inr ack)
    from run [unfolded Inr] show ?thesis
      by (cases rule: publish_event_cases) (use run in auto)
  qed
qed

lemma board_step_facts:
  "board_step s t \<Longrightarrow> (board_wf s \<longrightarrow> board_wf t) \<and>
    (\<exists>u. message_board_events t = message_board_events s @ u)"
proof (induction rule: board_step.induct)
  case (publish e db env)
  then show ?case using publish_event_wf publish_event_grows by blast
next
  case (other db' db)
  then show ?case by (simp add: board_wf_def)
qed

lemma board_steps_wf: "board_step\<^sup>*\<^sup>* s t \<Longrightarrow> board_wf s \<Longrightarrow> board_wf t"
  by (induction rule: rtranclp_induct) (auto dest: board_step_facts)

lemma board_steps_row:
  "board_step\<^sup>*\<^sup>* s t \<Longrightarrow> row_by key k (message_board_events s) = Some r \<Longrightarrow>
    row_by key k (message_board_events t) = Some r"
proof (induction rule: rtranclp_induct)
  case (step t u)
  obtain w where w: "message_board_events u = message_board_events t @ w"
    using board_step_facts [OF step.hyps(2)] by blast
  show ?case using row_by_extend [OF step.IH [OF step.prems]] w by simp
qed simp

lemma board_steps_on_board: "board_step\<^sup>*\<^sup>* s t \<Longrightarrow> on_board s e \<Longrightarrow> on_board t e"
  unfolding on_board_def by (elim exE conjE, drule (1) board_steps_row) blast

lemma acknowledged_event_on_board:
  assumes "board_wf db" and "canonical_object (de_payload e)"
    and "publish_event env e db = (Inr ack, db')"
  shows "(on_board db' e \<and> ack_event_id ack = de_event_id e \<and> ack_created_at ack = de_created_at e \<and>
      (\<exists>r \<in> set (message_board_events db'). mb_event_id r = de_event_id e \<and>
         ack_backend_id ack = show_int (mb_id r)) \<and>
      (ack_duplicate ack = on_board db e) \<and> (on_board db e \<longrightarrow> db' = db)) \<or>
    collision (env_sha256 env)"
  using assms(3)
proof (cases rule: publish_event_cases)
  case (duplicate r kvs d)
  have c: "canonical_object (JObj kvs)" using stored_payload_canonical [OF assms(1) duplicate(1,2)] .
  have "same_envelope (stored_event r (JObj kvs)) e \<or> collision (env_sha256 env)"
    by (rule digest_binds [OF _ assms(2) duplicate(3,4)]) (simp add: stored_event_def c)
  moreover have "on_board db e \<and> mb_event_id r = de_event_id e \<and> mb_created_at r = de_created_at e"
    if "same_envelope (stored_event r (JObj kvs)) e"
    using that duplicate(1,2) c
      same_envelope_fields(2,9) [OF that] by (auto simp: on_board_def stored_event_def)
  moreover have "r \<in> set (message_board_events db)" using duplicate(1) by (blast dest: row_by_SomeD)
  ultimately show ?thesis using duplicate(5,6) by auto
next
  case (inserted i)
  let ?r = "row_of_event i e (json_dumps (de_payload e))"
  have "\<not> on_board db e" using inserted(1) by (simp add: on_board_def)
  moreover have "row_by mb_dedupe_key (Some (de_dedupe_key e)) (message_board_events db') = Some ?r"
    using inserted(1,5) by (simp add: row_by_append row_of_event_def del: sql_select_append)
  then have "on_board db' e"
    using assms(2) canonical_loads [OF assms(2)] row_of_event_stored [of i e]
    unfolding on_board_def by (fastforce simp: row_of_event_def)
  ultimately show ?thesis using inserted(4,5) by (auto simp: row_of_event_def)
qed

text \<open>
  A publication the board acknowledges is on the board: the row its dedupe key is bound to
  holds exactly this envelope, and the acknowledgement names that row. It is called a duplicate
  exactly when the row was there before, and then nothing is written. The alternative is a
  collision of SHA-256.
\<close>

theorem acknowledged_event_is_on_board:
  assumes "board_wf db" and "canonical_object (de_payload e)"
    and "publish_event env e db = (Inr ack, db')"
  shows "(on_board db' e \<and> ack_event_id ack = de_event_id e \<and> ack_created_at ack = de_created_at e \<and>
      (\<exists>r \<in> set (message_board_events db'). mb_event_id r = de_event_id e \<and>
         ack_backend_id ack = show_int (mb_id r)) \<and>
      (ack_duplicate ack = on_board db e) \<and> (on_board db e \<longrightarrow> db' = db)) \<or>
    collision (env_sha256 env)"
  by (rule acknowledged_event_on_board [OF assms])

lemma acknowledged_row:
  assumes "publish_event env e db = (Inr ack, db')"
  shows "\<exists>r. row_by mb_dedupe_key (Some (de_dedupe_key e)) (message_board_events db') = Some r \<and>
    ack_backend_id ack = show_int (mb_id r)"
  using assms
proof (cases rule: publish_event_cases)
  case (inserted i)
  then show ?thesis by (simp add: row_by_append row_of_event_def del: sql_select_append)
qed auto

lemma on_board_same_envelope:
  assumes "on_board db e" "on_board db e'" "de_dedupe_key e = de_dedupe_key e'"
  shows "same_envelope e e'"
proof -
  obtain r v where r: "row_by mb_dedupe_key (Some (de_dedupe_key e)) (message_board_events db) = Some r"
    "json_loads (mb_payload_json r) = Some v" "same_envelope (stored_event r v) e"
    using assms(1) unfolding on_board_def by blast
  moreover have "same_envelope (stored_event r v) e'"
    using assms(2,3) r(1,2) unfolding on_board_def by auto
  ultimately show ?thesis by (simp add: same_envelope_def)
qed

text \<open>
  A dedupe key is bound to one envelope for ever: two publications under one key can both
  be acknowledged, however far apart, only with the same envelope, and then the second is a
  duplicate of the first, with the same backend identifier, and writes nothing.
\<close>

theorem dedupe_key_binds_one_envelope:
  assumes "board_wf s0" and "publish_event env e1 s0 = (Inr a1, s1)" and "canonical_object (de_payload e1)"
    and "board_step\<^sup>*\<^sup>* s1 s2"
    and "publish_event env e2 s2 = (Inr a2, s3)" and "canonical_object (de_payload e2)"
    and "de_dedupe_key e1 = de_dedupe_key e2"
  shows "(same_envelope e1 e2 \<and> ack_duplicate a2 \<and> ack_backend_id a1 = ack_backend_id a2 \<and> s3 = s2) \<or>
    collision (env_sha256 env)"
proof (cases "collision (env_sha256 env)")
  case False
  have wf1: "board_wf s1" using publish_event_wf [OF assms(1,3), of env] assms(2) by simp
  have wf2: "board_wf s2" by (rule board_steps_wf [OF assms(4) wf1])
  have on2: "on_board s2 e1"
    using acknowledged_event_on_board [OF assms(1,3,2)] False board_steps_on_board [OF assms(4)] by blast
  obtain r where r: "row_by mb_dedupe_key (Some (de_dedupe_key e1)) (message_board_events s1) = Some r"
    "ack_backend_id a1 = show_int (mb_id r)" using acknowledged_row [OF assms(2)] by blast
  have "\<exists>r. row_by mb_dedupe_key (Some (de_dedupe_key e2)) (message_board_events s2) = Some r"
    using board_steps_row [OF assms(4) r(1)] assms(7) by simp
  with assms(5) have s3: "s3 = s2" and dup: "ack_duplicate a2"
    by (auto elim!: publish_event_cases)
  have "on_board s2 e2"
    using acknowledged_event_on_board [OF wf2 assms(6,5)] False s3 by blast
  then have "same_envelope e1 e2" using on_board_same_envelope on2 assms(7) by blast
  moreover have "ack_backend_id a1 = ack_backend_id a2"
    using acknowledged_row [OF assms(5)] board_steps_row [OF assms(4) r(1)] r(2) s3 assms(7) by auto
  ultimately show ?thesis using s3 dup by blast
qed simp

lemma same_envelope_durable: "same_envelope e e' \<Longrightarrow> durable_envelope e = durable_envelope e'"
  using same_envelope_fields [of e e'] by (simp add: durable_envelope_def)

lemma on_board_republish:
  assumes "on_board db e" and "assert_safe_shared_payload (env_secret_text env) (de_payload e) = Inr ()"
    and "length (json_dumps (de_payload e)) \<le> max_event_bytes"
  shows "if length (json_dumps (durable_envelope e)) \<le> max_event_bytes
    then \<exists>ack. publish_event env e db = (Inr ack, db) \<and> ack_duplicate ack \<and> ack_event_id ack = de_event_id e
    else publish_event env e db = (Inl (ValueError ''message board payload is too large''), db)"
proof -
  obtain r v where r: "row_by mb_dedupe_key (Some (de_dedupe_key e)) (message_board_events db) = Some r"
    "json_loads (mb_payload_json r) = Some v" "same_envelope (stored_event r v) e" "canonical_object v"
    using assms(1) unfolding on_board_def by blast
  obtain kvs where v: "v = JObj kvs" using canonical_object_cases [OF r(4)] by blast
  have env: "durable_envelope (stored_event r v) = durable_envelope e"
    by (rule same_envelope_durable [OF r(3)])
  have id: "mb_event_id r = de_event_id e"
    using same_envelope_fields(2) [OF r(3)] by (simp add: stored_event_def)
  have c: "canonical_json (de_payload e) = Inr (json_dumps (de_payload e))"
    using assms(3) by (simp add: canonical_json_Inr)
  show ?thesis
  proof (cases "length (json_dumps (durable_envelope e)) \<le> max_event_bytes")
    case True
    then have "durable_event_binding_digest env x =
        Inr (''sha256:'' @ env_sha256 env (json_dumps (durable_envelope e)))"
      if "durable_envelope x = durable_envelope e" for x
      using that by (simp add: durable_event_binding_digest_def canonical_json_def)
    with True show ?thesis
      using r(1,2) v env assms(2) c id by (simp add: publish_event_def transaction_def)
  next
    case False
    then have "durable_event_binding_digest env x = Inl (ValueError ''message board payload is too large'')"
      if "durable_envelope x = durable_envelope e" for x
      using that by (simp add: durable_event_binding_digest_def canonical_json_def)
    with False show ?thesis
      using r(1,2) v env assms(2) c by (simp add: publish_event_def transaction_def)
  qed
qed

text \<open>
  Republication is idempotent: an event on the board whose envelope is within the size
  limit can be published again at any later time; the answer is a duplicate with its event
  identifier and the board does not change. This is what a publisher retrying after a crash
  relies on.
\<close>

theorem republication_is_duplicate:
  assumes "board_step\<^sup>*\<^sup>* s t" and "on_board s e"
    and "assert_safe_shared_payload (env_secret_text env) (de_payload e) = Inr ()"
    and "length (json_dumps (de_payload e)) \<le> max_event_bytes"
    and "length (json_dumps (durable_envelope e)) \<le> max_event_bytes"
  shows "\<exists>ack. publish_event env e t = (Inr ack, t) \<and> ack_duplicate ack \<and> ack_event_id ack = de_event_id e"
  using on_board_republish [OF board_steps_on_board [OF assms(1,2)] assms(3,4)] assms(5) by simp

text \<open>
  C6. The limit is checked on the payload at the first publication but on the whole envelope
  when a publication is compared with the stored one. An event whose payload just fits is
  published once and can never be published again: every retry fails as too large.
\<close>

theorem event_at_size_limit_is_not_republished:
  assumes "board_step\<^sup>*\<^sup>* s t" and "on_board s e"
    and "assert_safe_shared_payload (env_secret_text env) (de_payload e) = Inr ()"
    and "length (json_dumps (de_payload e)) \<le> max_event_bytes"
    and "max_event_bytes < length (json_dumps (durable_envelope e))"
  shows "publish_event env e t = (Inl (ValueError ''message board payload is too large''), t)"
  using on_board_republish [OF board_steps_on_board [OF assms(1,2)] assms(3,4)] assms(5) by simp

section \<open>Concrete instances\<close>

definition demo_env :: board_env where
  "demo_env = \<lparr>env_sha256 = (\<lambda>m. m), env_secret_text = (\<lambda>s. False), env_fromisoformat = (\<lambda>s. Some True)\<rparr>"

definition demo_durable :: "string \<Rightarrow> durable_event" where
  "demo_durable s = \<lparr>de_schema_version = ''1.0'', de_event_id = ''evt_1'', de_dedupe_key = ''k1'',
    de_topic = ''tasks.created'', de_event_type = ''created'', de_aggregate_type = ''task'',
    de_aggregate_id = ''t1'', de_payload = JObj [(''k'', JStr s)], de_created_at = ''2026-01-01'',
    de_task_id = Some ''t1'', de_agent_id = None\<rparr>"

definition demo_board_db :: "board_row list \<Rightarrow> board_db" where
  "demo_board_db rows = \<lparr>control_plane_instances = [], maintenance_leases = [], audit_events = [],
    message_board_events = rows\<rparr>"

definition demo_row :: "string \<Rightarrow> board_row" where
  "demo_row s = row_of_event 1 (demo_durable s) (json_dumps (de_payload (demo_durable s)))"

lemma demo_no_collision: "\<not> collision (env_sha256 demo_env)"
  by (simp add: collision_def demo_env_def)

lemma demo_canonical: "canonical_object (de_payload (demo_durable s))"
  by (simp add: canonical_object_def demo_durable_def)

lemma demo_key_admitted: "\<not> forbidden_key ''k'' True True" "\<not> is_board_marker ''k''"
  by code_simp+

lemma demo_safe: "assert_safe_shared_payload (env_secret_text demo_env) (de_payload (demo_durable s)) = Inr ()"
  using demo_key_admitted by (simp add: assert_safe_shared_payload_def demo_durable_def demo_env_def)

lemma demo_board_wf: "board_wf (demo_board_db [])"
  by (simp add: board_wf_def demo_board_db_def)

lemma demo_publish:
  assumes "length (json_dumps (de_payload (demo_durable s))) \<le> max_event_bytes"
  shows "\<exists>a. publish_event demo_env (demo_durable s) (demo_board_db []) = (Inr a, demo_board_db [demo_row s])"
  using assms demo_safe [of s]
  by (simp add: publish_event_def transaction_def canonical_json_def demo_board_db_def table_simps
      next_rowid_def demo_row_def del: json_dumps.simps)

lemma demo_on_board: "on_board (demo_board_db [demo_row s]) (demo_durable s)"
  using row_of_event_stored [of 1 "demo_durable s"] canonical_loads [OF demo_canonical]
  by (auto simp: on_board_def demo_board_db_def table_simps demo_row_def demo_canonical
      simp del: json_dumps.simps) (auto simp: row_of_event_def demo_canonical)

lemma escape_plain: "concat (map escape_char (replicate n (CHR ''a''))) = replicate n (CHR ''a'')"
  by (induction n) (simp_all add: escape_char_def)

lemma demo_payload_length:
  "length (json_dumps (de_payload (demo_durable (replicate n (CHR ''a''))))) = n + 8"
  by (simp add: demo_durable_def dump_pairs_def json_quote_def escape_plain escape_char_def)

lemma demo_envelope_length:
  "n + 100 \<le> length (json_dumps (durable_envelope (demo_durable (replicate n (CHR ''a'')))))"
  by (simp add: demo_durable_def durable_envelope_def dump_pairs_def json_quote_def escape_plain
      escape_char_def json_opt_def)

lemma demo_envelope_short:
  "length (json_dumps (durable_envelope (demo_durable []))) \<le> max_event_bytes"
  by (simp add: demo_durable_def durable_envelope_def dump_pairs_def json_quote_def escape_char_def
      json_opt_def max_event_bytes_def)

lemma demo_payload_short: "length (json_dumps (de_payload (demo_durable []))) \<le> max_event_bytes"
  using demo_payload_length [of 0] by (simp add: max_event_bytes_def)

lemma acknowledged_event_is_on_board_witness:
  "\<exists>a db'. publish_event demo_env (demo_durable []) (demo_board_db []) = (Inr a, db') \<and>
    on_board db' (demo_durable []) \<and> \<not> ack_duplicate a"
proof -
  obtain a where run: "publish_event demo_env (demo_durable []) (demo_board_db []) = (Inr a, demo_board_db [demo_row []])"
    using demo_publish [OF demo_payload_short] by blast
  have "\<not> on_board (demo_board_db []) (demo_durable [])"
    by (simp add: on_board_def demo_board_db_def table_simps)
  with acknowledged_event_is_on_board [OF demo_board_wf demo_canonical run] run demo_no_collision
  show ?thesis by blast
qed

lemma republication_is_duplicate_witness:
  "\<exists>ack. publish_event demo_env (demo_durable []) (demo_board_db [demo_row []]) =
      (Inr ack, demo_board_db [demo_row []]) \<and> ack_duplicate ack"
  using republication_is_duplicate [OF rtranclp.rtrancl_refl demo_on_board demo_safe
      demo_payload_short demo_envelope_short] by blast

lemma dedupe_key_binds_one_envelope_witness:
  "\<exists>a1 a2. publish_event demo_env (demo_durable []) (demo_board_db []) = (Inr a1, demo_board_db [demo_row []]) \<and>
    publish_event demo_env (demo_durable []) (demo_board_db [demo_row []]) = (Inr a2, demo_board_db [demo_row []]) \<and>
    ack_backend_id a1 = ack_backend_id a2"
proof -
  obtain a1 where run1: "publish_event demo_env (demo_durable []) (demo_board_db []) = (Inr a1, demo_board_db [demo_row []])"
    using demo_publish [OF demo_payload_short] by blast
  obtain a2 where run2: "publish_event demo_env (demo_durable []) (demo_board_db [demo_row []]) = (Inr a2, demo_board_db [demo_row []])"
    using on_board_republish [OF demo_on_board demo_safe demo_payload_short] demo_envelope_short by auto
  from dedupe_key_binds_one_envelope [OF demo_board_wf run1 demo_canonical rtranclp.rtrancl_refl
      run2 demo_canonical] run1 run2 demo_no_collision
  show ?thesis by auto
qed

lemma event_at_size_limit_is_not_republished_witness:
  "publish_event demo_env (demo_durable (replicate 999950 (CHR ''a'')))
      (demo_board_db [demo_row (replicate 999950 (CHR ''a''))]) =
    (Inl (ValueError ''message board payload is too large''),
     demo_board_db [demo_row (replicate 999950 (CHR ''a''))])"
proof (rule event_at_size_limit_is_not_republished [OF rtranclp.rtrancl_refl demo_on_board demo_safe])
  show "length (json_dumps (de_payload (demo_durable (replicate 999950 (CHR ''a''))))) \<le> max_event_bytes"
    unfolding demo_payload_length by (simp add: max_event_bytes_def)
  show "max_event_bytes < length (json_dumps (durable_envelope (demo_durable (replicate 999950 (CHR ''a'')))))"
    using demo_envelope_length [of 999950] by (simp add: max_event_bytes_def)
qed

end
