(* ===== verification/Outbox.thy ===== *)
theory Outbox
  imports Message_Board
begin

text \<open>
  \<open>server/app/services/outbox.py\<close>: board publications persisted beside the domain state and
  delivered at least once. A publisher claims rows under a generation, publishes them, and may
  mark or release only what it still holds.
\<close>

record outbox_row =
  ob_id :: int
  ob_event_id :: string
  ob_aggregate_type :: string
  ob_aggregate_id :: string
  ob_topic :: string
  ob_event_type :: string
  ob_payload_json :: string
  ob_message_id :: string
  ob_task_id :: "string option"
  ob_agent_id :: "string option"
  ob_created_at :: string
  ob_published_at :: "string option"
  ob_attempts :: int
  ob_last_error :: "string option"
  ob_dedupe_key :: string
  ob_publishing_owner :: "string option"
  ob_publishing_started_at :: "string option"
  ob_publishing_lease_expires_at :: "string option"
  ob_publish_generation :: int

record outbox_metrics_row =
  om_claim_expirations :: int
  om_duplicate_publications :: int
  om_latency_count :: int
  om_latency_total :: int
  om_latency_max :: int
  om_updated_at :: "string option"

text \<open>\<open>outbox_operational_metrics\<close> holds at most the row with \<open>singleton_id = 1\<close>.\<close>

record outbox_db = board_db +
  outbox_events :: "outbox_row sql_table"
  outbox_metrics_singleton :: "outbox_metrics_row option"

record outbox_service =
  os_instance_id :: string
  os_lease_seconds :: int

definition new_outbox_service :: "string \<Rightarrow> string option \<Rightarrow> int \<Rightarrow> py_error + outbox_service" where
  "new_outbox_service fresh instance_id publication_lease_seconds =
    (if publication_lease_seconds < 5 \<or> publication_lease_seconds > 900
     then Inl (ValueError ''outbox publication lease must be between 5 and 900 seconds'')
     else
       let i = (if or_empty instance_id = [] then ''outbox_'' @ fresh else or_empty instance_id)
       in if i = [] \<or> py_len i > 200
          then Inl (ValueError ''outbox publisher instance id is invalid'')
          else Inr \<lparr>os_instance_id = i, os_lease_seconds = publication_lease_seconds\<rparr>)"

definition outbox_utc :: "py_datetime \<Rightarrow> py_error + nat" where
  "outbox_utc current =
    (if \<not> dt_aware current then Inl (ValueError ''outbox timestamps must be timezone-aware'')
     else Inr (dt_instant current))"

section \<open>Enqueueing\<close>

text \<open>The keyword arguments of \<open>enqueue_locked\<close>.\<close>

record outbox_request =
  oq_aggregate_type :: string
  oq_aggregate_id :: string
  oq_topic :: string
  oq_event_type :: string
  oq_payload :: json
  oq_dedupe_key :: string
  oq_task_id :: "string option"
  oq_agent_id :: "string option"
  oq_message_id :: "string option"
  oq_event_id :: "string option"
  oq_created_at :: "string option"

text \<open>The row read back as an event, by \<open>enqueue_locked\<close> and by \<open>publish_claimed\<close>.\<close>

definition outbox_event :: "outbox_row \<Rightarrow> json \<Rightarrow> durable_event" where
  "outbox_event r payload =
    \<lparr>de_schema_version = event_schema_version, de_event_id = ob_event_id r,
     de_dedupe_key = ob_dedupe_key r, de_topic = ob_topic r, de_event_type = ob_event_type r,
     de_aggregate_type = ob_aggregate_type r, de_aggregate_id = ob_aggregate_id r,
     de_payload = payload, de_created_at = ob_created_at r, de_task_id = ob_task_id r,
     de_agent_id = ob_agent_id r\<rparr>"

text \<open>\<open>x or y\<close> for an optional text.\<close>

definition py_or :: "string option \<Rightarrow> string \<Rightarrow> string" where
  "py_or x y = (if or_empty x = [] then y else or_empty x)"

definition request_event :: "nat \<Rightarrow> string \<Rightarrow> outbox_request \<Rightarrow> durable_event" where
  "request_event clk fresh q =
    \<lparr>de_schema_version = event_schema_version, de_event_id = py_or (oq_event_id q) (''evt_'' @ fresh),
     de_dedupe_key = oq_dedupe_key q, de_topic = oq_topic q, de_event_type = oq_event_type q,
     de_aggregate_type = oq_aggregate_type q, de_aggregate_id = oq_aggregate_id q,
     de_payload = oq_payload q, de_created_at = py_or (oq_created_at q) (isoformat clk),
     de_task_id = oq_task_id q, de_agent_id = oq_agent_id q\<rparr>"

definition new_outbox_row :: "int \<Rightarrow> durable_event \<Rightarrow> string \<Rightarrow> string \<Rightarrow> outbox_row" where
  "new_outbox_row i e payload_json message_id =
    \<lparr>ob_id = i, ob_event_id = de_event_id e, ob_aggregate_type = de_aggregate_type e,
     ob_aggregate_id = de_aggregate_id e, ob_topic = de_topic e, ob_event_type = de_event_type e,
     ob_payload_json = payload_json, ob_message_id = message_id, ob_task_id = de_task_id e,
     ob_agent_id = de_agent_id e, ob_created_at = de_created_at e, ob_published_at = None,
     ob_attempts = 0, ob_last_error = None, ob_dedupe_key = de_dedupe_key e,
     ob_publishing_owner = None, ob_publishing_started_at = None,
     ob_publishing_lease_expires_at = None, ob_publish_generation = 0\<rparr>"

text \<open>
  Runs in the caller's transaction: an exception is the caller's to roll back. \<open>clk\<close> and
  \<open>fresh\<close> are the clock and the \<open>uuid4\<close> used where the caller gives none.
\<close>

definition enqueue_locked :: "board_env \<Rightarrow> nat \<Rightarrow> string \<Rightarrow> outbox_request \<Rightarrow> 'z outbox_db_scheme
    \<Rightarrow> py_error + (int \<times> 'z outbox_db_scheme)" where
  "enqueue_locked env clk fresh q db =
    and_then (require (oq_aggregate_type q \<noteq> [] \<and> oq_aggregate_id q \<noteq> [] \<and> oq_topic q \<noteq> [] \<and>
        oq_event_type q \<noteq> [] \<and> oq_dedupe_key q \<noteq> []) (ValueError ''outbox identifiers are required'')) (\<lambda>_.
    and_then (assert_safe_shared_payload (env_secret_text env) (oq_payload q)) (\<lambda>_.
    and_then (new_durable_event env (request_event clk fresh q)) (\<lambda>candidate.
      let payload_json = json_dumps (de_payload candidate) in
      if length payload_json > 1000000 then Inl (ValueError ''outbox payload is too large'')
      else
        (case row_by ob_dedupe_key (oq_dedupe_key q) (outbox_events db) of
           None \<Rightarrow>
             (case row_by ob_event_id (de_event_id candidate) (outbox_events db) of
                Some row \<Rightarrow> Inl (IntegrityError ''UNIQUE constraint failed: outbox_events.event_id'')
              | None \<Rightarrow>
                  let i = next_rowid ob_id (outbox_events db) in
                  Inr (i, db\<lparr>outbox_events := outbox_events db @
                    [new_outbox_row i candidate payload_json (py_or (oq_message_id q) (oq_aggregate_id q))]\<rparr>))
         | Some row \<Rightarrow>
             (case json_loads (ob_payload_json row) of
                None \<Rightarrow> Inl (ValueError ''stored outbox dedupe binding is invalid'')
              | Some (JObj stored_payload) \<Rightarrow>
                  and_then (new_durable_event env (outbox_event row (JObj stored_payload))) (\<lambda>stored_event.
                  and_then (domain_event_binding_digest env stored_event) (\<lambda>stored_digest.
                  and_then (domain_event_binding_digest env candidate) (\<lambda>digest.
                    if stored_digest \<noteq> digest
                    then Inl (ValueError ''outbox dedupe key is bound to a different event'')
                    else Inr (ob_id row, db))))
              | Some _ \<Rightarrow> Inl (TypeError ''stored outbox dedupe binding is invalid''))))))"

section \<open>Moments\<close>

text \<open>
  An operation made of several transactions takes a sequence of moments, one per transaction:
  what the clocks read and what the other processes have done to the database since the last
  one. \<open>mo_fence1\<close> and \<open>mo_fence2\<close> are the lease clock at the first and the second check of the
  maintenance guard; \<open>mo_rows\<close> is how many rows a recovery batch handles before its time budget
  is spent.
\<close>

record 'db moment =
  mo_clock :: py_datetime
  mo_fence1 :: py_datetime
  mo_fence2 :: py_datetime
  mo_latency_ms :: int
  mo_rows :: nat
  mo_others :: "'db \<Rightarrow> 'db"

text \<open>A transaction checked by the optional maintenance guard when it starts and before it commits.\<close>

definition guarded :: "lease_service \<Rightarrow> 'm moment \<Rightarrow> lease_guard option
    \<Rightarrow> ('z lease_db_scheme \<Rightarrow> py_error + ('a \<times> 'z lease_db_scheme))
    \<Rightarrow> 'z lease_db_scheme \<Rightarrow> (py_error + 'a) \<times> lease_guard option \<times> 'z lease_db_scheme" where
  "guarded lsvc m g mutation db =
    (case g of
       None \<Rightarrow> (case transaction mutation db of (r, db') \<Rightarrow> (r, None, db'))
     | Some gd \<Rightarrow> (case guard_run_locked lsvc (mo_fence1 m) (mo_fence2 m) mutation gd db of
           (r, gd', db') \<Rightarrow> (r, Some gd', db')))"

definition raise_if_lost :: "lease_guard option \<Rightarrow> py_error + unit" where
  "raise_if_lost g = (case g of None \<Rightarrow> Inr () | Some gd \<Rightarrow> guard_raise_if_lost gd)"

section \<open>Claiming\<close>

definition claimable :: "string \<Rightarrow> outbox_row \<Rightarrow> bool" where
  "claimable now r \<longleftrightarrow> ob_published_at r = None \<and>
    (ob_publishing_owner r = None \<or> ob_publishing_lease_expires_at r = None \<or>
     null_le (ob_publishing_lease_expires_at r) now)"

definition record_claim_expired_locked :: "board_env \<Rightarrow> outbox_service \<Rightarrow> outbox_row \<Rightarrow> string
    \<Rightarrow> 'z outbox_db_scheme \<Rightarrow> 'z outbox_db_scheme" where
  "record_claim_expired_locked env svc row detected_at db =
    (let db' = snd (append_audit_event (env_sha256 env) [] 0 ''outbox.publication.claim_expired''
           (JObj [(''outbox_id'', JInt (ob_id row)), (''event_id'', JStr (ob_event_id row)),
                  (''expired_generation'', JInt (ob_publish_generation row))])
           ''control-plane'' (os_instance_id svc) (ob_task_id row)
           (Some (''outbox:'' @ show_int (ob_id row) @ '':claim-expired:'' @
             show_int (ob_publish_generation row)))
           (Some detected_at) db)
     in db'\<lparr>outbox_metrics_singleton := map_option (\<lambda>m. m\<lparr>om_claim_expirations :=
          om_claim_expirations m + 1, om_updated_at := Some detected_at\<rparr>) (outbox_metrics_singleton db')\<rparr>)"

definition claimed_row :: "outbox_service \<Rightarrow> string \<Rightarrow> string \<Rightarrow> outbox_row \<Rightarrow> outbox_row" where
  "claimed_row svc now expires_at r = r\<lparr>ob_publishing_owner := Some (os_instance_id svc),
    ob_publishing_started_at := Some now, ob_publishing_lease_expires_at := Some expires_at,
    ob_publish_generation := ob_publish_generation r + 1\<rparr>"

text \<open>One candidate of \<open>claim_batch\<close>; the state is the identifiers claimed so far and the database.\<close>

definition claim_candidate :: "board_env \<Rightarrow> outbox_service \<Rightarrow> string \<Rightarrow> string \<Rightarrow> outbox_row
    \<Rightarrow> int list \<times> 'z outbox_db_scheme \<Rightarrow> int list \<times> 'z outbox_db_scheme" where
  "claim_candidate env svc now expires_at candidate st =
    (case st of (claimed, db) \<Rightarrow>
      let mine = (\<lambda>r. ob_id r = ob_id candidate \<and>
            ob_publish_generation r = ob_publish_generation candidate \<and> claimable now r);
          db' = db\<lparr>outbox_events := sql_update mine (claimed_row svc now expires_at) (outbox_events db)\<rparr>
      in if sql_rowcount mine (outbox_events db) = 1
         then (claimed @ [ob_id candidate],
               if ob_publishing_owner candidate \<noteq> None
               then record_claim_expired_locked env svc candidate now db' else db')
         else (claimed, db'))"

definition fetch_claimed :: "int list \<Rightarrow> 'z outbox_db_scheme \<Rightarrow> py_error + outbox_row list" where
  "fetch_claimed claimed db =
    for_each (\<lambda>i rows. case row_by ob_id i (outbox_events db) of
        None \<Rightarrow> Inl (RuntimeError ''claimed outbox event disappeared'')
      | Some r \<Rightarrow> Inr (rows @ [r])) claimed []"

definition claim_batch :: "board_env \<Rightarrow> outbox_service \<Rightarrow> lease_service \<Rightarrow> int \<Rightarrow> 'm moment
    \<Rightarrow> lease_guard option \<Rightarrow> 'z outbox_db_scheme
    \<Rightarrow> (py_error + outbox_row list) \<times> lease_guard option \<times> 'z outbox_db_scheme" where
  "claim_batch env svc lsvc limit m g db =
    (case and_then (outbox_utc (mo_clock m)) (\<lambda>t.
        and_then (dt_add_seconds t (os_lease_seconds svc)) (\<lambda>u. Inr (isoformat t, isoformat u))) of
       Inl e \<Rightarrow> (Inl e, g, db)
     | Inr (claimed_at, lease_expires_at) \<Rightarrow>
         guarded lsvc m g (\<lambda>db.
           let candidates = take (bounded_limit 500 limit)
                 (sort_key ob_id (sql_select (claimable claimed_at) (outbox_events db)));
               (claimed, db') = fold (claim_candidate env svc claimed_at lease_expires_at) candidates ([], db)
           in and_then (fetch_claimed claimed db') (\<lambda>rows. Inr (rows, db'))) db)"

section \<open>Finishing a claim\<close>

definition held :: "int \<Rightarrow> string \<Rightarrow> int \<Rightarrow> outbox_row \<Rightarrow> bool" where
  "held outbox_id owner generation r \<longleftrightarrow> ob_id r = outbox_id \<and> ob_published_at r = None \<and>
    ob_publishing_owner r = Some owner \<and> ob_publish_generation r = generation"

definition clear_claim :: "outbox_row \<Rightarrow> outbox_row" where
  "clear_claim r = r\<lparr>ob_publishing_owner := None, ob_publishing_started_at := None,
    ob_publishing_lease_expires_at := None\<rparr>"

definition update_held :: "(outbox_row \<Rightarrow> bool) \<Rightarrow> (outbox_row \<Rightarrow> outbox_row) \<Rightarrow> 'z outbox_db_scheme
    \<Rightarrow> py_error + (bool \<times> 'z outbox_db_scheme)" where
  "update_held P f db = Inr (sql_rowcount P (outbox_events db) = 1,
    db\<lparr>outbox_events := sql_update P f (outbox_events db)\<rparr>)"

definition release_claim :: "lease_service \<Rightarrow> int \<Rightarrow> string \<Rightarrow> int \<Rightarrow> 'm moment \<Rightarrow> lease_guard option
    \<Rightarrow> 'z outbox_db_scheme \<Rightarrow> (py_error + bool) \<times> lease_guard option \<times> 'z outbox_db_scheme" where
  "release_claim lsvc outbox_id owner generation m g =
    guarded lsvc m g (update_held (held outbox_id owner generation) clear_claim)"

text \<open>\<open>owner_instance_id or self.instance_id\<close>; without a generation nothing is marked.\<close>

definition mark_published :: "outbox_service \<Rightarrow> lease_service \<Rightarrow> int \<Rightarrow> string option \<Rightarrow> int option
    \<Rightarrow> 'm moment \<Rightarrow> lease_guard option \<Rightarrow> 'z outbox_db_scheme
    \<Rightarrow> (py_error + bool) \<times> lease_guard option \<times> 'z outbox_db_scheme" where
  "mark_published svc lsvc outbox_id owner generation m g db =
    (case generation of
       None \<Rightarrow> (Inr False, g, db)
     | Some gen \<Rightarrow>
         (case outbox_utc (mo_clock m) of
            Inl e \<Rightarrow> (Inl e, g, db)
          | Inr t \<Rightarrow>
              guarded lsvc m g (update_held
                (\<lambda>r. held outbox_id (py_or owner (os_instance_id svc)) gen r \<and>
                   null_gt (ob_publishing_lease_expires_at r) (isoformat t))
                (\<lambda>r. (clear_claim r)\<lparr>ob_published_at := Some (isoformat t), ob_last_error := None\<rparr>)) db))"

definition release_or_fail :: "lease_service \<Rightarrow> int \<Rightarrow> string \<Rightarrow> int \<Rightarrow> py_error \<Rightarrow> 'm moment
    \<Rightarrow> lease_guard option \<Rightarrow> 'z outbox_db_scheme
    \<Rightarrow> (py_error + bool) \<times> lease_guard option \<times> 'z outbox_db_scheme" where
  "release_or_fail lsvc outbox_id owner generation error m g db =
    (case outbox_utc (mo_clock m) of
       Inl e \<Rightarrow> (Inl e, g, db)
     | Inr t \<Rightarrow>
         guarded lsvc m g (update_held (held outbox_id owner generation)
           (\<lambda>r. (clear_claim r)\<lparr>ob_attempts := ob_attempts r + 1,
              ob_last_error := Some (exception_name error @ '': publication failed'')\<rparr>)) db)"

definition mark_failed :: "outbox_service \<Rightarrow> lease_service \<Rightarrow> int \<Rightarrow> py_error
    \<Rightarrow> 'z outbox_db_scheme moment \<Rightarrow> 'z outbox_db_scheme \<Rightarrow> (py_error + bool) \<times> lease_guard option \<times> 'z outbox_db_scheme" where
  "mark_failed svc lsvc outbox_id error m db =
    (case fetchone (sql_select (\<lambda>r. ob_id r = outbox_id \<and> ob_published_at r = None \<and>
        ob_publishing_owner r = Some (os_instance_id svc)) (outbox_events db)) of
       None \<Rightarrow> (Inr False, None, db)
     | Some row \<Rightarrow>
         release_or_fail lsvc outbox_id (os_instance_id svc) (ob_publish_generation row) error m None
           (mo_others m db))"

section \<open>Publishing\<close>

text \<open>
  A board adapter is a function of the event and of the whole state: the SQLite board writes its
  table in the same database, another adapter its broker (a further field of the state).
\<close>

type_synonym 'db board = "durable_event \<Rightarrow> 'db \<Rightarrow> (py_error + board_ack) \<times> 'db"

definition record_publication_acknowledgement :: "board_env \<Rightarrow> outbox_service \<Rightarrow> lease_service
    \<Rightarrow> outbox_row \<Rightarrow> bool \<Rightarrow> int \<Rightarrow> 'm moment \<Rightarrow> lease_guard option \<Rightarrow> 'z outbox_db_scheme
    \<Rightarrow> (py_error + unit) \<times> lease_guard option \<times> 'z outbox_db_scheme" where
  "record_publication_acknowledgement env svc lsvc row duplicate latency_ms m g =
    guarded lsvc m g (\<lambda>db.
      (case fetchone (sql_select (\<lambda>r. ob_id r = ob_id row \<and> ob_event_id r = ob_event_id row \<and>
          ob_dedupe_key r = ob_dedupe_key row) (outbox_events db)) of
         None \<Rightarrow> Inl (RuntimeError ''acknowledged outbox event disappeared'')
       | Some persisted \<Rightarrow>
           let now = dt_instant (mo_clock m);
               db' = snd (append_audit_event (env_sha256 env) [] now ''outbox.publication.acknowledged''
                 (JObj [(''outbox_id'', JInt (ob_id row)), (''event_id'', JStr (ob_event_id row)),
                        (''publish_generation'', JInt (ob_publish_generation row)),
                        (''duplicate'', JBool duplicate), (''latency_ms'', JInt latency_ms)])
                 ''control-plane'' (os_instance_id svc) (ob_task_id row)
                 (Some (''outbox:'' @ show_int (ob_id row) @ '':publication:'' @
                   show_int (ob_publish_generation row)))
                 None db)
           in Inr ((), db'\<lparr>outbox_metrics_singleton := map_option (\<lambda>x.
                x\<lparr>om_duplicate_publications := om_duplicate_publications x + (if duplicate then 1 else 0),
                  om_latency_count := om_latency_count x + 1,
                  om_latency_total := om_latency_total x + latency_ms,
                  om_latency_max := max (om_latency_max x) latency_ms,
                  om_updated_at := Some (isoformat now)\<rparr>) (outbox_metrics_singleton db')\<rparr>)))"

text \<open>
  The row is one \<open>claim_batch\<close> returned. The publication is one moment and the acknowledgement
  the next.
\<close>

definition publish_claimed :: "board_env \<Rightarrow> outbox_service \<Rightarrow> lease_service \<Rightarrow> 'z outbox_db_scheme board
    \<Rightarrow> outbox_row \<Rightarrow> 'z outbox_db_scheme moment \<Rightarrow> 'z outbox_db_scheme moment \<Rightarrow> lease_guard option
    \<Rightarrow> 'z outbox_db_scheme \<Rightarrow> (py_error + board_ack) \<times> lease_guard option \<times> 'z outbox_db_scheme" where
  "publish_claimed env svc lsvc board row m1 m2 g db =
    (if ob_publishing_owner row \<noteq> Some (os_instance_id svc)
     then (Inl (ValueError ''outbox event is not owned by this publisher''), g, db)
     else
       (case json_loads (ob_payload_json row) of
          None \<Rightarrow> (Inl (OtherException ''JSONDecodeError''), g, db)
        | Some (JObj kvs) \<Rightarrow>
            (case and_then (new_durable_event env (outbox_event row (JObj kvs)))
                (\<lambda>event. and_then (raise_if_lost g) (\<lambda>_. Inr event)) of
               Inl e \<Rightarrow> (Inl e, g, db)
             | Inr event \<Rightarrow>
                 (case board event (mo_others m1 db) of
                    (Inl e, db1) \<Rightarrow> (Inl e, g, db1)
                  | (Inr ack, db1) \<Rightarrow>
                      (case raise_if_lost g of
                         Inl e \<Rightarrow> (Inl e, g, db1)
                       | Inr _ \<Rightarrow>
                           (case record_publication_acknowledgement env svc lsvc row (ack_duplicate ack)
                               (max 0 (mo_latency_ms m1)) m2 g (mo_others m2 db1) of
                              (Inl e, g', db2) \<Rightarrow> (Inl e, g', db2)
                            | (Inr _, g', db2) \<Rightarrow> (Inr ack, g', db2)))))
        | Some _ \<Rightarrow> (Inl (TypeError ''outbox payload is not an object''), g, db)))"

text \<open>The claims of the rows after one the board refused: all released, without a failure.\<close>

fun release_rest :: "outbox_service \<Rightarrow> lease_service \<Rightarrow> (nat \<Rightarrow> 'z outbox_db_scheme moment) \<Rightarrow> outbox_row list
    \<Rightarrow> nat \<Rightarrow> lease_guard option \<Rightarrow> 'z outbox_db_scheme
    \<Rightarrow> (py_error + unit) \<times> lease_guard option \<times> 'z outbox_db_scheme" where
  "release_rest svc lsvc ms [] k g db = (Inr (), g, db)"
| "release_rest svc lsvc ms (row # rows) k g db =
    (case release_claim lsvc (ob_id row) (os_instance_id svc) (ob_publish_generation row) (ms k) g
        (mo_others (ms k) db) of
       (Inl e, g', db') \<Rightarrow> (Inl e, g', db')
     | (Inr _, g', db') \<Rightarrow> release_rest svc lsvc ms rows (Suc k) g' db')"

text \<open>The body of the \<open>try\<close>: publish, then mark what is still held.\<close>

definition publish_and_mark :: "board_env \<Rightarrow> outbox_service \<Rightarrow> lease_service \<Rightarrow> 'z outbox_db_scheme board
    \<Rightarrow> (nat \<Rightarrow> 'z outbox_db_scheme moment) \<Rightarrow> outbox_row \<Rightarrow> nat \<Rightarrow> lease_guard option \<Rightarrow> 'z outbox_db_scheme
    \<Rightarrow> (py_error + bool) \<times> lease_guard option \<times> 'z outbox_db_scheme" where
  "publish_and_mark env svc lsvc board ms row k g db =
    (case publish_claimed env svc lsvc board row (ms k) (ms (k + 1)) g db of
       (Inl e, g', db') \<Rightarrow> (Inl e, g', db')
     | (Inr _, g', db') \<Rightarrow>
         mark_published svc lsvc (ob_id row) (Some (os_instance_id svc)) (Some (ob_publish_generation row))
           (ms (k + 2)) g' (mo_others (ms (k + 2)) db'))"

text \<open>
  The loop of \<open>drain\<close> over the claimed rows; the counts are the rows published and failed. A
  transport failure releases the failed row and every later one and ends the loop, any other
  exception fails the row alone. Each row takes four moments.
\<close>

fun drain_rows :: "board_env \<Rightarrow> outbox_service \<Rightarrow> lease_service \<Rightarrow> 'z outbox_db_scheme board
    \<Rightarrow> (nat \<Rightarrow> 'z outbox_db_scheme moment) \<Rightarrow> outbox_row list \<Rightarrow> nat \<Rightarrow> nat \<times> nat \<Rightarrow> lease_guard option
    \<Rightarrow> 'z outbox_db_scheme \<Rightarrow> (py_error + nat \<times> nat) \<times> lease_guard option \<times> 'z outbox_db_scheme" where
  "drain_rows env svc lsvc board ms [] k (published, failed) g db = (Inr (published, failed), g, db)"
| "drain_rows env svc lsvc board ms (row # rows) k (published, failed) g db =
    (case publish_and_mark env svc lsvc board ms row k g db of
       (Inr changed, g1, db1) \<Rightarrow>
         drain_rows env svc lsvc board ms rows (k + 4) (published + (if changed then 1 else 0), failed) g1 db1
     | (Inl error, g1, db1) \<Rightarrow>
         (case raise_if_lost g1 of
            Inl e \<Rightarrow> (Inl e, g1, db1)
          | Inr _ \<Rightarrow>
              (case release_or_fail lsvc (ob_id row) (os_instance_id svc) (ob_publish_generation row) error
                  (ms (k + 3)) g1 (mo_others (ms (k + 3)) db1) of
                 (Inl e, g2, db2) \<Rightarrow> (Inl e, g2, db2)
               | (Inr changed, g2, db2) \<Rightarrow>
                   let failed' = failed + (if changed then 1 else 0) in
                   (case error of
                      MessageBoardUnavailableError msg \<Rightarrow>
                        (case release_rest svc lsvc ms rows (k + 4) g2 db2 of
                           (Inl e, g3, db3) \<Rightarrow> (Inl e, g3, db3)
                         | (Inr _, g3, db3) \<Rightarrow> (Inr (published, failed'), g3, db3))
                    | _ \<Rightarrow> drain_rows env svc lsvc board ms rows (k + 4) (published, failed') g2 db2))))"

definition pending_count :: "'z outbox_db_scheme \<Rightarrow> nat" where
  "pending_count db = sql_rowcount (\<lambda>r. ob_published_at r = None) (outbox_events db)"

record drain_report =
  dr_selected :: nat
  dr_published :: nat
  dr_failed :: nat
  dr_pending :: nat

definition drain :: "board_env \<Rightarrow> outbox_service \<Rightarrow> lease_service \<Rightarrow> 'z outbox_db_scheme board \<Rightarrow> int
    \<Rightarrow> (nat \<Rightarrow> 'z outbox_db_scheme moment) \<Rightarrow> lease_guard option \<Rightarrow> 'z outbox_db_scheme
    \<Rightarrow> (py_error + drain_report) \<times> lease_guard option \<times> 'z outbox_db_scheme" where
  "drain env svc lsvc board limit ms g db =
    (case claim_batch env svc lsvc limit (ms 0) g (mo_others (ms 0) db) of
       (Inl e, g1, db1) \<Rightarrow> (Inl e, g1, db1)
     | (Inr rows, g1, db1) \<Rightarrow>
         (case drain_rows env svc lsvc board ms rows 1 (0, 0) g1 db1 of
            (Inl e, g2, db2) \<Rightarrow> (Inl e, g2, db2)
          | (Inr (published, failed), g2, db2) \<Rightarrow>
              (Inr \<lparr>dr_selected = length rows, dr_published = published, dr_failed = failed,
                 dr_pending = pending_count db2\<rparr>, g2, db2)))"

section \<open>Recovery and metrics\<close>

definition max_recoveries :: nat where
  "max_recoveries = 500"

definition recovery_batch_size :: nat where
  "recovery_batch_size = 50"

definition expired_claim :: "string \<Rightarrow> outbox_row \<Rightarrow> bool" where
  "expired_claim now r \<longleftrightarrow> ob_published_at r = None \<and> ob_publishing_owner r \<noteq> None \<and>
    (ob_publishing_lease_expires_at r = None \<or> null_le (ob_publishing_lease_expires_at r) now)"

definition recover_row :: "board_env \<Rightarrow> outbox_service \<Rightarrow> string \<Rightarrow> outbox_row
    \<Rightarrow> nat \<times> 'z outbox_db_scheme \<Rightarrow> nat \<times> 'z outbox_db_scheme" where
  "recover_row env svc now row st =
    (case st of (recovered, db) \<Rightarrow>
      let mine = (\<lambda>r. ob_id r = ob_id row \<and> ob_publish_generation r = ob_publish_generation row \<and>
            expired_claim now r);
          db' = db\<lparr>outbox_events := sql_update mine clear_claim (outbox_events db)\<rparr>
      in if sql_rowcount mine (outbox_events db) \<noteq> 1 then (recovered, db')
         else (recovered + 1, record_claim_expired_locked env svc row now db'))"

text \<open>
  One batch: the rows examined are those the time budget allows, at least one, and all of them
  without a guard. The result is the rows recovered and whether the loop goes on.
\<close>

definition recover_batch :: "board_env \<Rightarrow> outbox_service \<Rightarrow> lease_service \<Rightarrow> string \<Rightarrow> nat \<Rightarrow> 'm moment
    \<Rightarrow> lease_guard option \<Rightarrow> 'z outbox_db_scheme
    \<Rightarrow> (py_error + nat \<times> bool) \<times> lease_guard option \<times> 'z outbox_db_scheme" where
  "recover_batch env svc lsvc now batch_limit m g =
    guarded lsvc m g (\<lambda>db.
      let expired = take batch_limit (sort_key ob_id (sql_select (expired_claim now) (outbox_events db)));
          examined = (if g = None then expired else take (max 1 (mo_rows m)) expired);
          (recovered, db') = fold (recover_row env svc now) examined (0, db)
      in Inr ((recovered, \<not> (expired = [] \<or> length examined = length expired \<and>
                             length expired < batch_limit)), db'))"

text \<open>
  The loop, with \<open>fuel\<close> iterations at most; \<open>None\<close> is running out of it. Each iteration is two
  moments: the renewal of the guard and the batch.
\<close>

fun recover_loop :: "nat \<Rightarrow> board_env \<Rightarrow> outbox_service \<Rightarrow> lease_service \<Rightarrow> string
    \<Rightarrow> (nat \<Rightarrow> 'z outbox_db_scheme moment) \<Rightarrow> nat \<Rightarrow> nat \<Rightarrow> lease_guard option \<Rightarrow> 'z outbox_db_scheme
    \<Rightarrow> ((py_error + nat) \<times> lease_guard option \<times> 'z outbox_db_scheme) option" where
  "recover_loop 0 env svc lsvc now ms k recovered g db = None"
| "recover_loop (Suc fuel) env svc lsvc now ms k recovered g db =
    (if \<not> recovered < max_recoveries then Some (Inr recovered, g, db)
     else
       (case (case g of
                None \<Rightarrow> (Inr (), None, db)
              | Some gd \<Rightarrow> (case guard_renew_now lsvc (mo_fence1 (ms k)) gd (mo_others (ms k) db) of
                    (r, gd', db') \<Rightarrow> (r, Some gd', db'))) of
          (Inl e, g1, db1) \<Rightarrow> Some (Inl e, g1, db1)
        | (Inr _, g1, db1) \<Rightarrow>
            (case recover_batch env svc lsvc now (min recovery_batch_size (max_recoveries - recovered))
                (ms (k + 1)) g1 (mo_others (ms (k + 1)) db1) of
               (Inl e, g2, db2) \<Rightarrow> Some (Inl e, g2, db2)
             | (Inr (batch_recovered, continue), g2, db2) \<Rightarrow>
                 if continue
                 then recover_loop fuel env svc lsvc now ms (k + 2) (recovered + batch_recovered) g2 db2
                 else Some (Inr (recovered + batch_recovered), g2, db2))))"

definition recover_expired_claims :: "board_env \<Rightarrow> outbox_service \<Rightarrow> lease_service \<Rightarrow> py_datetime
    \<Rightarrow> (nat \<Rightarrow> 'z outbox_db_scheme moment) \<Rightarrow> lease_guard option \<Rightarrow> 'z outbox_db_scheme
    \<Rightarrow> ((py_error + nat) \<times> lease_guard option \<times> 'z outbox_db_scheme) option" where
  "recover_expired_claims env svc lsvc clk ms g db =
    (case outbox_utc clk of
       Inl e \<Rightarrow> Some (Inl e, g, db)
     | Inr t \<Rightarrow> recover_loop (max_recoveries + 1) env svc lsvc (isoformat t) ms 0 0 g db)"

record outbox_metrics_report =
  omr_pending :: nat
  omr_publishing :: nat
  omr_failed :: nat
  omr_totals :: outbox_metrics_row

definition outbox_metrics :: "'z outbox_db_scheme \<Rightarrow> py_error + outbox_metrics_report" where
  "outbox_metrics db =
    (case outbox_metrics_singleton db of
       None \<Rightarrow> Inl (RuntimeError ''SQLite did not return outbox operational metrics'')
     | Some m \<Rightarrow>
         let pending = sql_select (\<lambda>r. ob_published_at r = None) (outbox_events db) in
         Inr \<lparr>omr_pending = length pending,
              omr_publishing = sql_rowcount (\<lambda>r. ob_publishing_owner r \<noteq> None) pending,
              omr_failed = sql_rowcount (\<lambda>r. ob_attempts r > 0) pending, omr_totals = m\<rparr>)"

section \<open>How rows evolve\<close>

text \<open>The columns a row is enqueued with, never written again.\<close>

definition row_identity :: "outbox_row \<Rightarrow> outbox_row" where
  "row_identity r = (clear_claim r)\<lparr>ob_published_at := None, ob_attempts := 0, ob_last_error := None,
    ob_publish_generation := 0\<rparr>"

text \<open>
  What any operation may do to a row: leave it, or, while it is unpublished, keep its identity
  and either keep its generation and clear its owner or raise its generation.
\<close>

definition row_evolves :: "outbox_row \<Rightarrow> outbox_row \<Rightarrow> bool" where
  "row_evolves r r' \<longleftrightarrow> r' = r \<or>
    (ob_published_at r = None \<and> row_identity r' = row_identity r \<and>
     (ob_publish_generation r < ob_publish_generation r' \<or>
      ob_publish_generation r' = ob_publish_generation r \<and> ob_publishing_owner r' = None))"

lemma row_identity_fields:
  assumes "row_identity r' = row_identity r"
  shows "ob_id r' = ob_id r" "ob_event_id r' = ob_event_id r" "ob_dedupe_key r' = ob_dedupe_key r"
    "ob_payload_json r' = ob_payload_json r" "outbox_event r' v = outbox_event r v"
  using assms by (cases r; cases r'; simp add: row_identity_def clear_claim_def outbox_event_def)+

lemma row_evolves_identity: "row_evolves r r' \<Longrightarrow> row_identity r' = row_identity r"
  by (auto simp: row_evolves_def)

lemma row_evolves_refl [simp]: "row_evolves r r"
  by (simp add: row_evolves_def)

lemma row_evolves_trans: "row_evolves r s \<Longrightarrow> row_evolves s t \<Longrightarrow> row_evolves r t"
  unfolding row_evolves_def by auto

text \<open>What every operation but the marking does: besides, it publishes nothing.\<close>

definition row_works :: "outbox_row \<Rightarrow> outbox_row \<Rightarrow> bool" where
  "row_works r r' \<longleftrightarrow> row_evolves r r' \<and> ob_published_at r' = ob_published_at r"

text \<open>The table changes row by row, and neither the board nor what extends the state changes.\<close>

definition rowwise :: "(outbox_row \<Rightarrow> outbox_row \<Rightarrow> bool) \<Rightarrow> 'z outbox_db_scheme \<Rightarrow> 'z outbox_db_scheme \<Rightarrow> bool" where
  "rowwise R db db' \<longleftrightarrow> list_all2 R (outbox_events db) (outbox_events db') \<and>
    message_board_events db' = message_board_events db \<and> outbox_db.more db' = outbox_db.more db"

definition outbox_evolves :: "'z outbox_db_scheme \<Rightarrow> 'z outbox_db_scheme \<Rightarrow> bool" where
  "outbox_evolves = rowwise row_evolves"

definition outbox_works :: "'z outbox_db_scheme \<Rightarrow> 'z outbox_db_scheme \<Rightarrow> bool" where
  "outbox_works = rowwise row_works"

lemma row_works_refl [simp]: "row_works r r"
  by (simp add: row_works_def)

lemma row_works_trans: "row_works r s \<Longrightarrow> row_works s t \<Longrightarrow> row_works r t"
  unfolding row_works_def using row_evolves_trans by metis

lemma outbox_works_evolves: "outbox_works db db' \<Longrightarrow> outbox_evolves db db'"
  unfolding outbox_works_def outbox_evolves_def rowwise_def
  by (auto simp: row_works_def elim: list_all2_mono)

lemma outbox_works_refl [simp]: "outbox_works db db"
  by (simp add: outbox_works_def rowwise_def list.rel_refl)

lemma outbox_works_trans: "outbox_works a b \<Longrightarrow> outbox_works b c \<Longrightarrow> outbox_works a c"
  unfolding outbox_works_def rowwise_def
  by (auto intro: list_all2_trans [of row_works row_works row_works] row_works_trans)

lemma list_all2_sql_update:
  "(\<And>r. P r \<Longrightarrow> R r (f r)) \<Longrightarrow> (\<And>r. R r r) \<Longrightarrow> list_all2 R t (sql_update P f t)"
  by (induction t) (auto simp: sql_update_def)

lemma outbox_update_works:
  "(\<And>r. P r \<Longrightarrow> row_works r (f r)) \<Longrightarrow>
    outbox_works db (db\<lparr>outbox_events := sql_update P f (outbox_events db)\<rparr>)"
  by (simp add: outbox_works_def rowwise_def list_all2_sql_update)

lemma outbox_update_evolves:
  "(\<And>r. P r \<Longrightarrow> row_evolves r (f r)) \<Longrightarrow>
    outbox_evolves db (db\<lparr>outbox_events := sql_update P f (outbox_events db)\<rparr>)"
  by (simp add: outbox_evolves_def rowwise_def list_all2_sql_update)

lemma append_audit_frame [simp]:
  "outbox_events (snd (append_audit_event H f c ty p at ai task tr cr db)) = outbox_events db"
  "message_board_events (snd (append_audit_event H f c ty p at ai task tr cr db)) = message_board_events db"
  "outbox_metrics_singleton (snd (append_audit_event H f c ty p at ai task tr cr db)) =
    outbox_metrics_singleton db"
  "outbox_db.more (snd (append_audit_event H f c ty p at ai task tr cr db)) = outbox_db.more db"
  by (simp_all add: append_audit_event_def Let_def)

lemma claim_expired_frame [simp]:
  "outbox_events (record_claim_expired_locked env svc row now db) = outbox_events db"
  "message_board_events (record_claim_expired_locked env svc row now db) = message_board_events db"
  "outbox_db.more (record_claim_expired_locked env svc row now db) = outbox_db.more db"
  by (simp_all add: record_claim_expired_locked_def Let_def)

lemma guarded_cases:
  assumes "guarded lsvc m g mutation db = (r, g', db')"
  obtains (committed) a where "r = Inr a" "mutation db = Inr (a, db')" "g' = g"
  | (rolled_back) e where "r = Inl e" "db' = db"
proof (cases r)
  case (Inl e)
  then have "db' = db"
    using assms guard_run_locked_Inl
    by (auto simp: guarded_def transaction_Inl_iff split: option.split_asm prod.split_asm)
  with Inl show ?thesis by (rule rolled_back)
next
  case (Inr a)
  then have "mutation db = Inr (a, db') \<and> g' = g"
    using assms guard_run_locked_Inr(3,4)
    by (auto simp: guarded_def transaction_Inr_iff split: option.split_asm prod.split_asm)
  with Inr show ?thesis using committed by blast
qed

lemma guarded_rel:
  assumes "\<And>a db'. mutation db = Inr (a, db') \<Longrightarrow> R db db'" and "R db db"
  shows "R db (snd (snd (guarded lsvc m g mutation db)))"
proof -
  obtain r g' db' where run: "guarded lsvc m g mutation db = (r, g', db')" by (metis prod_cases3)
  then show ?thesis by (cases rule: guarded_cases) (use assms run in auto)
qed

lemma held_evolves:
  "held i o' g r \<Longrightarrow> row_works r (clear_claim r)"
  "held i o' g r \<Longrightarrow> row_evolves r ((clear_claim r)\<lparr>ob_published_at := p, ob_last_error := e\<rparr>)"
  "held i o' g r \<Longrightarrow> row_works r ((clear_claim r)\<lparr>ob_attempts := n, ob_last_error := e\<rparr>)"
  by (simp_all add: held_def row_works_def row_evolves_def row_identity_def clear_claim_def)

lemma outbox_evolves_refl [simp]: "outbox_evolves db db"
  by (simp add: outbox_works_evolves)

lemma release_claim_works: "outbox_works db (snd (snd (release_claim lsvc i ow g m gd db)))"
  unfolding release_claim_def
  by (rule guarded_rel) (auto simp: update_held_def held_evolves intro!: outbox_update_works)

lemma mark_published_evolves: "outbox_evolves db (snd (snd (mark_published svc lsvc i ow g m gd db)))"
  unfolding mark_published_def
  by (auto simp: update_held_def split: option.split sum.split
      intro!: guarded_rel [of _ _ outbox_evolves] outbox_update_evolves held_evolves)

lemma release_or_fail_works: "outbox_works db (snd (snd (release_or_fail lsvc i ow g e m gd db)))"
  unfolding release_or_fail_def
  by (auto simp: update_held_def split: option.split sum.split
      intro!: guarded_rel [of _ _ outbox_works] outbox_update_works held_evolves)

lemma acknowledgement_works:
  "outbox_works db (snd (snd (record_publication_acknowledgement env svc lsvc row d l m g db)))"
  unfolding record_publication_acknowledgement_def
  by (rule guarded_rel)
    (auto simp: Let_def outbox_works_def rowwise_def list.rel_refl split: option.split_asm)

lemma claim_candidate_works: "outbox_works db (snd (claim_candidate env svc now ex c (cl, db)))"
proof -
  have *: "row_works r (claimed_row svc now ex r)" if "claimable now r" for r
    using that
    by (simp add: claimable_def row_works_def row_evolves_def claimed_row_def row_identity_def clear_claim_def)
  have "outbox_works db (db\<lparr>outbox_events := sql_update
      (\<lambda>r. ob_id r = ob_id c \<and> ob_publish_generation r = ob_publish_generation c \<and> claimable now r)
      (claimed_row svc now ex) (outbox_events db)\<rparr>)"
    by (rule outbox_update_works) (simp add: *)
  then show ?thesis by (auto simp: claim_candidate_def Let_def outbox_works_def rowwise_def)
qed

lemma recover_row_works: "outbox_works db (snd (recover_row env svc now c (n, db)))"
proof -
  have *: "row_works r (clear_claim r)" if "expired_claim now r" for r
    using that by (simp add: expired_claim_def row_works_def row_evolves_def row_identity_def clear_claim_def)
  have "outbox_works db (db\<lparr>outbox_events := sql_update
      (\<lambda>r. ob_id r = ob_id c \<and> ob_publish_generation r = ob_publish_generation c \<and> expired_claim now r)
      clear_claim (outbox_events db)\<rparr>)"
    by (rule outbox_update_works) (simp add: *)
  then show ?thesis by (auto simp: recover_row_def Let_def outbox_works_def rowwise_def)
qed

lemma fold_works:
  assumes "\<And>c x db. outbox_works db (snd (f c (x, db)))"
  shows "outbox_works (snd st) (snd (fold f cs st))"
proof (induction cs arbitrary: st)
  case (Cons c cs)
  have "outbox_works (snd st) (snd (f c st))" using assms [of "snd st" c "fst st"] by simp
  then show ?case using Cons [of "f c st"] by (auto intro: outbox_works_trans)
qed simp

lemma claim_batch_works: "outbox_works db (snd (snd (claim_batch env svc lsvc limit m g db)))"
  using fold_works [of "claim_candidate env svc _ _" "([], db)", OF claim_candidate_works]
  by (auto simp: claim_batch_def Let_def split: sum.split prod.split_asm
      intro!: guarded_rel [of _ _ outbox_works]) (metis snd_conv)

lemma recover_batch_works: "outbox_works db (snd (snd (recover_batch env svc lsvc now lim m g db)))"
  using fold_works [of "recover_row env svc now" "(0, db)", OF recover_row_works]
  unfolding recover_batch_def
  by (intro guarded_rel [of _ _ outbox_works]) (auto simp: Let_def split: prod.split_asm, metis snd_conv)

lemmas operations_work = claim_batch_works release_claim_works release_or_fail_works
  recover_batch_works acknowledgement_works

end
