(* ===== verification/Outbox_Claims.thy ===== *)
theory Outbox_Claims
  imports Outbox
begin

text \<open>
  What the outbox promises its callers and its publishers: enqueueing is idempotent and bound to
  its dedupe key, a batch takes the oldest claimable rows, and claims are exclusive and fenced.
\<close>

section \<open>Well-formed tables\<close>

definition outbox_wf :: "'z outbox_db_scheme \<Rightarrow> bool" where
  "outbox_wf db \<longleftrightarrow>
    sorted (map ob_id (outbox_events db)) \<and> distinct (map ob_id (outbox_events db)) \<and>
    distinct (map ob_event_id (outbox_events db)) \<and> distinct (map ob_dedupe_key (outbox_events db)) \<and>
    (\<forall>r \<in> set (outbox_events db). \<exists>v. canonical_object v \<and> ob_payload_json r = json_dumps v)"

lemma evolves_map_eq:
  assumes "list_all2 row_evolves t t'"
  shows "map ob_id t' = map ob_id t" "map ob_event_id t' = map ob_event_id t"
    "map ob_dedupe_key t' = map ob_dedupe_key t" "map ob_payload_json t' = map ob_payload_json t"
  using assms
  by (induction rule: list_all2_induct) (auto dest!: row_evolves_identity dest: row_identity_fields)

lemma evolves_row_by:
  assumes "list_all2 row_evolves t t'" and "row_by ob_id i t = Some r"
  shows "\<exists>r'. row_by ob_id i t' = Some r' \<and> row_evolves r r'"
  using assms
proof (induction rule: list_all2_induct)
  case (Cons x xs y ys)
  then show ?case
    using row_identity_fields(1) [OF row_evolves_identity [OF Cons.hyps(1)]]
    by (cases "ob_id x = i") (auto simp: table_simps)
qed simp

lemma outbox_evolves_wf: "outbox_evolves db db' \<Longrightarrow> outbox_wf db \<Longrightarrow> outbox_wf db'"
proof -
  assume "outbox_evolves db db'" and wf: "outbox_wf db"
  then have e: "list_all2 row_evolves (outbox_events db) (outbox_events db')"
    by (simp add: outbox_evolves_def rowwise_def)
  have "ob_payload_json ` set (outbox_events db') = ob_payload_json ` set (outbox_events db)"
    using evolves_map_eq(4) [OF e] by (metis list.set_map)
  then show ?thesis
    using wf evolves_map_eq [OF e] unfolding outbox_wf_def by (metis (no_types, lifting) image_iff)
qed

definition outbox_claim :: "'z outbox_db_scheme \<Rightarrow> int \<Rightarrow> (int \<times> string option) option" where
  "outbox_claim db i =
    map_option (\<lambda>r. (ob_publish_generation r, ob_publishing_owner r)) (row_by ob_id i (outbox_events db))"

section \<open>Enqueueing\<close>

lemma enqueue_locked_cases:
  assumes "enqueue_locked env clk fresh q db = Inr (i, db')" and "json_dict (oq_payload q)"
  obtains (inserted) e where
      "new_durable_event env (request_event clk fresh q) = Inr e" "canonical_object (de_payload e)"
      "row_by ob_dedupe_key (oq_dedupe_key q) (outbox_events db) = None"
      "row_by ob_event_id (de_event_id e) (outbox_events db) = None"
      "i = next_rowid ob_id (outbox_events db)"
      "db' = db\<lparr>outbox_events := outbox_events db @
         [new_outbox_row i e (json_dumps (de_payload e)) (py_or (oq_message_id q) (oq_aggregate_id q))]\<rparr>"
  | (duplicate) e r kvs st d where
      "new_durable_event env (request_event clk fresh q) = Inr e" "canonical_object (de_payload e)"
      "row_by ob_dedupe_key (oq_dedupe_key q) (outbox_events db) = Some r"
      "json_loads (ob_payload_json r) = Some (JObj kvs)"
      "new_durable_event env (outbox_event r (JObj kvs)) = Inr st"
      "domain_event_binding_digest env st = Inr d" "domain_event_binding_digest env e = Inr d"
      "i = ob_id r" "db' = db"
proof -
  obtain e where e: "new_durable_event env (request_event clk fresh q) = Inr e"
    using assms(1) by (auto simp: enqueue_locked_def)
  have c: "canonical_object (de_payload e)"
    by (rule new_durable_event_Inr(2) [OF e]) (simp add: request_event_def assms(2))
  show ?thesis
  proof (cases "row_by ob_dedupe_key (oq_dedupe_key q) (outbox_events db)")
    case None
    then show ?thesis using assms(1) e c inserted
      by (auto simp: enqueue_locked_def Let_def split: option.split_asm if_split_asm)
  next
    case (Some r)
    then show ?thesis using assms(1) e c duplicate
      by (auto simp: enqueue_locked_def Let_def split: option.split_asm if_split_asm json.split_asm)
  qed
qed

lemma enqueue_wf:
  assumes "outbox_wf db" and "enqueue_locked env clk fresh q db = Inr (i, db')" and "json_dict (oq_payload q)"
  shows "outbox_wf db'"
  using assms(2,3)
proof (cases rule: enqueue_locked_cases)
  case (inserted e)
  have "de_dedupe_key e = oq_dedupe_key q"
    using new_durable_event_Inr(1) [OF inserted(1)] assms(3) by (simp add: request_event_def)
  with inserted assms(1) next_rowid_fresh [of _ "outbox_events db" ob_id] show ?thesis
    by (fastforce simp: outbox_wf_def sorted_append new_outbox_row_def row_by_None_iff image_iff
        simp del: sql_select_append)
qed (use assms in simp)

section \<open>Runs of the outbox\<close>

text \<open>
  Any publishers interleave any operations, each its own transaction, with any clocks and
  guards, and with any other transaction that leaves the table alone (a publication on the
  board, an audit entry, a lease).
\<close>

inductive outbox_step :: "'z outbox_db_scheme \<Rightarrow> 'z outbox_db_scheme \<Rightarrow> bool" where
  enqueue: "enqueue_locked env clk fresh q db = Inr (i, db') \<Longrightarrow> json_dict (oq_payload q) \<Longrightarrow> outbox_step db db'"
| claim: "outbox_step db (snd (snd (claim_batch env svc lsvc limit (m :: 'z outbox_db_scheme moment) g db)))"
| mark: "outbox_step db (snd (snd (mark_published svc lsvc i owner gen (m :: 'z outbox_db_scheme moment) g db)))"
| release: "outbox_step db (snd (snd (release_claim lsvc i ow gn (m :: 'z outbox_db_scheme moment) g db)))"
| fail: "outbox_step db (snd (snd (release_or_fail lsvc i ow gn e (m :: 'z outbox_db_scheme moment) g db)))"
| recover: "outbox_step db (snd (snd (recover_batch env svc lsvc now lim (m :: 'z outbox_db_scheme moment) g db)))"
| other: "outbox_events db' = outbox_events db \<Longrightarrow> outbox_step db db'"

lemmas operations_evolve = mark_published_evolves operations_work [THEN outbox_works_evolves]
lemmas claim_batch_evolves = claim_batch_works [THEN outbox_works_evolves]

lemma rows_refl: "list_all2 row_evolves t t"
  by (simp add: list.rel_refl)

lemma evolves_step_facts:
  assumes "outbox_evolves s t"
  shows "(outbox_wf s \<longrightarrow> outbox_wf t) \<and>
    (\<exists>t1 u. outbox_events t = t1 @ u \<and> list_all2 row_evolves (outbox_events s) t1)"
proof
  show "outbox_wf s \<longrightarrow> outbox_wf t" using outbox_evolves_wf [OF assms] by simp
  have "outbox_events t = outbox_events t @ []" "list_all2 row_evolves (outbox_events s) (outbox_events t)"
    using assms by (simp_all add: outbox_evolves_def rowwise_def)
  then show "\<exists>t1 u. outbox_events t = t1 @ u \<and> list_all2 row_evolves (outbox_events s) t1" by blast
qed

lemma outbox_step_facts:
  "outbox_step s t \<Longrightarrow> (outbox_wf s \<longrightarrow> outbox_wf t) \<and>
    (\<exists>t1 u. outbox_events t = t1 @ u \<and> list_all2 row_evolves (outbox_events s) t1)"
proof (induction rule: outbox_step.induct)
  case (enqueue env clk fresh q db i db')
  have "\<exists>u. outbox_events db' = outbox_events db @ u"
    using enqueue by (cases rule: enqueue_locked_cases) auto
  moreover have "outbox_wf db \<longrightarrow> outbox_wf db'" using enqueue_wf enqueue by blast
  ultimately show ?case using rows_refl by blast
next
  case (other db' db)
  then have "outbox_events db' = outbox_events db @ []" "outbox_wf db' = outbox_wf db"
    by (simp_all add: outbox_wf_def)
  then show ?case using rows_refl by blast
qed (rule evolves_step_facts, rule operations_evolve)+

lemma outbox_steps_wf: "outbox_step\<^sup>*\<^sup>* s t \<Longrightarrow> outbox_wf s \<Longrightarrow> outbox_wf t"
  by (induction rule: rtranclp_induct) (auto dest: outbox_step_facts)

lemma outbox_step_row:
  assumes "outbox_step s t" and "row_by ob_id i (outbox_events s) = Some r"
  shows "\<exists>r'. row_by ob_id i (outbox_events t) = Some r' \<and> row_evolves r r'"
proof -
  obtain t1 u where t: "outbox_events t = t1 @ u" "list_all2 row_evolves (outbox_events s) t1"
    using outbox_step_facts [OF assms(1)] by blast
  from evolves_row_by [OF t(2) assms(2)] show ?thesis using row_by_extend t(1) by metis
qed

lemma outbox_steps_row:
  "outbox_step\<^sup>*\<^sup>* s t \<Longrightarrow> row_by ob_id i (outbox_events s) = Some r \<Longrightarrow>
    \<exists>r'. row_by ob_id i (outbox_events t) = Some r' \<and> row_evolves r r'"
  by (induction rule: rtranclp_induct) (use outbox_step_row row_evolves_trans in \<open>force+\<close>)

lemma outbox_step_claim:
  assumes "outbox_step s t" and "outbox_claim s i = Some (g, h)"
  shows "\<exists>g' h'. outbox_claim t i = Some (g', h') \<and> (g < g' \<or> g' = g \<and> (h' = h \<or> h' = None))"
proof -
  obtain r where r: "row_by ob_id i (outbox_events s) = Some r" "g = ob_publish_generation r"
    "h = ob_publishing_owner r" using assms(2) by (auto simp: outbox_claim_def)
  from outbox_step_row [OF assms(1) r(1)] r(2,3) show ?thesis
    by (auto simp: outbox_claim_def row_evolves_def)
qed

interpretation outbox: fenced_claims outbox_step outbox_claim
  by unfold_locales (rule outbox_step_claim)

section \<open>Idempotent enqueueing\<close>

text \<open>What a dedupe key binds: the request without generated metadata, its payload as a value.\<close>

definition request_domain :: "outbox_request \<Rightarrow> outbox_request" where
  "request_domain q = q\<lparr>oq_dedupe_key := [], oq_payload := json_sort (oq_payload q),
    oq_message_id := None, oq_event_id := None, oq_created_at := None\<rparr>"

lemma same_domain_requests:
  assumes "same_domain ((request_event c1 f1 q1)\<lparr>de_payload := json_sort (oq_payload q1)\<rparr>)
    ((request_event c2 f2 q2)\<lparr>de_payload := json_sort (oq_payload q2)\<rparr>)"
  shows "request_domain q1 = request_domain q2"
  using assms by (cases q1; cases q2) (simp add: same_domain_def request_event_def request_domain_def)

lemma domain_digest_binds:
  assumes "canonical_object (de_payload e)" "canonical_object (de_payload e')"
    and "domain_event_binding_digest env e = Inr d" "domain_event_binding_digest env e' = Inr d"
  shows "same_domain e e' \<or> collision (env_sha256 env)"
proof -
  have "env_sha256 env (json_dumps (domain_envelope e)) = env_sha256 env (json_dumps (domain_envelope e'))"
    using assms(3,4) by (auto simp: domain_event_binding_digest_def canonical_json_Inr)
  then show ?thesis
    using domain_envelope_inj [OF assms(1,2)] unfolding collision_def by blast
qed

lemma request_event_canonical:
  assumes "new_durable_event env (request_event clk fresh q) = Inr e" "json_dict (oq_payload q)"
  shows "e = (request_event clk fresh q)\<lparr>de_payload := json_sort (oq_payload q)\<rparr>"
  using new_durable_event_Inr(1) [OF assms(1)] assms(2) by (simp add: request_event_def)

lemma enqueued_row:
  assumes "outbox_wf db" "enqueue_locked env clk fresh q db = Inr (i, db')" "json_dict (oq_payload q)"
  shows "\<exists>r v. row_by ob_id i (outbox_events db') = Some r \<and>
    row_by ob_dedupe_key (oq_dedupe_key q) (outbox_events db') = Some r \<and>
    canonical_object v \<and> ob_payload_json r = json_dumps v \<and>
    (same_domain (outbox_event r v) ((request_event clk fresh q)\<lparr>de_payload := json_sort (oq_payload q)\<rparr>)
     \<or> collision (env_sha256 env))"
  using assms(2,3)
proof (cases rule: enqueue_locked_cases)
  case (inserted e)
  let ?r = "new_outbox_row i e (json_dumps (de_payload e)) (py_or (oq_message_id q) (oq_aggregate_id q))"
  note e = request_event_canonical [OF inserted(1) assms(3)]
  have "i \<notin> ob_id ` set (outbox_events db)"
    using inserted(5) next_rowid_fresh [of _ "outbox_events db" ob_id] by fastforce
  then have "row_by ob_id i (outbox_events db') = Some ?r"
    using inserted(6) by (auto simp: row_by_append new_outbox_row_def row_by_None_iff [symmetric]
        simp del: sql_select_append)
  moreover have "row_by ob_dedupe_key (oq_dedupe_key q) (outbox_events db') = Some ?r"
    using inserted(3,6) e by (simp add: row_by_append new_outbox_row_def request_event_def del: sql_select_append)
  moreover have "outbox_event ?r (de_payload e) = e"
    using e by (simp add: outbox_event_def new_outbox_row_def request_event_def)
  ultimately show ?thesis
    using inserted(2) e by (intro exI [of _ ?r] exI [of _ "de_payload e"])
      (simp add: same_domain_def new_outbox_row_def)
next
  case (duplicate e r kvs st d)
  have r: "r \<in> set (outbox_events db)" using duplicate(3) by (blast dest: row_by_SomeD)
  obtain v where v: "canonical_object v" "ob_payload_json r = json_dumps v"
    using assms(1) r by (auto simp: outbox_wf_def)
  then have kvs: "JObj kvs = v" using duplicate(4) by (simp add: canonical_loads)
  have "st = outbox_event r v"
    using new_durable_event_Inr(1) [OF duplicate(5)] canonical_payload [OF v(1)] kvs
    by (simp add: outbox_event_def)
  moreover have "same_domain st e \<or> collision (env_sha256 env)"
    using domain_digest_binds [OF _ duplicate(2,6,7)] \<open>st = outbox_event r v\<close> v(1)
    by (simp add: outbox_event_def)
  moreover have "row_by ob_id i (outbox_events db') = Some r"
    using duplicate(8,9) r assms(1) row_by_unique [of ob_id "outbox_events db" r]
    by (simp add: outbox_wf_def)
  ultimately show ?thesis
    using request_event_canonical [OF duplicate(1) assms(3)] v duplicate(3,9) by auto
qed


section \<open>Claiming\<close>

lemma claimed_row_simps [simp]:
  "ob_id (claimed_row svc now ex r) = ob_id r"
  "ob_published_at (claimed_row svc now ex r) = ob_published_at r"
  "ob_publishing_owner (claimed_row svc now ex r) = Some (os_instance_id svc)"
  "ob_publishing_lease_expires_at (claimed_row svc now ex r) = Some ex"
  "ob_publish_generation (claimed_row svc now ex r) = ob_publish_generation r + 1"
  by (simp_all add: claimed_row_def)

lemma sql_update_cong: "(\<And>r. r \<in> set t \<Longrightarrow> P r = Q r) \<Longrightarrow> sql_update P f t = sql_update Q f t"
  by (simp add: sql_update_def)

lemma claim_candidate_hit:
  assumes "distinct (map ob_id (outbox_events db))" "c \<in> set (outbox_events db)" "claimable now c"
  shows "\<exists>db'. claim_candidate env svc now ex c (cl, db) = (cl @ [ob_id c], db') \<and>
    outbox_events db' = sql_update (\<lambda>r. r = c) (claimed_row svc now ex) (outbox_events db)"
proof -
  let ?mine = "\<lambda>r. ob_id r = ob_id c \<and> ob_publish_generation r = ob_publish_generation c \<and> claimable now r"
  have "?mine r = (r = c)" if "r \<in> set (outbox_events db)" for r
    using assms that distinct_key_eq [OF assms(1)] by blast
  then have "sql_update ?mine (claimed_row svc now ex) (outbox_events db) =
    sql_update (\<lambda>r. r = c) (claimed_row svc now ex) (outbox_events db)" by (rule sql_update_cong)
  moreover have "sql_rowcount ?mine (outbox_events db) = 1"
    by (rule sql_rowcount_key [OF assms(1,2)]) (use assms(3) in auto)
  ultimately show ?thesis by (simp add: claim_candidate_def Let_def)
qed

text \<open>A loop over rows of the table, each step of which rewrites its own row.\<close>

lemma fold_rows:
  assumes hit: "\<And>c x db. distinct (map ob_id (outbox_events db)) \<Longrightarrow> c \<in> set (outbox_events db) \<Longrightarrow> P c \<Longrightarrow>
      \<exists>db'. f c (x, db) = (add c x, db') \<and> outbox_events db' = sql_update (\<lambda>r. r = c) F (outbox_events db)"
    and key: "\<And>r. ob_id (F r) = ob_id r"
    and "distinct (map ob_id (outbox_events db))" "set cs \<subseteq> set (outbox_events db)"
    and "\<forall>c \<in> set cs. P c" "distinct cs"
  shows "\<exists>db'. fold f cs (x, db) = (fold add cs x, db') \<and>
    outbox_events db' = sql_update (\<lambda>r. r \<in> set cs) F (outbox_events db)"
  using assms(3-)
proof (induction cs arbitrary: db x)
  case Nil
  then show ?case by (simp add: sql_update_id)
next
  case (Cons c cs)
  obtain db1 where db1: "f c (x, db) = (add c x, db1)"
    "outbox_events db1 = sql_update (\<lambda>r. r = c) F (outbox_events db)"
    using hit [of db c x] Cons.prems by auto
  have ids: "map ob_id (outbox_events db1) = map ob_id (outbox_events db)"
    using db1(2) key by (simp add: map_sql_update)
  have sub: "set cs \<subseteq> set (outbox_events db1)"
    using Cons.prems(2,4) db1(2) by (fastforce simp: sql_update_def)
  obtain db2 where db2: "fold f cs (add c x, db1) = (fold add cs (add c x), db2)"
    "outbox_events db2 = sql_update (\<lambda>r. r \<in> set cs) F (outbox_events db1)"
    using Cons.IH [of db1 "add c x"] Cons.prems ids sub by auto
  have "F c \<notin> set cs"
  proof
    assume "F c \<in> set cs"
    then have "F c = c"
      using Cons.prems(1,2) distinct_key_eq [of ob_id "outbox_events db" "F c" c] key by auto
    with \<open>F c \<in> set cs\<close> Cons.prems(4) show False by simp
  qed
  then have "outbox_events db2 = sql_update (\<lambda>r. r \<in> set (c # cs)) F (outbox_events db)"
    using db2(2) db1(2) by (auto simp: sql_update_def)
  with db1(1) db2(1) show ?case by simp
qed

lemma fold_append_map: "fold (\<lambda>c x. x @ [h c]) cs x = x @ map h cs"
  by (induction cs arbitrary: x) auto

lemma fold_claim:
  assumes "distinct (map ob_id (outbox_events db))" "set cs \<subseteq> set (outbox_events db)"
    and "\<forall>c \<in> set cs. claimable now c" "distinct cs"
  shows "\<exists>db'. fold (claim_candidate env svc now ex) cs (cl, db) = (cl @ map ob_id cs, db') \<and>
    outbox_events db' = sql_update (\<lambda>r. r \<in> set cs) (claimed_row svc now ex) (outbox_events db)"
  unfolding fold_append_map [symmetric]
  by (rule fold_rows [where P = "claimable now", OF _ _ assms]) (simp_all add: claim_candidate_hit)

lemma for_each_fetch:
  assumes "\<forall>c \<in> set cs. row_by ob_id (ob_id c) (outbox_events db) = Some (F c)"
  shows "for_each (\<lambda>i rows. case row_by ob_id i (outbox_events db) of
        None \<Rightarrow> Inl (RuntimeError ''claimed outbox event disappeared'')
      | Some r \<Rightarrow> Inr (rows @ [r])) (map ob_id cs) acc = Inr (acc @ map F cs)"
  using assms by (induction cs arbitrary: acc) auto

text \<open>The rows a batch takes: the oldest claimable ones, up to the bound.\<close>

definition batch_candidates :: "string \<Rightarrow> int \<Rightarrow> 'z outbox_db_scheme \<Rightarrow> outbox_row list" where
  "batch_candidates now limit db =
    take (bounded_limit 500 limit) (sort_key ob_id (sql_select (claimable now) (outbox_events db)))"

lemma batch_candidates_facts:
  assumes "outbox_wf db" and "c \<in> set (batch_candidates now limit db)"
  shows "c \<in> set (outbox_events db)" "claimable now c"
  using set_take_subset [of "bounded_limit 500 limit" "sort_key ob_id (sql_select (claimable now) (outbox_events db))"]
    assms(2) by (auto simp: batch_candidates_def)

lemma batch_candidates_distinct:
  assumes "outbox_wf db"
  shows "distinct (batch_candidates now limit db)"
proof -
  have "distinct (sql_select (claimable now) (outbox_events db))"
    using assms by (simp add: outbox_wf_def sql_select_def distinct_map)
  then show ?thesis by (simp add: batch_candidates_def)
qed

lemma guarded_cong:
  "mutation db = mutation' db \<Longrightarrow> guarded lsvc m g mutation db = guarded lsvc m g mutation' db"
  by (cases g) (auto simp: guarded_def guard_run_locked_def transaction_def split: sum.split prod.split)

lemma claim_batch_Inr:
  assumes "outbox_wf db" and "claim_batch env svc lsvc limit m g db = (Inr rows, g', db')"
  shows "\<exists>t u. outbox_utc (mo_clock m) = Inr t \<and> dt_add_seconds t (os_lease_seconds svc) = Inr u \<and>
    rows = map (claimed_row svc (isoformat t) (isoformat u)) (batch_candidates (isoformat t) limit db) \<and>
    outbox_events db' = sql_update (\<lambda>r. r \<in> set (batch_candidates (isoformat t) limit db))
      (claimed_row svc (isoformat t) (isoformat u)) (outbox_events db)"
proof -
  obtain t u where tu: "outbox_utc (mo_clock m) = Inr t" "dt_add_seconds t (os_lease_seconds svc) = Inr u"
    using assms(2) by (auto simp: claim_batch_def split: sum.split_asm)
  let ?cs = "batch_candidates (isoformat t) limit db"
  let ?F = "claimed_row svc (isoformat t) (isoformat u)"
  have wf: "distinct (map ob_id (outbox_events db))" using assms(1) by (simp add: outbox_wf_def)
  obtain db1 where db1: "fold (claim_candidate env svc (isoformat t) (isoformat u)) ?cs ([], db) =
      (map ob_id ?cs, db1)" "outbox_events db1 = sql_update (\<lambda>r. r \<in> set ?cs) ?F (outbox_events db)"
    using fold_claim [OF wf, of ?cs "isoformat t" env svc "isoformat u" "[]"]
      batch_candidates_facts [OF assms(1)] batch_candidates_distinct [OF assms(1)] by auto
  have "row_by ob_id (ob_id c) (outbox_events db1) = Some (?F c)" if "c \<in> set ?cs" for c
    using that row_by_unique [OF wf batch_candidates_facts(1) [OF assms(1) that]] db1(2)
    by (simp add: row_by_sql_update)
  then have "fetch_claimed (map ob_id ?cs) db1 = Inr (map ?F ?cs)"
    unfolding fetch_claimed_def using for_each_fetch [of ?cs db1 ?F "[]"] by simp
  moreover have "guarded lsvc m g (\<lambda>db. and_then (fetch_claimed (map ob_id ?cs) db1) (\<lambda>rows. Inr (rows, db1))) db =
    guarded lsvc m g (\<lambda>db. let candidates = batch_candidates (isoformat t) limit db;
        (claimed, db') = fold (claim_candidate env svc (isoformat t) (isoformat u)) candidates ([], db)
      in and_then (fetch_claimed claimed db') (\<lambda>rows. Inr (rows, db'))) db"
    by (rule guarded_cong) (simp add: db1(1))
  ultimately have "guarded lsvc m g (\<lambda>db. Inr (map ?F ?cs, db1)) db = (Inr rows, g', db')"
    using assms(2) tu by (simp add: claim_batch_def batch_candidates_def)
  then have "rows = map ?F ?cs \<and> db' = db1" by (auto elim: guarded_cases)
  then show ?thesis using tu db1(2) by blast
qed

text \<open>
  C8. A claim takes the oldest claimable rows: it returns at most the bound (never more than
  500), each with this publisher as owner, the lease it was given and the next generation, writes
  exactly these rows, and leaves a claimable row behind only if the batch is full and every row
  it took is older.
\<close>

theorem claim_batch_takes_oldest:
  assumes "outbox_wf db" and "claim_batch env svc lsvc limit m g db = (Inr rows, g', db')"
  shows "\<exists>t u cs. outbox_utc (mo_clock m) = Inr t \<and> dt_add_seconds t (os_lease_seconds svc) = Inr u \<and>
    rows = map (claimed_row svc (isoformat t) (isoformat u)) cs \<and> set cs \<subseteq> set (outbox_events db) \<and>
    outbox_events db' = sql_update (\<lambda>r. r \<in> set cs) (claimed_row svc (isoformat t) (isoformat u)) (outbox_events db) \<and>
    length rows \<le> bounded_limit 500 limit \<and> (\<forall>c \<in> set cs. claimable (isoformat t) c) \<and>
    (\<forall>r \<in> set (outbox_events db). claimable (isoformat t) r \<and> r \<notin> set cs \<longrightarrow>
       length rows = bounded_limit 500 limit \<and> (\<forall>c \<in> set cs. ob_id c \<le> ob_id r))"
proof -
  obtain t u where tu: "outbox_utc (mo_clock m) = Inr t" "dt_add_seconds t (os_lease_seconds svc) = Inr u"
    "rows = map (claimed_row svc (isoformat t) (isoformat u)) (batch_candidates (isoformat t) limit db)"
    "outbox_events db' = sql_update (\<lambda>r. r \<in> set (batch_candidates (isoformat t) limit db))
      (claimed_row svc (isoformat t) (isoformat u)) (outbox_events db)"
    using claim_batch_Inr [OF assms] by blast
  let ?n = "bounded_limit 500 limit"
  let ?all = "sort_key ob_id (sql_select (claimable (isoformat t)) (outbox_events db))"
  let ?cs = "batch_candidates (isoformat t) limit db"
  have cs: "?cs = take ?n ?all" by (simp add: batch_candidates_def)
  have "length ?cs = ?n \<and> (\<forall>c \<in> set ?cs. ob_id c \<le> ob_id r)"
    if "r \<in> set (outbox_events db)" "claimable (isoformat t) r" "r \<notin> set ?cs" for r
  proof -
    have split: "?all = ?cs @ drop ?n ?all" unfolding cs by (rule append_take_drop_id [symmetric])
    have "r \<in> set ?all" using that by simp
    then have r: "r \<in> set (drop ?n ?all)" using that(3) by (metis split Un_iff set_append)
    then have "length ?cs = ?n" unfolding cs by (cases "length ?all \<le> ?n") auto
    moreover have "sorted (map ob_id (?cs @ drop ?n ?all))" by (metis split sorted_sort_key)
    ultimately show ?thesis using r by (auto simp: sorted_append)
  qed
  moreover have "length ?cs \<le> ?n" by (simp add: batch_candidates_def)
  ultimately show ?thesis
    using tu batch_candidates_facts [OF assms(1)]
    by (intro exI [of _ t] exI [of _ u] exI [of _ ?cs]) auto
qed

lemma claimed_row_in_table:
  assumes "outbox_wf db" and "claim_batch env svc lsvc limit m g db = (Inr rows, g', db')" and "r \<in> set rows"
  shows "row_by ob_id (ob_id r) (outbox_events db') = Some r" "ob_publishing_owner r = Some (os_instance_id svc)"
    "ob_published_at r = None"
    "\<exists>t u old. outbox_utc (mo_clock m) = Inr t \<and> dt_add_seconds t (os_lease_seconds svc) = Inr u \<and>
       ob_publishing_lease_expires_at r = Some (isoformat u) \<and>
       row_by ob_id (ob_id r) (outbox_events db) = Some old \<and> claimable (isoformat t) old \<and>
       r = claimed_row svc (isoformat t) (isoformat u) old"
proof -
  obtain t u where tu: "outbox_utc (mo_clock m) = Inr t" "dt_add_seconds t (os_lease_seconds svc) = Inr u"
    "rows = map (claimed_row svc (isoformat t) (isoformat u)) (batch_candidates (isoformat t) limit db)"
    "outbox_events db' = sql_update (\<lambda>r. r \<in> set (batch_candidates (isoformat t) limit db))
      (claimed_row svc (isoformat t) (isoformat u)) (outbox_events db)"
    using claim_batch_Inr [OF assms(1,2)] by blast
  obtain c where c: "c \<in> set (batch_candidates (isoformat t) limit db)"
    "r = claimed_row svc (isoformat t) (isoformat u) c" using assms(3) tu(3) by auto
  note f = batch_candidates_facts [OF assms(1) c(1)]
  have old: "row_by ob_id (ob_id c) (outbox_events db) = Some c"
    using f(1) assms(1) row_by_unique [of ob_id "outbox_events db" c] by (simp add: outbox_wf_def)
  then show "row_by ob_id (ob_id r) (outbox_events db') = Some r"
    using c tu(4) by (simp add: row_by_sql_update)
  show "ob_publishing_owner r = Some (os_instance_id svc)" "ob_published_at r = None"
    using c(2) f(2) by (simp_all add: claimable_def)
  show "\<exists>t u old. outbox_utc (mo_clock m) = Inr t \<and> dt_add_seconds t (os_lease_seconds svc) = Inr u \<and>
       ob_publishing_lease_expires_at r = Some (isoformat u) \<and>
       row_by ob_id (ob_id r) (outbox_events db) = Some old \<and> claimable (isoformat t) old \<and>
       r = claimed_row svc (isoformat t) (isoformat u) old"
    using tu(1,2) c(2) old f(2) by auto
qed

lemma claimed_row_claim:
  assumes "outbox_wf db" and "claim_batch env svc lsvc limit m g db = (Inr rows, g', db')" and "r \<in> set rows"
  shows "outbox_claim db' (ob_id r) = Some (ob_publish_generation r, Some (os_instance_id svc))"
  using claimed_row_in_table [OF assms] by (simp add: outbox_claim_def)

lemma claim_raises_generation:
  assumes "outbox_wf db" and "claim_batch env svc lsvc limit m g db = (Inr rows, g', db')" and "r \<in> set rows"
    and "outbox_claim db (ob_id r) = Some (gn, h)"
  shows "gn < ob_publish_generation r"
  using claimed_row_in_table(4) [OF assms(1-3)] assms(4) by (auto simp: outbox_claim_def)

text \<open>
  C9. A claim excludes other publishers for its lease: for as long as the claim stands, no batch
  whose clock reads before the end of its lease takes the row again, whatever ran in between.
\<close>

theorem claim_excludes_other_publishers:
  assumes "outbox_wf s0" and "claim_batch env1 svc1 lsvc1 limit1 m1 g1 s0 = (Inr rows1, g1', s1)"
    and "r1 \<in> set rows1" and "outbox_step\<^sup>*\<^sup>* s1 s2"
    and "outbox_claim s2 (ob_id r1) = Some (ob_publish_generation r1, Some (os_instance_id svc1))"
    and "claim_batch env2 svc2 lsvc2 limit2 m2 g2 s2 = (Inr rows2, g2', s3)"
    and "dt_instant (mo_clock m2) < max_instant"
    and "int (dt_instant (mo_clock m2)) < int (dt_instant (mo_clock m1)) + os_lease_seconds svc1 * int us_per_second"
  shows "ob_id r1 \<notin> ob_id ` set rows2"
proof
  assume "ob_id r1 \<in> ob_id ` set rows2"
  then obtain r2 where r2: "r2 \<in> set rows2" "ob_id r2 = ob_id r1" by auto
  have wf2: "outbox_wf s2"
    by (rule outbox_steps_wf [OF assms(4)])
      (use claim_batch_evolves [of s0 env1 svc1 lsvc1 limit1 m1 g1] assms(1,2) in \<open>auto intro: outbox_evolves_wf\<close>)
  obtain t1 u1 where t1: "outbox_utc (mo_clock m1) = Inr t1" "dt_add_seconds t1 (os_lease_seconds svc1) = Inr u1"
    "ob_publishing_lease_expires_at r1 = Some (isoformat u1)"
    using claimed_row_in_table(4) [OF assms(1-3)] by blast
  obtain t2 old where t2: "outbox_utc (mo_clock m2) = Inr t2" "claimable (isoformat t2) old"
    "row_by ob_id (ob_id r1) (outbox_events s2) = Some old"
    using claimed_row_in_table(4) [OF wf2 assms(6) r2(1)] r2(2) by auto
  obtain r where "row_by ob_id (ob_id r1) (outbox_events s2) = Some r" "row_evolves r1 r"
    using outbox_steps_row [OF assms(4) claimed_row_in_table(1) [OF assms(1-3)]] by blast
  then have "old = r1"
    using t2(3) assms(5) by (auto simp: row_evolves_def outbox_claim_def)
  then have "isoformat u1 \<le> isoformat t2"
    using t2(2) t1(3) claimed_row_in_table(2) [OF assms(1-3)] by (auto simp: claimable_def)
  moreover have "t1 = dt_instant (mo_clock m1)" "t2 = dt_instant (mo_clock m2)"
    using t1(1) t2(1) by (auto simp: outbox_utc_def split: if_split_asm)
  ultimately show False
    using dt_add_seconds_Inr [OF t1(2)] assms(7,8) by (simp add: isoformat_le_iff)
qed

lemma update_held_lost:
  assumes "\<And>r. r \<in> set (outbox_events db) \<Longrightarrow> \<not> P r"
  shows "update_held P f db = Inr (False, db)"
proof -
  have "sql_rowcount P (outbox_events db) = 0" using assms by (simp add: sql_rowcount_0_iff)
  then show ?thesis by (simp add: update_held_def sql_update_none)
qed

lemma guarded_unchanged:
  assumes "mutation db = Inr (a, db)"
  shows "snd (snd (guarded lsvc m g mutation db)) = db \<and>
    (fst (guarded lsvc m g mutation db) = Inr a \<or> (\<exists>e. fst (guarded lsvc m g mutation db) = Inl e))"
proof -
  obtain r g' db' where run: "guarded lsvc m g mutation db = (r, g', db')" by (metis prod_cases3)
  then show ?thesis by (cases rule: guarded_cases) (use assms run in auto)
qed

lemma not_held:
  assumes "outbox_wf db" "outbox_claim db i \<noteq> Some (gn, Some ow)" "r \<in> set (outbox_events db)"
  shows "\<not> held i ow gn r"
  using assms row_by_unique [of ob_id "outbox_events db" r]
  by (auto simp: held_def outbox_claim_def outbox_wf_def)

definition refused :: "(py_error + bool) \<times> 'g \<times> 'db \<Rightarrow> 'db \<Rightarrow> bool" where
  "refused result db \<longleftrightarrow> snd (snd result) = db \<and> (fst result = Inr False \<or> (\<exists>e. fst result = Inl e))"

lemma guarded_refused:
  assumes "\<And>r. r \<in> set (outbox_events db) \<Longrightarrow> \<not> P r"
  shows "refused (guarded lsvc m g (update_held P f) db) db"
  using guarded_unchanged [of "update_held P f" db False lsvc m g, OF update_held_lost [OF assms]]
  by (simp add: refused_def)

lemma refused_error: "refused (Inl e, g, db) db"
  by (simp add: refused_def)

text \<open>
  C10. Fencing. Once another batch has taken a row, whoever held the earlier claim can neither
  mark it published, nor fail it, nor release it, in any later state: the operation reports
  that it changed nothing (or fails) and the database stays as it was.
\<close>

theorem stale_publisher_changes_nothing:
  assumes "outbox_wf s0" and "claim_batch env1 svc1 lsvc1 limit1 m1 g1 s0 = (Inr rows1, g1', s1)" and "r1 \<in> set rows1"
    and "outbox_step\<^sup>*\<^sup>* s1 s2" and "claim_batch env2 svc2 lsvc2 limit2 m2 g2 s2 = (Inr rows2, g2', s3)"
    and "ob_id r1 \<in> ob_id ` set rows2" and "outbox_step\<^sup>*\<^sup>* s3 s4"
  shows "refused (mark_published svc1 lsvc1 (ob_id r1) (Some (os_instance_id svc1)) (Some (ob_publish_generation r1)) m g s4) s4 \<and>
    refused (release_or_fail lsvc1 (ob_id r1) (os_instance_id svc1) (ob_publish_generation r1) e m g s4) s4 \<and>
    refused (release_claim lsvc1 (ob_id r1) (os_instance_id svc1) (ob_publish_generation r1) m g s4) s4"
proof -
  have wf1: "outbox_wf s1"
    using outbox_evolves_wf [OF claim_batch_evolves assms(1), of env1 svc1 lsvc1 limit1 m1 g1] assms(2) by simp
  have wf2: "outbox_wf s2" by (rule outbox_steps_wf [OF assms(4) wf1])
  have wf3: "outbox_wf s3"
    using outbox_evolves_wf [OF claim_batch_evolves wf2, of env2 svc2 lsvc2 limit2 m2 g2] assms(5) by simp
  have wf4: "outbox_wf s4" by (rule outbox_steps_wf [OF assms(7) wf3])
  obtain r2 where r2: "r2 \<in> set rows2" "ob_id r2 = ob_id r1" using assms(6) by auto
  note c1 = claimed_row_claim [OF assms(1-3)]
  note c3 = claimed_row_claim [OF wf2 assms(5) r2(1), unfolded r2(2)]
  obtain gn h where c2: "outbox_claim s2 (ob_id r1) = Some (gn, h)"
    using outbox.claim_steps [OF assms(4) c1] by blast
  have "ob_publish_generation r1 < ob_publish_generation r2"
    using outbox.generation_mono [OF assms(4) c1 c2]
      claim_raises_generation [OF wf2 assms(5) r2(1)] c2 r2(2) by fastforce
  then have "outbox_claim s4 (ob_id r1) \<noteq> Some (ob_publish_generation r1, Some (os_instance_id svc1))"
    using outbox.lost_forever [OF assms(7) c3] by blast
  note nh = not_held [OF wf4 this]
  have "py_or (Some (os_instance_id svc1)) (os_instance_id svc1) = os_instance_id svc1"
    by (simp add: py_or_def or_empty_def)
  then show ?thesis
    unfolding mark_published_def release_or_fail_def release_claim_def
    using nh by (auto intro!: guarded_refused refused_error split: sum.split)
qed

section \<open>Concrete instances\<close>

definition demo_request :: outbox_request where
  "demo_request = \<lparr>oq_aggregate_type = ''task'', oq_aggregate_id = ''t1'', oq_topic = ''tasks.created'',
    oq_event_type = ''created'', oq_payload = JObj [(''k'', JStr [])], oq_dedupe_key = ''k1'',
    oq_task_id = Some ''t1'', oq_agent_id = None, oq_message_id = None, oq_event_id = Some ''evt_1'',
    oq_created_at = Some ''2026-01-01''\<rparr>"

definition demo_outbox_db :: "outbox_row list \<Rightarrow> outbox_db" where
  "demo_outbox_db rows = \<lparr>control_plane_instances = [], maintenance_leases = [], audit_events = [],
    message_board_events = [], outbox_events = rows, outbox_metrics_singleton = None\<rparr>"

definition demo_outbox_row :: outbox_row where
  "demo_outbox_row = new_outbox_row 1 (demo_durable []) (json_dumps (de_payload (demo_durable []))) ''t1''"

definition demo_publisher :: "string \<Rightarrow> outbox_service" where
  "demo_publisher i = \<lparr>os_instance_id = i, os_lease_seconds = 5\<rparr>"

definition demo_moment :: "nat \<Rightarrow> outbox_db moment" where
  "demo_moment t = \<lparr>mo_clock = demo_clock t, mo_fence1 = demo_clock t, mo_fence2 = demo_clock t,
    mo_latency_ms = 0, mo_rows = 1, mo_others = (\<lambda>d. d)\<rparr>"

lemma demo_request_event: "request_event 0 [] demo_request = demo_durable []"
  by (simp add: request_event_def demo_request_def demo_durable_def event_schema_version_def py_or_def or_empty_def)

lemma demo_event_valid: "new_durable_event demo_env (demo_durable []) = Inr (demo_durable [])"
proof -
  have "canonical_json (de_payload (demo_durable [])) = Inr (json_dumps (de_payload (demo_durable [])))"
    using demo_payload_short by (simp add: canonical_json_Inr)
  moreover have "json_loads (json_dumps (de_payload (demo_durable []))) = Some (de_payload (demo_durable []))"
    by (rule canonical_loads [OF demo_canonical])
  ultimately show ?thesis
    using demo_safe [of "[]"]
    by (simp add: new_durable_event_def required_ok_def demo_durable_def demo_env_def
        event_schema_version_def py_len_def)
qed

lemma demo_enqueue: "enqueue_locked demo_env 0 [] demo_request (demo_outbox_db []) =
    Inr (1, demo_outbox_db [demo_outbox_row])"
proof -
  have "oq_payload demo_request = de_payload (demo_durable [])" "oq_dedupe_key demo_request = ''k1''"
    "oq_aggregate_id demo_request = ''t1''" "oq_message_id demo_request = None"
    "oq_aggregate_type demo_request \<noteq> []" "oq_topic demo_request \<noteq> []" "oq_event_type demo_request \<noteq> []"
    by (simp_all add: demo_request_def demo_durable_def)
  then show ?thesis
    using demo_safe [of "[]"] demo_payload_short
    by (simp add: enqueue_locked_def demo_request_event demo_event_valid demo_outbox_db_def table_simps
        next_rowid_def demo_outbox_row_def max_event_bytes_def py_or_def or_empty_def)
qed

lemma demo_row_event: "outbox_event demo_outbox_row (de_payload (demo_durable [])) = demo_durable []"
  by (simp add: outbox_event_def demo_outbox_row_def new_outbox_row_def demo_durable_def event_schema_version_def)

lemma demo_outbox_wf: "outbox_wf (demo_outbox_db [])" "outbox_wf (demo_outbox_db [demo_outbox_row])"
  using demo_canonical [of "[]"]
  by (auto simp: outbox_wf_def demo_outbox_db_def demo_outbox_row_def new_outbox_row_def simp del: json_dumps.simps)

lemma demo_enqueue_again: "enqueue_locked demo_env 0 [] demo_request (demo_outbox_db [demo_outbox_row]) =
    Inr (1, demo_outbox_db [demo_outbox_row])"
proof -
  have "oq_payload demo_request = de_payload (demo_durable [])" "oq_dedupe_key demo_request = ''k1''"
    "oq_aggregate_id demo_request \<noteq> []" 
    "oq_aggregate_type demo_request \<noteq> []" "oq_topic demo_request \<noteq> []" "oq_event_type demo_request \<noteq> []"
    by (simp_all add: demo_request_def demo_durable_def)
  moreover have "row_by ob_dedupe_key ''k1'' [demo_outbox_row] = Some demo_outbox_row" "ob_id demo_outbox_row = 1"
    by (simp_all add: table_simps demo_outbox_row_def new_outbox_row_def demo_durable_def)
  moreover have "json_loads (ob_payload_json demo_outbox_row) = Some (de_payload (demo_durable []))"
    using canonical_loads [OF demo_canonical] by (simp add: demo_outbox_row_def new_outbox_row_def del: json_dumps.simps)
  moreover obtain kvs where "de_payload (demo_durable []) = JObj kvs" by (simp add: demo_durable_def)
  moreover have "domain_event_binding_digest demo_env (demo_durable []) =
      Inr (''sha256:'' @ env_sha256 demo_env (json_dumps (domain_envelope (demo_durable []))))"
    by (simp add: domain_event_binding_digest_def canonical_json_def domain_envelope_def dump_pairs_def
        json_quote_def escape_char_def json_opt_def max_event_bytes_def demo_durable_def)
  ultimately show ?thesis
    using demo_safe [of "[]"] demo_payload_short demo_row_event
    by (simp add: enqueue_locked_def demo_request_event demo_event_valid demo_outbox_db_def max_event_bytes_def)
qed


definition demo_claimed :: "outbox_row" where
  "demo_claimed = claimed_row (demo_publisher ''pub_a'') (isoformat 0) (isoformat 5000000) demo_outbox_row"

lemma demo_utc [simp]: "outbox_utc (demo_clock t) = Inr t" "mo_others (demo_moment t) d = d"
    "mo_clock (demo_moment t) = demo_clock t"
  by (simp_all add: demo_moment_def demo_clock_def outbox_utc_def)

lemma demo_lease_end: "t \<le> 5000000 \<Longrightarrow> dt_add_seconds t (os_lease_seconds (demo_publisher i)) = Inr (t + 5000000)"
  by (simp add: demo_publisher_def dt_add_seconds_def us_per_second_def max_instant_def us_per_day_def Let_def
      nat_add_distrib)

lemma demo_row_fields [simp]: "ob_id demo_outbox_row = 1" "ob_published_at demo_outbox_row = None"
    "ob_publishing_owner demo_outbox_row = None" "ob_publish_generation demo_outbox_row = 0"
    "ob_publishing_lease_expires_at demo_outbox_row = None"
  by (simp_all add: demo_outbox_row_def new_outbox_row_def)

lemma demo_bound: "bounded_limit 500 10 = 10"
  by (simp add: bounded_limit_def)

lemma demo_claim:
  "claim_batch demo_env (demo_publisher ''pub_a'') demo_lease_service 10 (demo_moment 0) None
      (demo_outbox_db [demo_outbox_row]) = (Inr [demo_claimed], None, demo_outbox_db [demo_claimed])"
  by (simp add: claim_batch_def demo_lease_end guarded_def transaction_def demo_bound demo_outbox_db_def
      table_simps claimable_def claim_candidate_def fetch_claimed_def Let_def demo_claimed_def)

lemma demo_claimed_fields [simp]: "ob_id demo_claimed = 1" "ob_published_at demo_claimed = None"
    "ob_publishing_owner demo_claimed = Some ''pub_a''" "ob_publish_generation demo_claimed = 1"
    "ob_publishing_lease_expires_at demo_claimed = Some (isoformat 5000000)"
  by (simp_all add: demo_claimed_def demo_publisher_def)

lemma demo_second_claim:
  "\<exists>r db'. claim_batch demo_env (demo_publisher ''pub_b'') demo_lease_service 10 (demo_moment 5000000) None
      (demo_outbox_db [demo_claimed]) = (Inr [r], None, db') \<and> ob_id r = 1"
  by (simp add: claim_batch_def demo_lease_end guarded_def transaction_def demo_bound demo_outbox_db_def
      table_simps claimable_def claim_candidate_def fetch_claimed_def Let_def)

lemma claim_batch_takes_oldest_witness:
  "\<exists>t u cs. [demo_claimed] = map (claimed_row (demo_publisher ''pub_a'') (isoformat t) (isoformat u)) cs \<and>
    length cs = 1"
  using claim_batch_takes_oldest [OF demo_outbox_wf(2) demo_claim] by (metis One_nat_def length_Cons length_map list.size(3))

text \<open>Of two events the first is claimed; a second publisher, a second later, gets the other one only.\<close>

definition demo_other_row :: "outbox_row" where
  "demo_other_row = demo_outbox_row\<lparr>ob_id := 2, ob_event_id := ''e2'', ob_dedupe_key := ''k2''\<rparr>"

definition demo_other_claimed :: "outbox_row" where
  "demo_other_claimed = claimed_row (demo_publisher ''pub_b'') (isoformat 1000000) (isoformat 6000000) demo_other_row"

lemma demo_other_fields [simp]: "ob_id demo_other_row = 2" "ob_published_at demo_other_row = None"
    "ob_publishing_owner demo_other_row = None" "ob_publish_generation demo_other_row = 0"
  by (simp_all add: demo_other_row_def)

lemma demo_one_of_two:
  "claim_batch demo_env (demo_publisher ''pub_a'') demo_lease_service 1 (demo_moment 0) None
      (demo_outbox_db [demo_outbox_row, demo_other_row]) = (Inr [demo_claimed], None, demo_outbox_db [demo_claimed, demo_other_row])"
  by (simp add: claim_batch_def demo_lease_end guarded_def transaction_def bounded_limit_def demo_outbox_db_def
      table_simps claimable_def claim_candidate_def fetch_claimed_def Let_def demo_claimed_def)

lemma demo_rest_of_two:
  "claim_batch demo_env (demo_publisher ''pub_b'') demo_lease_service 10 (demo_moment 1000000) None
      (demo_outbox_db [demo_claimed, demo_other_row]) = (Inr [demo_other_claimed], None, demo_outbox_db [demo_claimed, demo_other_claimed])"
  by (simp add: claim_batch_def demo_lease_end guarded_def transaction_def demo_bound demo_outbox_db_def
      table_simps claimable_def claim_candidate_def fetch_claimed_def Let_def demo_other_claimed_def)

lemma claim_excludes_other_publishers_witness:
  "\<exists>claimed db1 rows db2.
    claim_batch demo_env (demo_publisher ''pub_a'') demo_lease_service 1 (demo_moment 0) None
      (demo_outbox_db [demo_outbox_row, demo_other_row]) = (Inr [claimed], None, db1) \<and>
    claim_batch demo_env (demo_publisher ''pub_b'') demo_lease_service 10 (demo_moment 1000000) None db1 =
      (Inr rows, None, db2) \<and> length rows = 1 \<and>
    outbox_claim db1 (ob_id claimed) = Some (ob_publish_generation claimed, Some ''pub_a'') \<and>
    ob_id claimed \<notin> ob_id ` set rows"
proof -
  let ?db = "demo_outbox_db [demo_outbox_row, demo_other_row]" and ?db1 = "demo_outbox_db [demo_claimed, demo_other_row]"
  have wf: "outbox_wf ?db" using demo_canonical [of "[]"]
    by (auto simp: outbox_wf_def demo_outbox_db_def demo_other_row_def demo_outbox_row_def new_outbox_row_def demo_durable_def
        simp del: json_dumps.simps)
  have c: "outbox_claim ?db1 (ob_id demo_claimed) = Some (ob_publish_generation demo_claimed, Some ''pub_a'')"
    by (simp add: outbox_claim_def demo_outbox_db_def table_simps)
  moreover have "ob_id demo_claimed \<notin> ob_id ` set [demo_other_claimed]"
    by (rule claim_excludes_other_publishers [OF wf demo_one_of_two _ rtranclp.rtrancl_refl _ demo_rest_of_two])
      (use c in \<open>simp_all add: demo_publisher_def demo_clock_def us_per_second_def max_instant_def us_per_day_def\<close>)
  moreover have "length [demo_other_claimed] = 1" by simp
  ultimately show ?thesis using demo_one_of_two demo_rest_of_two by blast
qed

lemma stale_publisher_changes_nothing_witness:
  "\<exists>r db'. claim_batch demo_env (demo_publisher ''pub_b'') demo_lease_service 10 (demo_moment 5000000) None
      (demo_outbox_db [demo_claimed]) = (Inr [r], None, db') \<and>
    refused (mark_published (demo_publisher ''pub_a'') demo_lease_service 1 (Some ''pub_a'') (Some 1)
      (demo_moment 6000000) None db') db'"
proof -
  obtain r db' where run: "claim_batch demo_env (demo_publisher ''pub_b'') demo_lease_service 10
      (demo_moment 5000000) None (demo_outbox_db [demo_claimed]) = (Inr [r], None, db')" "ob_id r = 1"
    using demo_second_claim by blast
  have "ob_id demo_claimed \<in> ob_id ` set [r]" using run(2) by simp
  from stale_publisher_changes_nothing [OF demo_outbox_wf(2) demo_claim _ rtranclp.rtrancl_refl run(1) this
      rtranclp.rtrancl_refl, THEN conjunct1, of "demo_moment 6000000" None]
  show ?thesis using run(1) by (auto simp: demo_publisher_def)
qed

end
