(* ===== verification/Outbox_Delivery.thy ===== *)
theory Outbox_Delivery
  imports Outbox_Claims
begin

text \<open>
  Delivery: against the interface every board adapter meets, a row is marked published only when
  its event is on the board; the SQLite board meets it. Recovery of expired claims ends.
\<close>

text \<open>Marking a row leaves every other row alone.\<close>

lemma marked_other_row:
  assumes "j \<noteq> i"
  shows "row_by ob_id j (outbox_events (snd (snd (mark_published svc lsvc i ow gn m g db)))) =
    row_by ob_id j (outbox_events db)"
proof -
  have *: "row_by ob_id j (outbox_events db') = row_by ob_id j (outbox_events db)"
    if "update_held (\<lambda>r. held i o' g' r \<and> Q r) (\<lambda>r. (clear_claim r)\<lparr>ob_published_at := p, ob_last_error := None\<rparr>) db
      = Inr (a, db')" for o' g' Q p a db'
    using that assms
    by (cases "row_by ob_id j (outbox_events db)")
      (auto simp: update_held_def row_by_sql_update held_def clear_claim_def dest: row_by_SomeD)
  show ?thesis
    unfolding mark_published_def
    by (auto split: option.split sum.split
        intro!: guarded_rel [of _ _ "\<lambda>d d'. row_by ob_id j (outbox_events d') = row_by ob_id j (outbox_events d)"]
        intro: *)
qed

section \<open>Delivery\<close>

text \<open>Every row marked published is held by the board; \<open>good\<close> is the board's own invariant.\<close>

definition delivered :: "('z outbox_db_scheme \<Rightarrow> durable_event \<Rightarrow> bool) \<Rightarrow> 'z outbox_db_scheme \<Rightarrow> bool" where
  "delivered holds db \<longleftrightarrow> (\<forall>r \<in> set (outbox_events db). ob_published_at r \<noteq> None \<longrightarrow>
     (\<exists>v. canonical_object v \<and> ob_payload_json r = json_dumps v \<and> holds db (outbox_event r v)))"

definition safe :: "('z outbox_db_scheme \<Rightarrow> bool) \<Rightarrow> ('z outbox_db_scheme \<Rightarrow> durable_event \<Rightarrow> bool)
    \<Rightarrow> 'z outbox_db_scheme \<Rightarrow> bool" where
  "safe good holds db \<longleftrightarrow> outbox_wf db \<and> good db \<and> delivered holds db"

text \<open>
  What this publisher guarantees of its own steps and relies on of the others': safety is kept,
  rows keep their identity, and what the board holds it goes on holding.
\<close>

definition upholds :: "('z outbox_db_scheme \<Rightarrow> bool) \<Rightarrow> ('z outbox_db_scheme \<Rightarrow> durable_event \<Rightarrow> bool)
    \<Rightarrow> 'z outbox_db_scheme \<Rightarrow> 'z outbox_db_scheme \<Rightarrow> bool" where
  "upholds good holds db db' \<longleftrightarrow> (safe good holds db \<longrightarrow> safe good holds db' \<and> (\<forall>e. holds db e \<longrightarrow> holds db' e) \<and>
     (\<forall>i r. row_by ob_id i (outbox_events db) = Some r \<longrightarrow>
       (\<exists>r'. row_by ob_id i (outbox_events db') = Some r' \<and> row_identity r' = row_identity r)))"

text \<open>The rows a publisher works on are still those of the table.\<close>

definition tracks :: "'z outbox_db_scheme \<Rightarrow> outbox_row list \<Rightarrow> bool" where
  "tracks db rows \<longleftrightarrow> (\<forall>row \<in> set rows. \<exists>r. row_by ob_id (ob_id row) (outbox_events db) = Some r \<and>
     row_identity r = row_identity row)"

section \<open>The board interface\<close>

text \<open>
  What the outbox relies on of a board adapter: an acknowledged event is held by the board,
  what it holds it goes on holding, a publication leaves the outbox alone, and nothing but a
  publication changes what it holds.
\<close>

locale message_board =
  fixes board :: "'z outbox_db_scheme board"
    and good :: "'z outbox_db_scheme \<Rightarrow> bool"
    and holds :: "'z outbox_db_scheme \<Rightarrow> durable_event \<Rightarrow> bool"
  assumes acknowledged: "good db \<Longrightarrow> canonical_object (de_payload e) \<Longrightarrow> board e db = (Inr ack, db') \<Longrightarrow>
      holds db' e"
    and keeps_good: "good db \<Longrightarrow> canonical_object (de_payload e) \<Longrightarrow> good (snd (board e db))"
    and keeps_held: "good db \<Longrightarrow> canonical_object (de_payload e) \<Longrightarrow> holds db e' \<Longrightarrow> holds (snd (board e db)) e'"
    and keeps_outbox: "outbox_events (snd (board e db)) = outbox_events db"
    and frame: "message_board_events db' = message_board_events db \<Longrightarrow> outbox_db.more db' = outbox_db.more db \<Longrightarrow>
      good db' = good db \<and> holds db' = holds db"
begin

lemma upholds_refl: "upholds good holds db db"
  by (simp add: upholds_def)

lemma upholds_trans: "upholds good holds a b \<Longrightarrow> upholds good holds b c \<Longrightarrow> upholds good holds a c"
  unfolding upholds_def by metis

lemma evolves_identity:
  assumes "outbox_evolves db db'" and "row_by ob_id i (outbox_events db) = Some r"
  shows "\<exists>r'. row_by ob_id i (outbox_events db') = Some r' \<and> row_identity r' = row_identity r"
  using evolves_row_by [of "outbox_events db" "outbox_events db'" i r] assms row_evolves_identity
  by (auto simp: outbox_evolves_def rowwise_def)

lemma works_upholds:
  assumes "outbox_works db db'"
  shows "upholds good holds db db'"
proof -
  note ev = outbox_works_evolves [OF assms]
  have f: "good db' = good db \<and> holds db' = holds db"
    by (rule frame) (use assms in \<open>simp_all add: outbox_works_def rowwise_def\<close>)
  have "delivered holds db'" if "delivered holds db"
    unfolding delivered_def
  proof (intro ballI impI)
    fix r' assume "r' \<in> set (outbox_events db')" and pub: "ob_published_at r' \<noteq> None"
    then obtain r where r: "r \<in> set (outbox_events db)" "row_works r r'"
      using assms unfolding outbox_works_def rowwise_def by (metis list_all2_conv_all_nth in_set_conv_nth)
    then have "r' = r" using pub by (auto simp: row_works_def row_evolves_def)
    with that pub r f show "\<exists>v. canonical_object v \<and> ob_payload_json r' = json_dumps v \<and> holds db' (outbox_event r' v)"
      by (auto simp: delivered_def)
  qed
  then show ?thesis
    using f outbox_evolves_wf [OF ev] evolves_identity [OF ev] by (auto simp: upholds_def safe_def)
qed

lemma publication_upholds:
  assumes "canonical_object (de_payload e)"
  shows "upholds good holds db (snd (board e db))"
  unfolding upholds_def
proof (intro impI)
  assume s: "safe good holds db"
  then have g: "good db" by (simp add: safe_def)
  have h: "holds (snd (board e db)) e'" if "holds db e'" for e' by (rule keeps_held [OF g assms that])
  have o: "outbox_events (snd (board e db)) = outbox_events db" by (rule keeps_outbox)
  have "delivered holds (snd (board e db))" using s h o by (fastforce simp: delivered_def safe_def)
  moreover have "outbox_wf (snd (board e db))" using s o by (simp add: safe_def outbox_wf_def)
  ultimately show "safe good holds (snd (board e db)) \<and> (\<forall>e'. holds db e' \<longrightarrow> holds (snd (board e db)) e') \<and>
     (\<forall>i r. row_by ob_id i (outbox_events db) = Some r \<longrightarrow>
       (\<exists>r'. row_by ob_id i (outbox_events (snd (board e db))) = Some r' \<and> row_identity r' = row_identity r))"
    using h o keeps_good [OF g assms] by (simp add: safe_def)
qed

text \<open>Marking is safe once the board holds the row's event.\<close>

lemma mark_upholds:
  assumes "row_by ob_id (ob_id row) (outbox_events db) = Some r" "row_identity r = row_identity row"
    and "canonical_object v" "ob_payload_json row = json_dumps v" "holds db (outbox_event row v)"
  shows "upholds good holds db (snd (snd (mark_published svc lsvc (ob_id row) ow gn m g db)))"
proof -
  let ?db = "snd (snd (mark_published svc lsvc (ob_id row) ow gn m g db))"
  note ev = mark_published_evolves [of db svc lsvc "ob_id row" ow gn m g]
  have f: "good ?db = good db \<and> holds ?db = holds db"
    by (rule frame) (use ev in \<open>simp_all add: outbox_evolves_def rowwise_def\<close>)
  have "delivered holds ?db" if s: "safe good holds db"
    unfolding delivered_def
  proof (intro ballI impI)
    fix r' assume r': "r' \<in> set (outbox_events ?db)" and pub: "ob_published_at r' \<noteq> None"
    have wf': "outbox_wf ?db" using outbox_evolves_wf [OF ev] s by (simp add: safe_def)
    have by': "row_by ob_id (ob_id r') (outbox_events ?db) = Some r'"
      using r' wf' row_by_unique [of ob_id "outbox_events ?db"] by (simp add: outbox_wf_def)
    show "\<exists>v. canonical_object v \<and> ob_payload_json r' = json_dumps v \<and> holds ?db (outbox_event r' v)"
    proof (cases "ob_id r' = ob_id row")
      case True
      then have "row_identity r' = row_identity row"
        using evolves_identity [OF ev assms(1)] by' assms(2) by auto
      note same = row_identity_fields [OF this]
      then show ?thesis using assms(3-5) f by auto
    next
      case False
      have "row_by ob_id (ob_id r') (outbox_events db) = Some r'"
        using by' False marked_other_row [of "ob_id r'" "ob_id row" svc lsvc ow gn m g db] by simp
      then show ?thesis using s pub f by (fastforce simp: safe_def delivered_def dest: row_by_SomeD)
    qed
  qed
  then show ?thesis
    using f outbox_evolves_wf [OF ev] evolves_identity [OF ev] by (auto simp: upholds_def safe_def)
qed

lemma upholds_tracks: "upholds good holds db db' \<Longrightarrow> safe good holds db \<Longrightarrow> tracks db rows \<Longrightarrow> tracks db' rows"
  unfolding upholds_def tracks_def by metis

lemma publish_claimed_upholds:
  assumes "safe good holds db" "tracks db [row]"
    and "\<And>db. upholds good holds db (mo_others m1 db)" "\<And>db. upholds good holds db (mo_others m2 db)"
    and "publish_claimed env svc lsvc board row m1 m2 g db = (r, g', db')"
  shows "upholds good holds db db' \<and> ((\<exists>ack. r = Inr ack) \<longrightarrow>
    (\<exists>v. canonical_object v \<and> ob_payload_json row = json_dumps v \<and> holds db' (outbox_event row v)))"
proof (cases "ob_publishing_owner row = Some (os_instance_id svc) \<and>
    (\<exists>event kvs. json_loads (ob_payload_json row) = Some (JObj kvs) \<and> new_durable_event env (outbox_event row (JObj kvs)) = Inr event \<and> raise_if_lost g = Inr ())")
  case False
  then have "db' = db \<and> (\<exists>e. r = Inl e)"
    using assms(5)
    by (auto simp: publish_claimed_def and_then_Inr_iff split: if_split_asm option.split_asm json.split_asm
        sum.split_asm prod.split_asm)
  then show ?thesis using upholds_refl by auto
next
  case True
  then obtain event kvs where ev: "json_loads (ob_payload_json row) = Some (JObj kvs)"
    "new_durable_event env (outbox_event row (JObj kvs)) = Inr event" "raise_if_lost g = Inr ()"
    "ob_publishing_owner row = Some (os_instance_id svc)" by blast
  obtain r0 where r0: "row_by ob_id (ob_id row) (outbox_events db) = Some r0" "row_identity r0 = row_identity row"
    using assms(2) by (auto simp: tracks_def)
  then obtain v where v: "canonical_object v" "ob_payload_json row = json_dumps v"
    using assms(1) row_identity_fields(4) [OF r0(2)] row_by_SomeD [OF r0(1)]
    by (auto simp: safe_def outbox_wf_def)
  then have "JObj kvs = v" using ev(1) by (simp add: canonical_loads)
  then have event: "event = outbox_event row v"
    using new_durable_event_Inr(1) [OF ev(2)] canonical_payload [OF v(1)] by (simp add: outbox_event_def)
  then have c: "canonical_object (de_payload event)" using v(1) by (simp add: outbox_event_def)
  let ?db1 = "mo_others m1 db"
  let ?db2 = "snd (board event ?db1)"
  have s1: "safe good holds ?db1" using assms(1,3) by (auto simp: upholds_def)
  have up2: "upholds good holds db ?db2" using upholds_trans [OF assms(3) publication_upholds [OF c]] .
  have s2: "safe good holds ?db2" using up2 assms(1) by (auto simp: upholds_def)
  show ?thesis
  proof (cases "fst (board event ?db1)")
    case (Inl e)
    then have "db' = ?db2 \<and> r = Inl e"
      using assms(5) ev by (auto simp: publish_claimed_def split: if_split_asm prod.split_asm)
    then show ?thesis using up2 upholds_refl assms(5) by (auto simp: publish_claimed_def)
  next
    case (Inr ack)
    have h: "holds ?db2 event"
      using acknowledged [OF _ c, of ?db1 ack ?db2] s1 Inr by (simp add: safe_def prod_eq_iff)
    obtain ra ga dba where ack: "record_publication_acknowledgement env svc lsvc row (ack_duplicate ack)
        (max 0 (mo_latency_ms m1)) m2 g (mo_others m2 ?db2) = (ra, ga, dba)" by (metis prod_cases3)
    have up3: "upholds good holds ?db2 dba"
      using upholds_trans [OF assms(4) works_upholds [OF acknowledgement_works]] ack by (metis snd_conv)
    have "db' = dba"
      using assms(5) ev Inr ack
      by (auto simp: publish_claimed_def prod_eq_iff split: if_split_asm prod.split_asm sum.split_asm)
    then show ?thesis
      using upholds_refl upholds_trans [OF up2 up3] h up3 s2 v event by (auto simp: upholds_def)
  qed
qed

lemma publish_and_mark_upholds:
  assumes "safe good holds db" "tracks db [row]" and env: "\<And>k db. upholds good holds db (mo_others (ms k) db)"
  shows "upholds good holds db (snd (snd (publish_and_mark env svc lsvc board ms row k g db)))"
proof -
  obtain r g' db1 where run: "publish_claimed env svc lsvc board row (ms k) (ms (k + 1)) g db = (r, g', db1)"
    by (metis prod_cases3)
  note pc = publish_claimed_upholds [OF assms(1,2) env env run]
  show ?thesis
  proof (cases r)
    case (Inl e)
    then show ?thesis using pc run by (simp add: publish_and_mark_def)
  next
    case (Inr ack)
    let ?db2 = "mo_others (ms (k + 2)) db1"
    have up2: "upholds good holds db ?db2" using upholds_trans [OF _ env] pc by blast
    have s1: "safe good holds db1" using pc assms(1) by (auto simp: upholds_def)
    obtain v where v: "canonical_object v" "ob_payload_json row = json_dumps v" "holds ?db2 (outbox_event row v)"
      using pc Inr env [of db1 "k + 2"] s1 by (auto simp: upholds_def)
    obtain r2 where r2: "row_by ob_id (ob_id row) (outbox_events ?db2) = Some r2"
      "row_identity r2 = row_identity row"
      using upholds_tracks [OF up2 assms(1,2)] by (auto simp: tracks_def)
    show ?thesis
      using upholds_trans [OF up2 mark_upholds [OF r2 v]] run Inr by (simp add: publish_and_mark_def)
  qed
qed

lemma release_rest_upholds:
  assumes "\<And>k db. upholds good holds db (mo_others (ms k) db)"
  shows "upholds good holds db (snd (snd (release_rest svc lsvc ms rows k g db)))"
proof (induction rows arbitrary: k g db)
  case Nil
  then show ?case by (simp add: upholds_refl)
next
  case (Cons row rows)
  let ?run = "release_claim lsvc (ob_id row) (os_instance_id svc) (ob_publish_generation row) (ms k) g
    (mo_others (ms k) db)"
  have "upholds good holds db (snd (snd ?run))"
    by (rule upholds_trans [OF assms works_upholds [OF release_claim_works]])
  then show ?case
    using Cons.IH upholds_trans by (auto split: prod.split sum.split)
qed

lemma drain_rows_upholds:
  assumes env: "\<And>k db. upholds good holds db (mo_others (ms k) db)"
  shows "safe good holds db \<Longrightarrow> tracks db rows \<Longrightarrow>
    upholds good holds db (snd (snd (drain_rows env svc lsvc board ms rows k counts g db)))"
proof (induction rows arbitrary: k counts g db)
  case Nil
  then show ?case by (cases counts) (simp add: upholds_refl)
next
  case (Cons row rows)
  obtain published failed where counts: "counts = (published, failed)" by fastforce
  obtain r1 g1 db1 where run1: "publish_and_mark env svc lsvc board ms row k g db = (r1, g1, db1)"
    by (metis prod_cases3)
  have t: "tracks db [row]" "tracks db rows" using Cons.prems(2) by (simp_all add: tracks_def)
  have "upholds good holds db (snd (snd (publish_and_mark env svc lsvc board ms row k g db)))"
    by (rule publish_and_mark_upholds [OF Cons.prems(1) t(1)]) (rule env)
  then have up1: "upholds good holds db db1" using run1 by simp
  have IH: "upholds good holds db (snd (snd (drain_rows env svc lsvc board ms rows k' c' g' db')))"
    if "upholds good holds db db'" for k' c' g' db'
  proof -
    have "safe good holds db'" using that Cons.prems(1) by (auto simp: upholds_def)
    from Cons.IH [OF this upholds_tracks [OF that Cons.prems(1) t(2)]] show ?thesis
      by (rule upholds_trans [OF that])
  qed
  show ?case
  proof (cases r1)
    case (Inr changed)
    then show ?thesis using IH [OF up1] counts run1 by simp
  next
    case (Inl error)
    obtain r2 g2 db2 where run2: "release_or_fail lsvc (ob_id row) (os_instance_id svc)
        (ob_publish_generation row) error (ms (k + 3)) g1 (mo_others (ms (k + 3)) db1) = (r2, g2, db2)"
      by (metis prod_cases3)
    have "upholds good holds db1 db2"
      using upholds_trans [OF env works_upholds [OF release_or_fail_works]] run2 by (metis snd_conv)
    then have up2: "upholds good holds db db2" using upholds_trans [OF up1] by blast
    have up3: "upholds good holds db (snd (snd (release_rest svc lsvc ms rows k' g2 db2)))" for k'
      by (rule upholds_trans [OF up2 release_rest_upholds [OF env]])
    show ?thesis
      using Inl counts run1 run2 up1 up2 IH [OF up2] up3 [of "k + 4"]
      by (auto simp: Let_def split: sum.split py_error.split prod.split)
  qed
qed

lemma drain_upholds:
  assumes "safe good holds db" and env: "\<And>k db. upholds good holds db (mo_others (ms k) db)"
  shows "upholds good holds db (snd (snd (drain env svc lsvc board limit ms g db)))"
proof -
  let ?db0 = "mo_others (ms 0) db"
  obtain r g1 db1 where run: "claim_batch env svc lsvc limit (ms 0) g ?db0 = (r, g1, db1)" by (metis prod_cases3)
  have s0: "safe good holds ?db0" using assms(1) env [of db 0] by (auto simp: upholds_def)
  have "upholds good holds ?db0 db1" using works_upholds [OF claim_batch_works] run by (metis snd_conv)
  then have up1: "upholds good holds db db1" by (rule upholds_trans [OF env])
  show ?thesis
  proof (cases r)
    case (Inl e)
    then show ?thesis using up1 run by (simp add: drain_def)
  next
    case (Inr rows)
    have wf: "outbox_wf ?db0" using s0 by (simp add: safe_def)
    have "tracks db1 rows"
      using claimed_row_in_table(1) [OF wf run [unfolded Inr]] by (auto simp: tracks_def)
    moreover have "safe good holds db1" using up1 assms(1) by (auto simp: upholds_def)
    ultimately have up2: "upholds good holds db (snd (snd (drain_rows env svc lsvc board ms rows 1 (0, 0) g1 db1)))"
      by (intro upholds_trans [OF up1 drain_rows_upholds [where ms = ms]] env)
    then show ?thesis using run Inr by (auto simp: drain_def split: prod.split sum.split)
  qed
qed

end

section \<open>The SQLite board behind the outbox\<close>

text \<open>What the SQLite board holds: the row of the dedupe key, unless SHA-256 has collided.\<close>

definition held_by :: "board_env \<Rightarrow> 'z outbox_db_scheme \<Rightarrow> durable_event \<Rightarrow> bool" where
  "held_by env db e \<longleftrightarrow> on_board db e \<or> collision (env_sha256 env)"

lemma publish_keeps_outbox: "outbox_events (snd (publish_event env e db)) = outbox_events db"
proof -
  obtain r db' where run: "publish_event env e db = (r, db')" by fastforce
  show ?thesis
  proof (cases r)
    case (Inl x)
    then show ?thesis using run publish_event_Inl by fastforce
  next
    case (Inr ack)
    from run [unfolded Inr] show ?thesis by (cases rule: publish_event_cases) (use run in auto)
  qed
qed

lemma sqlite_board_laws: "message_board (publish_event env) board_wf (held_by env)"
proof
  fix db db' :: "'z outbox_db_scheme" and e :: durable_event and ack
  assume "board_wf db" "canonical_object (de_payload e)" "publish_event env e db = (Inr ack, db')"
  then show "held_by env db' e" using acknowledged_event_on_board unfolding held_by_def by blast
next
  fix db :: "'z outbox_db_scheme" and e :: durable_event
  assume "board_wf db" "canonical_object (de_payload e)"
  then show "board_wf (snd (publish_event env e db))" by (rule publish_event_wf)
next
  fix db :: "'z outbox_db_scheme" and e e' :: durable_event
  assume "canonical_object (de_payload e)" "held_by env db e'"
  then show "held_by env (snd (publish_event env e db)) e'"
    using board_steps_on_board [OF r_into_rtranclp [of board_step, OF board_step.publish]]
    unfolding held_by_def by blast
next
  fix db :: "'z outbox_db_scheme" and e :: durable_event
  show "outbox_events (snd (publish_event env e db)) = outbox_events db" by (rule publish_keeps_outbox)
next
  fix db db' :: "'z outbox_db_scheme"
  assume "message_board_events db' = message_board_events db"
  then show "board_wf db' = board_wf db \<and> held_by env db' = held_by env db"
    by (auto simp: board_wf_def held_by_def on_board_def fun_eq_iff)
qed

interpretation sqlite_board: message_board "publish_event env" board_wf "held_by env" for env
  by (rule sqlite_board_laws)


text \<open>The other processes keep to it when they claim, release, fail or recover rows, or publish.\<close>

lemma others_uphold:
  "upholds board_wf (held_by env) db (snd (snd (claim_batch env' svc lsvc limit m g db)))"
  "upholds board_wf (held_by env) db (snd (snd (release_claim lsvc i ow gn m g db)))"
  "upholds board_wf (held_by env) db (snd (snd (release_or_fail lsvc i ow gn e m g db)))"
  "upholds board_wf (held_by env) db (snd (snd (recover_batch env' svc lsvc now lim m g db)))"
  "canonical_object (de_payload ev) \<Longrightarrow> upholds board_wf (held_by env) db (snd (publish_event env ev db))"
  by (rule sqlite_board.works_upholds operations_work sqlite_board.publication_upholds | assumption)+

section \<open>Recovery\<close>

lemma recover_row_hit:
  assumes "distinct (map ob_id (outbox_events db))" "c \<in> set (outbox_events db)" "expired_claim now c"
  shows "\<exists>db'. recover_row env svc now c (n, db) = (Suc n, db') \<and>
    outbox_events db' = sql_update (\<lambda>r. r = c) clear_claim (outbox_events db)"
proof -
  let ?mine = "\<lambda>r. ob_id r = ob_id c \<and> ob_publish_generation r = ob_publish_generation c \<and> expired_claim now r"
  have "?mine r = (r = c)" if "r \<in> set (outbox_events db)" for r
    using assms that distinct_key_eq [OF assms(1)] by blast
  then have "sql_update ?mine clear_claim (outbox_events db) =
    sql_update (\<lambda>r. r = c) clear_claim (outbox_events db)" by (rule sql_update_cong)
  moreover have "sql_rowcount ?mine (outbox_events db) = 1"
    by (rule sql_rowcount_key [OF assms(1,2)]) (use assms(3) in auto)
  ultimately show ?thesis by (simp add: recover_row_def Let_def)
qed

lemma fold_count: "fold (\<lambda>c. Suc) cs n = n + length cs"
  by (induction cs arbitrary: n) auto

lemma fold_recover:
  assumes "distinct (map ob_id (outbox_events db))" "set cs \<subseteq> set (outbox_events db)"
    and "\<forall>c \<in> set cs. expired_claim now c" "distinct cs"
  shows "\<exists>db'. fold (recover_row env svc now) cs (0, db) = (length cs, db') \<and>
    outbox_events db' = sql_update (\<lambda>r. r \<in> set cs) clear_claim (outbox_events db)"
proof -
  have "\<exists>db'. fold (recover_row env svc now) cs (0, db) = (fold (\<lambda>c. Suc) cs 0, db') \<and>
    outbox_events db' = sql_update (\<lambda>r. r \<in> set cs) clear_claim (outbox_events db)"
    by (rule fold_rows [where P = "expired_claim now", OF _ _ assms])
      (simp_all add: recover_row_hit clear_claim_def)
  then show ?thesis by (simp add: fold_count)
qed

lemma take_short: "length (take n xs) < n \<Longrightarrow> take n xs = xs"
  by simp

lemma take_if_same:
  "length (if b then xs else take n xs) = length xs \<Longrightarrow> (if b then xs else take n xs) = xs"
  by (cases b) simp_all

text \<open>A batch that commits recovers all it examines; if the loop ends with it, nothing expired is left.\<close>

lemma recover_batch_Inr:
  assumes "outbox_wf db" and "recover_batch env svc lsvc now lim m g db = (Inr (n, continue), g', db')"
  shows "n \<le> lim" "continue \<Longrightarrow> 0 < n" "\<not> continue \<Longrightarrow> 0 < lim \<Longrightarrow> \<forall>r \<in> set (outbox_events db'). \<not> expired_claim now r"
proof -
  let ?all = "sort_key ob_id (sql_select (expired_claim now) (outbox_events db))"
  let ?expired = "take lim ?all"
  let ?cs = "if g = None then ?expired else take (max 1 (mo_rows m)) ?expired"
  have sub: "set ?cs \<subseteq> set ?all"
    by (auto dest!: in_set_takeD)
  have wf: "distinct (map ob_id (outbox_events db))" using assms(1) by (simp add: outbox_wf_def)
  then have "distinct ?all" by (simp add: sql_select_def distinct_map)
  then have dist: "distinct ?cs" by simp
  obtain db1 where db1: "fold (recover_row env svc now) ?cs (0, db) = (length ?cs, db1)"
    "outbox_events db1 = sql_update (\<lambda>r. r \<in> set ?cs) clear_claim (outbox_events db)"
    using fold_recover [OF wf _ _ dist, of now env svc] sub by fastforce
  have "guarded lsvc m g (\<lambda>db. Inr ((length ?cs, \<not> (?expired = [] \<or>
      length ?cs = length ?expired \<and> length ?expired < lim)), db1)) db = (Inr (n, continue), g', db')"
    using assms(2) unfolding recover_batch_def
    by (subst (asm) guarded_cong [where mutation' = "\<lambda>db. Inr ((length ?cs, \<not> (?expired = [] \<or>
      length ?cs = length ?expired \<and> length ?expired < lim)), db1)"]) (simp_all add: db1(1) Let_def)
  then have r: "n = length ?cs" "db' = db1"
    "continue \<longleftrightarrow> \<not> (?expired = [] \<or> length ?cs = length ?expired \<and> length ?expired < lim)"
    by (auto elim: guarded_cases)
  show "n \<le> lim" using r(1) by auto
  show "0 < n" if "continue" using that r(1,3) by auto
  show "\<forall>r \<in> set (outbox_events db'). \<not> expired_claim now r" if "\<not> continue" "0 < lim"
  proof -
    have split: "length ?expired < lim \<Longrightarrow> ?expired = ?all" by (rule take_short)
    have "?expired = [] \<or> length ?cs = length ?expired \<and> length ?expired < lim"
      using that(1) r(3) by blast
    then have "set ?cs = set ?all"
    proof
      assume e: "?expired = []"
      then have "length ?expired < lim" using that(2) by (simp only: list.size)
      from split [OF this] e show ?thesis by simp
    next
      assume e: "length ?cs = length ?expired \<and> length ?expired < lim"
      then have cs: "?cs = ?expired" by (intro take_if_same) blast
      have "?expired = ?all" using split e by blast
      with cs show ?thesis by (simp only:)
    qed
    then show ?thesis
      using r(2) db1(2) by (auto simp: sql_update_def expired_claim_def clear_claim_def)
  qed
qed

lemma renew_keeps_outbox:
  "outbox_events (snd (snd (guard_renew_now lsvc clk g db))) = outbox_events db"
proof -
  have *: "outbox_events (snd (lease_renew lsvc clk n ow gn db)) = outbox_events db" for n ow gn
    unfolding lease_renew_def by (rule transaction_preserves) (auto simp: Let_def)
  obtain r db2 where run: "lease_renew lsvc clk (ml_name (lg_lease g)) (ml_owner_instance_id (lg_lease g))
      (ml_generation (lg_lease g)) db = (r, db2)" by fastforce
  then have "outbox_events db2 = outbox_events db" using * by (metis snd_conv)
  then show ?thesis
    using run by (simp add: guard_renew_now_def split: sum.split prod.split option.split)
qed

lemma recover_loop_ends:
  assumes env: "\<And>k d. outbox_wf d \<Longrightarrow> outbox_wf (mo_others (ms k) d)"
  shows "outbox_wf db \<Longrightarrow> recovered \<le> max_recoveries \<Longrightarrow> max_recoveries - recovered < fuel \<Longrightarrow>
    \<exists>r g' db'. recover_loop fuel env' svc lsvc now ms k recovered g db = Some (r, g', db') \<and>
      (\<forall>n. r = Inr n \<longrightarrow> n \<le> max_recoveries \<and>
        (n < max_recoveries \<longrightarrow> (\<forall>x \<in> set (outbox_events db'). \<not> expired_claim now x)))"
proof (induction fuel arbitrary: k recovered g db)
  case 0
  then show ?case by simp
next
  case (Suc fuel)
  show ?case
  proof (cases "recovered < max_recoveries")
    case False
    then show ?thesis using Suc.prems by simp
  next
    case True
    let ?renewal = "case g of None \<Rightarrow> (Inr (), None, db)
      | Some gd \<Rightarrow> (case guard_renew_now lsvc (mo_fence1 (ms k)) gd (mo_others (ms k) db) of
          (r, gd', db') \<Rightarrow> (r, Some gd', db'))"
    obtain r1 g1 db1 where run1: "?renewal = (r1, g1, db1)" by (metis prod_cases3)
    have "outbox_events db1 = outbox_events db \<or> outbox_events db1 = outbox_events (mo_others (ms k) db)"
      using run1 renew_keeps_outbox [of lsvc "mo_fence1 (ms k)" _ "mo_others (ms k) db"]
      by (auto split: option.split_asm prod.split_asm) (metis snd_conv)
    then have wf1: "outbox_wf db1"
      using Suc.prems(1) env [of db k] by (auto simp: outbox_wf_def)
    show ?thesis
    proof (cases r1)
      case (Inl e)
      then show ?thesis using True run1 by simp
    next
      case (Inr u)
      let ?lim = "min recovery_batch_size (max_recoveries - recovered)"
      let ?db2 = "mo_others (ms (k + 1)) db1"
      have wf2: "outbox_wf ?db2" by (rule env [OF wf1])
      obtain r2 g2 db2 where run2: "recover_batch env' svc lsvc now ?lim (ms (k + 1)) g1 ?db2 = (r2, g2, db2)"
        by (metis prod_cases3)
      have wf3: "outbox_wf db2"
        using outbox_evolves_wf [OF outbox_works_evolves [OF recover_batch_works] wf2] run2 by (metis snd_conv)
      show ?thesis
      proof (cases r2)
        case (Inl e)
        then show ?thesis using True run1 run2 \<open>r1 = Inr u\<close> by simp
      next
        case (Inr nc)
        obtain n continue where nc: "nc = (n, continue)" by fastforce
        note batch = recover_batch_Inr [OF wf2 run2 [unfolded Inr nc]]
        have lim: "0 < ?lim" using True by (simp add: recovery_batch_size_def)
        have "n \<le> max_recoveries - recovered" using batch(1) by simp
        then have le: "recovered + n \<le> max_recoveries" using True by linarith
        show ?thesis
        proof (cases "continue")
          case cont: True
          have "max_recoveries - (recovered + n) < fuel"
            using Suc.prems(3) True batch(2) [OF cont] by simp
          from Suc.IH [OF wf3 le this, of "k + 2" g2] show ?thesis
            using True run1 run2 \<open>r1 = Inr u\<close> Inr nc cont by simp
        next
          case False
          have "\<forall>x \<in> set (outbox_events db2). \<not> expired_claim now x"
            by (rule batch(3) [OF False lim])
          then show ?thesis using True run1 run2 \<open>r1 = Inr u\<close> Inr nc False le by simp
        qed
      qed
    qed
  qed
qed

text \<open>
  C12. Recovery ends: whatever the other processes do, its loop returns within 501 iterations;
  it recovers at most 500 claims, and if fewer, then no expired claim is left when it returns.
\<close>

theorem recovery_terminates:
  assumes "outbox_wf db" and "\<forall>k d. outbox_wf d \<longrightarrow> outbox_wf (mo_others (ms k) d)"
  shows "\<exists>r g' db'. recover_expired_claims env svc lsvc clk ms g db = Some (r, g', db') \<and>
    (\<forall>n. r = Inr n \<longrightarrow> n \<le> max_recoveries \<and> (n < max_recoveries \<longrightarrow>
      (\<forall>x \<in> set (outbox_events db'). \<not> expired_claim (isoformat (dt_instant clk)) x)))"
proof (cases "outbox_utc clk")
  case (Inl e)
  then show ?thesis by (simp add: recover_expired_claims_def)
next
  case (Inr t)
  then have "t = dt_instant clk" by (auto simp: outbox_utc_def split: if_split_asm)
  with Inr show ?thesis
    using recover_loop_ends [of ms db 0 "max_recoveries + 1" env svc lsvc "isoformat t" 0 g] assms
    by (simp add: recover_expired_claims_def)
qed

section \<open>Concrete instances\<close>

lemma demo_safe_db: "safe board_wf (held_by demo_env) (demo_outbox_db [demo_outbox_row])"
  using demo_outbox_wf(2) by (simp add: safe_def board_wf_def delivered_def demo_outbox_db_def)


lemma recovery_terminates_witness:
  "\<exists>r g' db'. recover_expired_claims demo_env (demo_publisher ''pub_a'') demo_lease_service (demo_clock 0)
    (\<lambda>k. demo_moment k) None (demo_outbox_db [demo_outbox_row]) = Some (r, g', db')"
  using recovery_terminates [OF demo_outbox_wf(2), of "\<lambda>k. demo_moment k" demo_env "demo_publisher ''pub_a''"
      demo_lease_service "demo_clock 0" None] by auto

end
