(* ===== verification/Message_Consumer.thy ===== *)
theory Message_Consumer
  imports Outbox "HOL-Library.Option_ord"
begin

text \<open>
  \<open>server/app/services/message_consumer.py\<close>: the delivery ledger of the control plane's own
  consumers. A delivery is claimed under a generation, handled, and acknowledged or failed by
  whoever still holds it; it is attempted a bounded number of times and then becomes a dead
  letter. The handler is a parameter.
\<close>

section \<open>The ledger\<close>

datatype delivery_status = Pending | Processing | Completed | Dead_Letter

record consumer_row =
  mc_consumer_group :: string
  mc_event_id :: string
  mc_dedupe_key :: string
  mc_source_cursor :: "string option"
  mc_envelope_json :: string
  mc_status :: delivery_status
  mc_attempt_count :: int
  mc_max_attempts :: int
  mc_claim_owner :: "string option"
  mc_claim_generation :: int
  mc_claim_started_at :: "string option"
  mc_claim_expires_at :: "string option"
  mc_last_error :: "string option"
  mc_created_at :: string
  mc_completed_at :: "string option"
  mc_dead_lettered_at :: "string option"

record checkpoint_row =
  cp_consumer_group :: string
  cp_last_event_id :: string
  cp_last_source_cursor :: "string option"
  cp_completed_count :: int
  cp_updated_at :: string

record consumer_db = outbox_db +
  consumer_deliveries :: "consumer_row sql_table"
  consumer_checkpoints :: "checkpoint_row sql_table"

record consumer_delivery =
  cd_consumer_group :: string
  cd_consumer_id :: string
  cd_event :: durable_event
  cd_source_cursor :: "string option"
  cd_attempt :: int
  cd_claim_generation :: int
  cd_claim_expires_at :: string

definition idempotency_key :: "consumer_delivery \<Rightarrow> string" where
  "idempotency_key d = cd_consumer_group d @ '':'' @ de_event_id (cd_event d)"

record handler_context =
  hc_consumer_group :: string
  hc_consumer_id :: string
  hc_event_id :: string
  hc_dedupe_key :: string
  hc_idempotency_key :: string
  hc_attempt :: int

record consumer_store =
  cs_claim_lease_seconds :: int

definition new_consumer_store :: "int \<Rightarrow> py_error + consumer_store" where
  "new_consumer_store claim_lease_seconds =
    (if claim_lease_seconds < 1 \<or> claim_lease_seconds > 900
     then Inl (ValueError ''consumer claim lease must be between 1 and 900 seconds'')
     else Inr \<lparr>cs_claim_lease_seconds = claim_lease_seconds\<rparr>)"

text \<open>The identifier pattern: a letter or digit, then at most 199 of these and \<open>. _ : -\<close>.\<close>

definition is_alnum :: "char \<Rightarrow> bool" where
  "is_alnum c \<longleftrightarrow> is_lower c \<or> is_upper c \<or> is_digit c"

definition identifier_ok :: "string \<Rightarrow> bool" where
  "identifier_ok s \<longleftrightarrow>
    (case s of [] \<Rightarrow> False
     | c # cs \<Rightarrow> is_alnum c \<and> length cs \<le> 199 \<and> list_all (\<lambda>x. is_alnum x \<or> x \<in> set ''._:-'') cs)"

definition validate_identity :: "string \<Rightarrow> string \<Rightarrow> py_error + unit" where
  "validate_identity label value = require (identifier_ok value) (ValueError (label @ '' has an invalid format''))"

definition consumer_utc :: "py_datetime \<Rightarrow> py_error + nat" where
  "consumer_utc current =
    (if \<not> dt_aware current then Inl (RuntimeError ''consumer clock must be timezone-aware'')
     else Inr (dt_instant current))"

section \<open>Envelopes\<close>

definition event_as_dict :: "durable_event \<Rightarrow> json" where
  "event_as_dict e = JObj
    [(''schema_version'', JStr (de_schema_version e)), (''event_id'', JStr (de_event_id e)),
     (''dedupe_key'', JStr (de_dedupe_key e)), (''topic'', JStr (de_topic e)),
     (''event_type'', JStr (de_event_type e)), (''aggregate_type'', JStr (de_aggregate_type e)),
     (''aggregate_id'', JStr (de_aggregate_id e)), (''task_id'', json_opt (de_task_id e)),
     (''agent_id'', json_opt (de_agent_id e)), (''payload'', de_payload e),
     (''created_at'', JStr (de_created_at e))]"

definition encode_event :: "durable_event \<Rightarrow> py_error + string" where
  "encode_event e =
    (let encoded = json_dumps (event_as_dict e) in
     if length encoded > 1000000 then Inl (ValueError ''consumer event envelope is too large'')
     else Inr encoded)"

text \<open>\<open>str(value)\<close>; the \<open>repr\<close> of a list or a dict is a parameter, reached by no stored envelope.\<close>

fun py_str :: "(json \<Rightarrow> string) \<Rightarrow> json \<Rightarrow> string" where
  "py_str repr (JStr s) = s"
| "py_str repr JNull = ''None''"
| "py_str repr (JBool b) = (if b then ''True'' else ''False'')"
| "py_str repr (JInt i) = show_int i"
| "py_str repr v = repr v"

definition required_text :: "(json \<Rightarrow> string) \<Rightarrow> string \<Rightarrow> (string \<times> json) list \<Rightarrow> py_error + string" where
  "required_text repr k raw =
    (case map_of raw k of None \<Rightarrow> Inl (KeyError k) | Some v \<Rightarrow> Inr (py_str repr v))"

definition optional_text :: "(json \<Rightarrow> string) \<Rightarrow> string \<Rightarrow> (string \<times> json) list \<Rightarrow> string option" where
  "optional_text repr k raw =
    (case map_of raw k of None \<Rightarrow> None | Some JNull \<Rightarrow> None | Some v \<Rightarrow> Some (py_str repr v))"

definition object_payload :: "json option \<Rightarrow> py_error + json" where
  "object_payload value =
    (case value of Some (JObj kvs) \<Rightarrow> Inr (JObj kvs)
     | _ \<Rightarrow> Inl (TypeError ''persisted consumer payload is not an object''))"

definition decode_event :: "board_env \<Rightarrow> (json \<Rightarrow> string) \<Rightarrow> string \<Rightarrow> py_error + durable_event" where
  "decode_event env repr envelope_json =
    (case json_loads envelope_json of
       None \<Rightarrow> Inl (OtherException ''JSONDecodeError'')
     | Some (JObj raw) \<Rightarrow>
         and_then (required_text repr ''schema_version'' raw) (\<lambda>schema_version.
         and_then (required_text repr ''event_id'' raw) (\<lambda>event_id.
         and_then (required_text repr ''dedupe_key'' raw) (\<lambda>dedupe_key.
         and_then (required_text repr ''topic'' raw) (\<lambda>topic.
         and_then (required_text repr ''event_type'' raw) (\<lambda>event_type.
         and_then (required_text repr ''aggregate_type'' raw) (\<lambda>aggregate_type.
         and_then (required_text repr ''aggregate_id'' raw) (\<lambda>aggregate_id.
         and_then (object_payload (map_of raw ''payload'')) (\<lambda>payload.
         and_then (required_text repr ''created_at'' raw) (\<lambda>created_at.
           new_durable_event env
             \<lparr>de_schema_version = schema_version, de_event_id = event_id, de_dedupe_key = dedupe_key,
              de_topic = topic, de_event_type = event_type, de_aggregate_type = aggregate_type,
              de_aggregate_id = aggregate_id, de_payload = payload, de_created_at = created_at,
              de_task_id = optional_text repr ''task_id'' raw,
              de_agent_id = optional_text repr ''agent_id'' raw\<rparr>)))))))))
     | Some _ \<Rightarrow> Inl (TypeError ''persisted consumer envelope is invalid''))"

definition delivery_from_row :: "board_env \<Rightarrow> (json \<Rightarrow> string) \<Rightarrow> consumer_row \<Rightarrow> py_error + consumer_delivery" where
  "delivery_from_row env repr row =
    and_then (decode_event env repr (mc_envelope_json row)) (\<lambda>event.
      (case (mc_claim_owner row, mc_claim_expires_at row) of
         (Some claim_owner, Some claim_expires_at) \<Rightarrow>
           Inr \<lparr>cd_consumer_group = mc_consumer_group row, cd_consumer_id = claim_owner, cd_event = event,
             cd_source_cursor = mc_source_cursor row, cd_attempt = mc_attempt_count row,
             cd_claim_generation = mc_claim_generation row, cd_claim_expires_at = claim_expires_at\<rparr>
       | _ \<Rightarrow> Inl (RuntimeError ''persisted consumer claim is incomplete'')))"

section \<open>Enqueueing\<close>

abbreviation delivery_key :: "consumer_row \<Rightarrow> string \<times> string" where
  "delivery_key r \<equiv> (mc_consumer_group r, mc_event_id r)"

abbreviation delivery_dedupe :: "consumer_row \<Rightarrow> string \<times> string" where
  "delivery_dedupe r \<equiv> (mc_consumer_group r, mc_dedupe_key r)"

definition new_delivery_row :: "string \<Rightarrow> durable_event \<Rightarrow> string option \<Rightarrow> string \<Rightarrow> int \<Rightarrow> string \<Rightarrow> consumer_row" where
  "new_delivery_row consumer_group event source_cursor envelope_json max_attempts created_at =
    \<lparr>mc_consumer_group = consumer_group, mc_event_id = de_event_id event, mc_dedupe_key = de_dedupe_key event,
     mc_source_cursor = source_cursor, mc_envelope_json = envelope_json, mc_status = Pending,
     mc_attempt_count = 0, mc_max_attempts = max_attempts, mc_claim_owner = None, mc_claim_generation = 0,
     mc_claim_started_at = None, mc_claim_expires_at = None, mc_last_error = None,
     mc_created_at = created_at, mc_completed_at = None, mc_dead_lettered_at = None\<rparr>"

text \<open>The result is whether the delivery was inserted; the event's identifier is the caller's.\<close>

definition consumer_enqueue :: "py_datetime \<Rightarrow> string \<Rightarrow> durable_event \<Rightarrow> string option \<Rightarrow> int
    \<Rightarrow> 'z consumer_db_scheme \<Rightarrow> (py_error + bool) \<times> 'z consumer_db_scheme" where
  "consumer_enqueue clk consumer_group event source_cursor max_attempts db =
    (case and_then (validate_identity ''consumer group'' consumer_group) (\<lambda>_.
        and_then (require (1 \<le> max_attempts \<and> max_attempts \<le> 100)
          (ValueError ''consumer max attempts must be between 1 and 100'')) (\<lambda>_.
        and_then (case source_cursor of None \<Rightarrow> Inr ()
          | Some s \<Rightarrow> require (s \<noteq> [] \<and> py_len s \<le> 300) (ValueError ''consumer source cursor is invalid'')) (\<lambda>_.
        and_then (encode_event event) (\<lambda>envelope_json.
        and_then (consumer_utc clk) (\<lambda>t. Inr (envelope_json, isoformat t)))))) of
       Inl e \<Rightarrow> (Inl e, db)
     | Inr (envelope_json, created_at) \<Rightarrow>
         transaction (\<lambda>db.
           let t = consumer_deliveries db;
               inserted = (row_by delivery_key (consumer_group, de_event_id event) t = None \<and>
                 row_by delivery_dedupe (consumer_group, de_dedupe_key event) t = None);
               t' = (if inserted
                 then t @ [new_delivery_row consumer_group event source_cursor envelope_json max_attempts created_at]
                 else t)
           in (case row_by delivery_dedupe (consumer_group, de_dedupe_key event) t' of
                 None \<Rightarrow>
                   (if row_by delivery_key (consumer_group, de_event_id event) t' \<noteq> None
                    then Inl (ConsumerDeliveryConflict ''consumer event ID was reused with a different dedupe key'')
                    else Inl (RuntimeError ''consumer delivery disappeared''))
               | Some row \<Rightarrow>
                   if \<not> inserted \<and> (mc_event_id row \<noteq> de_event_id event \<or> mc_envelope_json row \<noteq> envelope_json \<or>
                     mc_source_cursor row \<noteq> source_cursor \<or> mc_max_attempts row \<noteq> max_attempts)
                   then Inl (ConsumerDeliveryConflict
                     ''consumer dedupe key was reused for a different durable delivery'')
                   else Inr (inserted, db\<lparr>consumer_deliveries := t'\<rparr>))) db)"

section \<open>Claiming\<close>

definition dead_letter_row :: "string \<Rightarrow> consumer_row \<Rightarrow> consumer_row" where
  "dead_letter_row now r = r\<lparr>mc_status := Dead_Letter, mc_claim_owner := None, mc_claim_started_at := None,
    mc_claim_expires_at := None, mc_last_error := Some ''LeaseExpired: handler did not acknowledge'',
    mc_dead_lettered_at := Some now\<rparr>"

definition exhausted_row :: "string \<Rightarrow> string \<Rightarrow> consumer_row \<Rightarrow> bool" where
  "exhausted_row consumer_group now r \<longleftrightarrow> mc_consumer_group r = consumer_group \<and> mc_status r = Processing \<and>
    null_le (mc_claim_expires_at r) now \<and> mc_max_attempts r \<le> mc_attempt_count r"

definition dead_letter_exhausted_locked :: "string \<Rightarrow> string \<Rightarrow> consumer_row sql_table \<Rightarrow> nat \<times> consumer_row sql_table" where
  "dead_letter_exhausted_locked consumer_group now t =
    (sql_rowcount (exhausted_row consumer_group now) t,
     sql_update (exhausted_row consumer_group now) (dead_letter_row now) t)"

definition claimable_delivery :: "string \<Rightarrow> string \<Rightarrow> consumer_row \<Rightarrow> bool" where
  "claimable_delivery consumer_group now r \<longleftrightarrow> mc_consumer_group r = consumer_group \<and>
    mc_attempt_count r < mc_max_attempts r \<and>
    (mc_status r = Pending \<or> mc_status r = Processing \<and> null_le (mc_claim_expires_at r) now)"

definition claimed_delivery :: "string \<Rightarrow> string \<Rightarrow> string \<Rightarrow> consumer_row \<Rightarrow> consumer_row" where
  "claimed_delivery consumer_id now expires_at r = r\<lparr>mc_status := Processing,
    mc_attempt_count := mc_attempt_count r + 1, mc_claim_owner := Some consumer_id,
    mc_claim_generation := mc_claim_generation r + 1, mc_claim_started_at := Some now,
    mc_claim_expires_at := Some expires_at, mc_last_error := None\<rparr>"

definition claim_delivery :: "string \<Rightarrow> string \<Rightarrow> string \<Rightarrow> string \<Rightarrow> consumer_row
    \<Rightarrow> string list \<times> consumer_row sql_table \<Rightarrow> string list \<times> consumer_row sql_table" where
  "claim_delivery consumer_group consumer_id now expires_at candidate st =
    (case st of (claimed, t) \<Rightarrow>
      let mine = (\<lambda>r. delivery_key r = (consumer_group, mc_event_id candidate) \<and>
            mc_claim_generation r = mc_claim_generation candidate \<and> claimable_delivery consumer_group now r)
      in (if sql_rowcount mine t = 1 then claimed @ [mc_event_id candidate] else claimed,
          sql_update mine (claimed_delivery consumer_id now expires_at) t))"

definition fetch_deliveries :: "string \<Rightarrow> string list \<Rightarrow> consumer_row sql_table \<Rightarrow> py_error + consumer_row list" where
  "fetch_deliveries consumer_group claimed t =
    for_each (\<lambda>i rows. case row_by delivery_key (consumer_group, i) t of
        None \<Rightarrow> Inl (RuntimeError ''claimed consumer delivery disappeared'')
      | Some r \<Rightarrow> Inr (rows @ [r])) claimed []"

definition claim_deliveries :: "consumer_store \<Rightarrow> string \<Rightarrow> string \<Rightarrow> int \<Rightarrow> py_datetime
    \<Rightarrow> 'z consumer_db_scheme \<Rightarrow> (py_error + consumer_row list) \<times> 'z consumer_db_scheme" where
  "claim_deliveries st consumer_group consumer_id limit clk = transaction (\<lambda>db.
    and_then (consumer_utc clk) (\<lambda>current.
    and_then (dt_add_seconds current (cs_claim_lease_seconds st)) (\<lambda>expires.
      let now_text = isoformat current;
          t = snd (dead_letter_exhausted_locked consumer_group now_text (consumer_deliveries db));
          candidates = take (bounded_limit 100 limit) (sort_key (\<lambda>r. (mc_created_at r, mc_event_id r))
            (sql_select (claimable_delivery consumer_group now_text) t));
          (claimed, t') = fold (claim_delivery consumer_group consumer_id now_text (isoformat expires))
            candidates ([], t)
      in and_then (fetch_deliveries consumer_group claimed t') (\<lambda>rows.
           Inr (rows, db\<lparr>consumer_deliveries := t'\<rparr>)))))"

definition consumer_claim_batch :: "board_env \<Rightarrow> (json \<Rightarrow> string) \<Rightarrow> consumer_store \<Rightarrow> string \<Rightarrow> string \<Rightarrow> int
    \<Rightarrow> py_datetime \<Rightarrow> 'z consumer_db_scheme
    \<Rightarrow> (py_error + consumer_delivery list) \<times> 'z consumer_db_scheme" where
  "consumer_claim_batch env repr st consumer_group consumer_id limit clk db =
    (case and_then (validate_identity ''consumer group'' consumer_group) (\<lambda>_.
        validate_identity ''consumer identity'' consumer_id) of
       Inl e \<Rightarrow> (Inl e, db)
     | Inr _ \<Rightarrow>
         (case claim_deliveries st consumer_group consumer_id limit clk db of
            (Inl e, db') \<Rightarrow> (Inl e, db')
          | (Inr rows, db') \<Rightarrow>
              (for_each (\<lambda>row ds. and_then (delivery_from_row env repr row) (\<lambda>d. Inr (ds @ [d]))) rows [], db')))"

section \<open>Finishing a delivery\<close>

definition holds_delivery :: "consumer_delivery \<Rightarrow> consumer_row \<Rightarrow> bool" where
  "holds_delivery d r \<longleftrightarrow> delivery_key r = (cd_consumer_group d, de_event_id (cd_event d)) \<and>
    mc_status r = Processing \<and> mc_claim_owner r = Some (cd_consumer_id d) \<and>
    mc_claim_generation r = cd_claim_generation d"

definition completed_row :: "string \<Rightarrow> consumer_row \<Rightarrow> consumer_row" where
  "completed_row now r = r\<lparr>mc_status := Completed, mc_completed_at := Some now, mc_last_error := None,
    mc_claim_owner := None, mc_claim_started_at := None, mc_claim_expires_at := None\<rparr>"

text \<open>The upsert of the checkpoint.\<close>

definition advance_checkpoint :: "consumer_delivery \<Rightarrow> string \<Rightarrow> checkpoint_row sql_table \<Rightarrow> checkpoint_row sql_table" where
  "advance_checkpoint d now t =
    (if row_by cp_consumer_group (cd_consumer_group d) t = None
     then t @ [\<lparr>cp_consumer_group = cd_consumer_group d, cp_last_event_id = de_event_id (cd_event d),
            cp_last_source_cursor = cd_source_cursor d, cp_completed_count = 1, cp_updated_at = now\<rparr>]
     else sql_update (\<lambda>c. cp_consumer_group c = cd_consumer_group d)
            (\<lambda>c. c\<lparr>cp_last_event_id := de_event_id (cd_event d), cp_last_source_cursor := cd_source_cursor d,
               cp_completed_count := cp_completed_count c + 1, cp_updated_at := now\<rparr>) t)"

definition consumer_acknowledge :: "consumer_delivery \<Rightarrow> py_datetime \<Rightarrow> 'z consumer_db_scheme
    \<Rightarrow> (py_error + bool) \<times> 'z consumer_db_scheme" where
  "consumer_acknowledge d clk = transaction (\<lambda>db.
    and_then (consumer_utc clk) (\<lambda>t.
      let current = isoformat t;
          mine = (\<lambda>r. holds_delivery d r \<and> null_gt (mc_claim_expires_at r) current);
          db' = db\<lparr>consumer_deliveries := sql_update mine (completed_row current) (consumer_deliveries db)\<rparr>
      in if sql_rowcount mine (consumer_deliveries db) = 1
         then Inr (True, db'\<lparr>consumer_checkpoints := advance_checkpoint d current (consumer_checkpoints db')\<rparr>)
         else Inr (False, db')))"

datatype disposition = Retry | Gave_Up

text \<open>\<open>Gave_Up\<close> is the literal \<open>"dead_letter"\<close>, \<open>None\<close> a claim lost.\<close>

definition failed_row :: "string \<Rightarrow> string \<Rightarrow> bool \<Rightarrow> consumer_row \<Rightarrow> consumer_row" where
  "failed_row safe_error now exhausted r = r\<lparr>mc_status := (if exhausted then Dead_Letter else Pending),
    mc_last_error := Some safe_error, mc_claim_owner := None, mc_claim_started_at := None,
    mc_claim_expires_at := None, mc_dead_lettered_at := (if exhausted then Some now else None)\<rparr>"

definition consumer_fail :: "consumer_delivery \<Rightarrow> py_error \<Rightarrow> py_datetime \<Rightarrow> 'z consumer_db_scheme
    \<Rightarrow> (py_error + disposition option) \<times> 'z consumer_db_scheme" where
  "consumer_fail d error clk = transaction (\<lambda>db.
    and_then (consumer_utc clk) (\<lambda>t.
      let current = isoformat t in
      (case fetchone (sql_select (\<lambda>r. holds_delivery d r \<and> null_gt (mc_claim_expires_at r) current)
          (consumer_deliveries db)) of
         None \<Rightarrow> Inr (None, db)
       | Some row \<Rightarrow>
           let exhausted = (mc_max_attempts row \<le> mc_attempt_count row) in
           Inr (if sql_rowcount (holds_delivery d) (consumer_deliveries db) \<noteq> 1 then None
                else Some (if exhausted then Gave_Up else Retry),
             db\<lparr>consumer_deliveries := sql_update (holds_delivery d)
               (failed_row (exception_name error @ '': handler failed'') current exhausted)
               (consumer_deliveries db)\<rparr>))))"

section \<open>Recovery and reading\<close>

definition expired_delivery :: "string \<Rightarrow> string \<Rightarrow> consumer_row \<Rightarrow> bool" where
  "expired_delivery consumer_group now r \<longleftrightarrow> mc_consumer_group r = consumer_group \<and> mc_status r = Processing \<and>
    null_le (mc_claim_expires_at r) now \<and> mc_attempt_count r < mc_max_attempts r"

definition recovered_row :: "consumer_row \<Rightarrow> consumer_row" where
  "recovered_row r = r\<lparr>mc_status := Pending, mc_claim_owner := None, mc_claim_started_at := None,
    mc_claim_expires_at := None, mc_last_error := Some ''LeaseExpired: handler did not acknowledge''\<rparr>"

text \<open>The result is the deliveries to retry and the dead letters.\<close>

definition recover_deliveries :: "string \<Rightarrow> py_datetime \<Rightarrow> 'z consumer_db_scheme
    \<Rightarrow> (py_error + nat \<times> nat) \<times> 'z consumer_db_scheme" where
  "recover_deliveries consumer_group clk db =
    (case validate_identity ''consumer group'' consumer_group of
       Inl e \<Rightarrow> (Inl e, db)
     | Inr _ \<Rightarrow>
         transaction (\<lambda>db.
           and_then (consumer_utc clk) (\<lambda>t.
             let current = isoformat t;
                 (dead, t1) = dead_letter_exhausted_locked consumer_group current (consumer_deliveries db)
             in Inr ((sql_rowcount (expired_delivery consumer_group current) t1, dead),
                  db\<lparr>consumer_deliveries :=
                    sql_update (expired_delivery consumer_group current) recovered_row t1\<rparr>))) db)"

definition get_checkpoint :: "string \<Rightarrow> 'z consumer_db_scheme \<Rightarrow> py_error + checkpoint_row option" where
  "get_checkpoint consumer_group db =
    and_then (validate_identity ''consumer group'' consumer_group) (\<lambda>_.
      Inr (row_by cp_consumer_group consumer_group (consumer_checkpoints db)))"

definition status_counts :: "string \<Rightarrow> 'z consumer_db_scheme \<Rightarrow> py_error + (delivery_status \<Rightarrow> nat)" where
  "status_counts consumer_group db =
    and_then (validate_identity ''consumer group'' consumer_group) (\<lambda>_.
      Inr (\<lambda>s. sql_rowcount (\<lambda>r. mc_consumer_group r = consumer_group \<and> mc_status r = s) (consumer_deliveries db)))"

record dead_letter =
  dl_event_id :: string
  dl_dedupe_key :: string
  dl_attempt_count :: int
  dl_max_attempts :: int
  dl_last_error :: "string option"
  dl_dead_lettered_at :: "string option"

definition list_dead_letters :: "string \<Rightarrow> int \<Rightarrow> 'z consumer_db_scheme \<Rightarrow> py_error + dead_letter list" where
  "list_dead_letters consumer_group limit db =
    and_then (validate_identity ''consumer group'' consumer_group) (\<lambda>_.
      Inr (map (\<lambda>r. \<lparr>dl_event_id = mc_event_id r, dl_dedupe_key = mc_dedupe_key r,
          dl_attempt_count = mc_attempt_count r, dl_max_attempts = mc_max_attempts r,
          dl_last_error = mc_last_error r, dl_dead_lettered_at = mc_dead_lettered_at r\<rparr>)
        (take (bounded_limit 500 limit) (sort_key (\<lambda>r. (mc_dead_lettered_at r, mc_event_id r))
          (sql_select (\<lambda>r. mc_consumer_group r = consumer_group \<and> mc_status r = Dead_Letter)
            (consumer_deliveries db))))))"

section \<open>The runner\<close>

record message_consumer =
  mr_store :: consumer_store
  mr_consumer_group :: string
  mr_consumer_id :: string
  mr_max_attempts :: int

definition new_message_consumer :: "consumer_store \<Rightarrow> string \<Rightarrow> string \<Rightarrow> int \<Rightarrow> py_error + message_consumer" where
  "new_message_consumer store consumer_group consumer_id max_attempts =
    and_then (validate_identity ''consumer group'' consumer_group) (\<lambda>_.
    and_then (validate_identity ''consumer identity'' consumer_id) (\<lambda>_.
    and_then (require (1 \<le> max_attempts \<and> max_attempts \<le> 100)
      (ValueError ''consumer max attempts must be between 1 and 100'')) (\<lambda>_.
      Inr \<lparr>mr_store = store, mr_consumer_group = consumer_group, mr_consumer_id = consumer_id,
        mr_max_attempts = max_attempts\<rparr>)))"

definition consumer_submit :: "message_consumer \<Rightarrow> py_datetime \<Rightarrow> durable_event \<Rightarrow> string option
    \<Rightarrow> 'z consumer_db_scheme \<Rightarrow> (py_error + bool) \<times> 'z consumer_db_scheme" where
  "consumer_submit c clk event source_cursor =
    consumer_enqueue clk (mr_consumer_group c) event source_cursor (mr_max_attempts c)"

text \<open>A handler is a function of the event, its context and the whole state; \<open>Inl\<close> is a raise.\<close>

type_synonym 'db handler = "durable_event \<Rightarrow> handler_context \<Rightarrow> 'db \<Rightarrow> (py_error + unit) \<times> 'db"

definition delivery_context :: "consumer_delivery \<Rightarrow> handler_context" where
  "delivery_context d = \<lparr>hc_consumer_group = cd_consumer_group d, hc_consumer_id = cd_consumer_id d,
    hc_event_id = de_event_id (cd_event d), hc_dedupe_key = de_dedupe_key (cd_event d),
    hc_idempotency_key = idempotency_key d, hc_attempt = cd_attempt d\<rparr>"

record run_result =
  rr_claimed :: nat
  rr_succeeded :: nat
  rr_retrying :: nat
  rr_dead_lettered :: nat
  rr_lease_lost :: nat

definition fail_delivery :: "consumer_delivery \<Rightarrow> py_error \<Rightarrow> py_datetime \<Rightarrow> run_result \<Rightarrow> 'z consumer_db_scheme
    \<Rightarrow> (py_error + run_result) \<times> 'z consumer_db_scheme" where
  "fail_delivery d exc clk res db =
    (case consumer_fail d exc clk db of
       (Inl e, db') \<Rightarrow> (Inl e, db')
     | (Inr (Some Retry), db') \<Rightarrow> (Inr (res\<lparr>rr_retrying := rr_retrying res + 1\<rparr>), db')
     | (Inr (Some Gave_Up), db') \<Rightarrow> (Inr (res\<lparr>rr_dead_lettered := rr_dead_lettered res + 1\<rparr>), db')
     | (Inr None, db') \<Rightarrow> (Inr (res\<lparr>rr_lease_lost := rr_lease_lost res + 1\<rparr>), db'))"

definition acknowledge_delivery :: "consumer_delivery \<Rightarrow> py_datetime \<Rightarrow> run_result \<Rightarrow> 'z consumer_db_scheme
    \<Rightarrow> (py_error + run_result) \<times> 'z consumer_db_scheme" where
  "acknowledge_delivery d clk res db =
    (case consumer_acknowledge d clk db of
       (Inl e, db') \<Rightarrow> (Inl e, db')
     | (Inr True, db') \<Rightarrow> (Inr (res\<lparr>rr_succeeded := rr_succeeded res + 1\<rparr>), db')
     | (Inr False, db') \<Rightarrow> (Inr (res\<lparr>rr_lease_lost := rr_lease_lost res + 1\<rparr>), db'))"

text \<open>The loop; each delivery takes two moments, the handler's and that of its outcome.\<close>

fun process_deliveries :: "'z consumer_db_scheme handler \<Rightarrow> (nat \<Rightarrow> 'z consumer_db_scheme moment)
    \<Rightarrow> consumer_delivery list \<Rightarrow> nat \<Rightarrow> run_result \<Rightarrow> 'z consumer_db_scheme
    \<Rightarrow> (py_error + run_result) \<times> 'z consumer_db_scheme" where
  "process_deliveries handler ms [] k res db = (Inr res, db)"
| "process_deliveries handler ms (d # ds) k res db =
    (case handler (cd_event d) (delivery_context d) (mo_others (ms k) db) of
       (outcome, db1) \<Rightarrow>
         (case (case outcome of
             Inl exc \<Rightarrow> fail_delivery d exc (mo_clock (ms (k + 1))) res (mo_others (ms (k + 1)) db1)
           | Inr _ \<Rightarrow> acknowledge_delivery d (mo_clock (ms (k + 1))) res (mo_others (ms (k + 1)) db1)) of
            (Inl e, db2) \<Rightarrow> (Inl e, db2)
          | (Inr res', db2) \<Rightarrow> process_deliveries handler ms ds (k + 2) res' db2))"

definition process_once :: "board_env \<Rightarrow> (json \<Rightarrow> string) \<Rightarrow> message_consumer \<Rightarrow> 'z consumer_db_scheme handler
    \<Rightarrow> int \<Rightarrow> (nat \<Rightarrow> 'z consumer_db_scheme moment) \<Rightarrow> 'z consumer_db_scheme
    \<Rightarrow> (py_error + run_result) \<times> 'z consumer_db_scheme" where
  "process_once env repr c handler limit ms db =
    (case consumer_claim_batch env repr (mr_store c) (mr_consumer_group c) (mr_consumer_id c) limit
        (mo_clock (ms 0)) (mo_others (ms 0) db) of
       (Inl e, db1) \<Rightarrow> (Inl e, db1)
     | (Inr deliveries, db1) \<Rightarrow>
         process_deliveries handler ms deliveries 1
           \<lparr>rr_claimed = length deliveries, rr_succeeded = 0, rr_retrying = 0, rr_dead_lettered = 0,
            rr_lease_lost = 0\<rparr> db1)"

definition require_process_once :: "board_env \<Rightarrow> (json \<Rightarrow> string) \<Rightarrow> message_consumer
    \<Rightarrow> 'z consumer_db_scheme handler \<Rightarrow> int \<Rightarrow> (nat \<Rightarrow> 'z consumer_db_scheme moment) \<Rightarrow> 'z consumer_db_scheme
    \<Rightarrow> (py_error + run_result) \<times> 'z consumer_db_scheme" where
  "require_process_once env repr c handler limit ms db =
    (case process_once env repr c handler limit ms db of
       (Inl e, db') \<Rightarrow> (Inl e, db')
     | (Inr res, db') \<Rightarrow>
         (if rr_lease_lost res \<noteq> 0
          then (Inl (ConsumerLeaseLost ''consumer handler lost its delivery lease''), db')
          else (Inr res, db')))"

end
