(* ===== verification/Consumer_Ledger.thy ===== *)
theory Consumer_Ledger
  imports Message_Consumer
begin

text \<open>
  What the delivery ledger promises: its rows and checkpoints stay consistent, claims are fenced,
  a delivery is attempted a bounded number of times and completed at most once, and what a
  handler receives is the event that was enqueued.
\<close>

section \<open>How deliveries evolve\<close>

definition delivery_identity :: "consumer_row \<Rightarrow> string \<times> string \<times> string \<times> string option \<times> string \<times> int" where
  "delivery_identity r = (mc_consumer_group r, mc_event_id r, mc_dedupe_key r, mc_source_cursor r,
    mc_envelope_json r, mc_max_attempts r)"

definition terminal :: "delivery_status \<Rightarrow> bool" where
  "terminal s \<longleftrightarrow> s = Completed \<or> s = Dead_Letter"

definition delivery_evolves :: "consumer_row \<Rightarrow> consumer_row \<Rightarrow> bool" where
  "delivery_evolves r r' \<longleftrightarrow> r' = r \<or>
    (\<not> terminal (mc_status r) \<and> delivery_identity r' = delivery_identity r \<and>
     (mc_claim_generation r < mc_claim_generation r' \<or>
      mc_claim_generation r' = mc_claim_generation r \<and> mc_claim_owner r' = None))"

text \<open>A row's columns agree with its status, and every claim was counted as an attempt.\<close>

definition delivery_ok :: "consumer_row \<Rightarrow> bool" where
  "delivery_ok r \<longleftrightarrow> 0 \<le> mc_attempt_count r \<and> mc_attempt_count r \<le> mc_max_attempts r \<and>
    mc_claim_generation r = mc_attempt_count r \<and>
    (mc_claim_owner r = None) = (mc_status r \<noteq> Processing) \<and>
    (mc_claim_expires_at r = None) = (mc_status r \<noteq> Processing) \<and>
    (mc_dead_lettered_at r = None) = (mc_status r \<noteq> Dead_Letter) \<and>
    (mc_completed_at r = None) = (mc_status r \<noteq> Completed) \<and>
    (case mc_status r of
       Pending \<Rightarrow> mc_attempt_count r < mc_max_attempts r
     | Dead_Letter \<Rightarrow> mc_attempt_count r = mc_max_attempts r
     | _ \<Rightarrow> 0 < mc_attempt_count r)"

text \<open>What every operation but the acknowledgement does to a row.\<close>

definition delivery_works :: "consumer_row \<Rightarrow> consumer_row \<Rightarrow> bool" where
  "delivery_works r r' \<longleftrightarrow> delivery_evolves r r' \<and> (delivery_ok r \<longrightarrow> delivery_ok r') \<and>
    (mc_status r' = Completed \<longleftrightarrow> mc_status r = Completed)"

lemma delivery_evolves_refl [simp]: "delivery_evolves r r"
  by (simp add: delivery_evolves_def)

lemma delivery_works_refl [simp]: "delivery_works r r"
  by (simp add: delivery_works_def)

lemma delivery_evolves_trans: "delivery_evolves r s \<Longrightarrow> delivery_evolves s t \<Longrightarrow> delivery_evolves r t"
  unfolding delivery_evolves_def by auto

lemma delivery_works_trans: "delivery_works r s \<Longrightarrow> delivery_works s t \<Longrightarrow> delivery_works r t"
  unfolding delivery_works_def using delivery_evolves_trans by blast

lemma delivery_evolves_identity: "delivery_evolves r r' \<Longrightarrow> delivery_identity r' = delivery_identity r"
  by (auto simp: delivery_evolves_def)

lemma identity_fields:
  "delivery_identity r' = delivery_identity r \<Longrightarrow> delivery_key r' = delivery_key r"
  "delivery_identity r' = delivery_identity r \<Longrightarrow> delivery_dedupe r' = delivery_dedupe r"
  "delivery_identity r' = delivery_identity r \<Longrightarrow> mc_envelope_json r' = mc_envelope_json r"
  "delivery_identity r' = delivery_identity r \<Longrightarrow> mc_max_attempts r' = mc_max_attempts r"
  by (simp_all add: delivery_identity_def)

lemma works_evolves: "list_all2 delivery_works t t' \<Longrightarrow> list_all2 delivery_evolves t t'"
  by (erule list_all2_mono) (simp add: delivery_works_def)

lemma works_trans:
  "list_all2 delivery_works a b \<Longrightarrow> list_all2 delivery_works b c \<Longrightarrow> list_all2 delivery_works a c"
  by (rule list_all2_trans [OF delivery_works_trans])

text \<open>The table rewrites: each one works on the rows it selects.\<close>

lemma dead_letter_works: "exhausted_row g now r \<Longrightarrow> delivery_works r (dead_letter_row now r)"
  by (auto simp: exhausted_row_def delivery_works_def delivery_evolves_def dead_letter_row_def
      terminal_def delivery_identity_def delivery_ok_def)

lemma claimed_works:
  "claimable_delivery g now r \<Longrightarrow> delivery_works r (claimed_delivery i now ex r)"
  by (auto simp: claimable_delivery_def delivery_works_def delivery_evolves_def claimed_delivery_def
      terminal_def delivery_identity_def delivery_ok_def)

lemma recovered_works: "expired_delivery g now r \<Longrightarrow> delivery_works r (recovered_row r)"
  by (auto simp: expired_delivery_def delivery_works_def delivery_evolves_def recovered_row_def
      terminal_def delivery_identity_def delivery_ok_def)

lemma failed_works:
  "holds_delivery d r \<Longrightarrow> exhausted = (mc_max_attempts r \<le> mc_attempt_count r) \<Longrightarrow>
    delivery_works r (failed_row e now exhausted r)"
  by (auto simp: holds_delivery_def delivery_works_def delivery_evolves_def failed_row_def
      terminal_def delivery_identity_def delivery_ok_def)

lemma failed_evolves: "holds_delivery d r \<Longrightarrow> delivery_evolves r (failed_row e now exhausted r)"
  by (auto simp: holds_delivery_def delivery_evolves_def failed_row_def terminal_def delivery_identity_def)

lemma completed_evolves:
  "holds_delivery d r \<Longrightarrow> delivery_evolves r (completed_row now r) \<and> (delivery_ok r \<longrightarrow> delivery_ok (completed_row now r))"
  by (auto simp: holds_delivery_def delivery_evolves_def completed_row_def terminal_def
      delivery_identity_def delivery_ok_def)

lemma update_rows:
  "(\<And>r. r \<in> set t \<Longrightarrow> P r \<Longrightarrow> R r (f r)) \<Longrightarrow> (\<And>r. R r r) \<Longrightarrow> list_all2 R t (sql_update P f t)"
  by (induction t) (auto simp: sql_update_def)

lemma fold_claim_works:
  "list_all2 delivery_works (snd st) (snd (fold (claim_delivery g i now ex) cs st))"
proof (induction cs arbitrary: st)
  case Nil
  then show ?case by (simp add: list.rel_refl)
next
  case (Cons c cs)
  have "list_all2 delivery_works (snd st) (snd (claim_delivery g i now ex c st))"
    by (cases st) (auto simp: claim_delivery_def Let_def intro!: update_rows claimed_works)
  then show ?case
    using Cons [of "claim_delivery g i now ex c st"]
    by (auto intro: list_all2_trans [of delivery_works delivery_works delivery_works] delivery_works_trans)
qed

text \<open>Every operation leaves the rows in place and adds at most new ones.\<close>

definition ledger_works :: "'z consumer_db_scheme \<Rightarrow> 'z consumer_db_scheme \<Rightarrow> bool" where
  "ledger_works db db' \<longleftrightarrow> list_all2 delivery_works (consumer_deliveries db) (consumer_deliveries db') \<and>
    consumer_checkpoints db' = consumer_checkpoints db"

lemma ledger_works_refl [simp]: "ledger_works db db"
  by (simp add: ledger_works_def list.rel_refl)

lemma dead_letter_exhausted_works:
  "list_all2 delivery_works t (snd (dead_letter_exhausted_locked g now t))"
  by (auto simp: dead_letter_exhausted_locked_def intro!: update_rows dead_letter_works)

lemma claim_deliveries_works: "ledger_works db (snd (claim_deliveries st g i limit clk db))"
  unfolding claim_deliveries_def
proof (rule transaction_preserves [of "ledger_works db"])
  fix rows db'
  assume "and_then (consumer_utc clk) (\<lambda>current.
    and_then (dt_add_seconds current (cs_claim_lease_seconds st)) (\<lambda>expires.
      let now_text = isoformat current;
          t = snd (dead_letter_exhausted_locked g now_text (consumer_deliveries db));
          candidates = take (bounded_limit 100 limit) (sort_key (\<lambda>r. (mc_created_at r, mc_event_id r))
            (sql_select (claimable_delivery g now_text) t));
          (claimed, t') = fold (claim_delivery g i now_text (isoformat expires)) candidates ([], t)
      in and_then (fetch_deliveries g claimed t') (\<lambda>rows.
           Inr (rows, db\<lparr>consumer_deliveries := t'\<rparr>)))) = Inr (rows, db')"
  then obtain now ex cs where "db' = db\<lparr>consumer_deliveries :=
      snd (fold (claim_delivery g i now ex) cs ([], snd (dead_letter_exhausted_locked g now (consumer_deliveries db))))\<rparr>"
    by (auto simp: Let_def case_prod_beta)
  then show "ledger_works db db'"
    using works_trans [OF dead_letter_exhausted_works [of "consumer_deliveries db" g now]
        fold_claim_works [of "([], _)" g i now ex cs, unfolded snd_conv]]
    by (simp add: ledger_works_def)
qed simp

lemma consumer_claim_batch_db:
  "snd (consumer_claim_batch env repr st g i limit clk db) = db \<or>
    snd (consumer_claim_batch env repr st g i limit clk db) = snd (claim_deliveries st g i limit clk db)"
  by (auto simp: consumer_claim_batch_def split: sum.split prod.split)

lemma consumer_claim_batch_works: "ledger_works db (snd (consumer_claim_batch env repr st g i limit clk db))"
  using consumer_claim_batch_db [of env repr st g i limit clk db] claim_deliveries_works by force

lemma recover_deliveries_works: "ledger_works db (snd (recover_deliveries g clk db))"
proof -
  have "list_all2 delivery_works t (sql_update (expired_delivery g now) recovered_row
      (snd (dead_letter_exhausted_locked g now t)))" for t now
    by (rule works_trans [OF dead_letter_exhausted_works]) (auto intro!: update_rows recovered_works)
  then show ?thesis
    by (auto simp: recover_deliveries_def Let_def case_prod_beta split: sum.split
        intro!: transaction_preserves [of "ledger_works db"]) (simp add: ledger_works_def)
qed

lemma consumer_fail_evolves:
  "list_all2 delivery_evolves (consumer_deliveries db) (consumer_deliveries (snd (consumer_fail d e clk db)))"
  unfolding consumer_fail_def
  by (rule transaction_preserves) (auto simp: list.rel_refl Let_def intro!: update_rows failed_evolves
      split: option.split_asm)

lemma consumer_fail_works:
  assumes "distinct (map delivery_key (consumer_deliveries db))"
  shows "ledger_works db (snd (consumer_fail d e clk db))"
  unfolding consumer_fail_def
proof (rule transaction_preserves [of "ledger_works db"])
  fix r db'
  assume run: "and_then (consumer_utc clk) (\<lambda>t.
      let current = isoformat t in
      (case fetchone (sql_select (\<lambda>r. holds_delivery d r \<and> null_gt (mc_claim_expires_at r) current)
          (consumer_deliveries db)) of
         None \<Rightarrow> Inr (None, db)
       | Some row \<Rightarrow>
           let exhausted = (mc_max_attempts row \<le> mc_attempt_count row) in
           Inr (if sql_rowcount (holds_delivery d) (consumer_deliveries db) \<noteq> 1 then None
                else Some (if exhausted then Gave_Up else Retry),
             db\<lparr>consumer_deliveries := sql_update (holds_delivery d)
               (failed_row (exception_name e @ '': handler failed'') current exhausted)
               (consumer_deliveries db)\<rparr>))) = Inr (r, db')"
  show "ledger_works db db'"
  proof (cases "db' = db")
    case False
    with run obtain now row where row: "row \<in> set (consumer_deliveries db)" "holds_delivery d row"
      and db': "db' = db\<lparr>consumer_deliveries := sql_update (holds_delivery d)
         (failed_row (exception_name e @ '': handler failed'') now (mc_max_attempts row \<le> mc_attempt_count row))
         (consumer_deliveries db)\<rparr>"
      by (auto simp: Let_def dest!: fetchone_select_Some split: option.split_asm)
    have "x = row" if "x \<in> set (consumer_deliveries db)" "holds_delivery d x" for x
      using distinct_key_eq [OF assms that(1) row(1)] that(2) row(2) by (simp add: holds_delivery_def)
    then show ?thesis
      using failed_works by (auto simp: db' ledger_works_def intro!: update_rows)
  qed simp
qed simp

section \<open>Consistent ledgers\<close>

definition completed_count :: "string \<Rightarrow> consumer_row sql_table \<Rightarrow> nat" where
  "completed_count g t = sql_rowcount (\<lambda>r. mc_consumer_group r = g \<and> mc_status r = Completed) t"

definition checkpoint_count :: "string \<Rightarrow> checkpoint_row sql_table \<Rightarrow> int" where
  "checkpoint_count g t = (case row_by cp_consumer_group g t of None \<Rightarrow> 0 | Some c \<Rightarrow> cp_completed_count c)"

text \<open>The envelope is that of an event with the row's identifiers.\<close>

definition envelope_ok :: "string \<times> string \<times> string \<times> string option \<times> string \<times> int \<Rightarrow> bool" where
  "envelope_ok = (\<lambda>(g, event_id, dedupe_key, cursor, envelope, max_attempts).
    \<exists>e. json_dict (de_payload e) \<and> encode_event e = Inr envelope \<and> de_event_id e = event_id \<and>
      de_dedupe_key e = dedupe_key)"

definition ledger_wf :: "'z consumer_db_scheme \<Rightarrow> bool" where
  "ledger_wf db \<longleftrightarrow>
    distinct (map delivery_key (consumer_deliveries db)) \<and>
    distinct (map delivery_dedupe (consumer_deliveries db)) \<and>
    (\<forall>r \<in> set (consumer_deliveries db). delivery_ok r) \<and>
    (\<forall>r \<in> set (consumer_deliveries db). envelope_ok (delivery_identity r)) \<and>
    (\<forall>g. checkpoint_count g (consumer_checkpoints db) = int (completed_count g (consumer_deliveries db)))"

lemma evolves_keys:
  assumes "list_all2 delivery_evolves t t'"
  shows "map delivery_key t' = map delivery_key t" "map delivery_dedupe t' = map delivery_dedupe t"
  using assms
  by (induction rule: list_all2_induct) (auto dest!: delivery_evolves_identity dest: identity_fields)

lemma evolves_identities:
  "list_all2 delivery_evolves t t' \<Longrightarrow> map delivery_identity t' = map delivery_identity t"
  by (induction rule: list_all2_induct) (auto dest!: delivery_evolves_identity)

lemma identities_ok:
  assumes "map delivery_identity t' = map delivery_identity t" "\<forall>r \<in> set t. envelope_ok (delivery_identity r)"
  shows "\<forall>r \<in> set t'. envelope_ok (delivery_identity r)"
proof -
  have "delivery_identity ` set t' = delivery_identity ` set t"
    using arg_cong [OF assms(1), of set] by (simp only: set_map)
  then have "envelope_ok i" if "i \<in> delivery_identity ` set t'" for i using that assms(2) by auto
  then show ?thesis by blast
qed

lemma works_completed: "list_all2 delivery_works t t' \<Longrightarrow> completed_count g t' = completed_count g t"
proof (induction rule: list_all2_induct)
  case (Cons x xs y ys)
  then have "mc_consumer_group y = mc_consumer_group x" "mc_status y = Completed \<longleftrightarrow> mc_status x = Completed"
    using identity_fields(1) [OF delivery_evolves_identity] by (auto simp: delivery_works_def)
  then show ?case using Cons.IH by (simp add: completed_count_def table_simps)
qed simp

lemma works_ok:
  "list_all2 delivery_works t t' \<Longrightarrow> \<forall>r \<in> set t. delivery_ok r \<Longrightarrow> \<forall>r \<in> set t'. delivery_ok r"
  by (induction rule: list_all2_induct) (auto simp: delivery_works_def)

lemma ledger_works_wf: "ledger_works db db' \<Longrightarrow> ledger_wf db \<Longrightarrow> ledger_wf db'"
proof -
  assume "ledger_works db db'" and wf: "ledger_wf db"
  then have w: "list_all2 delivery_works (consumer_deliveries db) (consumer_deliveries db')"
    "consumer_checkpoints db' = consumer_checkpoints db" by (simp_all add: ledger_works_def)
  note ev = works_evolves [OF w(1)]
  have "\<forall>r \<in> set (consumer_deliveries db'). delivery_ok r"
    by (rule works_ok [OF w(1)]) (use wf in \<open>simp add: ledger_wf_def\<close>)
  moreover have "\<forall>r \<in> set (consumer_deliveries db'). envelope_ok (delivery_identity r)"
    by (rule identities_ok [OF evolves_identities [OF ev]]) (use wf in \<open>simp add: ledger_wf_def\<close>)
  ultimately show ?thesis
    using wf by (simp add: ledger_wf_def evolves_keys [OF ev] works_completed [OF w(1)] w(2))
qed

lemma consumer_enqueue_cases:
  assumes "consumer_enqueue clk g e cur mx db = (r, db')"
  obtains (unchanged) "db' = db" "r \<noteq> Inr True"
  | (inserted) s now where "r = Inr True" "encode_event e = Inr s" "1 \<le> mx"
      "row_by delivery_key (g, de_event_id e) (consumer_deliveries db) = None"
      "row_by delivery_dedupe (g, de_dedupe_key e) (consumer_deliveries db) = None"
      "db' = db\<lparr>consumer_deliveries := consumer_deliveries db @ [new_delivery_row g e cur s mx now]\<rparr>"
proof (cases "r = Inr True")
  case True
  with assms inserted show ?thesis
    by (fastforce simp: consumer_enqueue_def Let_def transaction_Inr_iff require_Inr_iff
        split: sum.split_asm option.split_asm if_split_asm)
next
  case False
  with assms have "db' = db"
    by (auto simp: consumer_enqueue_def Let_def transaction_def
        split: sum.split_asm option.split_asm if_split_asm)
  with False unchanged show ?thesis by blast
qed

lemma new_delivery_row_facts:
  "delivery_key (new_delivery_row g e cur s mx now) = (g, de_event_id e)"
  "delivery_dedupe (new_delivery_row g e cur s mx now) = (g, de_dedupe_key e)"
  "mc_status (new_delivery_row g e cur s mx now) = Pending"
  "1 \<le> mx \<Longrightarrow> delivery_ok (new_delivery_row g e cur s mx now)"
  by (simp_all add: new_delivery_row_def delivery_ok_def)

lemma consumer_enqueue_wf:
  assumes wf: "ledger_wf db" and "json_dict (de_payload e)"
  shows "ledger_wf (snd (consumer_enqueue clk g e cur mx db))"
proof -
  obtain r db' where run: "consumer_enqueue clk g e cur mx db = (r, db')" by fastforce
  then show ?thesis
  proof (cases rule: consumer_enqueue_cases)
    case (inserted s now)
    let ?n = "new_delivery_row g e cur s mx now"
    have "delivery_key ?n \<notin> delivery_key ` set (consumer_deliveries db)"
      "delivery_dedupe ?n \<notin> delivery_dedupe ` set (consumer_deliveries db)"
      using inserted(4,5) by (simp_all only: row_by_None_iff new_delivery_row_facts not_False_eq_True)
    moreover have "completed_count h (consumer_deliveries db @ [?n]) = completed_count h (consumer_deliveries db)" for h
      by (simp add: completed_count_def sql_rowcount_def new_delivery_row_facts)
    moreover have "envelope_ok (delivery_identity ?n)"
      using inserted(2) assms(2) by (auto simp: envelope_ok_def delivery_identity_def new_delivery_row_def)
    ultimately show ?thesis
      using wf new_delivery_row_facts(4) [OF inserted(3)] by (auto simp: run inserted(6) ledger_wf_def)
  qed (use wf run in simp)
qed

lemma rowcount_update_gain:
  assumes "\<And>r. r \<in> set t \<Longrightarrow> P r \<Longrightarrow> \<not> Q r \<and> Q (f r)"
  shows "sql_rowcount Q (sql_update P f t) = sql_rowcount Q t + sql_rowcount P t"
  using assms by (induction t) (auto simp: table_simps)

lemma advance_checkpoint_count:
  "checkpoint_count g (advance_checkpoint d now t) =
    checkpoint_count g t + (if g = cd_consumer_group d then 1 else 0)"
proof (cases "row_by cp_consumer_group (cd_consumer_group d) t")
  case None
  then show ?thesis
    by (auto simp: checkpoint_count_def advance_checkpoint_def row_by_append
        simp del: sql_select_append split: option.split)
next
  case (Some c)
  have "row_by cp_consumer_group g (advance_checkpoint d now t) =
    map_option (\<lambda>c. if cp_consumer_group c = cd_consumer_group d
      then c\<lparr>cp_last_event_id := de_event_id (cd_event d), cp_last_source_cursor := cd_source_cursor d,
        cp_completed_count := cp_completed_count c + 1, cp_updated_at := now\<rparr> else c) (row_by cp_consumer_group g t)"
    using Some by (simp add: advance_checkpoint_def row_by_sql_update)
  with Some show ?thesis
    by (auto simp: checkpoint_count_def dest: row_by_SomeD split: option.split)
qed

lemma consumer_acknowledge_cases:
  assumes "consumer_acknowledge d clk db = (r, db')"
  obtains (refused) "r \<noteq> Inr True" "consumer_checkpoints db' = consumer_checkpoints db"
      "list_all2 delivery_evolves (consumer_deliveries db) (consumer_deliveries db')"
      "distinct (map delivery_key (consumer_deliveries db)) \<longrightarrow> db' = db"
  | (completed) now where "r = Inr True"
      "sql_rowcount (\<lambda>r. holds_delivery d r \<and> null_gt (mc_claim_expires_at r) now) (consumer_deliveries db) = 1"
      "db' = db\<lparr>consumer_deliveries := sql_update
          (\<lambda>r. holds_delivery d r \<and> null_gt (mc_claim_expires_at r) now) (completed_row now) (consumer_deliveries db),
        consumer_checkpoints := advance_checkpoint d now (consumer_checkpoints db)\<rparr>"
proof (cases "r = Inr True")
  case True
  with assms completed show ?thesis
    by (auto simp: consumer_acknowledge_def Let_def transaction_Inr_iff split: if_split_asm)
next
  case False
  have "db' = db \<or> (\<exists>now. let mine = \<lambda>r. holds_delivery d r \<and> null_gt (mc_claim_expires_at r) now in
      sql_rowcount mine (consumer_deliveries db) \<noteq> 1 \<and>
      db' = db\<lparr>consumer_deliveries := sql_update mine (completed_row now) (consumer_deliveries db)\<rparr>)"
  proof (cases r)
    case (Inl e)
    then show ?thesis using assms by (simp add: consumer_acknowledge_def transaction_Inl_iff)
  next
    case (Inr b)
    then show ?thesis using assms False
      by (auto simp: consumer_acknowledge_def Let_def transaction_Inr_iff split: if_split_asm)
  qed
  then consider "db' = db" | now where
    "sql_rowcount (\<lambda>r. holds_delivery d r \<and> null_gt (mc_claim_expires_at r) now) (consumer_deliveries db) \<noteq> 1"
    "db' = db\<lparr>consumer_deliveries := sql_update (\<lambda>r. holds_delivery d r \<and> null_gt (mc_claim_expires_at r) now)
       (completed_row now) (consumer_deliveries db)\<rparr>" by (auto simp: Let_def)
  then show ?thesis
  proof cases
    case 1
    then show ?thesis by (intro refused) (simp_all add: False list.rel_refl)
  next
    case 2
    let ?mine = "\<lambda>r. holds_delivery d r \<and> null_gt (mc_claim_expires_at r) now"
    have "db' = db" if k: "distinct (map delivery_key (consumer_deliveries db))"
    proof -
      have "sql_rowcount ?mine (consumer_deliveries db) \<le> 1"
        by (rule sql_rowcount_le_1 [OF k]) (simp add: holds_delivery_def)
      with 2 show ?thesis by (simp add: sql_update_none)
    qed
    moreover have "list_all2 delivery_evolves (consumer_deliveries db) (consumer_deliveries db')"
      using 2(2) completed_evolves by (auto intro!: update_rows)
    ultimately show ?thesis using 2 False by (intro refused) simp_all
  qed
qed

lemma consumer_acknowledge_evolves:
  "list_all2 delivery_evolves (consumer_deliveries db) (consumer_deliveries (snd (consumer_acknowledge d clk db)))"
proof -
  obtain r db' where run: "consumer_acknowledge d clk db = (r, db')" by fastforce
  then show ?thesis
    by (cases rule: consumer_acknowledge_cases) (use run completed_evolves in \<open>auto intro!: update_rows\<close>)
qed

lemma consumer_acknowledge_wf: "ledger_wf db \<Longrightarrow> ledger_wf (snd (consumer_acknowledge d clk db))"
proof -
  assume wf: "ledger_wf db"
  obtain r db' where run: "consumer_acknowledge d clk db = (r, db')" by fastforce
  then show ?thesis
  proof (cases rule: consumer_acknowledge_cases)
    case refused
    then show ?thesis using wf run by (simp add: ledger_wf_def)
  next
    case (completed now)
    let ?mine = "\<lambda>r. holds_delivery d r \<and> null_gt (mc_claim_expires_at r) now"
    let ?t = "consumer_deliveries db" and ?t' = "consumer_deliveries db'"
    have t': "?t' = sql_update ?mine (completed_row now) ?t" using completed(3) by simp
    have count: "completed_count h ?t' = completed_count h ?t + (if h = cd_consumer_group d then 1 else 0)" for h
    proof (cases "h = cd_consumer_group d")
      case True
      then have "completed_count h ?t' = completed_count h ?t + sql_rowcount ?mine ?t"
        unfolding t' completed_count_def
        by (intro rowcount_update_gain) (auto simp: holds_delivery_def completed_row_def)
      with True completed(2) show ?thesis by simp
    next
      case False
      have "(mc_consumer_group (completed_row now r) = h) = (mc_consumer_group r = h)" "mine r \<Longrightarrow> mine r" for r mine
        by (simp_all add: completed_row_def)
      then have "completed_count h ?t' = completed_count h ?t"
        unfolding t' completed_count_def using False
        by (induction ?t arbitrary: db) (auto simp: sql_rowcount_def sql_update_def filter_map comp_def holds_delivery_def intro!: arg_cong [where f = length] filter_cong)
      with False show ?thesis by simp
    qed
    have ev: "list_all2 delivery_evolves ?t ?t'"
      using consumer_acknowledge_evolves [of db d clk] run by simp
    note keys = evolves_keys [OF ev]
    have env: "\<forall>r \<in> set ?t'. envelope_ok (delivery_identity r)"
      by (rule identities_ok [OF evolves_identities [OF ev]]) (use wf in \<open>simp add: ledger_wf_def\<close>)
    have ok: "\<forall>r \<in> set ?t'. delivery_ok r"
      using wf completed_evolves by (auto simp: t' sql_update_def ledger_wf_def)
    show ?thesis
      using wf keys ok env count completed(3) advance_checkpoint_count [of _ d now "consumer_checkpoints db"]
      by (simp add: run ledger_wf_def)
  qed
qed

section \<open>Runs of the ledger\<close>

text \<open>Any consumers of any groups interleave, with any clocks, and anything that leaves the ledger alone.\<close>

inductive consumer_step :: "'z consumer_db_scheme \<Rightarrow> 'z consumer_db_scheme \<Rightarrow> bool" where
  enqueue: "json_dict (de_payload e) \<Longrightarrow> consumer_step db (snd (consumer_enqueue clk g e cur mx db))"
| claim: "consumer_step db (snd (consumer_claim_batch env repr st g i limit clk db))"
| acknowledge: "consumer_step db (snd (consumer_acknowledge d clk db))"
| fail: "consumer_step db (snd (consumer_fail d e clk db))"
| recover: "consumer_step db (snd (recover_deliveries g clk db))"
| other: "consumer_deliveries db' = consumer_deliveries db \<Longrightarrow> consumer_checkpoints db' = consumer_checkpoints db \<Longrightarrow>
    consumer_step db db'"

lemma consumer_step_wf: "consumer_step s t \<Longrightarrow> ledger_wf s \<Longrightarrow> ledger_wf t"
proof (induction rule: consumer_step.induct)
  case (fail db d e clk)
  then show ?case using consumer_fail_works ledger_works_wf by (metis ledger_wf_def)
next
  case (other db' db)
  then show ?case by (simp add: ledger_wf_def)
next
  case (enqueue e db clk g cur mx)
  then show ?case by (simp add: consumer_enqueue_wf)
next
  case (claim db env repr st g i limit clk)
  then show ?case by (rule ledger_works_wf [OF consumer_claim_batch_works])
next
  case (recover db g clk)
  then show ?case by (rule ledger_works_wf [OF recover_deliveries_works])
next
  case (acknowledge db d clk)
  then show ?case by (rule consumer_acknowledge_wf)
qed

lemma consumer_steps_wf: "consumer_step\<^sup>*\<^sup>* s t \<Longrightarrow> ledger_wf s \<Longrightarrow> ledger_wf t"
  by (induction rule: rtranclp_induct) (auto dest: consumer_step_wf)

lemma consumer_step_rows:
  "consumer_step s t \<Longrightarrow> \<exists>t1 u. consumer_deliveries t = t1 @ u \<and>
    list_all2 delivery_evolves (consumer_deliveries s) t1"
proof (induction rule: consumer_step.induct)
  case (enqueue e db clk g cur mx)
  obtain r db' where run: "consumer_enqueue clk g e cur mx db = (r, db')" by fastforce
  then have "\<exists>u. consumer_deliveries db' = consumer_deliveries db @ u"
    by (cases rule: consumer_enqueue_cases) auto
  moreover have "list_all2 delivery_evolves (consumer_deliveries db) (consumer_deliveries db)"
    by (simp add: list.rel_refl)
  ultimately show ?case using run by auto
next
  case (acknowledge db d clk)
  show ?case using consumer_acknowledge_evolves [of db d clk] append_Nil2 by metis
next
  case (fail db d e clk)
  show ?case using consumer_fail_evolves [of db d e clk] append_Nil2 by metis
next
  case (other db' db)
  then have "list_all2 delivery_evolves (consumer_deliveries db) (consumer_deliveries db')"
    by (simp add: list.rel_refl)
  then show ?case using append_Nil2 by metis
next
  case (claim db env repr st g i limit clk)
  have "list_all2 delivery_evolves (consumer_deliveries db)
      (consumer_deliveries (snd (consumer_claim_batch env repr st g i limit clk db)))"
    using consumer_claim_batch_works [of db env repr st g i limit clk] works_evolves by (simp add: ledger_works_def)
  then show ?case using append_Nil2 by metis
next
  case (recover db g clk)
  have "list_all2 delivery_evolves (consumer_deliveries db) (consumer_deliveries (snd (recover_deliveries g clk db)))"
    using recover_deliveries_works [of db g clk] works_evolves by (simp add: ledger_works_def)
  then show ?case using append_Nil2 by metis
qed

lemma evolves_row:
  assumes "list_all2 delivery_evolves t t'" and "row_by delivery_key k t = Some r"
  shows "\<exists>r'. row_by delivery_key k t' = Some r' \<and> delivery_evolves r r'"
  using assms
proof (induction rule: list_all2_induct)
  case (Cons x xs y ys)
  then show ?case
    using identity_fields(1) [OF delivery_evolves_identity [OF Cons.hyps(1)]]
    by (cases "delivery_key x = k") (auto simp: table_simps)
qed simp

lemma consumer_steps_row:
  "consumer_step\<^sup>*\<^sup>* s t \<Longrightarrow> row_by delivery_key k (consumer_deliveries s) = Some r \<Longrightarrow>
    \<exists>r'. row_by delivery_key k (consumer_deliveries t) = Some r' \<and> delivery_evolves r r'"
proof (induction rule: rtranclp_induct)
  case (step t u)
  then obtain r' where r': "row_by delivery_key k (consumer_deliveries t) = Some r'" "delivery_evolves r r'"
    by blast
  obtain t1 v where u: "consumer_deliveries u = t1 @ v" "list_all2 delivery_evolves (consumer_deliveries t) t1"
    using consumer_step_rows [OF step.hyps(2)] by blast
  obtain r'' where r'': "row_by delivery_key k t1 = Some r''" "delivery_evolves r' r''"
    using evolves_row [OF u(2) r'(1)] by blast
  have "row_by delivery_key k (consumer_deliveries u) = Some r''"
    unfolding u(1) by (rule row_by_extend [OF r''(1)])
  then show ?case using delivery_evolves_trans [OF r'(2) r''(2)] by blast
qed auto

definition consumer_claim :: "'z consumer_db_scheme \<Rightarrow> string \<times> string \<Rightarrow> (int \<times> string option) option" where
  "consumer_claim db k =
    map_option (\<lambda>r. (mc_claim_generation r, mc_claim_owner r)) (row_by delivery_key k (consumer_deliveries db))"

lemma consumer_step_claim:
  assumes "consumer_step s t" and "consumer_claim s k = Some (g, h)"
  shows "\<exists>g' h'. consumer_claim t k = Some (g', h') \<and> (g < g' \<or> g' = g \<and> (h' = h \<or> h' = None))"
proof -
  obtain r where r: "row_by delivery_key k (consumer_deliveries s) = Some r" "g = mc_claim_generation r"
    "h = mc_claim_owner r" using assms(2) by (auto simp: consumer_claim_def)
  obtain r' where "row_by delivery_key k (consumer_deliveries t) = Some r'" "delivery_evolves r r'"
    using consumer_steps_row [OF r_into_rtranclp [of consumer_step, OF assms(1)] r(1)] by blast
  with r(2,3) show ?thesis by (auto simp: consumer_claim_def delivery_evolves_def)
qed

interpretation consumer: fenced_claims consumer_step consumer_claim
  by unfold_locales (rule consumer_step_claim)

section \<open>What a batch hands out\<close>

lemma claim_delivery_hit:
  assumes "distinct (map delivery_key t)" "c \<in> set t" "claimable_delivery g now c"
  shows "claim_delivery g i now ex c (cl, t) =
    (cl @ [mc_event_id c], sql_update (\<lambda>r. r = c) (claimed_delivery i now ex) t)"
proof -
  let ?mine = "\<lambda>r. delivery_key r = (g, mc_event_id c) \<and> mc_claim_generation r = mc_claim_generation c \<and>
    claimable_delivery g now r"
  have g: "mc_consumer_group c = g" using assms(3) by (simp add: claimable_delivery_def)
  have "?mine r = (r = c)" if "r \<in> set t" for r
    using assms that distinct_key_eq [OF assms(1) that assms(2)] g by auto
  then have "sql_update ?mine (claimed_delivery i now ex) t = sql_update (\<lambda>r. r = c) (claimed_delivery i now ex) t"
    by (simp add: sql_update_def)
  moreover have "sql_rowcount ?mine t = 1"
    by (rule sql_rowcount_key [OF assms(1,2)]) (use assms(3) g in auto)
  ultimately show ?thesis by (simp add: claim_delivery_def Let_def)
qed

lemma claimed_delivery_simps [simp]:
  "mc_consumer_group (claimed_delivery i now ex r) = mc_consumer_group r"
  "mc_event_id (claimed_delivery i now ex r) = mc_event_id r"
  "mc_status (claimed_delivery i now ex r) = Processing"
  "mc_claim_owner (claimed_delivery i now ex r) = Some i"
  "mc_claim_generation (claimed_delivery i now ex r) = mc_claim_generation r + 1"
  by (simp_all add: claimed_delivery_def)

lemma fold_claim_deliveries:
  assumes "distinct (map delivery_key t)" "set cs \<subseteq> set t" "\<forall>c \<in> set cs. claimable_delivery g now c" "distinct cs"
  shows "fold (claim_delivery g i now ex) cs (cl, t) =
    (cl @ map mc_event_id cs, sql_update (\<lambda>r. r \<in> set cs) (claimed_delivery i now ex) t)"
  using assms
proof (induction cs arbitrary: cl t)
  case Nil
  then show ?case by (simp add: sql_update_id)
next
  case (Cons c cs)
  let ?F = "claimed_delivery i now ex"
  let ?t = "sql_update (\<lambda>r. r = c) ?F t"
  have keys: "map delivery_key ?t = map delivery_key t" by (simp add: map_sql_update)
  have sub: "set cs \<subseteq> set ?t" using Cons.prems(2,4) by (fastforce simp: sql_update_def)
  have "?F c \<notin> set cs"
  proof
    assume a: "?F c \<in> set cs"
    then have "?F c = c"
      using Cons.prems(1,2) distinct_key_eq [of delivery_key t "?F c" c] by auto
    with a Cons.prems(4) show False by simp
  qed
  then have "sql_update (\<lambda>r. r \<in> set cs) ?F ?t = sql_update (\<lambda>r. r \<in> set (c # cs)) ?F t"
    by (auto simp: sql_update_def)
  then show ?case
    using Cons.IH [of ?t "cl @ [mc_event_id c]"] Cons.prems keys sub
    by (simp add: claim_delivery_hit)
qed

lemma for_each_fetch_deliveries:
  assumes "\<forall>c \<in> set cs. row_by delivery_key (g, mc_event_id c) t = Some (F c)"
  shows "for_each (\<lambda>i rows. case row_by delivery_key (g, i) t of
        None \<Rightarrow> Inl (RuntimeError ''claimed consumer delivery disappeared'')
      | Some r \<Rightarrow> Inr (rows @ [r])) (map mc_event_id cs) acc = Inr (acc @ map F cs)"
  using assms by (induction cs arbitrary: acc) auto

lemma claim_deliveries_Inr:
  assumes "claim_deliveries st g i limit clk db = (Inr rows, db')"
    and "distinct (map delivery_key (consumer_deliveries db))"
  obtains t cs now ex where "list_all2 delivery_works (consumer_deliveries db) t"
    "set cs \<subseteq> set t" "\<forall>c \<in> set cs. claimable_delivery g now c" "rows = map (claimed_delivery i now ex) cs"
    "consumer_deliveries db' = sql_update (\<lambda>r. r \<in> set cs) (claimed_delivery i now ex) t"
proof -
  obtain now ex where run: "(let t = snd (dead_letter_exhausted_locked g now (consumer_deliveries db));
          candidates = take (bounded_limit 100 limit) (sort_key (\<lambda>r. (mc_created_at r, mc_event_id r))
            (sql_select (claimable_delivery g now) t));
          (claimed, t') = fold (claim_delivery g i now ex) candidates ([], t)
      in and_then (fetch_deliveries g claimed t') (\<lambda>rows.
           Inr (rows, db\<lparr>consumer_deliveries := t'\<rparr>))) = Inr (rows, db')"
    using assms(1) unfolding claim_deliveries_def transaction_Inr_iff and_then_Inr_iff
    by (metis (no_types, lifting))
  define t where "t = snd (dead_letter_exhausted_locked g now (consumer_deliveries db))"
  define cs where "cs = take (bounded_limit 100 limit) (sort_key (\<lambda>r. (mc_created_at r, mc_event_id r))
    (sql_select (claimable_delivery g now) t))"
  let ?F = "claimed_delivery i now ex"
  let ?t' = "sql_update (\<lambda>r. r \<in> set cs) ?F t"
  have works: "list_all2 delivery_works (consumer_deliveries db) t"
    unfolding t_def by (rule dead_letter_exhausted_works)
  have keys: "distinct (map delivery_key t)"
    using evolves_keys(1) [OF works_evolves [OF works]] assms(2) by simp
  have sub: "set cs \<subseteq> {c \<in> set t. claimable_delivery g now c}"
    using set_take_subset by (fastforce simp: cs_def)
  have dist: "distinct cs"
    using keys by (simp add: cs_def sql_select_def distinct_map)
  have fold: "fold (claim_delivery g i now ex) cs ([], t) = (map mc_event_id cs, ?t')"
    using fold_claim_deliveries [of t cs g now i ex "[]"] keys sub dist by auto
  have keys': "distinct (map delivery_key ?t')" using keys by (simp add: map_sql_update)
  have "row_by delivery_key (g, mc_event_id c) ?t' = Some (?F c)" if c: "c \<in> set cs" for c
  proof -
    have m: "?F c \<in> set ?t'" using c sub by (auto simp: sql_update_def image_iff intro!: bexI [of _ c])
    have "mc_consumer_group c = g" using c sub by (auto simp: claimable_delivery_def)
    then show ?thesis using row_by_unique [OF keys' m] by simp
  qed
  then have "fetch_deliveries g (map mc_event_id cs) ?t' = Inr (map ?F cs)"
    using for_each_fetch_deliveries [of cs g ?t' ?F "[]"] by (simp add: fetch_deliveries_def)
  with run fold have "rows = map ?F cs" "consumer_deliveries db' = ?t'"
    by (auto simp: Let_def t_def [symmetric] cs_def [symmetric])
  with works sub show ?thesis using that by blast
qed

lemma deliveries_of_rows:
  "for_each (\<lambda>row ds. and_then (delivery_from_row env repr row) (\<lambda>d. Inr (ds @ [d]))) rows acc = Inr ds \<Longrightarrow>
    d \<in> set ds \<Longrightarrow> d \<in> set acc \<or> (\<exists>r \<in> set rows. delivery_from_row env repr r = Inr d)"
  by (induction rows arbitrary: acc) fastforce+

text \<open>A delivery handed out is the row's new claim, and the row was claimable before.\<close>

lemma handed_out:
  assumes "ledger_wf db" and "consumer_claim_batch env repr st g i limit clk db = (Inr ds, db')" and "d \<in> set ds"
  obtains r0 r where
    "row_by delivery_key (delivery_key r) (consumer_deliveries db) = Some r0" "\<not> terminal (mc_status r0)"
    "mc_claim_generation r0 < mc_claim_generation r"
    "row_by delivery_key (delivery_key r) (consumer_deliveries db') = Some r" "delivery_ok r"
    "mc_claim_owner r = Some i" "mc_status r = Processing" "delivery_from_row env repr r = Inr d"
    "delivery_identity r = delivery_identity r0"
proof -
  obtain rows where c: "claim_deliveries st g i limit clk db = (Inr rows, db')"
    and f: "for_each (\<lambda>row ds. and_then (delivery_from_row env repr row) (\<lambda>d. Inr (ds @ [d]))) rows [] = Inr ds"
    using assms(2) by (auto simp: consumer_claim_batch_def split: sum.split_asm prod.split_asm)
  obtain r where r: "r \<in> set rows" "delivery_from_row env repr r = Inr d"
    using deliveries_of_rows [OF f assms(3)] by auto
  have dist: "distinct (map delivery_key (consumer_deliveries db))" using assms(1) by (simp add: ledger_wf_def)
  obtain t cs now ex where t: "list_all2 delivery_works (consumer_deliveries db) t"
    "set cs \<subseteq> set t" "\<forall>c \<in> set cs. claimable_delivery g now c" "rows = map (claimed_delivery i now ex) cs"
    "consumer_deliveries db' = sql_update (\<lambda>r. r \<in> set cs) (claimed_delivery i now ex) t"
    using claim_deliveries_Inr [OF c dist] by blast
  obtain x where x: "x \<in> set cs" "r = claimed_delivery i now ex x" using r(1) t(4) by auto
  have wf': "ledger_wf db'"
    using ledger_works_wf [OF claim_deliveries_works assms(1), of st g i limit clk] c by simp
  have keys: "map delivery_key t = map delivery_key (consumer_deliveries db)"
    by (rule evolves_keys(1) [OF works_evolves [OF t(1)]])
  obtain n where n: "n < length t" "t ! n = x" using x(1) t(2) by (metis in_set_conv_nth subsetD)
  define r0 where "r0 = consumer_deliveries db ! n"
  have len: "length t = length (consumer_deliveries db)" by (metis keys length_map)
  have w: "delivery_works r0 x" unfolding r0_def using list_all2_nthD2 [OF t(1) n(1)] n(2) by simp
  have r0: "r0 \<in> set (consumer_deliveries db)" "delivery_key r0 = delivery_key x"
    using n len nth_map [of n t delivery_key] nth_map [of n "consumer_deliveries db" delivery_key] keys
    by (simp_all add: r0_def)
  have open_x: "\<not> terminal (mc_status x)" using x(1) t(3) by (auto simp: claimable_delivery_def terminal_def)
  have open_r0: "\<not> terminal (mc_status r0)" and gen: "mc_claim_generation r0 \<le> mc_claim_generation x"
    using w open_x by (auto simp: delivery_works_def delivery_evolves_def)
  have mem: "r \<in> set (consumer_deliveries db')"
    using t(2,5) x by (auto simp: sql_update_def image_iff intro!: bexI [of _ x])
  show ?thesis
  proof (rule that [of r r0])
    show "row_by delivery_key (delivery_key r) (consumer_deliveries db) = Some r0"
      using row_by_unique [OF dist r0(1)] r0(2) x(2) by simp
    show "row_by delivery_key (delivery_key r) (consumer_deliveries db') = Some r" "delivery_ok r"
      using row_by_unique [OF _ mem, of delivery_key] wf' mem by (simp_all add: ledger_wf_def)
    show "delivery_identity r = delivery_identity r0"
      using delivery_evolves_identity w x(2) by (simp add: delivery_works_def claimed_delivery_def delivery_identity_def)
    show "mc_claim_generation r0 < mc_claim_generation r" using gen x(2) by simp
  qed (use open_r0 x(2) r(2) in simp_all)
qed

lemma delivery_from_row_Inr:
  assumes "delivery_from_row env repr r = Inr d"
  shows "cd_consumer_group d = mc_consumer_group r" "mc_claim_owner r = Some (cd_consumer_id d)"
    "cd_claim_generation d = mc_claim_generation r" "cd_attempt d = mc_attempt_count r"
    "decode_event env repr (mc_envelope_json r) = Inr (cd_event d)"
  using assms by (auto simp: delivery_from_row_def split: option.split_asm)

end
