(* ===== verification/Consumer_Delivery.thy ===== *)
theory Consumer_Delivery
  imports Consumer_Ledger Outbox_Claims
begin

text \<open>
  The properties of the delivery ledger: consistency, the round trip of events through it, fenced
  claims, bounded attempts and final acknowledgements.
\<close>

section \<open>Envelopes\<close>

lemma map_of_sort_key: "distinct (map fst kvs) \<Longrightarrow> map_of (sort_key fst kvs) = map_of (kvs :: (string \<times> 'a) list)"
proof -
  assume d: "distinct (map fst kvs)"
  have "distinct (map fst (sort_key fst kvs))"
    using d by (simp add: distinct_map)
  moreover have "set (sort_key fst kvs) = set kvs" by simp
  ultimately show ?thesis using d by (simp only: map_of_inject_set)
qed

lemma map_of_map_sort: "map_of (map (map_prod id json_sort) kvs) k = map_option json_sort (map_of kvs k)"
  by (induction kvs) auto

text \<open>A stored envelope reads back as the event, with its payload in canonical form.\<close>

lemma decode_envelope:
  assumes "json_dict (de_payload e)" and "encode_event e = Inr s"
  shows "decode_event env repr s =
    and_then (object_payload (Some (json_sort (de_payload e)))) (\<lambda>p. new_durable_event env (e\<lparr>de_payload := p\<rparr>))"
proof -
  obtain kvs where kvs: "event_as_dict e = JObj kvs" and d: "distinct (map fst kvs)"
    and m: "map_of kvs ''schema_version'' = Some (JStr (de_schema_version e))"
      "map_of kvs ''event_id'' = Some (JStr (de_event_id e))"
      "map_of kvs ''dedupe_key'' = Some (JStr (de_dedupe_key e))"
      "map_of kvs ''topic'' = Some (JStr (de_topic e))"
      "map_of kvs ''event_type'' = Some (JStr (de_event_type e))"
      "map_of kvs ''aggregate_type'' = Some (JStr (de_aggregate_type e))"
      "map_of kvs ''aggregate_id'' = Some (JStr (de_aggregate_id e))"
      "map_of kvs ''task_id'' = Some (json_opt (de_task_id e))"
      "map_of kvs ''agent_id'' = Some (json_opt (de_agent_id e))"
      "map_of kvs ''payload'' = Some (de_payload e)"
      "map_of kvs ''created_at'' = Some (JStr (de_created_at e))"
    by (rule that [OF event_as_dict_def]) simp_all
  have "json_dict (event_as_dict e)" using assms(1) by (simp add: event_as_dict_def)
  moreover have "s = json_dumps (event_as_dict e)"
    using assms(2) by (simp add: encode_event_def Let_def split: if_split_asm)
  ultimately have loads: "json_loads s = Some (JObj (sort_key fst (map (map_prod id json_sort) kvs)))"
    by (simp only: json_loads_dumps kvs json_sort.simps)
  have "distinct (map fst (map (map_prod id json_sort) kvs))" using d by simp
  then have look: "map_of (sort_key fst (map (map_prod id json_sort) kvs)) k = map_option json_sort (map_of kvs k)" for k
    by (simp only: map_of_sort_key map_of_map_sort)
  have opt: "optional_text repr k (sort_key fst (map (map_prod id json_sort) kvs)) = x"
    if "map_of kvs k = Some (json_opt x)" for k x
    by (cases x) (simp_all only: optional_text_def look that option.map json_opt_simps,
      simp_all add: json_opt_def)
  show ?thesis
    by (simp only: decode_event_def loads option.case json.case required_text_def look m option.map
        json_sort.simps py_str.simps and_then.simps opt [OF m(8)] opt [OF m(9)])
      (cases e; cases "object_payload (Some (json_sort (de_payload e)))"; simp)
qed

lemma decoded_ids:
  assumes "json_dict (de_payload e)" and "encode_event e = Inr s" and "decode_event env repr s = Inr e'"
  shows "de_event_id e' = de_event_id e" "de_dedupe_key e' = de_dedupe_key e"
proof -
  obtain p where p: "object_payload (Some (json_sort (de_payload e))) = Inr p"
    "new_durable_event env (e\<lparr>de_payload := p\<rparr>) = Inr e'"
    using assms(3) by (auto simp: decode_envelope [OF assms(1,2)])
  then have "p = json_sort (de_payload e)" by (simp add: object_payload_def split: json.split_asm)
  then have "json_dict (de_payload (e\<lparr>de_payload := p\<rparr>))" using json_dict_sort [OF assms(1)] by simp
  from new_durable_event_Inr(1) [OF p(2) this]
  show "de_event_id e' = de_event_id e" "de_dedupe_key e' = de_dedupe_key e" by simp_all
qed

section \<open>Canonical events stay valid\<close>

lemma json_sort_true: "json_sort v = JBool True \<longleftrightarrow> v = JBool True"
  by (cases v) auto

lemma json_parts_sort:
  "set (json_members (json_sort v)) = map_prod id json_sort ` set (json_members v) \<and>
    set (json_texts (json_sort v)) = set (json_texts v)"
proof (induction v)
  case (JObj kvs)
  let ?s = "map (map_prod id json_sort) kvs"
  have snd: "snd ` (map_prod id f) ` set ?s = (\<lambda>(k, x). f (json_sort x)) ` set kvs" for f :: "json \<Rightarrow> 'b"
    by (force simp: image_comp)
  have ih: "set (json_members (json_sort x)) = map_prod id json_sort ` set (json_members x)"
    "set (json_texts (json_sort x)) = set (json_texts x)" if "(k, x) \<in> set kvs" for k x
    using JObj.IH [OF that, of x] by (simp_all add: prod_set_defs id_def)
  have "set (json_members (json_sort (JObj kvs))) =
      set ?s \<union> (\<Union>(k, x) \<in> set kvs. set (json_members (json_sort x)))" by force
  also have "\<dots> = map_prod id json_sort ` (set kvs \<union> (\<Union>(k, x) \<in> set kvs. set (json_members x)))"
    using ih(1) by (force simp: image_Un)
  also have "set kvs \<union> (\<Union>(k, x) \<in> set kvs. set (json_members x)) = set (json_members (JObj kvs))" by force
  finally have m: "set (json_members (json_sort (JObj kvs))) = map_prod id json_sort ` set (json_members (JObj kvs))" .
  have "set (json_texts (json_sort (JObj kvs))) = (\<Union>(k, x) \<in> set kvs. set (json_texts (json_sort x)))" by force
  also have "\<dots> = (\<Union>(k, x) \<in> set kvs. set (json_texts x))" using ih(2) by auto
  also have "\<dots> = set (json_texts (JObj kvs))" by force
  finally show ?case using m by blast
next
  case (JArr xs)
  then show ?case by (simp add: image_UN id_def)
qed auto

lemma member_ok_sort: "member_ok b (map_prod id json_sort kv) = member_ok b kv"
  by (cases kv) (simp add: member_ok_def json_sort_true)

lemma safe_payload_sort:
  "assert_safe_shared_payload secret (json_sort v) = Inr () \<longleftrightarrow> assert_safe_shared_payload secret v = Inr ()"
proof (cases v)
  case (JObj kvs)
  have "walk_shared secret True path (json_sort v) = Inr () \<longleftrightarrow> walk_shared secret True path v = Inr ()" for path
    unfolding walk_iff(1) using json_parts_sort [of v] by (simp add: member_ok_sort)
  moreover have "\<exists>kvs'. json_sort v = JObj kvs'" using JObj by simp
  ultimately show ?thesis using JObj by (auto simp: assert_safe_shared_payload_def)
qed (simp_all add: assert_safe_shared_payload_def)

lemma json_dumps_sort: "json_dumps (json_sort v) = json_dumps v"
proof (induction v)
  case (JObj kvs)
  have "map (map_prod id json_dumps) (map (map_prod id json_sort) kvs) = map (map_prod id json_dumps) kvs"
    using JObj by (fastforce simp: prod_set_defs)
  then have "sort_key fst (map (map_prod id json_dumps) (sort_key fst (map (map_prod id json_sort) kvs))) =
      sort_key fst (map (map_prod id json_dumps) kvs)"
    by (simp only: sort_key_map_snd) (simp add: sort_key_sorted sort_key_map_snd)
  then show ?case by simp
qed (simp_all cong: map_cong)

text \<open>Constructing a durable event is idempotent.\<close>

lemma new_durable_event_again:
  assumes "new_durable_event env e = Inr e'" and "json_dict (de_payload e)"
  shows "new_durable_event env e' = Inr e'"
proof -
  note e' = new_durable_event_Inr(1) [OF assms]
  obtain kvs kvs' where kvs: "de_payload e = JObj kvs" "json_sort (de_payload e) = JObj kvs'"
    using assms(1) by (auto simp: new_durable_event_def split: json.split_asm)
  have "json_loads (json_dumps (de_payload e)) = Some (JObj kvs')"
    using json_loads_dumps [OF assms(2)] kvs(2) by simp
  moreover have "json_dumps (de_payload e') = json_dumps (de_payload e)"
    using json_dumps_sort [of "de_payload e"] by (simp add: e')
  moreover have "assert_safe_shared_payload (env_secret_text env) (de_payload e') = Inr ()"
    using new_durable_event_Inr(3) [OF assms] safe_payload_sort by (simp add: e')
  moreover have c: "canonical_json (JObj kvs) = Inr (json_dumps (JObj kvs))"
    using new_durable_event_Inr(4) [OF assms] kvs by (simp add: canonical_json_Inr del: json_dumps.simps)
  moreover from this calculation(2) kvs have "canonical_json (JObj kvs') = Inr (json_dumps (JObj kvs))"
    by (simp add: e' canonical_json_def del: json_dumps.simps json_sort.simps)
  ultimately show ?thesis
    using assms(1) kvs
    by (auto simp: new_durable_event_def e' required_ok_def require_Inr_iff simp del: json_dumps.simps json_sort.simps
        split: option.split_asm if_split_asm)
qed

section \<open>Properties\<close>

text \<open>
  C13. The ledger is consistent after any run of any consumers from an empty one: identifiers and
  dedupe keys are unique in their group, every row's columns agree with its status, no row was
  attempted more often than its bound and each attempt raised its generation, and every group's
  checkpoint counts exactly its completed deliveries.
\<close>

theorem consumer_ledger_consistent:
  assumes "consumer_step\<^sup>*\<^sup>* db db'" and "consumer_deliveries db = []" and "consumer_checkpoints db = []"
  shows "distinct (map (\<lambda>r. (mc_consumer_group r, mc_event_id r)) (consumer_deliveries db')) \<and>
    distinct (map (\<lambda>r. (mc_consumer_group r, mc_dedupe_key r)) (consumer_deliveries db')) \<and>
    (\<forall>r \<in> set (consumer_deliveries db'). delivery_ok r) \<and>
    (\<forall>g. checkpoint_count g (consumer_checkpoints db') = int (completed_count g (consumer_deliveries db')))"
proof -
  have "ledger_wf db"
    using assms(2,3) by (simp add: ledger_wf_def checkpoint_count_def completed_count_def sql_rowcount_def sql_select_def)
  from consumer_steps_wf [OF assms(1) this] show ?thesis by (simp add: ledger_wf_def)
qed

lemma handed_out_event:
  assumes "ledger_wf db" and "consumer_claim_batch env repr st g i limit clk db = (Inr ds, db')" and "d \<in> set ds"
  obtains r0 r where
    "row_by delivery_key (cd_consumer_group d, de_event_id (cd_event d)) (consumer_deliveries db) = Some r0"
    "\<not> terminal (mc_status r0)" "mc_claim_generation r0 < mc_claim_generation r"
    "row_by delivery_key (cd_consumer_group d, de_event_id (cd_event d)) (consumer_deliveries db') = Some r"
    "delivery_ok r" "mc_claim_owner r = Some (cd_consumer_id d)" "mc_claim_generation r = cd_claim_generation d"
    "mc_attempt_count r = cd_attempt d" "decode_event env repr (mc_envelope_json r) = Inr (cd_event d)"
    "delivery_identity r = delivery_identity r0"
proof -
  obtain r0 r where r: "row_by delivery_key (delivery_key r) (consumer_deliveries db) = Some r0"
    "\<not> terminal (mc_status r0)" "mc_claim_generation r0 < mc_claim_generation r"
    "row_by delivery_key (delivery_key r) (consumer_deliveries db') = Some r" "delivery_ok r"
    "mc_claim_owner r = Some i" "mc_status r = Processing" "delivery_from_row env repr r = Inr d"
    "delivery_identity r = delivery_identity r0"
    using handed_out [OF assms] by blast
  note d = delivery_from_row_Inr [OF r(8)]
  have "envelope_ok (delivery_identity r)"
    using row_by_SomeD [OF r(1)] assms(1) r(9) by (simp add: ledger_wf_def)
  then obtain e where e: "json_dict (de_payload e)" "encode_event e = Inr (mc_envelope_json r)"
    "de_event_id e = mc_event_id r" by (auto simp: envelope_ok_def delivery_identity_def)
  have "de_event_id (cd_event d) = mc_event_id r"
    using decoded_ids(1) [OF e(1,2) d(5)] e(3) by simp
  then have key: "(cd_consumer_group d, de_event_id (cd_event d)) = delivery_key r" using d(1) by simp
  show ?thesis by (rule that [of r0 r]; (simp only: key)?) (use r d in simp_all)
qed

text \<open>
  C14. Through the ledger and back: what a consumer of the group is handed, however often and
  whenever, under the identifier of an event that was enqueued is that event, field for field.
\<close>

theorem enqueued_event_is_delivered:
  assumes "ledger_wf s0" and "new_durable_event env given = Inr event" and "json_dict (de_payload given)"
    and "consumer_enqueue clk g event cur mx s0 = (Inr True, s1)" and "consumer_step\<^sup>*\<^sup>* s1 s2"
    and "consumer_claim_batch env repr st g i limit clk' s2 = (Inr ds, s3)" and "d \<in> set ds"
    and "cd_consumer_group d = g" and "de_event_id (cd_event d) = de_event_id event"
  shows "cd_event d = event"
proof -
  have dict: "json_dict (de_payload event)"
    using new_durable_event_Inr(2) [OF assms(2,3)] canonical_payload(1) by blast
  obtain s now where row: "encode_event event = Inr s"
    "consumer_deliveries s1 = consumer_deliveries s0 @ [new_delivery_row g event cur s mx now]"
    "row_by delivery_key (g, de_event_id event) (consumer_deliveries s0) = None"
    using assms(4) by (cases rule: consumer_enqueue_cases) auto
  let ?n = "new_delivery_row g event cur s mx now"
  have "row_by delivery_key (g, de_event_id event) (consumer_deliveries s1) = Some ?n"
    using row(3) by (simp only: row(2) row_by_append new_delivery_row_facts) simp
  then obtain r' where r': "row_by delivery_key (g, de_event_id event) (consumer_deliveries s2) = Some r'"
    "delivery_evolves ?n r'" using consumer_steps_row [OF assms(5)] by blast
  have wf1: "ledger_wf s1"
    using consumer_enqueue_wf [where clk = clk and g = g and cur = cur and mx = mx, OF assms(1) dict] assms(4) by simp
  obtain r0 r where r: "row_by delivery_key (cd_consumer_group d, de_event_id (cd_event d)) (consumer_deliveries s2) = Some r0"
    "decode_event env repr (mc_envelope_json r) = Inr (cd_event d)" "delivery_identity r = delivery_identity r0"
    using handed_out_event [OF consumer_steps_wf [OF assms(5) wf1] assms(6,7)] by blast
  have "r0 = r'" using r(1) r'(1) assms(8,9) by simp
  then have "mc_envelope_json r = s"
    using r(3) delivery_evolves_identity [OF r'(2)] by (simp add: delivery_identity_def new_delivery_row_def)
  then have "decode_event env repr s = Inr (cd_event d)" using r(2) by simp
  moreover have "json_sort (de_payload event) = de_payload event"
    using new_durable_event_Inr(2) [OF assms(2,3)] canonical_payload(2) by blast
  moreover have "object_payload (Some (de_payload event)) = Inr (de_payload event)"
    using new_durable_event_Inr(2) [OF assms(2,3)] canonical_object_cases by (fastforce simp: object_payload_def)
  ultimately show ?thesis
    using decode_envelope [OF dict row(1), of env repr] new_durable_event_again [OF assms(2,3)]
    by simp
qed

text \<open>
  C15. Fencing of consumers. Once a delivery has been handed out again, the consumer that held it
  before can neither acknowledge nor fail it in any later state: both report the loss and change
  nothing.
\<close>

theorem stale_consumer_changes_nothing:
  assumes "ledger_wf s0" and "consumer_claim_batch env repr st g i limit clk s0 = (Inr ds, s1)" and "d \<in> set ds"
    and "consumer_step\<^sup>*\<^sup>* s1 s2"
    and "consumer_claim_batch env repr' st' g' i' limit' clk' s2 = (Inr ds', s3)" and "d' \<in> set ds'"
    and "cd_consumer_group d' = cd_consumer_group d" and "de_event_id (cd_event d') = de_event_id (cd_event d)"
    and "consumer_step\<^sup>*\<^sup>* s3 s4"
  shows "fst (consumer_acknowledge d now s4) \<noteq> Inr True \<and> snd (consumer_acknowledge d now s4) = s4 \<and>
    (\<forall>x. fst (consumer_fail d e now s4) \<noteq> Inr (Some x)) \<and> snd (consumer_fail d e now s4) = s4"
proof -
  let ?k = "(cd_consumer_group d, de_event_id (cd_event d))"
  have wf1: "ledger_wf s1"
    using consumer_step_wf [OF consumer_step.claim assms(1), of env repr st g i limit clk] assms(2) by simp
  have wf2: "ledger_wf s2" by (rule consumer_steps_wf [OF assms(4) wf1])
  have wf3: "ledger_wf s3"
    using consumer_step_wf [OF consumer_step.claim wf2, of env repr' st' g' i' limit' clk'] assms(5) by simp
  have wf4: "ledger_wf s4" by (rule consumer_steps_wf [OF assms(9) wf3])
  obtain r where r: "row_by delivery_key ?k (consumer_deliveries s1) = Some r"
    "mc_claim_generation r = cd_claim_generation d" "mc_claim_owner r = Some (cd_consumer_id d)"
    using handed_out_event [OF assms(1-3)] by blast
  obtain q0 q where q: "row_by delivery_key ?k (consumer_deliveries s2) = Some q0"
    "mc_claim_generation q0 < mc_claim_generation q" "row_by delivery_key ?k (consumer_deliveries s3) = Some q"
    using handed_out_event [OF wf2 assms(5,6)] unfolding assms(7,8) by blast
  have "cd_claim_generation d \<le> mc_claim_generation q0"
    using consumer.generation_mono [OF assms(4), of ?k] r(1,2) q(1) by (auto simp: consumer_claim_def)
  then have "consumer_claim s4 ?k \<noteq> Some (cd_claim_generation d, Some (cd_consumer_id d))"
    using q(2,3)
    by (intro consumer.lost_forever [OF assms(9), of ?k "mc_claim_generation q" "mc_claim_owner q"])
      (simp_all add: consumer_claim_def)
  then have lost: "\<not> holds_delivery d x" if "x \<in> set (consumer_deliveries s4)" for x
    using row_by_unique [OF _ that, of delivery_key] wf4
    by (auto simp: consumer_claim_def holds_delivery_def ledger_wf_def)
  then have none: "sql_rowcount (\<lambda>r. holds_delivery d r \<and> P r) (consumer_deliveries s4) = 0"
      "fetchone (sql_select (\<lambda>r. holds_delivery d r \<and> P r) (consumer_deliveries s4)) = None" for P
    by (simp_all add: sql_rowcount_0_iff fetchone_select_None)
  then show ?thesis
    by (auto simp: consumer_acknowledge_def consumer_fail_def transaction_def Let_def sql_update_none
        split: sum.split)
qed

text \<open>
  C16. Bounded attempts. When a delivery is handed out again, its attempt number is larger than
  at any earlier time and still within the bound it was enqueued with: a handler sees one event
  at most that many times.
\<close>

theorem delivery_attempts_are_bounded:
  assumes "ledger_wf s0" and "consumer_claim_batch env repr st g i limit clk s0 = (Inr ds, s1)" and "d \<in> set ds"
    and "consumer_step\<^sup>*\<^sup>* s1 s2"
    and "consumer_claim_batch env repr' st' g' i' limit' clk' s2 = (Inr ds', s3)" and "d' \<in> set ds'"
    and "cd_consumer_group d' = cd_consumer_group d" and "de_event_id (cd_event d') = de_event_id (cd_event d)"
  shows "1 \<le> cd_attempt d \<and> cd_attempt d < cd_attempt d' \<and>
    (\<exists>r \<in> set (consumer_deliveries s0). mc_consumer_group r = cd_consumer_group d \<and>
       mc_event_id r = de_event_id (cd_event d) \<and> cd_attempt d' \<le> mc_max_attempts r)"
proof -
  let ?k = "(cd_consumer_group d, de_event_id (cd_event d))"
  have wf1: "ledger_wf s1"
    using consumer_step_wf [OF consumer_step.claim assms(1), of env repr st g i limit clk] assms(2) by simp
  have wf2: "ledger_wf s2" by (rule consumer_steps_wf [OF assms(4) wf1])
  obtain r0 r where r: "row_by delivery_key ?k (consumer_deliveries s0) = Some r0"
    "row_by delivery_key ?k (consumer_deliveries s1) = Some r" "delivery_ok r" "mc_claim_owner r = Some (cd_consumer_id d)"
    "mc_claim_generation r = cd_claim_generation d" "mc_attempt_count r = cd_attempt d"
    "delivery_identity r = delivery_identity r0"
    using handed_out_event [OF assms(1-3)] by blast
  obtain q0 q where q: "row_by delivery_key ?k (consumer_deliveries s2) = Some q0"
    "mc_claim_generation q0 < mc_claim_generation q" "delivery_ok q" "mc_attempt_count q = cd_attempt d'"
    "delivery_identity q = delivery_identity q0"
    using handed_out_event [OF wf2 assms(5,6)] unfolding assms(7,8) by blast
  obtain r' where r': "row_by delivery_key ?k (consumer_deliveries s2) = Some r'" "delivery_evolves r r'"
    using consumer_steps_row [OF assms(4) r(2)] by blast
  have "q0 = r'" using q(1) r'(1) by simp
  then have same: "delivery_identity q = delivery_identity r0"
    using q(5) r(7) delivery_evolves_identity [OF r'(2)] by simp
  have mono: "mc_claim_generation r \<le> mc_claim_generation q0"
    using consumer.generation_mono [OF assms(4), of ?k] r(2) q(1) by (auto simp: consumer_claim_def)
  have "mc_max_attempts q = mc_max_attempts r0" by (rule identity_fields(4) [OF same])
  moreover have "r0 \<in> set (consumer_deliveries s0) \<and> delivery_key r0 = ?k" by (rule row_by_SomeD [OF r(1)])
  moreover have "1 \<le> mc_attempt_count r" using r(3,4) by (auto simp: delivery_ok_def split: delivery_status.split_asm)
  ultimately show ?thesis
    using mono q(2-4) r(3,6) by (auto simp: delivery_ok_def intro!: bexI [of _ r0])
qed

text \<open>
  C17. An acknowledgement is final: afterwards the delivery is completed in every later state,
  is never handed out again, and nobody acknowledges or fails it a second time.
\<close>

theorem acknowledged_delivery_is_final:
  assumes "ledger_wf s0" and "consumer_acknowledge d clk s0 = (Inr True, s1)" and "consumer_step\<^sup>*\<^sup>* s1 s2"
    and "cd_consumer_group d' = cd_consumer_group d" and "de_event_id (cd_event d') = de_event_id (cd_event d)"
  shows "fst (consumer_acknowledge d' now s2) \<noteq> Inr True \<and> (\<forall>x. fst (consumer_fail d' e now s2) \<noteq> Inr (Some x)) \<and>
    (consumer_claim_batch env repr st g i limit now s2 = (Inr ds, s3) \<longrightarrow> d' \<notin> set ds)"
proof -
  let ?k = "(cd_consumer_group d, de_event_id (cd_event d))"
  have wf1: "ledger_wf s1" using consumer_acknowledge_wf [OF assms(1), of d clk] assms(2) by simp
  have wf2: "ledger_wf s2" by (rule consumer_steps_wf [OF assms(3) wf1])
  obtain t where row: "sql_rowcount (\<lambda>r. holds_delivery d r \<and> null_gt (mc_claim_expires_at r) t) (consumer_deliveries s0) = 1"
    "consumer_deliveries s1 = sql_update (\<lambda>r. holds_delivery d r \<and> null_gt (mc_claim_expires_at r) t)
       (completed_row t) (consumer_deliveries s0)"
    using assms(2) by (cases rule: consumer_acknowledge_cases) auto
  then obtain r where r: "r \<in> set (consumer_deliveries s0)" "holds_delivery d r" "null_gt (mc_claim_expires_at r) t"
    using sql_rowcount_0_iff by (metis (no_types, lifting) zero_neq_one)
  have "completed_row t r \<in> set (consumer_deliveries s1)"
    using r row(2) by (auto simp: sql_update_def image_iff intro!: bexI [of _ r])
  moreover have "delivery_key (completed_row t r) = ?k" "mc_status (completed_row t r) = Completed"
    using r(2) by (simp_all add: completed_row_def holds_delivery_def)
  ultimately have "row_by delivery_key ?k (consumer_deliveries s1) = Some (completed_row t r)"
    using row_by_iff [of delivery_key "consumer_deliveries s1" ?k] wf1 by (simp add: ledger_wf_def)
  then obtain r' where r': "row_by delivery_key ?k (consumer_deliveries s2) = Some r'" "delivery_evolves (completed_row t r) r'"
    using consumer_steps_row [OF assms(3)] by blast
  then have closed: "mc_status r' = Completed"
    by (auto simp: delivery_evolves_def terminal_def completed_row_def)
  have not_held: "\<not> holds_delivery d' x" if "x \<in> set (consumer_deliveries s2)" for x
  proof
    assume h: "holds_delivery d' x"
    then have "row_by delivery_key ?k (consumer_deliveries s2) = Some x"
      using that row_by_iff [of delivery_key "consumer_deliveries s2" ?k] wf2 assms(4,5)
      by (simp add: ledger_wf_def holds_delivery_def)
    with r'(1) closed h show False by (simp add: holds_delivery_def)
  qed
  have "d' \<notin> set ds" if c: "consumer_claim_batch env repr st g i limit now s2 = (Inr ds, s3)"
  proof
    assume m: "d' \<in> set ds"
    then obtain q where "row_by delivery_key ?k (consumer_deliveries s2) = Some q" "\<not> terminal (mc_status q)"
      using handed_out_event [OF wf2 c m] unfolding assms(4,5) by blast
    then show False using r'(1) closed by (simp add: terminal_def)
  qed
  moreover have "sql_rowcount (\<lambda>r. holds_delivery d' r \<and> P r) (consumer_deliveries s2) = 0"
      "fetchone (sql_select (\<lambda>r. holds_delivery d' r \<and> P r) (consumer_deliveries s2)) = None" for P
    using not_held by (simp_all add: sql_rowcount_0_iff fetchone_select_None)
  ultimately show ?thesis
    by (auto simp: consumer_acknowledge_def consumer_fail_def transaction_def Let_def split: sum.split)
qed

section \<open>The runner\<close>

text \<open>What may happen between a consumer's transactions, the handler included.\<close>

definition ledger_friendly :: "('z consumer_db_scheme \<Rightarrow> 'z consumer_db_scheme) \<Rightarrow> bool" where
  "ledger_friendly f \<longleftrightarrow> (\<forall>db. consumer_step\<^sup>*\<^sup>* db (f db))"

lemma ledger_friendlyD: "ledger_friendly f \<Longrightarrow> consumer_step\<^sup>*\<^sup>* db (f db)"
  by (simp add: ledger_friendly_def)

lemma fail_delivery_run:
  "fail_delivery d e clk res db = (r, db') \<Longrightarrow> consumer_step db db' \<and>
    (\<forall>res'. r = Inr res' \<longrightarrow> rr_claimed res' = rr_claimed res \<and>
      rr_succeeded res' + rr_retrying res' + rr_dead_lettered res' + rr_lease_lost res' =
      Suc (rr_succeeded res + rr_retrying res + rr_dead_lettered res + rr_lease_lost res))"
  using consumer_step.fail [of db d e clk]
  by (auto simp: fail_delivery_def split: prod.split_asm sum.split_asm option.split_asm disposition.split_asm)

lemma acknowledge_delivery_run:
  "acknowledge_delivery d clk res db = (r, db') \<Longrightarrow> consumer_step db db' \<and>
    (\<forall>res'. r = Inr res' \<longrightarrow> rr_claimed res' = rr_claimed res \<and>
      rr_succeeded res' + rr_retrying res' + rr_dead_lettered res' + rr_lease_lost res' =
      Suc (rr_succeeded res + rr_retrying res + rr_dead_lettered res + rr_lease_lost res))"
  using consumer_step.acknowledge [of db d clk]
  by (auto simp: acknowledge_delivery_def split: prod.split_asm sum.split_asm bool.split_asm)

lemma process_deliveries_run:
  assumes "process_deliveries handler ms ds k res db = (r, db')"
    and "\<And>event ctx. ledger_friendly (\<lambda>db. snd (handler event ctx db))" and "\<And>k. ledger_friendly (mo_others (ms k))"
  shows "consumer_step\<^sup>*\<^sup>* db db' \<and>
    (\<forall>res'. r = Inr res' \<longrightarrow> rr_claimed res' = rr_claimed res \<and>
      rr_succeeded res' + rr_retrying res' + rr_dead_lettered res' + rr_lease_lost res' =
      length ds + rr_succeeded res + rr_retrying res + rr_dead_lettered res + rr_lease_lost res)"
  using assms(1)
proof (induction ds arbitrary: k res db)
  case (Cons d ds)
  obtain outcome db1 where h: "handler (cd_event d) (delivery_context d) (mo_others (ms k) db) = (outcome, db1)"
    by fastforce
  let ?db = "mo_others (ms (k + 1)) db1"
  obtain r2 db2 where o: "(case outcome of
      Inl exc \<Rightarrow> fail_delivery d exc (mo_clock (ms (k + 1))) res ?db
    | Inr _ \<Rightarrow> acknowledge_delivery d (mo_clock (ms (k + 1))) res ?db) = (r2, db2)" by fastforce
  have step: "consumer_step ?db db2 \<and> (\<forall>res'. r2 = Inr res' \<longrightarrow> rr_claimed res' = rr_claimed res \<and>
      rr_succeeded res' + rr_retrying res' + rr_dead_lettered res' + rr_lease_lost res' =
      Suc (rr_succeeded res + rr_retrying res + rr_dead_lettered res + rr_lease_lost res))"
  proof (cases outcome)
    case (Inl exc)
    then show ?thesis by (intro fail_delivery_run) (use o in simp)
  next
    case (Inr u)
    then show ?thesis by (intro acknowledge_delivery_run) (use o in simp)
  qed
  have "consumer_step\<^sup>*\<^sup>* (mo_others (ms k) db) db1"
    using ledger_friendlyD [OF assms(2) [of "cd_event d" "delivery_context d"], of "mo_others (ms k) db"] h by simp
  then have run: "consumer_step\<^sup>*\<^sup>* db db2"
    using ledger_friendlyD [OF assms(3) [of k], of db] ledger_friendlyD [OF assms(3) [of "k + 1"], of db1] step
    by (blast intro: rtranclp_trans rtranclp.rtrancl_into_rtrancl)
  show ?case
  proof (cases r2)
    case (Inl e)
    with Cons.prems h o run show ?thesis by (auto split: sum.split_asm)
  next
    case (Inr res2)
    then have "process_deliveries handler ms ds (k + 2) res2 db2 = (r, db')"
      using Cons.prems h o by simp
    note ih = Cons.IH [OF this]
    have "consumer_step\<^sup>*\<^sup>* db db'" by (rule rtranclp_trans [OF run conjunct1 [OF ih]])
    moreover have "\<forall>res'. r = Inr res' \<longrightarrow> rr_claimed res' = rr_claimed res \<and>
        rr_succeeded res' + rr_retrying res' + rr_dead_lettered res' + rr_lease_lost res' =
        length (d # ds) + rr_succeeded res + rr_retrying res + rr_dead_lettered res + rr_lease_lost res"
    proof (intro allI impI)
      fix res'
      assume "r = Inr res'"
      with conjunct2 [OF ih] conjunct2 [OF step, rule_format, OF Inr]
      show "rr_claimed res' = rr_claimed res \<and>
        rr_succeeded res' + rr_retrying res' + rr_dead_lettered res' + rr_lease_lost res' =
        length (d # ds) + rr_succeeded res + rr_retrying res + rr_dead_lettered res + rr_lease_lost res" by auto
    qed
    ultimately show ?thesis by blast
  qed
qed auto

lemma consumer_claim_batch_step:
  "consumer_claim_batch env repr st g i limit clk db = (r, db') \<Longrightarrow> consumer_step db db'"
  using consumer_step.claim [of db env repr st g i limit clk] by simp

text \<open>
  A run of the consumer accounts for every delivery it claimed, each exactly once as
  succeeded, retrying, dead-lettered or lost, and is itself a run of the ledger, so all that is
  proved of those holds of it, whatever the handler raises.
\<close>

theorem process_once_accounts_for_deliveries:
  assumes "process_once env repr c handler limit ms db = (r, db')"
    and "\<And>event ctx. ledger_friendly (\<lambda>db. snd (handler event ctx db))" and "\<And>k. ledger_friendly (mo_others (ms k))"
  shows "consumer_step\<^sup>*\<^sup>* db db' \<and>
    (\<forall>res. r = Inr res \<longrightarrow>
      rr_succeeded res + rr_retrying res + rr_dead_lettered res + rr_lease_lost res = rr_claimed res)"
proof -
  obtain r1 db1 where c: "consumer_claim_batch env repr (mr_store c) (mr_consumer_group c) (mr_consumer_id c) limit
        (mo_clock (ms 0)) (mo_others (ms 0) db) = (r1, db1)" by fastforce
  have run: "consumer_step\<^sup>*\<^sup>* db db1"
    using ledger_friendlyD [OF assms(3) [of 0], of db] consumer_claim_batch_step [OF c]
    by (rule rtranclp.rtrancl_into_rtrancl)
  show ?thesis
  proof (cases r1)
    case (Inl e)
    with assms(1) c run show ?thesis by (auto simp: process_once_def)
  next
    case (Inr ds)
    with assms(1) c have "process_deliveries handler ms ds 1
      \<lparr>rr_claimed = length ds, rr_succeeded = 0, rr_retrying = 0, rr_dead_lettered = 0, rr_lease_lost = 0\<rparr> db1 = (r, db')"
      by (simp add: process_once_def)
    note pr = process_deliveries_run [OF this assms(2,3)]
    have "consumer_step\<^sup>*\<^sup>* db db'" by (rule rtranclp_trans [OF run conjunct1 [OF pr]])
    then show ?thesis using conjunct2 [OF pr] by simp
  qed
qed

section \<open>Concrete instances\<close>

definition demo_consumer_db :: "consumer_row list \<Rightarrow> consumer_db" where
  "demo_consumer_db rows = \<lparr>control_plane_instances = [], maintenance_leases = [], audit_events = [],
    message_board_events = [], outbox_events = [], outbox_metrics_singleton = None,
    consumer_deliveries = rows, consumer_checkpoints = []\<rparr>"

definition demo_store :: consumer_store where
  "demo_store = \<lparr>cs_claim_lease_seconds = 1\<rparr>"

definition demo_envelope :: string where
  "demo_envelope = json_dumps (event_as_dict (demo_durable []))"

definition demo_sent :: consumer_row where
  "demo_sent = new_delivery_row ''g'' (demo_durable []) None demo_envelope 2 (isoformat 0)"

definition demo_taken :: "string \<Rightarrow> nat \<Rightarrow> consumer_row \<Rightarrow> consumer_row" where
  "demo_taken i t r = claimed_delivery i (isoformat t) (isoformat (t + 1000000)) r"

definition demo_handed :: "string \<Rightarrow> nat \<Rightarrow> consumer_row \<Rightarrow> consumer_delivery" where
  "demo_handed i t r = \<lparr>cd_consumer_group = ''g'', cd_consumer_id = i, cd_event = demo_durable [],
    cd_source_cursor = None, cd_attempt = mc_attempt_count r + 1, cd_claim_generation = mc_claim_generation r + 1,
    cd_claim_expires_at = isoformat (t + 1000000)\<rparr>"

lemma demo_ids [simp]: "validate_identity l ''g'' = Inr ()" "validate_identity l ''a'' = Inr ()"
    "validate_identity l ''b'' = Inr ()"
  by (simp_all add: validate_identity_def identifier_ok_def is_alnum_def is_lower_def)

lemma demo_encode: "encode_event (demo_durable []) = Inr demo_envelope"
  by (simp add: encode_event_def demo_envelope_def event_as_dict_def demo_durable_def dump_pairs_def
      json_quote_def escape_char_def json_opt_def)

lemma demo_decode: "decode_event demo_env repr demo_envelope = Inr (demo_durable [])"
proof -
  have "object_payload (Some (de_payload (demo_durable []))) = Inr (de_payload (demo_durable []))"
    by (simp add: object_payload_def demo_durable_def)
  then show ?thesis
    using decode_envelope [OF canonical_payload(1) [OF demo_canonical] demo_encode, of demo_env repr]
      canonical_payload(2) [OF demo_canonical, of "[]"] demo_event_valid by simp
qed

lemma demo_consumer_utc [simp]: "consumer_utc (demo_clock t) = Inr t"
  by (simp add: consumer_utc_def demo_clock_def)

lemma demo_ledger_wf: "ledger_wf (demo_consumer_db [])"
  by (simp add: ledger_wf_def demo_consumer_db_def checkpoint_count_def completed_count_def sql_rowcount_def sql_select_def)

lemma demo_send: "consumer_enqueue (demo_clock 0) ''g'' (demo_durable []) None 2 (demo_consumer_db []) =
    (Inr True, demo_consumer_db [demo_sent])"
  by (simp add: consumer_enqueue_def demo_encode transaction_def demo_consumer_db_def table_simps demo_sent_def
      new_delivery_row_def Let_def)

text \<open>A batch over a ledger of one claimable row.\<close>

lemma demo_take:
  assumes "claimable_delivery ''g'' (isoformat t) r" "t \<le> 5000000" "i = ''a'' \<or> i = ''b''"
    and "mc_envelope_json r = demo_envelope" "mc_source_cursor r = None"
  shows "consumer_claim_batch demo_env repr demo_store ''g'' i 1 (demo_clock t) (demo_consumer_db [r]) =
    (Inr [demo_handed i t r], demo_consumer_db [demo_taken i t r])"
proof -
  have u: "dt_add_seconds t (cs_claim_lease_seconds demo_store) = Inr (t + 1000000)"
    using assms(2) by (simp add: demo_store_def dt_add_seconds_def us_per_second_def max_instant_def us_per_day_def
        Let_def nat_add_distrib)
  have g: "mc_consumer_group r = ''g''" and ne: "\<not> exhausted_row ''g'' (isoformat t) r"
    using assms(1) by (simp_all add: claimable_delivery_def exhausted_row_def)
  have "claim_deliveries demo_store ''g'' i 1 (demo_clock t) (demo_consumer_db [r]) =
      (Inr [demo_taken i t r], demo_consumer_db [demo_taken i t r])"
    using assms(1) g ne
    by (simp add: claim_deliveries_def transaction_def u Let_def demo_consumer_db_def dead_letter_exhausted_locked_def
        table_simps bounded_limit_def claim_delivery_def fetch_deliveries_def demo_taken_def)
  moreover have "delivery_from_row demo_env repr (demo_taken i t r) = Inr (demo_handed i t r)"
    using assms(4,5) g by (simp add: delivery_from_row_def demo_taken_def claimed_delivery_def demo_decode demo_handed_def)
  moreover have "validate_identity l i = Inr ()" for l using assms(3) by auto
  ultimately show ?thesis by (simp add: consumer_claim_batch_def)
qed

lemma demo_sent_claimable: "claimable_delivery ''g'' (isoformat 0) demo_sent"
    "mc_envelope_json demo_sent = demo_envelope" "mc_source_cursor demo_sent = None"
  by (simp_all add: claimable_delivery_def demo_sent_def new_delivery_row_def)

lemmas demo_take1 = demo_take [where i = "''a''", OF demo_sent_claimable(1) _ _ demo_sent_claimable(2,3), simplified]

lemma demo_take2:
  "consumer_claim_batch demo_env repr demo_store ''g'' ''b'' 1 (demo_clock 2000000)
      (demo_consumer_db [demo_taken ''a'' 0 demo_sent]) =
    (Inr [demo_handed ''b'' 2000000 (demo_taken ''a'' 0 demo_sent)],
     demo_consumer_db [demo_taken ''b'' 2000000 (demo_taken ''a'' 0 demo_sent)])"
  by (rule demo_take) (simp_all add: claimable_delivery_def demo_taken_def claimed_delivery_def demo_sent_def
      new_delivery_row_def)

lemma demo_sent_wf: "ledger_wf (demo_consumer_db [demo_sent])"
  using consumer_enqueue_wf [OF demo_ledger_wf canonical_payload(1) [OF demo_canonical [of "[]"]],
      of "demo_clock 0" "''g''" None 2] demo_send by simp

lemma demo_handed_simps [simp]: "cd_consumer_group (demo_handed i t r) = ''g''"
    "cd_event (demo_handed i t r) = demo_durable []"
  by (simp_all add: demo_handed_def)

lemma consumer_ledger_consistent_witness:
  "delivery_ok demo_sent"
proof -
  have "consumer_step (demo_consumer_db []) (demo_consumer_db [demo_sent])"
    using consumer_step.enqueue [OF canonical_payload(1) [OF demo_canonical [of "[]"]],
      of "demo_consumer_db []" "demo_clock 0" "''g''" None 2] demo_send by simp
  from consumer_ledger_consistent [OF r_into_rtranclp [of consumer_step, OF this]]
  show ?thesis by (simp add: demo_consumer_db_def)
qed

lemma enqueued_event_is_delivered_witness:
  "cd_event (demo_handed ''a'' 0 demo_sent) = demo_durable []"
  by (rule enqueued_event_is_delivered [OF demo_ledger_wf demo_event_valid canonical_payload(1) [OF demo_canonical]
        demo_send rtranclp.rtrancl_refl demo_take1]) simp_all

lemma stale_consumer_changes_nothing_witness:
  "snd (consumer_acknowledge (demo_handed ''a'' 0 demo_sent) (demo_clock 2500000)
      (demo_consumer_db [demo_taken ''b'' 2000000 (demo_taken ''a'' 0 demo_sent)])) =
    demo_consumer_db [demo_taken ''b'' 2000000 (demo_taken ''a'' 0 demo_sent)]"
  using stale_consumer_changes_nothing [OF demo_sent_wf demo_take1 _ rtranclp.rtrancl_refl demo_take2 _ _ _
      rtranclp.rtrancl_refl, of "demo_handed ''a'' 0 demo_sent"] by simp

lemma delivery_attempts_are_bounded_witness:
  "cd_attempt (demo_handed ''a'' 0 demo_sent) < cd_attempt (demo_handed ''b'' 2000000 (demo_taken ''a'' 0 demo_sent))"
  using delivery_attempts_are_bounded [OF demo_sent_wf demo_take1 _ rtranclp.rtrancl_refl demo_take2,
      of "demo_handed ''a'' 0 demo_sent"] by simp

lemma demo_acknowledge:
  "\<exists>db. consumer_acknowledge (demo_handed ''a'' 0 demo_sent) (demo_clock 500000)
    (demo_consumer_db [demo_taken ''a'' 0 demo_sent]) = (Inr True, db)"
  by (simp add: consumer_acknowledge_def transaction_def Let_def demo_consumer_db_def table_simps holds_delivery_def
      demo_taken_def claimed_delivery_def demo_sent_def new_delivery_row_def demo_handed_def)

lemma acknowledged_delivery_is_final_witness:
  "\<exists>db. consumer_acknowledge (demo_handed ''a'' 0 demo_sent) (demo_clock 500000)
      (demo_consumer_db [demo_taken ''a'' 0 demo_sent]) = (Inr True, db) \<and>
    fst (consumer_acknowledge (demo_handed ''a'' 0 demo_sent) (demo_clock 600000) db) \<noteq> Inr True"
proof -
  obtain db where db: "consumer_acknowledge (demo_handed ''a'' 0 demo_sent) (demo_clock 500000)
    (demo_consumer_db [demo_taken ''a'' 0 demo_sent]) = (Inr True, db)" using demo_acknowledge by blast
  have "ledger_wf (demo_consumer_db [demo_taken ''a'' 0 demo_sent])"
    using consumer_step_wf [OF consumer_step.claim demo_sent_wf] demo_take1 by (metis snd_conv)
  from acknowledged_delivery_is_final [OF this db rtranclp.rtrancl_refl refl refl] db show ?thesis by blast
qed

lemma process_once_accounts_for_deliveries_witness:
  "consumer_step\<^sup>*\<^sup>* (demo_consumer_db [demo_sent])
    (snd (process_once demo_env (\<lambda>v. []) \<lparr>mr_store = demo_store, mr_consumer_group = ''g'', mr_consumer_id = ''a'',
      mr_max_attempts = 2\<rparr> (\<lambda>event ctx db. (Inl (ValueError ''handler''), db)) 1
      (\<lambda>k. \<lparr>mo_clock = demo_clock k, mo_fence1 = demo_clock k, mo_fence2 = demo_clock k, mo_latency_ms = 0,
         mo_rows = 1, mo_others = (\<lambda>d. d)\<rparr>) (demo_consumer_db [demo_sent])))"
  by (rule process_once_accounts_for_deliveries [OF prod.collapse [symmetric], THEN conjunct1])
    (simp_all add: ledger_friendly_def)

end
