(* ===== verification/Approval_Binding.thy ===== *)
theory Approval_Binding
  imports Message_Consumer
begin

text \<open>
  \<open>server/app/services/approval_binding.py\<close>: the digest that binds an approval to one tool
  invocation, the public projections of tool calls, and the consent context recomputed from the
  audit log. SHA-256 is the parameter \<open>H\<close>. The preview shown beside an approval
  (\<open>safe_action_preview\<close>) is display only and is not modelled.
\<close>

section \<open>The digest of an action\<close>

text \<open>\<open>hmac.compare_digest\<close> on texts: it refuses text outside ASCII.\<close>

definition compare_digest :: "string \<Rightarrow> string \<Rightarrow> py_error + bool" where
  "compare_digest a b =
    (if is_ascii a \<and> is_ascii b then Inr (a = b)
     else Inl (TypeError ''comparing strings with non-ASCII characters is not supported''))"

definition public_tool_summary :: "string \<Rightarrow> string" where
  "public_tool_summary tool_name =
    (case map_of
      [(''workspace.list_dir'', ''List a workspace directory''),
       (''workspace.read_text'', ''Read a workspace file''),
       (''workspace.write_text'', ''Write text to a workspace file''),
       (''workspace.write_project'', ''Save a reviewed project revision''),
       (''process.run'', ''Run a sandboxed process'')] tool_name of
       None \<Rightarrow> ''Use a supported tool'' | Some s \<Rightarrow> s)"

definition action_json :: "string \<Rightarrow> string \<Rightarrow> (string \<times> json) list \<Rightarrow> json" where
  "action_json tool_call_id tool_name arguments = JObj
    [(''arguments'', JObj arguments), (''tool_call_id'', JStr tool_call_id), (''tool_name'', JStr tool_name)]"

definition canonical_action_digest :: "(string \<Rightarrow> string) \<Rightarrow> string \<Rightarrow> string \<Rightarrow> (string \<times> json) list
    \<Rightarrow> py_error + string" where
  "canonical_action_digest H tool_call_id tool_name arguments =
    (if tool_call_id = [] \<or> tool_name = [] then Inl (OtherException ''ApprovalBindingError'')
     else Inr (''sha256:'' @ H (json_dumps (action_json tool_call_id tool_name arguments))))"

text \<open>The stored digest is a text column, never NULL.\<close>

definition binding_matches :: "(string \<Rightarrow> string) \<Rightarrow> string \<Rightarrow> string \<Rightarrow> string \<Rightarrow> (string \<times> json) list
    \<Rightarrow> py_error + bool" where
  "binding_matches H stored_digest tool_call_id tool_name arguments =
    (case canonical_action_digest H tool_call_id tool_name arguments of
       Inl e \<Rightarrow> Inr False
     | Inr expected \<Rightarrow> compare_digest stored_digest expected)"

section \<open>What of a tool call is public\<close>

fun text_or :: "json option \<Rightarrow> string \<Rightarrow> string \<Rightarrow> string" where
  "text_or None missing other = missing"
| "text_or (Some (JStr s)) missing other = s"
| "text_or (Some v) missing other = other"

definition safe_affected_data_summary :: "string \<Rightarrow> (string \<times> json) list \<Rightarrow> string" where
  "safe_affected_data_summary tool_name arguments =
    (if tool_name = ''workspace.write_project''
     then ''Saves the reviewed files in a new immutable project revision; source content hidden.''
     else if tool_name = ''workspace.write_text''
     then
       let byte_count = (case map_of arguments ''content'' of
               None \<Rightarrow> show_nat 0
             | Some (JStr s) \<Rightarrow> show_nat (length s)
             | Some _ \<Rightarrow> ''an unknown number of'');
           target = text_or (map_of arguments ''path'') [] ''<redacted>''
       in ''Writes '' @ byte_count @ '' UTF-8 bytes to one workspace file: '' @ target @ ''; content hidden.''
     else if tool_name = ''process.run''
     then ''Sandboxed process may read or modify the entire configured workspace except '' @
       ''protected paths; cwd selects only its working directory '' @
       ''and does not restrict workspace access; network denied.''
     else ''Arguments and affected data remain hidden.'')"

definition redacted_arguments :: "(string \<times> json) list" where
  "redacted_arguments = [(''arguments_redacted'', JBool True)]"

definition utf8_redacted :: "string \<Rightarrow> json" where
  "utf8_redacted count = JStr (''<redacted: '' @ count @ '' UTF-8 bytes>'')"

definition public_tool_arguments :: "string \<Rightarrow> json \<Rightarrow> json" where
  "public_tool_arguments tool_name arguments =
    (if tool_name = ''workspace.write_project''
     then JObj ((''file_count'', JInt (case arguments of
         JObj kvs \<Rightarrow> (case map_of kvs ''files'' of Some (JArr files) \<Rightarrow> int (length files) | _ \<Rightarrow> 0)
       | _ \<Rightarrow> 0)) # redacted_arguments)
     else (case arguments of
       JObj kvs \<Rightarrow>
         if tool_name = ''workspace.list_dir'' \<or> tool_name = ''workspace.read_text''
         then JObj [(''path'', JStr (text_or (map_of kvs ''path'') ''.'' ''<redacted>''))]
         else if tool_name = ''workspace.write_text''
         then JObj ([(''path'', JStr (text_or (map_of kvs ''path'') [] ''<redacted>'')),
             (''content'', utf8_redacted (case map_of kvs ''content'' of
                 None \<Rightarrow> show_nat 0 | Some (JStr s) \<Rightarrow> show_nat (length s) | Some _ \<Rightarrow> ''unknown''))] @
             redacted_arguments)
         else if tool_name = ''process.run''
         then let argv = (case map_of kvs ''argv'' of Some (JArr xs) \<Rightarrow> xs | _ \<Rightarrow> []) in
           JObj ([(''argv'', JArr (if argv = [] then [] else [JStr ''<redacted>''])),
             (''argument_count'', JInt (int (length argv)))] @ redacted_arguments)
         else if tool_name = ''none'' then JObj []
         else JObj redacted_arguments
     | _ \<Rightarrow>
         if tool_name = ''workspace.list_dir'' \<or> tool_name = ''workspace.read_text''
         then JObj [(''path'', JStr ''<redacted>'')]
         else if tool_name = ''workspace.write_text''
         then JObj ([(''path'', JStr ''<redacted>''), (''content'', utf8_redacted ''0'')] @ redacted_arguments)
         else if tool_name = ''process.run''
         then JObj ([(''argv'', JArr []), (''argument_count'', JInt 0)] @ redacted_arguments)
         else JObj redacted_arguments))"

definition public_process_error :: string where
  "public_process_error = ''sandboxed process failed; detailed error retained locally''"

definition public_tool_error :: "string \<Rightarrow> string option \<Rightarrow> string option" where
  "public_tool_error tool_name error =
    (case error of
       None \<Rightarrow> None
     | Some e \<Rightarrow> Some (if tool_name = ''process.run'' then public_process_error else e))"

definition keep_if :: "(json \<Rightarrow> json option) \<Rightarrow> string \<Rightarrow> (string \<times> json) list \<Rightarrow> (string \<times> json) list" where
  "keep_if f k kvs = (case map_of kvs k of
      None \<Rightarrow> [] | Some v \<Rightarrow> (case f v of None \<Rightarrow> [] | Some w \<Rightarrow> [(k, w)]))"

fun json_int_only :: "json \<Rightarrow> json option" where
  "json_int_only (JInt i) = Some (JInt i)"
| "json_int_only v = None"

fun json_bool_only :: "json \<Rightarrow> json option" where
  "json_bool_only (JBool b) = Some (JBool b)"
| "json_bool_only v = None"

fun json_text_size :: "json \<Rightarrow> json option" where
  "json_text_size (JStr s) = Some (utf8_redacted (show_nat (length s)))"
| "json_text_size v = None"

definition json_same_text :: "string \<Rightarrow> json \<Rightarrow> json option" where
  "json_same_text s v = (if v = JStr s then Some v else None)"

definition public_tool_result :: "string \<Rightarrow> json \<Rightarrow> json" where
  "public_tool_result tool_name result =
    (case result of
       JNull \<Rightarrow> JNull
     | JObj kvs \<Rightarrow>
         if tool_name \<noteq> ''process.run'' then JObj kvs
         else JObj ([(''output_redacted'', JBool True)] @
           keep_if json_int_only ''returncode'' kvs @
           keep_if json_text_size ''stdout'' kvs @ keep_if json_text_size ''stderr'' kvs @
           keep_if json_bool_only ''stdout_truncated'' kvs @ keep_if json_bool_only ''stderr_truncated'' kvs @
           keep_if (json_same_text ''bubblewrap'') ''sandbox'' kvs @
           keep_if (json_same_text ''denied'') ''network'' kvs)
     | _ \<Rightarrow> if tool_name = ''process.run'' then JObj [(''output_redacted'', JBool True)] else JNull)"

text \<open>
  The record is a decoded tool call: its \<open>tool_name\<close> is text, its \<open>error\<close> text or None. Both
  are read through \<open>str\<close>.
\<close>

definition record_text :: "(json \<Rightarrow> string) \<Rightarrow> string \<Rightarrow> string \<Rightarrow> (string \<times> json) list \<Rightarrow> string" where
  "record_text repr k missing record =
    (case map_of record k of None \<Rightarrow> missing | Some v \<Rightarrow> py_str repr v)"

definition record_value :: "string \<Rightarrow> (string \<times> json) list \<Rightarrow> json" where
  "record_value k record = (case map_of record k of None \<Rightarrow> JNull | Some v \<Rightarrow> v)"

definition public_tool_call :: "(json \<Rightarrow> string) \<Rightarrow> (string \<times> json) list \<Rightarrow> (string \<times> json) list" where
  "public_tool_call repr record =
    (let tool_name = record_text repr ''tool_name'' ''unknown'' record;
         error = (if record_value ''error'' record = JNull then None
                  else Some (record_text repr ''error'' [] record))
     in dict_set ''error'' (json_opt (public_tool_error tool_name error))
        (dict_set ''result'' (public_tool_result tool_name (record_value ''result'' record))
        (dict_set ''arguments'' (public_tool_arguments tool_name (record_value ''arguments'' record))
        (dict_set ''summary'' (JStr (public_tool_summary tool_name)) record))))"

section \<open>The consent context\<close>

record requester =
  rq_type :: string
  rq_id :: string
  rq_name :: string

record consent_policy =
  po_rule_id :: string
  po_decision :: string
  po_reason :: string

record consent_context =
  cc_requester :: "requester option"
  cc_policy :: "consent_policy option"
  cc_affected_data_summary :: string
  cc_audit_id :: "int option"
  cc_valid :: bool

definition non_empty_text :: "json option \<Rightarrow> string option" where
  "non_empty_text v = (case v of Some (JStr s) \<Rightarrow> if s = [] then None else Some s | _ \<Rightarrow> None)"

definition audit_payload :: "audit_row option \<Rightarrow> (string \<times> json) list option" where
  "audit_payload audit =
    (case audit of
       None \<Rightarrow> None
     | Some r \<Rightarrow> (case json_loads (ae_payload_json r) of Some (JObj kvs) \<Rightarrow> Some kvs | _ \<Rightarrow> None))"

definition consent_requester :: "audit_row option \<Rightarrow> requester option" where
  "consent_requester audit =
    (case (audit, audit_payload audit) of
       (Some r, Some payload) \<Rightarrow>
         (case non_empty_text (map_of payload ''requester_name'') of
            Some name \<Rightarrow>
              if ae_actor_type r \<noteq> [] \<and> ae_actor_id r \<noteq> []
              then Some \<lparr>rq_type = ae_actor_type r, rq_id = ae_actor_id r, rq_name = name\<rparr> else None
          | None \<Rightarrow> None)
     | _ \<Rightarrow> None)"

definition consent_policy_of :: "audit_row option \<Rightarrow> consent_policy option" where
  "consent_policy_of audit =
    (case audit_payload audit of
       None \<Rightarrow> None
     | Some payload \<Rightarrow>
         (case map_of payload ''policy'' of
            Some (JObj p) \<Rightarrow>
              (case (non_empty_text (map_of p ''rule_id''), non_empty_text (map_of p ''decision''),
                  non_empty_text (map_of p ''reason'')) of
                 (Some i, Some d, Some x) \<Rightarrow> Some \<lparr>po_rule_id = i, po_decision = d, po_reason = x\<rparr>
               | _ \<Rightarrow> None)
          | _ \<Rightarrow> None))"

text \<open>The recomputed hash; a comparison that raises counts as a mismatch.\<close>

definition audit_hash_matches :: "(string \<Rightarrow> string) \<Rightarrow> audit_row \<Rightarrow> bool" where
  "audit_hash_matches H r =
    (case ae_hash r of
       None \<Rightarrow> False
     | Some h \<Rightarrow> compare_digest h (row_hash H r) = Inr True)"

text \<open>
  \<open>audit\<close> is the row \<open>request_audit_id\<close> names, or None where the join finds none.
\<close>

definition consent_context_from_audit :: "(string \<Rightarrow> string) \<Rightarrow> string \<Rightarrow> string \<Rightarrow> string \<Rightarrow> string \<Rightarrow> string
    \<Rightarrow> (string \<times> json) list \<Rightarrow> int \<Rightarrow> audit_row option \<Rightarrow> consent_context" where
  "consent_context_from_audit H approval_id task_id tool_call_id action_digest tool_name arguments
      request_audit_id audit =
    (let current = safe_affected_data_summary tool_name arguments;
         requester = consent_requester audit;
         policy = consent_policy_of audit
     in \<lparr>cc_requester = requester, cc_policy = policy, cc_affected_data_summary = current,
         cc_audit_id = map_option ae_id audit,
         cc_valid = (case (audit, audit_payload audit) of
             (Some r, Some payload) \<Rightarrow>
               ae_id r = request_audit_id \<and> ae_event_type r = ''approval.requested'' \<and>
               ae_actor_type r = ''device'' \<and> ae_task_id r = Some task_id \<and> ae_trace_id r = task_id \<and>
               requester \<noteq> None \<and> (\<exists>p. policy = Some p \<and> po_decision p = ''ask'') \<and>
               map_of payload ''approval_id'' = Some (JStr approval_id) \<and>
               map_of payload ''task_id'' = Some (JStr task_id) \<and>
               map_of payload ''tool_call_id'' = Some (JStr tool_call_id) \<and>
               map_of payload ''tool_name'' = Some (JStr tool_name) \<and>
               map_of payload ''action_digest'' = Some (JStr action_digest) \<and>
               map_of payload ''affected_data_summary'' = Some (JStr current) \<and>
               audit_hash_matches H r
           | _ \<Rightarrow> False)\<rparr>)"

section \<open>What the digest binds\<close>

lemma compare_digest_True: "compare_digest a b = Inr True \<Longrightarrow> a = b"
  by (simp add: compare_digest_def split: if_split_asm)

lemma binding_matches_True:
  "binding_matches H d i n args = Inr True \<Longrightarrow>
    d = ''sha256:'' @ H (json_dumps (action_json i n args)) \<and> i \<noteq> [] \<and> n \<noteq> []"
  by (auto simp: binding_matches_def canonical_action_digest_def dest: compare_digest_True
      split: sum.split_asm if_split_asm)

lemma action_json_inj:
  assumes "json_dict (JObj args)" "json_dict (JObj args')"
    and "json_dumps (action_json i n args) = json_dumps (action_json i' n' args')"
  shows "i = i' \<and> n = n' \<and> json_sort (JObj args) = json_sort (JObj args')"
proof -
  have d: "json_dict (action_json i n a)" if "json_dict (JObj a)" for i n a
    using that by (simp add: action_json_def)
  have eq: "json_sort (action_json i n args) = json_sort (action_json i' n' args')"
    by (rule dumps_inj [OF d d assms(3)]) (fact assms)+
  note m = json_sort_obj_eq [OF eq [unfolded action_json_def]]
  show ?thesis
    using m [of "''arguments''"] m [of "''tool_call_id''"] m [of "''tool_name''"] by simp
qed

text \<open>One digest stands for one action: call, tool and arguments as a value.\<close>

lemma digest_binds_action:
  assumes "binding_matches H d i n args = Inr True" "binding_matches H d i' n' args' = Inr True"
    and "json_dict (JObj args)" "json_dict (JObj args')" "\<not> collision H"
  shows "i = i' \<and> n = n' \<and> json_sort (JObj args) = json_sort (JObj args')"
proof -
  have "H (json_dumps (action_json i n args)) = H (json_dumps (action_json i' n' args'))"
    using binding_matches_True [OF assms(1)] binding_matches_True [OF assms(2)] by simp
  then have "json_dumps (action_json i n args) = json_dumps (action_json i' n' args')"
    using assms(5) by (auto simp: collision_def)
  then show ?thesis by (rule action_json_inj [OF assms(3,4)])
qed

section \<open>What the projections hide\<close>

text \<open>
  Two records an outsider is not meant to tell apart: the same but for what a file write writes
  and a process is given and prints, up to its size.
\<close>

fun same_text_size :: "json option \<Rightarrow> json option \<Rightarrow> bool" where
  "same_text_size (Some (JStr s)) (Some (JStr t)) = (length s = length t)"
| "same_text_size x y = (x = y)"

definition argv_of :: "(string \<times> json) list \<Rightarrow> json list" where
  "argv_of kvs = (case map_of kvs ''argv'' of Some (JArr xs) \<Rightarrow> xs | _ \<Rightarrow> [])"

text \<open>
  What a process is run with and what a write writes stay hidden: the public arguments of a
  write depend on nothing but the path and the size of the content, those of a process on the
  number of its arguments.
\<close>

theorem public_arguments_hide_content:
  "(map_of kvs ''path'' = map_of kvs' ''path'' \<and>
     same_text_size (map_of kvs ''content'') (map_of kvs' ''content'') \<longrightarrow>
     public_tool_arguments ''workspace.write_text'' (JObj kvs) =
     public_tool_arguments ''workspace.write_text'' (JObj kvs')) \<and>
   (length (argv_of kvs) = length (argv_of kvs') \<longrightarrow>
     public_tool_arguments ''process.run'' (JObj kvs) = public_tool_arguments ''process.run'' (JObj kvs'))"
proof (intro conjI impI)
  assume a: "map_of kvs ''path'' = map_of kvs' ''path'' \<and>
     same_text_size (map_of kvs ''content'') (map_of kvs' ''content'')"
  then have "(case map_of kvs ''content'' of
                 None \<Rightarrow> show_nat 0 | Some (JStr s) \<Rightarrow> show_nat (length s) | Some _ \<Rightarrow> ''unknown'') =
      (case map_of kvs' ''content'' of
                 None \<Rightarrow> show_nat 0 | Some (JStr s) \<Rightarrow> show_nat (length s) | Some _ \<Rightarrow> ''unknown'')"
    by (cases "map_of kvs ''content''"; cases "map_of kvs' ''content''")
      (auto split: json.split elim!: same_text_size.elims)
  with a show "public_tool_arguments ''workspace.write_text'' (JObj kvs) =
     public_tool_arguments ''workspace.write_text'' (JObj kvs')"
    by (simp add: public_tool_arguments_def)
next
  assume "length (argv_of kvs) = length (argv_of kvs')"
  moreover from this have "argv_of kvs = [] \<longleftrightarrow> argv_of kvs' = []" by (metis length_0_conv)
  ultimately show "public_tool_arguments ''process.run'' (JObj kvs) = public_tool_arguments ''process.run'' (JObj kvs')"
    by (simp add: public_tool_arguments_def argv_of_def [symmetric] Let_def)
qed

theorem public_arguments_hide_content_witness:
  "public_tool_arguments ''workspace.write_text''
     (JObj [(''path'', JStr ''a.txt''), (''content'', JStr ''secret'')]) =
   public_tool_arguments ''workspace.write_text''
     (JObj [(''path'', JStr ''a.txt''), (''content'', JStr ''public'')]) \<and>
   public_tool_arguments ''process.run'' (JObj [(''argv'', JArr [JStr ''cat'', JStr ''/etc/passwd''])]) =
   public_tool_arguments ''process.run'' (JObj [(''argv'', JArr [JStr ''git'', JStr ''status''])])"
proof (rule conjI)
  show "public_tool_arguments ''workspace.write_text''
     (JObj [(''path'', JStr ''a.txt''), (''content'', JStr ''secret'')]) =
   public_tool_arguments ''workspace.write_text''
     (JObj [(''path'', JStr ''a.txt''), (''content'', JStr ''public'')])"
    by (rule mp [OF conjunct1 [OF public_arguments_hide_content]]) simp
  show "public_tool_arguments ''process.run'' (JObj [(''argv'', JArr [JStr ''cat'', JStr ''/etc/passwd''])]) =
   public_tool_arguments ''process.run'' (JObj [(''argv'', JArr [JStr ''git'', JStr ''status''])])"
    by (rule mp [OF conjunct2 [OF public_arguments_hide_content]]) (simp add: argv_of_def)
qed

end
