(* ===== verification/Approval_Gateway.thy ===== *)
theory Approval_Gateway
  imports Approval_Binding
begin

text \<open>
  \<open>server/app/services/approval_gateway.py\<close>: approvals of tool calls, read together with the
  call they were created for and the audit event that recorded the request, decided once, or
  expired. The tables \<open>tasks\<close>, \<open>approvals\<close> and \<open>tool_calls\<close> are those of the schema in
  \<open>state_service.py\<close>, their status columns as datatypes of the values the code writes. SHA-256 is
  the parameter \<open>H\<close>, \<open>fresh\<close> supplies \<open>uuid4\<close> texts, \<open>clk\<close> is \<open>datetime.now(UTC)\<close>. The preview
  shown beside an approval, and the record an \<open>ApprovalConflict\<close> carries besides its message, are
  not modelled.
\<close>

section \<open>Tables\<close>

datatype task_status = Task_Created | Task_Planned | Task_Waiting_Permission | Task_Queued | Task_Running
  | Task_Blocked | Task_Completed | Task_Failed | Task_Cancelled

datatype approval_status = Approval_Pending | Approval_Approved | Approval_Denied | Approval_Expired
  | Approval_Cancelled

datatype tool_status = Tool_Waiting_Permission | Tool_Queued | Tool_Running | Tool_Completed | Tool_Failed
  | Tool_Denied | Tool_Cancelled

record task_row =
  tk_id :: string
  tk_title :: string
  tk_input :: string
  tk_mode :: string
  tk_source :: string
  tk_conversation_id :: "string option"
  tk_status :: task_status
  tk_priority :: int
  tk_created_at :: string
  tk_updated_at :: string
  tk_completed_at :: "string option"
  tk_error_json :: "string option"

record approval_row =
  ap_id :: string
  ap_task_id :: string
  ap_tool_call_id :: string
  ap_action_digest :: string
  ap_request_audit_id :: int
  ap_action :: string
  ap_summary :: string
  ap_risk :: string
  ap_status :: approval_status
  ap_created_at :: string
  ap_expires_at :: string
  ap_decided_at :: "string option"
  ap_decision_json :: "string option"

record tool_call_row =
  tc_id :: string
  tc_task_id :: string
  tc_tool_name :: string
  tc_arguments_json :: string
  tc_summary :: string
  tc_risk :: string
  tc_status :: tool_status
  tc_approval_id :: "string option"
  tc_result_json :: "string option"
  tc_error :: "string option"
  tc_created_at :: string
  tc_updated_at :: string

record approval_db = consumer_db +
  tasks :: "task_row sql_table"
  approvals :: "approval_row sql_table"
  tool_calls :: "tool_call_row sql_table"

section \<open>Reading an approval\<close>

record approval_view =
  av_row :: approval_row
  av_decision :: "json option"
  av_binding_valid :: bool
  av_summary :: string
  av_requester :: "requester option"
  av_policy :: "consent_policy option"
  av_affected_data_summary :: string
  av_audit_id :: "int option"
  av_consent_context_valid :: bool

definition stored_decision :: "string option \<Rightarrow> py_error + json option" where
  "stored_decision raw =
    (if or_empty raw = [] then Inr None
     else (case json_loads (or_empty raw) of
         None \<Rightarrow> Inl (OtherException ''JSONDecodeError'')
       | Some v \<Rightarrow> Inr (Some v)))"

text \<open>The linked call's arguments, when its text is a JSON object.\<close>

definition linked_arguments :: "tool_call_row option \<Rightarrow> (string \<times> json) list option" where
  "linked_arguments c =
    (case c of
       None \<Rightarrow> None
     | Some r \<Rightarrow> (case json_loads (tc_arguments_json r) of Some (JObj kvs) \<Rightarrow> Some kvs | _ \<Rightarrow> None))"

definition binding_valid :: "(string \<Rightarrow> string) \<Rightarrow> approval_row \<Rightarrow> tool_call_row option \<Rightarrow> py_error + bool" where
  "binding_valid H a c =
    (case (c, linked_arguments c) of
       (Some r, Some arguments) \<Rightarrow>
         if ap_tool_call_id a = tc_id r \<and> ap_task_id a = tc_task_id r \<and> ap_action a = tc_tool_name r
         then binding_matches H (ap_action_digest a) (tc_id r) (tc_tool_name r) arguments
         else Inr False
     | _ \<Rightarrow> Inr False)"

definition decode_approval :: "(string \<Rightarrow> string) \<Rightarrow> approval_row \<Rightarrow> tool_call_row option \<Rightarrow> audit_row option
    \<Rightarrow> py_error + approval_view" where
  "decode_approval H a c audit =
    and_then (stored_decision (ap_decision_json a)) (\<lambda>decision.
    and_then (binding_valid H a c) (\<lambda>bound.
      (let tool_name = py_or (map_option tc_tool_name c) (ap_action a);
           arguments = (case linked_arguments c of None \<Rightarrow> [] | Some kvs \<Rightarrow> kvs);
           context = consent_context_from_audit H (ap_id a) (ap_task_id a)
             (py_or (map_option tc_id c) (ap_tool_call_id a)) (ap_action_digest a) tool_name arguments
             (ap_request_audit_id a) audit
       in Inr \<lparr>av_row = a, av_decision = decision, av_binding_valid = bound,
         av_summary = public_tool_summary tool_name,
         av_requester = (if cc_valid context then cc_requester context else None),
         av_policy = (if cc_valid context then cc_policy context else None),
         av_affected_data_summary = cc_affected_data_summary context, av_audit_id = cc_audit_id context,
         av_consent_context_valid = cc_valid context\<rparr>)))"

text \<open>The row with what the two outer joins find; a call's \<open>approval_id\<close> is unique.\<close>

definition view_approval :: "(string \<Rightarrow> string) \<Rightarrow> 'z approval_db_scheme \<Rightarrow> approval_row \<Rightarrow> py_error + approval_view" where
  "view_approval H db a = decode_approval H a (row_by tc_approval_id (Some (ap_id a)) (tool_calls db))
    (row_by ae_id (ap_request_audit_id a) (audit_events db))"

section \<open>Expiry\<close>

definition pending_approval :: "string \<Rightarrow> approval_row \<Rightarrow> bool" where
  "pending_approval i a \<longleftrightarrow> ap_id a = i \<and> ap_status a = Approval_Pending"

definition waiting_call :: "string \<Rightarrow> tool_call_row \<Rightarrow> bool" where
  "waiting_call i c \<longleftrightarrow> tc_approval_id c = Some i \<and> tc_status c = Tool_Waiting_Permission"

definition waiting_task :: "string \<Rightarrow> task_row \<Rightarrow> bool" where
  "waiting_task i t \<longleftrightarrow> tk_id t = i \<and> tk_status t = Task_Waiting_Permission"

definition expire_locked :: "(string \<Rightarrow> string) \<Rightarrow> string \<Rightarrow> nat \<Rightarrow> string \<Rightarrow> string \<Rightarrow> string option
    \<Rightarrow> 'z approval_db_scheme \<Rightarrow> bool \<times> 'z approval_db_scheme" where
  "expire_locked H fresh clk approval_id task_id tool_call_id db =
    (let now = isoformat clk;
         db1 = db\<lparr>approvals := sql_update (pending_approval approval_id)
           (\<lambda>a. a\<lparr>ap_status := Approval_Expired, ap_decided_at := Some now\<rparr>) (approvals db)\<rparr>
     in if sql_rowcount (pending_approval approval_id) (approvals db) \<noteq> 1 then (False, db1)
        else
          let db2 = db1\<lparr>tool_calls := sql_update (waiting_call approval_id)
                (\<lambda>c. c\<lparr>tc_status := Tool_Cancelled, tc_updated_at := now\<rparr>) (tool_calls db1)\<rparr>;
              db3 = db2\<lparr>tasks := sql_update (waiting_task task_id)
                (\<lambda>t. t\<lparr>tk_status := Task_Blocked, tk_updated_at := now\<rparr>) (tasks db2)\<rparr>;
              payload = [(''approval_id'', JStr approval_id)] @
                (case tool_call_id of None \<Rightarrow> [] | Some i \<Rightarrow> [(''tool_call_id'', JStr i)])
          in (True, snd (append_audit_event H fresh clk ''approval.expired'' (JObj payload)
            ''system'' ''control-plane'' (Some task_id) (Some task_id) (Some now) db3)))"

fun expire_rows :: "(string \<Rightarrow> string) \<Rightarrow> (nat \<Rightarrow> string) \<Rightarrow> nat \<Rightarrow> approval_row list \<Rightarrow> 'z approval_db_scheme
    \<Rightarrow> 'z approval_db_scheme" where
  "expire_rows H fresh clk [] db = db"
| "expire_rows H fresh clk (a # rest) db =
    expire_rows H (\<lambda>n. fresh (Suc n)) clk rest
      (snd (expire_locked H (fresh 0) clk (ap_id a) (ap_task_id a) (Some (ap_tool_call_id a)) db))"

definition expire_pending :: "(string \<Rightarrow> string) \<Rightarrow> (nat \<Rightarrow> string) \<Rightarrow> nat \<Rightarrow> 'z approval_db_scheme
    \<Rightarrow> 'z approval_db_scheme" where
  "expire_pending H fresh clk db =
    expire_rows H fresh clk
      (sql_select (\<lambda>a. ap_status a = Approval_Pending \<and> ap_expires_at a \<le> isoformat clk) (approvals db)) db"

section \<open>Listing\<close>

definition view_all :: "(string \<Rightarrow> string) \<Rightarrow> 'z approval_db_scheme \<Rightarrow> approval_row list
    \<Rightarrow> py_error + approval_view list" where
  "view_all H db rows = for_each (\<lambda>a views. and_then (view_approval H db a) (\<lambda>v. Inr (views @ [v]))) rows []"

text \<open>
  Each read first expires what is due, in a transaction of its own; \<open>others\<close> is what other
  processes do before the read.
\<close>

definition approval_get :: "(string \<Rightarrow> string) \<Rightarrow> (nat \<Rightarrow> string) \<Rightarrow> nat
    \<Rightarrow> ('z approval_db_scheme \<Rightarrow> 'z approval_db_scheme) \<Rightarrow> string \<Rightarrow> 'z approval_db_scheme
    \<Rightarrow> (py_error + approval_view option) \<times> 'z approval_db_scheme" where
  "approval_get H fresh clk others approval_id db =
    (let db1 = others (expire_pending H fresh clk db)
     in (case row_by ap_id approval_id (approvals db1) of
           None \<Rightarrow> Inr None
         | Some a \<Rightarrow> and_then (view_approval H db1 a) (\<lambda>v. Inr (Some v)), db1))"

definition newest_first :: "approval_row list \<Rightarrow> approval_row list" where
  "newest_first rows = rev (sort_key ap_created_at rows)"

definition list_by_status :: "(string \<Rightarrow> string) \<Rightarrow> (nat \<Rightarrow> string) \<Rightarrow> nat
    \<Rightarrow> ('z approval_db_scheme \<Rightarrow> 'z approval_db_scheme) \<Rightarrow> approval_status \<Rightarrow> 'z approval_db_scheme
    \<Rightarrow> (py_error + approval_view list) \<times> 'z approval_db_scheme" where
  "list_by_status H fresh clk others status db =
    (let db1 = others (expire_pending H fresh clk db)
     in (view_all H db1 (newest_first (sql_select (\<lambda>a. ap_status a = status) (approvals db1))), db1))"

text \<open>A negative \<open>LIMIT\<close> is none.\<close>

definition sql_limit :: "int \<Rightarrow> 'r list \<Rightarrow> 'r list" where
  "sql_limit n rows = (if n < 0 then rows else take (nat n) rows)"

definition list_all_approvals :: "(string \<Rightarrow> string) \<Rightarrow> (nat \<Rightarrow> string) \<Rightarrow> nat
    \<Rightarrow> ('z approval_db_scheme \<Rightarrow> 'z approval_db_scheme) \<Rightarrow> int \<Rightarrow> 'z approval_db_scheme
    \<Rightarrow> (py_error + approval_view list) \<times> 'z approval_db_scheme" where
  "list_all_approvals H fresh clk others limit db =
    (let db1 = others (expire_pending H fresh clk db)
     in (view_all H db1 (sql_limit limit (newest_first (approvals db1))), db1))"

definition list_pending :: "(string \<Rightarrow> string) \<Rightarrow> (nat \<Rightarrow> string) \<Rightarrow> nat
    \<Rightarrow> ('z approval_db_scheme \<Rightarrow> 'z approval_db_scheme) \<Rightarrow> 'z approval_db_scheme
    \<Rightarrow> (py_error + approval_view list) \<times> 'z approval_db_scheme" where
  "list_pending H fresh clk others db = list_by_status H fresh clk others Approval_Pending db"

definition list_for_task :: "(string \<Rightarrow> string) \<Rightarrow> (nat \<Rightarrow> string) \<Rightarrow> nat
    \<Rightarrow> ('z approval_db_scheme \<Rightarrow> 'z approval_db_scheme) \<Rightarrow> string \<Rightarrow> 'z approval_db_scheme
    \<Rightarrow> (py_error + approval_view list) \<times> 'z approval_db_scheme" where
  "list_for_task H fresh clk others task_id db =
    (let db1 = others (expire_pending H fresh clk db)
     in (view_all H db1 (sort_key ap_created_at (sql_select (\<lambda>a. ap_task_id a = task_id) (approvals db1))), db1))"

section \<open>Deciding\<close>

definition decision_json :: "string \<Rightarrow> string \<Rightarrow> string option \<Rightarrow> string" where
  "decision_json decision actor_id user_note = json_ascii True '','' '':''
    (JObj [(''decision'', JStr decision), (''actor_id'', JStr actor_id), (''user_note'', json_opt user_note)])"

text \<open>
  The three updates and the audit events of a decision; the row counts are those of the three
  statements.
\<close>

definition decide_locked :: "(string \<Rightarrow> string) \<Rightarrow> (nat \<Rightarrow> string) \<Rightarrow> nat \<Rightarrow> string \<Rightarrow> string \<Rightarrow> string \<Rightarrow> string option
    \<Rightarrow> string \<Rightarrow> string \<Rightarrow> 'z approval_db_scheme \<Rightarrow> py_error + 'z approval_db_scheme" where
  "decide_locked H fresh clk approval_id decision actor_id user_note tool_id task_id db =
    (let now = isoformat clk;
         ok = (decision = ''approve'');
         P = (\<lambda>a. pending_approval approval_id a \<and> now < ap_expires_at a);
         Q = (\<lambda>c. tc_id c = tool_id \<and> waiting_call approval_id c);
         R = waiting_task task_id;
         db1 = db\<lparr>approvals := sql_update P (\<lambda>a. a\<lparr>ap_status := if ok then Approval_Approved else Approval_Denied,
                   ap_decided_at := Some now,
                   ap_decision_json := Some (decision_json decision actor_id user_note)\<rparr>) (approvals db),
                 tool_calls := sql_update Q (\<lambda>c. c\<lparr>tc_status := if ok then Tool_Queued else Tool_Denied,
                   tc_updated_at := now\<rparr>) (tool_calls db),
                 tasks := sql_update R (\<lambda>t. t\<lparr>tk_status := if ok then Task_Queued else Task_Blocked,
                   tk_updated_at := now\<rparr>) (tasks db)\<rparr>
     in if sql_rowcount P (approvals db) \<noteq> 1 \<or> sql_rowcount Q (tool_calls db) \<noteq> 1 \<or> sql_rowcount R (tasks db) \<noteq> 1
        then Inl (ApprovalConflict ''approval lost a concurrent state transition'')
        else
          let db2 = snd (append_audit_event H (fresh 0) clk ''approval.decided''
                (JObj [(''approval_id'', JStr approval_id), (''decision'', JStr decision)])
                ''device'' actor_id (Some task_id) (Some task_id) (Some now) db1)
          in Inr (if decision = ''deny''
             then snd (append_audit_event H (fresh 1) clk ''tool.denied'' (JObj [(''tool_call_id'', JStr tool_id)])
               ''system'' ''control-plane'' (Some task_id) (Some task_id) (Some now) db2)
             else db2))"

text \<open>
  The transaction of \<open>decide\<close>. An approval found expired is expired and committed before the
  conflict is raised; every other conflict rolls back. True when a decision was committed, False
  when there is no such approval.
\<close>

definition decide_transaction :: "(string \<Rightarrow> string) \<Rightarrow> (nat \<Rightarrow> string) \<Rightarrow> nat \<Rightarrow> string \<Rightarrow> string \<Rightarrow> string
    \<Rightarrow> string option \<Rightarrow> 'z approval_db_scheme \<Rightarrow> (py_error + bool) \<times> 'z approval_db_scheme" where
  "decide_transaction H fresh clk approval_id decision actor_id user_note db =
    (case row_by ap_id approval_id (approvals db) of
       None \<Rightarrow> (Inr False, db)
     | Some a \<Rightarrow>
         (case view_approval H db a of
            Inl e \<Rightarrow> (Inl e, db)
          | Inr v \<Rightarrow>
              if ap_status a \<noteq> Approval_Pending
              then (Inl (ApprovalConflict ''approval already decided or cancelled''), db)
              else if ap_expires_at a \<le> isoformat clk
              then (case expire_locked H (fresh 0) clk (ap_id a) (ap_task_id a)
                      (if ap_tool_call_id a = [] then None else Some (ap_tool_call_id a)) db of
                    (transitioned, db') \<Rightarrow>
                      if transitioned then (Inl (ApprovalConflict ''approval expired''), db')
                      else (Inl (ApprovalConflict ''approval lost a concurrent state transition''), db))
              else if \<not> av_binding_valid v
              then (Inl (ApprovalConflict ''approval action binding is invalid''), db)
              else if \<not> av_consent_context_valid v
              then (Inl (ApprovalConflict ''approval consent context is invalid''), db)
              else (case (row_by tc_approval_id (Some approval_id) (tool_calls db),
                      row_by tk_id (ap_task_id a) (tasks db)) of
                    (Some c, Some t) \<Rightarrow>
                      if tc_status c \<noteq> Tool_Waiting_Permission \<or> tk_status t \<noteq> Task_Waiting_Permission
                      then (Inl (ApprovalConflict ''approval no longer matches the task state''), db)
                      else (case decide_locked H fresh clk approval_id decision actor_id user_note (tc_id c)
                              (ap_task_id a) db of
                            Inl e \<Rightarrow> (Inl e, db)
                          | Inr db' \<Rightarrow> (Inr True, db'))
                  | _ \<Rightarrow> (Inl (ApprovalConflict ''approval is not linked to a live tool call''), db))))"

text \<open>
  \<open>decide\<close>: the transaction, then \<open>get\<close>. \<open>fresh\<close>, \<open>clk\<close> and \<open>others\<close> are indexed by the step: 0 the
  transaction and what follows its commit, 1 the read.
\<close>

definition approval_decide :: "(string \<Rightarrow> string) \<Rightarrow> (nat \<Rightarrow> nat \<Rightarrow> string) \<Rightarrow> (nat \<Rightarrow> nat)
    \<Rightarrow> (nat \<Rightarrow> 'z approval_db_scheme \<Rightarrow> 'z approval_db_scheme) \<Rightarrow> string \<Rightarrow> string \<Rightarrow> string \<Rightarrow> string option
    \<Rightarrow> 'z approval_db_scheme \<Rightarrow> (py_error + approval_view option) \<times> 'z approval_db_scheme" where
  "approval_decide H fresh clk others approval_id decision actor_id user_note db =
    (case decide_transaction H (fresh 0) (clk 0) approval_id decision actor_id user_note db of
       (Inl e, db1) \<Rightarrow> (Inl e, db1)
     | (Inr False, db1) \<Rightarrow> (Inr None, db1)
     | (Inr True, db1) \<Rightarrow>
         (case approval_get H (fresh 1) (clk 1) (others 1) approval_id (others 0 db1) of
            (Inr None, db2) \<Rightarrow> (Inl (ApprovalConflict ''approval disappeared after its decision''), db2)
          | (r, db2) \<Rightarrow> (r, db2)))"

end
