(* ===== verification/Permission_Policy.thy ===== *)
theory Permission_Policy
  imports Approval_Binding
begin

text \<open>
  \<open>server/app/services/permission_policy.py\<close>: the rules that say which tools, native
  capabilities and remote worker skills run, ask first or are denied. The policy file is read by a
  YAML library: what is modelled starts at the value it returns, with text keys and no floats.
  Messages that print a Python list are kept up to it. The glob match of protected paths is not
  modelled.
\<close>

record tool_rule =
  tr_id :: string
  tr_description :: string
  tr_decision :: string
  tr_risk :: string
  tr_approval_ttl_seconds :: "int option"

record worker_rule =
  wr_id :: string
  wr_description :: string
  wr_decision :: string
  wr_risk :: string
  wr_auto_redistribute :: bool

record process_policy =
  xp_backend :: string
  xp_binary :: string
  xp_limiter_binary :: string
  xp_network :: string
  xp_allowed_commands :: "string list"
  xp_max_timeout_seconds :: int
  xp_max_output_bytes :: int
  xp_max_memory_bytes :: int
  xp_max_processes :: int
  xp_max_file_bytes :: int
  xp_max_open_files :: int

record permission_policy =
  pp_protected_paths :: "string list"
  pp_process :: process_policy
  pp_tool_rules :: "(string \<times> tool_rule) list"
  pp_capability_rules :: "(string \<times> tool_rule) list"
  pp_worker_skill_rules :: "(string \<times> worker_rule) list"

definition approval_context :: "tool_rule \<Rightarrow> json" where
  "approval_context r = JObj [(''rule_id'', JStr (tr_id r)), (''decision'', JStr (tr_decision r)),
    (''reason'', JStr (tr_description r))]"

section \<open>What is supported\<close>

definition supported_tools :: "string list" where
  "supported_tools = [''workspace.list_dir'', ''workspace.read_text'', ''workspace.write_text'',
    ''workspace.write_project'', ''process.run'']"

definition optional_agenda_capabilities :: "string list" where
  "optional_agenda_capabilities = [''iphone.calendar.calendars'', ''iphone.calendar.reminders'',
    ''iphone.calendar.event.create'', ''iphone.calendar.event.update'',
    ''iphone.calendar.reminder.create'', ''iphone.calendar.reminder.update'']"

definition supported_iphone_capabilities :: "string list" where
  "supported_iphone_capabilities = optional_agenda_capabilities @
    [''iphone.location.current'', ''iphone.contacts.lookup'', ''iphone.calendar.events'',
     ''iphone.photos.pick'', ''iphone.mail.compose'', ''iphone.sms.compose'']"

definition workspace_skills :: "string list" where
  "workspace_skills = [''workspace.list_dir'', ''workspace.read_text'']"

definition code_generation_skills :: "string list" where
  "code_generation_skills = [''code.generate_python'']"

definition project_build_skills :: "string list" where
  "project_build_skills = [''code.build_project'']"

definition media_skills :: "string list" where
  "media_skills = [''image.generate'', ''audio.synthesize'']"

definition swift_skills :: "string list" where
  "swift_skills = [''code.swift.build'', ''code.swift.test'']"

definition specialist_skills :: "string list" where
  "specialist_skills = [''database.sqlite.inspect'', ''database.sqlite.query'',
    ''database.sqlite.create'', ''database.sqlite.backup'', ''database.sqlite.migrate'',
    ''crm.command'', ''documents.extract'', ''code.swift.build'', ''code.swift.test'']"

definition supported_agent_skills :: "string list" where
  "supported_agent_skills = workspace_skills @ [''research.query'', ''research.collect''] @
    [''code_review.git_status'', ''code_review.git_diff'', ''code_review.git_show'',
     ''code_review.static_analysis''] @ code_generation_skills @ project_build_skills @
    [''writing.draft''] @ specialist_skills @ media_skills"

section \<open>Text as Python reads it\<close>

definition is_space_point :: "nat \<Rightarrow> bool" where
  "is_space_point n \<longleftrightarrow> 9 \<le> n \<and> n \<le> 13 \<or> 28 \<le> n \<and> n \<le> 32 \<or> n = 133 \<or> n = 160 \<or> n = 5760 \<or>
    8192 \<le> n \<and> n \<le> 8202 \<or> n = 8232 \<or> n = 8233 \<or> n = 8239 \<or> n = 8287 \<or> n = 12288"

text \<open>\<open>str.strip\<close>\<close>

definition py_strip :: "string \<Rightarrow> string" where
  "py_strip s = concat (map utf8 (rev (dropWhile is_space_point (rev (dropWhile is_space_point (code_points s))))))"

fun split_slash :: "string \<Rightarrow> string list" where
  "split_slash [] = [[]]"
| "split_slash (c # r) =
    (if c = CHR ''/'' then [] # split_slash r
     else (case split_slash r of [] \<Rightarrow> [[c]] | p # ps \<Rightarrow> (c # p) # ps))"

text \<open>\<open>Path(s).name\<close> and \<open>Path(s).is_absolute()\<close> of a POSIX path.\<close>

definition path_name :: "string \<Rightarrow> string" where
  "path_name s =
    (let parts = filter (\<lambda>p. p \<noteq> [] \<and> p \<noteq> ''.'') (split_slash s)
     in if parts = [] then [] else last parts)"

definition path_absolute :: "string \<Rightarrow> bool" where
  "path_absolute s \<longleftrightarrow> starts_with ''/'' s"

text \<open>\<open>isinstance(v, int)\<close>, which holds of booleans.\<close>

fun py_int :: "json option \<Rightarrow> int option" where
  "py_int (Some (JInt i)) = Some i"
| "py_int (Some (JBool b)) = Some (if b then 1 else 0)"
| "py_int v = None"

definition int_within :: "json option \<Rightarrow> int \<Rightarrow> int \<Rightarrow> string \<Rightarrow> py_error + int" where
  "int_within v lo hi message =
    (case py_int v of
       None \<Rightarrow> Inl (PermissionPolicyError message)
     | Some i \<Rightarrow> if lo \<le> i \<and> i \<le> hi then Inr i else Inl (PermissionPolicyError message))"

definition text_within :: "json option \<Rightarrow> (string \<Rightarrow> bool) \<Rightarrow> string \<Rightarrow> py_error + string" where
  "text_within v ok message =
    (case v of
       Some (JStr s) \<Rightarrow> if ok s then Inr s else Inl (PermissionPolicyError message)
     | _ \<Rightarrow> Inl (PermissionPolicyError message))"

text \<open>A list or a dict cannot be looked up in a set.\<close>

fun hashable :: "json option \<Rightarrow> bool" where
  "hashable (Some (JArr xs)) = False"
| "hashable (Some (JObj kvs)) = False"
| "hashable v = True"

section \<open>Parsing rules\<close>

definition deny :: "string \<Rightarrow> string" where
  "deny name = ''deny-unconfigured-'' @ map (\<lambda>c. if c = CHR ''.'' then CHR ''-'' else c) name"

definition worker_decisions :: "string list" where
  "worker_decisions = [''allow'', ''deny'']"

definition tool_decisions :: "string list" where
  "tool_decisions = [''allow'', ''ask'', ''deny'']"

definition tool_risks :: "string list" where
  "tool_risks = [''low'', ''medium'', ''high'']"

definition worker_rule_fields :: "string list" where
  "worker_rule_fields = [''id'', ''description'', ''decision'', ''risk'', ''auto_redistribute'']"

definition parse_worker_skill_rule :: "string \<Rightarrow> json \<Rightarrow> py_error + worker_rule" where
  "parse_worker_skill_rule skill value =
    (case value of
       JObj kvs \<Rightarrow>
         if set (map fst kvs) \<noteq> set worker_rule_fields
         then Inl (PermissionPolicyError (''worker skill rule '' @ skill @ '' has invalid fields''))
         else
           (case (map_of kvs ''id'', map_of kvs ''description'') of
              (Some (JStr rule_id), Some (JStr description)) \<Rightarrow>
                if rule_id = []
                then Inl (PermissionPolicyError (''worker skill rule '' @ skill @ '' requires a stable id''))
                else if py_strip description = []
                then Inl (PermissionPolicyError (''worker skill rule '' @ skill @ '' requires a description''))
                else if \<not> hashable (map_of kvs ''decision'') then Inl (TypeError ''unhashable type'')
                else (case map_of kvs ''decision'' of
                    Some (JStr decision) \<Rightarrow>
                      if decision \<notin> set worker_decisions \<or> map_of kvs ''risk'' \<noteq> Some (JStr ''low'')
                      then Inl (PermissionPolicyError (''worker skill rule '' @ skill @ '' is not fail-closed''))
                      else (case map_of kvs ''auto_redistribute'' of
                          Some (JBool auto) \<Rightarrow>
                            if auto \<and> skill \<notin> set workspace_skills
                            then Inl (PermissionPolicyError
                              (''worker skill rule '' @ skill @ '' cannot be automatically redistributed''))
                            else Inr \<lparr>wr_id = rule_id, wr_description = py_strip description,
                              wr_decision = decision, wr_risk = ''low'', wr_auto_redistribute = auto\<rparr>
                        | _ \<Rightarrow> Inl (PermissionPolicyError
                            (''worker skill rule '' @ skill @ '' requires an auto_redistribute boolean'')))
                  | _ \<Rightarrow> Inl (PermissionPolicyError (''worker skill rule '' @ skill @ '' is not fail-closed'')))
            | (Some (JStr rule_id), _) \<Rightarrow>
                Inl (PermissionPolicyError (if rule_id = []
                  then ''worker skill rule '' @ skill @ '' requires a stable id''
                  else ''worker skill rule '' @ skill @ '' requires a description''))
            | _ \<Rightarrow> Inl (PermissionPolicyError (''worker skill rule '' @ skill @ '' requires a stable id'')))
     | _ \<Rightarrow> Inl (PermissionPolicyError ''each worker skill rule must be a named object''))"

definition parse_worker_skill_rules :: "(string \<times> json) list \<Rightarrow> py_error + (string \<times> worker_rule) list" where
  "parse_worker_skill_rules raw =
    for_each (\<lambda>(skill, value) parsed. and_then (parse_worker_skill_rule skill value) (\<lambda>r.
      Inr (dict_set skill r parsed))) raw []"

definition parse_tool_rule :: "string \<Rightarrow> json \<Rightarrow> py_error + tool_rule" where
  "parse_tool_rule tool_name value =
    (let bad = (\<lambda>m. Inl (PermissionPolicyError (''tool rule '' @ tool_name @ m))) in
     case value of
       JObj kvs \<Rightarrow>
         (case (map_of kvs ''id'', map_of kvs ''description'', map_of kvs ''decision'', map_of kvs ''risk'') of
            (Some (JStr rule_id), description, decision, risk) \<Rightarrow>
              if rule_id = [] then bad '' requires a stable id''
              else (case description of
                  Some (JStr d) \<Rightarrow>
                    if py_strip d = [] then bad '' requires a description''
                    else if \<not> hashable decision then Inl (TypeError ''unhashable type'')
                    else (case decision of
                        Some (JStr c) \<Rightarrow>
                          if c \<notin> set tool_decisions then bad '' has an invalid decision''
                          else if \<not> hashable risk then Inl (TypeError ''unhashable type'')
                          else (case risk of
                              Some (JStr k) \<Rightarrow>
                                if k \<notin> set tool_risks then bad '' has an invalid risk''
                                else if c = ''ask''
                                then (case map_of kvs ''approval_ttl_seconds'' of
                                    Some (JInt ttl) \<Rightarrow>
                                      if 30 \<le> ttl \<and> ttl \<le> 900
                                      then Inr \<lparr>tr_id = rule_id, tr_description = py_strip d, tr_decision = c,
                                        tr_risk = k, tr_approval_ttl_seconds = Some ttl\<rparr>
                                      else bad '' approval_ttl_seconds must be between 30 and 900''
                                  | _ \<Rightarrow> bad '' approval_ttl_seconds must be between 30 and 900'')
                                else if map_of kvs ''approval_ttl_seconds'' \<notin> {None, Some JNull}
                                then bad '' cannot set approval_ttl_seconds without decision ask''
                                else Inr \<lparr>tr_id = rule_id, tr_description = py_strip d, tr_decision = c,
                                  tr_risk = k, tr_approval_ttl_seconds = None\<rparr>
                            | _ \<Rightarrow> bad '' has an invalid risk'')
                      | _ \<Rightarrow> bad '' has an invalid decision'')
                | _ \<Rightarrow> bad '' requires a description'')
          | _ \<Rightarrow> bad '' requires a stable id'')
     | _ \<Rightarrow> Inl (PermissionPolicyError ''each tool rule must be a named object''))"

definition parse_tool_rules :: "(string \<times> json) list \<Rightarrow> py_error + (string \<times> tool_rule) list" where
  "parse_tool_rules raw =
    for_each (\<lambda>(tool_name, value) parsed. and_then (parse_tool_rule tool_name value) (\<lambda>r.
      Inr (dict_set tool_name r parsed))) raw []"

definition command_name_ok :: "json \<Rightarrow> bool" where
  "command_name_ok v = (case v of
      JStr c \<Rightarrow> c \<noteq> [] \<and> c = path_name c \<and> CHR ''/'' \<notin> set c | _ \<Rightarrow> False)"

definition parse_commands :: "json option \<Rightarrow> py_error + string list" where
  "parse_commands v =
    (case v of
       Some (JArr xs) \<Rightarrow>
         if xs = [] then Inl (PermissionPolicyError ''execution.allowed_commands must be non-empty'')
         else if \<not> list_all command_name_ok xs
         then Inl (PermissionPolicyError ''allowed commands must be executable names, not paths'')
         else Inr (remdups (map (py_str (\<lambda>v. [])) xs))
     | _ \<Rightarrow> Inl (PermissionPolicyError ''execution.allowed_commands must be non-empty''))"

definition parse_process_policy :: "(string \<times> json) list \<Rightarrow> py_error + process_policy" where
  "parse_process_policy raw =
    and_then (require (map_of raw ''backend'' = Some (JStr ''bubblewrap''))
      (PermissionPolicyError ''execution.backend must be bubblewrap'')) (\<lambda>_.
    and_then (text_within (map_of raw ''binary'') path_absolute
      ''execution.binary must be an absolute path'') (\<lambda>binary.
    and_then (text_within (map_of raw ''limiter_binary'') (\<lambda>b. path_absolute b \<and> path_name b = ''prlimit'')
      ''execution.limiter_binary must be an absolute prlimit path'') (\<lambda>limiter.
    and_then (require (map_of raw ''network'' = Some (JStr ''deny''))
      (PermissionPolicyError ''process network access must be denied'')) (\<lambda>_.
    and_then (parse_commands (map_of raw ''allowed_commands'')) (\<lambda>commands.
    and_then (int_within (map_of raw ''max_timeout_seconds'') 1 300
      ''max_timeout_seconds must be between 0.1 and 300'') (\<lambda>timeout.
    and_then (int_within (map_of raw ''max_output_bytes'') 1024 1048576
      ''max_output_bytes must be between 1024 and 1048576'') (\<lambda>output_bytes.
    and_then (int_within (map_of raw ''max_memory_bytes'') 67108864 4294967296
      ''max_memory_bytes must be between 64 MiB and 4 GiB'') (\<lambda>memory_bytes.
    and_then (int_within (map_of raw ''max_processes'') 1 256
      ''max_processes must be between 1 and 256'') (\<lambda>processes.
    and_then (int_within (map_of raw ''max_file_bytes'') 1048576 1073741824
      ''max_file_bytes must be between 1 MiB and 1 GiB'') (\<lambda>file_bytes.
    and_then (int_within (map_of raw ''max_open_files'') 32 1024
      ''max_open_files must be between 32 and 1024'') (\<lambda>open_files.
      Inr \<lparr>xp_backend = ''bubblewrap'', xp_binary = binary, xp_limiter_binary = limiter, xp_network = ''deny'',
        xp_allowed_commands = commands, xp_max_timeout_seconds = timeout, xp_max_output_bytes = output_bytes,
        xp_max_memory_bytes = memory_bytes, xp_max_processes = processes, xp_max_file_bytes = file_bytes,
        xp_max_open_files = open_files\<rparr>)))))))))))"

section \<open>The policy\<close>

definition minus :: "string list \<Rightarrow> string list \<Rightarrow> string list" where
  "minus xs ys = filter (\<lambda>x. x \<notin> set ys) xs"

definition deny_tool :: "string \<Rightarrow> string \<Rightarrow> string \<Rightarrow> tool_rule" where
  "deny_tool i description risk = \<lparr>tr_id = i, tr_description = description, tr_decision = ''deny'',
    tr_risk = risk, tr_approval_ttl_seconds = None\<rparr>"

definition deny_worker :: "string \<Rightarrow> string \<Rightarrow> worker_rule" where
  "deny_worker i description = \<lparr>wr_id = i, wr_description = description, wr_decision = ''deny'',
    wr_risk = ''low'', wr_auto_redistribute = False\<rparr>"

definition complete_tool_rules :: "(string \<times> tool_rule) list \<Rightarrow> (string \<times> tool_rule) list" where
  "complete_tool_rules rules =
    (if ''workspace.write_project'' \<in> set (map fst rules) then rules
     else dict_set ''workspace.write_project''
       (deny_tool ''deny-unconfigured-project-publication'' ''Project publication has not been configured.'' ''medium'')
       rules)"

definition effective_capability_rules :: "(string \<times> tool_rule) list option \<Rightarrow> (string \<times> tool_rule) list" where
  "effective_capability_rules rules =
    (if rules = None \<or> rules = Some []
     then map (\<lambda>n. (n, deny_tool (deny n) ''Native capability policy was not explicitly configured.'' ''high''))
       supported_iphone_capabilities
     else the rules)"

definition effective_worker_rules :: "(string \<times> worker_rule) list option \<Rightarrow> (string \<times> worker_rule) list" where
  "effective_worker_rules rules =
    (let r0 = (if rules = None \<or> rules = Some []
           then map (\<lambda>n. (n, deny_worker (deny n) ''Remote worker skill was not explicitly configured.''))
             supported_agent_skills
           else the rules);
         r1 = (if ''code.build_project'' \<in> set (map fst r0) then r0
           else dict_set ''code.build_project''
             (deny_worker ''deny-unconfigured-project-worker'' ''Isolated project coding has not been configured.'') r0)
     in fold (\<lambda>skill r. dict_set skill
          (deny_worker (deny skill) ''The approved Mac compiler route has not been enabled.'') r)
        (minus swift_skills (map fst r1)) r1)"

definition new_permission_policy :: "string list \<Rightarrow> process_policy \<Rightarrow> (string \<times> tool_rule) list
    \<Rightarrow> (string \<times> tool_rule) list option \<Rightarrow> (string \<times> worker_rule) list option
    \<Rightarrow> py_error + permission_policy" where
  "new_permission_policy protected_paths process tool_rules capability_rules worker_skill_rules =
    (let tools = complete_tool_rules tool_rules;
         capabilities = effective_capability_rules capability_rules;
         workers = effective_worker_rules worker_skill_rules
     in if minus supported_tools (map fst tools) \<noteq> [] \<or> minus (map fst tools) supported_tools \<noteq> []
        then Inl (PermissionPolicyError ''tool_rules must define exactly the supported tools'')
        else if minus (minus supported_iphone_capabilities (map fst capabilities)) optional_agenda_capabilities \<noteq> [] \<or>
          minus (map fst capabilities) supported_iphone_capabilities \<noteq> []
        then Inl (PermissionPolicyError ''capability_rules must define exactly the supported iPhone capabilities'')
        else if minus (minus (minus supported_agent_skills (map fst workers)) specialist_skills) media_skills \<noteq> [] \<or>
          minus (map fst workers) supported_agent_skills \<noteq> []
        then Inl (PermissionPolicyError ''worker_skill_rules must define exactly the supported remote skills'')
        else Inr \<lparr>pp_protected_paths = protected_paths, pp_process = process, pp_tool_rules = tools,
          pp_capability_rules = capabilities, pp_worker_skill_rules = workers\<rparr>)"

definition required_object :: "json option \<Rightarrow> string \<Rightarrow> py_error + (string \<times> json) list" where
  "required_object v message = (case v of
      Some (JObj kvs) \<Rightarrow> Inr kvs | _ \<Rightarrow> Inl (PermissionPolicyError message))"

definition policy_from_object :: "(string \<times> json) list \<Rightarrow> py_error + permission_policy" where
  "policy_from_object raw =
         and_then (case map_of raw ''protected_paths'' of
             Some (JArr xs) \<Rightarrow>
               if list_all (\<lambda>v. case v of JStr s \<Rightarrow> s \<noteq> [] | _ \<Rightarrow> False) xs
               then Inr (map (py_str (\<lambda>v. [])) xs)
               else Inl (PermissionPolicyError ''protected_paths must be a non-empty string list'')
           | _ \<Rightarrow> Inl (PermissionPolicyError ''protected_paths must be a non-empty string list'')) (\<lambda>paths.
         and_then (required_object (map_of raw ''execution'') ''execution policy is required'') (\<lambda>execution.
         and_then (required_object (map_of raw ''tool_rules'') ''tool_rules policy is required'') (\<lambda>tools.
         and_then (required_object (map_of raw ''capability_rules'') ''capability_rules policy is required'') (\<lambda>capabilities.
         and_then (required_object (map_of raw ''worker_skill_rules'') ''worker_skill_rules policy is required'') (\<lambda>workers.
         and_then (parse_process_policy execution) (\<lambda>process.
         and_then (parse_tool_rules tools) (\<lambda>tool_rules.
         and_then (parse_tool_rules capabilities) (\<lambda>capability_rules.
         and_then (parse_worker_skill_rules workers) (\<lambda>worker_rules.
           new_permission_policy paths process tool_rules (Some capability_rules) (Some worker_rules))))))))))"

text \<open>\<open>from_yaml\<close> after the file was read; None is a value that could not be read.\<close>

definition policy_from_value :: "json option \<Rightarrow> py_error + permission_policy" where
  "policy_from_value loaded =
    (case loaded of
       None \<Rightarrow> Inl (PermissionPolicyError ''cannot load permission policy'')
     | Some (JObj raw) \<Rightarrow> policy_from_object raw
     | Some _ \<Rightarrow> Inl (PermissionPolicyError ''permission policy must be an object''))"

definition evaluate_tool :: "permission_policy \<Rightarrow> string \<Rightarrow> py_error + tool_rule" where
  "evaluate_tool p tool_name =
    (case map_of (pp_tool_rules p) tool_name of
       None \<Rightarrow> Inl (PermissionPolicyError (''tool is not covered by policy: '' @ tool_name))
     | Some r \<Rightarrow> Inr r)"

definition evaluate_capability :: "permission_policy \<Rightarrow> string \<Rightarrow> py_error + tool_rule" where
  "evaluate_capability p capability_name =
    (case map_of (pp_capability_rules p) capability_name of
       None \<Rightarrow> Inl (PermissionPolicyError (''iPhone capability is not covered by policy: '' @ capability_name))
     | Some r \<Rightarrow> Inr r)"

definition evaluate_worker_skill :: "permission_policy \<Rightarrow> string \<Rightarrow> py_error + worker_rule" where
  "evaluate_worker_skill p skill =
    (case map_of (pp_worker_skill_rules p) skill of
       None \<Rightarrow> Inl (PermissionPolicyError (''remote worker skill is not covered by policy: '' @ skill))
     | Some r \<Rightarrow> Inr r)"

text \<open>The result is whether the rules changed; an invalid file leaves the policy as it was.\<close>

definition same_rules :: "(string \<times> 'r) list \<Rightarrow> (string \<times> 'r) list \<Rightarrow> bool" where
  "same_rules a b \<longleftrightarrow> set (map fst a) = set (map fst b) \<and> list_all (\<lambda>k. map_of a k = map_of b k) (map fst a)"

definition reload_worker_skill_rules :: "json option \<Rightarrow> permission_policy \<Rightarrow> (py_error + bool) \<times> permission_policy" where
  "reload_worker_skill_rules loaded p =
    (case policy_from_value loaded of
       Inl e \<Rightarrow> (Inl e, p)
     | Inr candidate \<Rightarrow>
         (Inr (\<not> same_rules (pp_worker_skill_rules candidate) (pp_worker_skill_rules p)),
          p\<lparr>pp_worker_skill_rules := pp_worker_skill_rules candidate\<rparr>))"

definition validate_command :: "permission_policy \<Rightarrow> string list \<Rightarrow> py_error + unit" where
  "validate_command p argv =
    (case argv of
       [] \<Rightarrow> Inl (OtherException ''IndexError'')
     | command # _ \<Rightarrow>
         if command \<noteq> path_name command \<or> CHR ''/'' \<in> set command \<or> CHR 0x5C \<in> set command
         then Inl (PermissionPolicyError ''process executable must be an allowlisted name'')
         else if command \<notin> set (xp_allowed_commands (pp_process p))
         then Inl (PermissionPolicyError (''process executable is not allowed: '' @ command))
         else Inr ())"

section \<open>Loaded policies fail closed\<close>

lemma dict_set_cases:
  assumes "(m, q) \<in> set (dict_set k v d)"
  obtains "m = k" "q = v" | "(m, q) \<in> set d"
  using assms set_dict_set [of k v d] by blast

lemma for_each_dict:
  assumes "for_each (\<lambda>(k, v) parsed. and_then (f k v) (\<lambda>r. Inr (dict_set k r parsed))) raw acc = Inr out"
    and "\<And>k r. (k, r) \<in> set acc \<Longrightarrow> P k r" and "\<And>k v r. f k v = Inr r \<Longrightarrow> P k r"
    and "(k, r) \<in> set out"
  shows "P k r"
  using assms(1,2,4)
proof (induction raw arbitrary: acc)
  case (Cons kv raw)
  obtain k' v' where kv: "kv = (k', v')" by fastforce
  then obtain r' where r': "f k' v' = Inr r'"
    "for_each (\<lambda>(k, v) parsed. and_then (f k v) (\<lambda>r. Inr (dict_set k r parsed))) raw (dict_set k' r' acc) = Inr out"
    using Cons.prems(1) by auto
  have "P j q" if "(j, q) \<in> set (dict_set k' r' acc)" for j q
    using that by (rule dict_set_cases) (use Cons.prems(2) assms(3) [OF r'(1)] in blast)+
  from Cons.IH [OF r'(2) this Cons.prems(3)] show ?case .
qed simp

text \<open>What a parsed rule guarantees.\<close>

definition tool_rule_ok :: "tool_rule \<Rightarrow> bool" where
  "tool_rule_ok r \<longleftrightarrow> tr_decision r \<in> set tool_decisions \<and> tr_risk r \<in> set tool_risks \<and>
    (tr_decision r = ''ask'' \<longleftrightarrow> (\<exists>ttl. tr_approval_ttl_seconds r = Some ttl)) \<and>
    (\<forall>ttl. tr_approval_ttl_seconds r = Some ttl \<longrightarrow> 30 \<le> ttl \<and> ttl \<le> 900)"

definition worker_rule_ok :: "string \<Rightarrow> worker_rule \<Rightarrow> bool" where
  "worker_rule_ok skill r \<longleftrightarrow> wr_decision r \<in> set worker_decisions \<and> wr_risk r = ''low'' \<and>
    (wr_auto_redistribute r \<longrightarrow> skill \<in> set workspace_skills)"

lemma parse_tool_rule_ok: "parse_tool_rule n v = Inr r \<Longrightarrow> tool_rule_ok r"
  by (auto simp: parse_tool_rule_def tool_rule_ok_def Let_def
      split: json.split_asm option.split_asm if_split_asm)

lemma parse_worker_rule_ok: "parse_worker_skill_rule n v = Inr r \<Longrightarrow> worker_rule_ok n r"
  by (auto simp: parse_worker_skill_rule_def worker_rule_ok_def
      split: json.split_asm option.split_asm if_split_asm)

lemma minus_Nil: "minus xs ys = [] \<longleftrightarrow> set xs \<subseteq> set ys"
  by (auto simp: minus_def filter_empty_conv)

lemma set_minus: "set (minus xs ys) = set xs - set ys"
  by (auto simp: minus_def)

lemma complete_tool_rules_ok:
  assumes "\<And>n r. (n, r) \<in> set rules \<Longrightarrow> tool_rule_ok r" and "(n, r) \<in> set (complete_tool_rules rules)"
  shows "tool_rule_ok r"
proof (cases "''workspace.write_project'' \<in> set (map fst rules)")
  case True
  then have "complete_tool_rules rules = rules" by (simp only: complete_tool_rules_def if_True)
  with assms show ?thesis by simp
next
  case False
  have d: "tool_rule_ok (deny_tool i x ''medium'')" for i x
    by (simp add: tool_rule_ok_def deny_tool_def tool_decisions_def tool_risks_def)
  from False assms(2) show ?thesis
    by (simp only: complete_tool_rules_def if_False) (erule dict_set_cases, simp only: d, rule assms(1))
qed

lemma capability_rules_ok:
  assumes "\<And>n r. (n, r) \<in> set rules \<Longrightarrow> tool_rule_ok r"
    and "(n, r) \<in> set (effective_capability_rules (Some rules))"
  shows "tool_rule_ok r"
proof (cases "rules = []")
  case True
  have "tool_rule_ok (deny_tool i x ''high'')" for i x
    by (simp add: tool_rule_ok_def deny_tool_def tool_decisions_def tool_risks_def)
  with True assms(2) show ?thesis by (auto simp: effective_capability_rules_def)
qed (use assms in \<open>simp add: effective_capability_rules_def\<close>)

lemma deny_worker_ok: "worker_rule_ok n (deny_worker i d)"
  by (simp add: worker_rule_ok_def deny_worker_def worker_decisions_def)

lemma fold_deny_ok:
  assumes "\<And>n r. (n, r) \<in> set rules \<Longrightarrow> worker_rule_ok n r"
    and "(n, r) \<in> set (fold (\<lambda>skill r. dict_set skill (deny_worker (deny skill) d) r) skills rules)"
  shows "worker_rule_ok n r"
  using assms
proof (induction skills arbitrary: rules)
  case (Cons s skills)
  have "worker_rule_ok m q" if "(m, q) \<in> set (dict_set s (deny_worker (deny s) d) rules)" for m q
    using that by (rule dict_set_cases) (simp_all add: deny_worker_ok Cons.prems(1))
  with Cons.IH [of "dict_set s (deny_worker (deny s) d) rules"] Cons.prems(2) show ?case by simp
qed simp

lemma worker_rules_ok:
  assumes "\<And>n r. (n, r) \<in> set rules \<Longrightarrow> worker_rule_ok n r"
    and "(n, r) \<in> set (effective_worker_rules (Some rules))"
  shows "worker_rule_ok n r"
proof -
  define r0 where "r0 = (if rules = []
    then map (\<lambda>n. (n, deny_worker (deny n) ''Remote worker skill was not explicitly configured.'')) supported_agent_skills
    else rules)"
  define r1 where "r1 = (if ''code.build_project'' \<in> set (map fst r0) then r0
    else dict_set ''code.build_project''
      (deny_worker ''deny-unconfigured-project-worker'' ''Isolated project coding has not been configured.'') r0)"
  have ok0: "worker_rule_ok m q" if "(m, q) \<in> set r0" for m q
    using that assms(1) by (auto simp: r0_def deny_worker_ok split: if_split_asm)
  have ok1: "worker_rule_ok m q" if "(m, q) \<in> set r1" for m q
  proof (cases "''code.build_project'' \<in> set (map fst r0)")
    case False
    with that show ?thesis
      by (simp add: r1_def) (erule dict_set_cases, simp_all add: deny_worker_ok ok0)
  qed (use that ok0 in \<open>simp add: r1_def\<close>)
  have "effective_worker_rules (Some rules) = fold (\<lambda>skill r. dict_set skill
      (deny_worker (deny skill) ''The approved Mac compiler route has not been enabled.'') r)
    (minus swift_skills (map fst r1)) r1"
    by (simp add: effective_worker_rules_def Let_def r0_def r1_def)
  with assms(2) show ?thesis by (auto intro: fold_deny_ok [OF ok1])
qed

lemma map_of_mem: "map_of kvs k = Some v \<Longrightarrow> (k, v) \<in> set kvs"
  by (rule map_of_SomeD)

lemma map_of_key: "k \<in> set (map fst kvs) \<Longrightarrow> \<exists>v. map_of kvs k = Some v"
  by (metis map_of_eq_None_iff not_None_eq set_map)

lemma policy_from_value_Inr:
  assumes "policy_from_value loaded = Inr p"
  obtains paths process tools capabilities workers raw_t raw_c raw_w raw_x where
    "parse_tool_rules raw_t = Inr tools" "parse_tool_rules raw_c = Inr capabilities"
    "parse_worker_skill_rules raw_w = Inr workers" "parse_process_policy raw_x = Inr process"
    "new_permission_policy paths process tools (Some capabilities) (Some workers) = Inr p"
proof -
  obtain raw where "policy_from_object raw = Inr p"
    using assms by (auto simp: policy_from_value_def split: option.split_asm json.split_asm)
  then show ?thesis
    unfolding policy_from_object_def by (elim and_then_InrE) (rule that)
qed

lemma parsed_tool_rules_ok: "parse_tool_rules raw = Inr out \<Longrightarrow> (n, r) \<in> set out \<Longrightarrow> tool_rule_ok r"
  unfolding parse_tool_rules_def
  by (rule for_each_dict [of parse_tool_rule _ _ _ "\<lambda>n. tool_rule_ok"]) (auto dest: parse_tool_rule_ok)

lemma parsed_worker_rules_ok: "parse_worker_skill_rules raw = Inr out \<Longrightarrow> (n, r) \<in> set out \<Longrightarrow> worker_rule_ok n r"
  unfolding parse_worker_skill_rules_def
  by (rule for_each_dict [of parse_worker_skill_rule _ _ _ worker_rule_ok]) (auto dest: parse_worker_rule_ok)

text \<open>What the sandbox of a loaded policy is held to.\<close>

definition process_policy_ok :: "process_policy \<Rightarrow> bool" where
  "process_policy_ok x \<longleftrightarrow> xp_network x = ''deny'' \<and> xp_backend x = ''bubblewrap'' \<and>
    path_absolute (xp_binary x) \<and> path_absolute (xp_limiter_binary x) \<and> path_name (xp_limiter_binary x) = ''prlimit'' \<and>
    xp_allowed_commands x \<noteq> [] \<and> (\<forall>c \<in> set (xp_allowed_commands x). c \<noteq> [] \<and> CHR ''/'' \<notin> set c) \<and>
    1 \<le> xp_max_timeout_seconds x \<and> xp_max_timeout_seconds x \<le> 300 \<and>
    1024 \<le> xp_max_output_bytes x \<and> xp_max_output_bytes x \<le> 1048576 \<and>
    xp_max_memory_bytes x \<le> 4294967296 \<and> xp_max_processes x \<le> 256 \<and>
    xp_max_file_bytes x \<le> 1073741824 \<and> xp_max_open_files x \<le> 1024"

lemma int_within_Inr: "int_within v lo hi m = Inr i \<Longrightarrow> lo \<le> i \<and> i \<le> hi"
  by (auto simp: int_within_def split: option.split_asm if_split_asm)

lemma command_name_text: "command_name_ok v \<Longrightarrow> \<exists>c. v = JStr c \<and> c \<noteq> [] \<and> CHR ''/'' \<notin> set c"
  by (cases v) (simp_all add: command_name_ok_def)

lemma parse_commands_Inr:
  assumes "parse_commands v = Inr cs"
  shows "cs \<noteq> [] \<and> (\<forall>c \<in> set cs. c \<noteq> [] \<and> CHR ''/'' \<notin> set c)"
proof -
  obtain xs where xs: "xs \<noteq> []" "list_all command_name_ok xs" "cs = remdups (map (py_str (\<lambda>v. [])) xs)"
    using assms by (auto simp: parse_commands_def split: option.split_asm json.split_asm if_split_asm)
  have "py_str (\<lambda>v. []) x \<noteq> [] \<and> CHR ''/'' \<notin> set (py_str (\<lambda>v. []) x)" if "x \<in> set xs" for x
    using command_name_text [of x] xs(2) that by (auto simp: list_all_iff)
  then show ?thesis unfolding xs(3) using xs(1) by auto
qed

lemma text_within_Inr: "text_within v ok m = Inr x \<Longrightarrow> ok x"
  by (simp add: text_within_def split: option.split_asm json.split_asm if_split_asm)

lemma parse_process_policy_ok:
  assumes "parse_process_policy raw = Inr x"
  shows "process_policy_ok x"
proof -
  obtain binary limiter commands timeout output_bytes memory_bytes processes file_bytes open_files m1 m2 m3 m4 m5 m6 m7 m8 where
    b: "text_within (map_of raw ''binary'') path_absolute m1 = Inr binary" and
    l: "text_within (map_of raw ''limiter_binary'') (\<lambda>b. path_absolute b \<and> path_name b = ''prlimit'') m2 = Inr limiter" and
    c: "parse_commands (map_of raw ''allowed_commands'') = Inr commands" and
    n: "int_within (map_of raw ''max_timeout_seconds'') 1 300 m3 = Inr timeout"
       "int_within (map_of raw ''max_output_bytes'') 1024 1048576 m4 = Inr output_bytes"
       "int_within (map_of raw ''max_memory_bytes'') 67108864 4294967296 m5 = Inr memory_bytes"
       "int_within (map_of raw ''max_processes'') 1 256 m6 = Inr processes"
       "int_within (map_of raw ''max_file_bytes'') 1048576 1073741824 m7 = Inr file_bytes"
       "int_within (map_of raw ''max_open_files'') 32 1024 m8 = Inr open_files" and
    x: "x = \<lparr>xp_backend = ''bubblewrap'', xp_binary = binary, xp_limiter_binary = limiter, xp_network = ''deny'',
        xp_allowed_commands = commands, xp_max_timeout_seconds = timeout, xp_max_output_bytes = output_bytes,
        xp_max_memory_bytes = memory_bytes, xp_max_processes = processes, xp_max_file_bytes = file_bytes,
        xp_max_open_files = open_files\<rparr>"
    using assms [unfolded parse_process_policy_def] by - (elim and_then_InrE, drule sum.inject(2) [THEN iffD1], rule that, assumption+, erule sym)
  show ?thesis
    unfolding process_policy_ok_def x process_policy.simps
    using text_within_Inr [OF b] text_within_Inr [OF l] parse_commands_Inr [OF c] n [THEN int_within_Inr] by simp
qed

text \<open>
  C18. A policy that loads fails closed. It rules on every supported tool and on no other, and
  every rule that asks first has an expiry within its bounds; it has no worker rule for an
  unsupported skill, and none lets a skill other than reading the workspace be redistributed
  after a lost lease; and the sandbox it configures has no network and bounded resources.
\<close>

theorem loaded_policy_fails_closed:
  assumes "policy_from_value loaded = Inr p"
  shows "(\<forall>n. (\<exists>r. evaluate_tool p n = Inr r) \<longleftrightarrow> n \<in> set supported_tools) \<and>
    (\<forall>n r. evaluate_tool p n = Inr r \<or> evaluate_capability p n = Inr r \<longrightarrow> tool_rule_ok r) \<and>
    (\<forall>n r. evaluate_worker_skill p n = Inr r \<longrightarrow> n \<in> set supported_agent_skills \<and> worker_rule_ok n r) \<and>
    process_policy_ok (pp_process p)"
proof -
  obtain paths process tools capabilities workers raw_t raw_c raw_w raw_x where
    t: "parse_tool_rules raw_t = Inr tools" and c: "parse_tool_rules raw_c = Inr capabilities" and
    w: "parse_worker_skill_rules raw_w = Inr workers" and x: "parse_process_policy raw_x = Inr process" and
    n: "new_permission_policy paths process tools (Some capabilities) (Some workers) = Inr p"
    by (rule policy_from_value_Inr [OF assms])
  have p: "pp_tool_rules p = complete_tool_rules tools"
    "pp_capability_rules p = effective_capability_rules (Some capabilities)"
    "pp_worker_skill_rules p = effective_worker_rules (Some workers)" "pp_process p = process"
    "set (map fst (complete_tool_rules tools)) = set supported_tools"
    "set (map fst (effective_worker_rules (Some workers))) \<subseteq> set supported_agent_skills"
    using n by (auto simp: new_permission_policy_def Let_def minus_Nil simp del: set_map split: if_split_asm)
  have tool: "tool_rule_ok r" if "map_of (pp_tool_rules p) n = Some r" for n r
    using parsed_tool_rules_ok [OF t] map_of_mem [OF that] p(1)
    by (intro complete_tool_rules_ok [of tools n r]) simp_all
  have capability: "tool_rule_ok r" if "map_of (pp_capability_rules p) n = Some r" for n r
    using parsed_tool_rules_ok [OF c] map_of_mem [OF that] p(2)
    by (intro capability_rules_ok [of capabilities n r]) simp_all
  have worker: "n \<in> set supported_agent_skills \<and> worker_rule_ok n r"
    if "map_of (pp_worker_skill_rules p) n = Some r" for n r
  proof
    have mem: "(n, r) \<in> set (effective_worker_rules (Some workers))" using map_of_mem [OF that] p(3) by simp
    then have "fst (n, r) \<in> fst ` set (effective_worker_rules (Some workers))" by (rule imageI)
    then show "n \<in> set supported_agent_skills" using p(6) by auto
    show "worker_rule_ok n r"
      by (rule worker_rules_ok [OF _ mem]) (rule parsed_worker_rules_ok [OF w])
  qed
  have keys: "(\<exists>r. map_of (pp_tool_rules p) n = Some r) \<longleftrightarrow> n \<in> set supported_tools" for n
  proof
    assume "\<exists>r. map_of (pp_tool_rules p) n = Some r"
    then obtain r where "(n, r) \<in> set (complete_tool_rules tools)" using map_of_mem p(1) by metis
    then show "n \<in> set supported_tools" using p(5) by (metis fst_conv image_eqI set_map)
  next
    assume "n \<in> set supported_tools"
    then show "\<exists>r. map_of (pp_tool_rules p) n = Some r" using map_of_key p(1,5) by metis
  qed
  have rules: "(\<exists>r. evaluate_tool p n = Inr r) \<longleftrightarrow> (\<exists>r. map_of (pp_tool_rules p) n = Some r)" for n
    by (simp add: evaluate_tool_def split: option.split)
  have asked: "tool_rule_ok r" if "evaluate_tool p n = Inr r \<or> evaluate_capability p n = Inr r" for n r
    using that tool [of n r] capability [of n r]
    by (auto simp: evaluate_tool_def evaluate_capability_def split: option.split_asm)
  have placed: "n \<in> set supported_agent_skills \<and> worker_rule_ok n r" if "evaluate_worker_skill p n = Inr r" for n r
    using that worker [of n r] by (simp add: evaluate_worker_skill_def split: option.split_asm)
  have sandbox: "process_policy_ok (pp_process p)" using parse_process_policy_ok [OF x] p(4) by simp
  show ?thesis
  proof (intro conjI allI impI)
    show "(\<exists>r. evaluate_tool p n = Inr r) = (n \<in> set supported_tools)" for n by (simp only: rules keys)
  qed (use asked placed sandbox in \<open>simp_all only: conj_imp_eq_imp_imp\<close>)
qed

definition demo_execution :: json where
  "demo_execution = JObj [(''backend'', JStr ''bubblewrap''), (''binary'', JStr ''/usr/bin/bwrap''),
    (''limiter_binary'', JStr ''/usr/bin/prlimit''), (''network'', JStr ''deny''),
    (''allowed_commands'', JArr [JStr ''python3'', JStr ''git'']), (''max_timeout_seconds'', JInt 30),
    (''max_output_bytes'', JInt 65536), (''max_memory_bytes'', JInt 536870912), (''max_processes'', JInt 32),
    (''max_file_bytes'', JInt 16777216), (''max_open_files'', JInt 128)]"

definition demo_rule :: "string \<Rightarrow> string \<Rightarrow> (string \<times> json) list \<Rightarrow> json" where
  "demo_rule i decision extra = JObj ([(''id'', JStr i), (''description'', JStr ''workspace rule''),
    (''decision'', JStr decision), (''risk'', JStr ''low'')] @ extra)"

definition demo_policy_value :: json where
  "demo_policy_value = JObj [(''protected_paths'', JArr [JStr ''.env'']), (''execution'', demo_execution),
    (''tool_rules'', JObj [
      (''workspace.list_dir'', demo_rule ''list'' ''allow'' []),
      (''workspace.read_text'', demo_rule ''list'' ''allow'' []),
      (''workspace.write_text'', demo_rule ''run'' ''ask'' [(''approval_ttl_seconds'', JInt 60)]),
      (''process.run'', demo_rule ''run'' ''ask'' [(''approval_ttl_seconds'', JInt 60)])]),
    (''capability_rules'', JObj []), (''worker_skill_rules'', JObj [])]"

lemma demo_description: "py_strip ''workspace rule'' = ''workspace rule''"
  by code_simp

lemma demo_rule_parses:
  "parse_tool_rule n (demo_rule ''list'' ''allow'' []) =
    Inr \<lparr>tr_id = ''list'', tr_description = ''workspace rule'', tr_decision = ''allow'', tr_risk = ''low'',
      tr_approval_ttl_seconds = None\<rparr>"
  "parse_tool_rule n (demo_rule ''run'' ''ask'' [(''approval_ttl_seconds'', JInt 60)]) =
    Inr \<lparr>tr_id = ''run'', tr_description = ''workspace rule'', tr_decision = ''ask'', tr_risk = ''low'',
      tr_approval_ttl_seconds = Some 60\<rparr>"
  by (simp_all add: parse_tool_rule_def demo_rule_def demo_description tool_decisions_def tool_risks_def)

lemma demo_execution_parses:
  "\<exists>kvs x. demo_execution = JObj kvs \<and> parse_process_policy kvs = Inr x"
proof -
  have "case_sum (\<lambda>e. False) (\<lambda>x. True) (case demo_execution of JObj kvs \<Rightarrow> parse_process_policy kvs | _ \<Rightarrow> Inl (TypeError []))"
    by code_simp
  then show ?thesis by (auto split: json.split_asm sum.split_asm)
qed

lemma demo_rules_complete:
  "minus (map fst (effective_worker_rules (Some []))) supported_agent_skills = []"
  "minus (minus (minus supported_agent_skills (map fst (effective_worker_rules (Some [])))) specialist_skills) media_skills = []"
  "minus (map fst (effective_capability_rules (Some []))) supported_iphone_capabilities = []"
  "minus (minus supported_iphone_capabilities (map fst (effective_capability_rules (Some [])))) optional_agenda_capabilities = []"
  by code_simp+

lemma demo_tools_complete:
  "minus supported_tools (map fst (complete_tool_rules [(''workspace.list_dir'', a), (''workspace.read_text'', b),
    (''workspace.write_text'', c), (''process.run'', d)])) = []"
  "minus (map fst (complete_tool_rules [(''workspace.list_dir'', a), (''workspace.read_text'', b),
    (''workspace.write_text'', c), (''process.run'', d)])) supported_tools = []"
  by (simp_all add: complete_tool_rules_def minus_def supported_tools_def)

lemma demo_policy_loads: "\<exists>p. policy_from_value (Some demo_policy_value) = Inr p"
proof -
  obtain kvs x where x: "demo_execution = JObj kvs" "parse_process_policy kvs = Inr x"
    using demo_execution_parses by blast
  show ?thesis
    by (simp add: policy_from_value_def policy_from_object_def required_object_def demo_policy_value_def x
        parse_tool_rules_def parse_worker_skill_rules_def demo_rule_parses new_permission_policy_def Let_def
        demo_rules_complete demo_tools_complete)
qed

theorem loaded_policy_fails_closed_witness:
  "\<exists>p. policy_from_value (Some demo_policy_value) = Inr p \<and> process_policy_ok (pp_process p)"
proof -
  obtain p where p: "policy_from_value (Some demo_policy_value) = Inr p" using demo_policy_loads by blast
  then show ?thesis using loaded_policy_fails_closed [OF p] by blast
qed

end
