(* ===== verification/Process_Sandbox.thy ===== *)
theory Process_Sandbox
  imports Permission_Policy
begin

text \<open>
  \<open>PermissionPolicy.is_protected\<close> with the globs of Python's \<open>fnmatch\<close> and \<open>PurePosixPath.match\<close>,
  and \<open>server/app/services/process_sandbox.py\<close>: which commands run, the Bubblewrap command line
  built for them, the mounts that hide protected files, and the bounded reading of their output.
  The file system is a parameter. Starting, timing out and reaping the process are asyncio and
  operating system calls and are not modelled.
\<close>

section \<open>Paths\<close>

definition path_parts :: "string \<Rightarrow> string list" where
  "path_parts s = filter (\<lambda>p. p \<noteq> [] \<and> p \<noteq> ''.'') (split_slash s)"

text \<open>Exactly two leading slashes are kept.\<close>

definition path_root :: "string \<Rightarrow> string" where
  "path_root s =
    (if starts_with ''///'' s then ''/'' else if starts_with ''//'' s then ''//''
     else if starts_with ''/'' s then ''/'' else [])"

definition path_text :: "string \<Rightarrow> string list \<Rightarrow> string" where
  "path_text root parts = (let t = root @ join ''/'' parts in if t = [] then ''.'' else t)"

definition as_posix :: "string \<Rightarrow> string" where
  "as_posix s = path_text (path_root s) (path_parts s)"

definition removeprefix :: "string \<Rightarrow> string \<Rightarrow> string" where
  "removeprefix p s = (case strip_prefix p s of None \<Rightarrow> s | Some r \<Rightarrow> r)"

definition unbackslash :: "string \<Rightarrow> string" where
  "unbackslash s = map (\<lambda>c. if c = CHR 0x5C then CHR ''/'' else c) s"

text \<open>\<open>Path(root) / name\<close> for a name without a slash; \<open>.\<close> is the empty path.\<close>

definition path_child :: "string \<Rightarrow> string \<Rightarrow> string" where
  "path_child root name = (if root = ''.'' then name else root @ ''/'' @ name)"

section \<open>Globs\<close>

text \<open>Code points: 42 star, 63 question mark, 91 and 93 brackets, 33 exclamation mark, 45 dash.\<close>

datatype glob_item = Any_Run | Any_One | One_Of bool "(nat \<times> nat) list" | Literal nat

fun class_items :: "nat list \<Rightarrow> (nat \<times> nat) list" where
  "class_items [] = []"
| "class_items [a] = [(a, a)]"
| "class_items [a, b] = [(a, a), (b, b)]"
| "class_items (a # b # c # r) =
    (if b = 45 then (a, c) # class_items r else (a, a) # class_items (b # c # r))"

text \<open>The body of a class, whose first bracket is literal, and what follows the closing one.\<close>

definition class_body :: "nat list \<Rightarrow> (nat list \<times> nat list) option" where
  "class_body q =
    (let opening = (case q of [] \<Rightarrow> [] | c # r \<Rightarrow> if c = 93 then [c] else []);
         inner = drop (length opening) q;
         rest = dropWhile (\<lambda>c. c \<noteq> 93) inner
     in if rest = [] then None else Some (opening @ takeWhile (\<lambda>c. c \<noteq> 93) inner, tl rest))"

text \<open>What follows an opening bracket: negated, the ranges, what comes after; None without a closing one.\<close>

definition take_class :: "nat list \<Rightarrow> (bool \<times> (nat \<times> nat) list \<times> nat list) option" where
  "take_class p =
    (let negated = (case p of [] \<Rightarrow> False | c # r \<Rightarrow> c = 33)
     in (case class_body (if negated then tl p else p) of
           None \<Rightarrow> None
         | Some (body, rest) \<Rightarrow> Some (negated, class_items body, rest)))"

lemma class_body_shorter: "class_body q = Some (b, r) \<Longrightarrow> length r < length q"
proof -
  assume a: "class_body q = Some (b, r)"
  obtain inner where i: "length inner \<le> length q" "dropWhile (\<lambda>c. c \<noteq> 93) inner \<noteq> []"
      "r = tl (dropWhile (\<lambda>c. c \<noteq> 93) inner)"
    by (rule that [of "drop (length (case q of [] \<Rightarrow> [] | c # r \<Rightarrow> if c = 93 then [c] else [])) q"])
      (use a in \<open>simp_all add: class_body_def Let_def del: dropWhile_eq_Nil_conv split: if_split_asm\<close>)
  then show ?thesis
    using length_dropWhile_le [of "\<lambda>c. c \<noteq> 93" inner] by (cases "dropWhile (\<lambda>c. c \<noteq> 93) inner") auto
qed

lemma take_class_shorter: "take_class p = Some (n, i, r) \<Longrightarrow> length r < length p"
  by (cases p) (auto simp: take_class_def Let_def dest!: class_body_shorter split: option.split_asm if_split_asm)

function compile_glob :: "nat list \<Rightarrow> glob_item list" where
  "compile_glob [] = []"
| "compile_glob (c # p) =
    (if c = 42 then Any_Run # compile_glob p
     else if c = 63 then Any_One # compile_glob p
     else if c = 91 then
       (case take_class p of
          None \<Rightarrow> Literal c # compile_glob p
        | Some (negated, items, rest) \<Rightarrow> One_Of negated items # compile_glob rest)
     else Literal c # compile_glob p)"
  by pat_completeness auto

termination compile_glob
  by (relation "measure length") (auto dest: take_class_shorter intro: less_SucI)

fun item_matches :: "glob_item \<Rightarrow> nat \<Rightarrow> bool" where
  "item_matches Any_Run c = True"
| "item_matches Any_One c = True"
| "item_matches (One_Of negated items) c = (negated \<noteq> list_ex (\<lambda>(lo, hi). lo \<le> c \<and> c \<le> hi) items)"
| "item_matches (Literal x) c = (x = c)"

fun glob_match :: "glob_item list \<Rightarrow> nat list \<Rightarrow> bool" where
  "glob_match [] s = (s = [])"
| "glob_match (i # g) [] = (i = Any_Run \<and> glob_match g [])"
| "glob_match (i # g) (c # s) =
    (if i = Any_Run then glob_match g (c # s) \<or> glob_match (i # g) s
     else item_matches i c \<and> glob_match g s)"

definition fnmatchcase :: "string \<Rightarrow> string \<Rightarrow> bool" where
  "fnmatchcase value pattern = glob_match (compile_glob (code_points pattern)) (code_points value)"

text \<open>
  \<open>PurePosixPath(value).match(pattern)\<close>: component by component, from the right for a relative
  pattern.
\<close>

definition path_lines :: "string \<Rightarrow> string list" where
  "path_lines s = replicate (length (path_root s)) [] @ path_parts s"

definition path_match :: "string \<Rightarrow> string \<Rightarrow> py_error + bool" where
  "path_match value pattern =
    (let v = path_lines value; p = path_lines pattern
     in if path_root pattern \<noteq> [] then Inr (list_all2 fnmatchcase v p)
        else if p = [] then Inl (ValueError ''empty pattern'')
        else Inr (length p \<le> length v \<and> list_all2 fnmatchcase (drop (length v - length p) v) p))"

section \<open>Protected paths\<close>

fun any_match :: "string \<Rightarrow> string list \<Rightarrow> py_error + bool" where
  "any_match value [] = Inr False"
| "any_match value (c # cs) =
    (if fnmatchcase value c then Inr True
     else and_then (path_match value c) (\<lambda>b. if b then Inr True else any_match value cs))"

definition pattern_candidates :: "string \<Rightarrow> string list" where
  "pattern_candidates pattern =
    (let normalized = unbackslash pattern in [normalized, removeprefix ''**/'' normalized])"

definition is_protected :: "permission_policy \<Rightarrow> string \<Rightarrow> py_error + bool" where
  "is_protected p relative_path =
    (let value = removeprefix ''./'' (as_posix (unbackslash relative_path))
     in if value = [] then Inr False
        else any_match value (concat (map pattern_candidates (pp_protected_paths p))))"

section \<open>Which commands run\<close>

record host =
  ho_executable :: "string \<Rightarrow> bool"
  ho_is_dir :: "string \<Rightarrow> bool"
  ho_exists :: "string \<Rightarrow> bool"
  ho_readlink :: "string \<Rightarrow> string option"
  ho_resolve :: "string \<Rightarrow> string"

definition safe_git_status_options :: "string list" where
  "safe_git_status_options = [''--short'', ''--porcelain'', ''--porcelain=v1'', ''--porcelain=v2'', ''--branch'',
    ''--show-stash'', ''--no-renames'', ''--untracked-files=no'', ''--untracked-files=normal'',
    ''--untracked-files=all'']"

definition safe_git_rev_parse_queries :: "string list" where
  "safe_git_rev_parse_queries = [''--is-inside-work-tree'', ''--show-prefix'', ''--show-toplevel'', ''--verify'']"

definition safe_git_ls_files_options :: "string list" where
  "safe_git_ls_files_options = [''--cached'', ''--deleted'', ''--exclude-standard'', ''--modified'', ''--others'',
    ''--stage'']"

definition is_inline_evaluation_argument :: "string \<Rightarrow> string \<Rightarrow> bool" where
  "is_inline_evaluation_argument command value \<longleftrightarrow>
    value \<in> set [''-c'', ''-e'', ''--eval'', ''--print''] \<or>
    list_ex (\<lambda>p. starts_with p value) [''-c'', ''-e'', ''--eval=''] \<and> value \<notin> set [''-'', ''--''] \<or>
    command = ''node'' \<and> list_ex (\<lambda>p. starts_with p value) [''-p'', ''--print='']"

definition validate_git :: "string list \<Rightarrow> py_error + unit" where
  "validate_git argv =
    (case argv of
       command # subcommand # arguments \<Rightarrow>
         if subcommand = ''status''
         then require (\<forall>v \<in> set arguments. v \<in> set safe_git_status_options)
           (ProcessSandboxError ''git status options are not allowlisted'')
         else if subcommand = ''rev-parse''
         then (case arguments of
             [] \<Rightarrow> Inl (ProcessSandboxError ''git rev-parse query is not allowlisted'')
           | query # more_arguments \<Rightarrow>
               if query \<notin> set safe_git_rev_parse_queries
               then Inl (ProcessSandboxError ''git rev-parse query is not allowlisted'')
               else if query = ''--verify''
               then require (more_arguments = [''HEAD''] \<or> more_arguments = [''HEAD^{commit}''])
                 (ProcessSandboxError ''git rev-parse revision is not allowlisted'')
               else require (more_arguments = [])
                 (ProcessSandboxError ''git rev-parse accepts one allowlisted query''))
         else if subcommand = ''ls-files''
         then require (\<forall>v \<in> set arguments. v \<in> set safe_git_ls_files_options)
           (ProcessSandboxError ''git ls-files options are not allowlisted'')
         else Inl (ProcessSandboxError ''git subcommand is not allowlisted for sandbox execution'')
     | _ \<Rightarrow> Inl (ProcessSandboxError ''git requires an allowlisted read-only subcommand''))"

definition validate_npm :: "string list \<Rightarrow> py_error + unit" where
  "validate_npm argv =
    (case argv of
       c # s # r \<Rightarrow>
         if s \<notin> {''test'', ''run''} then Inl (ProcessSandboxError ''npm is limited to test and run scripts'')
         else if s = ''run'' \<and> (case r of [] \<Rightarrow> True | x # _ \<Rightarrow> x \<notin> {''check'', ''lint'', ''test'', ''typecheck''})
         then Inl (ProcessSandboxError ''npm run script is not allowlisted'') else Inr ()
     | _ \<Rightarrow> Inl (ProcessSandboxError ''npm is limited to test and run scripts''))"

definition validate_npx :: "string list \<Rightarrow> py_error + unit" where
  "validate_npx argv =
    (case argv of
       c # s # x # r \<Rightarrow> require (s = ''--no-install'' \<and> x \<in> {''expo-doctor'', ''tsc''})
         (ProcessSandboxError ''npx requires --no-install and an allowlisted command'')
     | _ \<Rightarrow> Inl (ProcessSandboxError ''npx requires --no-install and an allowlisted command''))"

definition policy_message :: "py_error \<Rightarrow> py_error" where
  "policy_message e = (case e of PermissionPolicyError m \<Rightarrow> ProcessSandboxError m | _ \<Rightarrow> e)"

definition validate_argv :: "host \<Rightarrow> permission_policy \<Rightarrow> json list \<Rightarrow> py_error + string list" where
  "validate_argv h p values =
    (let argv = map (py_str (\<lambda>v. [])) values; command = hd argv
     in and_then (require (values \<noteq> [] \<and> length values \<le> 64 \<and> list_all (\<lambda>v. case v of JStr s \<Rightarrow> True | _ \<Rightarrow> False) values)
       (ProcessSandboxError ''argv must be a non-empty string array of at most 64 items'')) (\<lambda>_.
     and_then (require (\<forall>v \<in> set argv. v \<noteq> [] \<and> CHR 0x00 \<notin> set v \<and> length v \<le> 16384)
       (ProcessSandboxError ''process arguments contain an invalid or oversized value'')) (\<lambda>_.
     and_then (case validate_command p argv of Inl e \<Rightarrow> Inl (policy_message e) | Inr u \<Rightarrow> Inr u) (\<lambda>_.
     and_then (require (\<not> (command \<in> {''node'', ''python3''} \<and>
         list_ex (is_inline_evaluation_argument command) (tl argv)))
       (ProcessSandboxError ''inline interpreter evaluation is not allowed'')) (\<lambda>_.
     and_then (if command = ''git'' then validate_git argv else Inr ()) (\<lambda>_.
     and_then (if command = ''npm'' then validate_npm argv else Inr ()) (\<lambda>_.
     and_then (if command = ''npx'' then validate_npx argv else Inr ()) (\<lambda>_.
     and_then (require (ho_executable h (xp_binary (pp_process p)))
       (ProcessSandboxError (''required sandbox backend is unavailable: '' @ xp_binary (pp_process p)))) (\<lambda>_.
     and_then (require (ho_executable h (xp_limiter_binary (pp_process p)))
       (ProcessSandboxError (''required process limiter is unavailable: '' @ xp_limiter_binary (pp_process p)))) (\<lambda>_.
       Inr argv))))))))))"

section \<open>The mounts that hide protected files\<close>

record file_stat =
  st_symlink :: bool
  st_regular :: bool
  st_nlink :: nat

text \<open>
  One step of \<open>os.fwalk\<close>: a directory, the entries in it and what \<open>os.stat\<close> says of each, None
  for an \<open>OSError\<close>.
\<close>

record walk_step =
  ws_root :: string
  ws_directories :: "(string \<times> file_stat option) list"
  ws_files :: "(string \<times> file_stat option) list"

fun protected_candidates :: "permission_policy \<Rightarrow> string list \<Rightarrow> py_error + bool" where
  "protected_candidates p [] = Inr False"
| "protected_candidates p (c # cs) =
    (if c = ''.'' then protected_candidates p cs
     else and_then (is_protected p c) (\<lambda>b. if b then Inr True else protected_candidates p cs))"

text \<open>The path and its parents, the nearest first.\<close>

definition path_and_parents :: "string \<Rightarrow> string list" where
  "path_and_parents s =
    (let parts = path_parts s in map (\<lambda>n. path_text (path_root s) (take n parts)) (rev [0..<Suc (length parts)]))"

definition is_protected_or_nested :: "permission_policy \<Rightarrow> string \<Rightarrow> py_error + bool" where
  "is_protected_or_nested p relative = protected_candidates p (path_and_parents relative)"

definition unverified :: py_error where
  "unverified = ProcessSandboxError ''cannot verify protected workspace paths''"

definition mount_directory :: "permission_policy \<Rightarrow> string \<Rightarrow> string \<Rightarrow> bool \<Rightarrow> string \<times> file_stat option
    \<Rightarrow> string list \<times> nat \<Rightarrow> py_error + string list \<times> nat" where
  "mount_directory p workspace root root_is_protected entry acc =
    (case (entry, acc) of ((name, metadata), (mounts, count)) \<Rightarrow>
      let relative = path_child root name
      in (case metadata of
            None \<Rightarrow> Inl unverified
          | Some st \<Rightarrow>
              and_then (if root_is_protected then Inr False else is_protected p relative) (\<lambda>hide.
                if \<not> hide then Inr (mounts, count)
                else if st_symlink st
                then Inl (ProcessSandboxError ''protected workspace path is a symbolic link; process execution denied'')
                else Inr (mounts @ [''--tmpfs'', path_child workspace relative], Suc count))))"

definition mount_file :: "permission_policy \<Rightarrow> string \<Rightarrow> string \<Rightarrow> bool \<Rightarrow> string \<times> file_stat option
    \<Rightarrow> string list \<times> nat \<Rightarrow> py_error + string list \<times> nat" where
  "mount_file p workspace root root_is_protected entry acc =
    (case (entry, acc) of ((name, metadata), (mounts, count)) \<Rightarrow>
      let relative = path_child root name
      in and_then (is_protected_or_nested p relative) (\<lambda>hide.
           if \<not> hide then Inr (mounts, count)
           else (case metadata of
               None \<Rightarrow> Inl unverified
             | Some st \<Rightarrow>
                 if st_symlink st
                 then Inl (ProcessSandboxError ''protected workspace path is a symbolic link; process execution denied'')
                 else if st_regular st \<and> 1 < st_nlink st
                 then Inl (ProcessSandboxError ''protected file has hard-link aliases; process execution denied'')
                 else if root_is_protected then Inr (mounts, count)
                 else Inr (mounts @ [''--ro-bind'', ''/dev/null'', path_child workspace relative], Suc count))))"

definition mount_step :: "permission_policy \<Rightarrow> string \<Rightarrow> walk_step \<Rightarrow> string list \<times> nat
    \<Rightarrow> py_error + string list \<times> nat" where
  "mount_step p workspace step acc =
    and_then (is_protected_or_nested p (ws_root step)) (\<lambda>root_is_protected.
    and_then (for_each (mount_directory p workspace (ws_root step) root_is_protected) (ws_directories step) acc) (\<lambda>acc1.
    and_then (for_each (mount_file p workspace (ws_root step) root_is_protected) (ws_files step) acc1) (\<lambda>acc2.
      if 4096 < snd acc2 then Inl (ProcessSandboxError ''too many protected paths to construct a safe sandbox'')
      else Inr acc2)))"

text \<open>A step that is None is a directory, or the workspace itself, that cannot be opened.\<close>

definition protected_mounts :: "permission_policy \<Rightarrow> string \<Rightarrow> walk_step option list \<Rightarrow> py_error + string list" where
  "protected_mounts p workspace walk =
    and_then (for_each (\<lambda>step acc. case step of
        None \<Rightarrow> Inl unverified
      | Some st \<Rightarrow> mount_step p workspace st acc) walk ([], 0)) (\<lambda>(mounts, count). Inr mounts)"

section \<open>The sandboxed command line\<close>

definition system_binds :: "host \<Rightarrow> string list" where
  "system_binds h =
    concat (map (\<lambda>source. case ho_readlink h source of
        Some target \<Rightarrow> [''--symlink'', target, source]
      | None \<Rightarrow> if ho_exists h source then [''--ro-bind'', source, source] else [])
      [''/usr'', ''/bin'', ''/lib'', ''/lib64'']) @
    (if ho_is_dir h ''/etc/ssl/certs''
     then [''--dir'', ''/etc'', ''--dir'', ''/etc/ssl'', ''--ro-bind'', ''/etc/ssl/certs'', ''/etc/ssl/certs''] else [])"

text \<open>The parents of the workspace, the outermost first, without the root.\<close>

definition parent_dirs :: "string \<Rightarrow> string list" where
  "parent_dirs workspace =
    concat (map (\<lambda>parent. if parent = ''/'' then [] else [''--dir'', parent])
      (rev (tl (path_and_parents workspace))))"

definition sandbox_options :: "string list" where
  "sandbox_options = [''--die-with-parent'', ''--new-session'', ''--unshare-all'', ''--unshare-user'',
    ''--disable-userns'', ''--cap-drop'', ''ALL'', ''--clearenv'']"

definition setenv :: "(string \<times> string) list \<Rightarrow> string list" where
  "setenv vars = concat (map (\<lambda>(k, v). [''--setenv'', k, v]) vars)"

definition sandbox_environment :: "string \<Rightarrow> (string \<times> string) list" where
  "sandbox_environment workspace = [(''HOME'', ''/tmp''), (''TMPDIR'', ''/tmp''),
    (''PATH'', join '':'' [workspace @ ''/server/.venv/bin'', workspace @ ''/.venv/bin'', ''/usr/local/bin'',
      ''/usr/bin'', ''/bin'']),
    (''GIT_CONFIG_NOSYSTEM'', ''1''), (''GIT_CONFIG_GLOBAL'', ''/dev/null''), (''GIT_CONFIG_COUNT'', ''2''),
    (''GIT_CONFIG_KEY_0'', ''core.fsmonitor''), (''GIT_CONFIG_VALUE_0'', ''false''),
    (''GIT_CONFIG_KEY_1'', ''core.hooksPath''), (''GIT_CONFIG_VALUE_1'', ''/dev/null'')]"

definition build_command :: "host \<Rightarrow> permission_policy \<Rightarrow> string \<Rightarrow> walk_step option list \<Rightarrow> json list \<Rightarrow> string
    \<Rightarrow> py_error + string list" where
  "build_command h p workspace walk values cwd0 =
    and_then (validate_argv h p values) (\<lambda>argv.
      let cwd = ho_resolve h cwd0; x = pp_process p; n = show_int (xp_max_processes x)
      in if cwd \<noteq> workspace \<and> workspace \<notin> set (tl (path_and_parents cwd))
         then Inl (ProcessSandboxError ''process cwd escapes configured workspace'')
         else if \<not> ho_is_dir h cwd
         then Inl (ProcessSandboxError ''process cwd is not a directory'')
         else and_then (protected_mounts p workspace walk) (\<lambda>mounts.
           Inr ([xp_binary x] @ sandbox_options @ system_binds h @
             [''--proc'', ''/proc'', ''--dev'', ''/dev'', ''--tmpfs'', ''/tmp'', ''--tmpfs'', ''/run''] @
             parent_dirs workspace @ [''--bind'', workspace, workspace] @ mounts @
             [''--chdir'', cwd] @ setenv (sandbox_environment workspace) @
             [''--'', xp_limiter_binary x, ''--nproc='' @ n @ '':'' @ n, ''--''] @ argv)))"

section \<open>Bounds on what runs\<close>

text \<open>The chunks the stream yields, each of at most 8192 bytes and the empty one at its end left out.\<close>

fun read_chunks :: "int \<Rightarrow> string list \<Rightarrow> string \<Rightarrow> bool \<Rightarrow> string \<times> bool" where
  "read_chunks limit [] value truncated = (value, truncated)"
| "read_chunks limit (chunk # rest) value truncated =
    (let remaining = limit - int (length value);
         value' = (if 0 < remaining then value @ take (nat remaining) chunk else value)
     in read_chunks limit rest value' (truncated \<or> remaining < int (length chunk)))"

definition read_bounded :: "permission_policy \<Rightarrow> string list \<Rightarrow> string \<times> bool" where
  "read_bounded p chunks = read_chunks (xp_max_output_bytes (pp_process p)) chunks [] False"

text \<open>\<open>timeout\<close> is \<open>math.ceil(timeout_seconds)\<close>.\<close>

definition resource_limits :: "permission_policy \<Rightarrow> int \<Rightarrow> (string \<times> int) list" where
  "resource_limits p timeout = [(''RLIMIT_CPU'', max 1 (timeout + 1)),
    (''RLIMIT_AS'', xp_max_memory_bytes (pp_process p)), (''RLIMIT_FSIZE'', xp_max_file_bytes (pp_process p)),
    (''RLIMIT_NOFILE'', xp_max_open_files (pp_process p)), (''RLIMIT_CORE'', 0)]"

section \<open>Relative paths\<close>

text \<open>A name that \<open>os.fwalk\<close> lists.\<close>

definition entry_name :: "string \<Rightarrow> bool" where
  "entry_name s \<longleftrightarrow> s \<noteq> [] \<and> s \<noteq> ''.'' \<and> CHR ''/'' \<notin> set s"

lemma split_slash_plain: "CHR ''/'' \<notin> set s \<Longrightarrow> split_slash s = [s]"
  by (induction s) auto

lemma split_slash_append: "CHR ''/'' \<notin> set s \<Longrightarrow> split_slash (s @ CHR ''/'' # r) = s # split_slash r"
  by (induction s) auto

lemma split_slash_join:
  assumes "parts \<noteq> []" and "\<forall>s \<in> set parts. CHR ''/'' \<notin> set s"
  shows "split_slash (join ''/'' parts) = parts"
  using assms by (induction parts rule: induct_list012) (auto simp: split_slash_plain split_slash_append)

lemma relative_path:
  assumes "parts \<noteq> []" and c: "\<forall>s \<in> set parts. entry_name s"
  defines "t \<equiv> join ''/'' parts"
  shows "path_parts t = parts" "path_root t = []" "as_posix t = t" "removeprefix ''./'' t = t" "t \<noteq> []"
proof -
  have split: "split_slash t = parts"
    unfolding t_def by (rule split_slash_join) (use assms in \<open>auto simp: entry_name_def\<close>)
  have keep: "filter (\<lambda>p. p \<noteq> [] \<and> p \<noteq> ''.'') parts = parts"
    using c by (simp add: entry_name_def filter_id_conv)
  then show parts: "path_parts t = parts" by (simp add: path_parts_def split)
  show t: "t \<noteq> []"
  proof
    assume "t = []"
    then have "parts = [[]]" using split by simp
    then show False using c by (simp add: entry_name_def)
  qed
  have "hd t \<noteq> CHR ''/''"
  proof
    assume "hd t = CHR ''/''"
    then have "t = CHR ''/'' # tl t" using t by (cases t) simp_all
    then have "[] \<in> set parts" using split split_slash.simps(2) [of "CHR ''/''" "tl t"] by (metis list.set_intros(1))
    then show False using c by (auto simp: entry_name_def)
  qed
  then show root: "path_root t = []"
    using t by (cases t) (simp_all add: path_root_def starts_with_def)
  show "as_posix t = t" by (simp only: as_posix_def parts root path_text_def Let_def) (use t in \<open>simp add: t_def\<close>)
  show "removeprefix ''./'' t = t"
  proof (cases "strip_prefix ''./'' t")
    case (Some r)
    then have "take 2 t = ''./''" "r = drop 2 t" by (simp_all add: strip_prefix_def numeral_2_eq_2 split: if_split_asm)
    then have "t = ''.'' @ CHR ''/'' # r" using append_take_drop_id [of 2 t] by simp
    then have "parts = ''.'' # split_slash r" using split split_slash_append [of "''.''" r] by simp
    then have "''.'' \<in> set parts" by simp
    then show ?thesis using c by (auto simp: entry_name_def)
  qed (simp add: removeprefix_def)
qed

lemma join_snoc: "xs \<noteq> [] \<Longrightarrow> join sep (xs @ [x]) = join sep xs @ sep @ x"
  by (induction xs rule: induct_list012) simp_all

lemma relative_text:
  assumes "\<forall>s \<in> set parts. entry_name s"
  shows "path_parts (path_text [] parts) = parts" "path_root (path_text [] parts) = []"
    "path_text [] parts = ''.'' \<longleftrightarrow> parts = []" "parts \<noteq> [] \<Longrightarrow> path_text [] parts = join ''/'' parts"
proof -
  have j: "path_text [] parts = join ''/'' parts" if "parts \<noteq> []"
    using relative_path(5) [OF that assms] by (simp add: path_text_def)
  have e: "path_text [] [] = ''.''" by (simp add: path_text_def)
  have d: "path_parts ''.'' = []" "path_root ''.'' = []" by (simp_all add: path_parts_def path_root_def starts_with_def)
  show parts: "path_parts (path_text [] parts) = parts"
    using relative_path(1) [OF _ assms] j e d by (cases "parts = []") simp_all
  show "path_root (path_text [] parts) = []"
    using relative_path(2) [OF _ assms] j e d by (cases "parts = []") simp_all
  show "path_text [] parts = ''.'' \<longleftrightarrow> parts = []" using parts e d by metis
  show "parts \<noteq> [] \<Longrightarrow> path_text [] parts = join ''/'' parts" by (rule j)
qed

lemma child_text:
  assumes "\<forall>s \<in> set parts. entry_name s" and "entry_name name"
  shows "path_child (path_text [] parts) name = path_text [] (parts @ [name])"
proof (cases "parts = []")
  case True
  then show ?thesis using assms(2) by (simp add: path_child_def path_text_def entry_name_def)
next
  case False
  have all: "\<forall>s \<in> set (parts @ [name]). entry_name s" using assms by simp
  have snoc: "parts @ [name] \<noteq> []" by simp
  have n: "(path_text [] parts = ''.'') = False" using relative_text(3) [OF assms(1)] False by simp
  show ?thesis
    unfolding path_child_def n if_False unfolding relative_text(4) [OF assms(1) False] relative_text(4) [OF all snoc]
    using False by (simp add: join_snoc)
qed

lemma parents_of_child:
  assumes "\<forall>s \<in> set parts. entry_name s" and "entry_name name"
  shows "path_and_parents (path_text [] (parts @ [name])) = path_text [] (parts @ [name]) # path_and_parents (path_text [] parts)"
proof -
  have all: "\<forall>s \<in> set (parts @ [name]). entry_name s" using assms by simp
  show ?thesis
    unfolding path_and_parents_def relative_text [OF all] relative_text [OF assms(1)] Let_def by simp
qed

section \<open>Reading is bounded\<close>

lemma read_chunks_prefix:
  assumes "0 \<le> limit" and "int (length val) \<le> limit"
  shows "read_chunks limit chunks val truncated =
    (take (nat limit) (val @ concat chunks), truncated \<or> nat limit < length (val @ concat chunks))"
  using assms
proof (induction chunks arbitrary: val truncated)
  case (Cons chunk rest)
  define remaining where "remaining = limit - int (length val)"
  have step: "read_chunks limit (chunk # rest) val truncated =
      read_chunks limit rest (val @ take (nat remaining) chunk) (truncated \<or> remaining < int (length chunk))"
    using Cons.prems by (simp add: remaining_def Let_def)
  have len: "int (length (val @ take (nat remaining) chunk)) \<le> limit"
    using Cons.prems by (simp add: remaining_def)
  show ?case
  proof (cases "remaining < int (length chunk)")
    case True
    then have "length (val @ take (nat remaining) chunk) = nat limit"
      using Cons.prems by (simp add: remaining_def)
    then show ?thesis
      unfolding step Cons.IH [OF Cons.prems(1) len] using True Cons.prems
      by (auto simp: remaining_def nat_diff_distrib)
  next
    case False
    then have "take (nat remaining) chunk = chunk" by simp
    then show ?thesis unfolding step Cons.IH [OF Cons.prems(1) len] using False by simp
  qed
qed auto

text \<open>
  However a process writes its output, what is kept is exactly its first
  \<open>max_output_bytes\<close> bytes, and it is flagged as truncated exactly when there was more.
\<close>

theorem read_bounded_is_prefix:
  assumes "process_policy_ok (pp_process p)"
  shows "read_bounded p chunks =
    (take (nat (xp_max_output_bytes (pp_process p))) (concat chunks),
     nat (xp_max_output_bytes (pp_process p)) < length (concat chunks))"
  using assms by (simp add: read_bounded_def process_policy_ok_def read_chunks_prefix)

section \<open>Protected files are masked\<close>

text \<open>The mounts already collected are kept.\<close>

definition extends :: "string list \<times> nat \<Rightarrow> string list \<times> nat \<Rightarrow> bool" where
  "extends acc acc' \<longleftrightarrow> (\<exists>more. fst acc' = fst acc @ more)"

lemma extends_refl: "extends acc acc"
  by (simp add: extends_def)

lemma extends_trans: "extends a b \<Longrightarrow> extends b c \<Longrightarrow> extends a c"
  by (auto simp: extends_def)

lemma for_each_extends:
  assumes "for_each f xs acc = Inr acc'" and "\<And>x a a'. f x a = Inr a' \<Longrightarrow> extends a a'"
  shows "extends acc acc'"
  using assms(1) by (induction xs arbitrary: acc) (auto intro: extends_refl extends_trans assms(2))

lemma for_each_reaches:
  assumes "for_each f xs acc = Inr acc'" and "x \<in> set xs" and "\<And>x a a'. f x a = Inr a' \<Longrightarrow> extends a a'"
  obtains a a' where "f x a = Inr a'" "extends a' acc'"
proof -
  have "\<exists>a a'. f x a = Inr a' \<and> extends a' acc'"
    using assms(1,2)
  proof (induction xs arbitrary: acc)
    case (Cons y ys)
    obtain b where b: "f y acc = Inr b" "for_each f ys b = Inr acc'" using Cons.prems(1) by auto
    show ?case
    proof (cases "x = y")
      case True
      with b show ?thesis by (blast intro: for_each_extends assms(3))
    next
      case False
      with Cons.prems(2) show ?thesis by (intro Cons.IH [OF b(2)]) simp
    qed
  qed simp
  then show ?thesis using that by blast
qed

lemma mount_directory_extends: "mount_directory p w r b e a = Inr a' \<Longrightarrow> extends a a'"
  by (auto simp: mount_directory_def extends_def Let_def and_then_Inr_iff split: prod.split_asm option.split_asm if_split_asm)

lemma mount_file_extends: "mount_file p w r b e a = Inr a' \<Longrightarrow> extends a a'"
  by (auto simp: mount_file_def extends_def Let_def and_then_Inr_iff split: prod.split_asm option.split_asm if_split_asm)

lemma mount_step_extends:
  assumes "mount_step p w st a = Inr a'"
  shows "extends a a'"
proof -
  obtain b a1 where a1: "for_each (mount_directory p w (ws_root st) b) (ws_directories st) a = Inr a1"
    and a': "for_each (mount_file p w (ws_root st) b) (ws_files st) a1 = Inr a'"
    using assms by (auto simp: mount_step_def split: if_split_asm)
  show ?thesis
    by (rule extends_trans [OF for_each_extends [OF a1] for_each_extends [OF a']])
      (fact mount_directory_extends mount_file_extends)+
qed

definition mounted :: "string list \<Rightarrow> string list \<Rightarrow> bool" where
  "mounted m mounts \<longleftrightarrow> (\<exists>before after. mounts = before @ m @ after)"

lemma mounted_last: "mounted m (before @ m)"
  unfolding mounted_def by (rule exI [of _ before], rule exI [of _ "[]"]) simp

lemma mounted_extends: "mounted m (fst a) \<Longrightarrow> extends a a' \<Longrightarrow> mounted m (fst a')"
  by (fastforce simp: mounted_def extends_def)

text \<open>
  The walk as \<open>os.fwalk\<close> produces it from the top down: each step is the start or a directory that an earlier
  step listed, and what it lists are names.
\<close>

fun walk_from :: "string list \<Rightarrow> walk_step option list \<Rightarrow> bool" where
  "walk_from known [] = True"
| "walk_from known (None # walk) = walk_from known walk"
| "walk_from known (Some st # walk) =
    (ws_root st \<in> set known \<and> list_all (\<lambda>(name, m). entry_name name) (ws_directories st @ ws_files st) \<and>
     walk_from (map (\<lambda>(name, m). path_child (ws_root st) name) (ws_directories st) @ known) walk)"

text \<open>An empty file system is mounted over the path or a directory above it.\<close>

definition hidden_below :: "string \<Rightarrow> string list \<Rightarrow> string \<Rightarrow> bool" where
  "hidden_below w mounts relative \<longleftrightarrow>
    (\<exists>a \<in> set (path_and_parents relative). mounted [''--tmpfs'', path_child w a] mounts)"

definition relative_name :: "string \<Rightarrow> bool" where
  "relative_name r \<longleftrightarrow> (\<exists>parts. (\<forall>s \<in> set parts. entry_name s) \<and> r = path_text [] parts)"

lemma relative_name_root: "relative_name ''.''"
  unfolding relative_name_def by (rule exI [of _ "[]"]) (simp add: path_text_def)

lemma relative_name_child:
  assumes "relative_name r" and "entry_name name"
  shows "relative_name (path_child r name)" "path_and_parents (path_child r name) = path_child r name # path_and_parents r"
    "path_child r name \<noteq> ''.''"
proof -
  obtain parts where p: "\<forall>s \<in> set parts. entry_name s" "r = path_text [] parts" using assms(1) by (auto simp: relative_name_def)
  have all: "\<forall>s \<in> set (parts @ [name]). entry_name s" using p(1) assms(2) by simp
  show "relative_name (path_child r name)"
    unfolding p(2) child_text [OF p(1) assms(2)] relative_name_def using all by blast
  show "path_and_parents (path_child r name) = path_child r name # path_and_parents r"
    unfolding p(2) child_text [OF p(1) assms(2)] by (rule parents_of_child [OF p(1) assms(2)])
  show "path_child r name \<noteq> ''.''" unfolding p(2) child_text [OF p(1) assms(2)] relative_text(3) [OF all] by simp
qed

lemma hidden_below_child:
  assumes "relative_name r" "entry_name name"
  shows "hidden_below w mounts r \<Longrightarrow> hidden_below w mounts (path_child r name)"
    "mounted [''--tmpfs'', path_child w (path_child r name)] mounts \<Longrightarrow> hidden_below w mounts (path_child r name)"
  unfolding hidden_below_def relative_name_child(2) [OF assms] by simp_all

lemma hidden_below_extends: "hidden_below w (fst a) r \<Longrightarrow> extends a a' \<Longrightarrow> hidden_below w (fst a') r"
  unfolding hidden_below_def using mounted_extends by blast

text \<open>What a directory is covered by once the walk has passed the one that lists it.\<close>

definition covered :: "permission_policy \<Rightarrow> string \<Rightarrow> string list \<Rightarrow> string \<Rightarrow> bool" where
  "covered p w mounts r \<longleftrightarrow> relative_name r \<and> (is_protected_or_nested p r = Inr True \<longrightarrow> hidden_below w mounts r)"

lemma covered_extends: "covered p w (fst a) r \<Longrightarrow> extends a a' \<Longrightarrow> covered p w (fst a') r"
  unfolding covered_def using hidden_below_extends by blast

lemma root_covered: "covered p w mounts ''.''"
  using relative_name_root by (simp add: covered_def is_protected_or_nested_def path_and_parents_def path_parts_def path_root_def
      path_text_def starts_with_def)

lemma protected_child:
  assumes "relative_name r" and "entry_name name" and "is_protected_or_nested p r = Inr False"
  shows "is_protected_or_nested p (path_child r name) = is_protected p (path_child r name)"
  using assms(3) unfolding is_protected_or_nested_def relative_name_child(2) [OF assms(1,2)]
  by (cases "is_protected p (path_child r name)") (simp_all add: relative_name_child(3) [OF assms(1,2)])

text \<open>In what follows \<open>acc\<close> ends the walk.\<close>

lemma mount_directory_covers:
  assumes "mount_directory p w r b (name, metadata) a = Inr a'" and "extends a' acc"
    and "is_protected_or_nested p r = Inr b" and "covered p w (fst acc) r" and "entry_name name"
  shows "covered p w (fst acc) (path_child r name)"
    "is_protected_or_nested p (path_child r name) = Inr True \<Longrightarrow> b \<or> (\<exists>m. metadata = Some m \<and> \<not> st_symlink m)"
proof -
  have r: "relative_name r" using assms(4) by (simp add: covered_def)
  note child = relative_name_child [OF r assms(5)] and hide = hidden_below_child [OF r assms(5)]
  have "hidden_below w (fst acc) (path_child r name) \<and> (b \<or> (\<exists>m. metadata = Some m \<and> \<not> st_symlink m))"
    if "is_protected_or_nested p (path_child r name) = Inr True"
  proof (cases b)
    case True
    then show ?thesis using assms(3,4) hide(1) by (simp add: covered_def)
  next
    case False
    then have "is_protected p (path_child r name) = Inr True" using that protected_child [OF r assms(5)] assms(3) by simp
    then have "mounted [''--tmpfs'', path_child w (path_child r name)] (fst a') \<and> (\<exists>m. metadata = Some m \<and> \<not> st_symlink m)"
      using assms(1) False
      by (auto simp: mount_directory_def mounted_last Let_def split: prod.split_asm option.split_asm if_split_asm)
    then show ?thesis using hide(2) mounted_extends [OF _ assms(2)] by blast
  qed
  then show "covered p w (fst acc) (path_child r name)"
    "is_protected_or_nested p (path_child r name) = Inr True \<Longrightarrow> b \<or> (\<exists>m. metadata = Some m \<and> \<not> st_symlink m)"
    using child(1) by (auto simp: covered_def)
qed

lemma mount_step_parts:
  assumes "mount_step p w st a = Inr a'"
  obtains b a1 where "is_protected_or_nested p (ws_root st) = Inr b"
    "for_each (mount_directory p w (ws_root st) b) (ws_directories st) a = Inr a1" "extends a1 a'"
    "for_each (mount_file p w (ws_root st) b) (ws_files st) a1 = Inr a'"
proof -
  obtain b a1 where "is_protected_or_nested p (ws_root st) = Inr b"
    "for_each (mount_directory p w (ws_root st) b) (ws_directories st) a = Inr a1"
    "for_each (mount_file p w (ws_root st) b) (ws_files st) a1 = Inr a'"
    using assms by (auto simp: mount_step_def split: if_split_asm)
  then show ?thesis using for_each_extends [of "mount_file p w (ws_root st) b"] mount_file_extends that by blast
qed

lemma mount_step_covers:
  assumes "mount_step p w st a = Inr a'" and "extends a' acc" and "covered p w (fst acc) (ws_root st)"
    and "(name, metadata) \<in> set (ws_directories st)" and "entry_name name"
  shows "covered p w (fst acc) (path_child (ws_root st) name)"
    "is_protected_or_nested p (path_child (ws_root st) name) = Inr True \<Longrightarrow>
      is_protected_or_nested p (ws_root st) = Inr True \<or> (\<exists>m. metadata = Some m \<and> \<not> st_symlink m)"
proof -
  obtain b a1 where b: "is_protected_or_nested p (ws_root st) = Inr b"
    and f: "for_each (mount_directory p w (ws_root st) b) (ws_directories st) a = Inr a1" and e: "extends a1 a'"
    by (rule mount_step_parts [OF assms(1)])
  obtain c c' where c: "mount_directory p w (ws_root st) b (name, metadata) c = Inr c'" and e': "extends c' a1"
    by (rule for_each_reaches [OF f assms(4) mount_directory_extends])
  note d = mount_directory_covers [OF c extends_trans [OF e' extends_trans [OF e assms(2)]] b assms(3,5)]
  show "covered p w (fst acc) (path_child (ws_root st) name)" by (rule d(1))
  show "is_protected_or_nested p (path_child (ws_root st) name) = Inr True \<Longrightarrow>
      is_protected_or_nested p (ws_root st) = Inr True \<or> (\<exists>m. metadata = Some m \<and> \<not> st_symlink m)"
    using d(2) b by auto
qed

definition walk_step_mounts :: "permission_policy \<Rightarrow> string \<Rightarrow> walk_step option \<Rightarrow> string list \<times> nat \<Rightarrow>
    py_error + string list \<times> nat" where
  "walk_step_mounts p w step acc = (case step of None \<Rightarrow> Inl unverified | Some st \<Rightarrow> mount_step p w st acc)"

lemma walk_step_mounts_Some [simp]: "walk_step_mounts p w (Some st) a = mount_step p w st a"
  by (simp add: walk_step_mounts_def)

lemma walk_step_mounts_extends: "walk_step_mounts p w step a = Inr a' \<Longrightarrow> extends a a'"
  by (auto simp: walk_step_mounts_def dest: mount_step_extends split: option.split_asm)

lemma walk_covers:
  assumes "for_each (walk_step_mounts p w) walk a = Inr acc" and "walk_from known walk"
    and "\<forall>r \<in> set known. covered p w (fst acc) r" and "Some st \<in> set walk"
  shows "covered p w (fst acc) (ws_root st) \<and> (\<forall>(name, m) \<in> set (ws_directories st @ ws_files st). entry_name name)"
  using assms
proof (induction known walk arbitrary: a rule: walk_from.induct)
  case (2 known walk)
  then show ?case by (simp add: walk_step_mounts_def)
next
  case (3 known st0 walk)
  obtain a1 where s: "mount_step p w st0 a = Inr a1" and rest: "for_each (walk_step_mounts p w) walk a1 = Inr acc"
    using 3(2) by auto
  have ext: "extends a1 acc" by (rule for_each_extends [OF rest walk_step_mounts_extends])
  have root: "covered p w (fst acc) (ws_root st0)"
    and names: "\<forall>(name, m) \<in> set (ws_directories st0 @ ws_files st0). entry_name name" using 3(3,4) by (auto simp: list_all_iff)
  have "covered p w (fst acc) (path_child (ws_root st0) name)" if "(name, m) \<in> set (ws_directories st0)" for name m
    by (rule mount_step_covers(1) [OF s ext root that]) (use names that in auto)
  then have "\<forall>r \<in> set (map (\<lambda>(name, m). path_child (ws_root st0) name) (ws_directories st0) @ known). covered p w (fst acc) r"
    using 3(4) by auto
  then show ?case using 3(1) [OF rest] 3(3,5) root names by auto
qed simp

text \<open>
  C19. No protected file is left readable. Let the mounts be built from a walk from the top down. Then every
  protected file it lists, one below a protected directory included, is a plain file with no other name, and
  is hidden: by the empty device mounted over it, or by an empty file system mounted over a directory above
  it. Every protected directory is hidden by such a file system mounted over it or above it; the
  outermost is no symbolic link.
\<close>

theorem protected_files_are_masked:
  assumes "protected_mounts p w walk = Inr mounts" and "walk_from [''.''] walk" and "Some st \<in> set walk"
    and "is_protected_or_nested p (path_child (ws_root st) name) = Inr True"
  shows "((name, metadata) \<in> set (ws_files st) \<longrightarrow>
      (\<exists>m. metadata = Some m \<and> \<not> st_symlink m \<and> (st_regular m \<longrightarrow> st_nlink m \<le> 1)) \<and>
      (mounted [''--ro-bind'', ''/dev/null'', path_child w (path_child (ws_root st) name)] mounts \<or>
       hidden_below w mounts (path_child (ws_root st) name))) \<and>
    ((name, metadata) \<in> set (ws_directories st) \<longrightarrow> hidden_below w mounts (path_child (ws_root st) name) \<and>
      (is_protected_or_nested p (ws_root st) = Inr True \<or> (\<exists>m. metadata = Some m \<and> \<not> st_symlink m)))"
proof -
  obtain acc where acc: "for_each (walk_step_mounts p w) walk ([], 0) = Inr acc" and m: "mounts = fst acc"
    using assms(1) by (auto simp: protected_mounts_def walk_step_mounts_def [abs_def])
  have cov: "covered p w (fst acc) (ws_root st)" and names: "\<forall>(name, m) \<in> set (ws_directories st @ ws_files st). entry_name name"
    using walk_covers [OF acc assms(2) _ assms(3)] root_covered by auto
  have r: "relative_name (ws_root st)" using cov by (simp add: covered_def)
  obtain a a' where s: "mount_step p w st a = Inr a'" and ext: "extends a' acc"
    by (rule for_each_reaches [OF acc assms(3) walk_step_mounts_extends]) (auto simp: walk_step_mounts_def)
  obtain b a1 where b: "is_protected_or_nested p (ws_root st) = Inr b"
    and f: "for_each (mount_file p w (ws_root st) b) (ws_files st) a1 = Inr a'"
    by (rule mount_step_parts [OF s])
  show ?thesis
  proof (intro conjI impI)
    assume d: "(name, metadata) \<in> set (ws_directories st)"
    then have n: "entry_name name" using names by auto
    show "hidden_below w mounts (path_child (ws_root st) name)"
      using mount_step_covers(1) [OF s ext cov d n] assms(4) by (simp add: covered_def m)
    show "is_protected_or_nested p (ws_root st) = Inr True \<or> (\<exists>m. metadata = Some m \<and> \<not> st_symlink m)"
      by (rule mount_step_covers(2) [OF s ext cov d n assms(4)])
  next
    assume listed: "(name, metadata) \<in> set (ws_files st)"
    then have n: "entry_name name" using names by auto
    obtain c c' where c: "mount_file p w (ws_root st) b (name, metadata) c = Inr c'" and ext': "extends c' a'"
      by (rule for_each_reaches [OF f listed mount_file_extends])
    have masked: "(\<exists>m. metadata = Some m \<and> \<not> st_symlink m \<and> (st_regular m \<longrightarrow> st_nlink m \<le> 1)) \<and>
        (b \<or> mounted [''--ro-bind'', ''/dev/null'', path_child w (path_child (ws_root st) name)] (fst c'))"
      using c assms(4) by (auto simp: mount_file_def mounted_last Let_def split: prod.split_asm option.split_asm if_split_asm)
    then show "\<exists>m. metadata = Some m \<and> \<not> st_symlink m \<and> (st_regular m \<longrightarrow> st_nlink m \<le> 1)" by blast
    have "hidden_below w mounts (path_child (ws_root st) name)" if b
      using cov that b hidden_below_child(1) [OF r n] by (simp add: covered_def m)
    then show "mounted [''--ro-bind'', ''/dev/null'', path_child w (path_child (ws_root st) name)] mounts \<or>
       hidden_below w mounts (path_child (ws_root st) name)"
      using masked mounted_extends [OF _ extends_trans [OF ext' ext]] m by blast
  qed
qed

section \<open>A gap in the check for inline code\<close>

text \<open>
  Only the arguments that start with \<open>-c\<close> or \<open>-e\<close> are refused, so an interpreter flag in front of
  the \<open>c\<close> passes code on the command line: \<open>python3 -Ic code\<close>.
\<close>

lemma combined_flag_is_not_inline:
  "\<not> is_inline_evaluation_argument ''python3'' ''-Ic''"
  by (simp add: is_inline_evaluation_argument_def starts_with_def)

section \<open>A protected name is protected at every depth\<close>

definition plain :: "nat list \<Rightarrow> bool" where
  "plain s \<longleftrightarrow> 42 \<notin> set s \<and> 63 \<notin> set s \<and> 91 \<notin> set s"

lemma compile_plain: "plain s \<Longrightarrow> compile_glob s = map Literal s"
  by (induction s) (auto simp: plain_def)

lemma literal_matches: "glob_match (map Literal s) t \<longleftrightarrow> s = t"
  by (induction s t rule: list_induct2') auto

lemma fnmatch_plain: "plain (code_points s) \<Longrightarrow> fnmatchcase s s"
  by (simp add: fnmatchcase_def compile_plain literal_matches)

lemma any_match_not_refused:
  assumes "c \<in> set cs" and "path_match value c = Inr True"
  shows "any_match value cs \<noteq> Inr False"
  using assms(1)
proof (induction cs)
  case (Cons d ds)
  then show ?case using assms(2) by (cases "path_match value d") (auto split: if_splits)
qed simp

definition path_component :: "string \<Rightarrow> bool" where
  "path_component s \<longleftrightarrow> entry_name s \<and> CHR 0x5C \<notin> set s"

lemma unbackslash_id: "CHR 0x5C \<notin> set s \<Longrightarrow> unbackslash s = s"
  by (auto simp: unbackslash_def intro: map_idI)

lemma set_join_subset: "set (join sep xs) \<subseteq> set sep \<union> (\<Union>x \<in> set xs. set x)"
  by (rule set_join)

text \<open>
  A pattern \<open>**/name\<close> protects every path whose last component is that name, however deep:
  asking whether it is protected never answers no.
\<close>

theorem protected_at_every_depth:
  assumes "''**/'' @ name \<in> set (pp_protected_paths p)" and "path_component name" and "plain (code_points name)"
    and "\<forall>s \<in> set dirs. path_component s"
  shows "is_protected p (join ''/'' (dirs @ [name])) \<noteq> Inr False"
proof -
  let ?t = "join ''/'' (dirs @ [name])"
  have "\<forall>s \<in> set (dirs @ [name]). entry_name s" using assms(2,4) by (simp add: path_component_def)
  note t = relative_path [OF _ this, simplified]
  have "CHR 0x5C \<notin> set ?t"
    using set_join_subset [of "''/''" "dirs @ [name]"] assms(2,4) by (auto simp: path_component_def)
  then have u: "unbackslash ?t = ?t" by (rule unbackslash_id)
  have n: "path_parts name = [name]" "path_root name = []"
    using relative_path [of "[name]"] assms(2) by (simp_all add: path_component_def)
  have "path_match ?t name = Inr True"
    by (simp add: path_match_def path_lines_def t n Let_def fnmatch_plain [OF assms(3)])
  moreover have "name \<in> set (concat (map pattern_candidates (pp_protected_paths p)))"
  proof -
    have "unbackslash (''**/'' @ name) = ''**/'' @ name"
      using assms(2) by (intro unbackslash_id) (simp add: path_component_def)
    then have "name \<in> set (pattern_candidates (''**/'' @ name))"
      by (simp add: pattern_candidates_def removeprefix_def strip_prefix_def)
    then show ?thesis using assms(1) by auto
  qed
  ultimately show ?thesis
    using any_match_not_refused [of name _ ?t] by (simp add: is_protected_def u t Let_def)
qed

section \<open>Concrete instances\<close>

definition demo_process :: process_policy where
  "demo_process = \<lparr>xp_backend = ''bubblewrap'', xp_binary = ''/usr/bin/bwrap'',
    xp_limiter_binary = ''/usr/bin/prlimit'', xp_network = ''deny'', xp_allowed_commands = [''python3'', ''git''],
    xp_max_timeout_seconds = 30, xp_max_output_bytes = 1024, xp_max_memory_bytes = 536870912,
    xp_max_processes = 32, xp_max_file_bytes = 16777216, xp_max_open_files = 128\<rparr>"

definition demo_sandbox_policy :: permission_policy where
  "demo_sandbox_policy = \<lparr>pp_protected_paths = [''**/.env''], pp_process = demo_process, pp_tool_rules = [],
    pp_capability_rules = [], pp_worker_skill_rules = []\<rparr>"

theorem read_bounded_is_prefix_witness:
  "read_bounded demo_sandbox_policy [replicate 1000 CHR ''a'', replicate 1000 CHR ''b''] =
    (replicate 1000 CHR ''a'' @ replicate 24 CHR ''b'', True)"
proof -
  have ok: "process_policy_ok (pp_process demo_sandbox_policy)"
    by (simp add: process_policy_ok_def demo_sandbox_policy_def demo_process_def path_absolute_def starts_with_def
        path_name_def)
  show ?thesis
    unfolding read_bounded_is_prefix [OF ok] by (simp add: demo_sandbox_policy_def demo_process_def)
qed

text \<open>A protected file, and a directory with a protected name that holds another one.\<close>

definition demo_stat :: "nat \<Rightarrow> file_stat option" where
  "demo_stat n = Some \<lparr>st_symlink = False, st_regular = n = 1, st_nlink = n\<rparr>"

definition demo_walk :: "walk_step option list" where
  "demo_walk = [Some \<lparr>ws_root = ''.'', ws_directories = [(''app'', demo_stat 3)], ws_files = [(''.env'', demo_stat 1)]\<rparr>,
    Some \<lparr>ws_root = ''app'', ws_directories = [(''.env'', demo_stat 2)], ws_files = []\<rparr>,
    Some \<lparr>ws_root = ''app/.env'', ws_directories = [], ws_files = [(''key'', demo_stat 1)]\<rparr>]"

lemma demo_protected:
  "is_protected_or_nested demo_sandbox_policy ''.env'' = Inr True" "is_protected_or_nested demo_sandbox_policy ''.'' = Inr False"
  "is_protected_or_nested demo_sandbox_policy ''app'' = Inr False" "is_protected demo_sandbox_policy ''app'' = Inr False"
  "is_protected_or_nested demo_sandbox_policy ''app/.env'' = Inr True" "is_protected demo_sandbox_policy ''app/.env'' = Inr True"
  "is_protected_or_nested demo_sandbox_policy ''app/.env/key'' = Inr True"
  subgoal by code_simp
  subgoal by code_simp
  subgoal by code_simp
  subgoal by code_simp
  subgoal by code_simp
  subgoal by code_simp
  subgoal by code_simp
  done

lemma demo_mounts:
  "protected_mounts demo_sandbox_policy ''/w'' demo_walk =
    Inr [''--ro-bind'', ''/dev/null'', ''/w/.env'', ''--tmpfs'', ''/w/app/.env'']"
  by (simp add: protected_mounts_def demo_walk_def mount_step_def mount_file_def mount_directory_def path_child_def
      demo_protected demo_stat_def)

lemma demo_walk_from: "walk_from [''.''] demo_walk"
  by (simp add: demo_walk_def entry_name_def path_child_def)

theorem protected_files_are_masked_witness:
  "\<exists>mounts. protected_mounts demo_sandbox_policy ''/w'' demo_walk = Inr mounts \<and>
    (mounted [''--ro-bind'', ''/dev/null'', ''/w/.env''] mounts \<or> hidden_below ''/w'' mounts ''.env'') \<and>
    hidden_below ''/w'' mounts ''app/.env'' \<and>
    (mounted [''--ro-bind'', ''/dev/null'', ''/w/app/.env/key''] mounts \<or> hidden_below ''/w'' mounts ''app/.env/key'')"
proof -
  let ?m = "[''--ro-bind'', ''/dev/null'', ''/w/.env'', ''--tmpfs'', ''/w/app/.env'']"
  note masked = protected_files_are_masked [OF demo_mounts demo_walk_from]
  have steps: "Some \<lparr>ws_root = ''.'', ws_directories = [(''app'', demo_stat 3)], ws_files = [(''.env'', demo_stat 1)]\<rparr> \<in> set demo_walk"
    "Some \<lparr>ws_root = ''app'', ws_directories = [(''.env'', demo_stat 2)], ws_files = []\<rparr> \<in> set demo_walk"
    "Some \<lparr>ws_root = ''app/.env'', ws_directories = [], ws_files = [(''key'', demo_stat 1)]\<rparr> \<in> set demo_walk"
    by (simp_all add: demo_walk_def)
  have "mounted [''--ro-bind'', ''/dev/null'', ''/w/.env''] ?m \<or>
      hidden_below ''/w'' ?m ''.env''"
    using masked [OF steps(1), of "''.env''" "demo_stat 1"] by (simp add: path_child_def demo_protected)
  moreover have "hidden_below ''/w'' ?m ''app/.env''"
    using masked [OF steps(2), of "''.env''" "demo_stat 2"] by (simp add: path_child_def demo_protected)
  moreover have "mounted [''--ro-bind'', ''/dev/null'', ''/w/app/.env/key''] ?m \<or>
      hidden_below ''/w'' ?m ''app/.env/key''"
    using masked [OF steps(3), of "''key''" "demo_stat 1"] by (simp add: path_child_def demo_protected)
  ultimately show ?thesis using demo_mounts by blast
qed

theorem protected_at_every_depth_witness:
  "is_protected demo_sandbox_policy ''app/config/.env'' \<noteq> Inr False"
  using protected_at_every_depth [of "''.env''" demo_sandbox_policy "[''app'', ''config'']"]
  by (simp add: demo_sandbox_policy_def path_component_def entry_name_def plain_def code_points.simps)

end
