(* ===== verification/Tool_Execution.thy ===== *)
theory Tool_Execution
  imports Approval_Gateway Process_Sandbox
begin

text \<open>
  \<open>server/app/services/execution_engine.py\<close>: tool calls proposed with their one-shot approval,
  claimed for execution, dispatched and finished. The checks made on goal and project tables, the
  read receipt and the dispatch itself (file system and processes) are parameters; so is the
  manifest of a project write, which a pydantic model validates. Cancellation of the asyncio task
  is not modelled.
\<close>

section \<open>Configuration and records\<close>

record executor =
  ex_policy :: permission_policy
  ex_host :: host
  ex_workspace :: string
  ex_manifest :: "(string \<times> json) list \<Rightarrow> string list option"

text \<open>
  What the caller of an operation adds to its transaction, and the checks on tables of other
  components: \<open>gd_project_current\<close> that no project revision the task applies has been superseded,
  \<open>gd_goal_executable\<close> that no goal the task applies code for has ended or timed out,
  \<open>gd_read_binding\<close> the receipt of a file read.
\<close>

record 'db guards =
  gd_acceptance :: "'db \<Rightarrow> py_error + 'db"
  gd_local_context :: "string \<Rightarrow> 'db \<Rightarrow> py_error + 'db"
  gd_commit :: "py_error + unit"
  gd_project_current :: "string \<Rightarrow> 'db \<Rightarrow> bool"
  gd_goal_executable :: "string \<Rightarrow> 'db \<Rightarrow> bool"
  gd_read_binding :: "string \<Rightarrow> json \<Rightarrow> json \<Rightarrow> string \<Rightarrow> 'db \<Rightarrow> py_error + json option"

definition exec_error :: "string \<Rightarrow> py_error" where
  "exec_error message = ExecutionError message ''invalid_arguments''"

definition new_requester :: "string \<Rightarrow> string \<Rightarrow> string \<Rightarrow> py_error + requester" where
  "new_requester i name type =
    (if type \<noteq> ''device'' \<or> i = [] \<or> name = []
     then Inl (exec_error ''authenticated device requester identity is required'')
     else Inr \<lparr>rq_type = type, rq_id = i, rq_name = name\<rparr>)"

definition proposable_task_states :: "task_status list" where
  "proposable_task_states = [Task_Created, Task_Planned]"

definition tool_argument_keys :: "string \<Rightarrow> string list" where
  "tool_argument_keys tool_name =
    (if tool_name = ''workspace.list_dir'' \<or> tool_name = ''workspace.read_text'' then [''path'']
     else if tool_name = ''workspace.write_text'' then [''path'', ''content'']
     else if tool_name = ''workspace.write_project'' then [''project_id'', ''revision_id'', ''sha256'', ''files'']
     else [''argv'', ''cwd'', ''timeout_seconds''])"

section \<open>Validation\<close>

definition validate_tool :: "string \<Rightarrow> py_error + unit" where
  "validate_tool tool_name =
    (if tool_name \<in> set supported_tools then Inr ()
     else Inl (ExecutionError (''unknown tool: '' @ tool_name) ''unknown_tool''))"

definition requires_approval :: "executor \<Rightarrow> string \<Rightarrow> py_error + bool" where
  "requires_approval ex tool_name =
    and_then (validate_tool tool_name) (\<lambda>_.
    and_then (evaluate_tool (ex_policy ex) tool_name) (\<lambda>r. Inr (tr_decision r = ''ask'')))"

definition default_risk :: "executor \<Rightarrow> string \<Rightarrow> py_error + string" where
  "default_risk ex tool_name =
    and_then (validate_tool tool_name) (\<lambda>_.
    and_then (evaluate_tool (ex_policy ex) tool_name) (\<lambda>r. Inr (tr_risk r)))"

definition workspace_relative :: "string \<Rightarrow> bool \<Rightarrow> py_error + string" where
  "workspace_relative raw allow_root =
    (if raw = [] \<or> CHR 0x00 \<in> set raw then Inl (exec_error ''workspace path is empty or invalid'')
     else if path_absolute raw \<or> ''..'' \<in> set (path_parts raw)
     then Inl (exec_error ''path escapes configured workspace'')
     else if path_parts raw = [] \<and> \<not> allow_root
     then Inl (exec_error ''workspace file path is required'')
     else Inr (path_text [] (path_parts raw)))"

definition assert_not_protected :: "executor \<Rightarrow> string \<Rightarrow> py_error + unit" where
  "assert_not_protected ex relative =
    and_then (is_protected (ex_policy ex) relative) (\<lambda>b.
      require (\<not> b) (ExecutionError ''protected path is not available to tools'' ''policy_denied''))"

definition resolve_workspace_path :: "executor \<Rightarrow> string \<Rightarrow> py_error + string" where
  "resolve_workspace_path ex raw =
    (let candidate = ho_resolve (ex_host ex) (if path_absolute raw then raw else ex_workspace ex @ ''/'' @ raw)
     in if candidate \<noteq> ex_workspace ex \<and> ex_workspace ex \<notin> set (tl (path_and_parents candidate))
        then Inl (exec_error ''path escapes configured workspace'') else Inr candidate)"

definition checked_path :: "executor \<Rightarrow> json \<Rightarrow> bool \<Rightarrow> py_error + string" where
  "checked_path ex v allow_root =
    (case v of
       JStr raw \<Rightarrow> and_then (workspace_relative raw allow_root) (\<lambda>relative.
         and_then (assert_not_protected ex relative) (\<lambda>_. Inr relative))
     | _ \<Rightarrow> Inl (exec_error ''path must be a string''))"

definition dict_get :: "string \<Rightarrow> json \<Rightarrow> (string \<times> json) list \<Rightarrow> json" where
  "dict_get k other kvs = (case map_of kvs k of None \<Rightarrow> other | Some v \<Rightarrow> v)"

definition is_text :: "json \<Rightarrow> bool" where
  "is_text v = (case v of JStr s \<Rightarrow> True | _ \<Rightarrow> False)"

definition sandbox_message :: "py_error \<Rightarrow> py_error" where
  "sandbox_message e = (case e of ProcessSandboxError m \<Rightarrow> exec_error m | _ \<Rightarrow> e)"

definition validate_process :: "executor \<Rightarrow> (string \<times> json) list \<Rightarrow> py_error + unit" where
  "validate_process ex arguments =
    (case dict_get ''cwd'' (JStr ''.'') arguments of
       JStr cwd \<Rightarrow>
         (case dict_get ''timeout_seconds'' (JInt 15) arguments of
            JInt timeout \<Rightarrow>
              (case map_of arguments ''argv'' of
                 Some (JArr argv) \<Rightarrow>
                   (case validate_argv (ex_host ex) (ex_policy ex) argv of
                      Inl e \<Rightarrow> Inl (sandbox_message e)
                    | Inr _ \<Rightarrow> and_then (resolve_workspace_path ex cwd) (\<lambda>_. Inr ()))
               | _ \<Rightarrow> Inl (exec_error ''argv must be a non-empty string array''))
          | _ \<Rightarrow> Inl (exec_error ''timeout_seconds must be a finite number''))
     | _ \<Rightarrow> Inl (exec_error ''cwd must be a string''))"

definition validate_arguments :: "executor \<Rightarrow> string \<Rightarrow> (string \<times> json) list \<Rightarrow> py_error + unit" where
  "validate_arguments ex tool_name arguments =
    and_then (validate_tool tool_name) (\<lambda>_.
    and_then (require (set (map fst arguments) \<subseteq> set (tool_argument_keys tool_name))
      (exec_error (tool_name @ '' received an unsupported argument''))) (\<lambda>_.
      if tool_name = ''workspace.read_text'' \<or> tool_name = ''workspace.write_text''
      then (case map_of arguments ''path'' of
          None \<Rightarrow> Inl (exec_error ''path is required'')
        | Some raw \<Rightarrow>
            if \<not> is_text raw then Inl (exec_error ''path must be a string'')
            else if tool_name = ''workspace.write_text'' \<and> \<not> is_text (dict_get ''content'' (JStr []) arguments)
            then Inl (exec_error ''content must be a string'')
            else and_then (checked_path ex raw False) (\<lambda>_. Inr ()))
      else if tool_name = ''workspace.write_project''
      then (case ex_manifest ex arguments of
          None \<Rightarrow> Inl (exec_error ''project manifest is invalid'')
        | Some paths \<Rightarrow> for_each (\<lambda>p u. assert_not_protected ex p) paths ())
      else if tool_name = ''workspace.list_dir''
      then and_then (checked_path ex (dict_get ''path'' (JStr ''.'') arguments) True) (\<lambda>_. Inr ())
      else validate_process ex arguments))"

section \<open>Proposing a call\<close>

definition stored_json :: "json \<Rightarrow> string" where
  "stored_json v = json_ascii True '', '' '': '' v"

text \<open>\<open>INSERT\<close> of a row whose identifier, or approval, exists already.\<close>

definition insert_approval :: "approval_row \<Rightarrow> 'z approval_db_scheme \<Rightarrow> py_error + 'z approval_db_scheme" where
  "insert_approval a db =
    (if ap_id a \<in> set (map ap_id (approvals db)) then Inl (IntegrityError ''UNIQUE constraint failed: approvals.id'')
     else Inr (db\<lparr>approvals := approvals db @ [a]\<rparr>))"

definition insert_tool_call :: "tool_call_row \<Rightarrow> 'z approval_db_scheme \<Rightarrow> py_error + 'z approval_db_scheme" where
  "insert_tool_call c db =
    (if tc_id c \<in> set (map tc_id (tool_calls db)) then Inl (IntegrityError ''UNIQUE constraint failed: tool_calls.id'')
     else if tc_approval_id c \<noteq> None \<and> tc_approval_id c \<in> set (map tc_approval_id (tool_calls db))
     then Inl (IntegrityError ''UNIQUE constraint failed: tool_calls.approval_id'')
     else Inr (db\<lparr>tool_calls := tool_calls db @ [c]\<rparr>))"

definition request_payload :: "string \<Rightarrow> string \<Rightarrow> string \<Rightarrow> string \<Rightarrow> string \<Rightarrow> requester \<Rightarrow> tool_rule
    \<Rightarrow> (string \<times> json) list \<Rightarrow> json" where
  "request_payload approval_id task_id tool_call_id tool_name action_digest rq rule arguments = JObj
    [(''approval_id'', JStr approval_id), (''task_id'', JStr task_id), (''tool_call_id'', JStr tool_call_id),
     (''tool_name'', JStr tool_name), (''action_digest'', JStr action_digest),
     (''requester_name'', JStr (rq_name rq)), (''policy'', approval_context rule),
     (''affected_data_summary'', JStr (safe_affected_data_summary tool_name arguments))]"

text \<open>The audit record of the request and the approval that points at it.\<close>

definition request_approval :: "(string \<Rightarrow> string) \<Rightarrow> string \<Rightarrow> nat \<Rightarrow> string \<Rightarrow> string \<Rightarrow> string \<Rightarrow> string
    \<Rightarrow> string \<Rightarrow> requester \<Rightarrow> tool_rule \<Rightarrow> (string \<times> json) list \<Rightarrow> 'z approval_db_scheme
    \<Rightarrow> py_error + 'z approval_db_scheme" where
  "request_approval H fresh created approval_id task_id tool_call_id tool_name action_digest rq rule arguments db =
    (let now = isoformat created;
         (audit, db1) = append_audit_event H fresh created ''approval.requested''
           (request_payload approval_id task_id tool_call_id tool_name action_digest rq rule arguments)
           (rq_type rq) (rq_id rq) (Some task_id) (Some task_id) (Some now) db
     in (case tr_approval_ttl_seconds rule of
           None \<Rightarrow> Inl (exec_error ''approval policy is missing its expiry'')
         | Some ttl \<Rightarrow>
             and_then (dt_add_seconds created ttl) (\<lambda>expires.
               insert_approval \<lparr>ap_id = approval_id, ap_task_id = task_id, ap_tool_call_id = tool_call_id,
                 ap_action_digest = action_digest, ap_request_audit_id = ae_id audit, ap_action = tool_name,
                 ap_summary = public_tool_summary tool_name, ap_risk = tr_risk rule, ap_status = Approval_Pending,
                 ap_created_at = now, ap_expires_at = isoformat expires, ap_decided_at = None,
                 ap_decision_json = None\<rparr> db1)))"

definition task_text :: "task_status \<Rightarrow> string" where
  "task_text s = (case s of Task_Created \<Rightarrow> ''created'' | Task_Planned \<Rightarrow> ''planned''
    | Task_Waiting_Permission \<Rightarrow> ''waiting_permission'' | Task_Queued \<Rightarrow> ''queued'' | Task_Running \<Rightarrow> ''running''
    | Task_Blocked \<Rightarrow> ''blocked'' | Task_Completed \<Rightarrow> ''completed'' | Task_Failed \<Rightarrow> ''failed''
    | Task_Cancelled \<Rightarrow> ''cancelled'')"

definition tool_text :: "tool_status \<Rightarrow> string" where
  "tool_text s = (case s of Tool_Waiting_Permission \<Rightarrow> ''waiting_permission'' | Tool_Queued \<Rightarrow> ''queued''
    | Tool_Running \<Rightarrow> ''running'' | Tool_Completed \<Rightarrow> ''completed'' | Tool_Failed \<Rightarrow> ''failed''
    | Tool_Denied \<Rightarrow> ''denied'' | Tool_Cancelled \<Rightarrow> ''cancelled'')"

text \<open>The transaction that writes the call; \<open>rule\<close> is the policy's and \<open>digest\<close> the action's when it asks.\<close>

definition propose_locked :: "(string \<Rightarrow> string) \<Rightarrow> 'z approval_db_scheme guards \<Rightarrow> string \<Rightarrow> nat \<Rightarrow> string \<Rightarrow> string
    \<Rightarrow> string \<Rightarrow> string \<Rightarrow> requester \<Rightarrow> tool_rule \<Rightarrow> (string \<times> json) list \<Rightarrow> string
    \<Rightarrow> 'z approval_db_scheme \<Rightarrow> py_error + (tool_call_row \<times> 'z approval_db_scheme)" where
  "propose_locked H g fresh created approval_id task_id tool_call_id tool_name rq rule arguments digest db0 =
    (let now = isoformat created; asks = (tr_decision rule = ''ask'')
     in and_then (gd_acceptance g db0) (\<lambda>db1.
        and_then (gd_local_context g tool_call_id db1) (\<lambda>db.
        (case row_by tk_id task_id (tasks db) of
           None \<Rightarrow> Inl (ExecutionConflict ''task not found'')
         | Some t \<Rightarrow>
             if tk_status t \<notin> set proposable_task_states
             then Inl (ExecutionConflict (''task cannot accept a tool call from '' @ task_text (tk_status t)))
             else if \<not> gd_project_current g task_id db
             then Inl (ExecutionConflict ''project changed before its approval was prepared'')
             else
               and_then (if asks
                  then request_approval H fresh created approval_id task_id tool_call_id tool_name digest rq rule
                    arguments db
                  else Inr db) (\<lambda>db2.
               let call = \<lparr>tc_id = tool_call_id, tc_task_id = task_id, tc_tool_name = tool_name,
                     tc_arguments_json = stored_json (JObj arguments), tc_summary = public_tool_summary tool_name,
                     tc_risk = tr_risk rule, tc_status = if asks then Tool_Waiting_Permission else Tool_Queued,
                     tc_approval_id = if asks then Some approval_id else None, tc_result_json = None,
                     tc_error = None, tc_created_at = now, tc_updated_at = now\<rparr>;
                   P = (\<lambda>x. tk_id x = task_id \<and> tk_status x = tk_status t)
               in and_then (insert_tool_call call db2) (\<lambda>db3.
                  and_then (require (sql_rowcount P (tasks db3) = 1)
                    (ExecutionConflict ''task changed while the tool call was proposed'')) (\<lambda>_.
                  and_then (gd_commit g) (\<lambda>_.
                    Inr (call, db3\<lparr>tasks := sql_update P (\<lambda>x. x\<lparr>tk_status :=
                      if asks then Task_Waiting_Permission else Task_Queued, tk_updated_at := now\<rparr>) (tasks db3)\<rparr>))))))))) "

record call_record =
  cr_row :: tool_call_row
  cr_arguments :: json
  cr_result :: json

text \<open>The dictionary of a decoded call, with the public projections.\<close>

definition public_call :: "call_record \<Rightarrow> (string \<times> json) list" where
  "public_call r = (let c = cr_row r in public_tool_call (\<lambda>v. [])
    [(''id'', JStr (tc_id c)), (''task_id'', JStr (tc_task_id c)), (''tool_name'', JStr (tc_tool_name c)),
     (''summary'', JStr (tc_summary c)), (''risk'', JStr (tc_risk c)), (''status'', JStr (tool_text (tc_status c))),
     (''approval_id'', json_opt (tc_approval_id c)), (''error'', json_opt (tc_error c)),
     (''created_at'', JStr (tc_created_at c)), (''updated_at'', JStr (tc_updated_at c)),
     (''arguments'', cr_arguments r), (''result'', cr_result r)])"

text \<open>
  \<open>fresh\<close> supplies three \<open>uuid4\<close> texts: of the approval, of the call, and of the audit event's trace.
\<close>

definition create_tool_call :: "(string \<Rightarrow> string) \<Rightarrow> executor \<Rightarrow> 'z approval_db_scheme guards \<Rightarrow> (nat \<Rightarrow> string) \<Rightarrow> nat
    \<Rightarrow> string \<Rightarrow> string \<Rightarrow> (string \<times> json) list \<Rightarrow> string \<Rightarrow> requester \<Rightarrow> 'z approval_db_scheme
    \<Rightarrow> (py_error + (string \<times> json) list) \<times> 'z approval_db_scheme" where
  "create_tool_call H ex g fresh created task_id tool_name arguments summary rq db =
    (let approval_id = ''apr_'' @ fresh 0; tool_call_id = ''call_'' @ fresh 1
     in (case and_then (validate_arguments ex tool_name arguments) (\<lambda>_.
           and_then (evaluate_tool (ex_policy ex) tool_name) (\<lambda>rule.
           and_then (require (tr_decision rule \<noteq> ''deny'')
             (ExecutionError (''tool denied by policy rule '' @ tr_id rule) ''policy_denied'')) (\<lambda>_.
           and_then (if tr_decision rule = ''ask''
              then (case canonical_action_digest H tool_call_id tool_name arguments of
                  Inl e \<Rightarrow> Inl (exec_error ''approval binding requires a call id, tool name, and arguments'')
                | Inr d \<Rightarrow> Inr d)
              else Inr []) (\<lambda>digest.
           and_then (require (summary \<noteq> []) (exec_error ''tool proposal summary is required'')) (\<lambda>_.
             Inr (rule, digest)))))) of
           Inl e \<Rightarrow> (Inl e, db)
         | Inr (rule, digest) \<Rightarrow>
             (case transaction (propose_locked H g (fresh 2) created approval_id task_id tool_call_id tool_name rq
                 rule arguments digest) db of
                (Inl e, db') \<Rightarrow> (Inl e, db')
              | (Inr call, db') \<Rightarrow>
                  (Inr (public_call \<lparr>cr_row = call, cr_arguments = JObj arguments, cr_result = JNull\<rparr>), db'))))"

section \<open>Reading calls\<close>

definition decode_call :: "tool_call_row \<Rightarrow> py_error + call_record" where
  "decode_call c =
    (case json_loads (tc_arguments_json c) of
       None \<Rightarrow> Inl (OtherException ''JSONDecodeError'')
     | Some arguments \<Rightarrow>
         if or_empty (tc_result_json c) = []
         then Inr \<lparr>cr_row = c, cr_arguments = arguments, cr_result = JNull\<rparr>
         else (case json_loads (or_empty (tc_result_json c)) of
             None \<Rightarrow> Inl (OtherException ''JSONDecodeError'')
           | Some result \<Rightarrow> Inr \<lparr>cr_row = c, cr_arguments = arguments, cr_result = result\<rparr>))"

definition get_internal :: "string \<Rightarrow> 'z approval_db_scheme \<Rightarrow> py_error + call_record option" where
  "get_internal tool_call_id db =
    (case row_by tc_id tool_call_id (tool_calls db) of
       None \<Rightarrow> Inr None
     | Some c \<Rightarrow> and_then (decode_call c) (\<lambda>r. Inr (Some r)))"

definition get_tool_call :: "string \<Rightarrow> 'z approval_db_scheme \<Rightarrow> py_error + (string \<times> json) list option" where
  "get_tool_call tool_call_id db =
    and_then (get_internal tool_call_id db) (\<lambda>r. Inr (map_option public_call r))"

definition get_by_approval :: "string \<Rightarrow> 'z approval_db_scheme \<Rightarrow> py_error + (string \<times> json) list option" where
  "get_by_approval approval_id db =
    (case row_by tc_approval_id (Some approval_id) (tool_calls db) of
       None \<Rightarrow> Inr None
     | Some c \<Rightarrow> and_then (decode_call c) (\<lambda>r. Inr (Some (public_call r))))"

definition list_calls_for_task :: "string \<Rightarrow> 'z approval_db_scheme \<Rightarrow> py_error + (string \<times> json) list list" where
  "list_calls_for_task task_id db =
    for_each (\<lambda>c views. and_then (decode_call c) (\<lambda>r. Inr (views @ [public_call r])))
      (sort_key tc_created_at (sql_select (\<lambda>c. tc_task_id c = task_id) (tool_calls db))) []"

section \<open>Claiming a call\<close>

text \<open>The approval that lets this call run with these arguments.\<close>

definition one_shot_grant :: "(string \<Rightarrow> string) \<Rightarrow> string \<Rightarrow> tool_call_row \<Rightarrow> (string \<times> json) list
    \<Rightarrow> 'z approval_db_scheme \<Rightarrow> py_error + bool" where
  "one_shot_grant H approval_id c arguments db =
    (case row_by ap_id approval_id (approvals db) of
       None \<Rightarrow> Inr False
     | Some a \<Rightarrow>
         if ap_status a \<noteq> Approval_Approved \<or> ap_task_id a \<noteq> tc_task_id c \<or> ap_tool_call_id a \<noteq> tc_id c \<or>
           ap_action a \<noteq> tc_tool_name c
         then Inr False
         else and_then (binding_matches H (ap_action_digest a) (tc_id c) (tc_tool_name c) arguments) (\<lambda>bound.
           Inr (bound \<and> cc_valid (consent_context_from_audit H approval_id (tc_task_id c) (tc_id c)
             (ap_action_digest a) (tc_tool_name c) arguments (ap_request_audit_id a)
             (row_by ae_id (ap_request_audit_id a) (audit_events db))))))"

definition grant_checked :: "(string \<Rightarrow> string) \<Rightarrow> executor \<Rightarrow> tool_call_row \<Rightarrow> (string \<times> json) list
    \<Rightarrow> 'z approval_db_scheme \<Rightarrow> py_error + unit" where
  "grant_checked H ex c arguments db =
    and_then (requires_approval ex (tc_tool_name c)) (\<lambda>asks.
      if asks
      then (case tc_approval_id c of
          None \<Rightarrow> Inl (ExecutionConflict ''tool call does not have an approved one-shot grant'')
        | Some approval_id \<Rightarrow> and_then (one_shot_grant H approval_id c arguments db) (\<lambda>ok.
            require ok (ExecutionConflict ''tool call does not match its approved one-shot grant'')))
      else require (tc_approval_id c = None)
        (ExecutionConflict ''read-only tool call unexpectedly has an approval''))"

text \<open>
  The result is the arguments to dispatch: those validated here. \<open>clk1\<close> and \<open>clk2\<close> are the clock at
  the two updates.
\<close>

definition claim_locked :: "(string \<Rightarrow> string) \<Rightarrow> executor \<Rightarrow> 'z approval_db_scheme guards \<Rightarrow> nat \<Rightarrow> nat
    \<Rightarrow> string \<Rightarrow> string \<Rightarrow> string \<Rightarrow> 'z approval_db_scheme
    \<Rightarrow> py_error + ((string \<times> json) list \<times> 'z approval_db_scheme)" where
  "claim_locked H ex g clk1 clk2 call_id task_id tool_name db =
    (case (row_by tc_id call_id (tool_calls db), row_by tk_id task_id (tasks db)) of
       (Some c, Some t) \<Rightarrow>
         if tc_status c \<noteq> Tool_Queued \<or> tk_status t \<noteq> Task_Queued
         then Inl (ExecutionConflict ''tool call is not executable in the current task state'')
         else if \<not> gd_goal_executable g task_id db
         then Inl (ExecutionConflict ''code application goal is no longer executable'')
         else (case json_loads (tc_arguments_json c) of
             None \<Rightarrow> Inl (ExecutionConflict ''tool call arguments are not valid JSON'')
           | Some (JObj arguments) \<Rightarrow>
               if tc_task_id c \<noteq> task_id \<or> tc_tool_name c \<noteq> tool_name
               then Inl (ExecutionConflict ''tool call changed before execution claim'')
               else and_then (grant_checked H ex c arguments db) (\<lambda>_.
                 let P = (\<lambda>x. tc_id x = call_id \<and> tc_status x = Tool_Queued);
                     Q = (\<lambda>x. tk_id x = task_id \<and> tk_status x = Task_Queued)
                 in if sql_rowcount P (tool_calls db) \<noteq> 1 \<or> sql_rowcount Q (tasks db) \<noteq> 1
                    then Inl (ExecutionConflict ''tool call claim lost a concurrent state transition'')
                    else Inr (arguments, db\<lparr>
                      tool_calls := sql_update P (\<lambda>x. x\<lparr>tc_status := Tool_Running,
                        tc_updated_at := isoformat clk1\<rparr>) (tool_calls db),
                      tasks := sql_update Q (\<lambda>x. x\<lparr>tk_status := Task_Running,
                        tk_updated_at := isoformat clk2\<rparr>) (tasks db)\<rparr>))
           | Some _ \<Rightarrow> Inl (ExecutionConflict ''tool call changed before execution claim''))
     | _ \<Rightarrow> Inl (ExecutionConflict ''tool call is not executable in the current task state''))"

definition claim_execution :: "(string \<Rightarrow> string) \<Rightarrow> executor \<Rightarrow> 'z approval_db_scheme guards \<Rightarrow> nat \<Rightarrow> nat
    \<Rightarrow> string \<Rightarrow> string \<Rightarrow> string \<Rightarrow> 'z approval_db_scheme
    \<Rightarrow> (py_error + (string \<times> json) list) \<times> 'z approval_db_scheme" where
  "claim_execution H ex g clk1 clk2 call_id task_id tool_name db =
    transaction (claim_locked H ex g clk1 clk2 call_id task_id tool_name) db"

section \<open>Finishing a call\<close>

definition result_text :: "json option \<Rightarrow> string option" where
  "result_text result = map_option (json_ascii False '', '' '': '') result"

definition task_error_text :: "string \<Rightarrow> string option \<Rightarrow> string option" where
  "task_error_text tool_name error =
    (let task_error = public_tool_error tool_name error
     in if or_empty task_error = [] then None
        else Some (json_ascii False '', '' '': '' (JObj [(''message'', json_opt task_error)])))"

definition read_receipt_binding :: "'z approval_db_scheme guards \<Rightarrow> string \<Rightarrow> string \<Rightarrow> json option
    \<Rightarrow> 'z approval_db_scheme \<Rightarrow> py_error + json option" where
  "read_receipt_binding g call_id task_id result db =
    (case sql_select (\<lambda>c. tc_id c = call_id \<and> tc_task_id c = task_id) (tool_calls db) of
       c # _ \<Rightarrow>
         if tc_tool_name c \<noteq> ''workspace.read_text'' \<or> result = None
         then Inl (ExecutionConflict ''invalid_workspace_read_receipt'')
         else (case (json_loads (tc_arguments_json c), json_loads (or_empty (result_text result))) of
             (Some arguments, Some loaded) \<Rightarrow>
               (case gd_read_binding g task_id arguments loaded call_id db of
                  Inl (ValueError m) \<Rightarrow> Inl (ExecutionConflict ''invalid_workspace_read_receipt'')
                | r \<Rightarrow> r)
           | _ \<Rightarrow> Inl (ExecutionConflict ''invalid_workspace_read_receipt''))
     | [] \<Rightarrow> Inl (ExecutionConflict ''invalid_workspace_read_receipt''))"

definition finish_payload :: "string \<Rightarrow> string \<Rightarrow> bool \<Rightarrow> string option \<Rightarrow> json option \<Rightarrow> json" where
  "finish_payload call_id tool_name completed task_error binding = JObj ([(''tool_call_id'', JStr call_id)] @
    (if completed
     then [(''tool_name'', JStr tool_name)] @ (case binding of None \<Rightarrow> [] | Some b \<Rightarrow> [(''read_receipt_binding'', b)])
     else [(''error'', json_opt task_error), (''durable_status'', JStr ''failed'')]))"

text \<open>
  The two updates, then, when one of them moved no row, a comparison of what is stored with what
  was to be stored. The comparison runs inside the transaction and so reads what the updates wrote.
\<close>

definition finish_locked :: "(string \<Rightarrow> string) \<Rightarrow> 'z approval_db_scheme guards \<Rightarrow> string \<Rightarrow> nat \<Rightarrow> string \<Rightarrow> string
    \<Rightarrow> string \<Rightarrow> bool \<Rightarrow> json option \<Rightarrow> string option \<Rightarrow> 'z approval_db_scheme
    \<Rightarrow> py_error + (unit \<times> 'z approval_db_scheme)" where
  "finish_locked H g fresh clk call_id task_id tool_name completed result error db =
    (let now = isoformat clk;
         task_error_json = task_error_text tool_name error;
         tool_status = (if completed then Tool_Completed else Tool_Failed);
         task_status = (if completed then Task_Completed else Task_Failed);
         P = (\<lambda>c. tc_id c = call_id \<and> tc_task_id c = task_id \<and> tc_status c = Tool_Running);
         Q = (\<lambda>t. tk_id t = task_id \<and> tk_status t = Task_Running);
         db1 = db\<lparr>tool_calls := sql_update P (\<lambda>c. c\<lparr>tc_status := tool_status, tc_result_json := result_text result,
                   tc_error := error, tc_updated_at := now\<rparr>) (tool_calls db),
                 tasks := sql_update Q (\<lambda>t. t\<lparr>tk_status := task_status, tk_updated_at := now,
                   tk_completed_at := Some now, tk_error_json := task_error_json\<rparr>) (tasks db)\<rparr>
     in and_then (if completed \<and> tool_name = ''workspace.read_text''
          then read_receipt_binding g call_id task_id result db else Inr None) (\<lambda>binding.
        if sql_rowcount P (tool_calls db) \<noteq> 1 \<or> sql_rowcount Q (tasks db) \<noteq> 1
        then (case (sql_select (\<lambda>c. tc_id c = call_id \<and> tc_task_id c = task_id) (tool_calls db1),
              row_by tk_id task_id (tasks db1)) of
            (c # _, Some t) \<Rightarrow>
              if tc_status c = tool_status \<and> tc_result_json c = result_text result \<and> tc_error c = error \<and>
                tk_status t = task_status \<and> tk_error_json t = task_error_json
              then Inr ((), db)
              else Inl (ExecutionConflict ''executor could not atomically finish the task and tool call'')
          | _ \<Rightarrow> Inl (ExecutionConflict ''executor could not atomically finish the task and tool call''))
        else Inr ((), snd (append_audit_event H fresh clk (if completed then ''tool.completed'' else ''tool.failed'')
          (finish_payload call_id tool_name completed (public_tool_error tool_name error) binding)
          ''system'' ''control-plane'' (Some task_id) (Some task_id) (Some now) db1))))"

text \<open>
  \<open>_finish\<close>: up to three attempts, \<open>busy n\<close> saying whether the n-th meets an operational error of
  SQLite, which leaves nothing behind.
\<close>

fun finish_attempts :: "(nat \<Rightarrow> bool) \<Rightarrow> nat \<Rightarrow> (nat \<Rightarrow> 'db \<Rightarrow> (py_error + unit) \<times> 'db) \<Rightarrow> nat \<Rightarrow> 'db
    \<Rightarrow> (py_error + unit) \<times> 'db" where
  "finish_attempts busy attempt once 0 db = (Inl (OtherException ''OperationalError''), db)"
| "finish_attempts busy attempt once (Suc left) db =
    (if busy attempt then finish_attempts busy (Suc attempt) once left db else once attempt db)"

definition finish_execution :: "(string \<Rightarrow> string) \<Rightarrow> 'z approval_db_scheme guards \<Rightarrow> (nat \<Rightarrow> string) \<Rightarrow> (nat \<Rightarrow> nat)
    \<Rightarrow> (nat \<Rightarrow> bool) \<Rightarrow> string \<Rightarrow> string \<Rightarrow> string \<Rightarrow> bool \<Rightarrow> json option \<Rightarrow> string option
    \<Rightarrow> 'z approval_db_scheme \<Rightarrow> (py_error + unit) \<times> 'z approval_db_scheme" where
  "finish_execution H g fresh clk busy call_id task_id tool_name completed result error db =
    finish_attempts busy 0 (\<lambda>n. transaction (finish_locked H g (fresh n) (clk n) call_id task_id tool_name
      completed result error)) 3 db"

section \<open>Running a call\<close>

text \<open>\<open>str(exc) or type(exc).__name__\<close>\<close>

fun error_text :: "py_error \<Rightarrow> string" where
  "error_text (OtherException name) = []"
| "error_text (ExecutionError m d) = m"
| "error_text (ExecutionConflict m) = m"
| "error_text (ExecutionOutcomeUncertain m) = m"
| "error_text (ProcessSandboxError m) = m"
| "error_text (PermissionPolicyError m) = m"
| "error_text (ValueError m) = m"
| "error_text (TypeError m) = m"
| "error_text (RuntimeError m) = m"
| "error_text e = exception_name e"

definition failure_message :: "py_error \<Rightarrow> string" where
  "failure_message e = (if error_text e = [] then exception_name e else error_text e)"

text \<open>
  What the process and file system do with a tool and its arguments is \<open>dispatch\<close>; between the
  three transactions, which are the steps 0, 1 and 2, \<open>others\<close> may act. A failure to record the
  outcome is reported as uncertain.
\<close>

record 'db step_env =
  se_fresh :: "nat \<Rightarrow> string"
  se_clock :: "nat \<Rightarrow> nat"
  se_busy :: "nat \<Rightarrow> bool"
  se_others :: "nat \<Rightarrow> 'db \<Rightarrow> 'db"

definition process_failed :: "string \<Rightarrow> (string \<times> json) list \<Rightarrow> bool" where
  "process_failed tool_name result \<longleftrightarrow> tool_name = ''process.run'' \<and> map_of result ''returncode'' \<noteq> Some (JInt 0)"

definition exit_message :: "(string \<times> json) list \<Rightarrow> string" where
  "exit_message result = ''process exited with status '' @ py_str (\<lambda>v. []) (dict_get ''returncode'' JNull result)"

definition uncertain :: "(py_error + unit) \<times> 'db \<Rightarrow> py_error + 'a \<Rightarrow> (py_error + 'a) \<times> 'db" where
  "uncertain finished outcome =
    (case finished of
       (Inl e, db) \<Rightarrow> (Inl (ExecutionOutcomeUncertain ''tool outcome could not be persisted after dispatch''), db)
     | (Inr u, db) \<Rightarrow> (outcome, db))"

definition execute_call :: "(string \<Rightarrow> string) \<Rightarrow> executor \<Rightarrow> 'z approval_db_scheme guards \<Rightarrow> 'z approval_db_scheme step_env
    \<Rightarrow> (string \<Rightarrow> (string \<times> json) list \<Rightarrow> py_error + (string \<times> json) list) \<Rightarrow> string
    \<Rightarrow> 'z approval_db_scheme \<Rightarrow> (py_error + (string \<times> json) list) \<times> 'z approval_db_scheme" where
  "execute_call H ex g env dispatch tool_call_id db =
    (case get_internal tool_call_id db of
       Inl e \<Rightarrow> (Inl e, db)
     | Inr None \<Rightarrow> (Inl (exec_error ''tool call not found''), db)
     | Inr (Some r) \<Rightarrow>
         (let c = cr_row r;
              finish = finish_execution H g (se_fresh env) (\<lambda>n. se_clock env (n + 2)) (se_busy env) (tc_id c)
                (tc_task_id c) (tc_tool_name c)
          in case claim_execution H ex g (se_clock env 0) (se_clock env 1) (tc_id c) (tc_task_id c) (tc_tool_name c)
              (se_others env 0 db) of
            (Inl e, db1) \<Rightarrow> (Inl e, db1)
          | (Inr arguments, db1) \<Rightarrow>
              (let db2 = se_others env 1 db1
               in case dispatch (tc_tool_name c) arguments of
                 Inl e \<Rightarrow> uncertain (finish False None (Some (failure_message e)) db2) (Inl e)
               | Inr result \<Rightarrow>
                   if process_failed (tc_tool_name c) result
                   then uncertain (finish False (Some (JObj result)) (Some (exit_message result)) db2)
                     (Inl (exec_error (exit_message result)))
                   else (case uncertain (finish True (Some (JObj result)) None db2) (Inr ()) of
                       (Inl e, db3) \<Rightarrow> (Inl e, db3)
                     | (Inr u, db3) \<Rightarrow>
                         (let db4 = se_others env 2 db3
                          in (case get_tool_call tool_call_id db4 of
                                Inl e \<Rightarrow> Inl e
                              | Inr None \<Rightarrow> Inl (exec_error ''tool call disappeared after execution'')
                              | Inr (Some v) \<Rightarrow> Inr v, db4))))))"

end
