(* ===== verification/Approval_Safety.thy ===== *)
theory Approval_Safety
  imports Tool_Execution
begin

text \<open>
  What approvals guarantee, over every sequence of the operations of \<open>Approval_Gateway\<close> and
  \<open>Tool_Execution\<close>: a tool that must ask runs only the action that was approved in time, a call
  is claimed once, and a decision is final. Other components may write any table but \<open>approvals\<close>
  and \<open>tool_calls\<close> between two operations; what they cancel there is not part of this model.
\<close>

section \<open>Rows that belong together\<close>

fun agrees :: "approval_status \<Rightarrow> tool_status \<Rightarrow> bool" where
  "agrees Approval_Pending s = (s = Tool_Waiting_Permission)"
| "agrees Approval_Approved s = (s \<in> {Tool_Queued, Tool_Running, Tool_Completed, Tool_Failed})"
| "agrees Approval_Denied s = (s = Tool_Denied)"
| "agrees Approval_Expired s = (s = Tool_Cancelled)"
| "agrees Approval_Cancelled s = (s = Tool_Cancelled)"

definition started :: "tool_status \<Rightarrow> bool" where
  "started s \<longleftrightarrow> s \<in> {Tool_Running, Tool_Completed, Tool_Failed}"

definition decided_in_time :: "approval_row \<Rightarrow> bool" where
  "decided_in_time a \<longleftrightarrow> (\<exists>d. ap_decided_at a = Some d \<and> d < ap_expires_at a)"

text \<open>The arguments stored with the call are those the digest of the approval was made for.\<close>

definition bound_action :: "(string \<Rightarrow> string) \<Rightarrow> approval_row \<Rightarrow> tool_call_row \<Rightarrow> bool" where
  "bound_action H a c \<longleftrightarrow> (\<exists>arguments. json_loads (tc_arguments_json c) = Some (JObj arguments) \<and>
    binding_matches H (ap_action_digest a) (tc_id c) (tc_tool_name c) arguments = Inr True)"

definition pair_ok :: "(string \<Rightarrow> string) \<Rightarrow> approval_row \<Rightarrow> tool_call_row \<Rightarrow> bool" where
  "pair_ok H a c \<longleftrightarrow> tc_approval_id c = Some (ap_id a) \<and> ap_tool_call_id a = tc_id c \<and>
    ap_task_id a = tc_task_id c \<and> ap_action a = tc_tool_name c \<and> agrees (ap_status a) (tc_status c) \<and>
    (ap_status a = Approval_Approved \<longrightarrow> decided_in_time a) \<and> (started (tc_status c) \<longrightarrow> bound_action H a c)"

definition call_ok :: "(string \<Rightarrow> string) \<Rightarrow> executor \<Rightarrow> approval_row sql_table \<Rightarrow> tool_call_row \<Rightarrow> bool" where
  "call_ok H ex t c \<longleftrightarrow>
    (case tc_approval_id c of
       None \<Rightarrow> requires_approval ex (tc_tool_name c) = Inr False
     | Some i \<Rightarrow> requires_approval ex (tc_tool_name c) = Inr True \<and> (\<exists>a. row_by ap_id i t = Some a \<and> pair_ok H a c))"

definition calls_wf :: "(string \<Rightarrow> string) \<Rightarrow> executor \<Rightarrow> 'z approval_db_scheme \<Rightarrow> bool" where
  "calls_wf H ex db \<longleftrightarrow> distinct (map ap_id (approvals db)) \<and> distinct (map tc_id (tool_calls db)) \<and>
    (\<forall>c \<in> set (tool_calls db). \<forall>d \<in> set (tool_calls db).
      tc_approval_id c \<noteq> None \<longrightarrow> tc_approval_id c = tc_approval_id d \<longrightarrow> c = d) \<and>
    (\<forall>c \<in> set (tool_calls db). call_ok H ex (approvals db) c)"

lemma calls_wf_keys:
  "calls_wf H ex db \<Longrightarrow> distinct (map ap_id (approvals db))"
  "calls_wf H ex db \<Longrightarrow> distinct (map tc_id (tool_calls db))"
  by (simp_all add: calls_wf_def)

lemma calls_wf_shared:
  "calls_wf H ex db \<Longrightarrow> c \<in> set (tool_calls db) \<Longrightarrow> d \<in> set (tool_calls db) \<Longrightarrow>
    tc_approval_id c = Some i \<Longrightarrow> tc_approval_id d = Some i \<Longrightarrow> c = d"
  by (fastforce simp: calls_wf_def)

lemma calls_wf_call: "calls_wf H ex db \<Longrightarrow> c \<in> set (tool_calls db) \<Longrightarrow> call_ok H ex (approvals db) c"
  by (simp add: calls_wf_def)

lemma calls_wf_pair:
  assumes "calls_wf H ex db" "c \<in> set (tool_calls db)" "tc_approval_id c = Some i"
  obtains a where "row_by ap_id i (approvals db) = Some a" "a \<in> set (approvals db)" "ap_id a = i" "pair_ok H a c"
  using calls_wf_call [OF assms(1,2)] assms(3) by (auto simp: call_ok_def dest: row_by_SomeD)

text \<open>
  A pair of updates keeps the invariant when it keeps keys and moves a call and its approval
  together.
\<close>

definition keeps_approval :: "(approval_row \<Rightarrow> approval_row) \<Rightarrow> bool" where
  "keeps_approval f \<longleftrightarrow> (\<forall>a. ap_id (f a) = ap_id a \<and> ap_tool_call_id (f a) = ap_tool_call_id a \<and>
    ap_task_id (f a) = ap_task_id a \<and> ap_action (f a) = ap_action a \<and> ap_action_digest (f a) = ap_action_digest a)"

definition keeps_call :: "(tool_call_row \<Rightarrow> tool_call_row) \<Rightarrow> bool" where
  "keeps_call g \<longleftrightarrow> (\<forall>c. tc_id (g c) = tc_id c \<and> tc_task_id (g c) = tc_task_id c \<and>
    tc_tool_name (g c) = tc_tool_name c \<and> tc_arguments_json (g c) = tc_arguments_json c \<and>
    tc_approval_id (g c) = tc_approval_id c)"

lemma bound_action_keeps:
  "keeps_approval f \<Longrightarrow> keeps_call g \<Longrightarrow> bound_action H (f a) (g c) = bound_action H a c"
  by (simp add: bound_action_def keeps_approval_def keeps_call_def)

lemma pair_ok_moves:
  assumes "pair_ok H a c" "keeps_approval f" "keeps_call g"
    and "agrees (ap_status (f a)) (tc_status (g c))"
    and "ap_status (f a) = Approval_Approved \<Longrightarrow> decided_in_time (f a)"
    and "started (tc_status (g c)) \<Longrightarrow> bound_action H a c"
  shows "pair_ok H (f a) (g c)"
  using assms bound_action_keeps [OF assms(2,3), of H a c] by (simp add: pair_ok_def keeps_approval_def keeps_call_def)

lemma calls_wf_update:
  assumes wf: "calls_wf H ex db" and f: "keeps_approval f" and g: "keeps_call g"
    and t: "approvals db' = map f (approvals db)" and u: "tool_calls db' = map g (tool_calls db)"
    and pair: "\<And>a c. a \<in> set (approvals db) \<Longrightarrow> c \<in> set (tool_calls db) \<Longrightarrow> pair_ok H a c \<Longrightarrow> pair_ok H (f a) (g c)"
  shows "calls_wf H ex db'"
proof -
  have keys: "map ap_id (approvals db') = map ap_id (approvals db)" "map tc_id (tool_calls db') = map tc_id (tool_calls db)"
    using f g by (simp_all add: t u keeps_approval_def keeps_call_def)
  have row: "row_by ap_id i (approvals db') = map_option f (row_by ap_id i (approvals db))" for i
    using row_by_sql_update [of "approvals db" "\<lambda>a. True" ap_id f i] f
    by (simp add: t sql_update_def keeps_approval_def)
  have ok: "call_ok H ex (approvals db') (g c)" if c: "c \<in> set (tool_calls db)" for c
  proof (cases "tc_approval_id c")
    case None
    then show ?thesis using calls_wf_call [OF wf c] g by (simp add: call_ok_def keeps_call_def)
  next
    case (Some i)
    from wf c Some obtain a where a: "row_by ap_id i (approvals db) = Some a" "a \<in> set (approvals db)" "pair_ok H a c"
      by (rule calls_wf_pair)
    have r: "requires_approval ex (tc_tool_name c) = Inr True"
      using calls_wf_call [OF wf c] Some by (simp add: call_ok_def)
    show ?thesis using Some a(1) r g row pair [OF a(2) c a(3)] by (simp add: call_ok_def keeps_call_def)
  qed
  have same: "g c = g d" if "c \<in> set (tool_calls db)" "d \<in> set (tool_calls db)"
      "tc_approval_id (g c) = Some i" "tc_approval_id (g d) = Some i" for c d i
    using calls_wf_shared [OF wf that(1,2)] that(3,4) g by (simp add: keeps_call_def)
  show ?thesis
    unfolding calls_wf_def keys using calls_wf_keys [OF wf] ok same by (auto simp: u)
qed

lemma calls_wf_frame:
  "calls_wf H ex db \<Longrightarrow> approvals db' = approvals db \<Longrightarrow> tool_calls db' = tool_calls db \<Longrightarrow> calls_wf H ex db'"
  by (simp only: calls_wf_def) blast

lemma calls_wf_row:
  assumes "calls_wf H ex db" "a \<in> set (approvals db)" "b \<in> set (approvals db)" "ap_id a = ap_id b"
  shows "a = b"
  using assms distinct_key_eq [of ap_id "approvals db" a b] by (simp add: calls_wf_def)

section \<open>Audit events touch no other table\<close>

lemma audit_event_frame [simp]:
  "approvals (snd (append_audit_event H fr clk ty p at ai ti tr cr db)) = approvals db"
  "tool_calls (snd (append_audit_event H fr clk ty p at ai ti tr cr db)) = tool_calls db"
  "tasks (snd (append_audit_event H fr clk ty p at ai ti tr cr db)) = tasks db"
  by (simp_all add: append_audit_event_def Let_def)

section \<open>Each operation keeps the invariant\<close>

definition moved :: "('r \<Rightarrow> bool) \<Rightarrow> ('r \<Rightarrow> 'r) \<Rightarrow> 'r \<Rightarrow> 'r" where
  "moved P f = (\<lambda>r. if P r then f r else r)"

lemma sql_update_moved: "sql_update P f t = map (moved P f) t"
  by (simp add: sql_update_def moved_def)

lemma keeps_approval_moved: "keeps_approval f \<Longrightarrow> keeps_approval (moved P f)"
  by (simp add: keeps_approval_def moved_def)

lemma keeps_call_moved: "keeps_call f \<Longrightarrow> keeps_call (moved P f)"
  by (simp add: keeps_call_def moved_def)

lemma expire_locked_wf:
  assumes wf: "calls_wf H ex db"
  shows "calls_wf H ex (snd (expire_locked H fr clk i t c db))"
proof (cases "sql_rowcount (pending_approval i) (approvals db) = 1")
  case False
  have "sql_rowcount (pending_approval i) (approvals db) \<le> 1"
    by (rule sql_rowcount_le_1 [OF calls_wf_keys(1) [OF wf], of _ i]) (simp add: pending_approval_def)
  with False have "sql_rowcount (pending_approval i) (approvals db) = 0" by simp
  note none = this sql_update_none [OF this]
  show ?thesis
    by (rule calls_wf_frame [OF wf]) (simp_all add: expire_locked_def Let_def none)
next
  case True
  define f :: "approval_row \<Rightarrow> approval_row" where "f = (\<lambda>a. a\<lparr>ap_status := Approval_Expired, ap_decided_at := Some (isoformat clk)\<rparr>)"
  define g :: "tool_call_row \<Rightarrow> tool_call_row" where "g = (\<lambda>c. c\<lparr>tc_status := Tool_Cancelled, tc_updated_at := isoformat clk\<rparr>)"
  have k: "keeps_approval f" "keeps_call g" by (simp_all add: keeps_approval_def keeps_call_def f_def g_def)
  show ?thesis
  proof (rule calls_wf_update [OF wf keeps_approval_moved [OF k(1), of "pending_approval i"]
        keeps_call_moved [OF k(2), of "waiting_call i"]])
    fix a c
    assume p: "pair_ok H a c"
    have same: "pending_approval i a \<longleftrightarrow> waiting_call i c"
      using p by (cases "ap_status a") (auto simp: pair_ok_def pending_approval_def waiting_call_def)
    show "pair_ok H (moved (pending_approval i) f a) (moved (waiting_call i) g c)"
    proof (cases "pending_approval i a")
      case True
      then show ?thesis
        using same by (simp add: moved_def) (rule pair_ok_moves [OF p k], simp_all add: f_def g_def started_def)
    next
      case False
      then show ?thesis using same p by (simp add: moved_def)
    qed
  qed (use True in \<open>simp_all add: expire_locked_def Let_def sql_update_moved f_def g_def\<close>)
qed

lemma expire_rows_wf: "calls_wf H ex db \<Longrightarrow> calls_wf H ex (expire_rows H fresh clk rows db)"
  by (induction H fresh clk rows db rule: expire_rows.induct) (simp_all add: expire_locked_wf)

lemma expire_pending_wf: "calls_wf H ex db \<Longrightarrow> calls_wf H ex (expire_pending H fresh clk db)"
  by (simp add: expire_pending_def expire_rows_wf)

text \<open>What a committed decision wrote.\<close>

definition decided_approval :: "string \<Rightarrow> string \<Rightarrow> string option \<Rightarrow> string \<Rightarrow> approval_row \<Rightarrow> approval_row" where
  "decided_approval decision actor_id user_note now a = a\<lparr>
    ap_status := if decision = ''approve'' then Approval_Approved else Approval_Denied, ap_decided_at := Some now,
    ap_decision_json := Some (decision_json decision actor_id user_note)\<rparr>"

definition decided_call :: "string \<Rightarrow> string \<Rightarrow> tool_call_row \<Rightarrow> tool_call_row" where
  "decided_call decision now c = c\<lparr>tc_status := if decision = ''approve'' then Tool_Queued else Tool_Denied,
    tc_updated_at := now\<rparr>"

definition decided_task :: "string \<Rightarrow> string \<Rightarrow> task_row \<Rightarrow> task_row" where
  "decided_task decision now t = t\<lparr>tk_status := if decision = ''approve'' then Task_Queued else Task_Blocked,
    tk_updated_at := now\<rparr>"

lemma decide_locked_Inr:
  assumes "decide_locked H fresh clk i d actor note tid task db = Inr db'"
  defines "P \<equiv> \<lambda>a. pending_approval i a \<and> isoformat clk < ap_expires_at a"
    and "Q \<equiv> \<lambda>c. tc_id c = tid \<and> waiting_call i c"
  shows "sql_rowcount P (approvals db) = 1" "sql_rowcount Q (tool_calls db) = 1"
    "sql_rowcount (waiting_task task) (tasks db) = 1"
    "approvals db' = sql_update P (decided_approval d actor note (isoformat clk)) (approvals db)"
    "tool_calls db' = sql_update Q (decided_call d (isoformat clk)) (tool_calls db)"
    "tasks db' = sql_update (waiting_task task) (decided_task d (isoformat clk)) (tasks db)"
  using assms(1) unfolding P_def Q_def decide_locked_def Let_def decided_approval_def [abs_def]
    decided_call_def [abs_def] decided_task_def [abs_def]
  by (auto split: if_split_asm)

lemma sql_rowcount_1_ex: "sql_rowcount P t = 1 \<Longrightarrow> \<exists>r \<in> set t. P r"
  using sql_rowcount_0_iff [of P t] by auto

lemma decide_locked_wf:
  assumes wf: "calls_wf H ex db"
    and run: "decide_locked H fresh clk i d actor note tid task db = Inr db'"
  shows "calls_wf H ex db'"
proof -
  let ?now = "isoformat clk"
  let ?P = "\<lambda>a. pending_approval i a \<and> ?now < ap_expires_at a"
  let ?Q = "\<lambda>c. tc_id c = tid \<and> waiting_call i c"
  note r = decide_locked_Inr [OF run]
  have k: "keeps_approval (decided_approval d actor note ?now)" "keeps_call (decided_call d ?now)"
    by (simp_all add: keeps_approval_def keeps_call_def decided_approval_def decided_call_def)
  obtain a0 where a0: "a0 \<in> set (approvals db)" "?P a0" using sql_rowcount_1_ex [OF r(1)] by blast
  obtain c0 where c0: "c0 \<in> set (tool_calls db)" "?Q c0" using sql_rowcount_1_ex [OF r(2)] by blast
  show ?thesis
  proof (rule calls_wf_update [OF wf keeps_approval_moved [OF k(1), of ?P] keeps_call_moved [OF k(2), of ?Q]])
    show "approvals db' = map (moved ?P (decided_approval d actor note ?now)) (approvals db)"
      "tool_calls db' = map (moved ?Q (decided_call d ?now)) (tool_calls db)"
      by (simp_all only: r(4,5) sql_update_moved)
    fix a c
    assume m: "a \<in> set (approvals db)" "c \<in> set (tool_calls db)" and p: "pair_ok H a c"
    have pq: "?P a \<longleftrightarrow> ?Q c"
    proof
      assume a: "?P a"
      then have w: "waiting_call i c"
        using p by (cases "ap_status a") (auto simp: pair_ok_def pending_approval_def waiting_call_def)
      then have "c = c0" using calls_wf_shared [OF wf m(2) c0(1), of i] c0(2) by (simp add: waiting_call_def)
      then show "?Q c" using c0(2) by simp
    next
      assume c: "?Q c"
      then have "pending_approval i a"
        using p by (cases "ap_status a") (auto simp: pair_ok_def pending_approval_def waiting_call_def)
      moreover from this have "a = a0"
        using a0 by (intro calls_wf_row [OF wf m(1)]) (simp_all add: pending_approval_def)
      ultimately show "?P a" using a0(2) by simp
    qed
    show "pair_ok H (moved ?P (decided_approval d actor note ?now) a) (moved ?Q (decided_call d ?now) c)"
    proof (cases "?P a")
      case True
      then have mv: "moved ?P (decided_approval d actor note ?now) a = decided_approval d actor note ?now a"
        "moved ?Q (decided_call d ?now) c = decided_call d ?now c"
        using pq by (simp_all add: moved_def)
      show ?thesis
        unfolding mv
        by (rule pair_ok_moves [OF p k])
          (use True in \<open>simp_all add: decided_approval_def decided_call_def started_def decided_in_time_def split: if_split_asm\<close>)
    next
      case False
      then have "\<not> ?Q c" using pq by blast
      then have "moved ?P (decided_approval d actor note ?now) a = a" "moved ?Q (decided_call d ?now) c = c"
        by (simp_all only: moved_def False if_False)
      then show ?thesis using p by simp
    qed
  qed
qed

lemma decide_transaction_cases:
  assumes "decide_transaction H fresh clk i d actor note db = (r, db')"
  obtains (unchanged) "db' = db" "r \<noteq> Inr True"
  | (expired) a where "row_by ap_id i (approvals db) = Some a" "ap_status a = Approval_Pending"
      "ap_expires_at a \<le> isoformat clk" "r = Inl (ApprovalConflict ''approval expired'')"
      "db' = snd (expire_locked H (fresh 0) clk (ap_id a) (ap_task_id a)
        (if ap_tool_call_id a = [] then None else Some (ap_tool_call_id a)) db)"
      "fst (expire_locked H (fresh 0) clk (ap_id a) (ap_task_id a)
        (if ap_tool_call_id a = [] then None else Some (ap_tool_call_id a)) db)"
  | (decided) a v c t where "row_by ap_id i (approvals db) = Some a" "view_approval H db a = Inr v"
      "ap_status a = Approval_Pending" "isoformat clk < ap_expires_at a" "av_binding_valid v"
      "av_consent_context_valid v" "row_by tc_approval_id (Some i) (tool_calls db) = Some c"
      "row_by tk_id (ap_task_id a) (tasks db) = Some t" "tc_status c = Tool_Waiting_Permission"
      "tk_status t = Task_Waiting_Permission" "r = Inr True"
      "decide_locked H fresh clk i d actor note (tc_id c) (ap_task_id a) db = Inr db'"
proof (cases "row_by ap_id i (approvals db)")
  case None
  then show ?thesis using assms by (intro unchanged) (auto simp: decide_transaction_def)
next
  case (Some a)
  note a = this
  show ?thesis
  proof (cases "view_approval H db a")
    case (Inl e)
    then show ?thesis using assms a by (intro unchanged) (auto simp: decide_transaction_def)
  next
    case (Inr v)
    note run = assms [unfolded decide_transaction_def a option.case Inr sum.case]
    consider (closed) "ap_status a \<noteq> Approval_Pending"
      | (late) "ap_status a = Approval_Pending" "ap_expires_at a \<le> isoformat clk"
      | (unbound) "ap_status a = Approval_Pending" "isoformat clk < ap_expires_at a"
          "\<not> av_binding_valid v \<or> \<not> av_consent_context_valid v"
      | (ready) "ap_status a = Approval_Pending" "isoformat clk < ap_expires_at a"
          "av_binding_valid v" "av_consent_context_valid v"
      by fastforce
    then show ?thesis
    proof cases
      case closed
      then show ?thesis using run by (intro unchanged) auto
    next
      case late
      obtain b db1 where e: "expire_locked H (fresh 0) clk (ap_id a) (ap_task_id a)
          (if ap_tool_call_id a = [] then None else Some (ap_tool_call_id a)) db = (b, db1)" by fastforce
      show ?thesis
      proof (cases b)
        case True
        then show ?thesis using run e late by (intro expired [OF a late]) simp_all
      next
        case False
        then show ?thesis using run e late by (intro unchanged) auto
      qed
    next
      case unbound
      then show ?thesis using run by (intro unchanged) (auto simp: leD split: if_split_asm)
    next
      case ready
      have nl: "(ap_expires_at a \<le> isoformat clk) = False" using ready(2) by (simp add: not_le)
      note go = run [unfolded nl ready(1) ready(3,4) [THEN eqTrueI] simp_thms if_True if_False]
      show ?thesis
      proof (cases "row_by tc_approval_id (Some i) (tool_calls db)")
        case None
        then show ?thesis using go ready by (intro unchanged) auto
      next
        case (Some c)
        show ?thesis
        proof (cases "row_by tk_id (ap_task_id a) (tasks db)")
          case None
          then show ?thesis using go ready Some by (intro unchanged) auto
        next
          case t: (Some t)
          show ?thesis
            using go ready Some t decided [OF a Inr ready Some t] unchanged
            by (auto split: if_split_asm sum.split_asm)
        qed
      qed
    qed
  qed
qed

lemma decide_transaction_wf:
  assumes wf: "calls_wf H ex db"
  shows "calls_wf H ex (snd (decide_transaction H fresh clk i d actor note db))"
proof -
  obtain r db' where run: "decide_transaction H fresh clk i d actor note db = (r, db')" by fastforce
  from run have "calls_wf H ex db'"
  proof (cases rule: decide_transaction_cases)
    case unchanged
    then show ?thesis using wf by simp
  next
    case (expired a)
    then show ?thesis using expire_locked_wf [OF wf] by simp
  next
    case (decided a v c t)
    then show ?thesis by (intro decide_locked_wf [OF wf])
  qed
  then show ?thesis by (simp add: run)
qed

lemma one_shot_grant_True:
  assumes "one_shot_grant H i c arguments db = Inr True"
  obtains a where "row_by ap_id i (approvals db) = Some a" "ap_status a = Approval_Approved"
    "binding_matches H (ap_action_digest a) (tc_id c) (tc_tool_name c) arguments = Inr True"
  using assms by (auto simp: one_shot_grant_def and_then_Inr_iff split: option.split_asm if_split_asm)

lemma claim_locked_Inr:
  assumes "claim_locked H ex g clk1 clk2 cid tid name db = Inr (arguments, db')"
  defines "P \<equiv> \<lambda>x. tc_id x = cid \<and> tc_status x = Tool_Queued"
  obtains c t where "row_by tc_id cid (tool_calls db) = Some c" "row_by tk_id tid (tasks db) = Some t"
    "tc_status c = Tool_Queued" "tc_task_id c = tid" "tc_tool_name c = name"
    "json_loads (tc_arguments_json c) = Some (JObj arguments)" "grant_checked H ex c arguments db = Inr ()"
    "approvals db' = approvals db"
    "tool_calls db' = sql_update P (\<lambda>x. x\<lparr>tc_status := Tool_Running, tc_updated_at := isoformat clk1\<rparr>) (tool_calls db)"
    "audit_events db' = audit_events db"
  using assms(1) unfolding P_def claim_locked_def
  by (auto simp: Let_def split: option.split_asm if_split_asm json.split_asm)

lemma claim_execution_wf:
  assumes wf: "calls_wf H ex db"
  shows "calls_wf H ex (snd (claim_execution H ex g clk1 clk2 cid tid name db))"
  unfolding claim_execution_def
proof (rule transaction_preserves [where P = "calls_wf H ex", OF wf])
  fix arguments db'
  assume run: "claim_locked H ex g clk1 clk2 cid tid name db = Inr (arguments, db')"
  let ?P = "\<lambda>x. tc_id x = cid \<and> tc_status x = Tool_Queued"
  let ?f = "\<lambda>x. x\<lparr>tc_status := Tool_Running, tc_updated_at := isoformat clk1\<rparr>"
  obtain c where c: "row_by tc_id cid (tool_calls db) = Some c"
    "json_loads (tc_arguments_json c) = Some (JObj arguments)" "grant_checked H ex c arguments db = Inr ()"
    and db': "approvals db' = approvals db" "tool_calls db' = sql_update ?P ?f (tool_calls db)"
    by (rule claim_locked_Inr [OF run])
  have k: "keeps_approval (\<lambda>a. a)" "keeps_call ?f" by (simp_all add: keeps_approval_def keeps_call_def)
  show "calls_wf H ex db'"
  proof (rule calls_wf_update [OF wf k(1) keeps_call_moved [OF k(2), of ?P]])
    show "approvals db' = map (\<lambda>a. a) (approvals db)" by (simp add: db')
    show "tool_calls db' = map (moved ?P ?f) (tool_calls db)" by (simp only: db' sql_update_moved)
    fix a x
    assume m: "a \<in> set (approvals db)" "x \<in> set (tool_calls db)" and p: "pair_ok H a x"
    show "pair_ok H a (moved ?P ?f x)"
    proof (cases "?P x")
      case True
      have x: "x = c"
        using row_by_SomeD [OF c(1)] True by (intro distinct_key_eq [OF calls_wf_keys(2) [OF wf] m(2)]) simp_all
      have i: "tc_approval_id c = Some (ap_id a)" using p x by (simp add: pair_ok_def)
      have "requires_approval ex (tc_tool_name c) = Inr True"
        using calls_wf_call [OF wf m(2)] i x by (simp add: call_ok_def)
      then have "one_shot_grant H (ap_id a) c arguments db = Inr True"
        using c(3) i by (auto simp: grant_checked_def and_then_Inr_iff require_Inr_iff)
      then obtain b where "row_by ap_id (ap_id a) (approvals db) = Some b" and
        bound: "binding_matches H (ap_action_digest b) (tc_id c) (tc_tool_name c) arguments = Inr True"
        by (rule one_shot_grant_True)
      then have "b = a" using calls_wf_row [OF wf _ m(1)] row_by_SomeD by metis
      then have "bound_action H a x" using bound c(2) x by (auto simp: bound_action_def)
      moreover have "ap_status a = Approval_Approved"
        using p True by (cases "ap_status a") (simp_all add: pair_ok_def)
      moreover have "moved ?P ?f x = ?f x" using True by (simp add: moved_def)
      ultimately show ?thesis
        using pair_ok_moves [OF p k, folded] p by (simp add: pair_ok_def bound_action_def)
    next
      case False
      then have "moved ?P ?f x = x" by (simp only: moved_def if_False)
      then show ?thesis using p by simp
    qed
  qed
qed

definition finished_call :: "bool \<Rightarrow> json option \<Rightarrow> string option \<Rightarrow> string \<Rightarrow> tool_call_row \<Rightarrow> tool_call_row" where
  "finished_call completed result error now c = c\<lparr>tc_status := if completed then Tool_Completed else Tool_Failed,
    tc_result_json := result_text result, tc_error := error, tc_updated_at := now\<rparr>"

definition running_call :: "string \<Rightarrow> string \<Rightarrow> tool_call_row \<Rightarrow> bool" where
  "running_call cid tid c \<longleftrightarrow> tc_id c = cid \<and> tc_task_id c = tid \<and> tc_status c = Tool_Running"

lemma finish_locked_cases:
  assumes "finish_locked H g fresh clk cid tid name completed result error db = Inr (u, db')"
  obtains (same) "db' = db"
  | (wrote) "approvals db' = approvals db"
      "tool_calls db' = sql_update (running_call cid tid) (finished_call completed result error (isoformat clk)) (tool_calls db)"
  using assms unfolding finish_locked_def running_call_def [abs_def] finished_call_def [abs_def]
  by (auto simp: Let_def split: if_split_asm option.split_asm list.split_asm)

lemma finish_locked_wf:
  assumes wf: "calls_wf H ex db"
    and run: "finish_locked H g fresh clk cid tid name completed result error db = Inr (u, db')"
  shows "calls_wf H ex db'"
  using run
proof (cases rule: finish_locked_cases)
  case same
  then show ?thesis using wf by simp
next
  case wrote
  let ?f = "finished_call completed result error (isoformat clk)"
  have k: "keeps_approval (\<lambda>a. a)" "keeps_call ?f"
    by (simp_all add: keeps_approval_def keeps_call_def finished_call_def)
  show ?thesis
  proof (rule calls_wf_update [OF wf k(1) keeps_call_moved [OF k(2), of "running_call cid tid"]])
    show "approvals db' = map (\<lambda>a. a) (approvals db)" by (simp add: wrote)
    show "tool_calls db' = map (moved (running_call cid tid) ?f) (tool_calls db)" by (simp only: wrote sql_update_moved)
    fix a c
    assume p: "pair_ok H a c"
    show "pair_ok H a (moved (running_call cid tid) ?f c)"
      using p by (cases "ap_status a")
        (auto simp: pair_ok_def moved_def started_def bound_action_def running_call_def finished_call_def)
  qed
qed

lemma finish_attempts_preserves:
  assumes "P db" and "\<And>n db. P db \<Longrightarrow> P (snd (once n db))"
  shows "P (snd (finish_attempts busy n once k db))"
  using assms(1) by (induction k arbitrary: n) (simp_all add: assms(2))

lemma finish_execution_wf:
  "calls_wf H ex db \<Longrightarrow>
    calls_wf H ex (snd (finish_execution H g fresh clk busy cid tid name completed result error db))"
  unfolding finish_execution_def
  by (erule finish_attempts_preserves) (rule transaction_preserves [where P = "calls_wf H ex"], assumption, rule finish_locked_wf)

text \<open>The caller's guards write neither table.\<close>

definition guards_frame :: "'z approval_db_scheme guards \<Rightarrow> bool" where
  "guards_frame g \<longleftrightarrow> (\<forall>db db'. gd_acceptance g db = Inr db' \<longrightarrow>
      approvals db' = approvals db \<and> tool_calls db' = tool_calls db) \<and>
    (\<forall>i db db'. gd_local_context g i db = Inr db' \<longrightarrow> approvals db' = approvals db \<and> tool_calls db' = tool_calls db)"

lemma insert_tool_call_Inr:
  "insert_tool_call c db = Inr db' \<longleftrightarrow> tc_id c \<notin> set (map tc_id (tool_calls db)) \<and>
    (tc_approval_id c \<noteq> None \<longrightarrow> tc_approval_id c \<notin> set (map tc_approval_id (tool_calls db))) \<and>
    db' = db\<lparr>tool_calls := tool_calls db @ [c]\<rparr>"
  by (auto simp: insert_tool_call_def)

lemma request_approval_Inr:
  assumes "request_approval H fr created aid task cid name dg rq rule args db = Inr db'"
  obtains a where "approvals db' = approvals db @ [a]" "ap_id a \<notin> set (map ap_id (approvals db))"
    "tool_calls db' = tool_calls db" "ap_id a = aid" "ap_tool_call_id a = cid" "ap_task_id a = task"
    "ap_action a = name" "ap_status a = Approval_Pending" "ap_action_digest a = dg"
proof -
  define ae where "ae = append_audit_event H fr created ''approval.requested''
    (request_payload aid task cid name dg rq rule args) (rq_type rq) (rq_id rq) (Some task) (Some task)
    (Some (isoformat created)) db"
  have fr: "approvals (snd ae) = approvals db" "tool_calls (snd ae) = tool_calls db" by (simp_all add: ae_def)
  show ?thesis
    using assms unfolding request_approval_def Let_def ae_def [symmetric]
    by (cases ae) (use fr that in \<open>auto simp: insert_approval_def and_then_Inr_iff split: option.split_asm if_split_asm\<close>)
qed

lemma propose_locked_Inr:
  assumes g: "guards_frame g"
    and run: "propose_locked H g fr created aid task cid name rq rule args dg db0 = Inr (call, db')"
  obtains (asks) a where "tr_decision rule = ''ask''" "approvals db' = approvals db0 @ [a]"
      "ap_id a \<notin> set (map ap_id (approvals db0))" "ap_status a = Approval_Pending" "pair_ok H a call"
      "ap_action_digest a = dg"
      "tool_calls db' = tool_calls db0 @ [call]" "tc_id call \<notin> set (map tc_id (tool_calls db0))"
      "tc_approval_id call \<notin> set (map tc_approval_id (tool_calls db0))" "tc_tool_name call = name"
  | (free) "tr_decision rule \<noteq> ''ask''" "approvals db' = approvals db0" "tc_approval_id call = None"
      "tool_calls db' = tool_calls db0 @ [call]" "tc_id call \<notin> set (map tc_id (tool_calls db0))"
      "tc_tool_name call = name"
proof -
  let ?asks = "tr_decision rule = ''ask''"
  obtain db1 db db2 db3 where
    d1: "gd_acceptance g db0 = Inr db1" "gd_local_context g cid db1 = Inr db" and
    d2: "(if ?asks then request_approval H fr created aid task cid name dg rq rule args db else Inr db) = Inr db2" and
    call: "call = \<lparr>tc_id = cid, tc_task_id = task, tc_tool_name = name,
      tc_arguments_json = stored_json (JObj args), tc_summary = public_tool_summary name, tc_risk = tr_risk rule,
      tc_status = if ?asks then Tool_Waiting_Permission else Tool_Queued,
      tc_approval_id = if ?asks then Some aid else None, tc_result_json = None, tc_error = None,
      tc_created_at = isoformat created, tc_updated_at = isoformat created\<rparr>" and
    d3: "insert_tool_call call db2 = Inr db3" and
    d4: "approvals db' = approvals db3" "tool_calls db' = tool_calls db3"
    using run unfolding propose_locked_def Let_def
    by (elim and_then_InrE) (auto split: option.split_asm if_split_asm elim!: and_then_InrE)
  have fr: "approvals db = approvals db0" "tool_calls db = tool_calls db0"
    using g d1 unfolding guards_frame_def by metis+
  note i = d3 [unfolded insert_tool_call_Inr]
  show ?thesis
  proof (cases ?asks)
    case True
    then have "request_approval H fr created aid task cid name dg rq rule args db = Inr db2" using d2 by simp
    then obtain a where a: "approvals db2 = approvals db @ [a]" "ap_id a \<notin> set (map ap_id (approvals db))"
      "tool_calls db2 = tool_calls db" "ap_id a = aid" "ap_tool_call_id a = cid" "ap_task_id a = task"
      "ap_action a = name" "ap_status a = Approval_Pending" "ap_action_digest a = dg"
      by (rule request_approval_Inr)
    show ?thesis
      by (rule asks [OF True, of a]) (use a i d4 fr True call in \<open>simp_all add: pair_ok_def started_def\<close>)
  next
    case False
    then have "db2 = db" using d2 by simp
    then show ?thesis by (intro free) (use i d4 fr False call in simp_all)
  qed
qed

lemma create_tool_call_cases:
  assumes "create_tool_call H ex g fresh created task name args summary rq db = (r, db')"
  obtains (unchanged) e where "r = Inl e" "db' = db"
  | (created) rule dg call where "validate_arguments ex name args = Inr ()"
      "evaluate_tool (ex_policy ex) name = Inr rule" "tr_decision rule \<noteq> ''deny''"
      "tr_decision rule = ''ask'' \<Longrightarrow> canonical_action_digest H (''call_'' @ fresh 1) name args = Inr dg"
      "propose_locked H g (fresh 2) created (''apr_'' @ fresh 0) task (''call_'' @ fresh 1) name rq rule args dg db =
        Inr (call, db')"
      "r = Inr (public_call \<lparr>cr_row = call, cr_arguments = JObj args, cr_result = JNull\<rparr>)"
proof -
  define pre where "pre = and_then (validate_arguments ex name args) (\<lambda>_.
           and_then (evaluate_tool (ex_policy ex) name) (\<lambda>rule.
           and_then (require (tr_decision rule \<noteq> ''deny'')
             (ExecutionError (''tool denied by policy rule '' @ tr_id rule) ''policy_denied'')) (\<lambda>_.
           and_then (if tr_decision rule = ''ask''
              then (case canonical_action_digest H (''call_'' @ fresh 1) name args of
                  Inl e \<Rightarrow> Inl (exec_error ''approval binding requires a call id, tool name, and arguments'')
                | Inr d \<Rightarrow> Inr d)
              else Inr []) (\<lambda>digest.
           and_then (require (summary \<noteq> []) (exec_error ''tool proposal summary is required'')) (\<lambda>_.
             Inr (rule, digest))))))"
  note run = assms [unfolded create_tool_call_def Let_def, folded pre_def]
  show ?thesis
  proof (cases pre)
    case (Inl e)
    then show ?thesis using run by (intro unchanged) auto
  next
    case (Inr p)
    obtain rule dg where p: "p = (rule, dg)" by fastforce
    have v: "validate_arguments ex name args = Inr ()" and e: "evaluate_tool (ex_policy ex) name = Inr rule"
      and d: "tr_decision rule \<noteq> ''deny''" and
      c: "(if tr_decision rule = ''ask'' then (case canonical_action_digest H (''call_'' @ fresh 1) name args of
                  Inl e \<Rightarrow> Inl (exec_error ''approval binding requires a call id, tool name, and arguments'')
                | Inr d \<Rightarrow> Inr d) else Inr []) = Inr dg"
      using Inr unfolding pre_def p by (auto simp only: and_then_Inr_iff require_Inr_iff sum.inject prod.inject) simp
    show ?thesis
    proof (cases "propose_locked H g (fresh 2) created (''apr_'' @ fresh 0) task (''call_'' @ fresh 1) name rq rule args dg db")
      case (Inl e)
      then show ?thesis using run Inr p by (intro unchanged [of e]) (simp_all add: \<open>pre = Inr p\<close> transaction_def)
    next
      case (Inr q)
      obtain call db1 where q: "q = (call, db1)" by fastforce
      have r: "db' = db1" "r = Inr (public_call \<lparr>cr_row = call, cr_arguments = JObj args, cr_result = JNull\<rparr>)"
        using run Inr q p \<open>pre = Inr p\<close> by (simp_all add: transaction_def)
      show ?thesis
        by (rule created [OF v e d _ _ r(2)]) (use c Inr q r in \<open>auto split: sum.split_asm\<close>)
    qed
  qed
qed

lemma validate_arguments_tool: "validate_arguments ex name args = Inr () \<Longrightarrow> validate_tool name = Inr ()"
  by (auto simp: validate_arguments_def)

lemma row_by_append_old: "row_by key k t = Some x \<Longrightarrow> row_by key k (t @ [r]) = Some x"
  by (simp only: row_by_append option.case)

lemma row_by_append_new: "row_by key (key r) t = None \<Longrightarrow> row_by key (key r) (t @ [r]) = Some r"
  by (simp only: row_by_append option.case simp_thms if_True)

lemma call_ok_append: "call_ok H ex t c \<Longrightarrow> call_ok H ex (t @ [a]) c"
  by (cases "tc_approval_id c") (auto simp: call_ok_def dest: row_by_append_old simp del: sql_select_append)

lemma create_tool_call_wf:
  assumes wf: "calls_wf H ex db" and g: "guards_frame g"
  shows "calls_wf H ex (snd (create_tool_call H ex g fresh created task name args summary rq db))"
proof -
  obtain r db' where run: "create_tool_call H ex g fresh created task name args summary rq db = (r, db')" by fastforce
  from run have "calls_wf H ex db'"
  proof (cases rule: create_tool_call_cases)
    case unchanged
    then show ?thesis using wf by simp
  next
    case (created rule dg call)
    have req: "requires_approval ex name = Inr (tr_decision rule = ''ask'')"
      using validate_arguments_tool [OF created(1)] created(2) by (simp add: requires_approval_def)
    note keys = calls_wf_keys [OF wf]
    from created(5) show ?thesis
    proof (rule propose_locked_Inr [OF g])
      fix a
      assume a: "tr_decision rule = ''ask''" "approvals db' = approvals db @ [a]"
        "ap_id a \<notin> set (map ap_id (approvals db))" "pair_ok H a call" "tool_calls db' = tool_calls db @ [call]"
        "tc_id call \<notin> set (map tc_id (tool_calls db))"
        "tc_approval_id call \<notin> set (map tc_approval_id (tool_calls db))" "tc_tool_name call = name"
      have old: "call_ok H ex (approvals db') c" if c: "c \<in> set (tool_calls db)" for c
        unfolding a(2) by (rule call_ok_append [OF calls_wf_call [OF wf c]])
      have "row_by ap_id (ap_id a) (approvals db) = None" unfolding row_by_None_iff using a(3) by simp
      note row_by_append_new [OF this]
      moreover have "tc_approval_id call = Some (ap_id a)" using a(4) by (simp add: pair_ok_def)
      ultimately have new: "call_ok H ex (approvals db') call"
        using a(1,2,4,8) req by (simp add: call_ok_def del: sql_select_append)
      have shared: "c = d" if "c \<in> set (tool_calls db')" "d \<in> set (tool_calls db')" "tc_approval_id c = Some i"
          "tc_approval_id d = Some i" for c d i
        using that calls_wf_shared [OF wf, of c d i] a(5,7) by (auto simp: image_iff)
      show ?thesis unfolding calls_wf_def using keys old new shared a by fastforce
    next
      assume a: "tr_decision rule \<noteq> ''ask''" "approvals db' = approvals db" "tc_approval_id call = None"
        "tool_calls db' = tool_calls db @ [call]" "tc_id call \<notin> set (map tc_id (tool_calls db))"
        "tc_tool_name call = name"
      have old: "call_ok H ex (approvals db') c" if c: "c \<in> set (tool_calls db)" for c
        using calls_wf_call [OF wf c] by (simp add: a(2))
      have new: "call_ok H ex (approvals db') call" using a req by (simp add: call_ok_def)
      have shared: "c = d" if "c \<in> set (tool_calls db')" "d \<in> set (tool_calls db')" "tc_approval_id c = Some i"
          "tc_approval_id d = Some i" for c d i
        using that calls_wf_shared [OF wf, of c d i] a(3,4) by auto
      show ?thesis unfolding calls_wf_def using keys old new shared a by fastforce
    qed
  qed
  then show ?thesis by (simp add: run)
qed

section \<open>Every run of the gateway and the executor\<close>

text \<open>
  One step is a transaction of one operation, whatever its outcome, or anything another component
  does outside the two tables.
\<close>

inductive gateway_step :: "(string \<Rightarrow> string) \<Rightarrow> executor \<Rightarrow> 'z approval_db_scheme \<Rightarrow> 'z approval_db_scheme \<Rightarrow> bool"
    for H ex where
  create: "guards_frame g \<Longrightarrow>
    gateway_step H ex db (snd (create_tool_call H ex g fresh created task name args summary rq db))"
| decide: "gateway_step H ex db (snd (decide_transaction H fresh clk i decision actor note db))"
| expire: "gateway_step H ex db (expire_pending H fresh clk db)"
| claim: "gateway_step H ex db (snd (claim_execution H ex g clk1 clk2 cid tid name db))"
| finish: "gateway_step H ex db
    (snd (finish_execution H g fresh clk busy cid tid name completed result error db))"
| elsewhere: "approvals db' = approvals db \<Longrightarrow> tool_calls db' = tool_calls db \<Longrightarrow> gateway_step H ex db db'"

lemma gateway_step_wf: "gateway_step H ex db db' \<Longrightarrow> calls_wf H ex db \<Longrightarrow> calls_wf H ex db'"
  by (induction rule: gateway_step.induct)
    (auto intro: create_tool_call_wf decide_transaction_wf expire_pending_wf claim_execution_wf
      finish_execution_wf calls_wf_frame)

lemma gateway_steps_wf: "(gateway_step H ex)\<^sup>*\<^sup>* db db' \<Longrightarrow> calls_wf H ex db \<Longrightarrow> calls_wf H ex db'"
  by (induction rule: rtranclp_induct) (auto intro: gateway_step_wf)

section \<open>Rows only move forward\<close>

fun rank :: "tool_status \<Rightarrow> nat" where
  "rank Tool_Waiting_Permission = 0"
| "rank Tool_Queued = 1"
| "rank Tool_Running = 2"
| "rank s = 3"

definition approval_evolves :: "approval_row \<Rightarrow> approval_row \<Rightarrow> bool" where
  "approval_evolves a a' \<longleftrightarrow> ap_id a' = ap_id a \<and> (ap_status a \<noteq> Approval_Pending \<longrightarrow> a' = a)"

definition call_evolves :: "tool_call_row \<Rightarrow> tool_call_row \<Rightarrow> bool" where
  "call_evolves c c' \<longleftrightarrow> tc_id c' = tc_id c \<and> tc_task_id c' = tc_task_id c \<and> tc_tool_name c' = tc_tool_name c \<and>
    tc_arguments_json c' = tc_arguments_json c \<and> tc_approval_id c' = tc_approval_id c \<and>
    (c' = c \<or> rank (tc_status c) < rank (tc_status c'))"

definition all_evolve :: "('r \<Rightarrow> 'r \<Rightarrow> bool) \<Rightarrow> 'r sql_table \<Rightarrow> 'r sql_table \<Rightarrow> bool" where
  "all_evolve E t t' \<longleftrightarrow> (\<forall>r \<in> set t. \<exists>r' \<in> set t'. E r r')"

definition gateway_evolves :: "'z approval_db_scheme \<Rightarrow> 'z approval_db_scheme \<Rightarrow> bool" where
  "gateway_evolves db db' \<longleftrightarrow> all_evolve approval_evolves (approvals db) (approvals db') \<and>
    all_evolve call_evolves (tool_calls db) (tool_calls db')"

lemma approval_evolves_refl [simp]: "approval_evolves a a"
  by (simp add: approval_evolves_def)

lemma call_evolves_refl [simp]: "call_evolves c c"
  by (simp add: call_evolves_def)

lemma approval_evolves_trans: "transp approval_evolves"
  by (rule transpI) (auto simp: approval_evolves_def)

lemma call_evolves_trans: "transp call_evolves"
  by (rule transpI) (auto simp: call_evolves_def)

lemma all_evolve_refl: "(\<And>r. E r r) \<Longrightarrow> all_evolve E t t"
  by (auto simp: all_evolve_def)

lemma all_evolve_append: "(\<And>r. E r r) \<Longrightarrow> all_evolve E t (t @ u)"
  by (auto simp: all_evolve_def)

lemma all_evolve_trans:
  "transp E \<Longrightarrow> all_evolve E t u \<Longrightarrow> all_evolve E u v \<Longrightarrow> all_evolve E t v"
  unfolding all_evolve_def transp_def by meson

lemma all_evolve_update:
  assumes "\<And>r. E r r" "\<And>r. P r \<Longrightarrow> E r (f r)" shows "all_evolve E t (sql_update P f t)"
  unfolding all_evolve_def
proof
  fix r
  assume "r \<in> set t"
  then show "\<exists>r' \<in> set (sql_update P f t). E r r'"
    using assms by (intro bexI [of _ "moved P f r"]) (auto simp: sql_update_moved moved_def)
qed

lemma gateway_evolves_refl: "approvals db' = approvals db \<Longrightarrow> tool_calls db' = tool_calls db \<Longrightarrow> gateway_evolves db db'"
  by (simp add: gateway_evolves_def all_evolve_refl)

lemma gateway_evolves_trans: "gateway_evolves a b \<Longrightarrow> gateway_evolves b c \<Longrightarrow> gateway_evolves a c"
  unfolding gateway_evolves_def
  using all_evolve_trans [OF approval_evolves_trans] all_evolve_trans [OF call_evolves_trans] by blast

lemma expire_locked_evolves: "gateway_evolves db (snd (expire_locked H fr clk i t c db))"
  unfolding gateway_evolves_def expire_locked_def Let_def
  by (auto intro!: all_evolve_update all_evolve_refl
      simp: approval_evolves_def call_evolves_def pending_approval_def waiting_call_def)

lemma expire_rows_evolves: "gateway_evolves db (expire_rows H fresh clk rows db)"
proof (induction H fresh clk rows db rule: expire_rows.induct)
  case (2 H fresh clk a rest db)
  show ?case unfolding expire_rows.simps by (rule gateway_evolves_trans [OF expire_locked_evolves 2])
qed (simp add: gateway_evolves_refl)

lemma decide_locked_evolves:
  assumes "decide_locked H fresh clk i d actor note tid task db = Inr db'"
  shows "gateway_evolves db db'"
  unfolding gateway_evolves_def decide_locked_Inr(4,5) [OF assms]
  by (auto intro!: all_evolve_update
      simp: approval_evolves_def call_evolves_def pending_approval_def waiting_call_def decided_approval_def decided_call_def)

lemma decide_transaction_evolves:
  assumes "decide_transaction H fresh clk i d actor note db = (r, db')" shows "gateway_evolves db db'"
  using assms
proof (cases rule: decide_transaction_cases)
  case (expired a)
  then show ?thesis by (simp add: expire_locked_evolves)
qed (simp_all add: gateway_evolves_refl decide_locked_evolves)

lemma claim_locked_evolves:
  assumes "claim_locked H ex g clk1 clk2 cid tid name db = Inr (arguments, db')" shows "gateway_evolves db db'"
proof -
  obtain c where db': "approvals db' = approvals db"
    "tool_calls db' = sql_update (\<lambda>x. tc_id x = cid \<and> tc_status x = Tool_Queued)
      (\<lambda>x. x\<lparr>tc_status := Tool_Running, tc_updated_at := isoformat clk1\<rparr>) (tool_calls db)"
    by (rule claim_locked_Inr [OF assms])
  show ?thesis
    unfolding gateway_evolves_def db'
    by (auto intro!: all_evolve_update all_evolve_refl simp: call_evolves_def)
qed

lemma finish_locked_evolves:
  assumes "finish_locked H g fresh clk cid tid name completed result error db = Inr (u, db')"
  shows "gateway_evolves db db'"
  using assms
proof (cases rule: finish_locked_cases)
  case wrote
  then show ?thesis
    unfolding gateway_evolves_def wrote
    by (auto intro!: all_evolve_update all_evolve_refl simp: call_evolves_def running_call_def finished_call_def)
qed (simp add: gateway_evolves_refl)

lemma create_tool_call_evolves:
  assumes "guards_frame g" "create_tool_call H ex g fresh created task name args summary rq db = (r, db')"
  shows "gateway_evolves db db'"
  using assms(2)
proof (cases rule: create_tool_call_cases)
  case (created rule dg call)
  from created(5) show ?thesis
    by (rule propose_locked_Inr [OF assms(1)])
      (simp_all add: gateway_evolves_def all_evolve_append all_evolve_refl)
qed (simp add: gateway_evolves_refl)

lemma gateway_step_evolves: "gateway_step H ex db db' \<Longrightarrow> gateway_evolves db db'"
proof (induction rule: gateway_step.induct)
  case (create g db fresh created task name args summary rq)
  then show ?case by (rule create_tool_call_evolves [OF _ surjective_pairing])
next
  case (decide db fresh clk i decision actor nt)
  show ?case by (rule decide_transaction_evolves [OF surjective_pairing])
next
  case (expire db fresh clk)
  show ?case by (simp add: expire_pending_def expire_rows_evolves)
next
  case (claim db g clk1 clk2 cid tid name)
  show ?case unfolding claim_execution_def
    by (rule transaction_preserves) (auto intro: gateway_evolves_refl claim_locked_evolves)
next
  case (finish db g fresh clk busy cid tid name completed result error)
  show ?case unfolding finish_execution_def
    by (rule finish_attempts_preserves, simp add: gateway_evolves_refl, rule transaction_preserves, assumption)
      (auto intro: gateway_evolves_trans finish_locked_evolves)
next
  case (elsewhere db' db)
  then show ?case by (rule gateway_evolves_refl)
qed

lemma gateway_steps_evolve: "(gateway_step H ex)\<^sup>*\<^sup>* db db' \<Longrightarrow> gateway_evolves db db'"
  by (induction rule: rtranclp_induct) (auto intro: gateway_evolves_refl gateway_evolves_trans gateway_step_evolves)

section \<open>What approvals guarantee\<close>

text \<open>
  C20. Nothing runs unapproved. However the operations of the gateway and of the executor have
  interleaved since the tables were empty, a call of a tool that must ask has started only with an
  approval of its own, granted before it expired, whose digest is that of the call, the tool and
  the arguments the call has stored.
\<close>

theorem only_approved_actions_run:
  assumes "approvals db0 = []" "tool_calls db0 = []" and "(gateway_step H ex)\<^sup>*\<^sup>* db0 db"
    and "c \<in> set (tool_calls db)" and "started (tc_status c)" and "requires_approval ex (tc_tool_name c) = Inr True"
  shows "\<exists>a \<in> set (approvals db). \<exists>arguments. tc_approval_id c = Some (ap_id a) \<and> ap_tool_call_id a = tc_id c \<and>
    ap_status a = Approval_Approved \<and> decided_in_time a \<and>
    json_loads (tc_arguments_json c) = Some (JObj arguments) \<and>
    binding_matches H (ap_action_digest a) (tc_id c) (tc_tool_name c) arguments = Inr True"
proof -
  have "calls_wf H ex db0" by (simp add: calls_wf_def assms(1,2))
  then have wf: "calls_wf H ex db" by (rule gateway_steps_wf [OF assms(3)])
  obtain i where i: "tc_approval_id c = Some i"
    using calls_wf_call [OF wf assms(4)] assms(6) by (auto simp: call_ok_def split: option.split_asm)
  obtain a where a: "a \<in> set (approvals db)" "pair_ok H a c" by (rule calls_wf_pair [OF wf assms(4) i])
  have "ap_status a = Approval_Approved"
    using a(2) assms(5) by (cases "ap_status a") (auto simp: pair_ok_def started_def)
  with a assms(5) show ?thesis unfolding pair_ok_def bound_action_def by blast
qed


text \<open>
  C22. A decision happens as a whole or not at all. When it is committed, the approval was pending,
  not expired, bound to its action and consented to, its call and its task were waiting, and all
  three have moved together, with one audit event, or two for a refusal. Otherwise nothing has
  changed, but for an approval found expired, which is then expired and not granted.
\<close>

theorem decision_is_atomic:
  assumes "decide_transaction H fresh clk i d actor nt db = (r, db')"
  shows "(if r = Inr True then
      (\<exists>a v c t. row_by ap_id i (approvals db) = Some a \<and> view_approval H db a = Inr v \<and>
        ap_status a = Approval_Pending \<and> isoformat clk < ap_expires_at a \<and>
        av_binding_valid v \<and> av_consent_context_valid v \<and>
        row_by ap_id i (approvals db') = Some (decided_approval d actor nt (isoformat clk) a) \<and>
        row_by tc_approval_id (Some i) (tool_calls db) = Some c \<and> tc_status c = Tool_Waiting_Permission \<and>
        row_by tc_approval_id (Some i) (tool_calls db') = Some (decided_call d (isoformat clk) c) \<and>
        row_by tk_id (ap_task_id a) (tasks db) = Some t \<and> tk_status t = Task_Waiting_Permission \<and>
        row_by tk_id (ap_task_id a) (tasks db') = Some (decided_task d (isoformat clk) t)) \<and>
      (\<exists>more. audit_events db' = audit_events db @ more \<and> map ae_event_type more =
        ''approval.decided'' # (if d = ''deny'' then [''tool.denied''] else []))
    else db' = db \<or>
      (\<exists>a. row_by ap_id i (approvals db) = Some a \<and> ap_expires_at a \<le> isoformat clk \<and>
        row_by ap_id i (approvals db') =
          Some (a\<lparr>ap_status := Approval_Expired, ap_decided_at := Some (isoformat clk)\<rparr>)))"
  using assms
proof (cases rule: decide_transaction_cases)
  case unchanged
  then show ?thesis by simp
next
  case (expired a)
  have "ap_id a = i" using row_by_SomeD [OF expired(1)] by simp
  then have "row_by ap_id i (approvals db') =
      Some (a\<lparr>ap_status := Approval_Expired, ap_decided_at := Some (isoformat clk)\<rparr>)"
    using expired(1,2) unfolding expired(5)
    by (simp add: expire_locked_def Let_def row_by_sql_update pending_approval_def split: if_split_asm)
  then show ?thesis using expired by auto
next
  case (decided a v c t)
  note k = decide_locked_Inr [OF decided(12)]
  have a: "ap_id a = i" and t: "tk_id t = ap_task_id a" and c: "tc_approval_id c = Some i"
    using row_by_SomeD [OF decided(1)] row_by_SomeD [OF decided(8)] row_by_SomeD [OF decided(7)] by simp_all
  have rows: "row_by ap_id i (approvals db') = Some (decided_approval d actor nt (isoformat clk) a)"
    "row_by tc_approval_id (Some i) (tool_calls db') = Some (decided_call d (isoformat clk) c)"
    "row_by tk_id (ap_task_id a) (tasks db') = Some (decided_task d (isoformat clk) t)"
    unfolding k(4-6)
    using decided a t c
    by (simp_all add: row_by_sql_update decided_approval_def decided_call_def decided_task_def
        pending_approval_def waiting_call_def waiting_task_def)
  have "\<exists>more. audit_events db' = audit_events db @ more \<and> map ae_event_type more =
      ''approval.decided'' # (if d = ''deny'' then [''tool.denied''] else [])"
    using decided(12) unfolding decide_locked_def Let_def
    by (simp add: append_audit_event_def Let_def split: if_split_asm) auto
  with rows decided show ?thesis by auto
qed

end
