(* ===== verification/Approval_Example.thy ===== *)
theory Approval_Example
  imports Approval_Safety
begin

text \<open>
  A concrete run: a file write is proposed, approved within its minute and claimed. It shows that
  the properties of \<open>Approval_Safety\<close> apply to runs that exist.
\<close>

definition demo_hash :: "string \<Rightarrow> string" where
  "demo_hash m = ''h''"

definition demo_tool :: string where
  "demo_tool = ''workspace.write_text''"

definition demo_arguments :: "(string \<times> json) list" where
  "demo_arguments = [(''path'', JStr ''a'')]"

definition demo_ask :: tool_rule where
  "demo_ask = \<lparr>tr_id = ''run'', tr_description = ''ask'', tr_decision = ''ask'', tr_risk = ''high'',
    tr_approval_ttl_seconds = Some 60\<rparr>"

definition demo_executor :: executor where
  "demo_executor = \<lparr>ex_policy = demo_sandbox_policy\<lparr>pp_tool_rules := [(demo_tool, demo_ask)]\<rparr>,
    ex_host = \<lparr>ho_executable = (\<lambda>s. True), ho_is_dir = (\<lambda>s. True), ho_exists = (\<lambda>s. True), ho_readlink = (\<lambda>s. None),
      ho_resolve = (\<lambda>s. s)\<rparr>, ex_workspace = ''/w'', ex_manifest = (\<lambda>x. None)\<rparr>"

definition demo_guards :: "approval_db guards" where
  "demo_guards = \<lparr>gd_acceptance = Inr, gd_local_context = (\<lambda>i. Inr), gd_commit = Inr (),
    gd_project_current = (\<lambda>i db. True), gd_goal_executable = (\<lambda>i db. True), gd_read_binding = (\<lambda>i a r c db. Inr None)\<rparr>"

definition demo_task :: "task_status \<Rightarrow> string \<Rightarrow> task_row" where
  "demo_task s u = \<lparr>tk_id = ''t'', tk_title = [], tk_input = [], tk_mode = ''normal'', tk_source = [],
    tk_conversation_id = None, tk_status = s, tk_priority = 0, tk_created_at = [], tk_updated_at = u,
    tk_completed_at = None, tk_error_json = None\<rparr>"

definition demo_requester :: requester where
  "demo_requester = \<lparr>rq_type = ''device'', rq_id = ''d'', rq_name = ''n''\<rparr>"

definition demo_digest_text :: string where
  "demo_digest_text = ''sha256:h''"

definition demo_request :: json where
  "demo_request = request_payload ''apr_1'' ''t'' ''call_1'' demo_tool demo_digest_text demo_requester demo_ask
    demo_arguments"

definition demo_requested :: audit_row where
  "demo_requested = \<lparr>ae_id = 1, ae_trace_id = ''t'', ae_event_type = ''approval.requested'',
    ae_actor_type = ''device'', ae_actor_id = ''d'', ae_task_id = Some ''t'', ae_payload_json = json_dumps demo_request,
    ae_prev_hash = None, ae_hash = Some ''h'', ae_created_at = isoformat 0\<rparr>"

definition demo_approval :: "approval_status \<Rightarrow> string option \<Rightarrow> string option \<Rightarrow> approval_row" where
  "demo_approval s d j = \<lparr>ap_id = ''apr_1'', ap_task_id = ''t'', ap_tool_call_id = ''call_1'',
    ap_action_digest = demo_digest_text, ap_request_audit_id = 1, ap_action = demo_tool,
    ap_summary = public_tool_summary demo_tool, ap_risk = ''high'', ap_status = s, ap_created_at = isoformat 0,
    ap_expires_at = isoformat 60000000, ap_decided_at = d, ap_decision_json = j\<rparr>"

definition demo_call :: "tool_status \<Rightarrow> string \<Rightarrow> tool_call_row" where
  "demo_call s u = \<lparr>tc_id = ''call_1'', tc_task_id = ''t'', tc_tool_name = demo_tool,
    tc_arguments_json = stored_json (JObj demo_arguments), tc_summary = public_tool_summary demo_tool, tc_risk = ''high'',
    tc_status = s, tc_approval_id = Some ''apr_1'', tc_result_json = None, tc_error = None,
    tc_created_at = isoformat 0, tc_updated_at = u\<rparr>"

definition demo_approval_db :: "audit_row list \<Rightarrow> task_row \<Rightarrow> approval_row list \<Rightarrow> tool_call_row list \<Rightarrow> approval_db" where
  "demo_approval_db audit t a c = \<lparr>control_plane_instances = [], maintenance_leases = [], audit_events = audit,
     message_board_events = [], outbox_events = [], outbox_metrics_singleton = None,
     consumer_deliveries = [], consumer_checkpoints = [], tasks = [t], approvals = a, tool_calls = c\<rparr>"

definition demo_empty :: approval_db where
  "demo_empty = demo_approval_db [] (demo_task Task_Created []) [] []"

definition demo_waiting :: approval_db where
  "demo_waiting = demo_approval_db [demo_requested] (demo_task Task_Waiting_Permission (isoformat 0))
    [demo_approval Approval_Pending None None] [demo_call Tool_Waiting_Permission (isoformat 0)]"

lemma demo_not_protected: "is_protected (ex_policy demo_executor) ''a'' = Inr False"
  by code_simp

lemma demo_rule: "evaluate_tool (ex_policy demo_executor) demo_tool = Inr demo_ask"
  by (simp add: demo_executor_def evaluate_tool_def)

lemma demo_asks: "requires_approval demo_executor demo_tool = Inr True"
  unfolding requires_approval_def demo_rule by (simp add: validate_tool_def demo_tool_def supported_tools_def demo_ask_def)

lemma demo_valid: "validate_arguments demo_executor demo_tool demo_arguments = Inr ()"
  by (simp add: validate_arguments_def validate_tool_def demo_tool_def supported_tools_def tool_argument_keys_def
      demo_arguments_def checked_path_def workspace_relative_def path_absolute_def starts_with_def path_parts_def
      path_text_def assert_not_protected_def demo_not_protected is_text_def dict_get_def)

lemma demo_expiry: "dt_add_seconds 0 60 = Inr 60000000"
  by (simp add: dt_add_seconds_def us_per_second_def max_instant_def us_per_day_def)

lemma demo_created:
  "snd (create_tool_call demo_hash demo_executor demo_guards (\<lambda>n. ''1'') 0 ''t'' demo_tool demo_arguments ''s''
    demo_requester demo_empty) = demo_waiting"
proof -
  have "propose_locked demo_hash demo_guards ''1'' 0 ''apr_1'' ''t'' ''call_1'' demo_tool demo_requester demo_ask
      demo_arguments demo_digest_text demo_empty = Inr (demo_call Tool_Waiting_Permission (isoformat 0), demo_waiting)"
    by (simp add: propose_locked_def demo_guards_def demo_empty_def demo_approval_db_def demo_task_def table_simps
        proposable_task_states_def demo_ask_def request_approval_def append_audit_event_def Let_def demo_expiry
        insert_approval_def insert_tool_call_def demo_waiting_def demo_call_def demo_approval_def demo_requested_def
        or_empty_def latest_audit_hash_def audit_event_hash_def demo_hash_def next_rowid_def demo_request_def
        demo_requester_def)
  moreover have "canonical_action_digest demo_hash ''call_1'' demo_tool demo_arguments = Inr demo_digest_text"
    by (simp add: canonical_action_digest_def demo_tool_def demo_hash_def demo_digest_text_def)
  ultimately show ?thesis
    by (simp add: create_tool_call_def demo_valid demo_rule demo_ask_def transaction_def)
qed

lemma demo_loads_arguments: "json_loads (stored_json (JObj demo_arguments)) = Some (JObj demo_arguments)"
  by code_simp

lemma demo_request_dict: "json_dict demo_request"
  by code_simp

lemma demo_sorted: "json_sort demo_request = JObj [(''action_digest'', JStr demo_digest_text),
    (''affected_data_summary'', JStr (safe_affected_data_summary demo_tool demo_arguments)),
    (''approval_id'', JStr ''apr_1''), 
    (''policy'', json_sort (approval_context demo_ask)), (''requester_name'', JStr ''n''), 
    (''task_id'', JStr ''t''), (''tool_call_id'', JStr ''call_1''), (''tool_name'', JStr demo_tool)]"
  by code_simp

lemma demo_policy_sorted: "json_sort (approval_context demo_ask) = JObj [(''decision'', JStr ''ask''), (''reason'', JStr ''ask''), (''rule_id'', JStr ''run'')]"
  by code_simp

lemma demo_consent:
  "cc_valid (consent_context_from_audit demo_hash ''apr_1'' ''t'' ''call_1'' demo_digest_text demo_tool demo_arguments 1
    (Some demo_requested))"
proof -
  note loaded = json_loads_dumps [OF demo_request_dict, unfolded demo_sorted]
  have payload: "audit_payload (Some demo_requested) = Some (case json_sort demo_request of JObj kvs \<Rightarrow> kvs | _ \<Rightarrow> [])"
    unfolding audit_payload_def by (simp add: demo_requested_def loaded demo_sorted)
  have hash: "audit_hash_matches demo_hash demo_requested"
    by (simp add: audit_hash_matches_def demo_requested_def row_hash_def audit_event_hash_def demo_hash_def
        compare_digest_def is_ascii_def)
  show ?thesis
    unfolding consent_context_from_audit_def consent_requester_def consent_policy_of_def payload Let_def
    using hash
    by (simp add: demo_sorted demo_policy_sorted non_empty_text_def)
      (simp add: demo_requested_def)
qed

lemma demo_action_bound: "binding_matches demo_hash demo_digest_text ''call_1'' demo_tool demo_arguments = Inr True"
  by (simp add: binding_matches_def canonical_action_digest_def demo_digest_text_def demo_hash_def demo_tool_def
      compare_digest_def is_ascii_def)

definition demo_approved :: "approval_status \<Rightarrow> tool_status \<Rightarrow> task_status \<Rightarrow> string \<Rightarrow> approval_db" where
  "demo_approved a c t now = demo_approval_db
    (audit_events (snd (append_audit_event demo_hash ''1'' 1000000 ''approval.decided''
      (JObj [(''approval_id'', JStr ''apr_1''), (''decision'', JStr ''approve'')]) ''device'' ''d'' (Some ''t'') (Some ''t'')
      (Some (isoformat 1000000)) demo_waiting)))
    (demo_task t now)
    [demo_approval a (Some (isoformat 1000000)) (Some (decision_json ''approve'' ''d'' None))]
    [demo_call c now]"

lemma demo_view:
  "\<exists>v. view_approval demo_hash demo_waiting (demo_approval Approval_Pending None None) = Inr v \<and>
    av_binding_valid v \<and> av_consent_context_valid v"
proof -
  have "row_by ae_id 1 (audit_events demo_waiting) = Some demo_requested"
    by (simp add: demo_waiting_def demo_approval_db_def table_simps demo_requested_def)
  moreover have "row_by tc_approval_id (Some ''apr_1'') (tool_calls demo_waiting) =
      Some (demo_call Tool_Waiting_Permission (isoformat 0))"
    by (simp add: demo_waiting_def demo_approval_db_def table_simps demo_call_def)
  ultimately show ?thesis
    using demo_consent demo_action_bound demo_loads_arguments
    by (simp add: view_approval_def decode_approval_def stored_decision_def or_empty_def binding_valid_def
        linked_arguments_def demo_approval_def demo_call_def py_or_def Let_def demo_tool_def)
qed

lemma demo_decided:
  "decide_transaction demo_hash (\<lambda>n. ''1'') 1000000 ''apr_1'' ''approve'' ''d'' None demo_waiting =
    (Inr True, demo_approved Approval_Approved Tool_Queued Task_Queued (isoformat 1000000))"
proof -
  obtain v where v: "view_approval demo_hash demo_waiting (demo_approval Approval_Pending None None) = Inr v"
    "av_binding_valid v" "av_consent_context_valid v" using demo_view by blast
  have rows: "row_by ap_id ''apr_1'' (approvals demo_waiting) = Some (demo_approval Approval_Pending None None)"
    "row_by tc_approval_id (Some ''apr_1'') (tool_calls demo_waiting) = Some (demo_call Tool_Waiting_Permission (isoformat 0))"
    "row_by tk_id ''t'' (tasks demo_waiting) = Some (demo_task Task_Waiting_Permission (isoformat 0))"
    by (simp_all add: demo_waiting_def demo_approval_db_def table_simps demo_call_def demo_approval_def demo_task_def)
  have iso: "isoformat 1000000 < isoformat 60000000"
    by (simp add: isoformat_less_iff max_instant_def us_per_day_def)
  then have late: "\<not> isoformat 60000000 \<le> isoformat 1000000" by (simp add: not_le)
  have "decide_locked demo_hash (\<lambda>n. ''1'') 1000000 ''apr_1'' ''approve'' ''d'' None ''call_1'' ''t'' demo_waiting =
      Inr (demo_approved Approval_Approved Tool_Queued Task_Queued (isoformat 1000000))"
    by (simp add: decide_locked_def Let_def demo_approved_def demo_waiting_def demo_approval_db_def table_simps
        pending_approval_def waiting_call_def waiting_task_def demo_approval_def demo_call_def demo_task_def iso
        append_audit_event_def)
  then show ?thesis
    using v iso late by (simp add: decide_transaction_def rows demo_approval_def demo_call_def demo_task_def)
qed

lemma demo_claimed:
  "claim_execution demo_hash demo_executor demo_guards 2000000 2000000 ''call_1'' ''t'' demo_tool
     (demo_approved Approval_Approved Tool_Queued Task_Queued (isoformat 1000000)) =
   (Inr demo_arguments, demo_approved Approval_Approved Tool_Running Task_Running (isoformat 2000000))"
proof -
  let ?db = "demo_approved Approval_Approved Tool_Queued Task_Queued (isoformat 1000000)"
  have rows: "row_by tc_id ''call_1'' (tool_calls ?db) = Some (demo_call Tool_Queued (isoformat 1000000))"
    "row_by tk_id ''t'' (tasks ?db) = Some (demo_task Task_Queued (isoformat 1000000))"
    "row_by ap_id ''apr_1'' (approvals ?db) = Some (demo_approval Approval_Approved (Some (isoformat 1000000))
      (Some (decision_json ''approve'' ''d'' None)))"
    "row_by ae_id 1 (audit_events ?db) = Some demo_requested"
    by (simp_all add: demo_approved_def demo_approval_db_def table_simps demo_call_def demo_approval_def demo_task_def
        append_audit_event_def Let_def demo_waiting_def demo_requested_def)
  have "one_shot_grant demo_hash ''apr_1'' (demo_call Tool_Queued (isoformat 1000000)) demo_arguments ?db = Inr True"
    by (simp add: one_shot_grant_def rows demo_action_bound demo_consent demo_approval_def demo_call_def)
  then have g: "grant_checked demo_hash demo_executor (demo_call Tool_Queued (isoformat 1000000)) demo_arguments ?db = Inr ()"
    by (simp add: grant_checked_def demo_asks demo_call_def)
  have "claim_locked demo_hash demo_executor demo_guards 2000000 2000000 ''call_1'' ''t'' demo_tool ?db =
      Inr (demo_arguments, demo_approved Approval_Approved Tool_Running Task_Running (isoformat 2000000))"
    using g by (simp add: claim_locked_def rows demo_guards_def demo_loads_arguments)
      (simp add: demo_call_def demo_task_def demo_loads_arguments demo_approved_def demo_approval_db_def table_simps)
  then show ?thesis by (simp add: claim_execution_def transaction_def)
qed

definition demo_ran :: approval_db where
  "demo_ran = demo_approved Approval_Approved Tool_Running Task_Running (isoformat 2000000)"

lemma demo_guards_frame: "guards_frame demo_guards"
  by (simp add: guards_frame_def demo_guards_def)

lemma demo_steps: "(gateway_step demo_hash demo_executor)\<^sup>*\<^sup>* demo_empty demo_ran"
proof -
  have "gateway_step demo_hash demo_executor demo_empty demo_waiting"
    unfolding demo_created [symmetric] by (rule gateway_step.create [OF demo_guards_frame])
  moreover have "gateway_step demo_hash demo_executor demo_waiting
      (demo_approved Approval_Approved Tool_Queued Task_Queued (isoformat 1000000))"
    using gateway_step.decide [of demo_hash demo_executor demo_waiting] by (metis demo_decided snd_conv)
  moreover have "gateway_step demo_hash demo_executor
      (demo_approved Approval_Approved Tool_Queued Task_Queued (isoformat 1000000)) demo_ran"
    using gateway_step.claim [of demo_hash demo_executor] by (metis demo_claimed demo_ran_def snd_conv)
  ultimately show ?thesis by (meson converse_rtranclp_into_rtranclp rtranclp.rtrancl_refl)
qed

lemma demo_empty_tables: "approvals demo_empty = []" "tool_calls demo_empty = []"
  by (simp_all add: demo_empty_def demo_approval_db_def)

lemma demo_ran_call: "demo_call Tool_Running (isoformat 2000000) \<in> set (tool_calls demo_ran)"
  by (simp add: demo_ran_def demo_approved_def demo_approval_db_def)

theorem only_approved_actions_run_witness:
  "\<exists>a \<in> set (approvals demo_ran). ap_status a = Approval_Approved \<and> decided_in_time a"
proof -
  have "started (tc_status (demo_call Tool_Running (isoformat 2000000)))"
    "requires_approval demo_executor (tc_tool_name (demo_call Tool_Running (isoformat 2000000))) = Inr True"
    using demo_asks by (simp_all add: demo_call_def started_def)
  from only_approved_actions_run [OF demo_empty_tables demo_steps demo_ran_call this] show ?thesis by blast
qed


theorem decision_is_atomic_witness:
  "\<exists>c. row_by tc_approval_id (Some ''apr_1'') (tool_calls (snd (decide_transaction demo_hash (\<lambda>n. ''1'') 1000000 ''apr_1''
    ''approve'' ''d'' None demo_waiting))) = Some (decided_call ''approve'' (isoformat 1000000) c)"
  using decision_is_atomic [OF demo_decided] unfolding demo_decided by auto

section \<open>A finish that changes nothing\<close>

text \<open>
  The comparison with what is stored runs after the updates, in their transaction. When the task
  has already ended as the executor is about to end it, the running call is updated, the comparison
  finds its own update, and the rollback that follows leaves the call running, with no error raised.
\<close>

lemma finish_leaves_call_running:
  defines "db \<equiv> demo_approved Approval_Approved Tool_Running Task_Completed (isoformat 2000000)"
  shows "finish_locked demo_hash demo_guards ''1'' 3000000 ''call_1'' ''t'' demo_tool True (Some (JObj [])) None db =
    Inr ((), db)"
  by (simp add: db_def finish_locked_def Let_def demo_approved_def demo_approval_db_def table_simps demo_call_def
      demo_task_def demo_tool_def task_error_text_def public_tool_error_def or_empty_def)

end
