(* ===== verification/Plan_Graph.thy ===== *)
theory Plan_Graph
  imports Permission_Policy "HOL-Library.Multiset"
begin

text \<open>
  The nodes of a proposed plan (\<open>server/app/services/swarm_contracts.py\<close>) and the validation of the
  graph they form (\<open>_validate_node_dependencies\<close> of \<open>server/app/services/plan_validation.py\<close>): the
  references are checked edge by edge, then Kahn's algorithm with a heap orders the nodes. A dict is
  an association list; the heap is the sorted list of its elements, of which \<open>heappop\<close> takes the
  first. \<open>kahn_correct\<close> is the invariant of the loop at its end; the properties that follow say that
  a graph is accepted exactly when its references are sound and it has no cycle, and that the order
  returned is determined by the graph alone.
\<close>

section \<open>Nodes\<close>

datatype plan_node_type = Worker | Synthesis

record agent_constraints =
  ac_agent_ids :: "string list"
  ac_model_ids :: "string list"
  ac_runtime :: "string option"

record plan_node =
  pn_temporary_id :: string
  pn_node_type :: plan_node_type
  pn_title :: string
  pn_objective :: string
  pn_required_skill :: "string option"
  pn_dependencies :: "string list"
  pn_optional_dependencies :: "string list"
  pn_expected_output :: string
  pn_priority :: int
  pn_constraints :: "agent_constraints option"
  pn_arguments :: "(string \<times> json) list option"
  pn_retry_of :: "string option"

definition max_plan_nodes :: nat where
  "max_plan_nodes = 20"

definition max_plan_parallelism :: nat where
  "max_plan_parallelism = 3"

section \<open>Errors\<close>

definition diagnostic_codes :: "string list" where
  "diagnostic_codes = [''research_source_requirements'', ''invalid_json'', ''duplicate_json_key'',
    ''invalid_fields'', ''project_plan_shape'', ''unavailable_skill'', ''policy_denied'',
    ''duplicate_node'', ''repeated_dependency'', ''self_dependency'', ''unknown_dependency'',
    ''cyclic_dependencies'', ''step_budget'', ''parallelism_budget'', ''objective_mismatch'']"

definition known_diagnostic :: "string option \<Rightarrow> string option" where
  "known_diagnostic code = (case code of None \<Rightarrow> None
    | Some c \<Rightarrow> if c \<in> set diagnostic_codes then Some c else None)"

definition plan_error :: "string \<Rightarrow> string option \<Rightarrow> py_error" where
  "plan_error message diagnostic = PlanValidationError message (known_diagnostic diagnostic)"

section \<open>The edges\<close>

type_synonym plan_graph = "(string \<times> int) list \<times> (string \<times> string list) list"

definition node_references :: "plan_node \<Rightarrow> string list" where
  "node_references n = pn_dependencies n @ pn_optional_dependencies n"

definition dict_item :: "string \<Rightarrow> (string \<times> 'v) list \<Rightarrow> py_error + 'v" where
  "dict_item k d = (case map_of d k of None \<Rightarrow> Inl (KeyError k) | Some v \<Rightarrow> Inr v)"

definition check_unique :: "string list \<Rightarrow> plan_node \<Rightarrow> plan_node list \<Rightarrow> py_error + plan_node list" where
  "check_unique known node seen =
    (if pn_temporary_id node \<in> pn_temporary_id ` set seen \<or> pn_temporary_id node \<in> set known
     then Inl (plan_error (''duplicate node id: '' @ pn_temporary_id node) (Some ''duplicate_node''))
     else Inr (seen @ [node]))"

definition add_dependency ::
    "string list \<Rightarrow> string list \<Rightarrow> string \<Rightarrow> string \<Rightarrow> plan_graph \<Rightarrow> py_error + plan_graph" where
  "add_dependency current known node dependency = (\<lambda>(indegree, dependents).
    if dependency = node
    then Inl (plan_error (''node '' @ node @ '' cannot depend on itself'') (Some ''self_dependency''))
    else if dependency \<notin> set current \<and> dependency \<notin> set known
    then Inl (plan_error (''node '' @ node @ '' has unknown dependency '' @ dependency)
      (Some ''unknown_dependency''))
    else if dependency \<in> set current
    then and_then (dict_item node indegree) (\<lambda>count.
      and_then (dict_item dependency dependents) (\<lambda>names.
        Inr (dict_set node (count + 1) indegree, dict_set dependency (names @ [node]) dependents)))
    else Inr (indegree, dependents))"

definition add_node :: "string list \<Rightarrow> string list \<Rightarrow> plan_node \<Rightarrow> plan_graph \<Rightarrow> py_error + plan_graph" where
  "add_node current known node graph =
    (if \<not> distinct (pn_dependencies node)
     then Inl (plan_error (''node '' @ pn_temporary_id node @ '' repeats a dependency'')
       (Some ''repeated_dependency''))
     else if \<not> distinct (pn_optional_dependencies node)
     then Inl (plan_error (''node '' @ pn_temporary_id node @ '' repeats an optional dependency'')
       (Some ''repeated_dependency''))
     else for_each (add_dependency current known (pn_temporary_id node)) (node_references node) graph)"

section \<open>The order\<close>

type_synonym kahn_state = "string list \<times> (string \<times> int) list"

definition release_dependent :: "string \<Rightarrow> kahn_state \<Rightarrow> py_error + kahn_state" where
  "release_dependent dependent = (\<lambda>(ready, indegree).
    and_then (dict_item dependent indegree) (\<lambda>count.
      Inr (if count - 1 = 0 then insort dependent ready else ready,
        dict_set dependent (count - 1) indegree)))"

definition kahn_weight :: "kahn_state \<Rightarrow> nat" where
  "kahn_weight s = length (fst s) + sum_list (map (nat \<circ> snd) (snd s))"

lemma map_of_dict_set: "map_of (dict_set k v d) = (map_of d)(k \<mapsto> v)"
  by (induction k v d rule: dict_set.induct) (auto simp: fun_eq_iff)

lemma keys_dict_set: "k \<in> set (map fst d) \<Longrightarrow> map fst (dict_set k v d) = map fst d"
  by (induction k v d rule: dict_set.induct) auto

lemma weight_dict_set:
  "map_of d k = Some u \<Longrightarrow>
    sum_list (map (nat \<circ> snd) (dict_set k v d)) + nat u = sum_list (map (nat \<circ> snd) d) + nat v"
  by (induction k v d rule: dict_set.induct) (auto split: if_split_asm)

lemma release_weight:
  assumes "release_dependent d s = Inr s'" shows "kahn_weight s' \<le> kahn_weight s"
proof -
  obtain ready ind where s: "s = (ready, ind)" by (cases s)
  obtain c where c: "map_of ind d = Some c"
    and s': "s' = (if c - 1 = 0 then insort d ready else ready, dict_set d (c - 1) ind)"
    using assms by (cases "map_of ind d") (auto simp: release_dependent_def dict_item_def s)
  have "sum_list (map (nat \<circ> snd) (dict_set d (c - 1) ind)) + nat c =
      sum_list (map (nat \<circ> snd) ind) + nat (c - 1)"
    by (rule weight_dict_set [OF c])
  then show ?thesis by (cases "c - 1 = 0") (simp_all add: s s' kahn_weight_def)
qed

lemma release_all_weight: "for_each release_dependent ds s = Inr s' \<Longrightarrow> kahn_weight s' \<le> kahn_weight s"
  by (rule for_each_invariant [where P = "\<lambda>t. kahn_weight t \<le> kahn_weight s"])
    (auto dest: release_weight intro: order.trans)

function kahn :: "(string \<times> string list) list \<Rightarrow> string list \<Rightarrow> (string \<times> int) list \<Rightarrow>
    string list \<Rightarrow> py_error + string list" where
  "kahn dependents [] indegree ordered = Inr ordered"
| "kahn dependents (node # ready) indegree ordered =
    (case dict_item node dependents of
       Inl e \<Rightarrow> Inl e
     | Inr names \<Rightarrow>
         (case for_each release_dependent (sort names) (ready, indegree) of
            Inl e \<Rightarrow> Inl e
          | Inr s \<Rightarrow> kahn dependents (fst s) (snd s) (ordered @ [node])))"
  by pat_completeness auto
termination
  by (relation "measure (\<lambda>(ds, ready, indegree, ordered). kahn_weight (ready, indegree))")
    (auto simp: kahn_weight_def dest!: release_all_weight)

definition validate_node_dependencies :: "plan_node list \<Rightarrow> string list \<Rightarrow> py_error + string list" where
  "validate_node_dependencies nodes known =
    (if max_plan_nodes < length nodes
     then Inl (plan_error (''plans cannot contain more than 20 nodes'') None)
     else and_then (for_each (check_unique known) nodes []) (\<lambda>by_id.
       let current = map pn_temporary_id by_id in
       and_then (for_each (add_node current known) nodes (map (\<lambda>i. (i, 0)) current, map (\<lambda>i. (i, [])) current))
         (\<lambda>(indegree, dependents).
           and_then (kahn dependents (sort (map fst (filter (\<lambda>p. snd p = 0) indegree))) indegree [])
             (\<lambda>ordered.
               if length ordered \<noteq> length nodes
               then Inl (plan_error (''plan dependencies contain a cycle'') (Some ''cyclic_dependencies''))
               else Inr ordered))))"

section \<open>What the first two loops compute\<close>

definition plan_ids :: "plan_node list \<Rightarrow> string list" where
  "plan_ids nodes = map pn_temporary_id nodes"

definition edges_into :: "string list \<Rightarrow> plan_node \<Rightarrow> (string \<times> string) list" where
  "edges_into ids n = map (\<lambda>d. (d, pn_temporary_id n)) (filter (\<lambda>d. d \<in> set ids) (node_references n))"

definition plan_edges :: "plan_node list \<Rightarrow> (string \<times> string) list" where
  "plan_edges nodes = concat (map (edges_into (plan_ids nodes)) nodes)"

definition node_references_ok :: "string list \<Rightarrow> string list \<Rightarrow> plan_node \<Rightarrow> bool" where
  "node_references_ok ids known n \<longleftrightarrow> distinct (pn_dependencies n) \<and> distinct (pn_optional_dependencies n) \<and>
     pn_temporary_id n \<notin> set (node_references n) \<and> set (node_references n) \<subseteq> set ids \<union> set known"

definition references_ok :: "plan_node list \<Rightarrow> string list \<Rightarrow> bool" where
  "references_ok nodes known \<longleftrightarrow> distinct (plan_ids nodes) \<and> set (plan_ids nodes) \<inter> set known = {} \<and>
     (\<forall>n \<in> set nodes. node_references_ok (plan_ids nodes) known n)"

lemma for_each_collects:
  assumes "\<And>x es s. x \<in> set xs \<Longrightarrow> R es s \<Longrightarrow>
      (if ok x then \<exists>s'. f x s = Inr s' \<and> R (es @ g x) s' else \<exists>e. f x s = Inl e)"
    and "R es s"
  shows "if \<forall>x \<in> set xs. ok x then \<exists>s'. for_each f xs s = Inr s' \<and> R (es @ concat (map g xs)) s'
    else \<exists>e. for_each f xs s = Inl e"
  using assms
proof (induction xs arbitrary: es s)
  case Nil
  then show ?case by simp
next
  case (Cons x xs)
  show ?case
  proof (cases "ok x")
    case True
    then obtain s' where s': "f x s = Inr s'" "R (es @ g x) s'"
      using Cons.prems(1) [of x es s] Cons.prems(2) by auto
    have "if \<forall>y \<in> set xs. ok y then \<exists>t. for_each f xs s' = Inr t \<and> R ((es @ g x) @ concat (map g xs)) t
        else \<exists>e. for_each f xs s' = Inl e"
      by (rule Cons.IH [OF _ s'(2)]) (use Cons.prems(1) in auto)
    then show ?thesis using True s'(1) by (cases "\<forall>y \<in> set xs. ok y") auto
  next
    case False
    then obtain e where "f x s = Inl e" using Cons.prems(1) [of x es s] Cons.prems(2) by auto
    then show ?thesis using False by simp
  qed
qed

lemma unique_loop:
  "(for_each (check_unique known) nodes seen = Inr r) \<longleftrightarrow>
    r = seen @ nodes \<and> distinct (plan_ids nodes) \<and>
    set (plan_ids nodes) \<inter> (set (plan_ids seen) \<union> set known) = {}"
proof (induction nodes arbitrary: seen)
  case Nil
  then show ?case by (auto simp: plan_ids_def)
next
  case (Cons n nodes)
  show ?case
  proof (cases "pn_temporary_id n \<in> pn_temporary_id ` set seen \<or> pn_temporary_id n \<in> set known")
    case True
    then show ?thesis by (auto simp: check_unique_def plan_ids_def)
  next
    case False
    then have "check_unique known n seen = Inr (seen @ [n])" by (simp add: check_unique_def)
    with False show ?thesis by (auto simp: Cons plan_ids_def)
  qed
qed

definition represents :: "string list \<Rightarrow> (string \<times> string) list \<Rightarrow> plan_graph \<Rightarrow> bool" where
  "represents ids es g \<longleftrightarrow> map fst (fst g) = ids \<and>
     (\<forall>k \<in> set ids. map_of (fst g) k = Some (int (count_list (map snd es) k)) \<and>
       map_of (snd g) k = Some (map snd (filter (\<lambda>e. fst e = k) es)))"

lemma map_of_initial: "map_of (map (\<lambda>i. (i, v)) ids) k = (if k \<in> set ids then Some v else None)"
  by (induction ids) auto

lemma represents_initial: "represents ids [] (map (\<lambda>i. (i, 0)) ids, map (\<lambda>i. (i, [])) ids)"
  by (simp add: represents_def map_of_initial comp_def)

lemma add_dependency_represents:
  assumes g: "represents ids es g" and n: "n \<in> set ids"
  shows "if d \<noteq> n \<and> d \<in> set ids \<union> set known
    then \<exists>g'. add_dependency ids known n d g = Inr g' \<and>
      represents ids (es @ (if d \<in> set ids then [(d, n)] else [])) g'
    else \<exists>e. add_dependency ids known n d g = Inl e"
proof -
  obtain ind deps where [simp]: "g = (ind, deps)" by (cases g)
  have key: "n \<in> set (map fst ind)" using g n by (simp add: represents_def)
  have items: "dict_item n ind = Inr (int (count_list (map snd es) n))"
    "d \<in> set ids \<Longrightarrow> dict_item d deps = Inr (map snd (filter (\<lambda>e. fst e = d) es))"
    using g n by (simp_all add: represents_def dict_item_def)
  have "represents ids (es @ [(d, n)]) (dict_set n (int (count_list (map snd es) n) + 1) ind,
      dict_set d (map snd (filter (\<lambda>e. fst e = d) es) @ [n]) deps)" if "d \<in> set ids"
    using g that keys_dict_set [OF key] by (simp add: represents_def map_of_dict_set)
  then show ?thesis using g items by (auto simp: add_dependency_def)
qed

lemma add_node_represents:
  assumes g: "represents ids es g" and n: "pn_temporary_id n \<in> set ids"
  shows "if node_references_ok ids known n
    then \<exists>g'. add_node ids known n g = Inr g' \<and> represents ids (es @ edges_into ids n) g'
    else \<exists>e. add_node ids known n g = Inl e"
proof -
  let ?i = "pn_temporary_id n"
  have "if \<forall>d \<in> set (node_references n). d \<noteq> ?i \<and> d \<in> set ids \<union> set known
    then \<exists>g'. for_each (add_dependency ids known ?i) (node_references n) g = Inr g' \<and>
      represents ids (es @ concat (map (\<lambda>d. if d \<in> set ids then [(d, ?i)] else []) (node_references n))) g'
    else \<exists>e. for_each (add_dependency ids known ?i) (node_references n) g = Inl e"
    by (rule for_each_collects [OF add_dependency_represents [OF _ n] g])
  moreover have "concat (map (\<lambda>d. if d \<in> set ids then [(d, ?i)] else []) ds) =
      map (\<lambda>d. (d, ?i)) (filter (\<lambda>d. d \<in> set ids) ds)" for ds
    by (induction ds) auto
  ultimately show ?thesis
    by (auto simp: add_node_def node_references_ok_def edges_into_def split: if_split_asm)
qed

lemma edge_loop:
  assumes "map pn_temporary_id nodes = ids"
  shows "if \<forall>n \<in> set nodes. node_references_ok ids known n
    then \<exists>g. for_each (add_node ids known) nodes (map (\<lambda>i. (i, 0)) ids, map (\<lambda>i. (i, [])) ids) = Inr g \<and>
      represents ids (concat (map (edges_into ids) nodes)) g
    else \<exists>e. for_each (add_node ids known) nodes (map (\<lambda>i. (i, 0)) ids, map (\<lambda>i. (i, [])) ids) = Inl e"
proof -
  have "if \<forall>n \<in> set nodes. node_references_ok ids known n
    then \<exists>g. for_each (add_node ids known) nodes (map (\<lambda>i. (i, 0)) ids, map (\<lambda>i. (i, [])) ids) = Inr g \<and>
      represents ids ([] @ concat (map (edges_into ids) nodes)) g
    else \<exists>e. for_each (add_node ids known) nodes (map (\<lambda>i. (i, 0)) ids, map (\<lambda>i. (i, [])) ids) = Inl e"
    by (rule for_each_collects [OF add_node_represents represents_initial]) (use assms in auto)
  then show ?thesis by (simp only: append_Nil)
qed

section \<open>Kahn's algorithm\<close>

text \<open>The nodes that could come next after \<open>earlier\<close>, and an order that always takes the least of them.\<close>

definition next_nodes :: "string list \<Rightarrow> (string \<times> string) list \<Rightarrow> string set \<Rightarrow> string set" where
  "next_nodes ids es earlier = {n \<in> set ids. n \<notin> earlier \<and> (\<forall>d. (d, n) \<in> set es \<longrightarrow> d \<in> earlier)}"

definition least_order :: "string list \<Rightarrow> (string \<times> string) list \<Rightarrow> string list \<Rightarrow> bool" where
  "least_order ids es ord \<longleftrightarrow> (\<forall>i < length ord. ord ! i \<in> next_nodes ids es (set (take i ord)) \<and>
     (\<forall>m \<in> next_nodes ids es (set (take i ord)). ord ! i \<le> m))"

definition waiting :: "(string \<times> string) list \<Rightarrow> string list \<Rightarrow> string \<Rightarrow> nat" where
  "waiting es ordered n = length (filter (\<lambda>e. snd e = n \<and> fst e \<notin> set ordered) es)"

lemma waiting_0_iff: "waiting es ordered n = 0 \<longleftrightarrow> (\<forall>d. (d, n) \<in> set es \<longrightarrow> d \<in> set ordered)"
  by (fastforce simp: waiting_def filter_empty_conv)

lemma waiting_snoc:
  "m \<notin> set ordered \<Longrightarrow>
    waiting es ordered n = waiting es (ordered @ [m]) n + count_list (map snd (filter (\<lambda>e. fst e = m) es)) n"
  unfolding waiting_def by (induction es) auto

lemma least_order_snoc:
  "least_order ids es (ord @ [n]) \<longleftrightarrow> least_order ids es ord \<and> n \<in> next_nodes ids es (set ord) \<and>
    (\<forall>m \<in> next_nodes ids es (set ord). n \<le> m)"
  by (auto simp: least_order_def less_Suc_eq nth_append)

lemma least_order_before:
  assumes "least_order ids es ord" and "n \<in> set ord" and "(d, n) \<in> set es"
  shows "d \<in> set ord"
proof -
  obtain i where i: "i < length ord" "n = ord ! i" using assms(2) by (auto simp: in_set_conv_nth)
  then have "n \<in> next_nodes ids es (set (take i ord))" using assms(1) by (simp add: least_order_def)
  then have "d \<in> set (take i ord)" using assms(3) by (simp add: next_nodes_def)
  then show ?thesis by (rule in_set_takeD)
qed

lemma least_order_distinct: "least_order ids es ord \<Longrightarrow> distinct ord \<and> set ord \<subseteq> set ids"
proof (induction ord rule: rev_induct)
  case Nil
  then show ?case by simp
next
  case (snoc n ord)
  then show ?case by (auto simp: least_order_snoc next_nodes_def)
qed

lemma release_all:
  assumes "\<And>k. k \<in> set ds \<Longrightarrow> \<exists>c. map_of ind k = Some c \<and> int (count_list ds k) \<le> c"
    and "\<And>k. k \<in> set ready \<Longrightarrow> map_of ind k = Some 0" and "sorted ready" and "distinct ready"
  shows "\<exists>ready' ind'. for_each release_dependent ds (ready, ind) = Inr (ready', ind') \<and>
    (\<forall>k. map_of ind' k = map_option (\<lambda>c. c - int (count_list ds k)) (map_of ind k)) \<and>
    sorted ready' \<and> distinct ready' \<and>
    set ready' = set ready \<union> {k \<in> set ds. map_of ind k = Some (int (count_list ds k))}"
  using assms
proof (induction ds arbitrary: ready ind)
  case Nil
  then show ?case by (auto simp: option.map_ident)
next
  case (Cons d ds)
  obtain c where c: "map_of ind d = Some c" "int (count_list ds d) + 1 \<le> c"
    using Cons.prems(1) [of d] by auto
  have fresh: "d \<notin> set ready" using Cons.prems(2) [of d] c by auto
  define ready1 where "ready1 = (if c = 1 then insort d ready else ready)"
  define ind1 where "ind1 = dict_set d (c - 1) ind"
  have step: "release_dependent d (ready, ind) = Inr (ready1, ind1)"
    using c(1) by (simp add: release_dependent_def dict_item_def ready1_def ind1_def)
  have ind1: "map_of ind1 k = (if k = d then Some (c - 1) else map_of ind k)" for k
    by (simp add: ind1_def map_of_dict_set)
  have ready1: "sorted ready1" "distinct ready1" "set ready1 = set ready \<union> (if c = 1 then {d} else {})"
    using Cons.prems(3,4) fresh by (auto simp: ready1_def sorted_insort distinct_insort set_insort_key)
  have "\<exists>c'. map_of ind1 k = Some c' \<and> int (count_list ds k) \<le> c'" if "k \<in> set ds" for k
    using Cons.prems(1) [of k] that c by (auto simp: ind1)
  moreover have "map_of ind1 k = Some 0" if "k \<in> set ready1" for k
    using that Cons.prems(2) [of k] fresh by (auto simp: ind1 ready1(3) split: if_split_asm)
  ultimately obtain ready' ind' where r: "for_each release_dependent ds (ready1, ind1) = Inr (ready', ind')"
    "\<forall>k. map_of ind' k = map_option (\<lambda>c. c - int (count_list ds k)) (map_of ind1 k)"
    "sorted ready'" "distinct ready'"
    "set ready' = set ready1 \<union> {k \<in> set ds. map_of ind1 k = Some (int (count_list ds k))}"
    using Cons.IH [of ind1 ready1] ready1(1,2) by blast
  have "set ready' = set ready \<union> {k \<in> set (d # ds). map_of ind k = Some (int (count_list (d # ds) k))}"
    using c count_list_0_iff [of ds d] by (auto simp: r(5) ready1(3) ind1 count_notin split: if_split_asm)
  moreover have "map_of ind' k = map_option (\<lambda>c. c - int (count_list (d # ds) k)) (map_of ind k)" for k
    using r(2) c(1) by (simp add: ind1)
  ultimately show ?case using step r(1,3,4) by simp
qed

definition kahn_inv :: "string list \<Rightarrow> (string \<times> string) list \<Rightarrow> string list \<Rightarrow> (string \<times> int) list \<Rightarrow> string list \<Rightarrow> bool" where
  "kahn_inv ids es ready ind ordered \<longleftrightarrow>
     (\<forall>k \<in> set ids. map_of ind k = Some (int (waiting es ordered k))) \<and> sorted ready \<and> distinct ready \<and>
     set ready = next_nodes ids es (set ordered) \<and> least_order ids es ordered"

lemma kahn_step:
  assumes inv: "kahn_inv ids es (n # ready) ind ordered" and es: "set es \<subseteq> set ids \<times> set ids"
    and names: "names = map snd (filter (\<lambda>e. fst e = n) es)"
  shows "\<exists>s. for_each release_dependent (sort names) (ready, ind) = Inr s \<and>
    kahn_inv ids es (fst s) (snd s) (ordered @ [n])"
proof -
  have ind: "map_of ind k = Some (int (waiting es ordered k))" if "k \<in> set ids" for k
    using inv that by (simp add: kahn_inv_def)
  have ready: "sorted (n # ready)" "distinct (n # ready)" "insert n (set ready) = next_nodes ids es (set ordered)"
    and least: "least_order ids es ordered"
    using inv by (simp_all add: kahn_inv_def)
  have n: "n \<in> next_nodes ids es (set ordered)" using ready(3) by blast
  then have fresh: "n \<notin> set ordered" by (simp add: next_nodes_def)
  have counts: "count_list (sort names) k = count_list names k" for k
    by (simp add: count_list_eq_length_filter filter_sort)
  have split: "waiting es ordered k = waiting es (ordered @ [n]) k + count_list names k" for k
    unfolding names by (rule waiting_snoc [OF fresh])
  have names_ids: "k \<in> set ids" if "k \<in> set names" for k
    using that es by (auto simp: names)
  have "\<exists>c. map_of ind k = Some c \<and> int (count_list (sort names) k) \<le> c" if "k \<in> set (sort names)" for k
    using ind [OF names_ids] that split [of k] by (auto simp: counts)
  moreover have "map_of ind k = Some 0" if "k \<in> set ready" for k
  proof -
    have "k \<in> next_nodes ids es (set ordered)" using that ready(3) by blast
    then have "k \<in> set ids" "waiting es ordered k = 0"
      by (simp_all add: next_nodes_def waiting_0_iff)
    then show ?thesis using ind [of k] by simp
  qed
  ultimately obtain ready' ind' where
    r: "for_each release_dependent (sort names) (ready, ind) = Inr (ready', ind')"
    "\<forall>k. map_of ind' k = map_option (\<lambda>c. c - int (count_list (sort names) k)) (map_of ind k)"
    "sorted ready'" "distinct ready'"
    "set ready' = set ready \<union> {k \<in> set (sort names). map_of ind k = Some (int (count_list (sort names) k))}"
    using release_all [of "sort names" ind ready] ready(1,2) by auto
  have "map_of ind' k = Some (int (waiting es (ordered @ [n]) k))" if "k \<in> set ids" for k
    using ind [OF that] r(2) split [of k] by (simp add: counts)
  moreover have "set ready' = next_nodes ids es (set (ordered @ [n]))"
  proof (rule set_eqI)
    fix k
    have next_iff: "k \<in> next_nodes ids es (set o') \<longleftrightarrow> k \<in> set ids \<and> k \<notin> set o' \<and> waiting es o' k = 0" for k o'
      by (simp add: next_nodes_def waiting_0_iff)
    have old: "k \<in> set ready \<longleftrightarrow> k \<noteq> n \<and> k \<in> next_nodes ids es (set ordered)"
      using ready(2,3) by auto
    have done0: "waiting es ordered j = 0" if "j \<in> set ordered" for j
      using least_order_before [OF least that] by (simp add: waiting_0_iff)
    have released: "k \<in> set names \<Longrightarrow> waiting es ordered k \<noteq> 0"
      using split [of k] count_list_0_iff [of names k] by simp
    have names_count: "map_of ind k = Some (int (count_list names k)) \<longleftrightarrow> waiting es (ordered @ [n]) k = 0"
      if "k \<in> set names"
      using ind [OF names_ids [OF that]] split [of k] by auto
    have zero: "k \<notin> set names \<Longrightarrow> waiting es ordered k = waiting es (ordered @ [n]) k"
      using split [of k] count_list_0_iff [of names k] by simp
    have "waiting es ordered n = 0" using n by (simp add: next_iff)
    then have named: "k \<in> set names \<Longrightarrow> k \<in> set ids \<and> k \<notin> set ordered \<and> k \<noteq> n"
      using released done0 [of k] names_ids [of k] by auto
    have mem: "k \<in> set ready' \<longleftrightarrow> k \<in> set ready \<or> k \<in> set names \<and> map_of ind k = Some (int (count_list names k))"
      by (simp add: r(5) counts)
    have now: "k \<in> next_nodes ids es (set (ordered @ [n])) \<longleftrightarrow>
        k \<in> set ids \<and> k \<notin> set ordered \<and> k \<noteq> n \<and> waiting es (ordered @ [n]) k = 0"
      unfolding next_iff by auto
    show "k \<in> set ready' \<longleftrightarrow> k \<in> next_nodes ids es (set (ordered @ [n]))"
    proof (cases "k \<in> set names")
      case True
      then have "k \<notin> set ready" using released by (simp add: old next_iff)
      with True show ?thesis using mem now named names_count by blast
    next
      case False
      then have "k \<in> set ready \<longleftrightarrow> k \<noteq> n \<and> k \<in> set ids \<and> k \<notin> set ordered \<and> waiting es (ordered @ [n]) k = 0"
        unfolding old next_iff zero [OF False] by blast
      with False show ?thesis using mem now by blast
    qed
  qed
  moreover have "least_order ids es (ordered @ [n])"
    using n ready(1,3) least by (auto simp: least_order_snoc)
  ultimately show ?thesis using r by (auto simp: kahn_inv_def)
qed

lemma kahn_runs:
  assumes "kahn_inv ids es ready ind ordered" and "set es \<subseteq> set ids \<times> set ids"
    and "\<And>k. k \<in> set ids \<Longrightarrow> map_of dependents k = Some (map snd (filter (\<lambda>e. fst e = k) es))"
  shows "\<exists>ord. kahn dependents ready ind ordered = Inr ord \<and> least_order ids es ord \<and> next_nodes ids es (set ord) = {}"
  using assms
proof (induction dependents ready ind ordered rule: kahn.induct)
  case (1 dependents ind ordered)
  then show ?case by (simp add: kahn_inv_def)
next
  case (2 dependents n ready ind ordered)
  have "n \<in> next_nodes ids es (set ordered)" using "2.prems"(1) by (auto simp: kahn_inv_def)
  then have "n \<in> set ids" by (simp add: next_nodes_def)
  then have names: "dict_item n dependents = Inr (map snd (filter (\<lambda>e. fst e = n) es))"
    using "2.prems"(3) by (simp add: dict_item_def)
  obtain s where s: "for_each release_dependent (sort (map snd (filter (\<lambda>e. fst e = n) es))) (ready, ind) = Inr s"
    "kahn_inv ids es (fst s) (snd s) (ordered @ [n])"
    using kahn_step [OF "2.prems"(1,2) refl] by blast
  show ?case using "2.IH" [OF names s(1) s(2) "2.prems"(2,3)] by (simp only: kahn.simps names s(1) sum.case)
qed

text \<open>An order of this kind lists all the nodes exactly when the graph has no cycle.\<close>

lemma least_order_rank:
  assumes "least_order ids es ord" and "set ord = set ids" and "set es \<subseteq> set ids \<times> set ids"
  obtains rank where "\<forall>d n. (d, n) \<in> set es \<longrightarrow> rank d < rank n" "\<forall>n \<in> set ids. rank n < length ord"
proof -
  define at where "at n = (LEAST i. i < length ord \<and> ord ! i = n)" for n
  have at: "at n < length ord \<and> ord ! at n = n" if "n \<in> set ord" for n
    using that unfolding at_def in_set_conv_nth by (rule LeastI_ex)
  have first: "at (ord ! j) \<le> j" if "j < length ord" for j
    using that unfolding at_def by (simp add: Least_le)
  have "at d < at n" if "(d, n) \<in> set es" for d n
  proof -
    have "n \<in> set ord" using that assms(2,3) by auto
    then have "d \<in> set (take (at n) ord)"
      using assms(1) at [of n] that unfolding least_order_def next_nodes_def by fastforce
    then obtain j where "j < at n" "j < length ord" "d = ord ! j" by (auto simp: in_set_conv_nth)
    then show ?thesis using first [of j] by simp
  qed
  then show ?thesis using that [of at] at assms(2) by blast
qed

lemma least_order_acyclic:
  assumes "least_order ids es ord" and "set ord = set ids" and "set es \<subseteq> set ids \<times> set ids"
  shows "acyclic (set es)"
proof -
  obtain rank where "\<forall>d n. (d, n) \<in> set es \<longrightarrow> rank d < rank n" "\<forall>n \<in> set ids. rank n < length ord"
    by (rule least_order_rank [OF assms])
  then have "set es \<subseteq> measure rank" by auto
  then show ?thesis using wf_acyclic [OF wf_subset [OF wf_measure]] by blast
qed

lemma acyclic_complete:
  assumes "next_nodes ids es (set ord) = {}" and "set ord \<subseteq> set ids" and "acyclic (set es)"
    and "set es \<subseteq> set ids \<times> set ids"
  shows "set ord = set ids"
proof (rule ccontr)
  assume "set ord \<noteq> set ids"
  then obtain n where n: "n \<in> set ids - set ord" using assms(2) by blast
  have "wf (set es)" by (rule finite_acyclic_wf [OF finite_set assms(3)])
  then obtain m where m: "m \<in> set ids - set ord" "\<And>d. (d, m) \<in> set es \<Longrightarrow> d \<notin> set ids - set ord"
    using wfE_min [OF _ n] by blast
  then have "m \<in> next_nodes ids es (set ord)" using assms(4) by (auto simp: next_nodes_def)
  then show False using assms(1) by blast
qed

lemma least_order_unique:
  assumes o: "least_order ids es ord" "set ord = set ids" and o': "least_order ids' es' ord'" "set ord' = set ids'"
    and same: "set ids' = set ids" "set es' = set es"
  shows "ord' = ord"
proof -
  have next_eq: "next_nodes ids' es' X = next_nodes ids es X" for X
    by (simp add: next_nodes_def same)
  have len: "length ord' = length ord"
    using least_order_distinct [OF o(1)] least_order_distinct [OF o'(1)] o(2) o'(2) same(1)
    by (metis distinct_card)
  have "take i ord' = take i ord" if "i \<le> length ord" for i
    using that
  proof (induction i)
    case 0
    then show ?case by simp
  next
    case (Suc i)
    then have i: "i < length ord" "i < length ord'" and eq: "take i ord' = take i ord" by (simp_all add: len)
    have "ord ! i \<le> ord' ! i" "ord' ! i \<le> ord ! i"
      using o(1) o'(1) i unfolding least_order_def next_eq by (metis eq)+
    then show ?case using i eq by (simp add: take_Suc_conv_app_nth)
  qed
  from this [of "length ord"] show ?thesis by (simp add: len)
qed

section \<open>The validated order\<close>

lemma kahn_inv_initial:
  assumes "represents ids es (ind, dependents)" and "distinct ids"
  shows "kahn_inv ids es (sort (map fst (filter (\<lambda>p. snd p = 0) ind))) ind []"
proof -
  have keys: "map fst ind = ids"
    and item: "\<And>k. k \<in> set ids \<Longrightarrow> map_of ind k = Some (int (count_list (map snd es) k))"
    using assms(1) by (simp_all add: represents_def)
  have waiting: "waiting es [] k = count_list (map snd es) k" for k
    unfolding waiting_def by (induction es) auto
  have "distinct (map fst (filter (\<lambda>p. snd p = 0) ind))"
    using assms(2) keys by (metis distinct_map_filter)
  moreover have "k \<in> fst ` {p \<in> set ind. snd p = 0} \<longleftrightarrow> k \<in> next_nodes ids es {}" for k
  proof -
    have "k \<in> fst ` {p \<in> set ind. snd p = 0} \<longleftrightarrow> map_of ind k = Some 0"
      using assms(2) keys by (force simp: map_of_eq_Some_iff image_iff)
    moreover have "map_of ind k = None" if "k \<notin> set ids"
      using that keys by (metis map_of_eq_None_iff set_map)
    moreover have "k \<in> next_nodes ids es {} \<longleftrightarrow> k \<in> set ids \<and> waiting es [] k = 0"
      by (simp add: next_nodes_def waiting_0_iff)
    ultimately show ?thesis using item [of k] by (cases "k \<in> set ids") (simp_all add: waiting)
  qed
  ultimately show ?thesis by (auto simp: kahn_inv_def waiting item least_order_def)
qed

lemma edges_into_ids: "set (plan_edges nodes) \<subseteq> set (plan_ids nodes) \<times> set (plan_ids nodes)"
  by (auto simp: plan_edges_def edges_into_def plan_ids_def)

lemma plan_edge_iff:
  "(d, m) \<in> set (plan_edges nodes) \<longleftrightarrow>
    (\<exists>n \<in> set nodes. m = pn_temporary_id n \<and> d \<in> set (node_references n)) \<and> d \<in> set (plan_ids nodes)"
  by (auto simp: plan_edges_def edges_into_def)

lemma validation_runs:
  assumes small: "length nodes \<le> max_plan_nodes" and refs: "references_ok nodes known"
  shows "\<exists>ord. least_order (plan_ids nodes) (plan_edges nodes) ord \<and>
    next_nodes (plan_ids nodes) (plan_edges nodes) (set ord) = {} \<and>
    validate_node_dependencies nodes known =
      (if set ord = set (plan_ids nodes) then Inr ord
       else Inl (plan_error (''plan dependencies contain a cycle'') (Some ''cyclic_dependencies'')))"
proof -
  let ?ids = "plan_ids nodes" and ?es = "plan_edges nodes"
  have by_id: "for_each (check_unique known) nodes [] = Inr nodes"
    unfolding unique_loop using refs by (auto simp: references_ok_def plan_ids_def)
  obtain ind deps where g: "for_each (add_node ?ids known) nodes (map (\<lambda>i. (i, 0)) ?ids, map (\<lambda>i. (i, [])) ?ids) = Inr (ind, deps)"
    and rep: "represents ?ids ?es (ind, deps)"
    using edge_loop [of nodes ?ids known] refs by (auto simp: references_ok_def plan_ids_def plan_edges_def)
  have distinct: "distinct ?ids" using refs by (simp add: references_ok_def)
  obtain ord where ord: "kahn deps (sort (map fst (filter (\<lambda>p. snd p = 0) ind))) ind [] = Inr ord"
    "least_order ?ids ?es ord" "next_nodes ?ids ?es (set ord) = {}"
    using kahn_runs [OF kahn_inv_initial [OF rep distinct] edges_into_ids, of deps] rep by (auto simp: represents_def)
  have "length ord = length nodes \<longleftrightarrow> set ord = set ?ids"
  proof -
    have "length nodes = card (set ?ids)" using distinct_card [OF distinct] by (simp add: plan_ids_def)
    moreover have "length ord = card (set ord)" "set ord \<subseteq> set ?ids"
      using least_order_distinct [OF ord(2)] by (simp_all add: distinct_card)
    ultimately show ?thesis using card_subset_eq [OF finite_set, of "set ord" ?ids] by auto
  qed
  then have "validate_node_dependencies nodes known =
      (if set ord = set ?ids then Inr ord
       else Inl (plan_error (''plan dependencies contain a cycle'') (Some ''cyclic_dependencies'')))"
    using small unfolding validate_node_dependencies_def Let_def by_id and_then.simps plan_ids_def [symmetric] g prod.case ord(1)
    by simp
  with ord(2,3) show ?thesis by blast
qed

lemma validation_needs:
  assumes "validate_node_dependencies nodes known = Inr order"
  shows "length nodes \<le> max_plan_nodes \<and> references_ok nodes known"
proof -
  obtain by_id g where small: "length nodes \<le> max_plan_nodes"
    and by_id: "for_each (check_unique known) nodes [] = Inr by_id"
    and g: "for_each (add_node (map pn_temporary_id by_id) known) nodes
      (map (\<lambda>i. (i, 0)) (map pn_temporary_id by_id), map (\<lambda>i. (i, [])) (map pn_temporary_id by_id)) = Inr g"
    using assms unfolding validate_node_dependencies_def Let_def by (auto split: if_split_asm)
  have ids: "by_id = nodes" "distinct (plan_ids nodes)" "set (plan_ids nodes) \<inter> set known = {}"
    using by_id unfolding unique_loop by (auto simp: plan_ids_def)
  have "\<forall>n \<in> set nodes. node_references_ok (plan_ids nodes) known n"
    using edge_loop [of nodes "plan_ids nodes" known] g ids(1) by (auto simp: plan_ids_def split: if_split_asm)
  with ids small show ?thesis by (simp add: references_ok_def)
qed

lemma validated_order_iff:
  "validate_node_dependencies nodes known = Inr order \<longleftrightarrow> length nodes \<le> max_plan_nodes \<and>
    references_ok nodes known \<and> least_order (plan_ids nodes) (plan_edges nodes) order \<and>
    set order = set (plan_ids nodes)"
proof (cases "length nodes \<le> max_plan_nodes \<and> references_ok nodes known")
  case False
  then show ?thesis using validation_needs by blast
next
  case True
  let ?ids = "plan_ids nodes" and ?es = "plan_edges nodes"
  obtain ord where ord: "least_order ?ids ?es ord" "next_nodes ?ids ?es (set ord) = {}"
    "validate_node_dependencies nodes known =
      (if set ord = set ?ids then Inr ord
       else Inl (plan_error (''plan dependencies contain a cycle'') (Some ''cyclic_dependencies'')))"
    using validation_runs True by blast
  have "set ord = set ?ids" if "least_order ?ids ?es order" "set order = set ?ids"
    using acyclic_complete [OF ord(2) _ least_order_acyclic [OF that edges_into_ids] edges_into_ids]
      least_order_distinct [OF ord(1)] by blast
  then show ?thesis using True ord(1,3) least_order_unique [OF ord(1)] by auto
qed

lemma plan_nodes_perm:
  assumes "mset nodes' = mset nodes" and "set known' = set known"
  shows "length nodes' = length nodes" "references_ok nodes' known' = references_ok nodes known"
    "set (plan_ids nodes') = set (plan_ids nodes)" "set (plan_edges nodes') = set (plan_edges nodes)"
proof -
  have nodes: "set nodes' = set nodes" using assms(1) by (metis set_mset_mset)
  then show ids: "set (plan_ids nodes') = set (plan_ids nodes)" by (simp add: plan_ids_def)
  have "mset (plan_ids nodes') = mset (plan_ids nodes)" using assms(1) by (simp add: plan_ids_def)
  then have "distinct (plan_ids nodes') = distinct (plan_ids nodes)" by (rule mset_eq_imp_distinct_iff)
  then show "references_ok nodes' known' = references_ok nodes known"
    by (simp add: references_ok_def node_references_ok_def ids nodes assms(2))
  show "length nodes' = length nodes" using assms(1) by (rule mset_eq_length)
  show "set (plan_edges nodes') = set (plan_edges nodes)"
    by (simp add: set_eq_iff split_paired_all plan_edge_iff nodes ids)
qed

text \<open>
  C40. The checks of a plan's graph are equivalent to its declarative meaning: they pass exactly
  when there are at most twenty nodes, identifiers are unique and new, no node repeats a dependency,
  depends on itself or on a node nobody knows, and the dependency relation between the new nodes has
  no cycle.
\<close>

theorem plan_graph_accepted_iff:
  "(\<exists>order. validate_node_dependencies nodes known = Inr order) \<longleftrightarrow>
    length nodes \<le> 20 \<and> references_ok nodes known \<and> acyclic (set (plan_edges nodes))"
proof
  assume "\<exists>order. validate_node_dependencies nodes known = Inr order"
  then obtain order where "length nodes \<le> max_plan_nodes" "references_ok nodes known"
    "least_order (plan_ids nodes) (plan_edges nodes) order" "set order = set (plan_ids nodes)"
    by (auto simp: validated_order_iff)
  then show "length nodes \<le> 20 \<and> references_ok nodes known \<and> acyclic (set (plan_edges nodes))"
    using least_order_acyclic edges_into_ids by (auto simp: max_plan_nodes_def)
next
  assume ok: "length nodes \<le> 20 \<and> references_ok nodes known \<and> acyclic (set (plan_edges nodes))"
  then obtain ord where ord: "least_order (plan_ids nodes) (plan_edges nodes) ord"
    "next_nodes (plan_ids nodes) (plan_edges nodes) (set ord) = {}"
    using validation_runs [of nodes known] by (auto simp: max_plan_nodes_def)
  then have "set ord = set (plan_ids nodes)"
    using acyclic_complete edges_into_ids ok least_order_distinct by blast
  with ok ord(1) show "\<exists>order. validate_node_dependencies nodes known = Inr order"
    by (auto simp: validated_order_iff max_plan_nodes_def)
qed

text \<open>
  An accepted plan has one execution order, which depends on the graph alone: it lists every
  node once, each after all the new nodes it depends on, hard or optional, and it is the same
  however the nodes and the known identifiers are listed.
\<close>

theorem plan_order_is_topological:
  assumes "validate_node_dependencies nodes known = Inr order"
    and "mset nodes' = mset nodes" and "set known' = set known"
  shows "validate_node_dependencies nodes' known' = Inr order \<and> distinct order \<and>
    set order = pn_temporary_id ` set nodes \<and>
    list_all (\<lambda>n. list_all (\<lambda>d. d \<in> set known \<or>
      (\<exists>before after. order = before @ pn_temporary_id n # after \<and> d \<in> set before)) (node_references n)) nodes"
proof (intro conjI)
  let ?ids = "plan_ids nodes" and ?es = "plan_edges nodes"
  have v: "length nodes \<le> max_plan_nodes" "references_ok nodes known" "least_order ?ids ?es order"
    "set order = set ?ids"
    using assms(1) by (auto simp: validated_order_iff)
  have "next_nodes (plan_ids nodes') (plan_edges nodes') X = next_nodes ?ids ?es X" for X
    by (simp add: next_nodes_def plan_nodes_perm [OF assms(2,3)])
  then show "validate_node_dependencies nodes' known' = Inr order"
    using v by (simp add: validated_order_iff least_order_def plan_nodes_perm [OF assms(2,3)])
  show "distinct order" using least_order_distinct [OF v(3)] by blast
  show "set order = pn_temporary_id ` set nodes" using v(4) by (simp add: plan_ids_def)
  have "d \<in> set known \<or> (\<exists>before after. order = before @ pn_temporary_id n # after \<and> d \<in> set before)"
    if n: "n \<in> set nodes" and d: "d \<in> set (node_references n)" for n d
  proof (cases "d \<in> set known")
    case False
    then have "d \<in> set ?ids" using v(2) n d by (auto simp: references_ok_def node_references_ok_def)
    then have edge: "(d, pn_temporary_id n) \<in> set ?es" using n d by (auto simp: plan_edge_iff)
    have "pn_temporary_id n \<in> set order" using n v(4) by (simp add: plan_ids_def)
    then obtain i where i: "i < length order" "order ! i = pn_temporary_id n" by (auto simp: in_set_conv_nth)
    then have "d \<in> set (take i order)" using v(3) edge by (fastforce simp: least_order_def next_nodes_def)
    moreover have "order = take i order @ pn_temporary_id n # drop (Suc i) order"
      using id_take_nth_drop [OF i(1)] i(2) by simp
    ultimately show ?thesis by blast
  qed simp
  then show "list_all (\<lambda>n. list_all (\<lambda>d. d \<in> set known \<or>
      (\<exists>before after. order = before @ pn_temporary_id n # after \<and> d \<in> set before)) (node_references n)) nodes"
    by (simp add: list_all_iff)
qed

definition demo_node :: "string \<Rightarrow> string option \<Rightarrow> string list \<Rightarrow> plan_node" where
  "demo_node i skill deps = \<lparr>pn_temporary_id = i, pn_node_type = (if skill = None then Synthesis else Worker),
    pn_title = ''t'', pn_objective = ''o'', pn_required_skill = skill, pn_dependencies = deps,
    pn_optional_dependencies = [], pn_expected_output = ''e'', pn_priority = 50, pn_constraints = None,
    pn_arguments = None, pn_retry_of = None\<rparr>"

definition demo_nodes :: "plan_node list" where
  "demo_nodes = [demo_node ''s'' None [''a'', ''b''], demo_node ''b'' (Some ''research.query'') [],
    demo_node ''a'' (Some ''workspace.list_dir'') [''b'']]"

lemma demo_nodes_order: "validate_node_dependencies demo_nodes [] = Inr [''b'', ''a'', ''s'']"
  by code_simp

lemma plan_order_is_topological_witness:
  "validate_node_dependencies (rev demo_nodes) [] = Inr [''b'', ''a'', ''s'']"
  using plan_order_is_topological [of demo_nodes "[]" "[''b'', ''a'', ''s'']" "rev demo_nodes" "[]", OF demo_nodes_order]
  by (simp only: mset_rev)

end
