(* ===== verification/Plan_Validation.thy ===== *)
theory Plan_Validation
  imports Plan_Graph
begin

text \<open>
  \<open>server/app/services/plan_validation.py\<close>: what a plan or an evaluation proposed by a model must
  satisfy before the server acts on it, and the fingerprints by which repeated proposals are
  recognised. A proposal is taken as the validated pydantic object (\<open>swarm_contracts.py\<close>) that
  \<open>_coerce_model\<close> returns; parsing its JSON text and the field constraints pydantic enforces are not
  modelled. \<open>visit\<close> recurses along the dependencies with the fuel of one level for each node;
  \<open>visit_computes\<close> shows that this is enough on every graph that has been accepted.
\<close>

section \<open>Skills and policy\<close>

definition mutating_skills :: "string list" where
  "mutating_skills = project_build_skills @ code_generation_skills"

definition skill_in :: "string option \<Rightarrow> string list \<Rightarrow> bool" where
  "skill_in s skills = (case s of None \<Rightarrow> False | Some k \<Rightarrow> k \<in> set skills)"

definition validate_project_plan_shape :: "plan_node list \<Rightarrow> py_error + unit" where
  "validate_project_plan_shape nodes =
    (let projects = filter (\<lambda>n. skill_in (pn_required_skill n) mutating_skills) nodes in
     if length projects > 1 \<or> list_ex (\<lambda>n. pn_node_type n \<noteq> Worker) projects
     then Inl (plan_error (''a project plan permits at most one project-mutating worker across project and legacy code skills'')
       (Some ''project_plan_shape''))
     else if list_ex (\<lambda>n. skill_in (pn_required_skill n) code_generation_skills \<and>
       (pn_dependencies n \<noteq> [] \<or> pn_optional_dependencies n \<noteq> [])) projects
     then Inl (plan_error (''legacy code generation cannot consume worker dependencies'') (Some ''project_plan_shape''))
     else Inr ())"

definition validate_worker_policy :: "permission_policy \<Rightarrow> plan_node \<Rightarrow> py_error + unit" where
  "validate_worker_policy policy node =
    (if pn_node_type node \<noteq> Worker then Inr ()
     else (case pn_required_skill node of
         None \<Rightarrow> Inl (plan_error (''node '' @ pn_temporary_id node @ '' is missing its worker skill'') None)
       | Some skill \<Rightarrow>
           (case evaluate_worker_skill policy skill of
              Inl e \<Rightarrow> Inl (plan_error (''node '' @ pn_temporary_id node @ '' requests an unsupported worker skill'')
                (Some ''unavailable_skill''))
            | Inr rule \<Rightarrow>
                if wr_decision rule \<noteq> ''allow''
                then Inl (plan_error (''node '' @ pn_temporary_id node @ '' requests a worker skill denied by policy'')
                  (Some ''policy_denied''))
                else Inr ())))"

definition check_available :: "string list \<Rightarrow> plan_node \<Rightarrow> unit \<Rightarrow> py_error + unit" where
  "check_available available node u =
    (if pn_node_type node = Worker \<and> \<not> skill_in (pn_required_skill node) available
     then Inl (plan_error (''node '' @ pn_temporary_id node @
       '' requests a worker skill absent from available capabilities'') (Some ''unavailable_skill''))
     else Inr ())"

definition validate_worker_capabilities :: "plan_node list \<Rightarrow> string list option \<Rightarrow> py_error + unit" where
  "validate_worker_capabilities nodes available_skills =
    (case available_skills of None \<Rightarrow> Inr ()
     | Some available \<Rightarrow> for_each (check_available available) nodes ())"

definition validate_node_graph :: "plan_node list \<Rightarrow> permission_policy \<Rightarrow> string list \<Rightarrow>
    string list option \<Rightarrow> py_error + string list" where
  "validate_node_graph nodes policy known available_skills =
    (if max_plan_nodes < length nodes
     then Inl (plan_error (''plans cannot contain more than 20 nodes'') None)
     else and_then (validate_project_plan_shape nodes) (\<lambda>_.
       and_then (validate_worker_capabilities nodes available_skills) (\<lambda>_.
         and_then (validate_node_dependencies nodes known) (\<lambda>order.
           and_then (for_each (\<lambda>n _. validate_worker_policy policy n) nodes ()) (\<lambda>_. Inr order)))))"

section \<open>Fingerprints\<close>

definition node_type_value :: "plan_node_type \<Rightarrow> string" where
  "node_type_value t = (case t of Worker \<Rightarrow> ''worker'' | Synthesis \<Rightarrow> ''synthesis'')"

definition present :: "string \<Rightarrow> json option \<Rightarrow> (string \<times> json) list" where
  "present k v = (case v of None \<Rightarrow> [] | Some j \<Rightarrow> [(k, j)])"

definition texts :: "string list \<Rightarrow> json" where
  "texts xs = JArr (map JStr xs)"

text \<open>\<open>model_dump(mode="json", exclude_none=True)\<close> of the hints, its lists sorted.\<close>

definition constraints_json :: "agent_constraints \<Rightarrow> json" where
  "constraints_json c = JObj ([(''agent_ids'', texts (sort (ac_agent_ids c))),
    (''model_ids'', texts (sort (ac_model_ids c)))] @ present ''runtime'' (map_option JStr (ac_runtime c)))"

definition node_base :: "plan_node \<Rightarrow> json" where
  "node_base n = JObj ([(''node_type'', JStr (node_type_value (pn_node_type n))), (''title'', JStr (pn_title n)),
      (''objective'', JStr (pn_objective n))] @
    present ''required_skill'' (map_option JStr (pn_required_skill n)) @
    [(''expected_output'', JStr (pn_expected_output n)), (''priority'', JInt (pn_priority n))] @
    present ''preferred_agent_constraints'' (map_option constraints_json (pn_constraints n)) @
    present ''worker_arguments'' (map_option JObj (pn_arguments n)) @
    present ''retry_of_node_id'' (map_option JStr (pn_retry_of n)))"

definition fingerprint :: "(string \<Rightarrow> string) \<Rightarrow> json \<Rightarrow> string" where
  "fingerprint H v = H (json_dumps v)"

definition signature_json :: "plan_node \<Rightarrow> string list \<Rightarrow> string list \<Rightarrow> json" where
  "signature_json n hard soft = JObj [(''node'', node_base n), (''hard_dependencies'', texts (sort hard)),
    (''optional_dependencies'', texts (sort soft))]"

definition node_by_id :: "plan_node list \<Rightarrow> string \<Rightarrow> plan_node option" where
  "node_by_id nodes i = map_of (dict_of_pairs (map (\<lambda>n. (pn_temporary_id n, n)) nodes)) i"

type_synonym visit_state = "(string \<times> string) list \<times> string list"

fun visit :: "(string \<Rightarrow> string) \<Rightarrow> plan_node list \<Rightarrow> nat \<Rightarrow> string \<Rightarrow> visit_state \<Rightarrow> py_error + string \<times> visit_state"
  and visit_all :: "(string \<Rightarrow> string) \<Rightarrow> plan_node list \<Rightarrow> nat \<Rightarrow> string list \<Rightarrow> visit_state \<Rightarrow> py_error + string list \<times> visit_state" where
  "visit H nodes 0 i st = Inl (RuntimeError ''out of fuel'')"
| "visit H nodes (Suc fuel) i st =
    (case map_of (fst st) i of
       Some s \<Rightarrow> Inr (s, st)
     | None \<Rightarrow>
         if i \<in> set (snd st) then Inl (plan_error (''plan dependencies contain a cycle'') None)
         else (case node_by_id nodes i of
             None \<Rightarrow> Inl (KeyError i)
           | Some n \<Rightarrow>
               and_then (visit_all H nodes fuel (pn_dependencies n) (fst st, i # snd st)) (\<lambda>(hard, st1).
               and_then (visit_all H nodes fuel (pn_optional_dependencies n) st1) (\<lambda>(soft, st2).
                 let s = fingerprint H (signature_json n hard soft) in
                 Inr (s, dict_set i s (fst st2), remove1 i (snd st2))))))"
| "visit_all H nodes fuel [] st = Inr ([], st)"
| "visit_all H nodes fuel (d # ds) st =
    and_then (if node_by_id nodes d = None then Inr (''external:'' @ d, st) else visit H nodes fuel d st)
      (\<lambda>(s, st1). and_then (visit_all H nodes fuel ds st1) (\<lambda>(ss, st2). Inr (s # ss, st2)))"

definition semantic_node_signatures :: "(string \<Rightarrow> string) \<Rightarrow> plan_node list \<Rightarrow> py_error + string list" where
  "semantic_node_signatures H nodes =
    and_then (visit_all H nodes (Suc (length nodes)) (map pn_temporary_id nodes) ([], [])) (\<lambda>(ss, st). Inr (sort ss))"

record plan_proposal =
  sp_schema_version :: string
  sp_objective :: string
  sp_rationale_summary :: string
  sp_nodes :: "plan_node list"
  sp_completion_criteria :: "string list"
  sp_max_parallelism :: int

datatype evaluation_status = Eval_Continue | Eval_Replan | Eval_Done | Eval_Failed | Eval_Needs_User

definition evaluation_status_value :: "evaluation_status \<Rightarrow> string" where
  "evaluation_status_value s = (case s of Eval_Continue \<Rightarrow> ''continue'' | Eval_Replan \<Rightarrow> ''replan''
    | Eval_Done \<Rightarrow> ''done'' | Eval_Failed \<Rightarrow> ''failed'' | Eval_Needs_User \<Rightarrow> ''needs_user'')"

record evaluation_decision =
  ed_schema_version :: string
  ed_status :: evaluation_status
  ed_reason_summary :: string
  ed_missing_requirements :: "string list"
  ed_invalid_results :: "string list"
  ed_suggested_new_nodes :: "plan_node list"
  ed_user_question :: "string option"
  ed_completion_summary :: "string option"

definition fingerprint_swarm_plan :: "(string \<Rightarrow> string) \<Rightarrow> plan_proposal \<Rightarrow> py_error + string" where
  "fingerprint_swarm_plan H p =
    and_then (semantic_node_signatures H (sp_nodes p)) (\<lambda>nodes.
      Inr (fingerprint H (JObj [(''schema_version'', JStr (sp_schema_version p)), (''objective'', JStr (sp_objective p)),
        (''nodes'', texts nodes), (''completion_criteria'', texts (sort (sp_completion_criteria p))),
        (''max_parallelism'', JInt (sp_max_parallelism p))])))"

definition fingerprint_evaluation_decision :: "(string \<Rightarrow> string) \<Rightarrow> evaluation_decision \<Rightarrow> py_error + string" where
  "fingerprint_evaluation_decision H d =
    and_then (semantic_node_signatures H (ed_suggested_new_nodes d)) (\<lambda>nodes.
      Inr (fingerprint H (JObj [(''schema_version'', JStr (ed_schema_version d)),
        (''status'', JStr (evaluation_status_value (ed_status d))),
        (''missing_requirements'', texts (sort (ed_missing_requirements d))),
        (''invalid_results'', texts (sort (ed_invalid_results d))), (''suggested_new_nodes'', texts nodes),
        (''user_question'', case ed_user_question d of None \<Rightarrow> JNull | Some q \<Rightarrow> JStr q)])))"

section \<open>Validation\<close>

record validated_plan =
  vp_proposal :: plan_proposal
  vp_topological_order :: "string list"
  vp_fingerprint :: string

record validated_decision =
  vd_decision :: evaluation_decision
  vd_suggested_node_order :: "string list"
  vd_fingerprint :: string

definition validate_swarm_plan :: "(string \<Rightarrow> string) \<Rightarrow> permission_policy \<Rightarrow> int \<Rightarrow> int \<Rightarrow> string list option \<Rightarrow>
    plan_proposal \<Rightarrow> py_error + validated_plan" where
  "validate_swarm_plan H policy max_nodes max_parallelism available_skills proposal =
    (if list_ex (\<lambda>n. pn_retry_of n \<noteq> None) (sp_nodes proposal)
     then Inl (plan_error (''only evaluator extensions may reference a previous attempt'') None)
     else if int (length (sp_nodes proposal)) > min max_nodes (int max_plan_nodes)
     then Inl (plan_error (''plan exceeds the configured '' @ show_int max_nodes @ ''-node budget'') (Some ''step_budget''))
     else if sp_max_parallelism proposal > min max_parallelism (int max_plan_parallelism)
     then Inl (plan_error (''plan exceeds the configured parallelism budget'') (Some ''parallelism_budget''))
     else and_then (validate_node_graph (sp_nodes proposal) policy [] available_skills) (\<lambda>order.
       and_then (fingerprint_swarm_plan H proposal) (\<lambda>f.
         Inr \<lparr>vp_proposal = proposal, vp_topological_order = order, vp_fingerprint = f\<rparr>)))"

definition validate_evaluation_decision :: "(string \<Rightarrow> string) \<Rightarrow> permission_policy \<Rightarrow> string list \<Rightarrow> string list option \<Rightarrow>
    evaluation_decision \<Rightarrow> py_error + validated_decision" where
  "validate_evaluation_decision H policy known_node_ids available_skills decision =
    (let suggested = ed_suggested_new_nodes decision;
         repairs = List.map_filter pn_retry_of suggested in
     if ed_status decision \<noteq> Eval_Continue \<and> ed_status decision \<noteq> Eval_Replan \<and> suggested \<noteq> []
     then Inl (plan_error (''only continue or replan may suggest new nodes'') None)
     else if \<not> distinct known_node_ids
     then Inl (plan_error (''known node ids must be unique'') None)
     else if max_plan_nodes < length known_node_ids + length suggested
     then Inl (plan_error (''suggested nodes exceed the goal node budget'') None)
     else if \<not> set repairs \<subseteq> set known_node_ids \<or> \<not> distinct repairs
     then Inl (plan_error (''writing repairs require unique known previous attempts'') None)
     else and_then (validate_node_graph suggested policy known_node_ids available_skills) (\<lambda>order.
       and_then (fingerprint_evaluation_decision H decision) (\<lambda>f.
         Inr \<lparr>vd_decision = decision, vd_suggested_node_order = order, vd_fingerprint = f\<rparr>)))"

section \<open>What the signatures compute\<close>

text \<open>The signature of a node, by recursion on the depth alone.\<close>

fun node_signature :: "(string \<Rightarrow> string) \<Rightarrow> plan_node list \<Rightarrow> nat \<Rightarrow> string \<Rightarrow> string" where
  "node_signature H nodes 0 i = (case node_by_id nodes i of None \<Rightarrow> ''external:'' @ i | Some n \<Rightarrow> [])"
| "node_signature H nodes (Suc k) i = (case node_by_id nodes i of None \<Rightarrow> ''external:'' @ i
    | Some n \<Rightarrow> fingerprint H (signature_json n (map (node_signature H nodes k) (pn_dependencies n))
        (map (node_signature H nodes k) (pn_optional_dependencies n))))"

lemma node_by_id_iff:
  assumes "distinct (plan_ids nodes)"
  shows "node_by_id nodes i = Some n \<longleftrightarrow> n \<in> set nodes \<and> pn_temporary_id n = i"
proof -
  have keys: "map fst (map (\<lambda>n. (pn_temporary_id n, n)) nodes) = plan_ids nodes"
    by (simp add: plan_ids_def)
  then have "node_by_id nodes i = map_of (map (\<lambda>n. (pn_temporary_id n, n)) nodes) i"
    using assms by (simp only: node_by_id_def dict_of_pairs_distinct)
  moreover have "\<dots> = Some n \<longleftrightarrow> (i, n) \<in> set (map (\<lambda>n. (pn_temporary_id n, n)) nodes)"
    by (rule map_of_eq_Some_iff) (use assms keys in simp)
  ultimately show ?thesis by auto
qed

lemma node_by_id_None:
  assumes "distinct (plan_ids nodes)"
  shows "node_by_id nodes i = None \<longleftrightarrow> i \<notin> set (plan_ids nodes)"
proof (cases "node_by_id nodes i")
  case None
  then show ?thesis using node_by_id_iff [OF assms, of i] by (auto simp: plan_ids_def)
next
  case (Some n)
  then show ?thesis using node_by_id_iff [OF assms, of i n] by (auto simp: plan_ids_def)
qed

text \<open>What the recursion needs of the graph: a rank that falls along its edges.\<close>

definition ranked :: "plan_node list \<Rightarrow> (string \<Rightarrow> nat) \<Rightarrow> bool" where
  "ranked nodes rank \<longleftrightarrow> distinct (plan_ids nodes) \<and> (\<forall>d n. (d, n) \<in> set (plan_edges nodes) \<longrightarrow> rank d < rank n) \<and>
     (\<forall>i \<in> set (plan_ids nodes). rank i < length nodes)"

lemma accepted_ranked:
  assumes "validate_node_dependencies nodes known = Inr order"
  obtains rank where "ranked nodes rank"
proof -
  have v: "references_ok nodes known" "least_order (plan_ids nodes) (plan_edges nodes) order"
    "set order = set (plan_ids nodes)"
    using assms by (auto simp: validated_order_iff)
  obtain rank where rank: "\<forall>d n. (d, n) \<in> set (plan_edges nodes) \<longrightarrow> rank d < rank n"
    "\<forall>n \<in> set (plan_ids nodes). rank n < length order"
    by (rule least_order_rank [OF v(2,3) edges_into_ids])
  have ids: "distinct (plan_ids nodes)" using v(1) by (simp add: references_ok_def)
  have "length order = length (plan_ids nodes)"
    using least_order_distinct [OF v(2)] v(3) ids by (metis distinct_card)
  then have "length order = length nodes" by (simp add: plan_ids_def)
  then have "ranked nodes rank" using rank ids by (simp add: ranked_def)
  then show ?thesis by (rule that)
qed

lemma ranked_reference:
  assumes "ranked nodes rank" and "n \<in> set nodes" and "d \<in> set (node_references n)"
    and "node_by_id nodes d \<noteq> None"
  shows "rank d < rank (pn_temporary_id n)" "d \<in> set (plan_ids nodes)"
  using assms node_by_id_None [of nodes d] by (auto simp: ranked_def plan_edge_iff)

lemma node_signature_stable:
  assumes "ranked nodes rank"
  shows "(i \<in> set (plan_ids nodes) \<longrightarrow> rank i < k \<and> rank i < k') \<Longrightarrow>
    node_signature H nodes k i = node_signature H nodes k' i"
proof (induction k arbitrary: k' i)
  case 0
  then have "i \<notin> set (plan_ids nodes)" by blast
  then have "node_by_id nodes i = None" using assms node_by_id_None by (auto simp: ranked_def)
  then show ?case by (cases k') simp_all
next
  case (Suc k)
  show ?case
  proof (cases "node_by_id nodes i")
    case None
    then show ?thesis by (cases k') simp_all
  next
    case (Some n)
    have distinct: "distinct (plan_ids nodes)" using assms by (simp add: ranked_def)
    have n: "n \<in> set nodes" "pn_temporary_id n = i" "i \<in> set (plan_ids nodes)"
      using Some node_by_id_iff [OF distinct] by (auto simp: plan_ids_def)
    then obtain j where j: "k' = Suc j" "rank i \<le> k" "rank i \<le> j" using Suc.prems by (cases k') auto
    have "node_signature H nodes k d = node_signature H nodes j d" if d: "d \<in> set (node_references n)" for d
    proof (rule Suc.IH, rule impI)
      assume "d \<in> set (plan_ids nodes)"
      then have "rank d < rank i"
        using ranked_reference(1) [OF assms n(1) d] node_by_id_None [OF distinct] n(2) by simp
      then show "rank d < k \<and> rank d < j" using j by simp
    qed
    then show ?thesis using Some by (simp add: j(1) node_references_def cong: map_cong)
  qed
qed

definition full_signature :: "(string \<Rightarrow> string) \<Rightarrow> plan_node list \<Rightarrow> string \<Rightarrow> string" where
  "full_signature H nodes = node_signature H nodes (length nodes)"

lemma full_signature_node:
  assumes r: "ranked nodes rank" and n: "node_by_id nodes i = Some n"
  shows "full_signature H nodes i = fingerprint H (signature_json n
    (map (full_signature H nodes) (pn_dependencies n)) (map (full_signature H nodes) (pn_optional_dependencies n)))"
proof -
  have distinct: "distinct (plan_ids nodes)" using r by (simp add: ranked_def)
  have i: "n \<in> set nodes" "pn_temporary_id n = i" "i \<in> set (plan_ids nodes)"
    using n node_by_id_iff [OF distinct] by (auto simp: plan_ids_def)
  then have len: "rank i < length nodes" using r by (simp add: ranked_def)
  then obtain k where k: "length nodes = Suc k" by (cases "length nodes") auto
  have "node_signature H nodes k d = node_signature H nodes (Suc k) d" if d: "d \<in> set (node_references n)" for d
  proof (rule node_signature_stable [OF r], rule impI)
    assume "d \<in> set (plan_ids nodes)"
    then have "rank d < rank i"
      using ranked_reference(1) [OF r i(1) d] node_by_id_None [OF distinct] i(2) by simp
    then show "rank d < k \<and> rank d < Suc k" using len k by simp
  qed
  then have "map (node_signature H nodes k) (pn_dependencies n) = map (node_signature H nodes (Suc k)) (pn_dependencies n)"
    "map (node_signature H nodes k) (pn_optional_dependencies n) = map (node_signature H nodes (Suc k)) (pn_optional_dependencies n)"
    by (simp_all add: node_references_def del: node_signature.simps)
  moreover have "node_signature H nodes (Suc k) i = fingerprint H (signature_json n
      (map (node_signature H nodes k) (pn_dependencies n)) (map (node_signature H nodes k) (pn_optional_dependencies n)))"
    by (simp add: n)
  ultimately show ?thesis by (simp only: full_signature_def k)
qed

definition memo_ok :: "(string \<Rightarrow> string) \<Rightarrow> plan_node list \<Rightarrow> (string \<times> string) list \<Rightarrow> bool" where
  "memo_ok H nodes memo \<longleftrightarrow> (\<forall>i s. map_of memo i = Some s \<longrightarrow> s = full_signature H nodes i)"

text \<open>A node can be visited: its rank is within the fuel and below those being visited.\<close>

definition visitable :: "plan_node list \<Rightarrow> (string \<Rightarrow> nat) \<Rightarrow> nat \<Rightarrow> string list \<Rightarrow> string \<Rightarrow> bool" where
  "visitable nodes rank fuel visiting i \<longleftrightarrow>
     (node_by_id nodes i \<noteq> None \<longrightarrow> rank i < fuel \<and> (\<forall>v \<in> set visiting. rank i < rank v))"

lemma visit_computes:
  shows "ranked nodes rank \<Longrightarrow> node_by_id nodes i \<noteq> None \<Longrightarrow> visitable nodes rank fuel (snd st) i \<Longrightarrow>
      memo_ok H nodes (fst st) \<Longrightarrow>
      \<exists>memo. visit H nodes fuel i st = Inr (full_signature H nodes i, memo, snd st) \<and> memo_ok H nodes memo"
    and "ranked nodes rank \<Longrightarrow> list_all (visitable nodes rank fuel (snd st)) ds \<Longrightarrow> memo_ok H nodes (fst st) \<Longrightarrow>
      \<exists>memo. visit_all H nodes fuel ds st = Inr (map (full_signature H nodes) ds, memo, snd st) \<and> memo_ok H nodes memo"
proof (induction H nodes fuel i st and H nodes fuel ds st rule: visit_visit_all.induct)
  case (1 H nodes i st)
  then show ?case by (simp add: visitable_def)
next
  case (2 H nodes fuel i st)
  obtain n where n: "node_by_id nodes i = Some n" using "2.prems"(2) by blast
  have distinct: "distinct (plan_ids nodes)" using "2.prems"(1) by (simp add: ranked_def)
  have in_nodes: "n \<in> set nodes" "pn_temporary_id n = i"
    using n node_by_id_iff [OF distinct] by blast+
  have here: "rank i < Suc fuel" "\<forall>v \<in> set (snd st). rank i < rank v"
    using "2.prems"(2,3) by (simp_all add: visitable_def)
  show ?case
  proof (cases "map_of (fst st) i")
    case (Some s)
    then show ?thesis using "2.prems"(4) by (cases st) (auto simp: memo_ok_def)
  next
    case None
    have fresh: "i \<notin> set (snd st)" using here(2) by blast
    have "visitable nodes rank fuel (i # snd st) d" if "d \<in> set (node_references n)" for d
    proof -
      have "node_by_id nodes d \<noteq> None \<Longrightarrow> rank d < rank i"
        using ranked_reference(1) [OF "2.prems"(1) in_nodes(1) that] in_nodes(2) by simp
      then show ?thesis using here by (fastforce simp: visitable_def)
    qed
    then have deps: "list_all (visitable nodes rank fuel (i # snd st)) (pn_dependencies n)"
      "list_all (visitable nodes rank fuel (i # snd st)) (pn_optional_dependencies n)"
      by (simp_all add: node_references_def list_all_iff)
    obtain m1 where m1: "visit_all H nodes fuel (pn_dependencies n) (fst st, i # snd st) =
        Inr (map (full_signature H nodes) (pn_dependencies n), m1, i # snd st)" "memo_ok H nodes m1"
      using "2.IH"(1) [OF None fresh n "2.prems"(1)] deps(1) "2.prems"(4) by auto
    obtain m2 where m2: "visit_all H nodes fuel (pn_optional_dependencies n) (m1, i # snd st) =
        Inr (map (full_signature H nodes) (pn_optional_dependencies n), m2, i # snd st)" "memo_ok H nodes m2"
      using "2.IH"(2) [OF None fresh n "2.prems"(1), of "(m1, i # snd st)"] deps(2) m1(2) by auto
    have sig: "fingerprint H (signature_json n (map (full_signature H nodes) (pn_dependencies n))
        (map (full_signature H nodes) (pn_optional_dependencies n))) = full_signature H nodes i"
      by (rule full_signature_node [OF "2.prems"(1) n, symmetric])
    have "memo_ok H nodes (dict_set i (full_signature H nodes i) m2)"
      using m2(2) by (simp add: memo_ok_def map_of_dict_set)
    then show ?thesis using fresh None n by (simp add: m1(1) m2(1) sig Let_def)
  qed
next
  case (3 H nodes fuel st)
  then show ?case by (cases st) auto
next
  case (4 H nodes fuel d ds st)
  have "\<exists>m1. (if node_by_id nodes d = None then Inr (''external:'' @ d, st) else visit H nodes fuel d st) =
      Inr (full_signature H nodes d, m1, snd st) \<and> memo_ok H nodes m1"
  proof (cases "node_by_id nodes d = None")
    case True
    then have "full_signature H nodes d = ''external:'' @ d"
      by (cases "length nodes") (simp_all add: full_signature_def)
    with True "4.prems"(3) show ?thesis by (cases st) auto
  next
    case False
    then show ?thesis using "4.IH"(1) [OF False "4.prems"(1) False] "4.prems"(2,3)
      unfolding if_not_P [OF False] by simp
  qed
  then obtain m1 where m1: "(if node_by_id nodes d = None then Inr (''external:'' @ d, st) else visit H nodes fuel d st) =
      Inr (full_signature H nodes d, m1, snd st)" "memo_ok H nodes m1" by blast
  then show ?case using "4.IH"(2) [OF "4.prems"(1), of "(m1, snd st)"] "4.prems"(2) by auto
qed

lemma signatures_computed:
  assumes r: "ranked nodes rank"
  shows "semantic_node_signatures H nodes = Inr (sort (map (full_signature H nodes) (plan_ids nodes)))"
proof -
  have "list_all (visitable nodes rank (Suc (length nodes)) (snd ([], []))) (plan_ids nodes)"
    using r by (auto simp: list_all_iff visitable_def ranked_def intro: less_SucI)
  then obtain memo where "visit_all H nodes (Suc (length nodes)) (plan_ids nodes) ([], []) =
      Inr (map (full_signature H nodes) (plan_ids nodes), memo, snd ([], []))"
    using visit_computes(2) [OF r, of "Suc (length nodes)" "([], [])" "plan_ids nodes" H]
    by (auto simp: memo_ok_def)
  then show ?thesis by (simp add: semantic_node_signatures_def plan_ids_def)
qed

section \<open>Names do not matter\<close>

text \<open>The same node under other names, its dependencies listed in any order.\<close>

definition renamed :: "(string \<Rightarrow> string) \<Rightarrow> plan_node \<Rightarrow> plan_node \<Rightarrow> bool" where
  "renamed f n n' \<longleftrightarrow> n' = n\<lparr>pn_temporary_id := f (pn_temporary_id n), pn_dependencies := pn_dependencies n',
      pn_optional_dependencies := pn_optional_dependencies n'\<rparr> \<and>
    mset (pn_dependencies n') = mset (map f (pn_dependencies n)) \<and>
    mset (pn_optional_dependencies n') = mset (map f (pn_optional_dependencies n))"

lemma renamed_D:
  assumes "renamed f n n'"
  shows "pn_temporary_id n' = f (pn_temporary_id n)" "node_base n' = node_base n"
    "mset (pn_dependencies n') = mset (map f (pn_dependencies n))"
    "mset (pn_optional_dependencies n') = mset (map f (pn_optional_dependencies n))"
proof -
  obtain deps opts where n': "n' = n\<lparr>pn_temporary_id := f (pn_temporary_id n), pn_dependencies := deps,
      pn_optional_dependencies := opts\<rparr>"
    using assms unfolding renamed_def by blast
  show "pn_temporary_id n' = f (pn_temporary_id n)" "node_base n' = node_base n"
    unfolding n' by (simp_all add: node_base_def)
  show "mset (pn_dependencies n') = mset (map f (pn_dependencies n))"
    "mset (pn_optional_dependencies n') = mset (map f (pn_optional_dependencies n))"
    using assms by (simp_all add: renamed_def)
qed

definition renamed_nodes :: "(string \<Rightarrow> string) \<Rightarrow> plan_node list \<Rightarrow> plan_node list \<Rightarrow> bool" where
  "renamed_nodes f nodes nodes' \<longleftrightarrow> (\<exists>ns. list_all2 (renamed f) nodes ns \<and> mset nodes' = mset ns)"

lemma renamed_ids:
  assumes "renamed_nodes f nodes nodes'"
  shows "mset (plan_ids nodes') = mset (map f (plan_ids nodes))" "length nodes' = length nodes"
    "\<And>n. n \<in> set nodes \<Longrightarrow> \<exists>n' \<in> set nodes'. renamed f n n'"
    "\<And>n'. n' \<in> set nodes' \<Longrightarrow> \<exists>n \<in> set nodes. renamed f n n'"
proof -
  obtain ns where ns: "list_all2 (renamed f) nodes ns" "mset nodes' = mset ns"
    using assms by (auto simp: renamed_nodes_def)
  have "map pn_temporary_id ns = map f (plan_ids nodes)"
    using ns(1) by (induction rule: list_all2_induct) (simp_all add: plan_ids_def renamed_D(1))
  then show "mset (plan_ids nodes') = mset (map f (plan_ids nodes))"
    using ns(2) by (metis mset_map plan_ids_def)
  show "length nodes' = length nodes"
    using ns list_all2_lengthD mset_eq_length by metis
  have nodes': "set nodes' = set ns" using ns(2) by (metis set_mset_mset)
  then show "\<exists>n' \<in> set nodes'. renamed f n n'" if "n \<in> set nodes" for n
    using ns(1) that by (force simp: list_all2_conv_all_nth in_set_conv_nth)
  show "\<exists>n \<in> set nodes. renamed f n n'" if "n' \<in> set nodes'" for n'
    using ns(1) that nodes' by (force simp: list_all2_conv_all_nth in_set_conv_nth)
qed

lemma sort_map_mset:
  assumes "mset xs = mset ys" shows "sort (map g xs) = sort (map g ys)"
proof (rule properties_for_sort)
  show "mset (sort (map g ys)) = mset (map g xs)" using assms by simp
qed simp

lemma signature_json_renamed:
  assumes n: "renamed f n n'" and g: "\<And>d. d \<in> set (node_references n) \<Longrightarrow> g' (f d) = g d"
  shows "signature_json n' (map g' (pn_dependencies n')) (map g' (pn_optional_dependencies n')) =
    signature_json n (map g (pn_dependencies n)) (map g (pn_optional_dependencies n))"
proof -
  have deps: "sort (map g' ds') = sort (map g ds)"
    if "mset ds' = mset (map f ds)" and "set ds \<subseteq> set (node_references n)" for ds ds'
  proof -
    have "sort (map g' ds') = sort (map g' (map f ds))" by (rule sort_map_mset [OF that(1)])
    also have "map g' (map f ds) = map g ds" using g that(2) by auto
    finally show ?thesis .
  qed
  then show ?thesis
    using deps [OF renamed_D(3) [OF n]] deps [OF renamed_D(4) [OF n]]
    by (simp add: signature_json_def renamed_D(2) [OF n] node_references_def)
qed

text \<open>A renaming of the new nodes that keeps the known ones apart.\<close>

definition renaming :: "(string \<Rightarrow> string) \<Rightarrow> plan_node list \<Rightarrow> string list \<Rightarrow> plan_node list \<Rightarrow> bool" where
  "renaming f nodes known nodes' \<longleftrightarrow> references_ok nodes known \<and> renamed_nodes f nodes nodes' \<and>
     inj_on f (set (plan_ids nodes) \<union> set known) \<and> (\<forall>d \<in> set known. f d = d)"

lemma renaming_ids:
  assumes "renaming f nodes known nodes'"
  shows "distinct (plan_ids nodes)" "distinct (plan_ids nodes')" "set (plan_ids nodes') = f ` set (plan_ids nodes)"
    "d \<in> set known \<Longrightarrow> f d = d \<and> f d \<notin> set (plan_ids nodes')"
proof -
  have inj: "inj_on f (set (plan_ids nodes) \<union> set known)" and same: "renamed_nodes f nodes nodes'"
    and refs: "references_ok nodes known"
    using assms by (simp_all add: renaming_def)
  show distinct: "distinct (plan_ids nodes)" using refs by (simp add: references_ok_def)
  have "distinct (map f (plan_ids nodes))" using distinct inj by (simp add: distinct_map inj_on_Un)
  then show "distinct (plan_ids nodes')"
    using mset_eq_imp_distinct_iff [OF renamed_ids(1) [OF same]] by simp
  show ids': "set (plan_ids nodes') = f ` set (plan_ids nodes)"
    using arg_cong [OF renamed_ids(1) [OF same], of set_mset] by simp
  show "f d = d \<and> f d \<notin> set (plan_ids nodes')" if "d \<in> set known"
  proof -
    have "d \<notin> set (plan_ids nodes)" using refs that by (auto simp: references_ok_def)
    then have "f d \<notin> f ` set (plan_ids nodes)" using inj_onD [OF inj] that by blast
    then show ?thesis using assms that ids' by (simp add: renaming_def)
  qed
qed

lemma renaming_lookup:
  assumes r: "renaming f nodes known nodes'" and i: "i \<in> set (plan_ids nodes) \<union> set known"
  shows "(case node_by_id nodes i of None \<Rightarrow> f i = i \<and> node_by_id nodes' (f i) = None
    | Some n \<Rightarrow> \<exists>n'. node_by_id nodes' (f i) = Some n' \<and> renamed f n n')"
proof (cases "node_by_id nodes i")
  case None
  then have "i \<in> set known" using i node_by_id_None [OF renaming_ids(1) [OF r]] by blast
  then show ?thesis
    using None renaming_ids(4) [OF r, of i] node_by_id_None [OF renaming_ids(2) [OF r], of i] by auto
next
  case (Some n)
  have same: "renamed_nodes f nodes nodes'" using r by (simp add: renaming_def)
  have "n \<in> set nodes" "pn_temporary_id n = i" using Some node_by_id_iff [OF renaming_ids(1) [OF r]] by blast+
  then obtain n' where "n' \<in> set nodes'" "renamed f n n'" "pn_temporary_id n' = f i"
    using renamed_ids(3) [OF same] renamed_D(1) by blast
  then show ?thesis using Some node_by_id_iff [OF renaming_ids(2) [OF r]] by auto
qed

lemma node_signature_renamed:
  assumes r: "renaming f nodes known nodes'" and "i \<in> set (plan_ids nodes) \<union> set known"
  shows "node_signature H nodes' k (f i) = node_signature H nodes k i"
  using assms(2)
proof (induction k arbitrary: i)
  case 0
  then show ?case using renaming_lookup [OF r, of i] by (cases "node_by_id nodes i") auto
next
  case (Suc k)
  show ?case
  proof (cases "node_by_id nodes i")
    case None
    then show ?thesis using renaming_lookup [OF r Suc.prems] by auto
  next
    case (Some n)
    then obtain n' where n': "node_by_id nodes' (f i) = Some n'" "renamed f n n'"
      using renaming_lookup [OF r Suc.prems] by auto
    have "n \<in> set nodes" using Some node_by_id_iff [OF renaming_ids(1) [OF r]] by blast
    then have "set (node_references n) \<subseteq> set (plan_ids nodes) \<union> set known"
      using r by (simp add: renaming_def references_ok_def node_references_ok_def)
    then have "signature_json n' (map (node_signature H nodes' k) (pn_dependencies n'))
          (map (node_signature H nodes' k) (pn_optional_dependencies n')) =
        signature_json n (map (node_signature H nodes k) (pn_dependencies n))
          (map (node_signature H nodes k) (pn_optional_dependencies n))"
      by (intro signature_json_renamed [OF n'(2)] Suc.IH) auto
    with Some n'(1) show ?thesis by simp
  qed
qed

lemma renaming_ranked:
  assumes r: "renaming f nodes known nodes'" and rank: "ranked nodes rank"
  shows "ranked nodes' (rank \<circ> inv_into (set (plan_ids nodes)) f)"
proof -
  have inj: "inj_on f (set (plan_ids nodes))" and same: "renamed_nodes f nodes nodes'"
    using r by (simp_all add: renaming_def inj_on_Un)
  have inv: "inv_into (set (plan_ids nodes)) f (f i) = i" if "i \<in> set (plan_ids nodes)" for i
    by (rule inv_into_f_f [OF inj that])
  have edge: "\<exists>d m. (d, m) \<in> set (plan_edges nodes) \<and> d' = f d \<and> m' = f m" if e: "(d', m') \<in> set (plan_edges nodes')" for d' m'
  proof -
    obtain n' where n': "n' \<in> set nodes'" "m' = pn_temporary_id n'" "d' \<in> set (node_references n')"
      "d' \<in> set (plan_ids nodes')"
      using e by (auto simp: plan_edge_iff)
    obtain n where n: "n \<in> set nodes" "renamed f n n'" using renamed_ids(4) [OF same n'(1)] by blast
    have "set (node_references n') = f ` set (node_references n)"
      using arg_cong [OF renamed_D(3) [OF n(2)], of set_mset] arg_cong [OF renamed_D(4) [OF n(2)], of set_mset]
      by (simp add: node_references_def image_Un)
    then obtain d where d: "d \<in> set (node_references n)" "d' = f d" using n'(3) by auto
    have "d \<in> set (plan_ids nodes) \<union> set known"
      using r n(1) d(1) by (auto simp: renaming_def references_ok_def node_references_ok_def)
    then have "d \<in> set (plan_ids nodes)" using renaming_ids(4) [OF r] n'(4) d(2) by auto
    then show ?thesis using n d n'(2) renamed_D(1) [OF n(2)] by (auto simp: plan_edge_iff)
  qed
  have ids: "d \<in> set (plan_ids nodes) \<and> m \<in> set (plan_ids nodes)" if "(d, m) \<in> set (plan_edges nodes)" for d m
    using that edges_into_ids by blast
  have "(rank \<circ> inv_into (set (plan_ids nodes)) f) d' < (rank \<circ> inv_into (set (plan_ids nodes)) f) m'"
    if "(d', m') \<in> set (plan_edges nodes')" for d' m'
    using edge [OF that] inv ids rank by (auto simp: ranked_def)
  then show ?thesis
    using renaming_ids [OF r] rank inv renamed_ids(2) [OF same] by (auto simp: ranked_def)
qed

lemma signatures_renamed:
  assumes "validate_node_dependencies nodes known = Inr order" and "renamed_nodes f nodes nodes'"
    and "inj_on f (set (plan_ids nodes) \<union> set known)" and "\<forall>d \<in> set known. f d = d"
  shows "semantic_node_signatures H nodes' = semantic_node_signatures H nodes"
proof -
  obtain rank where rank: "ranked nodes rank" by (rule accepted_ranked [OF assms(1)])
  have r: "renaming f nodes known nodes'"
    using assms by (simp add: renaming_def validated_order_iff)
  have "full_signature H nodes' (f i) = full_signature H nodes i" if "i \<in> set (plan_ids nodes)" for i
    using node_signature_renamed [OF r, of i] that renamed_ids(2) [OF assms(2)] by (simp add: full_signature_def)
  then have eq: "map (full_signature H nodes') (map f (plan_ids nodes)) = map (full_signature H nodes) (plan_ids nodes)"
    by simp
  have "sort (map (full_signature H nodes') (plan_ids nodes')) =
      sort (map (full_signature H nodes') (map f (plan_ids nodes)))"
    by (rule sort_map_mset [OF renamed_ids(1) [OF assms(2)]])
  then show ?thesis
    unfolding signatures_computed [OF rank] signatures_computed [OF renaming_ranked [OF r rank]] by (simp only: eq)
qed

section \<open>What an accepted plan is\<close>

lemma for_each_unit_iff:
  assumes "\<And>x. f x () = Inr () \<longleftrightarrow> P x"
  shows "for_each f xs () = Inr () \<longleftrightarrow> list_all P xs"
proof (induction xs)
  case Nil
  then show ?case by simp
next
  case (Cons x xs)
  then show ?case using assms [of x] by (cases "f x ()") auto
qed

definition worker_allowed :: "permission_policy \<Rightarrow> string list option \<Rightarrow> string \<Rightarrow> bool" where
  "worker_allowed policy available skill \<longleftrightarrow>
     (\<exists>rule. evaluate_worker_skill policy skill = Inr rule \<and> wr_decision rule = ''allow'') \<and>
     (case available of None \<Rightarrow> True | Some skills \<Rightarrow> skill \<in> set skills)"

lemma validate_worker_policy_iff:
  "validate_worker_policy policy n = Inr () \<longleftrightarrow> pn_node_type n = Synthesis \<or>
    (\<exists>skill rule. pn_required_skill n = Some skill \<and> evaluate_worker_skill policy skill = Inr rule \<and> wr_decision rule = ''allow'')"
  by (cases "pn_node_type n"; cases "pn_required_skill n")
    (auto simp: validate_worker_policy_def split: sum.split)

lemma check_available_iff:
  "check_available available n () = Inr () \<longleftrightarrow> pn_node_type n = Synthesis \<or> skill_in (pn_required_skill n) available"
  by (cases "pn_node_type n") (auto simp: check_available_def)

lemma validate_worker_capabilities_iff:
  "validate_worker_capabilities nodes available = Inr () \<longleftrightarrow> (case available of None \<Rightarrow> True
    | Some skills \<Rightarrow> list_all (\<lambda>n. pn_node_type n = Synthesis \<or> skill_in (pn_required_skill n) skills) nodes)"
  using for_each_unit_iff [of "check_available skills" for skills, OF check_available_iff]
  by (simp add: validate_worker_capabilities_def split: option.split)

lemma validated_graphD:
  assumes "validate_node_graph nodes policy known available = Inr order"
  shows "validate_node_dependencies nodes known = Inr order"
    "length (filter (\<lambda>n. skill_in (pn_required_skill n) mutating_skills) nodes) \<le> 1"
    "list_all (\<lambda>n. pn_node_type n = Synthesis \<or>
      (\<exists>skill. pn_required_skill n = Some skill \<and> worker_allowed policy available skill)) nodes"
proof -
  have parts: "validate_project_plan_shape nodes = Inr ()" "validate_worker_capabilities nodes available = Inr ()"
    "for_each (\<lambda>n _. validate_worker_policy policy n) nodes () = Inr ()"
    and order: "validate_node_dependencies nodes known = Inr order"
    using assms by (auto simp: validate_node_graph_def split: if_split_asm)
  show "validate_node_dependencies nodes known = Inr order" by (rule order)
  show "length (filter (\<lambda>n. skill_in (pn_required_skill n) mutating_skills) nodes) \<le> 1"
    using parts(1) by (simp add: validate_project_plan_shape_def Let_def split: if_split_asm)
  show "list_all (\<lambda>n. pn_node_type n = Synthesis \<or>
      (\<exists>skill. pn_required_skill n = Some skill \<and> worker_allowed policy available skill)) nodes"
    unfolding list_all_iff
  proof
    fix n assume n: "n \<in> set nodes"
    have "pn_node_type n = Synthesis \<or>
        (\<exists>skill rule. pn_required_skill n = Some skill \<and> evaluate_worker_skill policy skill = Inr rule \<and> wr_decision rule = ''allow'')"
      using parts(3) n
      unfolding for_each_unit_iff [of "\<lambda>n _. validate_worker_policy policy n", OF validate_worker_policy_iff] list_all_iff
      by blast
    moreover have "pn_node_type n = Synthesis \<or> (case available of None \<Rightarrow> True
        | Some skills \<Rightarrow> skill_in (pn_required_skill n) skills)"
      using parts(2) n by (simp add: validate_worker_capabilities_iff list_all_iff split: option.splits)
    ultimately show "pn_node_type n = Synthesis \<or>
        (\<exists>skill. pn_required_skill n = Some skill \<and> worker_allowed policy available skill)"
      by (cases available) (auto simp: worker_allowed_def skill_in_def)
  qed
qed


lemma accepted_plan_fields:
  assumes "validate_swarm_plan H policy max_nodes max_parallelism available p = Inr v"
  shows "\<not> list_ex (\<lambda>n. pn_retry_of n \<noteq> None) (sp_nodes p)"
    "int (length (sp_nodes p)) \<le> min max_nodes (int max_plan_nodes)"
    "sp_max_parallelism p \<le> min max_parallelism (int max_plan_parallelism)"
    "validate_node_graph (sp_nodes p) policy [] available = Inr (vp_topological_order v)"
    "validate_node_dependencies (sp_nodes p) [] = Inr (vp_topological_order v)"
    "fingerprint_swarm_plan H p = Inr (vp_fingerprint v)" "vp_proposal v = p"
proof -
  show "\<not> list_ex (\<lambda>n. pn_retry_of n \<noteq> None) (sp_nodes p)"
    "int (length (sp_nodes p)) \<le> min max_nodes (int max_plan_nodes)"
    "sp_max_parallelism p \<le> min max_parallelism (int max_plan_parallelism)"
    and graph: "validate_node_graph (sp_nodes p) policy [] available = Inr (vp_topological_order v)"
    and "fingerprint_swarm_plan H p = Inr (vp_fingerprint v)" "vp_proposal v = p"
    using assms unfolding validate_swarm_plan_def by (auto split: if_split_asm)
  show "validate_node_dependencies (sp_nodes p) [] = Inr (vp_topological_order v)"
    by (rule validated_graphD(1) [OF graph])
qed

text \<open>
  C39. An accepted plan is within every bound and authority of the server: its size and parallelism
  stay within what was configured and the absolute limits, no node repeats an earlier attempt, at
  most one worker may change a project, each worker has a skill the policy allows and the agents
  offer, the order covers its graph, and the proposal itself is unchanged.
\<close>

theorem accepted_plan_is_allowed:
  assumes "validate_swarm_plan H policy max_nodes max_parallelism available p = Inr v"
  shows "vp_proposal v = p \<and> int (length (sp_nodes p)) \<le> max_nodes \<and> length (sp_nodes p) \<le> 20 \<and>
    sp_max_parallelism p \<le> max_parallelism \<and> sp_max_parallelism p \<le> 3 \<and>
    validate_node_dependencies (sp_nodes p) [] = Inr (vp_topological_order v) \<and>
    fingerprint_swarm_plan H p = Inr (vp_fingerprint v) \<and>
    length (filter (\<lambda>n. skill_in (pn_required_skill n) mutating_skills) (sp_nodes p)) \<le> 1 \<and>
    list_all (\<lambda>n. pn_retry_of n = None \<and> (pn_node_type n = Synthesis \<or>
      (\<exists>skill. pn_required_skill n = Some skill \<and> worker_allowed policy available skill))) (sp_nodes p)"
  using accepted_plan_fields [OF assms] validated_graphD(2,3) [OF accepted_plan_fields(4) [OF assms]]
  by (auto simp: max_plan_nodes_def max_plan_parallelism_def list_ex_iff list_all_iff)

text \<open>
  The fingerprint identifies a plan up to its wording: giving the nodes other identifiers,
  listing nodes, dependencies or completion criteria in another order, or rewriting the rationale
  leaves it unchanged, so a plan proposed again under new names is recognised.
\<close>

theorem plan_fingerprint_ignores_names:
  assumes "validate_swarm_plan H policy max_nodes max_parallelism available p = Inr v"
    and "renamed_nodes f (sp_nodes p) (sp_nodes p')" and "inj_on f (pn_temporary_id ` set (sp_nodes p))"
    and "sp_schema_version p' = sp_schema_version p" and "sp_objective p' = sp_objective p"
    and "mset (sp_completion_criteria p') = mset (sp_completion_criteria p)"
    and "sp_max_parallelism p' = sp_max_parallelism p"
  shows "fingerprint_swarm_plan H p' = Inr (vp_fingerprint v)"
proof -
  have order: "validate_node_dependencies (sp_nodes p) [] = Inr (vp_topological_order v)"
    and f: "fingerprint_swarm_plan H p = Inr (vp_fingerprint v)"
    using accepted_plan_fields [OF assms(1)] by blast+
  have "semantic_node_signatures H (sp_nodes p') = semantic_node_signatures H (sp_nodes p)"
    by (rule signatures_renamed [OF order assms(2)]) (use assms(3) in \<open>simp_all add: plan_ids_def\<close>)
  moreover have "sort (sp_completion_criteria p') = sort (sp_completion_criteria p)"
    using sort_map_mset [OF assms(6), of "\<lambda>x. x"] by simp
  ultimately show ?thesis using f assms by (simp add: fingerprint_swarm_plan_def)
qed

section \<open>A concrete plan\<close>

definition demo_skill_rule :: "string \<Rightarrow> worker_rule" where
  "demo_skill_rule skill = \<lparr>wr_id = ''worker.'' @ skill, wr_description = ''d'', wr_decision = ''allow'',
    wr_risk = ''low'', wr_auto_redistribute = False\<rparr>"

definition demo_skill_policy :: permission_policy where
  "demo_skill_policy = \<lparr>pp_protected_paths = [],
    pp_process = \<lparr>xp_backend = ''bubblewrap'', xp_binary = ''/usr/bin/bwrap'', xp_limiter_binary = ''/usr/bin/prlimit'',
      xp_network = ''deny'', xp_allowed_commands = [], xp_max_timeout_seconds = 1, xp_max_output_bytes = 1,
      xp_max_memory_bytes = 1, xp_max_processes = 1, xp_max_file_bytes = 1, xp_max_open_files = 1\<rparr>,
    pp_tool_rules = [], pp_capability_rules = [],
    pp_worker_skill_rules = map (\<lambda>s. (s, demo_skill_rule s)) [''research.query'', ''workspace.list_dir'']\<rparr>"

definition demo_plan :: "plan_node list \<Rightarrow> plan_proposal" where
  "demo_plan nodes = \<lparr>sp_schema_version = ''1.0'', sp_objective = ''o'', sp_rationale_summary = ''r'', sp_nodes = nodes,
    sp_completion_criteria = [''c''], sp_max_parallelism = 2\<rparr>"

definition demo_hash :: "string \<Rightarrow> string" where
  "demo_hash m = ''h''"

definition demo_validated :: validated_plan where
  "demo_validated = \<lparr>vp_proposal = demo_plan demo_nodes, vp_topological_order = [''b'', ''a'', ''s''], vp_fingerprint = ''h''\<rparr>"

lemma demo_plan_accepted:
  "validate_swarm_plan demo_hash demo_skill_policy 20 3 (Some [''research.query'', ''workspace.list_dir'']) (demo_plan demo_nodes) =
    Inr demo_validated"
  by code_simp

lemma accepted_plan_is_allowed_witness:
  "\<exists>v. validate_swarm_plan demo_hash demo_skill_policy 20 3 (Some [''research.query'', ''workspace.list_dir'']) (demo_plan demo_nodes) = Inr v \<and>
    sp_max_parallelism (demo_plan demo_nodes) \<le> 3 \<and> vp_topological_order v = [''b'', ''a'', ''s''] \<and>
    validate_node_dependencies demo_nodes [] = Inr (vp_topological_order v) \<and>
    list_all (\<lambda>n. pn_retry_of n = None \<and> (pn_node_type n = Synthesis \<or> (\<exists>skill. pn_required_skill n = Some skill \<and>
      worker_allowed demo_skill_policy (Some [''research.query'', ''workspace.list_dir'']) skill))) demo_nodes"
proof (intro exI conjI, rule demo_plan_accepted)
  have nodes: "sp_nodes (demo_plan demo_nodes) = demo_nodes" by (simp add: demo_plan_def)
  note a = accepted_plan_is_allowed [OF demo_plan_accepted, unfolded nodes]
  show "sp_max_parallelism (demo_plan demo_nodes) \<le> 3" using a by blast
  show "vp_topological_order demo_validated = [''b'', ''a'', ''s'']" by (simp add: demo_validated_def)
  show "validate_node_dependencies demo_nodes [] = Inr (vp_topological_order demo_validated)" using a by blast
  show "list_all (\<lambda>n. pn_retry_of n = None \<and> (pn_node_type n = Synthesis \<or> (\<exists>skill. pn_required_skill n = Some skill \<and>
      worker_allowed demo_skill_policy (Some [''research.query'', ''workspace.list_dir'']) skill))) demo_nodes" using a by blast
qed

definition demo_rename :: "string \<Rightarrow> string" where
  "demo_rename i = (if i = ''b'' then ''z'' else i)"

definition demo_renamed_nodes :: "plan_node list" where
  "demo_renamed_nodes = [demo_node ''z'' (Some ''research.query'') [], demo_node ''s'' None [''z'', ''a''],
    demo_node ''a'' (Some ''workspace.list_dir'') [''z'']]"

lemma demo_renaming: "renamed_nodes demo_rename demo_nodes demo_renamed_nodes"
  unfolding renamed_nodes_def
proof (intro exI conjI)
  show "list_all2 (renamed demo_rename) demo_nodes [demo_node ''s'' None [''z'', ''a''],
      demo_node ''z'' (Some ''research.query'') [], demo_node ''a'' (Some ''workspace.list_dir'') [''z'']]"
    by (simp add: demo_nodes_def renamed_def demo_node_def demo_rename_def)
  show "mset demo_renamed_nodes = mset [demo_node ''s'' None [''z'', ''a''],
      demo_node ''z'' (Some ''research.query'') [], demo_node ''a'' (Some ''workspace.list_dir'') [''z'']]"
    by (simp add: demo_renamed_nodes_def)
qed

lemma plan_fingerprint_ignores_names_witness:
  "fingerprint_swarm_plan demo_hash (demo_plan demo_renamed_nodes) = Inr ''h''"
  using plan_fingerprint_ignores_names [OF demo_plan_accepted, of demo_rename "demo_plan demo_renamed_nodes"] demo_renaming
  by (simp add: demo_plan_def demo_validated_def) (simp add: demo_nodes_def demo_node_def demo_rename_def inj_on_def)

end
