(* ===== verification/Distributed_State.thy ===== *)
theory Distributed_State
  imports Approval_Gateway
begin

text \<open>
  \<open>server/app/services/distributed_state.py\<close>, the state machines of tasks and of the jobs remote
  agents run, and \<open>server/app/services/agent_lease.py\<close>, the check of the proof of a lease that a
  worker presents. The tables of the distributed runtime extend the state of the approvals; they
  are those of the schema in \<open>state_service.py\<close>. A transition is one UPDATE that names the status it
  expects, so it fails when the row has moved.
\<close>

section \<open>Tables\<close>

datatype job_status = Job_Queued | Job_Claimed | Job_Running | Job_Completed | Job_Failed | Job_Cancelled
  | Job_Quarantined

record job_row =
  aj_id :: string
  aj_task_id :: string
  aj_required_skill :: string
  aj_payload_json :: string
  aj_status :: job_status
  aj_claimed_by :: "string option"
  aj_claim_token :: "string option"
  aj_lease_id :: "string option"
  aj_lease_token_hash :: "string option"
  aj_lease_expires_at :: "string option"
  aj_lease_generation :: int
  aj_result_json :: "string option"
  aj_error :: "string option"
  aj_created_at :: string
  aj_updated_at :: string
  aj_claimed_at :: "string option"
  aj_heartbeat_at :: "string option"
  aj_completed_at :: "string option"
  aj_attempt_count :: int
  aj_max_attempts :: int
  aj_last_agent_id :: "string option"
  aj_last_failure_reason :: "string option"

record job_metrics_row =
  jm_lease_expirations :: int
  jm_retries :: int
  jm_dead_letter_events :: int
  jm_updated_at :: "string option"

record capability_request_row =
  cr_id :: string
  cr_task_id :: string
  cr_requesting_agent_id :: string
  cr_requesting_job_id :: string
  cr_lease_generation :: int
  cr_device_id :: string
  cr_capability_name :: string
  cr_arguments_json :: string
  cr_request_fingerprint :: string
  cr_action_digest :: string
  cr_status :: string
  cr_approval_id :: string
  cr_request_audit_id :: int
  cr_created_at :: string
  cr_expires_at :: string
  cr_delivered_at :: "string option"
  cr_completed_at :: "string option"

record capability_grant_row =
  cg_id :: string
  cg_request_id :: string
  cg_device_id :: string
  cg_capability_name :: string
  cg_approval_id :: string
  cg_token_hash :: string
  cg_action_digest :: string
  cg_issued_at :: string
  cg_expires_at :: string
  cg_consumed_at :: "string option"

record skill_policy_row =
  sk_epoch :: int
  sk_rules_json :: string
  sk_rules_digest :: string
  sk_updated_at :: string

text \<open>
  \<open>agent_job_operational_metrics\<close> and \<open>worker_skill_policy_state\<close> hold at most the row with
  \<open>singleton_id = 1\<close>.
\<close>

record job_db = approval_db +
  agent_jobs :: "job_row sql_table"
  job_metrics :: "job_metrics_row option"
  capability_requests :: "capability_request_row sql_table"
  capability_grants :: "capability_grant_row sql_table"
  skill_policy_state :: "skill_policy_row option"

section \<open>Tasks\<close>

definition task_status_name :: "task_status \<Rightarrow> string" where
  "task_status_name s = (case s of Task_Created \<Rightarrow> ''created'' | Task_Planned \<Rightarrow> ''planned''
    | Task_Waiting_Permission \<Rightarrow> ''waiting_permission'' | Task_Queued \<Rightarrow> ''queued'' | Task_Running \<Rightarrow> ''running''
    | Task_Blocked \<Rightarrow> ''blocked'' | Task_Completed \<Rightarrow> ''completed'' | Task_Failed \<Rightarrow> ''failed''
    | Task_Cancelled \<Rightarrow> ''cancelled'')"

definition task_allowed :: "task_status \<Rightarrow> task_status list" where
  "task_allowed s = (case s of
      Task_Created \<Rightarrow> [Task_Queued, Task_Cancelled]
    | Task_Planned \<Rightarrow> [Task_Queued, Task_Cancelled]
    | Task_Queued \<Rightarrow> [Task_Running, Task_Cancelled, Task_Failed]
    | Task_Running \<Rightarrow> [Task_Queued, Task_Completed, Task_Failed, Task_Cancelled]
    | Task_Waiting_Permission \<Rightarrow> [Task_Cancelled]
    | Task_Blocked \<Rightarrow> [Task_Cancelled]
    | Task_Completed \<Rightarrow> [] | Task_Failed \<Rightarrow> [] | Task_Cancelled \<Rightarrow> [])"

definition task_terminal :: "task_status \<Rightarrow> bool" where
  "task_terminal s \<longleftrightarrow> s = Task_Completed \<or> s = Task_Failed \<or> s = Task_Cancelled"

definition moved_task :: "task_status \<Rightarrow> string \<Rightarrow> string option \<Rightarrow> task_row \<Rightarrow> task_row" where
  "moved_task target now error r = r\<lparr>tk_status := target, tk_updated_at := now,
    tk_completed_at := if task_terminal target then Some now else None,
    tk_error_json := if or_empty error = [] then None
      else Some (json_ascii False '', '' '': '' (JObj [(''message'', JStr (or_empty error))]))\<rparr>"

definition transition_task :: "string \<Rightarrow> task_status \<Rightarrow> task_status \<Rightarrow> string \<Rightarrow> string option \<Rightarrow>
    'z approval_db_scheme \<Rightarrow> py_error + 'z approval_db_scheme" where
  "transition_task task_id current target now error db =
    (if target \<notin> set (task_allowed current)
     then Inl (DistributedStateConflict (''task cannot transition from '' @ task_status_name current @
       '' to '' @ task_status_name target))
     else
       let hit = (\<lambda>r. tk_id r = task_id \<and> tk_status r = current) in
       if sql_rowcount hit (tasks db) \<noteq> 1
       then Inl (DistributedStateConflict ''task changed during distributed transition'')
       else Inr (db\<lparr>tasks := sql_update hit (moved_task target now error) (tasks db)\<rparr>))"

section \<open>Jobs\<close>

definition job_status_name :: "job_status \<Rightarrow> string" where
  "job_status_name s = (case s of Job_Queued \<Rightarrow> ''queued'' | Job_Claimed \<Rightarrow> ''claimed'' | Job_Running \<Rightarrow> ''running''
    | Job_Completed \<Rightarrow> ''completed'' | Job_Failed \<Rightarrow> ''failed'' | Job_Cancelled \<Rightarrow> ''cancelled''
    | Job_Quarantined \<Rightarrow> ''quarantined'')"

definition job_allowed :: "job_status \<Rightarrow> job_status list" where
  "job_allowed s = (case s of
      Job_Queued \<Rightarrow> [Job_Claimed, Job_Cancelled, Job_Failed, Job_Quarantined]
    | Job_Claimed \<Rightarrow> [Job_Running, Job_Queued, Job_Completed, Job_Failed, Job_Cancelled, Job_Quarantined]
    | Job_Running \<Rightarrow> [Job_Running, Job_Queued, Job_Completed, Job_Failed, Job_Cancelled, Job_Quarantined]
    | Job_Completed \<Rightarrow> [] | Job_Failed \<Rightarrow> [] | Job_Cancelled \<Rightarrow> [] | Job_Quarantined \<Rightarrow> [])"

text \<open>
  One entry of \<open>updates\<close>: a constructor for each of \<open>UPDATE_COLUMNS\<close>, with a value of the column's
  type, and one for any other column name.
\<close>

datatype job_update =
    Set_claimed_by "string option"
  | Set_claim_token "string option"
  | Set_lease_id "string option"
  | Set_lease_token_hash "string option"
  | Set_lease_expires_at "string option"
  | Set_lease_generation int
  | Set_result_json "string option"
  | Set_error "string option"
  | Set_claimed_at "string option"
  | Set_heartbeat_at "string option"
  | Set_completed_at "string option"
  | Set_attempt_count int
  | Set_last_agent_id "string option"
  | Set_last_failure_reason "string option"
  | Set_other string

fun unsupported_column :: "job_update \<Rightarrow> bool" where
  "unsupported_column (Set_other c) = True"
| "unsupported_column u = False"

fun set_column :: "job_update \<Rightarrow> job_row \<Rightarrow> job_row" where
  "set_column (Set_claimed_by v) r = r\<lparr>aj_claimed_by := v\<rparr>"
| "set_column (Set_claim_token v) r = r\<lparr>aj_claim_token := v\<rparr>"
| "set_column (Set_lease_id v) r = r\<lparr>aj_lease_id := v\<rparr>"
| "set_column (Set_lease_token_hash v) r = r\<lparr>aj_lease_token_hash := v\<rparr>"
| "set_column (Set_lease_expires_at v) r = r\<lparr>aj_lease_expires_at := v\<rparr>"
| "set_column (Set_lease_generation v) r = r\<lparr>aj_lease_generation := v\<rparr>"
| "set_column (Set_result_json v) r = r\<lparr>aj_result_json := v\<rparr>"
| "set_column (Set_error v) r = r\<lparr>aj_error := v\<rparr>"
| "set_column (Set_claimed_at v) r = r\<lparr>aj_claimed_at := v\<rparr>"
| "set_column (Set_heartbeat_at v) r = r\<lparr>aj_heartbeat_at := v\<rparr>"
| "set_column (Set_completed_at v) r = r\<lparr>aj_completed_at := v\<rparr>"
| "set_column (Set_attempt_count v) r = r\<lparr>aj_attempt_count := v\<rparr>"
| "set_column (Set_last_agent_id v) r = r\<lparr>aj_last_agent_id := v\<rparr>"
| "set_column (Set_last_failure_reason v) r = r\<lparr>aj_last_failure_reason := v\<rparr>"
| "set_column (Set_other c) r = r"

definition moved_job :: "job_status \<Rightarrow> string \<Rightarrow> job_update list \<Rightarrow> job_row \<Rightarrow> job_row" where
  "moved_job target now updates r = fold set_column updates (r\<lparr>aj_status := target, aj_updated_at := now\<rparr>)"

text \<open>\<open>extra\<close> is \<open>extra_where\<close> with its values.\<close>

definition transition_job :: "string \<Rightarrow> job_status \<Rightarrow> job_status \<Rightarrow> string \<Rightarrow> job_update list \<Rightarrow>
    (job_row \<Rightarrow> bool) \<Rightarrow> 'z job_db_scheme \<Rightarrow> py_error + 'z job_db_scheme" where
  "transition_job job_id current target now updates extra db =
    (if target \<notin> set (job_allowed current)
     then Inl (DistributedStateConflict (''job cannot transition from '' @ job_status_name current @
       '' to '' @ job_status_name target))
     else if list_ex unsupported_column updates
     then Inl (ValueError ''unsupported agent job update columns'')
     else
       let hit = (\<lambda>r. aj_id r = job_id \<and> aj_status r = current \<and> extra r) in
       if sql_rowcount hit (agent_jobs db) \<noteq> 1
       then Inl (DistributedStateConflict ''job changed during distributed transition'')
       else Inr (db\<lparr>agent_jobs := sql_update hit (moved_job target now updates) (agent_jobs db)\<rparr>))"

section \<open>Leases\<close>

definition lease_token_hash :: "(string \<Rightarrow> string) \<Rightarrow> string \<Rightarrow> string" where
  "lease_token_hash H token = ''sha256:'' @ H token"

definition lease_matches :: "(string \<Rightarrow> string) \<Rightarrow> job_row \<Rightarrow> string \<Rightarrow> string \<Rightarrow> string option \<Rightarrow> int option \<Rightarrow>
    string \<Rightarrow> bool \<Rightarrow> bool" where
  "lease_matches H r agent_id token lease_id lease_generation now require_unexpired \<longleftrightarrow>
    aj_claimed_by r = Some agent_id \<and> aj_lease_token_hash r = Some (lease_token_hash H token) \<and>
    (lease_id = None \<or> aj_lease_id r = lease_id) \<and>
    (lease_generation = None \<or> lease_generation = Some (aj_lease_generation r)) \<and>
    (\<not> require_unexpired \<or> null_gt (aj_lease_expires_at r) now)"

section \<open>What a transition does\<close>

lemma task_terminal_final: "task_terminal s \<Longrightarrow> task_allowed s = []"
  by (auto simp: task_terminal_def task_allowed_def)

definition job_terminal :: "job_status \<Rightarrow> bool" where
  "job_terminal s \<longleftrightarrow> s \<in> {Job_Completed, Job_Failed, Job_Cancelled, Job_Quarantined}"

definition job_leased :: "job_status \<Rightarrow> bool" where
  "job_leased s \<longleftrightarrow> s = Job_Claimed \<or> s = Job_Running"

lemma job_terminal_final: "job_terminal s \<longleftrightarrow> job_allowed s = []"
  by (cases s) (simp_all add: job_terminal_def job_allowed_def)

text \<open>The columns no update can write.\<close>

definition job_fixed :: "job_row \<Rightarrow> string \<times> string \<times> string \<times> string \<times> string \<times> int" where
  "job_fixed r = (aj_id r, aj_task_id r, aj_required_skill r, aj_payload_json r, aj_created_at r, aj_max_attempts r)"

lemma set_column_fixed: "job_fixed (set_column u r) = job_fixed r" "aj_status (set_column u r) = aj_status r"
  by (cases u; simp add: job_fixed_def)+

lemma fold_set_column_fixed:
  "job_fixed (fold set_column us r) = job_fixed r" "aj_status (fold set_column us r) = aj_status r"
  by (induction us arbitrary: r) (simp_all add: set_column_fixed)

lemma moved_job_fixed: "job_fixed (moved_job target now us r) = job_fixed r" "aj_status (moved_job target now us r) = target"
  by (simp_all add: moved_job_def fold_set_column_fixed) (simp add: job_fixed_def)

lemma moved_job_id [simp]: "aj_id (moved_job target now us r) = aj_id r"
  using moved_job_fixed(1) [of target now us r] by (simp add: job_fixed_def)

lemma moved_task_id [simp]: "tk_id (moved_task target now error r) = tk_id r"
  by (simp add: moved_task_def)

lemma moved_task_status [simp]: "tk_status (moved_task target now error r) = target"
  by (simp add: moved_task_def)

lemma transition_task_Inr:
  assumes "transition_task i current target now error db = Inr db'"
  shows "db' = db\<lparr>tasks := sql_update (\<lambda>r. tk_id r = i \<and> tk_status r = current) (moved_task target now error) (tasks db)\<rparr>"
    "target \<in> set (task_allowed current)" "sql_rowcount (\<lambda>r. tk_id r = i \<and> tk_status r = current) (tasks db) = 1"
  using assms by (auto simp: transition_task_def Let_def split: if_split_asm)

lemma transition_job_Inr:
  assumes "transition_job i current target now us extra db = Inr db'"
  shows "db' = db\<lparr>agent_jobs := sql_update (\<lambda>r. aj_id r = i \<and> aj_status r = current \<and> extra r)
      (moved_job target now us) (agent_jobs db)\<rparr>"
    "target \<in> set (job_allowed current)"
    "sql_rowcount (\<lambda>r. aj_id r = i \<and> aj_status r = current \<and> extra r) (agent_jobs db) = 1"
  using assms by (auto simp: transition_job_def Let_def split: if_split_asm)

lemma rowcount_1_hit: "sql_rowcount P t = 1 \<Longrightarrow> \<exists>r \<in> set t. P r"
  using sql_rowcount_0_iff [of P t] by fastforce

text \<open>Looked up by identifier, exactly the row named moves.\<close>

lemma transition_task_lookup:
  assumes "transition_task i current target now error db = Inr db'" and "distinct (map tk_id (tasks db))"
  obtains r where "row_by tk_id i (tasks db) = Some r" "tk_status r = current" "target \<in> set (task_allowed current)"
    "\<forall>k. row_by tk_id k (tasks db') = (if k = i then Some (moved_task target now error r) else row_by tk_id k (tasks db))"
    "map tk_id (tasks db') = map tk_id (tasks db)"
proof -
  note t = transition_task_Inr [OF assms(1)]
  obtain r where r: "r \<in> set (tasks db)" "tk_id r = i" "tk_status r = current"
    using rowcount_1_hit [OF t(3)] by blast
  have here: "row_by tk_id i (tasks db) = Some r"
    using row_by_unique [OF assms(2) r(1)] r(2) by simp
  have "row_by tk_id k (tasks db') = (if k = i then Some (moved_task target now error r) else row_by tk_id k (tasks db))" for k
    using here r by (cases "row_by tk_id k (tasks db)") (auto simp: t(1) row_by_sql_update dest: row_by_SomeD)
  then show ?thesis
    using here r t(2) by (intro that [of r]) (simp_all add: t(1) map_sql_update)
qed

lemma transition_job_lookup:
  assumes "transition_job i current target now us extra db = Inr db'" and "distinct (map aj_id (agent_jobs db))"
  obtains r where "row_by aj_id i (agent_jobs db) = Some r" "aj_status r = current" "extra r"
    "target \<in> set (job_allowed current)"
    "\<forall>k. row_by aj_id k (agent_jobs db') = (if k = i then Some (moved_job target now us r) else row_by aj_id k (agent_jobs db))"
    "map aj_id (agent_jobs db') = map aj_id (agent_jobs db)"
proof -
  note t = transition_job_Inr [OF assms(1)]
  obtain r where r: "r \<in> set (agent_jobs db)" "aj_id r = i" "aj_status r = current" "extra r"
    using rowcount_1_hit [OF t(3)] by blast
  have here: "row_by aj_id i (agent_jobs db) = Some r"
    using row_by_unique [OF assms(2) r(1)] r(2) by simp
  have "row_by aj_id k (agent_jobs db') = (if k = i then Some (moved_job target now us r) else row_by aj_id k (agent_jobs db))" for k
    using here r by (cases "row_by aj_id k (agent_jobs db)") (auto simp: t(1) row_by_sql_update dest: row_by_SomeD)
  then show ?thesis
    using here r t(2) by (intro that [of r]) (simp_all add: t(1) map_sql_update)
qed

end
