(* ===== verification/Device_Auth.thy ===== *)
theory Device_Auth
  imports Distributed_State
begin

text \<open>
  \<open>server/app/services/auth_service.py\<close>: a phone is paired with a short-lived code, gets a candidate
  credential, confirms it, and the first use of the confirmed credential replaces the device's former
  one. Credentials and tickets are stored as digests; SHA-256 and the HMAC under the pairing pepper are
  parameters, and so is every random value, which the operations take as an argument. The lock that
  serialises one device's cutover across processes orders transactions only, and is left out.
\<close>

section \<open>Tables\<close>

record pairing_code_row =
  pc_code :: string
  pc_expires_at :: string
  pc_attempts_remaining :: int
  pc_created_at :: string

record pairing_candidate_row =
  pd_pairing_id :: string
  pd_token_hash :: string
  pd_device_id :: string
  pd_name :: string
  pd_status :: string
  pd_created_at :: string
  pd_expires_at :: string
  pd_finalized_at :: "string option"

record device_row =
  dv_id :: string
  dv_name :: string
  dv_token :: string
  dv_created_at :: string
  dv_last_seen_at :: "string option"
  dv_last_pairing_id :: "string option"
  dv_websocket_connection_id :: "string option"

record ticket_row =
  wt_ticket_hash :: string
  wt_device_id :: string
  wt_expires_at :: string

record auth_db = job_db +
  pairing_codes :: "pairing_code_row sql_table"
  pairing_candidates :: "pairing_candidate_row sql_table"
  devices :: "device_row sql_table"
  websocket_tickets :: "ticket_row sql_table"

definition sql_delete :: "('r \<Rightarrow> bool) \<Rightarrow> 'r sql_table \<Rightarrow> 'r sql_table" where
  "sql_delete P t = filter (\<lambda>r. \<not> P r) t"

section \<open>The service\<close>

record auth_env =
  ae_sha256 :: "string \<Rightarrow> string"
  ae_hmac :: "string \<Rightarrow> string \<Rightarrow> string"

record auth_service =
  au_pairing_ttl_seconds :: int
  au_pairing_max_attempts :: int
  au_candidate_ttl_seconds :: int
  au_pairing_pepper :: string

definition new_auth_service :: "int \<Rightarrow> int \<Rightarrow> int \<Rightarrow> string \<Rightarrow> auth_service" where
  "new_auth_service ttl attempts candidate_ttl pepper =
    \<lparr>au_pairing_ttl_seconds = min (max ttl 60) 900, au_pairing_max_attempts = min (max attempts 1) 20,
     au_candidate_ttl_seconds = min (max candidate_ttl 30) 300, au_pairing_pepper = pepper\<rparr>"

record pairing_candidate =
  pr_pairing_id :: string
  pr_token :: string
  pr_device_id :: string
  pr_expires_in_seconds :: int

record pairing_finalization =
  pf_pairing_id :: string
  pf_device_id :: string
  pf_status :: string
  pf_already_finalized :: bool

text \<open>What authentication returns besides the constant \<open>credential_state\<close>; the caller adds \<open>last_seen_at\<close>.\<close>

record principal =
  pl_id :: string
  pl_name :: string
  pl_created_at :: string
  pl_session_id :: "string option"
  pl_last_seen_at :: "string option"

definition pairing_digest :: "auth_env \<Rightarrow> auth_service \<Rightarrow> string \<Rightarrow> string" where
  "pairing_digest env svc value' = ae_hmac env (au_pairing_pepper svc) value'"

definition stored_token :: "auth_env \<Rightarrow> string \<Rightarrow> string" where
  "stored_token env value' = ''sha256:'' @ ae_sha256 env value'"

definition auth_now :: "py_datetime \<Rightarrow> py_error + nat" where
  "auth_now clk = (if dt_aware clk then Inr (dt_instant clk)
    else Inl (RuntimeError ''authentication clock must be timezone-aware''))"

section \<open>Pairing\<close>

text \<open>\<open>number\<close> is \<open>secrets.randbelow(1_000_000)\<close>.\<close>

definition create_pairing_code :: "auth_env \<Rightarrow> auth_service \<Rightarrow> py_datetime \<Rightarrow> nat \<Rightarrow> 'z auth_db_scheme \<Rightarrow>
    (py_error + string) \<times> 'z auth_db_scheme" where
  "create_pairing_code env svc clk number = transaction (\<lambda>db.
    let code = pad 6 number in
    and_then (auth_now clk) (\<lambda>now.
    and_then (dt_add_seconds now (au_pairing_ttl_seconds svc)) (\<lambda>expires.
      Inr (code, db\<lparr>pairing_codes := [\<lparr>pc_code = pairing_digest env svc code, pc_expires_at = isoformat expires,
        pc_attempts_remaining = au_pairing_max_attempts svc, pc_created_at = isoformat now\<rparr>]\<rparr>))))"

definition newest_code :: "'z auth_db_scheme \<Rightarrow> pairing_code_row option" where
  "newest_code db = fetchone (rev (sort_key pc_created_at (pairing_codes db)))"

definition delete_expired_candidates :: "string \<Rightarrow> 'z auth_db_scheme \<Rightarrow> 'z auth_db_scheme" where
  "delete_expired_candidates now db =
    db\<lparr>pairing_candidates := sql_delete (\<lambda>r. pd_expires_at r \<le> now) (pairing_candidates db)\<rparr>"

definition token_taken :: "string \<Rightarrow> 'z auth_db_scheme \<Rightarrow> bool" where
  "token_taken h db \<longleftrightarrow> sql_select (\<lambda>d. dv_token d = h) (devices db) \<noteq> [] \<or>
    sql_select (\<lambda>r. pd_token_hash r = h) (pairing_candidates db) \<noteq> []"

text \<open>The INSERT of a candidate, with the keys of the table.\<close>

definition insert_candidate :: "pairing_candidate_row \<Rightarrow> 'z auth_db_scheme \<Rightarrow> py_error + 'z auth_db_scheme" where
  "insert_candidate r db =
    (if list_ex (\<lambda>x. pd_pairing_id x = pd_pairing_id r \<or> pd_token_hash x = pd_token_hash r) (pairing_candidates db)
     then Inl (IntegrityError ''UNIQUE constraint failed: pairing_candidates'')
     else Inr (db\<lparr>pairing_candidates := pairing_candidates db @ [r]\<rparr>))"

definition staged_candidate :: "string \<Rightarrow> string \<Rightarrow> string \<Rightarrow> string \<Rightarrow> nat \<Rightarrow> nat \<Rightarrow> pairing_candidate_row" where
  "staged_candidate pairing_id token_hash device_id name now expires =
    \<lparr>pd_pairing_id = pairing_id, pd_token_hash = token_hash, pd_device_id = device_id, pd_name = name,
     pd_status = ''staged'', pd_created_at = isoformat now, pd_expires_at = isoformat expires, pd_finalized_at = None\<rparr>"

text \<open>
  After the code has matched. \<open>tokens\<close> are the values \<open>token_urlsafe\<close> gives one after the other, of
  which at most five are tried.
\<close>

definition stage_candidate :: "auth_env \<Rightarrow> auth_service \<Rightarrow> nat \<Rightarrow> string \<Rightarrow> string \<Rightarrow> string list \<Rightarrow> string \<Rightarrow>
    'z auth_db_scheme \<Rightarrow> py_error + pairing_candidate option \<times> 'z auth_db_scheme" where
  "stage_candidate env svc now device_id name tokens pairing_hex db =
    (let db1 = delete_expired_candidates (isoformat now) db;
         db2 = db1\<lparr>pairing_candidates := sql_delete (\<lambda>r. pd_device_id r = device_id) (pairing_candidates db1)\<rparr>
     in case find (\<lambda>t. \<not> token_taken (stored_token env t) db2) (take 5 tokens) of
          None \<Rightarrow> Inl (RuntimeError ''could not allocate a unique pairing credential'')
        | Some token \<Rightarrow>
            and_then (dt_add_seconds now (au_candidate_ttl_seconds svc)) (\<lambda>expires.
            and_then (insert_candidate (staged_candidate (''pair_'' @ pairing_hex) (stored_token env token) device_id name
              now expires) db2) (\<lambda>db3.
              Inr (Some \<lparr>pr_pairing_id = ''pair_'' @ pairing_hex, pr_token = token, pr_device_id = device_id,
                  pr_expires_in_seconds = au_candidate_ttl_seconds svc\<rparr>,
                db3\<lparr>pairing_codes := []\<rparr>))))"

text \<open>A wrong guess commits before it raises, so the database is part of the error's result.\<close>

definition complete_pairing :: "auth_env \<Rightarrow> auth_service \<Rightarrow> py_datetime \<Rightarrow> string \<Rightarrow> string \<Rightarrow> string \<Rightarrow> string list \<Rightarrow>
    string \<Rightarrow> 'z auth_db_scheme \<Rightarrow> (py_error + pairing_candidate option) \<times> 'z auth_db_scheme" where
  "complete_pairing env svc clk code device_id name tokens pairing_hex db =
    (case auth_now clk of
       Inl e \<Rightarrow> (Inl e, db)
     | Inr now \<Rightarrow>
         (case newest_code db of
            None \<Rightarrow> (Inr None, db\<lparr>pairing_codes := []\<rparr>)
          | Some row \<Rightarrow>
              if pc_expires_at row < isoformat now then (Inr None, db\<lparr>pairing_codes := []\<rparr>)
              else if pc_code row \<noteq> pairing_digest env svc code
              then
                (let attempts = pc_attempts_remaining row - 1 in
                 if attempts \<le> 0
                 then (Inl (PairingRateLimited ''pairing attempt budget exhausted''), db\<lparr>pairing_codes := []\<rparr>)
                 else (Inr None, db\<lparr>pairing_codes := sql_update (\<lambda>r. pc_code r = pc_code row)
                   (\<lambda>r. r\<lparr>pc_attempts_remaining := attempts\<rparr>) (pairing_codes db)\<rparr>))
              else transaction (stage_candidate env svc now device_id name tokens pairing_hex) db))"

definition authenticate_pairing_candidate :: "auth_env \<Rightarrow> py_datetime \<Rightarrow> string \<Rightarrow> 'z auth_db_scheme \<Rightarrow>
    (py_error + pairing_candidate_row option) \<times> 'z auth_db_scheme" where
  "authenticate_pairing_candidate env clk token db =
    (if token = [] then (Inr None, db)
     else transaction (\<lambda>db. and_then (auth_now clk) (\<lambda>now.
       let db1 = delete_expired_candidates (isoformat now) db in
       Inr (fetchone (sql_select (\<lambda>r. pd_token_hash r = stored_token env token \<and> isoformat now < pd_expires_at r \<and>
         pd_status r = ''staged'') (pairing_candidates db1)), db1))) db)"

definition finalize_pairing :: "auth_env \<Rightarrow> auth_service \<Rightarrow> py_datetime \<Rightarrow> string \<Rightarrow> string \<Rightarrow> string \<Rightarrow> 'z auth_db_scheme \<Rightarrow>
    (py_error + pairing_finalization option) \<times> 'z auth_db_scheme" where
  "finalize_pairing env svc clk token pairing_id device_id db =
    (if token = [] then (Inr None, db)
     else transaction (\<lambda>db. and_then (auth_now clk) (\<lambda>t.
       let h = stored_token env token; now = isoformat t; db1 = delete_expired_candidates now db in
       case row_by dv_token h (devices db1) of
         Some active \<Rightarrow>
           if dv_id active \<noteq> device_id \<or> (case dv_last_pairing_id active of None \<Rightarrow> ''None'' | Some p \<Rightarrow> p) \<noteq> pairing_id
           then Inl (PairingConflict ''pairing finalization does not match this credential'')
           else Inr (Some \<lparr>pf_pairing_id = pairing_id, pf_device_id = device_id, pf_status = ''active'',
               pf_already_finalized = True\<rparr>,
             db1\<lparr>devices := sql_update (\<lambda>d. dv_id d = device_id) (\<lambda>d. d\<lparr>dv_last_seen_at := Some now\<rparr>) (devices db1)\<rparr>)
       | None \<Rightarrow>
           (case fetchone (sql_select (\<lambda>r. pd_token_hash r = h \<and> now < pd_expires_at r) (pairing_candidates db1)) of
              None \<Rightarrow> Inr (None, db1)
            | Some staged \<Rightarrow>
                if pd_pairing_id staged \<noteq> pairing_id \<or> pd_device_id staged \<noteq> device_id
                then Inl (PairingConflict ''pairing finalization does not match this candidate'')
                else
                  (let ready = (\<lambda>was. Some \<lparr>pf_pairing_id = pairing_id, pf_device_id = device_id, pf_status = ''ready'',
                       pf_already_finalized = was\<rparr>) in
                   if pd_status staged = ''finalized'' then Inr (ready True, db1)
                   else and_then (dt_add_seconds t (au_candidate_ttl_seconds svc)) (\<lambda>activation_expires.
                     Inr (ready False, db1\<lparr>pairing_candidates := sql_update
                       (\<lambda>r. pd_pairing_id r = pairing_id \<and> pd_token_hash r = h \<and> pd_status r = ''staged'')
                       (\<lambda>r. r\<lparr>pd_status := ''finalized'', pd_finalized_at := Some now,
                         pd_expires_at := isoformat activation_expires\<rparr>) (pairing_candidates db1)\<rparr>)))))) db)"

section \<open>Authentication\<close>

definition principal_of :: "device_row \<Rightarrow> principal" where
  "principal_of d = \<lparr>pl_id = dv_id d, pl_name = dv_name d, pl_created_at = dv_created_at d,
    pl_session_id = dv_last_pairing_id d, pl_last_seen_at = None\<rparr>"

definition upsert_device :: "pairing_candidate_row \<Rightarrow> string \<Rightarrow> string \<Rightarrow> device_row sql_table \<Rightarrow> device_row sql_table" where
  "upsert_device ready h now t =
    (if sql_select (\<lambda>d. dv_id d = pd_device_id ready) t = []
     then t @ [\<lparr>dv_id = pd_device_id ready, dv_name = pd_name ready, dv_token = h, dv_created_at = pd_created_at ready,
       dv_last_seen_at = Some now, dv_last_pairing_id = Some (pd_pairing_id ready), dv_websocket_connection_id = None\<rparr>]
     else sql_update (\<lambda>d. dv_id d = pd_device_id ready) (\<lambda>d. d\<lparr>dv_name := pd_name ready, dv_token := h,
       dv_last_seen_at := Some now, dv_last_pairing_id := Some (pd_pairing_id ready),
       dv_websocket_connection_id := None\<rparr>) t)"

text \<open>The first use of a confirmed candidate makes it the device's credential.\<close>

definition promote_candidate :: "string \<Rightarrow> string \<Rightarrow> 'z auth_db_scheme \<Rightarrow> 'z auth_db_scheme" where
  "promote_candidate h now db =
    (case fetchone (sql_select (\<lambda>r. pd_token_hash r = h \<and> pd_status r = ''finalized'' \<and> now < pd_expires_at r)
        (pairing_candidates db)) of
       None \<Rightarrow> db
     | Some ready \<Rightarrow> db\<lparr>
         pairing_candidates := sql_delete (\<lambda>r. pd_device_id r = pd_device_id ready) (pairing_candidates db),
         devices := upsert_device ready h now (devices db),
         websocket_tickets := sql_delete (\<lambda>r. wt_device_id r = pd_device_id ready) (websocket_tickets db)\<rparr>)"

definition authenticate_token_locked :: "string \<Rightarrow> string \<Rightarrow> 'z auth_db_scheme \<Rightarrow> principal option \<times> 'z auth_db_scheme" where
  "authenticate_token_locked h now db =
    (let db1 = delete_expired_candidates now db;
         db2 = (case row_by dv_token h (devices db1) of None \<Rightarrow> promote_candidate h now db1 | Some d \<Rightarrow> db1)
     in case row_by dv_token h (devices db2) of
          None \<Rightarrow> (None, db2)
        | Some d \<Rightarrow> (Some (principal_of d), db2\<lparr>devices :=
            sql_update (\<lambda>x. dv_id x = dv_id d) (\<lambda>x. x\<lparr>dv_last_seen_at := Some now\<rparr>) (devices db2)\<rparr>))"

text \<open>
  \<open>clk0\<close> is read by \<open>_candidate_device_id\<close>, whose result only chooses the lock; \<open>others\<close> is what other
  processes do before the transaction.
\<close>

definition authenticate_token :: "auth_env \<Rightarrow> py_datetime \<Rightarrow> py_datetime \<Rightarrow> ('z auth_db_scheme \<Rightarrow> 'z auth_db_scheme) \<Rightarrow>
    string \<Rightarrow> 'z auth_db_scheme \<Rightarrow> (py_error + principal option) \<times> 'z auth_db_scheme" where
  "authenticate_token env clk0 clk others token db =
    (if token = [] then (Inr None, db)
     else case auth_now clk0 of
       Inl e \<Rightarrow> (Inl e, db)
     | Inr _ \<Rightarrow> transaction (\<lambda>db. and_then (auth_now clk) (\<lambda>now.
         case authenticate_token_locked (stored_token env token) (isoformat now) db of
           (p, db1) \<Rightarrow> Inr (map_option (\<lambda>q. q\<lparr>pl_last_seen_at := Some (isoformat now)\<rparr>) p, db1))) (others db))"

definition validate_token :: "auth_env \<Rightarrow> py_datetime \<Rightarrow> py_datetime \<Rightarrow> ('z auth_db_scheme \<Rightarrow> 'z auth_db_scheme) \<Rightarrow>
    string \<Rightarrow> 'z auth_db_scheme \<Rightarrow> (py_error + bool) \<times> 'z auth_db_scheme" where
  "validate_token env clk0 clk others token db =
    (case authenticate_token env clk0 clk others token db of
       (Inl e, db1) \<Rightarrow> (Inl e, db1) | (Inr p, db1) \<Rightarrow> (Inr (p \<noteq> None), db1))"

section \<open>WebSocket sessions\<close>

definition create_websocket_ticket :: "auth_env \<Rightarrow> py_datetime \<Rightarrow> py_datetime \<Rightarrow> ('z auth_db_scheme \<Rightarrow> 'z auth_db_scheme) \<Rightarrow>
    string \<Rightarrow> string \<Rightarrow> 'z auth_db_scheme \<Rightarrow> (py_error + string option) \<times> 'z auth_db_scheme" where
  "create_websocket_ticket env clk0 clk others token ticket db =
    (if token = [] then (Inr None, db)
     else case auth_now clk0 of
       Inl e \<Rightarrow> (Inl e, db)
     | Inr _ \<Rightarrow> transaction (\<lambda>db. and_then (auth_now clk) (\<lambda>t.
         case authenticate_token_locked (stored_token env token) (isoformat t) db of
           (None, db1) \<Rightarrow> Inr (None, db1)
         | (Some p, db1) \<Rightarrow>
             and_then (dt_add_seconds t 30) (\<lambda>expires.
               let kept = sql_delete (\<lambda>r. wt_expires_at r < isoformat t \<or> wt_device_id r = pl_id p) (websocket_tickets db1);
                   h = ae_sha256 env ticket
               in if sql_select (\<lambda>r. wt_ticket_hash r = h) kept \<noteq> []
                  then Inl (IntegrityError ''UNIQUE constraint failed: websocket_tickets.ticket_hash'')
                  else Inr (Some ticket, db1\<lparr>websocket_tickets := kept @
                    [\<lparr>wt_ticket_hash = h, wt_device_id = pl_id p, wt_expires_at = isoformat expires\<rparr>]\<rparr>)))) (others db))"

text \<open>The result is the device and its session.\<close>

definition consume_websocket_ticket :: "auth_env \<Rightarrow> py_datetime \<Rightarrow> string \<Rightarrow> 'z auth_db_scheme \<Rightarrow>
    (py_error + (string \<times> string) option) \<times> 'z auth_db_scheme" where
  "consume_websocket_ticket env clk ticket = transaction (\<lambda>db. and_then (auth_now clk) (\<lambda>t.
    let h = ae_sha256 env ticket; now = isoformat t;
        hits = concat (map (\<lambda>r. map (\<lambda>d. (wt_device_id r, or_empty (dv_last_pairing_id d)))
            (sql_select (\<lambda>d. dv_id d = wt_device_id r \<and> dv_last_pairing_id d \<noteq> None) (devices db)))
          (sql_select (\<lambda>r. wt_ticket_hash r = h \<and> now \<le> wt_expires_at r) (websocket_tickets db)))
    in Inr (fetchone hits, db\<lparr>websocket_tickets :=
      sql_delete (\<lambda>r. wt_ticket_hash r = h \<or> wt_expires_at r < now) (websocket_tickets db)\<rparr>)))"

definition is_device_session_current :: "string \<Rightarrow> string \<Rightarrow> 'z auth_db_scheme \<Rightarrow> bool" where
  "is_device_session_current device_id session_id db \<longleftrightarrow> device_id \<noteq> [] \<and> session_id \<noteq> [] \<and>
    sql_select (\<lambda>d. dv_id d = device_id \<and> dv_last_pairing_id d = Some session_id) (devices db) \<noteq> []"

text \<open>A confirmed candidate that has not expired suspends the former session.\<close>

definition cutover_pending :: "string \<Rightarrow> string \<Rightarrow> 'z auth_db_scheme \<Rightarrow> bool" where
  "cutover_pending device_id now db \<longleftrightarrow> sql_select (\<lambda>r. pd_device_id r = device_id \<and> pd_status r = ''finalized'' \<and>
    now < pd_expires_at r) (pairing_candidates db) \<noteq> []"

definition activate_websocket_connection :: "py_datetime \<Rightarrow> string \<Rightarrow> string \<Rightarrow> string \<Rightarrow> 'z auth_db_scheme \<Rightarrow>
    (py_error + bool) \<times> 'z auth_db_scheme" where
  "activate_websocket_connection clk device_id session_id connection_id db =
    (if device_id = [] \<or> session_id = [] \<or> connection_id = [] then (Inr False, db)
     else transaction (\<lambda>db. and_then (auth_now clk) (\<lambda>t.
       let hit = (\<lambda>d. dv_id d = device_id \<and> dv_last_pairing_id d = Some session_id \<and>
             \<not> cutover_pending (dv_id d) (isoformat t) db)
       in Inr (sql_rowcount hit (devices db) = 1,
         db\<lparr>devices := sql_update hit (\<lambda>d. d\<lparr>dv_websocket_connection_id := Some connection_id\<rparr>) (devices db)\<rparr>))) db)"

definition is_websocket_connection_current :: "py_datetime \<Rightarrow> string \<Rightarrow> string \<Rightarrow> string \<Rightarrow> 'z auth_db_scheme \<Rightarrow>
    py_error + bool" where
  "is_websocket_connection_current clk device_id session_id connection_id db =
    (if device_id = [] \<or> session_id = [] \<or> connection_id = [] then Inr False
     else and_then (auth_now clk) (\<lambda>t.
       Inr (sql_select (\<lambda>d. dv_id d = device_id \<and> dv_last_pairing_id d = Some session_id \<and>
         dv_websocket_connection_id d = Some connection_id \<and> \<not> cutover_pending (dv_id d) (isoformat t) db) (devices db) \<noteq> [])))"

definition clear_websocket_connection :: "string \<Rightarrow> string \<Rightarrow> string \<Rightarrow> 'z auth_db_scheme \<Rightarrow> 'z auth_db_scheme" where
  "clear_websocket_connection device_id session_id connection_id db =
    (if device_id = [] \<or> session_id = [] \<or> connection_id = [] then db
     else db\<lparr>devices := sql_update (\<lambda>d. dv_id d = device_id \<and> dv_last_pairing_id d = Some session_id \<and>
       dv_websocket_connection_id d = Some connection_id) (\<lambda>d. d\<lparr>dv_websocket_connection_id := None\<rparr>) (devices db)\<rparr>)"

end
