(* ===== verification/Worker_Skill_Policy.thy ===== *)
theory Worker_Skill_Policy
  imports Distributed_State Permission_Policy
begin

text \<open>
  \<open>server/app/services/worker_skill_policy.py\<close>: which skills remote workers may run, kept in SQLite
  under an epoch. Whatever process holds the writer lock loads this row, so that a policy held in
  memory only starts the first epoch. SHA-256 is the parameter \<open>H\<close>; the store's own state is its
  \<open>PermissionPolicy\<close>, whose worker rules \<open>load_locked\<close> replaces by the stored ones.
\<close>

definition research_skills :: "string list" where
  "research_skills = [''research.query'', ''research.collect'']"

definition writing_skills :: "string list" where
  "writing_skills = [''writing.draft'']"

record policy_snapshot =
  ps_epoch :: int
  ps_rules :: "(string \<times> worker_rule) list"
  ps_digest :: string

definition rule_allows :: "(string \<times> worker_rule) list \<Rightarrow> string \<Rightarrow> bool" where
  "rule_allows rules skill = (case map_of rules skill of None \<Rightarrow> False | Some r \<Rightarrow> wr_decision r = ''allow'')"

definition allowed_skills :: "policy_snapshot \<Rightarrow> string list" where
  "allowed_skills s = map fst (filter (\<lambda>(skill, r). wr_decision r = ''allow'') (ps_rules s))"

definition denied_skills :: "policy_snapshot \<Rightarrow> string list" where
  "denied_skills s = sort (map fst (filter (\<lambda>(skill, r). wr_decision r \<noteq> ''allow'') (ps_rules s)))"

definition is_allowed :: "policy_snapshot \<Rightarrow> string \<Rightarrow> bool" where
  "is_allowed s skill = rule_allows (ps_rules s) skill"

definition can_auto_redistribute :: "policy_snapshot \<Rightarrow> string \<Rightarrow> bool" where
  "can_auto_redistribute s skill = (case map_of (ps_rules s) skill of None \<Rightarrow> False
    | Some r \<Rightarrow> wr_decision r = ''allow'' \<and> wr_auto_redistribute r)"

section \<open>Encoding\<close>

definition worker_rule_json :: "worker_rule \<Rightarrow> json" where
  "worker_rule_json r = JObj [(''id'', JStr (wr_id r)), (''description'', JStr (wr_description r)),
    (''decision'', JStr (wr_decision r)), (''risk'', JStr (wr_risk r)),
    (''auto_redistribute'', JBool (wr_auto_redistribute r))]"

definition rules_digest :: "(string \<Rightarrow> string) \<Rightarrow> string \<Rightarrow> string" where
  "rules_digest H encoded = ''sha256:'' @ H encoded"

definition encode_rules :: "(string \<Rightarrow> string) \<Rightarrow> (string \<times> worker_rule) list \<Rightarrow> string \<times> string" where
  "encode_rules H rules =
    (let encoded = json_ascii True '','' '':'' (JObj (map (\<lambda>(k, r). (k, worker_rule_json r)) (sort_key fst rules)))
     in (encoded, rules_digest H encoded))"

text \<open>The skills a stored epoch may lack because they were introduced after it.\<close>

definition later_skills :: "string list" where
  "later_skills = code_generation_skills @ project_build_skills @ research_skills @ writing_skills @ swift_skills @
    specialist_skills @ media_skills"

definition snapshot_from_row :: "(string \<Rightarrow> string) \<Rightarrow> skill_policy_row \<Rightarrow> py_error + policy_snapshot" where
  "snapshot_from_row H row =
    (let expected = rules_digest H (sk_rules_json row) in
     if sk_rules_digest row \<noteq> expected
     then Inl (WorkerSkillPolicyStateError ''authoritative worker policy digest is invalid'')
     else (case json_loads (sk_rules_json row) of
         None \<Rightarrow> Inl (WorkerSkillPolicyStateError ''authoritative worker policy is not valid JSON'')
       | Some (JObj raw) \<Rightarrow>
           (case parse_worker_skill_rules raw of
              Inl (PermissionPolicyError m) \<Rightarrow>
                Inl (WorkerSkillPolicyStateError ''authoritative worker policy failed validation'')
            | Inl e \<Rightarrow> Inl e
            | Inr rules \<Rightarrow>
                if minus (minus supported_agent_skills (map fst rules)) later_skills \<noteq> [] \<or>
                  minus (map fst rules) supported_agent_skills \<noteq> []
                then Inl (WorkerSkillPolicyStateError
                  ''authoritative worker policy does not cover the supported skill set'')
                else if sk_epoch row < 1
                then Inl (WorkerSkillPolicyStateError ''authoritative worker policy epoch is invalid'')
                else Inr \<lparr>ps_epoch = sk_epoch row, ps_rules = rules, ps_digest = expected\<rparr>)
       | Some _ \<Rightarrow> Inl (WorkerSkillPolicyStateError ''authoritative worker policy must be an object'')))"

section \<open>The store\<close>

definition sync_local_projection :: "policy_snapshot \<Rightarrow> permission_policy option \<Rightarrow> permission_policy option" where
  "sync_local_projection s = map_option (\<lambda>p. p\<lparr>pp_worker_skill_rules := ps_rules s\<rparr>)"

text \<open>In the caller's transaction; the second component is the store's policy afterwards.\<close>

definition load_locked :: "(string \<Rightarrow> string) \<Rightarrow> string \<Rightarrow> permission_policy option \<Rightarrow> 'z job_db_scheme \<Rightarrow>
    py_error + (policy_snapshot option \<times> permission_policy option \<times> 'z job_db_scheme)" where
  "load_locked H now local db =
    (case skill_policy_state db of
       Some row \<Rightarrow> and_then (snapshot_from_row H row) (\<lambda>s. Inr (Some s, sync_local_projection s local, db))
     | None \<Rightarrow>
         (case local of
            None \<Rightarrow> Inr (None, local, db)
          | Some policy \<Rightarrow>
              (let (encoded, digest) = encode_rules H (pp_worker_skill_rules policy);
                   row = \<lparr>sk_epoch = 1, sk_rules_json = encoded, sk_rules_digest = digest, sk_updated_at = now\<rparr>
               in and_then (snapshot_from_row H row) (\<lambda>s.
                    Inr (Some s, sync_local_projection s local, db\<lparr>skill_policy_state := Some row\<rparr>)))))"

definition replace_locked :: "(string \<Rightarrow> string) \<Rightarrow> permission_policy \<Rightarrow> string \<Rightarrow> int \<Rightarrow> 'z job_db_scheme \<Rightarrow>
    py_error + ((policy_snapshot \<times> bool) \<times> 'z job_db_scheme)" where
  "replace_locked H candidate now expected_epoch db =
    (let (encoded, digest) = encode_rules H (pp_worker_skill_rules candidate);
         install = (\<lambda>epoch.
           ((\<lparr>ps_epoch = epoch, ps_rules = pp_worker_skill_rules candidate, ps_digest = digest\<rparr>, True),
            db\<lparr>skill_policy_state := Some \<lparr>sk_epoch = epoch, sk_rules_json = encoded, sk_rules_digest = digest,
              sk_updated_at = now\<rparr>\<rparr>));
         fenced = Inl (WorkerSkillPolicyFenceError ''worker policy epoch changed while candidate was being validated'')
     in case skill_policy_state db of
          None \<Rightarrow> if expected_epoch \<noteq> 0 then fenced else Inr (install 1)
        | Some row \<Rightarrow>
            if sk_rules_digest row = digest
            then and_then (snapshot_from_row H row) (\<lambda>s. Inr ((s, False), db))
            else and_then (snapshot_from_row H row) (\<lambda>current.
              if ps_epoch current \<noteq> expected_epoch then fenced else Inr (install (ps_epoch current + 1))))"

definition current_epoch :: "(string \<Rightarrow> string) \<Rightarrow> 'z job_db_scheme \<Rightarrow> py_error + int" where
  "current_epoch H db =
    (case skill_policy_state db of
       None \<Rightarrow> Inr 0
     | Some row \<Rightarrow> and_then (snapshot_from_row H row) (\<lambda>s. Inr (ps_epoch s)))"

text \<open>
  \<open>replace\<close> with an expected epoch reads nothing before its transaction; without one it reads the epoch
  first, and \<open>others\<close> is what other processes do before the transaction starts.
\<close>

definition replace_transaction :: "(string \<Rightarrow> string) \<Rightarrow> permission_policy \<Rightarrow> string \<Rightarrow> int \<Rightarrow> permission_policy option \<Rightarrow>
    'z job_db_scheme \<Rightarrow> (py_error + policy_snapshot \<times> bool) \<times> permission_policy option \<times> 'z job_db_scheme" where
  "replace_transaction H candidate now expected_epoch local db =
    (case transaction (replace_locked H candidate now expected_epoch) db of
       (Inl e, db') \<Rightarrow> (Inl e, local, db')
     | (Inr (s, changed), db') \<Rightarrow> (Inr (s, changed), sync_local_projection s local, db'))"

definition replace_policy :: "(string \<Rightarrow> string) \<Rightarrow> permission_policy \<Rightarrow> string \<Rightarrow> int option \<Rightarrow>
    ('z job_db_scheme \<Rightarrow> 'z job_db_scheme) \<Rightarrow> permission_policy option \<Rightarrow>
    'z job_db_scheme \<Rightarrow> (py_error + policy_snapshot \<times> bool) \<times> permission_policy option \<times> 'z job_db_scheme" where
  "replace_policy H candidate now expected_epoch others local db =
    (case expected_epoch of
       Some epoch \<Rightarrow> replace_transaction H candidate now epoch local (others db)
     | None \<Rightarrow>
         (case current_epoch H db of
            Inl e \<Rightarrow> (Inl e, local, db)
          | Inr epoch \<Rightarrow> replace_transaction H candidate now epoch local (others db)))"

definition reload_from_value :: "(string \<Rightarrow> string) \<Rightarrow> json option \<Rightarrow> string \<Rightarrow> ('z job_db_scheme \<Rightarrow> 'z job_db_scheme) \<Rightarrow>
    permission_policy option \<Rightarrow> 'z job_db_scheme \<Rightarrow>
    (py_error + policy_snapshot \<times> bool) \<times> permission_policy option \<times> 'z job_db_scheme" where
  "reload_from_value H loaded now others local db =
    (case current_epoch H db of
       Inl e \<Rightarrow> (Inl e, local, db)
     | Inr epoch \<Rightarrow>
         (case policy_from_value loaded of
            Inl e \<Rightarrow> (Inl e, local, db)
          | Inr candidate \<Rightarrow> replace_policy H candidate now (Some epoch) others local db))"

section \<open>What is loaded\<close>

lemma allowed_skills_iff:
  assumes "distinct (map fst (ps_rules s))"
  shows "skill \<in> set (allowed_skills s) \<longleftrightarrow> is_allowed s skill"
proof -
  have lookup: "map_of (ps_rules s) skill = Some r \<longleftrightarrow> (skill, r) \<in> set (ps_rules s)" for r
    by (rule map_of_eq_Some_iff [OF assms])
  have "is_allowed s skill \<longleftrightarrow> (\<exists>r. map_of (ps_rules s) skill = Some r \<and> wr_decision r = ''allow'')"
    by (cases "map_of (ps_rules s) skill") (simp_all add: is_allowed_def rule_allows_def)
  then show ?thesis unfolding lookup by (force simp: allowed_skills_def)
qed

lemma redistribute_allowed: "can_auto_redistribute s skill \<Longrightarrow> is_allowed s skill"
  by (auto simp: can_auto_redistribute_def is_allowed_def rule_allows_def split: option.splits)

lemma load_locked_frame:
  assumes "load_locked H now local db = Inr (s, local', db')"
  obtains p where "db' = db\<lparr>skill_policy_state := p\<rparr>"
proof -
  have "db' = db\<lparr>skill_policy_state := skill_policy_state db'\<rparr>"
    using assms
    by (cases "skill_policy_state db"; cases local)
      (auto simp: load_locked_def Let_def split: prod.split_asm)
  then show ?thesis by (rule that)
qed

lemma load_locked_table:
  assumes "load_locked H now local db = Inr (s, local', db')"
  shows "agent_jobs db' = agent_jobs db" "tasks db' = tasks db" "capability_requests db' = capability_requests db"
    "job_metrics db' = job_metrics db"
  by (rule load_locked_frame [OF assms], simp)+

end
