(* ===== verification/Lease_Reaper.thy ===== *)
theory Lease_Reaper
  imports Worker_Skill_Policy Outbox
begin

text \<open>
  \<open>server/app/services/agent_lease_reaper.py\<close>: jobs whose worker let its lease expire are requeued,
  failed, cancelled or quarantined, in bounded transactions under the maintenance lease. A row is the
  job and the status of its task as the batch read them. \<open>fresh\<close> supplies the \<open>uuid4\<close> text of the
  event enqueued under a dedupe key, and every audit event of a batch carries its clock reading.
\<close>

section \<open>One expired lease\<close>

datatype reap_outcome = Reap_Requeued | Reap_Dead_Lettered | Reap_Cancelled | Reap_Quarantined

definition outcome_name :: "reap_outcome \<Rightarrow> string" where
  "outcome_name o' = (case o' of Reap_Requeued \<Rightarrow> ''requeued'' | Reap_Dead_Lettered \<Rightarrow> ''dead_lettered''
    | Reap_Cancelled \<Rightarrow> ''cancelled'' | Reap_Quarantined \<Rightarrow> ''quarantined'')"

definition automatic_retry_skills :: "string list" where
  "automatic_retry_skills = [''workspace.list_dir'', ''workspace.read_text'']"

definition can_redistribute :: "string \<Rightarrow> policy_snapshot option \<Rightarrow> bool" where
  "can_redistribute skill snapshot =
    (if skill \<notin> set automatic_retry_skills then False
     else case snapshot of None \<Rightarrow> True | Some s \<Rightarrow> can_auto_redistribute s skill)"

definition skill_is_allowed :: "string \<Rightarrow> policy_snapshot option \<Rightarrow> bool" where
  "skill_is_allowed skill snapshot = (case snapshot of None \<Rightarrow> True | Some s \<Rightarrow> is_allowed s skill)"

record reaped_row =
  rp_job :: job_row
  rp_task_status :: task_status

text \<open>What the transaction of a batch is given.\<close>

record reaper_env =
  re_board :: board_env
  re_now :: string
  re_clock :: nat
  re_fresh :: "string \<Rightarrow> string"

definition reaper_audit :: "reaper_env \<Rightarrow> string \<Rightarrow> json \<Rightarrow> string \<Rightarrow> 'z job_db_scheme \<Rightarrow> 'z job_db_scheme" where
  "reaper_audit env event_type payload task_id db =
    snd (append_audit_event (env_sha256 (re_board env)) [] (re_clock env) event_type payload ''control-plane''
      ''lease-reaper'' (Some task_id) (Some task_id) (Some (re_now env)) db)"

definition reaper_enqueue :: "reaper_env \<Rightarrow> string \<Rightarrow> string \<Rightarrow> string \<Rightarrow> string \<Rightarrow> json \<Rightarrow> string \<Rightarrow> string option \<Rightarrow>
    string \<Rightarrow> 'z job_db_scheme \<Rightarrow> py_error + 'z job_db_scheme" where
  "reaper_enqueue env aggregate_type aggregate_id topic event_type payload task_id agent_id dedupe_key db =
    and_then (enqueue_locked (re_board env) (re_clock env) (re_fresh env dedupe_key)
      \<lparr>oq_aggregate_type = aggregate_type, oq_aggregate_id = aggregate_id, oq_topic = topic,
       oq_event_type = event_type, oq_payload = payload, oq_dedupe_key = dedupe_key, oq_task_id = Some task_id,
       oq_agent_id = agent_id, oq_message_id = Some aggregate_id, oq_event_id = None,
       oq_created_at = Some (re_now env)\<rparr> db) (\<lambda>(i, db'). Inr db')"

definition increment_operational_metrics :: "string \<Rightarrow> int \<Rightarrow> int \<Rightarrow> int \<Rightarrow> 'z job_db_scheme \<Rightarrow>
    py_error + 'z job_db_scheme" where
  "increment_operational_metrics now lease_expirations retries dead_letter_events db =
    (case job_metrics db of
       None \<Rightarrow> Inl (RuntimeError ''agent job operational metrics are unavailable'')
     | Some m \<Rightarrow> Inr (db\<lparr>job_metrics := Some (m\<lparr>
         jm_lease_expirations := jm_lease_expirations m + lease_expirations,
         jm_retries := jm_retries m + retries,
         jm_dead_letter_events := jm_dead_letter_events m + dead_letter_events,
         jm_updated_at := Some now\<rparr>)\<rparr>))"

definition final_capability :: "string list" where
  "final_capability = [''completed'', ''denied'', ''failed'', ''cancelled'', ''expired'']"

definition cancel_capability :: "reaper_env \<Rightarrow> string \<Rightarrow> string option \<Rightarrow> capability_request_row \<Rightarrow>
    'z job_db_scheme \<Rightarrow> py_error + 'z job_db_scheme" where
  "cancel_capability env task_id agent_id request db =
    (let i = cr_id request;
         open_request = (\<lambda>r. cr_id r = i \<and> cr_status r \<notin> set final_capability);
         db1 = db\<lparr>capability_requests := sql_update open_request
             (\<lambda>r. r\<lparr>cr_status := ''cancelled'', cr_completed_at := Some (re_now env)\<rparr>) (capability_requests db),
           capability_grants := sql_update (\<lambda>g. cg_request_id g = i) (\<lambda>g. g\<lparr>cg_expires_at := re_now env\<rparr>)
             (capability_grants db)\<rparr>
     in reaper_enqueue env ''iphone_capability_request'' i ''agent.job.capability.result'' ''capability_result''
          (JObj [(''request_id'', JStr i), (''status'', JStr ''cancelled'')]) task_id agent_id
          (''iphone-capability:'' @ i @ '':lease-cancelled'')
          (reaper_audit env ''iphone.capability.cancelled''
            (JObj [(''request_id'', JStr i), (''reason'', JStr ''worker lease expired'')]) task_id db1))"

definition cancel_capabilities :: "reaper_env \<Rightarrow> string \<Rightarrow> int \<Rightarrow> string \<Rightarrow> string option \<Rightarrow> 'z job_db_scheme \<Rightarrow>
    py_error + 'z job_db_scheme" where
  "cancel_capabilities env job_id generation task_id agent_id db =
    for_each (cancel_capability env task_id agent_id)
      (sql_select (\<lambda>r. cr_requesting_job_id r = job_id \<and> cr_lease_generation r = generation \<and>
        cr_status r \<notin> set final_capability) (capability_requests db)) db"

definition reap_updates :: "job_row \<Rightarrow> job_status \<Rightarrow> string \<Rightarrow> string \<Rightarrow> string option \<Rightarrow> job_update list" where
  "reap_updates job target now reason failure_error =
    [Set_claimed_by None, Set_claim_token None, Set_lease_id None, Set_lease_token_hash None,
     Set_lease_expires_at None,
     Set_lease_generation (aj_lease_generation job + (if target = Job_Queued then 0 else 1)),
     Set_completed_at (if target = Job_Queued then None else Some now),
     Set_last_agent_id (aj_claimed_by job), Set_last_failure_reason (Some reason),
     Set_error (if target = Job_Failed \<or> target = Job_Quarantined then failure_error else None)]"

definition or_runtime_error :: "string \<Rightarrow> py_error + 'a \<Rightarrow> py_error + 'a" where
  "or_runtime_error message r = (case r of Inl (DistributedStateConflict m) \<Rightarrow> Inl (RuntimeError message) | _ \<Rightarrow> r)"

definition reap_transition :: "reaped_row \<Rightarrow> job_status \<Rightarrow> string \<Rightarrow> string \<Rightarrow> string option \<Rightarrow> 'z job_db_scheme \<Rightarrow>
    py_error + 'z job_db_scheme" where
  "reap_transition row target now reason failure_error db =
    (let job = rp_job row in
     or_runtime_error ''job changed during lease recovery''
       (transition_job (aj_id job) (aj_status job) target now (reap_updates job target now reason failure_error)
         (\<lambda>r. aj_lease_generation r = aj_lease_generation job \<and> aj_lease_expires_at job \<noteq> None \<and>
           aj_lease_expires_at r = aj_lease_expires_at job) db))"

definition record_outcome :: "reaper_env \<Rightarrow> reaped_row \<Rightarrow> reap_outcome \<Rightarrow> string \<Rightarrow> 'z job_db_scheme \<Rightarrow>
    py_error + 'z job_db_scheme" where
  "record_outcome env row outcome reason db =
    (let job_id = aj_id (rp_job row); task_id = aj_task_id (rp_job row); generation = aj_lease_generation (rp_job row);
         name = outcome_name outcome; is_requeue = (outcome = Reap_Requeued);
         db1 = reaper_audit env (''agent.job.'' @ name)
           (JObj [(''job_id'', JStr job_id), (''lease_generation'', JInt generation), (''reason'', JStr reason)]) task_id db
     in and_then (reaper_enqueue env ''agent_job'' job_id (if is_requeue then ''tasks.inbox'' else ''tasks.status'')
          (if is_requeue then ''published'' else name)
          (JObj [(''job_id'', JStr job_id), (''status'', JStr (if is_requeue then ''queued'' else name)),
            (''lease_generation'', JInt (generation + (if is_requeue then 0 else 1)))])
          task_id None (''agent-job:'' @ job_id @ '':'' @ name @ '':'' @ show_int generation) db1)
        (\<lambda>db2. increment_operational_metrics (re_now env) 0 (if is_requeue then 1 else 0)
          (if outcome = Reap_Dead_Lettered then 1 else 0) db2))"

definition expired_reason :: string where
  "expired_reason = ''remote worker lease expired''"

definition uncertain_reason :: string where
  "uncertain_reason = ''remote worker lease expired after iPhone capability activity; outcome uncertain; not retried''"

definition revoked_reason :: string where
  "revoked_reason = ''remote worker skill revoked by current policy''"

definition no_retry_reason :: string where
  "no_retry_reason =
    ''remote worker lease expired; automatic redistribution disabled by policy; outcome uncertain; not retried''"

definition fail_task_of :: "reaped_row \<Rightarrow> string \<Rightarrow> string \<Rightarrow> string \<Rightarrow> 'z job_db_scheme \<Rightarrow> py_error + 'z job_db_scheme" where
  "fail_task_of row now failure_error message db =
    (if rp_task_status row = Task_Queued \<or> rp_task_status row = Task_Running
     then or_runtime_error message
       (transition_task (aj_task_id (rp_job row)) (rp_task_status row) Task_Failed now (Some failure_error) db)
     else Inr db)"

text \<open>The opening of \<open>_reap_row_locked\<close>: what every expired lease is recorded with.\<close>

definition record_expiry :: "reaper_env \<Rightarrow> reaped_row \<Rightarrow> 'z job_db_scheme \<Rightarrow> py_error + 'z job_db_scheme" where
  "record_expiry env row db =
    (let job = rp_job row; job_id = aj_id job; task_id = aj_task_id job; generation = aj_lease_generation job;
         agent_id = (if or_empty (aj_claimed_by job) = [] then None else aj_claimed_by job);
         db1 = reaper_audit env ''agent.job.lease_expired''
           (JObj [(''job_id'', JStr job_id), (''agent_id'', json_opt agent_id),
             (''lease_generation'', JInt generation)]) task_id db
     in and_then (reaper_enqueue env ''agent_job'' job_id ''tasks.status'' ''lease_expired''
          (JObj [(''job_id'', JStr job_id), (''lease_generation'', JInt generation)]) task_id agent_id
          (''agent-job:'' @ job_id @ '':lease-expired:'' @ show_int generation) db1) (\<lambda>db2.
        and_then (increment_operational_metrics (re_now env) 1 0 0 db2) (\<lambda>db3.
        cancel_capabilities env job_id generation task_id agent_id db3)))"

definition reap_row_locked :: "reaper_env \<Rightarrow> policy_snapshot option \<Rightarrow> reaped_row \<Rightarrow> 'z job_db_scheme \<Rightarrow>
    py_error + (reap_outcome \<times> 'z job_db_scheme)" where
  "reap_row_locked env snapshot row db =
    (let job = rp_job row; now = re_now env; skill = aj_required_skill job;
         history = sql_select (\<lambda>r. cr_requesting_job_id r = aj_id job \<and>
           cr_lease_generation r = aj_lease_generation job) (capability_requests db) \<noteq> [];
         reason = (if history then uncertain_reason else expired_reason);
         retry = can_redistribute skill snapshot;
         close = (\<lambda>outcome why d. and_then (record_outcome env row outcome why d) (\<lambda>d'. Inr (outcome, d')))
     in and_then (record_expiry env row db) (\<lambda>db1.
        if task_terminal (rp_task_status row)
        then and_then (reap_transition row Job_Cancelled now ''parent task is terminal'' None db1)
          (close Reap_Cancelled ''parent task is terminal'')
        else if \<not> history \<and> retry \<and> aj_attempt_count job < aj_max_attempts job \<and> rp_task_status row = Task_Running
        then and_then (reap_transition row Job_Queued now reason None db1) (\<lambda>db2.
          and_then (or_runtime_error ''parent task changed during lease recovery''
            (transition_task (aj_task_id job) Task_Running Task_Queued now None db2))
          (close Reap_Requeued reason))
        else if \<not> history \<and> \<not> skill_is_allowed skill snapshot
        then and_then (reap_transition row Job_Quarantined now revoked_reason (Some revoked_reason) db1) (\<lambda>db2.
          and_then (fail_task_of row now revoked_reason ''parent task changed during policy quarantine'' db2) (\<lambda>db3.
          close Reap_Quarantined revoked_reason (reaper_audit env ''agent.job.skill_revoked''
            (JObj [(''job_id'', JStr (aj_id job)), (''lease_generation'', JInt (aj_lease_generation job)),
              (''required_skill'', JStr skill)]) (aj_task_id job) db3)))
        else
          (let why = (if \<not> history \<and> \<not> retry then no_retry_reason else reason);
               failure_error = (if history then reason else if \<not> retry then no_retry_reason
                 else ''remote worker retry budget exhausted'')
           in and_then (reap_transition row Job_Failed now why (Some failure_error) db1) (\<lambda>db2.
              and_then (fail_task_of row now failure_error ''parent task changed during lease failure'' db2)
              (close Reap_Dead_Lettered why)))))"

section \<open>Batches\<close>

record reap_counts =
  rc_expired :: nat
  rc_requeued :: nat
  rc_dead_lettered :: nat
  rc_cancelled :: nat
  rc_quarantined :: nat

definition no_counts :: reap_counts where
  "no_counts = \<lparr>rc_expired = 0, rc_requeued = 0, rc_dead_lettered = 0, rc_cancelled = 0, rc_quarantined = 0\<rparr>"

definition count_outcome :: "reap_outcome \<Rightarrow> reap_counts \<Rightarrow> reap_counts" where
  "count_outcome o' c = (let c = c\<lparr>rc_expired := rc_expired c + 1\<rparr> in
    case o' of
      Reap_Requeued \<Rightarrow> c\<lparr>rc_requeued := rc_requeued c + 1\<rparr>
    | Reap_Dead_Lettered \<Rightarrow> c\<lparr>rc_dead_lettered := rc_dead_lettered c + 1\<rparr>
    | Reap_Cancelled \<Rightarrow> c\<lparr>rc_cancelled := rc_cancelled c + 1\<rparr>
    | Reap_Quarantined \<Rightarrow> c\<lparr>rc_quarantined := rc_quarantined c + 1\<rparr>)"

definition add_counts :: "reap_counts \<Rightarrow> reap_counts \<Rightarrow> reap_counts" where
  "add_counts a b = \<lparr>rc_expired = rc_expired a + rc_expired b, rc_requeued = rc_requeued a + rc_requeued b,
    rc_dead_lettered = rc_dead_lettered a + rc_dead_lettered b, rc_cancelled = rc_cancelled a + rc_cancelled b,
    rc_quarantined = rc_quarantined a + rc_quarantined b\<rparr>"

definition expired_lease :: "string \<Rightarrow> job_row \<Rightarrow> bool" where
  "expired_lease now r \<longleftrightarrow> job_leased (aj_status r) \<and> null_le (aj_lease_expires_at r) now"

text \<open>The SELECT: expired leases joined with their tasks, oldest expiry first.\<close>

definition expired_rows :: "string \<Rightarrow> nat \<Rightarrow> 'z job_db_scheme \<Rightarrow> reaped_row list" where
  "expired_rows now batch_limit db =
    take batch_limit (sort_key (\<lambda>p. (or_empty (aj_lease_expires_at (rp_job p)), aj_id (rp_job p)))
      (concat (map (\<lambda>j. map (\<lambda>t. \<lparr>rp_job = j, rp_task_status = tk_status t\<rparr>)
          (sql_select (\<lambda>t. tk_id t = aj_task_id j) (tasks db)))
        (sql_select (expired_lease now) (agent_jobs db)))))"

definition reap_step :: "reaper_env \<Rightarrow> policy_snapshot option \<Rightarrow> reaped_row \<Rightarrow> reap_counts \<times> 'z job_db_scheme \<Rightarrow>
    py_error + (reap_counts \<times> 'z job_db_scheme)" where
  "reap_step env snapshot row = (\<lambda>(counts, db).
    and_then (reap_row_locked env snapshot row db) (\<lambda>(outcome, db'). Inr (count_outcome outcome counts, db')))"

section \<open>Fencing\<close>

text \<open>
  How the batches are fenced: by the guard of a maintenance task, by a lease of the reaper's own, or
  not at all. \<open>lsvc\<close> is the lease service, \<open>clk\<close> what its clock reads at the check.
\<close>

datatype reap_fence = Unfenced | Guard_fence lease_guard | Lease_fence "string option" int

definition reaper_lease_name :: string where
  "reaper_lease_name = ''agent-lease-reaper''"

definition fence_check :: "lease_service \<Rightarrow> py_datetime \<Rightarrow> string \<Rightarrow> reap_fence \<Rightarrow> 'z lease_db_scheme \<Rightarrow>
    (py_error + unit) \<times> reap_fence" where
  "fence_check lsvc clk missing fence db =
    (case fence of
       Unfenced \<Rightarrow> (Inr (), Unfenced)
     | Guard_fence g \<Rightarrow> (case guard_require_current_locked lsvc clk g db of (r, g') \<Rightarrow> (r, Guard_fence g'))
     | Lease_fence None generation \<Rightarrow> (Inl (RuntimeError missing), fence)
     | Lease_fence (Some owner) generation \<Rightarrow>
         (lease_require_current_locked lsvc clk reaper_lease_name owner generation db, fence))"

definition reaper_now :: "py_datetime \<Rightarrow> py_error + nat" where
  "reaper_now clk = (if dt_aware clk then Inr (dt_instant clk)
    else Inl (RuntimeError ''agent lease reaper clock must be timezone-aware''))"

definition batch_rows :: "nat \<Rightarrow> reap_fence \<Rightarrow> reaped_row list \<Rightarrow> reaped_row list" where
  "batch_rows budget fence rows = (case fence of Guard_fence g \<Rightarrow> take (max 1 budget) rows | _ \<Rightarrow> rows)"

text \<open>
  One transaction. An exception rolls the database back, but not what \<open>load_locked\<close> has copied into
  the policy in memory. The result says besides whether the loop goes on.
\<close>

definition reap_batch :: "board_env \<Rightarrow> lease_service \<Rightarrow> (string \<Rightarrow> string) \<Rightarrow> nat \<Rightarrow> 'm moment \<Rightarrow> reap_fence \<Rightarrow>
    permission_policy option \<Rightarrow> 'z job_db_scheme \<Rightarrow>
    (py_error + reap_counts \<times> bool) \<times> permission_policy option \<times> reap_fence \<times> 'z job_db_scheme" where
  "reap_batch benv lsvc fresh batch_limit m fence local db =
    (case reaper_now (mo_clock m) of
       Inl e \<Rightarrow> (Inl e, local, fence, db)
     | Inr t \<Rightarrow>
       (case fence_check lsvc (mo_fence1 m) ''agent lease reaper requires a current maintenance lease'' fence db of
          (Inl e, fence1) \<Rightarrow> (Inl e, local, fence1, db)
        | (Inr _, fence1) \<Rightarrow>
          (case load_locked (env_sha256 benv) (isoformat t) local db of
             Inl e \<Rightarrow> (Inl e, local, fence1, db)
           | Inr (snapshot, local', db1) \<Rightarrow>
             let env = \<lparr>re_board = benv, re_now = isoformat t, re_clock = t, re_fresh = fresh\<rparr>;
                 rows = expired_rows (isoformat t) batch_limit db1;
                 examined = batch_rows (mo_rows m) fence rows
             in (case for_each (reap_step env snapshot) examined (no_counts, db1) of
                   Inl e \<Rightarrow> (Inl e, local', fence1, db)
                 | Inr (counts, db2) \<Rightarrow>
                   (case fence_check lsvc (mo_fence2 m) ''agent lease reaper lost its maintenance fencing context'' fence1 db2 of
                      (Inl e, fence2) \<Rightarrow> (Inl e, local', fence2, db)
                    | (Inr _, fence2) \<Rightarrow>
                        (Inr (counts, \<not> (rows = [] \<or> length examined = length rows \<and> length rows < batch_limit)),
                         local', fence2, db2))))))"

section \<open>The invocation\<close>

definition reap_batch_size :: nat where
  "reap_batch_size = 8"

definition max_reaps :: nat where
  "max_reaps = 128"

definition renew_fence :: "lease_service \<Rightarrow> 'm moment \<Rightarrow> reap_fence \<Rightarrow> 'z lease_db_scheme \<Rightarrow>
    (py_error + unit) \<times> reap_fence \<times> 'z lease_db_scheme" where
  "renew_fence lsvc m fence db =
    (case fence of
       Guard_fence g \<Rightarrow> (case guard_renew_now lsvc (mo_fence1 m) g db of (r, g', db') \<Rightarrow> (r, Guard_fence g', db'))
     | _ \<Rightarrow> (Inr (), fence, db))"

text \<open>
  The loop with at most \<open>fuel\<close> iterations; \<open>None\<close> is running out of it. Each iteration takes two
  moments, the renewal and the batch; \<open>fresh k\<close> supplies the identifiers of the batch at moment \<open>k\<close>.
\<close>

fun reap_loop :: "nat \<Rightarrow> board_env \<Rightarrow> lease_service \<Rightarrow> (nat \<Rightarrow> string \<Rightarrow> string) \<Rightarrow> (nat \<Rightarrow> 'z job_db_scheme moment) \<Rightarrow>
    nat \<Rightarrow> reap_counts \<Rightarrow> reap_fence \<Rightarrow> permission_policy option \<Rightarrow> 'z job_db_scheme \<Rightarrow>
    ((py_error + reap_counts) \<times> nat \<times> permission_policy option \<times> reap_fence \<times> 'z job_db_scheme) option" where
  "reap_loop 0 benv lsvc fresh ms k counts fence local db = None"
| "reap_loop (Suc fuel) benv lsvc fresh ms k counts fence local db =
    (if \<not> rc_expired counts < max_reaps then Some (Inr counts, k, local, fence, db)
     else
       (case renew_fence lsvc (ms k) fence (mo_others (ms k) db) of
          (Inl e, fence1, db1) \<Rightarrow> Some (Inl e, k, local, fence1, db1)
        | (Inr _, fence1, db1) \<Rightarrow>
          (case reap_batch benv lsvc (fresh k) (min reap_batch_size (max_reaps - rc_expired counts)) (ms (k + 1)) fence1 local
              (mo_others (ms (k + 1)) db1) of
             (Inl e, local', fence2, db2) \<Rightarrow> Some (Inl e, k, local', fence2, db2)
           | (Inr (batch_counts, go_on), local', fence2, db2) \<Rightarrow>
             let total = add_counts counts batch_counts in
             if go_on then reap_loop fuel benv lsvc fresh ms (k + 2) total fence2 local' db2
             else Some (Inr total, k + 2, local', fence2, db2))))"

record lease_reaper =
  lr_leases :: "lease_service option"
  lr_owner :: "string option"
  lr_outbox :: outbox_service

text \<open>The exceptions of the final drain that are swallowed: all but \<open>MaintenanceLeaseLost\<close> and those of no listed class.\<close>

definition drain_error_ignored :: "py_error \<Rightarrow> bool" where
  "drain_error_ignored e = (case e of
      MaintenanceLeaseLost m \<Rightarrow> False | KeyError m \<Rightarrow> False | OverflowError m \<Rightarrow> False
    | OtherException name \<Rightarrow> name = ''OSError'' \<or> name = ''JSONDecodeError'' | _ \<Rightarrow> True)"

definition choose_fence :: "lease_reaper \<Rightarrow> int option \<Rightarrow> lease_guard option \<Rightarrow> py_datetime \<Rightarrow> 'z lease_db_scheme \<Rightarrow>
    (py_error + reap_fence option) \<times> 'z lease_db_scheme" where
  "choose_fence reaper maintenance_generation g clk db =
    (case g of
       Some gd \<Rightarrow>
         if maintenance_generation \<noteq> None \<and> maintenance_generation \<noteq> Some (ml_generation (lg_lease gd))
         then (Inl (RuntimeError ''agent lease reaper received mismatched maintenance fencing''), db)
         else (Inr (Some (Guard_fence gd)), db)
     | None \<Rightarrow>
         (case lr_leases reaper of
            None \<Rightarrow> (Inr (Some Unfenced), db)
          | Some lsvc \<Rightarrow>
              (case maintenance_generation of
                 Some generation \<Rightarrow> (Inr (Some (Lease_fence (lr_owner reaper) generation)), db)
               | None \<Rightarrow>
                   (case lr_owner reaper of
                      None \<Rightarrow> (Inl (RuntimeError ''agent lease reaper maintenance owner is not configured''), db)
                    | Some owner \<Rightarrow>
                        (case lease_acquire lsvc clk reaper_lease_name owner db of
                           (Inl e, db1) \<Rightarrow> (Inl e, db1)
                         | (Inr None, db1) \<Rightarrow> (Inr None, db1)
                         | (Inr (Some lease), db1) \<Rightarrow>
                             (Inr (Some (Lease_fence (Some owner) (ml_generation lease))), db1))))))"

text \<open>\<open>lsvc\<close> is the service of the guard; the reaper's own lease is checked with its own service.\<close>

definition fence_service :: "lease_reaper \<Rightarrow> lease_service \<Rightarrow> reap_fence \<Rightarrow> lease_service" where
  "fence_service reaper lsvc fence =
    (case fence of Lease_fence owner generation \<Rightarrow> (case lr_leases reaper of None \<Rightarrow> lsvc | Some own \<Rightarrow> own) | _ \<Rightarrow> lsvc)"

definition reap_expired :: "board_env \<Rightarrow> lease_reaper \<Rightarrow> lease_service \<Rightarrow> 'z job_db_scheme board \<Rightarrow>
    (nat \<Rightarrow> string \<Rightarrow> string) \<Rightarrow> (nat \<Rightarrow> 'z job_db_scheme moment) \<Rightarrow> int option \<Rightarrow> lease_guard option \<Rightarrow>
    permission_policy option \<Rightarrow> 'z job_db_scheme \<Rightarrow>
    ((py_error + reap_counts) \<times> permission_policy option \<times> 'z job_db_scheme) option" where
  "reap_expired benv reaper lsvc board fresh ms maintenance_generation g local db =
    (case choose_fence reaper maintenance_generation g (mo_fence1 (ms 0)) (mo_others (ms 0) db) of
       (Inl e, db0) \<Rightarrow> Some (Inl e, local, db0)
     | (Inr None, db0) \<Rightarrow> Some (Inr no_counts, local, db0)
     | (Inr (Some fence), db0) \<Rightarrow>
       (case reap_loop (max_reaps + 1) benv (fence_service reaper lsvc fence) fresh ms 1 no_counts fence local db0 of
          None \<Rightarrow> None
        | Some (Inl e, k, local', fence', db1) \<Rightarrow> Some (Inl e, local', db1)
        | Some (Inr counts, k, local', fence', db1) \<Rightarrow>
          (case drain benv (lr_outbox reaper) lsvc board 100 (\<lambda>i. ms (k + i))
              (case fence' of Guard_fence gd \<Rightarrow> Some gd | _ \<Rightarrow> None) db1 of
             (Inl e, g', db2) \<Rightarrow>
               if drain_error_ignored e then Some (Inr counts, local', db2) else Some (Inl e, local', db2)
           | (Inr report, g', db2) \<Rightarrow> Some (Inr counts, local', db2))))"

text \<open>SQLite's \<open>LIKE\<close> ignores the case of ASCII letters; its pattern here is in lower case.\<close>

record reaper_metrics_report =
  rm_queued_jobs :: nat
  rm_leased_jobs :: nat
  rm_dead_letter_jobs :: nat
  rm_quarantined_jobs :: nat
  rm_expired_leases :: int
  rm_retries :: int
  rm_dead_letter_events :: int

definition reaper_metrics :: "'z job_db_scheme \<Rightarrow> reaper_metrics_report" where
  "reaper_metrics db =
    (let count = (\<lambda>P. sql_rowcount P (agent_jobs db)); total = (\<lambda>f. case job_metrics db of None \<Rightarrow> 0 | Some m \<Rightarrow> f m) in
     \<lparr>rm_queued_jobs = count (\<lambda>r. aj_status r = Job_Queued),
      rm_leased_jobs = count (\<lambda>r. job_leased (aj_status r)),
      rm_dead_letter_jobs = count (\<lambda>r. aj_status r = Job_Failed \<and>
        starts_with expired_reason (map ascii_lower (or_empty (aj_last_failure_reason r)))),
      rm_quarantined_jobs = count (\<lambda>r. aj_status r = Job_Quarantined),
      rm_expired_leases = total jm_lease_expirations, rm_retries = total jm_retries,
      rm_dead_letter_events = total jm_dead_letter_events\<rparr>)"

end
