(* ===== verification/IPhone_Capability.thy ===== *)
theory IPhone_Capability
  imports Device_Auth Lease_Reaper
begin

text \<open>
  \<open>server/app/services/iphone_capability_service.py\<close> and \<open>iphone_capability_binding.py\<close>: a leased worker
  asks for a capability of a phone, the phone's user decides, an approval gives a one-use grant, and the
  phone consumes the grant, acts and submits the result, which the worker polls. SHA-256, \<open>uuid4\<close>, the
  secrets, \<open>datetime.fromisoformat\<close> and the text of a container are parameters.
\<close>

section \<open>State\<close>

record capability_result_row =
  cx_request_id :: string
  cx_status :: string
  cx_result_json :: string
  cx_created_at :: string

record capability_db = auth_db +
  capability_results :: "capability_result_row sql_table"

record capability_service =
  ic_extended_agenda_enabled :: bool
  ic_grant_ttl_seconds :: int
  ic_leases :: "lease_service option"
  ic_owner :: "string option"
  ic_outbox :: outbox_service

text \<open>
  What surrounds the service. Every phase of an operation, a transaction or a drain, has its own moments.
\<close>

record 'db capability_world =
  cw_board :: board_env
  cw_fromisoformat :: "string \<Rightarrow> py_error + nat"
  cw_repr :: "json \<Rightarrow> string"
  cw_lsvc :: lease_service
  cw_adapter :: "'db board"
  cw_moments :: "nat \<Rightarrow> nat \<Rightarrow> 'db moment"
  cw_fresh :: "string \<Rightarrow> string"

definition extended_agenda_capabilities :: "string list" where
  "extended_agenda_capabilities = [''iphone.calendar.calendars'', ''iphone.calendar.reminders'',
    ''iphone.calendar.event.create'', ''iphone.calendar.event.update'',
    ''iphone.calendar.reminder.create'', ''iphone.calendar.reminder.update'']"

definition terminal_capability_statuses :: "string list" where
  "terminal_capability_statuses = [''completed'', ''denied'', ''failed'', ''cancelled'', ''expired'']"

definition capability_conflict :: "string \<Rightarrow> py_error + 'a" where
  "capability_conflict message = Inl (IPhoneCapabilityConflict message)"

definition capability_now :: "py_datetime \<Rightarrow> py_error + nat" where
  "capability_now clk = (if dt_aware clk then Inr (dt_instant clk)
    else Inl (RuntimeError ''iPhone capability clock must be timezone-aware''))"

definition grant_hash :: "(string \<Rightarrow> string) \<Rightarrow> string \<Rightarrow> string" where
  "grant_hash H token = ''sha256:'' @ H token"

text \<open>What a transaction of the service reads of its surroundings.\<close>

definition capability_env :: "board_env \<Rightarrow> (string \<Rightarrow> string) \<Rightarrow> nat \<Rightarrow> reaper_env" where
  "capability_env benv fresh t = \<lparr>re_board = benv, re_now = isoformat t, re_clock = t, re_fresh = fresh\<rparr>"

text \<open>
  A transaction whose body may also commit and then raise: the outer sum is the rollback, the inner one
  what the operation goes on with after the commit.
\<close>

definition committed :: "('db \<Rightarrow> py_error + (py_error + 'a) \<times> 'db) \<Rightarrow> 'db \<Rightarrow> (py_error + 'a) \<times> 'db" where
  "committed body db = (case body db of Inl e \<Rightarrow> (Inl e, db) | Inr (r, db') \<Rightarrow> (r, db'))"

definition capability_audit :: "reaper_env \<Rightarrow> string \<Rightarrow> json \<Rightarrow> string \<Rightarrow> string \<Rightarrow> string \<Rightarrow> 'z audit_db_scheme \<Rightarrow>
    audit_row \<times> 'z audit_db_scheme" where
  "capability_audit env event_type payload actor_type actor_id task_id db =
    append_audit_event (env_sha256 (re_board env)) (re_fresh env event_type) (re_clock env) event_type payload
      actor_type actor_id (Some task_id) (Some task_id) (Some (re_now env)) db"

definition capability_enqueue :: "reaper_env \<Rightarrow> capability_request_row \<Rightarrow> string \<Rightarrow> string \<Rightarrow> json \<Rightarrow> string \<Rightarrow>
    'z job_db_scheme \<Rightarrow> py_error + 'z job_db_scheme" where
  "capability_enqueue env r topic event_type payload suffix db =
    reaper_enqueue env ''iphone_capability_request'' (cr_id r) topic event_type payload (cr_task_id r)
      (Some (cr_requesting_agent_id r)) (''iphone-capability:'' @ cr_id r @ '':'' @ suffix) db"

text \<open>The exceptions of the drain after a commit that are swallowed.\<close>

definition capability_drain_ignored :: "py_error \<Rightarrow> bool" where
  "capability_drain_ignored e = (case e of MaintenanceLeaseLost m \<Rightarrow> True | _ \<Rightarrow> drain_error_ignored e)"

definition capability_drain :: "capability_service \<Rightarrow> 'z job_db_scheme capability_world \<Rightarrow> nat \<Rightarrow> 'z job_db_scheme \<Rightarrow>
    (py_error + unit) \<times> 'z job_db_scheme" where
  "capability_drain svc w p db =
    (case drain (cw_board w) (ic_outbox svc) (cw_lsvc w) (cw_adapter w) 100 (cw_moments w p) None db of
       (Inl e, g, db1) \<Rightarrow> (if capability_drain_ignored e then Inr () else Inl e, db1)
     | (Inr report, g, db1) \<Rightarrow> (Inr (), db1))"

section \<open>The lease behind a request\<close>

definition job_with_task :: "string \<Rightarrow> 'z job_db_scheme \<Rightarrow> (job_row \<times> task_row) option" where
  "job_with_task job_id db = fetchone (concat (map (\<lambda>j. map (Pair j)
      (sql_select (\<lambda>t. tk_id t = aj_task_id j) (tasks db)))
    (sql_select (\<lambda>j. aj_id j = job_id) (agent_jobs db))))"

definition require_active_lease_locked :: "(string \<Rightarrow> string) \<Rightarrow> string \<Rightarrow> string \<Rightarrow> string \<Rightarrow> string \<Rightarrow> int \<Rightarrow> string \<Rightarrow>
    'z job_db_scheme \<Rightarrow> py_error + job_row \<times> task_row" where
  "require_active_lease_locked H agent_id job_id claim_token lease_id lease_generation now db =
    (case job_with_task job_id db of
       None \<Rightarrow> capability_conflict ''job lease is stale, expired, or inactive''
     | Some (j, t) \<Rightarrow>
         if job_leased (aj_status j) \<and> tk_status t = Task_Running \<and>
           lease_matches H j agent_id claim_token (Some lease_id) (Some lease_generation) now True
         then Inr (j, t) else capability_conflict ''job lease is stale, expired, or inactive'')"

text \<open>\<open>str\<close> of a NULL column is the text None.\<close>

definition request_job_is_active_locked :: "capability_request_row \<Rightarrow> string \<Rightarrow> 'z job_db_scheme \<Rightarrow> bool" where
  "request_job_is_active_locked r now db =
    (case job_with_task (cr_requesting_job_id r) db of
       None \<Rightarrow> False
     | Some (j, t) \<Rightarrow> job_leased (aj_status j) \<and>
         (case aj_claimed_by j of None \<Rightarrow> ''None'' | Some a \<Rightarrow> a) = cr_requesting_agent_id r \<and>
         aj_lease_generation j = cr_lease_generation r \<and> null_gt (aj_lease_expires_at j) now \<and>
         tk_status t = Task_Running)"

definition select_device_locked :: "string \<Rightarrow> 'z auth_db_scheme \<Rightarrow> py_error + string" where
  "select_device_locked task_source db =
    (case row_by dv_id task_source (devices db) of
       Some d \<Rightarrow> Inr (dv_id d)
     | None \<Rightarrow>
         let seen = (\<lambda>d. case dv_last_seen_at d of None \<Rightarrow> dv_created_at d | Some t \<Rightarrow> t);
             candidates = take 2 (rev (sort_key seen (rev (sort_key dv_id (devices db)))))
         in (case candidates of [d] \<Rightarrow> Inr (dv_id d)
             | _ \<Rightarrow> capability_conflict ''task has no unambiguous paired iPhone''))"

section \<open>Ending a request\<close>

definition end_request :: "capability_request_row \<Rightarrow> (string \<Rightarrow> bool) \<Rightarrow> string \<Rightarrow> string \<Rightarrow> 'z job_db_scheme \<Rightarrow>
    'z job_db_scheme" where
  "end_request r from_status status now db = db\<lparr>
    capability_requests := sql_update (\<lambda>x. cr_id x = cr_id r \<and> from_status (cr_status x))
      (\<lambda>x. x\<lparr>cr_status := status, cr_completed_at := Some now\<rparr>) (capability_requests db),
    capability_grants := sql_update (\<lambda>g. cg_request_id g = cr_id r) (\<lambda>g. g\<lparr>cg_expires_at := now\<rparr>)
      (capability_grants db)\<rparr>"

definition result_payload :: "string \<Rightarrow> string \<Rightarrow> json" where
  "result_payload request_id status = JObj [(''request_id'', JStr request_id), (''status'', JStr status)]"

definition expire_request_locked :: "reaper_env \<Rightarrow> capability_request_row \<Rightarrow> 'z job_db_scheme \<Rightarrow>
    py_error + 'z job_db_scheme" where
  "expire_request_locked env r db =
    capability_enqueue env r ''agent.job.capability.result'' ''capability_result'' (result_payload (cr_id r) ''expired'')
      ''expired'' (snd (capability_audit env ''iphone.capability.expired'' (JObj [(''request_id'', JStr (cr_id r))])
        ''control-plane'' ''capability-gateway'' (cr_task_id r)
        (end_request r (\<lambda>s. s \<in> set [''waiting_approval'', ''approved'', ''consumed'']) ''expired'' (re_now env) db)))"

definition cancel_request_locked :: "reaper_env \<Rightarrow> capability_request_row \<Rightarrow> string \<Rightarrow> 'z job_db_scheme \<Rightarrow>
    py_error + 'z job_db_scheme" where
  "cancel_request_locked env r reason db =
    capability_enqueue env r ''agent.job.capability.result'' ''capability_result'' (result_payload (cr_id r) ''cancelled'')
      ''cancelled'' (snd (capability_audit env ''iphone.capability.cancelled''
        (JObj [(''request_id'', JStr (cr_id r)), (''reason'', JStr reason)])
        ''control-plane'' ''capability-gateway'' (cr_task_id r)
        (end_request r (\<lambda>s. s \<notin> set terminal_capability_statuses) ''cancelled'' (re_now env) db)))"

text \<open>Commit the end of a request, then raise.\<close>

definition ended_with :: "string \<Rightarrow> py_error + 'db \<Rightarrow> py_error + (py_error + 'a) \<times> 'db" where
  "ended_with message m = and_then m (\<lambda>db. Inr (capability_conflict message, db))"

section \<open>Requests\<close>

definition canonical_capability_request_fingerprint :: "(string \<Rightarrow> string) \<Rightarrow> string \<Rightarrow> int \<Rightarrow> string \<Rightarrow>
    (string \<times> json) list \<Rightarrow> py_error + string" where
  "canonical_capability_request_fingerprint H job_id lease_generation capability_name arguments =
    (if job_id = [] \<or> lease_generation < 0 \<or> capability_name = []
     then Inl (CapabilityRequestBindingError ''capability request binding is invalid'')
     else Inr (''sha256:'' @ H (json_dumps (JObj [(''arguments'', JObj arguments), (''capability_name'', JStr capability_name),
       (''job_id'', JStr job_id), (''lease_generation'', JInt lease_generation)]))))"

record capability_draft =
  cd_rule :: tool_rule
  cd_ttl_seconds :: int
  cd_request_id :: string
  cd_approval_id :: string
  cd_arguments_json :: string
  cd_fingerprint :: string
  cd_action_digest :: string

text \<open>What \<open>create_request\<close> checks before its transaction; the two texts are those of \<open>uuid4\<close>.\<close>

definition draft_request :: "capability_service \<Rightarrow> (string \<Rightarrow> string) \<Rightarrow> permission_policy \<Rightarrow> string \<Rightarrow> int \<Rightarrow> string \<Rightarrow>
    (string \<times> json) list \<Rightarrow> string \<Rightarrow> string \<Rightarrow> py_error + capability_draft" where
  "draft_request svc H policy job_id lease_generation capability_name arguments request_hex approval_hex =
    (if capability_name \<in> set extended_agenda_capabilities \<and> \<not> ic_extended_agenda_enabled svc
     then capability_conflict ''extended agenda disabled until compatible iPhone rollout''
     else case evaluate_capability policy capability_name of
       Inl e \<Rightarrow> capability_conflict ''capability is not authorized by policy''
     | Inr rule \<Rightarrow>
       (case tr_approval_ttl_seconds rule of
          None \<Rightarrow> capability_conflict ''sensitive iPhone capabilities require an explicit approval rule''
        | Some ttl \<Rightarrow>
          if tr_decision rule \<noteq> ''ask''
          then capability_conflict ''sensitive iPhone capabilities require an explicit approval rule''
          else (case (canonical_capability_request_fingerprint H job_id lease_generation capability_name arguments,
              canonical_action_digest H (''iphreq_'' @ request_hex) capability_name arguments) of
             (Inr fingerprint, Inr digest) \<Rightarrow>
               if 64000 < length (json_dumps (JObj arguments))
               then capability_conflict ''capability arguments are too large''
               else Inr \<lparr>cd_rule = rule, cd_ttl_seconds = ttl, cd_request_id = ''iphreq_'' @ request_hex,
                 cd_approval_id = ''icapr_'' @ approval_hex, cd_arguments_json = json_dumps (JObj arguments),
                 cd_fingerprint = fingerprint, cd_action_digest = digest\<rparr>
           | _ \<Rightarrow> capability_conflict ''capability arguments are not canonical JSON'')))"

definition open_capability :: "capability_request_row \<Rightarrow> bool" where
  "open_capability r \<longleftrightarrow> cr_status r \<notin> set terminal_capability_statuses"

definition open_request :: "string \<Rightarrow> 'z job_db_scheme \<Rightarrow> capability_request_row option" where
  "open_request fingerprint db = fetchone (sort_key (\<lambda>r. (cr_created_at r, cr_id r))
    (sql_select (\<lambda>r. cr_request_fingerprint r = fingerprint \<and> open_capability r) (capability_requests db)))"

text \<open>The keys of the table and the unique index on the fingerprints of open requests.\<close>

definition insert_capability_request :: "capability_request_row \<Rightarrow> 'z job_db_scheme \<Rightarrow> py_error + 'z job_db_scheme" where
  "insert_capability_request r db =
    (if list_ex (\<lambda>x. cr_id x = cr_id r \<or> cr_approval_id x = cr_approval_id r \<or>
        cr_request_fingerprint x = cr_request_fingerprint r \<and> open_capability x \<and> open_capability r) (capability_requests db)
     then Inl (IntegrityError ''UNIQUE constraint failed: iphone_capability_requests'')
     else Inr (db\<lparr>capability_requests := capability_requests db @ [r]\<rparr>))"

datatype created_request = Existing_Request capability_request_row | New_Request string

definition drafted_row :: "capability_draft \<Rightarrow> job_row \<Rightarrow> string \<Rightarrow> string \<Rightarrow> int \<Rightarrow> string \<Rightarrow> string \<Rightarrow> int \<Rightarrow> nat \<Rightarrow> nat \<Rightarrow>
    capability_request_row" where
  "drafted_row d job agent_id job_id lease_generation capability_name device_id audit_id created expires =
    \<lparr>cr_id = cd_request_id d, cr_task_id = aj_task_id job, cr_requesting_agent_id = agent_id,
     cr_requesting_job_id = job_id, cr_lease_generation = lease_generation, cr_device_id = device_id,
     cr_capability_name = capability_name, cr_arguments_json = cd_arguments_json d,
     cr_request_fingerprint = cd_fingerprint d, cr_action_digest = cd_action_digest d,
     cr_status = ''waiting_approval'', cr_approval_id = cd_approval_id d, cr_request_audit_id = audit_id,
     cr_created_at = isoformat created, cr_expires_at = isoformat expires, cr_delivered_at = None, cr_completed_at = None\<rparr>"

text \<open>When no open request has the fingerprint.\<close>

definition new_request_locked :: "reaper_env \<Rightarrow> nat \<Rightarrow> capability_draft \<Rightarrow> string \<Rightarrow> string \<Rightarrow> int \<Rightarrow> string \<Rightarrow> job_row \<Rightarrow>
    task_row \<Rightarrow> 'z auth_db_scheme \<Rightarrow> py_error + created_request \<times> 'z auth_db_scheme" where
  "new_request_locked env expires d agent_id job_id lease_generation capability_name job task db =
    and_then (select_device_locked (tk_source task) db) (\<lambda>device_id.
    let (audit, db1) = capability_audit env ''iphone.capability.requested''
          (JObj [(''request_id'', JStr (cd_request_id d)), (''approval_id'', JStr (cd_approval_id d)),
            (''capability_name'', JStr capability_name), (''requesting_agent_id'', JStr agent_id),
            (''requesting_job_id'', JStr job_id), (''action_digest'', JStr (cd_action_digest d)),
            (''policy'', approval_context (cd_rule d)), (''arguments_redacted'', JBool True)])
          ''agent'' agent_id (aj_task_id job) db;
        row = drafted_row d job agent_id job_id lease_generation capability_name device_id (ae_id audit) (re_clock env) expires
    in and_then (insert_capability_request row db1) (\<lambda>db2.
       and_then (capability_enqueue env row ''iphone.capabilities'' ''capability_requested''
         (JObj [(''request_id'', JStr (cd_request_id d)), (''capability_name'', JStr capability_name),
           (''device_id'', JStr device_id), (''status'', JStr ''waiting_approval'')]) ''requested'' db2) (\<lambda>db3.
       Inr (New_Request device_id, db3))))"

definition create_request_locked :: "board_env \<Rightarrow> (string \<Rightarrow> string) \<Rightarrow> py_datetime \<Rightarrow> capability_draft \<Rightarrow> string \<Rightarrow> string \<Rightarrow>
    string \<Rightarrow> string \<Rightarrow> int \<Rightarrow> string \<Rightarrow> 'z auth_db_scheme \<Rightarrow> py_error + created_request \<times> 'z auth_db_scheme" where
  "create_request_locked benv fresh clk d agent_id job_id claim_token lease_id lease_generation capability_name db =
    and_then (capability_now clk) (\<lambda>t.
    and_then (dt_add_seconds t (cd_ttl_seconds d)) (\<lambda>expires.
    and_then (require_active_lease_locked (env_sha256 benv) agent_id job_id claim_token lease_id lease_generation
      (isoformat t) db) (\<lambda>(job, task).
    case open_request (cd_fingerprint d) db of
      Some existing \<Rightarrow> Inr (Existing_Request existing, db)
    | None \<Rightarrow> new_request_locked (capability_env benv fresh t) expires d agent_id job_id lease_generation capability_name
        job task db)))"

section \<open>Decisions\<close>

definition record_capability_decision :: "reaper_env \<Rightarrow> capability_request_row \<Rightarrow> string \<Rightarrow> string \<Rightarrow> string option \<Rightarrow>
    'z job_db_scheme \<Rightarrow> py_error + 'z job_db_scheme" where
  "record_capability_decision env r outcome device_id user_note db =
    capability_enqueue env r ''iphone.capabilities''
      (if outcome = ''approved'' then ''capability_authorized'' else ''capability_result'')
      (result_payload (cr_id r) outcome) outcome
      (snd (capability_audit env ''iphone.capability.approval_decided''
        (JObj [(''request_id'', JStr (cr_id r)), (''approval_id'', JStr (cr_approval_id r)), (''decision'', JStr outcome),
          (''user_note_present'', JBool (or_empty user_note \<noteq> []))])
        ''device'' device_id (cr_task_id r) db))"

definition set_request_status :: "string \<Rightarrow> string \<Rightarrow> (capability_request_row \<Rightarrow> capability_request_row) \<Rightarrow> string \<Rightarrow>
    'z job_db_scheme \<Rightarrow> py_error + 'z job_db_scheme" where
  "set_request_status request_id from_status f message db =
    (let hit = (\<lambda>x. cr_id x = request_id \<and> cr_status x = from_status) in
     if sql_rowcount hit (capability_requests db) \<noteq> 1 then capability_conflict message
     else Inr (db\<lparr>capability_requests := sql_update hit f (capability_requests db)\<rparr>))"

definition insert_grant :: "capability_grant_row \<Rightarrow> 'z job_db_scheme \<Rightarrow> py_error + 'z job_db_scheme" where
  "insert_grant g db =
    (if list_ex (\<lambda>x. cg_id x = cg_id g \<or> cg_request_id x = cg_request_id g \<or> cg_token_hash x = cg_token_hash g)
        (capability_grants db)
     then Inl (IntegrityError ''UNIQUE constraint failed: iphone_capability_grants'')
     else Inr (db\<lparr>capability_grants := capability_grants db @ [g]\<rparr>))"

text \<open>A second approval before the grant is used replaces its secret.\<close>

definition rotate_grant :: "reaper_env \<Rightarrow> capability_request_row \<Rightarrow> string \<Rightarrow> string \<Rightarrow> string \<Rightarrow> string \<Rightarrow> 'z job_db_scheme \<Rightarrow>
    py_error + 'z job_db_scheme" where
  "rotate_grant env r device_id token_hash grant_expiry rotation_hex db =
    (case fetchone (sql_select (\<lambda>g. cg_request_id g = cr_id r \<and> cg_device_id g = device_id) (capability_grants db)) of
       None \<Rightarrow> capability_conflict ''capability grant cannot be rotated''
     | Some g \<Rightarrow>
         if cg_consumed_at g \<noteq> None then capability_conflict ''capability grant cannot be rotated''
         else if list_ex (\<lambda>x. cg_id x \<noteq> cg_id g \<and> cg_token_hash x = token_hash) (capability_grants db)
         then Inl (IntegrityError ''UNIQUE constraint failed: iphone_capability_grants.token_hash'')
         else
           let hit = (\<lambda>x. cg_id x = cg_id g \<and> cg_consumed_at x = None) in
           if sql_rowcount hit (capability_grants db) \<noteq> 1
           then capability_conflict ''capability grant changed during rotation''
           else
             (let rotation_id = ''icgr_'' @ rotation_hex;
                  db1 = db\<lparr>capability_grants := sql_update hit (\<lambda>x. x\<lparr>cg_token_hash := token_hash,
                    cg_issued_at := re_now env, cg_expires_at := grant_expiry\<rparr>) (capability_grants db)\<rparr>
              in capability_enqueue env r ''iphone.capabilities'' ''capability_authorized''
                   (result_payload (cr_id r) ''approved'') (''grant-rotated:'' @ rotation_id)
                   (snd (capability_audit env ''iphone.capability.grant_rotated''
                     (JObj [(''request_id'', JStr (cr_id r)), (''rotation_id'', JStr rotation_id)])
                     ''device'' device_id (cr_task_id r) db1))))"

definition first_grant :: "reaper_env \<Rightarrow> capability_request_row \<Rightarrow> string \<Rightarrow> string \<Rightarrow> string \<Rightarrow> string \<Rightarrow> string option \<Rightarrow>
    'z job_db_scheme \<Rightarrow> py_error + 'z job_db_scheme" where
  "first_grant env r device_id token_hash grant_expiry grant_hex user_note db =
    and_then (insert_grant \<lparr>cg_id = ''icg_'' @ grant_hex, cg_request_id = cr_id r, cg_device_id = device_id,
        cg_capability_name = cr_capability_name r, cg_approval_id = cr_approval_id r, cg_token_hash = token_hash,
        cg_action_digest = cr_action_digest r, cg_issued_at = re_now env, cg_expires_at = grant_expiry,
        cg_consumed_at = None\<rparr> db) (\<lambda>db1.
    and_then (set_request_status (cr_id r) ''waiting_approval'' (\<lambda>x. x\<lparr>cr_status := ''approved''\<rparr>)
      ''capability request changed during authorization'' db1) (\<lambda>db2.
    record_capability_decision env r ''approved'' device_id user_note db2))"

text \<open>
  Of the approved request the result is the row and the time of issue and expiry of the grant.
  \<open>secret\<close> is what \<open>token_urlsafe\<close> gives.
\<close>

definition authorize_locked :: "board_env \<Rightarrow> (string \<Rightarrow> py_error + nat) \<Rightarrow> (string \<Rightarrow> string) \<Rightarrow> capability_service \<Rightarrow>
    py_datetime \<Rightarrow> string \<Rightarrow> string \<Rightarrow> string \<Rightarrow> string \<Rightarrow> string \<Rightarrow> string \<Rightarrow> string option \<Rightarrow> 'z job_db_scheme \<Rightarrow>
    py_error + (py_error + capability_request_row \<times> (string \<times> string) option) \<times> 'z job_db_scheme" where
  "authorize_locked benv parse fresh svc clk secret grant_hex rotation_hex request_id device_id decision user_note db =
    and_then (capability_now clk) (\<lambda>t.
    let now = isoformat t; env = capability_env benv fresh t in
    case fetchone (sql_select (\<lambda>r. cr_id r = request_id \<and> cr_device_id r = device_id) (capability_requests db)) of
      None \<Rightarrow> capability_conflict ''capability request not found for this device''
    | Some r \<Rightarrow>
        if cr_status r \<notin> set (if decision = ''approve'' then [''waiting_approval'', ''approved''] else [''waiting_approval''])
        then capability_conflict ''capability request was already decided''
        else if cr_expires_at r \<le> now
        then ended_with ''capability request expired'' (expire_request_locked env r db)
        else if \<not> request_job_is_active_locked r now db
        then ended_with ''requesting worker lease is no longer active''
          (cancel_request_locked env r ''requesting worker lease is no longer active'' db)
        else if decision = ''deny''
        then and_then (record_capability_decision env r ''denied'' device_id user_note
            (db\<lparr>capability_requests := sql_update (\<lambda>x. cr_id x = request_id \<and> cr_status x = ''waiting_approval'')
              (\<lambda>x. x\<lparr>cr_status := ''denied'', cr_completed_at := Some now\<rparr>) (capability_requests db)\<rparr>))
          (\<lambda>db1. Inr (Inr (r\<lparr>cr_status := ''denied'', cr_completed_at := Some now\<rparr>, None), db1))
        else
          and_then (parse (cr_expires_at r)) (\<lambda>request_expiry.
          and_then (dt_add_seconds t (ic_grant_ttl_seconds svc)) (\<lambda>limit.
          let grant_expiry = isoformat (min request_expiry limit);
              token_hash = grant_hash (env_sha256 benv) (''grt_'' @ secret)
          in and_then
              (if cr_status r = ''approved'' then rotate_grant env r device_id token_hash grant_expiry rotation_hex db
               else first_grant env r device_id token_hash grant_expiry grant_hex user_note db)
              (\<lambda>db1. Inr (Inr (r\<lparr>cr_status := ''approved''\<rparr>, Some (now, grant_expiry)), db1)))))"

section \<open>Using a grant\<close>

text \<open>\<open>hmac.compare_digest\<close> is reached only when the comparisons before it hold.\<close>

definition grant_binding_matches :: "capability_request_row \<Rightarrow> capability_grant_row \<Rightarrow> string \<Rightarrow> string \<Rightarrow> py_error + bool" where
  "grant_binding_matches r g device_id action_digest =
    (if cr_device_id r = device_id \<and> cg_device_id g = device_id \<and> cr_capability_name r = cg_capability_name g \<and>
        cr_approval_id r = cg_approval_id g
     then and_then (compare_digest (cr_action_digest r) action_digest) (\<lambda>same.
       if same then compare_digest (cg_action_digest g) action_digest else Inr False)
     else Inr False)"

definition granted_request :: "string \<Rightarrow> string \<Rightarrow> 'z job_db_scheme \<Rightarrow>
    (capability_request_row \<times> capability_grant_row) option" where
  "granted_request request_id token_hash db = fetchone (concat (map (\<lambda>r. map (Pair r)
      (sql_select (\<lambda>g. cg_request_id g = cr_id r \<and> cg_token_hash g = token_hash) (capability_grants db)))
    (sql_select (\<lambda>r. cr_id r = request_id) (capability_requests db))))"

definition consume_locked :: "board_env \<Rightarrow> (string \<Rightarrow> string) \<Rightarrow> py_datetime \<Rightarrow> string \<Rightarrow> string \<Rightarrow> string \<Rightarrow> string \<Rightarrow>
    'z job_db_scheme \<Rightarrow> py_error + (py_error + string) \<times> 'z job_db_scheme" where
  "consume_locked benv fresh clk request_id device_id grant_id action_digest db =
    and_then (capability_now clk) (\<lambda>t.
    let now = isoformat t; env = capability_env benv fresh t in
    case granted_request request_id (grant_hash (env_sha256 benv) grant_id) db of
      None \<Rightarrow> capability_conflict ''capability grant binding is invalid''
    | Some (r, g) \<Rightarrow>
        and_then (grant_binding_matches r g device_id action_digest) (\<lambda>bound.
        if \<not> bound then capability_conflict ''capability grant binding is invalid''
        else if cg_consumed_at g \<noteq> None \<or> cr_status r \<noteq> ''approved''
        then capability_conflict ''capability grant was already consumed''
        else if cg_expires_at g \<le> now
        then ended_with ''capability grant expired'' (expire_request_locked env r db)
        else if \<not> request_job_is_active_locked r now db
        then ended_with ''requesting worker lease is no longer active''
          (cancel_request_locked env r ''requesting worker lease is no longer active'' db)
        else
          let hit = (\<lambda>x. cg_id x = cg_id g \<and> cg_consumed_at x = None \<and> now < cg_expires_at x);
              db1 = db\<lparr>capability_grants := sql_update hit (\<lambda>x. x\<lparr>cg_consumed_at := Some now\<rparr>) (capability_grants db)\<rparr>
          in if sql_rowcount hit (capability_grants db) \<noteq> 1
             then capability_conflict ''capability grant lost a concurrent transition''
             else and_then (set_request_status request_id ''approved''
                 (\<lambda>x. x\<lparr>cr_status := ''consumed'', cr_delivered_at := Some now\<rparr>)
                 ''capability grant lost a concurrent transition'' db1) (\<lambda>db2.
               and_then (capability_enqueue env r ''iphone.capabilities'' ''capability_consumed''
                 (result_payload request_id ''consumed'') ''consumed''
                 (snd (capability_audit env ''iphone.capability.grant_consumed''
                   (JObj [(''request_id'', JStr request_id), (''action_digest'', JStr action_digest)])
                   ''device'' device_id (cr_task_id r) db2))) (\<lambda>db3.
               Inr (Inr now, db3)))))"

section \<open>Results\<close>

definition dict_text :: "(json \<Rightarrow> string) \<Rightarrow> string \<Rightarrow> (string \<times> json) list \<Rightarrow> string" where
  "dict_text repr key kvs = py_str repr (case map_of kvs key of None \<Rightarrow> JNull | Some v \<Rightarrow> v)"

definition stored_result :: "string \<Rightarrow> 'z capability_db_scheme \<Rightarrow> capability_result_row option" where
  "stored_result request_id db = row_by cx_request_id request_id (capability_results db)"

definition insert_result :: "capability_result_row \<Rightarrow> 'z capability_db_scheme \<Rightarrow> py_error + 'z capability_db_scheme" where
  "insert_result x db =
    (if stored_result (cx_request_id x) db \<noteq> None
     then Inl (IntegrityError ''UNIQUE constraint failed: iphone_capability_results.request_id'')
     else Inr (db\<lparr>capability_results := capability_results db @ [x]\<rparr>))"

definition accept_result :: "reaper_env \<Rightarrow> capability_request_row \<Rightarrow> string \<Rightarrow> string \<Rightarrow> string \<Rightarrow>
    'z capability_db_scheme \<Rightarrow> py_error + 'z capability_db_scheme" where
  "accept_result env r device_id status result_json db =
    and_then (insert_result \<lparr>cx_request_id = cr_id r, cx_status = status, cx_result_json = result_json,
      cx_created_at = re_now env\<rparr> db) (\<lambda>db1.
    and_then (set_request_status (cr_id r) ''consumed''
      (\<lambda>x. x\<lparr>cr_status := status, cr_completed_at := Some (re_now env)\<rparr>)
      ''capability request changed during result'' db1) (\<lambda>db2.
    capability_enqueue env r ''agent.job.capability.result'' ''capability_result'' (result_payload (cr_id r) status) ''result''
      (snd (capability_audit env ''iphone.capability.result''
        (JObj [(''request_id'', JStr (cr_id r)), (''status'', JStr status), (''result_redacted'', JBool True)])
        ''device'' device_id (cr_task_id r) db2))))"

datatype result_receipt = Result_Accepted | Result_Duplicate

definition submit_result_locked :: "board_env \<Rightarrow> (json \<Rightarrow> string) \<Rightarrow> (string \<Rightarrow> string) \<Rightarrow> py_datetime \<Rightarrow> string \<Rightarrow> string \<Rightarrow>
    string \<Rightarrow> string \<Rightarrow> (string \<times> json) list \<Rightarrow> 'z capability_db_scheme \<Rightarrow>
    py_error + (py_error + result_receipt) \<times> 'z capability_db_scheme" where
  "submit_result_locked benv repr fresh clk request_id device_id grant_id action_digest result db =
    and_then (capability_now clk) (\<lambda>t.
    let now = isoformat t; env = capability_env benv fresh t; result_json = json_dumps (JObj result);
        result_status = dict_text repr ''status'' result
    in case granted_request request_id (grant_hash (env_sha256 benv) grant_id) db of
      None \<Rightarrow> capability_conflict ''capability grant binding is invalid''
    | Some (r, g) \<Rightarrow>
        and_then (grant_binding_matches r g device_id action_digest) (\<lambda>bound.
        if \<not> bound then capability_conflict ''capability grant binding is invalid''
        else if cg_consumed_at g = None then capability_conflict ''capability grant was not consumed''
        else if dict_text repr ''name'' result \<noteq> cr_capability_name r
        then capability_conflict ''capability result name does not match its grant''
        else if result_status \<notin> set [''completed'', ''cancelled'', ''denied'', ''failed'']
        then capability_conflict ''capability result status is invalid''
        else if cr_status r \<in> set terminal_capability_statuses
        then and_then (case stored_result (cr_id r) db of None \<Rightarrow> Inr False
            | Some x \<Rightarrow> compare_digest (cx_result_json x) result_json) (\<lambda>same.
          if \<not> same then capability_conflict ''terminal capability result differs'' else Inr (Inr Result_Duplicate, db))
        else if cr_status r \<noteq> ''consumed'' then capability_conflict ''capability request is not executing''
        else if \<not> request_job_is_active_locked r now db
        then ended_with ''requesting worker lease is no longer active''
          (cancel_request_locked env r ''requesting worker lease is no longer active'' db)
        else if cr_expires_at r \<le> now
        then ended_with ''capability request expired before result delivery'' (expire_request_locked env r db)
        else
          and_then (accept_result env r device_id result_status result_json db) (\<lambda>db1. Inr (Inr Result_Accepted, db1))))"

definition json_or_null :: "string option \<Rightarrow> json" where
  "json_or_null s = (if or_empty s = [] then JNull else JStr (or_empty s))"

definition decode_json :: "string \<Rightarrow> py_error + json" where
  "decode_json s = (case json_loads s of None \<Rightarrow> Inl (OtherException ''JSONDecodeError'') | Some v \<Rightarrow> Inr v)"

text \<open>The read of \<open>poll_for_worker\<close>, whose transaction is rolled back.\<close>

definition poll_locked :: "board_env \<Rightarrow> py_datetime \<Rightarrow> string \<Rightarrow> string \<Rightarrow> string \<Rightarrow> string \<Rightarrow> string \<Rightarrow> int \<Rightarrow>
    'z capability_db_scheme \<Rightarrow> py_error + json" where
  "poll_locked benv clk request_id agent_id job_id claim_token lease_id lease_generation db =
    and_then (capability_now clk) (\<lambda>t.
    and_then (require_active_lease_locked (env_sha256 benv) agent_id job_id claim_token lease_id lease_generation
      (isoformat t) db) (\<lambda>_.
    case fetchone (sql_select (\<lambda>r. cr_id r = request_id \<and> cr_requesting_job_id r = job_id \<and>
        cr_requesting_agent_id r = agent_id \<and> cr_lease_generation r = lease_generation) (capability_requests db)) of
      None \<Rightarrow> capability_conflict ''capability request not found for this lease''
    | Some r \<Rightarrow>
        and_then (case stored_result (cr_id r) db of
            None \<Rightarrow> Inr JNull
          | Some x \<Rightarrow> if cx_result_json x = [] then Inr JNull else decode_json (cx_result_json x)) (\<lambda>result.
        Inr (JObj [(''request_id'', JStr request_id), (''capability_name'', JStr (cr_capability_name r)),
          (''status'', JStr (cr_status r)), (''result'', result), (''created_at'', JStr (cr_created_at r)),
          (''expires_at'', JStr (cr_expires_at r)), (''completed_at'', json_or_null (cr_completed_at r))]))))"

end
