(* ===== verification/IPhone_Service.thy ===== *)
theory IPhone_Service
  imports IPhone_Capability
begin

text \<open>
  The operations of \<open>iphone_capability_service.py\<close> around their transactions: the fenced, batched expiry
  of requests, the drain after a commit, and the projections for the phone, the worker and the list.
\<close>

section \<open>Expiry\<close>

definition expirer_lease_name :: string where
  "expirer_lease_name = ''capability-expirer''"

definition expirer_fence_check :: "lease_service \<Rightarrow> py_datetime \<Rightarrow> string \<Rightarrow> reap_fence \<Rightarrow> 'z lease_db_scheme \<Rightarrow>
    (py_error + unit) \<times> reap_fence" where
  "expirer_fence_check lsvc clk missing fence db =
    (case fence of
       Unfenced \<Rightarrow> (Inr (), Unfenced)
     | Guard_fence g \<Rightarrow> (case guard_require_current_locked lsvc clk g db of (r, g') \<Rightarrow> (r, Guard_fence g'))
     | Lease_fence None generation \<Rightarrow> (Inl (RuntimeError missing), fence)
     | Lease_fence (Some owner) generation \<Rightarrow>
         (lease_require_current_locked lsvc clk expirer_lease_name owner generation db, fence))"

definition choose_expirer_fence :: "capability_service \<Rightarrow> int option \<Rightarrow> lease_guard option \<Rightarrow> py_datetime \<Rightarrow>
    'z lease_db_scheme \<Rightarrow> (py_error + reap_fence option) \<times> 'z lease_db_scheme" where
  "choose_expirer_fence svc maintenance_generation g clk db =
    (case g of
       Some gd \<Rightarrow>
         if maintenance_generation \<noteq> None \<and> maintenance_generation \<noteq> Some (ml_generation (lg_lease gd))
         then (Inl (RuntimeError ''capability expiry received mismatched maintenance fencing''), db)
         else (Inr (Some (Guard_fence gd)), db)
     | None \<Rightarrow>
         (case ic_leases svc of
            None \<Rightarrow> (Inr (Some Unfenced), db)
          | Some lsvc \<Rightarrow>
              (case maintenance_generation of
                 Some generation \<Rightarrow> (Inr (Some (Lease_fence (ic_owner svc) generation)), db)
               | None \<Rightarrow>
                   (case ic_owner svc of
                      None \<Rightarrow> (Inl (RuntimeError ''capability expiry maintenance owner is not configured''), db)
                    | Some owner \<Rightarrow>
                        (case lease_acquire lsvc clk expirer_lease_name owner db of
                           (Inl e, db1) \<Rightarrow> (Inl e, db1)
                         | (Inr None, db1) \<Rightarrow> (Inr None, db1)
                         | (Inr (Some lease), db1) \<Rightarrow>
                             (Inr (Some (Lease_fence (Some owner) (ml_generation lease))), db1))))))"

definition expirer_service :: "capability_service \<Rightarrow> lease_service \<Rightarrow> reap_fence \<Rightarrow> lease_service" where
  "expirer_service svc lsvc fence =
    (case fence of Lease_fence owner generation \<Rightarrow> (case ic_leases svc of None \<Rightarrow> lsvc | Some own \<Rightarrow> own) | _ \<Rightarrow> lsvc)"

definition due_request :: "string \<Rightarrow> capability_request_row \<Rightarrow> capability_grant_row option \<Rightarrow> bool" where
  "due_request now r g \<longleftrightarrow>
    cr_status r = ''waiting_approval'' \<and> cr_expires_at r \<le> now \<or>
    cr_status r = ''approved'' \<and> (case g of None \<Rightarrow> cr_expires_at r | Some x \<Rightarrow> cg_expires_at x) \<le> now \<or>
    cr_status r = ''consumed'' \<and> cr_expires_at r \<le> now"

text \<open>The requests joined with their grants, where they have one.\<close>

definition with_grants :: "'z job_db_scheme \<Rightarrow> (capability_request_row \<times> capability_grant_row option) list" where
  "with_grants db = concat (map (\<lambda>r.
    case sql_select (\<lambda>g. cg_request_id g = cr_id r) (capability_grants db) of
      [] \<Rightarrow> [(r, None)] | gs \<Rightarrow> map (\<lambda>g. (r, Some g)) gs) (capability_requests db))"

definition due_requests :: "string \<Rightarrow> nat \<Rightarrow> 'z job_db_scheme \<Rightarrow> capability_request_row list" where
  "due_requests now batch_limit db = take batch_limit (sort_key (\<lambda>r. (cr_expires_at r, cr_id r))
    (map fst (sql_select (\<lambda>(r, g). due_request now r g) (with_grants db))))"

definition examined_requests :: "nat \<Rightarrow> reap_fence \<Rightarrow> capability_request_row list \<Rightarrow> capability_request_row list" where
  "examined_requests budget fence rows = (case fence of Guard_fence g \<Rightarrow> take (max 1 budget) rows | _ \<Rightarrow> rows)"

text \<open>One transaction; the result is how many rows it expired and whether the loop goes on.\<close>

definition expire_batch :: "board_env \<Rightarrow> lease_service \<Rightarrow> (string \<Rightarrow> string) \<Rightarrow> nat \<Rightarrow> nat \<Rightarrow> 'm moment \<Rightarrow> reap_fence \<Rightarrow>
    'z job_db_scheme \<Rightarrow> (py_error + nat \<times> bool) \<times> reap_fence \<times> 'z job_db_scheme" where
  "expire_batch benv lsvc fresh t batch_limit m fence db =
    (case expirer_fence_check lsvc (mo_fence1 m) ''capability expiry requires a current maintenance lease'' fence db of
       (Inl e, fence1) \<Rightarrow> (Inl e, fence1, db)
     | (Inr _, fence1) \<Rightarrow>
       let rows = due_requests (isoformat t) batch_limit db;
           examined = examined_requests (mo_rows m) fence rows
       in (case for_each (expire_request_locked (capability_env benv fresh t)) examined db of
             Inl e \<Rightarrow> (Inl e, fence1, db)
           | Inr db1 \<Rightarrow>
             (case expirer_fence_check lsvc (mo_fence2 m) ''capability expiry lost its maintenance fencing context'' fence1 db1 of
                (Inl e, fence2) \<Rightarrow> (Inl e, fence2, db)
              | (Inr _, fence2) \<Rightarrow>
                  (Inr (length examined, \<not> (rows = [] \<or> length examined = length rows \<and> length rows < batch_limit)),
                   fence2, db1))))"

definition expiry_batch_size :: nat where
  "expiry_batch_size = 25"

definition max_expirations :: nat where
  "max_expirations = 250"

text \<open>As the loop of the reaper: two moments in each iteration, \<open>None\<close> when the fuel runs out.\<close>

fun expire_loop :: "nat \<Rightarrow> board_env \<Rightarrow> lease_service \<Rightarrow> (string \<Rightarrow> string) \<Rightarrow> (nat \<Rightarrow> 'z job_db_scheme moment) \<Rightarrow> nat \<Rightarrow>
    nat \<Rightarrow> nat \<Rightarrow> reap_fence \<Rightarrow> 'z job_db_scheme \<Rightarrow> ((py_error + nat) \<times> reap_fence \<times> 'z job_db_scheme) option" where
  "expire_loop 0 benv lsvc fresh ms t k expired fence db = None"
| "expire_loop (Suc fuel) benv lsvc fresh ms t k expired fence db =
    (if \<not> expired < max_expirations then Some (Inr expired, fence, db)
     else
       (case renew_fence lsvc (ms k) fence (mo_others (ms k) db) of
          (Inl e, fence1, db1) \<Rightarrow> Some (Inl e, fence1, db1)
        | (Inr _, fence1, db1) \<Rightarrow>
          (case expire_batch benv lsvc fresh t (min expiry_batch_size (max_expirations - expired)) (ms (k + 1)) fence1
              (mo_others (ms (k + 1)) db1) of
             (Inl e, fence2, db2) \<Rightarrow> Some (Inl e, fence2, db2)
           | (Inr (examined, go_on), fence2, db2) \<Rightarrow>
             if go_on then expire_loop fuel benv lsvc fresh ms t (k + 2) (expired + examined) fence2 db2
             else Some (Inr (expired + examined), fence2, db2))))"

text \<open>Phase \<open>p\<close> has the moments of the loop, phase \<open>p + 1\<close> those of the drain.\<close>

definition expire_requests :: "capability_service \<Rightarrow> 'z job_db_scheme capability_world \<Rightarrow> nat \<Rightarrow> int option \<Rightarrow>
    lease_guard option \<Rightarrow> 'z job_db_scheme \<Rightarrow> ((py_error + nat) \<times> 'z job_db_scheme) option" where
  "expire_requests svc w p maintenance_generation g db =
    (let ms = cw_moments w p in
     case choose_expirer_fence svc maintenance_generation g (mo_fence1 (ms 0)) (mo_others (ms 0) db) of
       (Inl e, db0) \<Rightarrow> Some (Inl e, db0)
     | (Inr None, db0) \<Rightarrow> Some (Inr 0, db0)
     | (Inr (Some fence), db0) \<Rightarrow>
       (case capability_now (mo_clock (ms 0)) of
          Inl e \<Rightarrow> Some (Inl e, db0)
        | Inr t \<Rightarrow>
          (case expire_loop (max_expirations + 1) (cw_board w) (expirer_service svc (cw_lsvc w) fence) (cw_fresh w) ms t
              1 0 fence db0 of
             None \<Rightarrow> None
           | Some (Inl e, fence', db1) \<Rightarrow> Some (Inl e, db1)
           | Some (Inr expired, fence', db1) \<Rightarrow>
             if expired = 0 then Some (Inr 0, db1)
             else (case drain (cw_board w) (ic_outbox svc) (cw_lsvc w) (cw_adapter w) 100 (cw_moments w (p + 1))
                 (case fence' of Guard_fence gd \<Rightarrow> Some gd | _ \<Rightarrow> None) db1 of
               (Inl e, g', db2) \<Rightarrow> Some (Inl e, db2)
             | (Inr report, g', db2) \<Rightarrow> Some (Inr expired, db2)))))"

text \<open>The read after an expiry of phases \<open>p\<close> and \<open>p + 1\<close>, at phase \<open>p + 2\<close>.\<close>

definition after_expiry :: "capability_service \<Rightarrow> 'z job_db_scheme capability_world \<Rightarrow> nat \<Rightarrow>
    ('z job_db_scheme \<Rightarrow> py_error + 'a) \<Rightarrow> 'z job_db_scheme \<Rightarrow> ((py_error + 'a) \<times> 'z job_db_scheme) option" where
  "after_expiry svc w p read db =
    (case expire_requests svc w p None None db of
       None \<Rightarrow> None
     | Some (Inl e, db1) \<Rightarrow> Some (Inl e, db1)
     | Some (Inr n, db1) \<Rightarrow> let db2 = mo_others (cw_moments w (p + 2) 0) db1 in Some (read db2, db2))"

section \<open>Projections\<close>

definition public_fields :: "capability_request_row \<Rightarrow> (string \<times> json) list" where
  "public_fields r = [(''schema_version'', JStr ''0.9''), (''request_id'', JStr (cr_id r)), (''task_id'', JStr (cr_task_id r)),
    (''agent_id'', JStr (cr_requesting_agent_id r)), (''target_device_id'', JStr (cr_device_id r)),
    (''capability'', JStr (cr_capability_name r)), (''status'', JStr (cr_status r)),
    (''created_at'', JStr (cr_created_at r)), (''expires_at'', JStr (cr_expires_at r))]"

definition public_request :: "capability_request_row \<Rightarrow> json" where
  "public_request r = JObj (public_fields r)"

definition device_request :: "capability_request_row \<Rightarrow> json \<Rightarrow> py_error + json" where
  "device_request r grant = and_then (decode_json (cr_arguments_json r)) (\<lambda>arguments.
    Inr (JObj (public_fields r @ [(''arguments'', arguments), (''action_digest'', JStr (cr_action_digest r)), (''grant'', grant)])))"

definition get_request_for_device :: "capability_service \<Rightarrow> 'z job_db_scheme capability_world \<Rightarrow> nat \<Rightarrow> string \<Rightarrow> string \<Rightarrow>
    bool \<Rightarrow> 'z job_db_scheme \<Rightarrow> ((py_error + json option) \<times> 'z job_db_scheme) option" where
  "get_request_for_device svc w p request_id device_id include_arguments =
    after_expiry svc w p (\<lambda>db.
      case fetchone (sql_select (\<lambda>r. cr_id r = request_id \<and> cr_device_id r = device_id) (capability_requests db)) of
        None \<Rightarrow> Inr None
      | Some r \<Rightarrow> and_then (if include_arguments then device_request r JNull else Inr (public_request r)) (\<lambda>v. Inr (Some v)))"

definition list_for_device :: "capability_service \<Rightarrow> 'z job_db_scheme capability_world \<Rightarrow> nat \<Rightarrow> string \<Rightarrow> int \<Rightarrow>
    'z job_db_scheme \<Rightarrow> ((py_error + json list) \<times> 'z job_db_scheme) option" where
  "list_for_device svc w p device_id limit = after_expiry svc w p (\<lambda>db.
    Inr (map public_request (take (bounded_limit 200 limit) (rev (sort_key cr_created_at
      (sql_select (\<lambda>r. cr_device_id r = device_id) (capability_requests db)))))))"

definition pending_delivery_previews :: "py_datetime \<Rightarrow> string \<Rightarrow> int \<Rightarrow> 'z job_db_scheme \<Rightarrow> py_error + json list" where
  "pending_delivery_previews clk device_id limit db = and_then (capability_now clk) (\<lambda>t.
    Inr (map (\<lambda>r. JObj [(''request_id'', JStr (cr_id r)), (''capability_name'', JStr (cr_capability_name r)),
        (''expires_at'', JStr (cr_expires_at r)), (''preview'', JObj [(''arguments_redacted'', JBool True)])])
      (take (bounded_limit 200 limit) (sort_key (\<lambda>r. (cr_created_at r, cr_id r))
        (sql_select (\<lambda>r. cr_device_id r = device_id \<and> cr_status r \<in> set [''waiting_approval'', ''approved''] \<and>
          isoformat t < cr_expires_at r) (capability_requests db))))))"

definition device_for_request :: "string \<Rightarrow> 'z job_db_scheme \<Rightarrow> string option" where
  "device_for_request request_id db = map_option cr_device_id (row_by cr_id request_id (capability_requests db))"

definition job_for_request :: "string \<Rightarrow> 'z job_db_scheme \<Rightarrow> string option" where
  "job_for_request request_id db = map_option cr_requesting_job_id (row_by cr_id request_id (capability_requests db))"

definition pending_capabilities :: "'z job_db_scheme \<Rightarrow> nat" where
  "pending_capabilities db = sql_rowcount (\<lambda>r. cr_status r \<in> set [''waiting_approval'', ''approved'', ''consumed''])
    (capability_requests db)"

section \<open>The operations\<close>

text \<open>Phase 0 is the transaction, 1 the drain, and from 2 on the read of the result.\<close>

definition at_phase :: "'db capability_world \<Rightarrow> nat \<Rightarrow> 'db \<Rightarrow> 'db" where
  "at_phase w p = mo_others (cw_moments w p 0)"

definition clock_at :: "'db capability_world \<Rightarrow> nat \<Rightarrow> py_datetime" where
  "clock_at w p = mo_clock (cw_moments w p 0)"

definition create_request :: "capability_service \<Rightarrow> 'z auth_db_scheme capability_world \<Rightarrow> permission_policy \<Rightarrow> string \<Rightarrow>
    string \<Rightarrow> string \<Rightarrow> string \<Rightarrow> int \<Rightarrow> string \<Rightarrow> (string \<times> json) list \<Rightarrow> string \<Rightarrow> string \<Rightarrow> 'z auth_db_scheme \<Rightarrow>
    ((py_error + json) \<times> 'z auth_db_scheme) option" where
  "create_request svc w policy agent_id job_id claim_token lease_id lease_generation capability_name arguments
      request_hex approval_hex db =
    (case draft_request svc (env_sha256 (cw_board w)) policy job_id lease_generation capability_name arguments
        request_hex approval_hex of
       Inl e \<Rightarrow> Some (Inl e, db)
     | Inr d \<Rightarrow>
       (case transaction (create_request_locked (cw_board w) (cw_fresh w) (clock_at w 0) d agent_id job_id claim_token
           lease_id lease_generation capability_name) (at_phase w 0 db) of
          (Inl e, db1) \<Rightarrow> Some (Inl e, db1)
        | (Inr (Existing_Request r), db1) \<Rightarrow> Some (Inr (public_request r), db1)
        | (Inr (New_Request device_id), db1) \<Rightarrow>
          (case capability_drain svc w 1 db1 of
             (Inl e, db2) \<Rightarrow> Some (Inl e, db2)
           | (Inr _, db2) \<Rightarrow>
             (case get_request_for_device svc w 2 (cd_request_id d) device_id False db2 of
                None \<Rightarrow> None
              | Some (Inl e, db3) \<Rightarrow> Some (Inl e, db3)
              | Some (Inr None, db3) \<Rightarrow> Some (Inl (RuntimeError ''capability request disappeared''), db3)
              | Some (Inr (Some v), db3) \<Rightarrow> Some (Inr v, db3)))))"

definition grant_json :: "capability_request_row \<Rightarrow> string \<Rightarrow> string \<Rightarrow> string \<Rightarrow> string \<Rightarrow> json" where
  "grant_json r device_id raw_grant issued_at expires_at = JObj
    [(''schema_version'', JStr ''0.9''), (''grant_id'', JStr raw_grant), (''request_id'', JStr (cr_id r)),
     (''task_id'', JStr (cr_task_id r)), (''agent_id'', JStr (cr_requesting_agent_id r)), (''target_device_id'', JStr device_id),
     (''approval_id'', JStr (cr_approval_id r)), (''audit_id'', JInt (cr_request_audit_id r)),
     (''capability'', JStr (cr_capability_name r)), (''action_digest'', JStr (cr_action_digest r)),
     (''issued_at'', JStr issued_at), (''expires_at'', JStr expires_at), (''use'', JStr ''once'')]"

text \<open>After the commit the outbox is drained; an exception of the transaction comes first.\<close>

definition drained :: "capability_service \<Rightarrow> 'z job_db_scheme capability_world \<Rightarrow> ('a \<Rightarrow> py_error + 'b) \<Rightarrow>
    (py_error + 'a) \<times> 'z job_db_scheme \<Rightarrow> (py_error + 'b) \<times> 'z job_db_scheme" where
  "drained svc w f run = (case run of
      (Inl e, db1) \<Rightarrow> (Inl e, db1)
    | (Inr a, db1) \<Rightarrow> (case capability_drain svc w 1 db1 of (Inl e, db2) \<Rightarrow> (Inl e, db2) | (Inr _, db2) \<Rightarrow> (f a, db2)))"

definition authorize_request :: "capability_service \<Rightarrow> 'z job_db_scheme capability_world \<Rightarrow> string \<Rightarrow> string \<Rightarrow> string \<Rightarrow>
    string \<Rightarrow> string \<Rightarrow> string \<Rightarrow> string option \<Rightarrow> 'z job_db_scheme \<Rightarrow> (py_error + json) \<times> 'z job_db_scheme" where
  "authorize_request svc w secret grant_hex rotation_hex request_id device_id decision user_note db =
    (if decision \<noteq> ''approve'' \<and> decision \<noteq> ''deny'' then (capability_conflict ''invalid capability decision'', db)
     else drained svc w (\<lambda>(r, issue). device_request r (case issue of None \<Rightarrow> JNull
         | Some (issued_at, expires_at) \<Rightarrow> grant_json r device_id (''grt_'' @ secret) issued_at expires_at))
       (committed (authorize_locked (cw_board w) (cw_fromisoformat w) (cw_fresh w) svc (clock_at w 0) secret grant_hex
         rotation_hex request_id device_id decision user_note) (at_phase w 0 db)))"

definition consume_grant :: "capability_service \<Rightarrow> 'z job_db_scheme capability_world \<Rightarrow> string \<Rightarrow> string \<Rightarrow> string \<Rightarrow>
    string \<Rightarrow> 'z job_db_scheme \<Rightarrow> (py_error + json) \<times> 'z job_db_scheme" where
  "consume_grant svc w request_id device_id grant_id action_digest db =
    drained svc w (\<lambda>now. Inr (JObj [(''status'', JStr ''consumed''), (''request_id'', JStr request_id),
        (''grant_id'', JStr grant_id), (''action_digest'', JStr action_digest), (''consumed_at'', JStr now)]))
      (committed (consume_locked (cw_board w) (cw_fresh w) (clock_at w 0) request_id device_id grant_id action_digest)
        (at_phase w 0 db))"

text \<open>A duplicate is answered before the drain.\<close>

definition submit_capability_result :: "capability_service \<Rightarrow> 'z capability_db_scheme capability_world \<Rightarrow> string \<Rightarrow> string \<Rightarrow>
    string \<Rightarrow> string \<Rightarrow> (string \<times> json) list \<Rightarrow> 'z capability_db_scheme \<Rightarrow> (py_error + json) \<times> 'z capability_db_scheme" where
  "submit_capability_result svc w request_id device_id grant_id action_digest result db =
    (if 1000000 < length (json_dumps (JObj result)) then (capability_conflict ''capability result is too large'', db)
     else
       let receipt = (\<lambda>status. JObj [(''status'', JStr status), (''request_id'', JStr request_id), (''grant_id'', JStr grant_id)]);
           run = committed (submit_result_locked (cw_board w) (cw_repr w) (cw_fresh w) (clock_at w 0) request_id device_id
             grant_id action_digest result) (at_phase w 0 db)
       in (case run of
             (Inr Result_Duplicate, db1) \<Rightarrow> (Inr (receipt ''duplicate''), db1)
           | _ \<Rightarrow> drained svc w (\<lambda>_. Inr (receipt ''accepted'')) run))"

definition poll_for_worker :: "capability_service \<Rightarrow> 'z capability_db_scheme capability_world \<Rightarrow> string \<Rightarrow> string \<Rightarrow>
    string \<Rightarrow> string \<Rightarrow> string \<Rightarrow> int \<Rightarrow> 'z capability_db_scheme \<Rightarrow> ((py_error + json) \<times> 'z capability_db_scheme) option" where
  "poll_for_worker svc w request_id agent_id job_id claim_token lease_id lease_generation =
    after_expiry svc w 0 (poll_locked (cw_board w) (clock_at w 2) request_id agent_id job_id claim_token lease_id lease_generation)"

end
