(* ===== verification/Reaper_Refinement.thy ===== *)
theory Reaper_Refinement
  imports Lease_Reaper "HOL-Library.Multiset"
begin

text \<open>
  What a batch of the lease reaper does, as an abstract step: a leased job either waits again under the
  same generation or is closed under the next one, and its task is requeued or fails with it. The
  concrete transaction, with its guarded updates, its audit and outbox rows and its counters, refines
  the fold of these steps over the expired leases.
\<close>

section \<open>What leaves jobs and tasks alone\<close>

definition request_keys :: "'z job_db_scheme \<Rightarrow> (string \<times> int) set" where
  "request_keys db = (\<lambda>r. (cr_requesting_job_id r, cr_lease_generation r)) ` set (capability_requests db)"

definition job_frame :: "'z job_db_scheme \<Rightarrow> 'z job_db_scheme \<Rightarrow> bool" where
  "job_frame db db' \<longleftrightarrow> agent_jobs db' = agent_jobs db \<and> tasks db' = tasks db \<and> request_keys db' = request_keys db"

lemma job_frame_refl [simp]: "job_frame db db"
  by (simp add: job_frame_def)

lemma job_frame_trans [trans]: "job_frame a b \<Longrightarrow> job_frame b c \<Longrightarrow> job_frame a c"
  by (simp add: job_frame_def)

lemma reaper_audit_frame [simp]: "job_frame db (reaper_audit env ty payload task db)"
  by (simp add: job_frame_def reaper_audit_def append_audit_event_def Let_def request_keys_def)

lemma enqueue_shape:
  assumes "enqueue_locked env clk fresh q db = Inr (i, db')"
  obtains t where "db' = db\<lparr>outbox_events := t\<rparr>"
proof -
  have same: "db = db\<lparr>outbox_events := outbox_events db\<rparr>" by simp
  obtain e where e: "(case row_by ob_dedupe_key (oq_dedupe_key q) (outbox_events db) of
      None \<Rightarrow> (case row_by ob_event_id (de_event_id e) (outbox_events db) of
          Some row \<Rightarrow> Inl (IntegrityError ''UNIQUE constraint failed: outbox_events.event_id'')
        | None \<Rightarrow> Inr (next_rowid ob_id (outbox_events db), db\<lparr>outbox_events := outbox_events db @
            [new_outbox_row (next_rowid ob_id (outbox_events db)) e (json_dumps (de_payload e))
              (py_or (oq_message_id q) (oq_aggregate_id q))]\<rparr>))
    | Some row \<Rightarrow> (case json_loads (ob_payload_json row) of
          None \<Rightarrow> Inl (ValueError ''stored outbox dedupe binding is invalid'')
        | Some (JObj stored_payload) \<Rightarrow>
            and_then (new_durable_event env (outbox_event row (JObj stored_payload))) (\<lambda>stored_event.
            and_then (domain_event_binding_digest env stored_event) (\<lambda>stored_digest.
            and_then (domain_event_binding_digest env e) (\<lambda>digest.
              if stored_digest \<noteq> digest
              then Inl (ValueError ''outbox dedupe key is bound to a different event'')
              else Inr (ob_id row, db))))
        | Some _ \<Rightarrow> Inl (TypeError ''stored outbox dedupe binding is invalid''))) = Inr (i, db')"
    using assms unfolding enqueue_locked_def Let_def
    by - (elim and_then_InrE, rule that, simp only: if_False split: if_split_asm, simp)
  show ?thesis
  proof (cases "row_by ob_dedupe_key (oq_dedupe_key q) (outbox_events db)")
    case None
    then show ?thesis using e that by (cases "row_by ob_event_id (de_event_id e) (outbox_events db)") auto
  next
    case (Some row)
    obtain v where v: "json_loads (ob_payload_json row) = Some v"
      using e Some by (cases "json_loads (ob_payload_json row)") auto
    have "db' = db" using e unfolding Some option.case v
      by (cases v) (auto simp: and_then_Inr_iff split: if_split_asm)
    then show ?thesis by (intro that) (rule trans [OF _ same])
  qed
qed

lemma reaper_enqueue_frame: "reaper_enqueue env at ai to' ty payload task agent key db = Inr db' \<Longrightarrow> job_frame db db'"
  unfolding reaper_enqueue_def
  by (auto simp: and_then_Inr_iff job_frame_def request_keys_def elim!: enqueue_shape)

lemma increment_frame: "increment_operational_metrics now a b c db = Inr db' \<Longrightarrow> job_frame db db'"
  by (auto simp: increment_operational_metrics_def job_frame_def request_keys_def split: option.split_asm)

lemma cancel_capability_frame:
  assumes "cancel_capability env task agent r db = Inr db'"
  shows "job_frame db db'"
proof -
  define db1 where "db1 = db\<lparr>capability_requests := sql_update (\<lambda>x. cr_id x = cr_id r \<and> cr_status x \<notin> set final_capability)
      (\<lambda>x. x\<lparr>cr_status := ''cancelled'', cr_completed_at := Some (re_now env)\<rparr>) (capability_requests db),
    capability_grants := sql_update (\<lambda>g. cg_request_id g = cr_id r) (\<lambda>g. g\<lparr>cg_expires_at := re_now env\<rparr>)
      (capability_grants db)\<rparr>"
  have "request_keys db1 = request_keys db"
    unfolding request_keys_def db1_def set_map [symmetric] by (simp add: map_sql_update del: set_map)
  then have "job_frame db db1" by (simp add: job_frame_def db1_def)
  also have "job_frame db1 db'"
    using assms job_frame_trans [OF reaper_audit_frame reaper_enqueue_frame]
    unfolding cancel_capability_def Let_def db1_def [symmetric] by blast
  finally show ?thesis .
qed

lemma cancel_capabilities_frame: "cancel_capabilities env j g task agent db = Inr db' \<Longrightarrow> job_frame db db'"
  unfolding cancel_capabilities_def
  by (erule for_each_invariant [where P = "job_frame db"])
    (auto intro: job_frame_trans cancel_capability_frame)

lemma record_expiry_frame: "record_expiry env row db = Inr db' \<Longrightarrow> job_frame db db'"
  unfolding record_expiry_def Let_def
  by (auto dest!: reaper_enqueue_frame increment_frame cancel_capabilities_frame
    intro: job_frame_trans job_frame_trans [OF reaper_audit_frame])

lemma record_outcome_frame: "record_outcome env row o' why db = Inr db' \<Longrightarrow> job_frame db db'"
  unfolding record_outcome_def Let_def
  by (auto dest!: reaper_enqueue_frame increment_frame intro: job_frame_trans job_frame_trans [OF reaper_audit_frame])

section \<open>The decision\<close>

definition has_history :: "'z job_db_scheme \<Rightarrow> job_row \<Rightarrow> bool" where
  "has_history db job \<longleftrightarrow> (aj_id job, aj_lease_generation job) \<in> request_keys db"

definition reap_decision :: "bool \<Rightarrow> policy_snapshot option \<Rightarrow> reaped_row \<Rightarrow> reap_outcome" where
  "reap_decision history snapshot row =
    (let job = rp_job row; skill = aj_required_skill job in
     if task_terminal (rp_task_status row) then Reap_Cancelled
     else if \<not> history \<and> can_redistribute skill snapshot \<and> aj_attempt_count job < aj_max_attempts job \<and>
       rp_task_status row = Task_Running then Reap_Requeued
     else if \<not> history \<and> \<not> skill_is_allowed skill snapshot then Reap_Quarantined
     else Reap_Dead_Lettered)"

definition outcome_target :: "reap_outcome \<Rightarrow> job_status" where
  "outcome_target o' = (case o' of Reap_Requeued \<Rightarrow> Job_Queued | Reap_Dead_Lettered \<Rightarrow> Job_Failed
    | Reap_Cancelled \<Rightarrow> Job_Cancelled | Reap_Quarantined \<Rightarrow> Job_Quarantined)"

definition outcome_task :: "reap_outcome \<Rightarrow> task_status \<Rightarrow> task_status option" where
  "outcome_task o' s = (case o' of
      Reap_Requeued \<Rightarrow> Some Task_Queued
    | Reap_Cancelled \<Rightarrow> None
    | _ \<Rightarrow> if s = Task_Queued \<or> s = Task_Running then Some Task_Failed else None)"

lemma has_history_select:
  "has_history db job \<longleftrightarrow> sql_select (\<lambda>r. cr_requesting_job_id r = aj_id job \<and>
    cr_lease_generation r = aj_lease_generation job) (capability_requests db) \<noteq> []"
  by (force simp: has_history_def request_keys_def sql_select_def filter_empty_conv image_iff)

lemma or_runtime_error_Inr: "or_runtime_error m r = Inr a \<longleftrightarrow> r = Inr a"
  by (auto simp: or_runtime_error_def split: sum.splits py_error.splits)

lemma reap_transition_Inr:
  "reap_transition row target now why err db = Inr db' \<longleftrightarrow>
    transition_job (aj_id (rp_job row)) (aj_status (rp_job row)) target now (reap_updates (rp_job row) target now why err)
      (\<lambda>r. aj_lease_generation r = aj_lease_generation (rp_job row) \<and> aj_lease_expires_at (rp_job row) \<noteq> None \<and>
        aj_lease_expires_at r = aj_lease_expires_at (rp_job row)) db = Inr db'"
  by (simp add: reap_transition_def Let_def or_runtime_error_Inr)

text \<open>The writes to jobs and tasks of a committed row: one job transition, then at most one task transition.\<close>

definition reaped :: "reaped_row \<Rightarrow> reap_outcome \<Rightarrow> string \<Rightarrow> 'z job_db_scheme \<Rightarrow> 'z job_db_scheme \<Rightarrow> bool" where
  "reaped row o' now db db' \<longleftrightarrow> (\<exists>db1 db2 db3 why err.
     job_frame db db1 \<and> reap_transition row (outcome_target o') now why err db1 = Inr db2 \<and>
     (case outcome_task o' (rp_task_status row) of
        None \<Rightarrow> db3 = db2
      | Some target \<Rightarrow> \<exists>error. transition_task (aj_task_id (rp_job row)) (rp_task_status row) target now error db2 = Inr db3) \<and>
     job_frame db3 db')"

lemma reapedI:
  "job_frame db db1 \<Longrightarrow> reap_transition row (outcome_target o') now why err db1 = Inr db2 \<Longrightarrow>
    (case outcome_task o' (rp_task_status row) of
       None \<Rightarrow> db3 = db2
     | Some target \<Rightarrow> \<exists>error. transition_task (aj_task_id (rp_job row)) (rp_task_status row) target now error db2 = Inr db3) \<Longrightarrow>
    job_frame db3 db' \<Longrightarrow> reaped row o' now db db'"
  unfolding reaped_def by blast

lemma fail_task_Inr:
  "fail_task_of row now err m db = Inr db' \<Longrightarrow> outcome_target o' = Job_Failed \<or> outcome_target o' = Job_Quarantined \<Longrightarrow>
    (case outcome_task o' (rp_task_status row) of
       None \<Rightarrow> db' = db
     | Some target \<Rightarrow> \<exists>error. transition_task (aj_task_id (rp_job row)) (rp_task_status row) target now error db = Inr db')"
  by (cases o') (auto simp: fail_task_of_def outcome_task_def outcome_target_def or_runtime_error_Inr split: if_split_asm)

lemma reap_row_reaped:
  assumes "reap_row_locked env snapshot row db = Inr (o', db')"
  shows "o' = reap_decision (has_history db (rp_job row)) snapshot row \<and> reaped row o' (re_now env) db db'"
proof -
  obtain db1 where db1: "record_expiry env row db = Inr db1"
    using assms unfolding reap_row_locked_def Let_def by (auto simp: and_then_Inr_iff)
  note frame1 = record_expiry_frame [OF db1]
  let ?now = "re_now env" and ?h = "has_history db (rp_job row)" and ?job = "rp_job row"
  let ?retry = "\<not> ?h \<and> can_redistribute (aj_required_skill ?job) snapshot \<and> aj_attempt_count ?job < aj_max_attempts ?job \<and>
    rp_task_status row = Task_Running"
  note run = assms [unfolded reap_row_locked_def Let_def db1 and_then.simps has_history_select [symmetric]]
  consider (terminal) "task_terminal (rp_task_status row)"
    | (requeue) "\<not> task_terminal (rp_task_status row)" ?retry
    | (quarantine) "\<not> task_terminal (rp_task_status row)" "\<not> ?retry" "\<not> ?h" "\<not> skill_is_allowed (aj_required_skill ?job) snapshot"
    | (dead) "\<not> task_terminal (rp_task_status row)" "\<not> ?retry" "\<not> (\<not> ?h \<and> \<not> skill_is_allowed (aj_required_skill ?job) snapshot)"
    by blast
  then show ?thesis
  proof cases
    case terminal
    then obtain db2 why why' err where "reap_transition row Job_Cancelled ?now why err db1 = Inr db2"
      "record_outcome env row Reap_Cancelled why' db2 = Inr db'" "o' = Reap_Cancelled"
      using run by (auto simp: and_then_Inr_iff)
    note t = this
    have "reaped row Reap_Cancelled ?now db db'"
      by (rule reapedI [OF frame1 _ _ record_outcome_frame [OF t(2)]])
        (use t(1) in \<open>simp_all add: outcome_target_def outcome_task_def\<close>)
    then show ?thesis using terminal t(3) by (simp add: reap_decision_def Let_def)
  next
    case requeue
    then obtain db2 db3 why why' err where t: "reap_transition row Job_Queued ?now why err db1 = Inr db2"
      "transition_task (aj_task_id ?job) Task_Running Task_Queued ?now None db2 = Inr db3"
      "record_outcome env row Reap_Requeued why' db3 = Inr db'" "o' = Reap_Requeued"
      using run by (auto simp: and_then_Inr_iff or_runtime_error_Inr)
    have "reaped row Reap_Requeued ?now db db'"
      by (rule reapedI [OF frame1 _ _ record_outcome_frame [OF t(3)]])
        (use t(1,2) requeue in \<open>auto simp: outcome_target_def outcome_task_def\<close>)
    then show ?thesis using requeue t(4) by (simp add: reap_decision_def Let_def)
  next
    case quarantine
    then obtain db2 db3 ty pl tk why why' err err' m where t: "reap_transition row Job_Quarantined ?now why err db1 = Inr db2"
      "fail_task_of row ?now err' m db2 = Inr db3"
      "record_outcome env row Reap_Quarantined why' (reaper_audit env ty pl tk db3) = Inr db'" "o' = Reap_Quarantined"
      using run by (auto simp: and_then_Inr_iff)
    have "reaped row Reap_Quarantined ?now db db'"
      by (rule reapedI [OF frame1 _ fail_task_Inr [OF t(2)] job_frame_trans [OF reaper_audit_frame record_outcome_frame [OF t(3)]]])
        (use t(1) in \<open>simp_all add: outcome_target_def\<close>)
    then show ?thesis using quarantine t(4) by (simp add: reap_decision_def Let_def)
  next
    case dead
    then obtain db2 db3 why why' err err' m where t: "reap_transition row Job_Failed ?now why err db1 = Inr db2"
      "fail_task_of row ?now err' m db2 = Inr db3"
      "record_outcome env row Reap_Dead_Lettered why' db3 = Inr db'" "o' = Reap_Dead_Lettered"
      using run by (auto simp: and_then_Inr_iff)
    have "reaped row Reap_Dead_Lettered ?now db db'"
      by (rule reapedI [OF frame1 _ fail_task_Inr [OF t(2)] record_outcome_frame [OF t(3)]])
        (use t(1) in \<open>simp_all add: outcome_target_def\<close>)
    then show ?thesis using dead t(4) by (auto simp: reap_decision_def Let_def)
  qed
qed

section \<open>The abstract machine\<close>

datatype abstract_job = Waiting int | Leased int | Closed job_status int

record abstract_state =
  as_jobs :: "string \<Rightarrow> abstract_job option"
  as_tasks :: "string \<Rightarrow> task_status option"

definition abs_job :: "job_row \<Rightarrow> abstract_job" where
  "abs_job r = (if job_leased (aj_status r) then Leased (aj_lease_generation r)
    else if aj_status r = Job_Queued then Waiting (aj_lease_generation r)
    else Closed (aj_status r) (aj_lease_generation r))"

definition abs_state :: "'z job_db_scheme \<Rightarrow> abstract_state" where
  "abs_state db = \<lparr>as_jobs = (\<lambda>i. map_option abs_job (row_by aj_id i (agent_jobs db))),
    as_tasks = (\<lambda>i. map_option tk_status (row_by tk_id i (tasks db)))\<rparr>"

text \<open>An expired lease of generation \<open>g\<close> is given back under \<open>g\<close> or closed under \<open>g + 1\<close>.\<close>

definition released_job :: "reap_outcome \<Rightarrow> int \<Rightarrow> abstract_job" where
  "released_job o' g = (if o' = Reap_Requeued then Waiting g else Closed (outcome_target o') (g + 1))"

definition abstract_reap :: "reap_outcome \<Rightarrow> reaped_row \<Rightarrow> abstract_state \<Rightarrow> abstract_state" where
  "abstract_reap o' row st =
    (let job = rp_job row in
     st\<lparr>as_jobs := (as_jobs st)(aj_id job \<mapsto> released_job o' (aj_lease_generation job)),
       as_tasks := (case outcome_task o' (rp_task_status row) of None \<Rightarrow> as_tasks st
         | Some s \<Rightarrow> (as_tasks st)(aj_task_id job \<mapsto> s))\<rparr>)"

text \<open>What a row becomes.\<close>

definition released_row :: "reaped_row \<Rightarrow> reap_outcome \<Rightarrow> string \<Rightarrow> string \<Rightarrow> string option \<Rightarrow> job_row \<Rightarrow> job_row" where
  "released_row row o' now why err = moved_job (outcome_target o') now (reap_updates (rp_job row) (outcome_target o') now why err)"

lemma released_row_fields:
  "aj_status (released_row row o' now why err r) = outcome_target o'"
  "aj_lease_generation (released_row row o' now why err r) =
    aj_lease_generation (rp_job row) + (if o' = Reap_Requeued then 0 else 1)"
  "aj_claimed_by (released_row row o' now why err r) = None"
  "aj_lease_id (released_row row o' now why err r) = None"
  "aj_lease_token_hash (released_row row o' now why err r) = None"
  "aj_lease_expires_at (released_row row o' now why err r) = None"
  "aj_completed_at (released_row row o' now why err r) = (if o' = Reap_Requeued then None else Some now)"
  "aj_attempt_count (released_row row o' now why err r) = aj_attempt_count r"
  "aj_max_attempts (released_row row o' now why err r) = aj_max_attempts r"
  by (cases o'; simp add: released_row_def moved_job_def reap_updates_def outcome_target_def)+

lemma abs_released_row: "abs_job (released_row row o' now why err r) = released_job o' (aj_lease_generation (rp_job row))"
  by (cases o') (simp_all add: abs_job_def released_row_fields released_job_def outcome_target_def job_leased_def)

definition keyed :: "'z job_db_scheme \<Rightarrow> bool" where
  "keyed db \<longleftrightarrow> distinct (map aj_id (agent_jobs db)) \<and> distinct (map tk_id (tasks db))"

text \<open>The job of a row is still as the batch read it.\<close>

definition unmoved :: "reaped_row \<Rightarrow> 'z job_db_scheme \<Rightarrow> bool" where
  "unmoved row db \<longleftrightarrow> row_by aj_id (aj_id (rp_job row)) (agent_jobs db) = Some (rp_job row)"

lemma reaped_effect:
  assumes r: "reaped row o' now db db'" and k: "keyed db" and u: "unmoved row db"
  obtains why err where
    "\<forall>i. row_by aj_id i (agent_jobs db') =
      (if i = aj_id (rp_job row) then Some (released_row row o' now why err (rp_job row)) else row_by aj_id i (agent_jobs db))"
    "keyed db'" "abs_state db' = abstract_reap o' row (abs_state db)" "request_keys db' = request_keys db"
proof -
  obtain db1 db2 db3 why err where s: "job_frame db db1"
    "reap_transition row (outcome_target o') now why err db1 = Inr db2"
    "case outcome_task o' (rp_task_status row) of None \<Rightarrow> db3 = db2
      | Some target \<Rightarrow> \<exists>error. transition_task (aj_task_id (rp_job row)) (rp_task_status row) target now error db2 = Inr db3"
    "job_frame db3 db'"
    using r by (auto simp: reaped_def)
  have k1: "distinct (map aj_id (agent_jobs db1))" "distinct (map tk_id (tasks db1))"
    using k s(1) by (simp_all add: keyed_def job_frame_def)
  obtain r0 where r0: "row_by aj_id (aj_id (rp_job row)) (agent_jobs db1) = Some r0"
    "\<forall>i. row_by aj_id i (agent_jobs db2) = (if i = aj_id (rp_job row)
      then Some (moved_job (outcome_target o') now (reap_updates (rp_job row) (outcome_target o') now why err) r0)
      else row_by aj_id i (agent_jobs db1))" "map aj_id (agent_jobs db2) = map aj_id (agent_jobs db1)"
    by (rule transition_job_lookup [OF s(2) [unfolded reap_transition_Inr] k1(1)]) blast
  have job: "r0 = rp_job row" using r0(1) u s(1) by (simp add: unmoved_def job_frame_def)
  have db2: "tasks db2 = tasks db1" "request_keys db2 = request_keys db1"
    using transition_job_Inr(1) [OF s(2) [unfolded reap_transition_Inr]] by (simp_all add: request_keys_def)
  have tasks3: "agent_jobs db3 = agent_jobs db2 \<and> request_keys db3 = request_keys db2 \<and> map tk_id (tasks db3) = map tk_id (tasks db2) \<and>
    (\<forall>i. map_option tk_status (row_by tk_id i (tasks db3)) =
      (case outcome_task o' (rp_task_status row) of None \<Rightarrow> map_option tk_status (row_by tk_id i (tasks db2))
       | Some t \<Rightarrow> if i = aj_task_id (rp_job row) then Some t else map_option tk_status (row_by tk_id i (tasks db2))))"
  proof (cases "outcome_task o' (rp_task_status row)")
    case None
    then show ?thesis using s(3) by simp
  next
    case (Some target)
    then obtain error where t: "transition_task (aj_task_id (rp_job row)) (rp_task_status row) target now error db2 = Inr db3"
      using s(3) by auto
    have "distinct (map tk_id (tasks db2))" using k1(2) db2(1) by simp
    then obtain t0 where "\<forall>k. row_by tk_id k (tasks db3) = (if k = aj_task_id (rp_job row)
        then Some (moved_task target now error t0) else row_by tk_id k (tasks db2))" "map tk_id (tasks db3) = map tk_id (tasks db2)"
      by (rule transition_task_lookup [OF t]) blast
    then show ?thesis using transition_task_Inr(1) [OF t] Some by (simp add: request_keys_def)
  qed
  show ?thesis
  proof
    show rows: "\<forall>i. row_by aj_id i (agent_jobs db') =
      (if i = aj_id (rp_job row) then Some (released_row row o' now why err (rp_job row)) else row_by aj_id i (agent_jobs db))"
      using r0(2) tasks3 s(1,4) by (simp add: job_frame_def job released_row_def)
    show "keyed db'" using k s(1,4) tasks3 r0(3) db2(1) by (simp add: keyed_def job_frame_def)
    show "request_keys db' = request_keys db" using s(1,4) tasks3 db2(2) by (simp add: job_frame_def)
    have "as_jobs (abs_state db') = (as_jobs (abs_state db))(aj_id (rp_job row) \<mapsto> released_job o' (aj_lease_generation (rp_job row)))"
      using rows by (auto simp: abs_state_def fun_eq_iff abs_released_row)
    moreover have "as_tasks (abs_state db') = (case outcome_task o' (rp_task_status row) of None \<Rightarrow> as_tasks (abs_state db)
         | Some s \<Rightarrow> (as_tasks (abs_state db))(aj_task_id (rp_job row) \<mapsto> s))"
      using tasks3 s(1,4) db2(1) by (auto simp: abs_state_def fun_eq_iff job_frame_def split: option.split)
    ultimately show "abs_state db' = abstract_reap o' row (abs_state db)"
      by (simp add: abstract_reap_def Let_def)
  qed
qed

section \<open>Batches\<close>

abbreviation row_id :: "reaped_row \<Rightarrow> string" where
  "row_id row \<equiv> aj_id (rp_job row)"

definition decide :: "(string \<times> int) set \<Rightarrow> policy_snapshot option \<Rightarrow> reaped_row \<Rightarrow> reap_outcome" where
  "decide requests snapshot row =
    reap_decision ((row_id row, aj_lease_generation (rp_job row)) \<in> requests) snapshot row"

lemma expired_rows_jobs:
  assumes "keyed db" and "row \<in> set (expired_rows now n db)"
  shows "expired_lease now (rp_job row)" "unmoved row db"
proof -
  have j: "rp_job row \<in> set (agent_jobs db)" and "expired_lease now (rp_job row)"
    using in_set_takeD [OF assms(2) [unfolded expired_rows_def]] by auto
  then show "expired_lease now (rp_job row)" by blast
  show "unmoved row db"
    unfolding unmoved_def by (rule row_by_unique [OF _ j]) (use assms(1) in \<open>simp add: keyed_def\<close>)
qed

lemma distinct_key_select: "distinct (map key t) \<Longrightarrow> length (sql_select (\<lambda>r. key r = k) t) \<le> 1"
  using sql_rowcount_le_1 [of key t "\<lambda>r. key r = k" k] by (simp add: sql_rowcount_def sql_select_def)

lemma distinct_concat_small:
  assumes "distinct (map f xs)" and "\<And>x. length (g x) \<le> 1" and "\<And>x y. y \<in> set (g x) \<Longrightarrow> h y = f x"
  shows "distinct (map h (concat (map g xs)))"
  using assms(1)
proof (induction xs)
  case Nil
  then show ?case by simp
next
  case (Cons x xs)
  have "h y \<notin> h ` (\<Union>z \<in> set xs. set (g z))" if "y \<in> set (g x)" for y
    using Cons.prems assms(3) that by (fastforce simp: image_iff)
  moreover have "distinct (map h (g x))" using assms(2) [of x] by (cases "g x") auto
  ultimately show ?case using Cons by auto
qed

lemma expired_rows_distinct:
  assumes "keyed db"
  shows "distinct (map row_id (expired_rows now n db))"
proof -
  let ?join = "concat (map (\<lambda>j. map (\<lambda>t. \<lparr>rp_job = j, rp_task_status = tk_status t\<rparr>)
    (sql_select (\<lambda>t. tk_id t = aj_task_id j) (tasks db))) (sql_select (expired_lease now) (agent_jobs db)))"
  have "distinct (map row_id ?join)"
  proof (rule distinct_concat_small [where f = aj_id])
    show "distinct (map aj_id (sql_select (expired_lease now) (agent_jobs db)))"
      using assms by (simp add: keyed_def sql_select_def distinct_map_filter)
    show "length (map (\<lambda>t. \<lparr>rp_job = j, rp_task_status = tk_status t\<rparr>)
        (sql_select (\<lambda>t. tk_id t = aj_task_id j) (tasks db))) \<le> 1" for j
      using assms distinct_key_select [of tk_id "tasks db" "aj_task_id j"] by (simp add: keyed_def)
  qed auto
  moreover have "mset (map row_id (sort_key f xs)) = mset (map row_id xs)" for f :: "reaped_row \<Rightarrow> string \<times> string" and xs
    by simp
  ultimately have "distinct (map row_id (sort_key (\<lambda>p. (or_empty (aj_lease_expires_at (rp_job p)), row_id p)) ?join))"
    using mset_eq_imp_distinct_iff by blast
  then show ?thesis unfolding expired_rows_def take_map [symmetric] by (rule distinct_take)
qed

text \<open>After a batch each job examined is released as decided, and no other job has changed.\<close>

definition batch_effect :: "string \<Rightarrow> (reaped_row \<Rightarrow> reap_outcome) \<Rightarrow> reaped_row list \<Rightarrow> 'z job_db_scheme \<Rightarrow> 'z job_db_scheme \<Rightarrow> bool" where
  "batch_effect now dec rows db db' \<longleftrightarrow>
     (\<forall>row \<in> set rows. \<exists>why err. row_by aj_id (row_id row) (agent_jobs db') =
        Some (released_row row (dec row) now why err (rp_job row))) \<and>
     (\<forall>i. i \<notin> row_id ` set rows \<longrightarrow> row_by aj_id i (agent_jobs db') = row_by aj_id i (agent_jobs db))"

lemma reap_step_Inr:
  "reap_step env snapshot row (counts, db) = Inr p \<longleftrightarrow>
    (\<exists>o' db'. reap_row_locked env snapshot row db = Inr (o', db') \<and> p = (count_outcome o' counts, db'))"
  by (auto simp: reap_step_def and_then_Inr_iff)

lemma reap_rows_refine:
  assumes "for_each (reap_step env snapshot) rows (counts, db) = Inr (counts', db')" and "keyed db"
    and "distinct (map row_id rows)" and "\<And>row. row \<in> set rows \<Longrightarrow> unmoved row db"
    and "request_keys db = K"
  shows "abs_state db' = fold (\<lambda>row. abstract_reap (decide K snapshot row) row) rows (abs_state db) \<and>
    counts' = fold (\<lambda>row. count_outcome (decide K snapshot row)) rows counts \<and> keyed db' \<and>
    batch_effect (re_now env) (decide K snapshot) rows db db'"
  using assms
proof (induction rows arbitrary: counts db)
  case Nil
  then show ?case by (simp add: batch_effect_def)
next
  case (Cons row rows)
  obtain o' db1 where step: "reap_row_locked env snapshot row db = Inr (o', db1)"
    and rest: "for_each (reap_step env snapshot) rows (count_outcome o' counts, db1) = Inr (counts', db')"
    using Cons.prems(1) by (auto simp: reap_step_Inr and_then_Inr_iff)
  have u: "unmoved row db" using Cons.prems(4) by simp
  have o': "o' = decide K snapshot row" using reap_row_reaped [OF step] Cons.prems(5) by (simp add: decide_def has_history_def)
  have eff: "reaped row o' (re_now env) db db1" using reap_row_reaped [OF step] by blast
  obtain why err where e: "\<forall>i. row_by aj_id i (agent_jobs db1) =
      (if i = row_id row then Some (released_row row o' (re_now env) why err (rp_job row)) else row_by aj_id i (agent_jobs db))"
    "keyed db1" "abs_state db1 = abstract_reap o' row (abs_state db)" "request_keys db1 = request_keys db"
    by (rule reaped_effect [OF eff Cons.prems(2) u]) blast
  have fresh: "row_id row \<notin> row_id ` set rows" "distinct (map row_id rows)"
    using Cons.prems(3) by simp_all
  have "unmoved r db1" if "r \<in> set rows" for r
  proof -
    have "row_id r \<noteq> row_id row" using fresh(1) that by (metis image_eqI)
    then show ?thesis using Cons.prems(4) [of r] that e(1) by (simp add: unmoved_def)
  qed
  with Cons.IH [OF rest e(2) fresh(2)] Cons.prems(5) e(4)
  have ih: "abs_state db' = fold (\<lambda>row. abstract_reap (decide K snapshot row) row) rows (abs_state db1)"
    "counts' = fold (\<lambda>row. count_outcome (decide K snapshot row)) rows (count_outcome o' counts)" "keyed db'"
    "batch_effect (re_now env) (decide K snapshot) rows db1 db'"
    by simp_all
  have "batch_effect (re_now env) (decide K snapshot) (row # rows) db db'"
    using ih(4) e(1) fresh(1) o' unfolding batch_effect_def by auto
  then show ?case using ih(1-3) e(3) o' by simp
qed

lemma reap_batch_Inr:
  assumes "reap_batch benv lsvc fresh n m fence local db = (Inr (counts, go_on), local', fence', db')"
  obtains snapshot db1 env fence1 where
    "load_locked (env_sha256 benv) (isoformat (dt_instant (mo_clock m))) local db = Inr (snapshot, local', db1)"
    "re_now env = isoformat (dt_instant (mo_clock m))"
    "for_each (reap_step env snapshot) (batch_rows (mo_rows m) fence (expired_rows (re_now env) n db1)) (no_counts, db1) =
      Inr (counts, db')"
    "fence_check lsvc (mo_fence1 m) ''agent lease reaper requires a current maintenance lease'' fence db = (Inr (), fence1)"
    "fence_check lsvc (mo_fence2 m) ''agent lease reaper lost its maintenance fencing context'' fence1 db' = (Inr (), fence')"
proof -
  obtain t where t: "reaper_now (mo_clock m) = Inr t" "t = dt_instant (mo_clock m)"
    using assms by (auto simp: reap_batch_def reaper_now_def split: if_split_asm)
  obtain fence1 where f: "fence_check lsvc (mo_fence1 m) ''agent lease reaper requires a current maintenance lease'' fence db = (Inr (), fence1)"
    using assms t(1) by (auto simp: reap_batch_def split: prod.split_asm sum.split_asm)
  obtain snapshot l db1 where l: "load_locked (env_sha256 benv) (isoformat t) local db = Inr (snapshot, l, db1)"
    using assms t(1) f by (auto simp: reap_batch_def split: prod.split_asm sum.split_asm)
  let ?env = "\<lparr>re_board = benv, re_now = isoformat t, re_clock = t, re_fresh = fresh\<rparr>"
  have "l = local'" and
    "for_each (reap_step ?env snapshot) (batch_rows (mo_rows m) fence (expired_rows (isoformat t) n db1)) (no_counts, db1) =
      Inr (counts, db')" and
    "fence_check lsvc (mo_fence2 m) ''agent lease reaper lost its maintenance fencing context'' fence1 db' = (Inr (), fence')"
    using assms t(1) f l by (auto simp: reap_batch_def Let_def split: prod.split_asm sum.split_asm)
  then show ?thesis using l f t(2) by (intro that [of snapshot db1 ?env fence1]) simp_all
qed

lemma load_locked_same:
  assumes "load_locked H now local db = Inr (s, local', db1)"
  shows "keyed db1 = keyed db" "abs_state db1 = abs_state db" "request_keys db1 = request_keys db"
    "expired_rows t n db1 = expired_rows t n db" "unmoved row db1 = unmoved row db"
    "agent_jobs db1 = agent_jobs db"
  by (simp_all add: keyed_def abs_state_def request_keys_def expired_rows_def unmoved_def load_locked_table [OF assms])

lemma batch_rows_subset: "set (batch_rows b fence rows) \<subseteq> set rows" "distinct (map f rows) \<Longrightarrow> distinct (map f (batch_rows b fence rows))"
  by (cases fence; auto simp: batch_rows_def take_map [symmetric] dest: in_set_takeD)+

lemma batch_refines:
  assumes run: "reap_batch benv lsvc fresh n m fence local db = (Inr (counts, go_on), local', fence', db')"
    and k: "keyed db" and now: "now = isoformat (dt_instant (mo_clock m))"
    and rows: "rows = batch_rows (mo_rows m) fence (expired_rows now n db)"
  obtains snapshot db1 where "load_locked (env_sha256 benv) now local db = Inr (snapshot, local', db1)"
    "abs_state db' = fold (\<lambda>row. abstract_reap (decide (request_keys db) snapshot row) row) rows (abs_state db)"
    "counts = fold (\<lambda>row. count_outcome (decide (request_keys db) snapshot row)) rows no_counts"
    "keyed db'" "batch_effect now (decide (request_keys db) snapshot) rows db db'"
    "\<forall>row \<in> set rows. expired_lease now (rp_job row) \<and> unmoved row db"
proof -
  obtain snapshot db1 env where l: "load_locked (env_sha256 benv) now local db = Inr (snapshot, local', db1)"
    and env: "re_now env = now"
    and loop: "for_each (reap_step env snapshot) rows (no_counts, db1) = Inr (counts, db')"
    using reap_batch_Inr [OF run] load_locked_same(4) unfolding now rows by metis
  note same = load_locked_same [OF l]
  have expired: "expired_lease now (rp_job row) \<and> unmoved row db" if "row \<in> set rows" for row
    using expired_rows_jobs [OF k] that batch_rows_subset(1) unfolding rows by blast
  have "distinct (map row_id rows)"
    unfolding rows by (rule batch_rows_subset(2) [OF expired_rows_distinct [OF k]])
  from reap_rows_refine [OF loop _ this _ same(3)] k expired same env
  show ?thesis using that [OF l] by (auto simp: batch_effect_def)
qed

end
