(* ===== verification/IPhone_Safety.thy ===== *)
theory IPhone_Safety
  imports IPhone_Service Reaper_Refinement
begin

text \<open>
  What the capability service guarantees over every run of its transactions. The life of a request is an
  abstract machine, \<open>capability_edge\<close>; \<open>evolves\<close> is what every statement, hence every transaction, keeps of
  requests, grants, results and the audit log.
\<close>

section \<open>The life of a request\<close>

inductive capability_edge :: "string \<Rightarrow> string \<Rightarrow> bool" where
  approve: "capability_edge ''waiting_approval'' ''approved''"
| deny: "capability_edge ''waiting_approval'' ''denied''"
| consume: "capability_edge ''approved'' ''consumed''"
| finish: "s \<in> set [''completed'', ''cancelled'', ''denied'', ''failed''] \<Longrightarrow> capability_edge ''consumed'' s"
| expire: "s \<in> set [''waiting_approval'', ''approved'', ''consumed''] \<Longrightarrow> capability_edge s ''expired''"
| cancel: "s \<notin> set terminal_capability_statuses \<Longrightarrow> capability_edge s ''cancelled''"

abbreviation capability_path :: "string \<Rightarrow> string \<Rightarrow> bool" where
  "capability_path \<equiv> capability_edge\<^sup>*\<^sup>*"

definition terminal_capability :: "string \<Rightarrow> bool" where
  "terminal_capability s \<longleftrightarrow> s \<in> set terminal_capability_statuses"

lemma edge_from_open: "capability_edge s s' \<Longrightarrow> s \<notin> set terminal_capability_statuses"
  by (induction rule: capability_edge.induct) (auto simp: terminal_capability_statuses_def)

lemma terminal_is_final: "capability_path s s' \<Longrightarrow> s \<in> set terminal_capability_statuses \<Longrightarrow> s' = s"
  by (induction rule: converse_rtranclp_induct) (auto dest: edge_from_open)

lemma edge_from_consumed: "capability_edge ''consumed'' s \<Longrightarrow> s \<in> set terminal_capability_statuses"
  by (cases rule: capability_edge.cases) (auto simp: terminal_capability_statuses_def)

lemma edge_from_approved: "capability_edge ''approved'' s \<Longrightarrow> s = ''consumed'' \<or> s \<in> set terminal_capability_statuses"
  by (cases rule: capability_edge.cases) (auto simp: terminal_capability_statuses_def)

lemma path_from_consumed: "capability_path ''consumed'' s \<Longrightarrow> s = ''consumed'' \<or> s \<in> set terminal_capability_statuses"
proof (induction rule: rtranclp_induct)
  case (step t u)
  then show ?case using edge_from_consumed edge_from_open by blast
qed simp

lemma path_from_approved:
  assumes "capability_path ''approved'' s" and "s \<noteq> ''approved''"
  shows "s = ''consumed'' \<or> s \<in> set terminal_capability_statuses"
  using assms
proof (induction rule: rtranclp_induct)
  case (step t u)
  show ?case
  proof (cases "t = ''approved''")
    case False
    then show ?thesis using step edge_from_open edge_from_consumed by blast
  qed (use step.hyps edge_from_approved in simp)
qed simp

text \<open>The columns of a request and of a grant that never change.\<close>

definition request_fixed :: "capability_request_row \<Rightarrow> capability_request_row" where
  "request_fixed r = r\<lparr>cr_status := [], cr_delivered_at := None, cr_completed_at := None\<rparr>"

definition grant_fixed :: "capability_grant_row \<Rightarrow> capability_grant_row" where
  "grant_fixed g = g\<lparr>cg_token_hash := [], cg_issued_at := [], cg_expires_at := [], cg_consumed_at := None\<rparr>"

lemma request_fixedD:
  assumes "request_fixed r = request_fixed r'"
  shows "cr_id r = cr_id r'" "cr_task_id r = cr_task_id r'" "cr_requesting_agent_id r = cr_requesting_agent_id r'"
    "cr_requesting_job_id r = cr_requesting_job_id r'" "cr_lease_generation r = cr_lease_generation r'"
    "cr_device_id r = cr_device_id r'" "cr_capability_name r = cr_capability_name r'"
    "cr_arguments_json r = cr_arguments_json r'" "cr_request_fingerprint r = cr_request_fingerprint r'"
    "cr_action_digest r = cr_action_digest r'" "cr_approval_id r = cr_approval_id r'"
    "cr_expires_at r = cr_expires_at r'"
  using arg_cong [OF assms, of cr_id] arg_cong [OF assms, of cr_task_id] arg_cong [OF assms, of cr_requesting_agent_id]
    arg_cong [OF assms, of cr_requesting_job_id] arg_cong [OF assms, of cr_lease_generation]
    arg_cong [OF assms, of cr_device_id] arg_cong [OF assms, of cr_capability_name]
    arg_cong [OF assms, of cr_arguments_json] arg_cong [OF assms, of cr_request_fingerprint]
    arg_cong [OF assms, of cr_action_digest] arg_cong [OF assms, of cr_approval_id] arg_cong [OF assms, of cr_expires_at]
  by (simp_all add: request_fixed_def)

lemma grant_fixedD:
  assumes "grant_fixed g = grant_fixed g'"
  shows "cg_id g = cg_id g'" "cg_request_id g = cg_request_id g'" "cg_device_id g = cg_device_id g'"
    "cg_capability_name g = cg_capability_name g'" "cg_approval_id g = cg_approval_id g'"
    "cg_action_digest g = cg_action_digest g'"
  using arg_cong [OF assms, of cg_id] arg_cong [OF assms, of cg_request_id] arg_cong [OF assms, of cg_device_id]
    arg_cong [OF assms, of cg_capability_name] arg_cong [OF assms, of cg_approval_id]
    arg_cong [OF assms, of cg_action_digest]
  by (simp_all add: grant_fixed_def)

section \<open>What every statement keeps\<close>

text \<open>A request is bound to its arguments by its digest.\<close>

definition bound_request :: "(string \<Rightarrow> string) \<Rightarrow> capability_request_row \<Rightarrow> bool" where
  "bound_request H r \<longleftrightarrow> (\<exists>args. cr_arguments_json r = json_dumps (JObj args) \<and>
    cr_action_digest r = ''sha256:'' @ H (json_dumps (action_json (cr_id r) (cr_capability_name r) args)))"

definition requests_evolve :: "'z capability_db_scheme \<Rightarrow> 'z capability_db_scheme \<Rightarrow> bool" where
  "requests_evolve db db' \<longleftrightarrow> (\<forall>i r. row_by cr_id i (capability_requests db) = Some r \<longrightarrow>
    (\<exists>r'. row_by cr_id i (capability_requests db') = Some r' \<and> request_fixed r' = request_fixed r \<and>
      capability_path (cr_status r) (cr_status r')))"

definition grants_evolve :: "'z capability_db_scheme \<Rightarrow> 'z capability_db_scheme \<Rightarrow> bool" where
  "grants_evolve db db' \<longleftrightarrow> (\<forall>i g. row_by cg_request_id i (capability_grants db) = Some g \<longrightarrow>
    (\<exists>g'. row_by cg_request_id i (capability_grants db') = Some g' \<and> grant_fixed g' = grant_fixed g \<and>
      (cg_consumed_at g \<noteq> None \<longrightarrow> cg_consumed_at g' = cg_consumed_at g \<and> cg_token_hash g' = cg_token_hash g)))"

definition results_evolve :: "'z capability_db_scheme \<Rightarrow> 'z capability_db_scheme \<Rightarrow> bool" where
  "results_evolve db db' \<longleftrightarrow> (\<forall>i x. stored_result i db = Some x \<longrightarrow> stored_result i db' = Some x)"

definition only_bound_requests :: "(string \<Rightarrow> string) \<Rightarrow> 'z capability_db_scheme \<Rightarrow> 'z capability_db_scheme \<Rightarrow> bool" where
  "only_bound_requests H db db' \<longleftrightarrow> (\<forall>r' \<in> set (capability_requests db').
    (\<exists>r \<in> set (capability_requests db). request_fixed r' = request_fixed r) \<or> bound_request H r')"

definition capability_keys :: "'z capability_db_scheme \<Rightarrow> bool" where
  "capability_keys db \<longleftrightarrow> distinct (map cr_id (capability_requests db)) \<and>
    distinct (map cr_request_fingerprint (sql_select open_capability (capability_requests db))) \<and>
    distinct (map cg_request_id (capability_grants db)) \<and> distinct (map cx_request_id (capability_results db))"

definition statement_keeps :: "(string \<Rightarrow> string) \<Rightarrow> 'z capability_db_scheme \<Rightarrow> 'z capability_db_scheme \<Rightarrow> bool" where
  "statement_keeps H db db' \<longleftrightarrow> requests_evolve db db' \<and> grants_evolve db db' \<and> results_evolve db db' \<and>
    set (audit_events db) \<subseteq> set (audit_events db') \<and> only_bound_requests H db db' \<and>
    (capability_keys db \<longrightarrow> capability_keys db')"

lemma bound_request_fixed:
  assumes "request_fixed r' = request_fixed r" and "bound_request H r"
  shows "bound_request H r'"
  using assms(2) by (simp add: bound_request_def request_fixedD(1,7,8,10) [OF assms(1)])

lemma requests_evolve_trans: "requests_evolve a b \<Longrightarrow> requests_evolve b c \<Longrightarrow> requests_evolve a c"
  unfolding requests_evolve_def
proof (intro allI impI)
  fix i r
  assume ab: "\<forall>i r. row_by cr_id i (capability_requests a) = Some r \<longrightarrow>
      (\<exists>r'. row_by cr_id i (capability_requests b) = Some r' \<and> request_fixed r' = request_fixed r \<and>
        capability_path (cr_status r) (cr_status r'))"
    and bc: "\<forall>i r. row_by cr_id i (capability_requests b) = Some r \<longrightarrow>
      (\<exists>r'. row_by cr_id i (capability_requests c) = Some r' \<and> request_fixed r' = request_fixed r \<and>
        capability_path (cr_status r) (cr_status r'))"
    and r: "row_by cr_id i (capability_requests a) = Some r"
  obtain s where s: "row_by cr_id i (capability_requests b) = Some s" "request_fixed s = request_fixed r"
      "capability_path (cr_status r) (cr_status s)"
    using ab r by blast
  then obtain t where t: "row_by cr_id i (capability_requests c) = Some t" "request_fixed t = request_fixed s"
      "capability_path (cr_status s) (cr_status t)"
    using bc by blast
  show "\<exists>r'. row_by cr_id i (capability_requests c) = Some r' \<and> request_fixed r' = request_fixed r \<and>
      capability_path (cr_status r) (cr_status r')"
    using s t by (intro exI [of _ t]) (simp add: rtranclp_trans [OF s(3) t(3)])
qed

lemma grants_evolve_trans: "grants_evolve a b \<Longrightarrow> grants_evolve b c \<Longrightarrow> grants_evolve a c"
  unfolding grants_evolve_def
proof (intro allI impI)
  fix i g
  let ?to = "\<lambda>g g'. grant_fixed g' = grant_fixed g \<and>
    (cg_consumed_at g \<noteq> None \<longrightarrow> cg_consumed_at g' = cg_consumed_at g \<and> cg_token_hash g' = cg_token_hash g)"
  assume ab: "\<forall>i g. row_by cg_request_id i (capability_grants a) = Some g \<longrightarrow>
      (\<exists>g'. row_by cg_request_id i (capability_grants b) = Some g' \<and> ?to g g')"
    and bc: "\<forall>i g. row_by cg_request_id i (capability_grants b) = Some g \<longrightarrow>
      (\<exists>g'. row_by cg_request_id i (capability_grants c) = Some g' \<and> ?to g g')"
    and g: "row_by cg_request_id i (capability_grants a) = Some g"
  obtain s where s: "row_by cg_request_id i (capability_grants b) = Some s" "?to g s" using ab g by blast
  then obtain t where t: "row_by cg_request_id i (capability_grants c) = Some t" "?to s t" using bc by blast
  show "\<exists>g'. row_by cg_request_id i (capability_grants c) = Some g' \<and> ?to g g'"
    using s t by (intro exI [of _ t]) auto
qed

lemma results_evolve_trans: "results_evolve a b \<Longrightarrow> results_evolve b c \<Longrightarrow> results_evolve a c"
  unfolding results_evolve_def by blast

lemma only_bound_trans:
  assumes "only_bound_requests H a b" and "only_bound_requests H b c"
  shows "only_bound_requests H a c"
  unfolding only_bound_requests_def
proof
  fix r
  assume "r \<in> set (capability_requests c)"
  then consider (old) s where "s \<in> set (capability_requests b)" "request_fixed r = request_fixed s" | (new) "bound_request H r"
    using assms(2) unfolding only_bound_requests_def by blast
  then show "(\<exists>r' \<in> set (capability_requests a). request_fixed r = request_fixed r') \<or> bound_request H r"
  proof cases
    case old
    then show ?thesis using assms(1) bound_request_fixed [OF old(2)] unfolding only_bound_requests_def by metis
  qed simp
qed

lemma statement_keeps_refl [simp]: "statement_keeps H db db"
  by (auto simp: statement_keeps_def requests_evolve_def grants_evolve_def results_evolve_def only_bound_requests_def)

lemma statement_keeps_trans [trans]: "statement_keeps H a b \<Longrightarrow> statement_keeps H b c \<Longrightarrow> statement_keeps H a c"
  unfolding statement_keeps_def
  by (blast intro: requests_evolve_trans grants_evolve_trans results_evolve_trans only_bound_trans)

text \<open>Statements that leave the three tables alone and do not remove audit events.\<close>

definition capability_frame :: "'z capability_db_scheme \<Rightarrow> 'z capability_db_scheme \<Rightarrow> bool" where
  "capability_frame db db' \<longleftrightarrow> capability_requests db' = capability_requests db \<and>
    capability_grants db' = capability_grants db \<and> capability_results db' = capability_results db \<and>
    set (audit_events db) \<subseteq> set (audit_events db')"

lemma capability_frame_keeps: "capability_frame db db' \<Longrightarrow> statement_keeps H db db'"
  by (auto simp: capability_frame_def statement_keeps_def requests_evolve_def grants_evolve_def results_evolve_def
      only_bound_requests_def capability_keys_def stored_result_def)

lemma capability_frame_refl [simp]: "capability_frame db db"
  by (simp add: capability_frame_def)

lemma capability_frame_trans: "capability_frame a b \<Longrightarrow> capability_frame b c \<Longrightarrow> capability_frame a c"
  by (auto simp: capability_frame_def)

lemma capability_audit_frame: "capability_frame db (snd (capability_audit env ty payload at ai task db))"
  by (auto simp: capability_frame_def capability_audit_def append_audit_event_def Let_def)

lemma reaper_enqueue_capability_frame:
  fixes db :: "'z capability_db_scheme"
  shows "reaper_enqueue env at ai to' ty payload task agent key db = Inr db' \<Longrightarrow> capability_frame db db'"
  unfolding reaper_enqueue_def by (auto simp: and_then_Inr_iff capability_frame_def elim!: enqueue_shape)

lemma capability_enqueue_frame:
  fixes db :: "'z capability_db_scheme"
  shows "capability_enqueue env r to' ty payload suffix db = Inr db' \<Longrightarrow> capability_frame db db'"
  unfolding capability_enqueue_def by (rule reaper_enqueue_capability_frame)

text \<open>An audit event, then the outbox: what most operations end with.\<close>

lemma notify_frame:
  fixes db :: "'z capability_db_scheme"
  assumes "capability_enqueue env r to' ty payload suffix (snd (capability_audit env ty2 payload2 at ai task db)) = Inr db'"
  shows "capability_frame db db'"
  by (rule capability_frame_trans [OF capability_audit_frame capability_enqueue_frame [OF assms]])

section \<open>The statements\<close>

lemma sql_update_all:
  "(\<And>x. P x \<Longrightarrow> Q (f x)) \<Longrightarrow> (\<And>x. \<not> P x \<Longrightarrow> Q x) \<Longrightarrow> \<forall>x \<in> set (sql_update P f t). Q x"
  by (auto simp: sql_update_def)

lemma fetchone_append: "fetchone xs = Some x \<Longrightarrow> fetchone (xs @ ys) = Some x"
  by (cases xs) auto

lemma distinct_shrink:
  assumes "distinct (map k (filter Q t))" and "\<And>x. k (h x) = k x" and "\<And>x. Q (h x) \<Longrightarrow> Q x"
  shows "distinct (map k (filter Q (map h t)))"
  using assms(1)
proof (induction t)
  case (Cons x t)
  have "k ` set (filter Q (map h t)) \<subseteq> k ` set (filter Q t)" using assms(2,3) by force
  moreover have "distinct (map k (filter Q (map h t)))" using Cons by (auto split: if_split_asm)
  ultimately show ?case using Cons.prems assms(2,3) by (auto split: if_split_asm)
qed simp

lemma update_requests_keeps:
  fixes db :: "'z capability_db_scheme"
  assumes "\<And>r. P r \<Longrightarrow> request_fixed (f r) = request_fixed r \<and> capability_edge (cr_status r) (cr_status (f r))"
  shows "statement_keeps H db (db\<lparr>capability_requests := sql_update P f (capability_requests db)\<rparr>)"
proof -
  let ?h = "\<lambda>r. if P r then f r else r"
  have h: "request_fixed (?h r) = request_fixed r" "capability_path (cr_status r) (cr_status (?h r))"
    "open_capability (?h r) \<Longrightarrow> open_capability r" for r
    using assms [of r] by (cases "P r"; auto simp: open_capability_def dest: edge_from_open)+
  have look: "row_by cr_id i (sql_update P f t) = map_option ?h (row_by cr_id i t)" for i t
    using assms by (intro row_by_sql_update) (blast dest: request_fixedD(1))
  have "requests_evolve db (db\<lparr>capability_requests := sql_update P f (capability_requests db)\<rparr>)"
    unfolding requests_evolve_def
  proof (intro allI impI)
    fix i r
    assume "row_by cr_id i (capability_requests db) = Some r"
    then have "row_by cr_id i (capability_requests (db\<lparr>capability_requests := sql_update P f (capability_requests db)\<rparr>)) = Some (?h r)"
      by (simp add: look)
    then show "\<exists>r'. row_by cr_id i (capability_requests (db\<lparr>capability_requests := sql_update P f (capability_requests db)\<rparr>)) = Some r' \<and>
        request_fixed r' = request_fixed r \<and> capability_path (cr_status r) (cr_status r')"
      using h by blast
  qed
  moreover have "only_bound_requests H db (db\<lparr>capability_requests := sql_update P f (capability_requests db)\<rparr>)"
    unfolding only_bound_requests_def
  proof
    fix r'
    assume "r' \<in> set (capability_requests (db\<lparr>capability_requests := sql_update P f (capability_requests db)\<rparr>))"
    then obtain r where "r \<in> set (capability_requests db)" "r' = ?h r" by (auto simp: sql_update_def)
    then show "(\<exists>r \<in> set (capability_requests db). request_fixed r' = request_fixed r) \<or> bound_request H r'" using h(1) by blast
  qed
  moreover have "map cr_id (sql_update P f t) = map cr_id t" for t
    using assms by (intro map_sql_update) (blast dest: request_fixedD(1))
  moreover have "distinct (map cr_request_fingerprint (sql_select open_capability t)) \<Longrightarrow>
      distinct (map cr_request_fingerprint (sql_select open_capability (sql_update P f t)))" for t
    unfolding sql_select_def sql_update_def
    by (erule distinct_shrink) (rule request_fixedD(9) [OF h(1)], rule h(3))
  ultimately show ?thesis
    by (simp add: statement_keeps_def grants_evolve_def results_evolve_def capability_keys_def stored_result_def)
qed

lemma update_grants_keeps:
  fixes db :: "'z capability_db_scheme"
  assumes "\<And>g. P g \<Longrightarrow> grant_fixed (f g) = grant_fixed g \<and>
    (cg_consumed_at g \<noteq> None \<longrightarrow> cg_consumed_at (f g) = cg_consumed_at g \<and> cg_token_hash (f g) = cg_token_hash g)"
  shows "statement_keeps H db (db\<lparr>capability_grants := sql_update P f (capability_grants db)\<rparr>)"
proof -
  let ?h = "\<lambda>g. if P g then f g else g"
  have look: "row_by cg_request_id i (sql_update P f t) = map_option ?h (row_by cg_request_id i t)" for i t
    using assms by (intro row_by_sql_update) (blast dest: grant_fixedD(2))
  have "grants_evolve db (db\<lparr>capability_grants := sql_update P f (capability_grants db)\<rparr>)"
    unfolding grants_evolve_def
  proof (intro allI impI)
    fix i g
    assume "row_by cg_request_id i (capability_grants db) = Some g"
    then have "row_by cg_request_id i (capability_grants (db\<lparr>capability_grants := sql_update P f (capability_grants db)\<rparr>)) = Some (?h g)"
      by (simp add: look)
    then show "\<exists>g'. row_by cg_request_id i (capability_grants (db\<lparr>capability_grants := sql_update P f (capability_grants db)\<rparr>)) = Some g' \<and>
        grant_fixed g' = grant_fixed g \<and>
        (cg_consumed_at g \<noteq> None \<longrightarrow> cg_consumed_at g' = cg_consumed_at g \<and> cg_token_hash g' = cg_token_hash g)"
      using assms [of g] by (intro exI [of _ "?h g"]) simp
  qed
  moreover have "map cg_request_id (sql_update P f t) = map cg_request_id t" for t
    using assms by (intro map_sql_update) (blast dest: grant_fixedD(2))
  ultimately show ?thesis
    by (auto simp: statement_keeps_def requests_evolve_def results_evolve_def capability_keys_def stored_result_def
        only_bound_requests_def)
qed

lemma insert_request_keeps:
  fixes db :: "'z capability_db_scheme"
  assumes "insert_capability_request r db = Inr db'" and "bound_request H r"
  shows "statement_keeps H db db'"
proof -
  have db': "db' = db\<lparr>capability_requests := capability_requests db @ [r]\<rparr>" and
    free: "\<forall>x \<in> set (capability_requests db). cr_id x \<noteq> cr_id r \<and>
      \<not> (cr_request_fingerprint x = cr_request_fingerprint r \<and> open_capability x \<and> open_capability r)"
    using assms(1) by (auto simp: insert_capability_request_def list_ex_iff split: if_split_asm)
  have "requests_evolve db db'"
    by (auto simp: requests_evolve_def db' dest: fetchone_append)
  then show ?thesis
    using assms(2) free
    by (auto simp: statement_keeps_def grants_evolve_def results_evolve_def capability_keys_def stored_result_def
        only_bound_requests_def db' sql_select_def)
qed

lemma insert_grant_keeps:
  fixes db :: "'z capability_db_scheme"
  assumes "insert_grant g db = Inr db'"
  shows "statement_keeps H db db'"
proof -
  have db': "db' = db\<lparr>capability_grants := capability_grants db @ [g]\<rparr>" and
    "cg_request_id g \<notin> cg_request_id ` set (capability_grants db)"
    using assms by (auto simp: insert_grant_def list_ex_iff split: if_split_asm)
  then show ?thesis
    by (auto simp: statement_keeps_def requests_evolve_def grants_evolve_def results_evolve_def capability_keys_def
        stored_result_def only_bound_requests_def dest: fetchone_append)
qed

lemma insert_result_keeps:
  fixes db :: "'z capability_db_scheme"
  assumes "insert_result x db = Inr db'"
  shows "statement_keeps H db db'"
proof -
  have db': "db' = db\<lparr>capability_results := capability_results db @ [x]\<rparr>" and
    "cx_request_id x \<notin> cx_request_id ` set (capability_results db)"
    using assms unfolding row_by_None_iff [symmetric] by (auto simp: insert_result_def stored_result_def split: if_split_asm)
  then show ?thesis
    by (auto simp: statement_keeps_def requests_evolve_def grants_evolve_def results_evolve_def capability_keys_def
        stored_result_def only_bound_requests_def dest: fetchone_append)
qed

lemma set_request_status_keeps:
  fixes db :: "'z capability_db_scheme"
  assumes "set_request_status i s f message db = Inr db'"
    and "\<And>r. cr_status r = s \<Longrightarrow> request_fixed (f r) = request_fixed r \<and> capability_edge s (cr_status (f r))"
  shows "statement_keeps H db db'"
  using assms(1) update_requests_keeps [of "\<lambda>x. cr_id x = i \<and> cr_status x = s" f H db] assms(2)
  by (auto simp: set_request_status_def Let_def capability_conflict_def split: if_split_asm)

lemma end_request_keeps:
  fixes db :: "'z capability_db_scheme"
  assumes "\<And>s. P s \<Longrightarrow> capability_edge s status"
  shows "statement_keeps H db (end_request r P status now db)"
proof -
  let ?db1 = "db\<lparr>capability_requests := sql_update (\<lambda>x. cr_id x = cr_id r \<and> P (cr_status x))
      (\<lambda>x. x\<lparr>cr_status := status, cr_completed_at := Some now\<rparr>) (capability_requests db)\<rparr>"
  have "statement_keeps H db ?db1"
    by (rule update_requests_keeps) (use assms in \<open>auto simp: request_fixed_def\<close>)
  also have "statement_keeps H ?db1 (?db1\<lparr>capability_grants := sql_update (\<lambda>g. cg_request_id g = cr_id r)
      (\<lambda>g. g\<lparr>cg_expires_at := now\<rparr>) (capability_grants ?db1)\<rparr>)"
    by (rule update_grants_keeps) (simp add: grant_fixed_def)
  also have "\<dots> = end_request r P status now db"
    by (simp add: end_request_def)
  finally show ?thesis .
qed

section \<open>Approved grants\<close>

text \<open>The event that \<open>_record_decision_locked\<close> appends when the device of the request approves it.\<close>

definition approval_event :: "capability_request_row \<Rightarrow> audit_row \<Rightarrow> bool" where
  "approval_event r a \<longleftrightarrow> ae_event_type a = ''iphone.capability.approval_decided'' \<and> ae_actor_type a = ''device'' \<and>
    ae_actor_id a = cr_device_id r \<and> ae_task_id a = Some (cr_task_id r) \<and>
    (\<exists>b. ae_payload_json a = json_dumps (JObj [(''request_id'', JStr (cr_id r)), (''approval_id'', JStr (cr_approval_id r)),
      (''decision'', JStr ''approved''), (''user_note_present'', JBool b)]))"

definition approved_by_device :: "capability_request_row \<Rightarrow> 'z audit_db_scheme \<Rightarrow> bool" where
  "approved_by_device r db \<longleftrightarrow> (\<exists>a \<in> set (audit_events db). approval_event r a)"

definition approved_grant :: "'z job_db_scheme \<Rightarrow> capability_grant_row \<Rightarrow> bool" where
  "approved_grant db g \<longleftrightarrow> (\<exists>r. row_by cr_id (cg_request_id g) (capability_requests db) = Some r \<and>
    cg_device_id g = cr_device_id r \<and> cg_capability_name g = cr_capability_name r \<and>
    cg_approval_id g = cr_approval_id r \<and> cg_action_digest g = cr_action_digest r \<and> approved_by_device r db)"

definition grants_approved :: "'z job_db_scheme \<Rightarrow> bool" where
  "grants_approved db \<longleftrightarrow> (\<forall>g \<in> set (capability_grants db). approved_grant db g)"

definition no_new_grants :: "'z capability_db_scheme \<Rightarrow> 'z capability_db_scheme \<Rightarrow> bool" where
  "no_new_grants db db' \<longleftrightarrow> (\<forall>g' \<in> set (capability_grants db'). \<exists>g \<in> set (capability_grants db). grant_fixed g' = grant_fixed g)"

text \<open>A statement other than the insertion of a grant; an operation.\<close>

definition plain_keeps :: "(string \<Rightarrow> string) \<Rightarrow> 'z capability_db_scheme \<Rightarrow> 'z capability_db_scheme \<Rightarrow> bool" where
  "plain_keeps H db db' \<longleftrightarrow> statement_keeps H db db' \<and> no_new_grants db db'"

definition operation_keeps :: "(string \<Rightarrow> string) \<Rightarrow> 'z capability_db_scheme \<Rightarrow> 'z capability_db_scheme \<Rightarrow> bool" where
  "operation_keeps H db db' \<longleftrightarrow> statement_keeps H db db' \<and> (capability_keys db \<and> grants_approved db \<longrightarrow> grants_approved db')"

lemma approval_event_fixed:
  assumes "request_fixed r' = request_fixed r" and "approval_event r a"
  shows "approval_event r' a"
  using assms(2) unfolding approval_event_def request_fixedD [OF assms(1)] .

lemma approved_grant_keeps:
  assumes "statement_keeps H db db'" and "approved_grant db g" and "grant_fixed g' = grant_fixed g"
  shows "approved_grant db' g'"
proof -
  obtain r where r: "row_by cr_id (cg_request_id g) (capability_requests db) = Some r"
    and m: "cg_device_id g = cr_device_id r" "cg_capability_name g = cr_capability_name r"
      "cg_approval_id g = cr_approval_id r" "cg_action_digest g = cr_action_digest r" and ap: "approved_by_device r db"
    using assms(2) unfolding approved_grant_def by blast
  obtain r' where r': "row_by cr_id (cg_request_id g) (capability_requests db') = Some r'" "request_fixed r' = request_fixed r"
    using assms(1) r unfolding statement_keeps_def requests_evolve_def by blast
  have "approved_by_device r' db'"
    using ap assms(1) approval_event_fixed [OF r'(2)] unfolding approved_by_device_def statement_keeps_def by blast
  then show ?thesis
    unfolding approved_grant_def grant_fixedD [OF assms(3)] using r'(1) m request_fixedD [OF r'(2)] by auto
qed

lemma plain_operation:
  assumes "plain_keeps H db db'"
  shows "operation_keeps H db db'"
  using assms approved_grant_keeps unfolding plain_keeps_def operation_keeps_def grants_approved_def no_new_grants_def by blast

lemma operation_keeps_refl [simp]: "operation_keeps H db db"
  by (simp add: operation_keeps_def)

lemma operation_keeps_trans [trans]: "operation_keeps H a b \<Longrightarrow> operation_keeps H b c \<Longrightarrow> operation_keeps H a c"
  unfolding operation_keeps_def by (meson statement_keeps_trans statement_keeps_def)

lemma plain_keeps_refl [simp]: "plain_keeps H db db"
  by (auto simp: plain_keeps_def no_new_grants_def)

lemma plain_keeps_trans [trans]: "plain_keeps H a b \<Longrightarrow> plain_keeps H b c \<Longrightarrow> plain_keeps H a c"
  unfolding plain_keeps_def no_new_grants_def by (metis statement_keeps_trans)

lemma plain_same_grants: "statement_keeps H db db' \<Longrightarrow> capability_grants db' = capability_grants db \<Longrightarrow> plain_keeps H db db'"
  by (auto simp: plain_keeps_def no_new_grants_def)

lemma plain_frame: "capability_frame db db' \<Longrightarrow> plain_keeps H db db'"
  using capability_frame_keeps by (auto simp: capability_frame_def intro: plain_same_grants)

lemma plain_update_grants:
  fixes db :: "'z capability_db_scheme"
  assumes "\<And>g. P g \<Longrightarrow> grant_fixed (f g) = grant_fixed g \<and>
    (cg_consumed_at g \<noteq> None \<longrightarrow> cg_consumed_at (f g) = cg_consumed_at g \<and> cg_token_hash (f g) = cg_token_hash g)"
  shows "plain_keeps H db (db\<lparr>capability_grants := sql_update P f (capability_grants db)\<rparr>)"
  unfolding plain_keeps_def
proof
  show "no_new_grants db (db\<lparr>capability_grants := sql_update P f (capability_grants db)\<rparr>)"
    unfolding no_new_grants_def using assms by (auto simp: sql_update_def)
qed (rule update_grants_keeps, rule assms)

lemma plain_end_request:
  fixes db :: "'z capability_db_scheme"
  assumes "\<And>s. P s \<Longrightarrow> capability_edge s status"
  shows "plain_keeps H db (end_request r P status now db)"
proof -
  have "no_new_grants db (end_request r P status now db)"
    by (auto simp: no_new_grants_def end_request_def sql_update_def grant_fixed_def)
  then show ?thesis using end_request_keeps [of P status, OF assms] by (simp add: plain_keeps_def)
qed

lemma plain_insert_request:
  fixes db :: "'z capability_db_scheme"
  shows "insert_capability_request r db = Inr db' \<Longrightarrow> bound_request H r \<Longrightarrow> plain_keeps H db db'"
  by (rule plain_same_grants) (erule insert_request_keeps, auto simp: insert_capability_request_def split: if_split_asm)

lemma plain_insert_result:
  fixes db :: "'z capability_db_scheme"
  shows "insert_result x db = Inr db' \<Longrightarrow> plain_keeps H db db'"
  by (rule plain_same_grants) (erule insert_result_keeps, auto simp: insert_result_def split: if_split_asm)

lemma set_request_status_grants: "set_request_status i s f message db = Inr db' \<Longrightarrow> capability_grants db' = capability_grants db"
  by (auto simp: set_request_status_def Let_def capability_conflict_def split: if_split_asm)

lemma plain_set_status:
  fixes db :: "'z capability_db_scheme"
  assumes "set_request_status i s f message db = Inr db'"
    and "\<And>r. cr_status r = s \<Longrightarrow> request_fixed (f r) = request_fixed r \<and> capability_edge s (cr_status (f r))"
  shows "plain_keeps H db db'"
  using plain_same_grants [OF set_request_status_keeps [OF assms] set_request_status_grants [OF assms(1)]] .

lemma set_request_status_Inr:
  assumes "set_request_status i s f message db = Inr db'"
  shows "db' = db\<lparr>capability_requests := sql_update (\<lambda>x. cr_id x = i \<and> cr_status x = s) f (capability_requests db)\<rparr>"
  using assms by (simp add: set_request_status_def Let_def capability_conflict_def split: if_split_asm)

section \<open>The operations\<close>

lemma expire_request_keeps:
  fixes db :: "'z capability_db_scheme"
  assumes "expire_request_locked env r db = Inr db'"
  shows "plain_keeps H db db'"
proof -
  have "plain_keeps H db (end_request r (\<lambda>s. s \<in> set [''waiting_approval'', ''approved'', ''consumed'']) ''expired'' (re_now env) db)"
    by (rule plain_end_request) (rule capability_edge.expire)
  also have "plain_keeps H \<dots> db'"
    by (rule plain_frame, rule notify_frame) (rule assms [unfolded expire_request_locked_def])
  finally show ?thesis .
qed

lemma cancel_request_keeps:
  fixes db :: "'z capability_db_scheme"
  assumes "cancel_request_locked env r reason db = Inr db'"
  shows "plain_keeps H db db'"
proof -
  have "plain_keeps H db (end_request r (\<lambda>s. s \<notin> set terminal_capability_statuses) ''cancelled'' (re_now env) db)"
    by (rule plain_end_request) (rule capability_edge.cancel)
  also have "plain_keeps H \<dots> db'"
    by (rule plain_frame, rule notify_frame) (rule assms [unfolded cancel_request_locked_def])
  finally show ?thesis .
qed

lemma ended_with_Inr: "ended_with message m = Inr (r, db') \<longleftrightarrow> m = Inr db' \<and> r = capability_conflict message"
  by (auto simp: ended_with_def and_then_Inr_iff)

lemma reaper_cancel_keeps:
  fixes db :: "'z capability_db_scheme"
  assumes "cancel_capability env task agent r db = Inr db'"
  shows "plain_keeps H db db'"
proof -
  let ?db1 = "end_request r (\<lambda>s. s \<notin> set final_capability) ''cancelled'' (re_now env) db"
  have same: "final_capability = terminal_capability_statuses"
    by (simp add: final_capability_def terminal_capability_statuses_def)
  have "plain_keeps H db ?db1"
    unfolding same by (rule plain_end_request) (rule capability_edge.cancel)
  also have "plain_keeps H ?db1 (reaper_audit env ''iphone.capability.cancelled'' (JObj [(''request_id'', JStr (cr_id r)),
      (''reason'', JStr ''worker lease expired'')]) task ?db1)"
    by (rule plain_frame) (auto simp: capability_frame_def reaper_audit_def append_audit_event_def Let_def)
  also have "plain_keeps H \<dots> db'"
    using assms unfolding cancel_capability_def Let_def end_request_def
    by (rule plain_frame [OF reaper_enqueue_capability_frame])
  finally show ?thesis .
qed

lemma draft_bound:
  assumes "draft_request svc H policy job_id gen name args rh ah = Inr d"
  shows "bound_request H (drafted_row d job agent job_id gen name device audit_id t expires)"
  using assms
  by (auto simp: draft_request_def capability_conflict_def canonical_action_digest_def bound_request_def drafted_row_def
      split: if_split_asm sum.split_asm option.split_asm)

lemma new_request_keeps:
  fixes db :: "'z capability_db_scheme"
  assumes "new_request_locked env expires d agent job_id gen name job task db = Inr (c, db')"
    and "draft_request svc H policy job_id gen name args rh ah = Inr d"
  shows "plain_keeps H db db'"
proof -
  obtain device a ty payload db2 payload2 where
    i: "insert_capability_request (drafted_row d job agent job_id gen name device (ae_id (a :: audit_row)) (re_clock env) expires)
      (snd (capability_audit env ty payload ''agent'' agent (aj_task_id job) db)) = Inr db2"
    and e: "capability_enqueue env (drafted_row d job agent job_id gen name device (ae_id a) (re_clock env) expires)
      ''iphone.capabilities'' ''capability_requested'' payload2 ''requested'' db2 = Inr db'"
    using assms(1) unfolding new_request_locked_def Let_def case_prod_beta and_then_Inr_iff prod.inject sum.inject
    by (elim exE conjE) (rule that, assumption, simp only:)
  have "plain_keeps H db (snd (capability_audit env ty payload ''agent'' agent (aj_task_id job) db))"
    by (rule plain_frame) (rule capability_audit_frame)
  also have "plain_keeps H \<dots> db2"
    by (rule plain_insert_request [OF i]) (rule draft_bound [OF assms(2)])
  also have "plain_keeps H db2 db'"
    by (rule plain_frame) (rule capability_enqueue_frame [OF e])
  finally show ?thesis .
qed

lemma create_request_keeps:
  fixes db :: "'z capability_db_scheme"
  assumes "create_request_locked benv fresh clk d agent job_id token lid gen name db = Inr (c, db')"
    and "draft_request svc H policy job_id gen name args rh ah = Inr d"
  shows "plain_keeps H db db'"
proof -
  obtain t expires job task where c: "(case open_request (cd_fingerprint d) db of
      Some existing \<Rightarrow> Inr (Existing_Request existing, db)
    | None \<Rightarrow> new_request_locked (capability_env benv fresh t) expires d agent job_id gen name job task db) = Inr (c, db')"
    using assms(1) unfolding create_request_locked_def and_then_Inr_iff case_prod_beta by (elim exE conjE) (rule that)
  then show ?thesis
    using new_request_keeps [OF _ assms(2)] by (cases "open_request (cd_fingerprint d) db") auto
qed

lemma rotate_grant_keeps:
  fixes db :: "'z capability_db_scheme"
  assumes "rotate_grant env r device h expiry hex db = Inr db'"
  shows "plain_keeps H db db'"
proof -
  obtain g where g: "fetchone (sql_select (\<lambda>g. cg_request_id g = cr_id r \<and> cg_device_id g = device) (capability_grants db)) = Some g"
    using assms by (auto simp: rotate_grant_def capability_conflict_def split: option.split_asm)
  let ?db1 = "db\<lparr>capability_grants := sql_update (\<lambda>x. cg_id x = cg_id g \<and> cg_consumed_at x = None)
    (\<lambda>x. x\<lparr>cg_token_hash := h, cg_issued_at := re_now env, cg_expires_at := expiry\<rparr>) (capability_grants db)\<rparr>"
  have "plain_keeps H db ?db1"
    by (rule plain_update_grants) (simp add: grant_fixed_def)
  also have "plain_keeps H ?db1 db'"
    by (rule plain_frame, rule notify_frame)
      (use assms in \<open>simp add: rotate_grant_def g Let_def capability_conflict_def split: if_split_asm\<close>)
  finally show ?thesis .
qed

lemma record_decision_event:
  fixes db :: "'z capability_db_scheme"
  assumes "record_capability_decision env r ''approved'' device note db = Inr db'" and "device = cr_device_id r"
  shows "capability_frame db db'" "approved_by_device r db'"
proof -
  let ?payload = "JObj [(''request_id'', JStr (cr_id r)), (''approval_id'', JStr (cr_approval_id r)), (''decision'', JStr ''approved''),
    (''user_note_present'', JBool (or_empty note \<noteq> []))]"
  let ?db1 = "snd (capability_audit env ''iphone.capability.approval_decided'' ?payload ''device'' device (cr_task_id r) db)"
  obtain to' ty p s where e: "capability_enqueue env r to' ty p s ?db1 = Inr db'"
    using assms(1) unfolding record_capability_decision_def by blast
  show "capability_frame db db'" by (rule notify_frame [OF e])
  have "\<exists>a \<in> set (audit_events ?db1). approval_event r a"
    by (auto simp: capability_audit_def append_audit_event_def Let_def approval_event_def assms(2))
  then show "approved_by_device r db'"
    using capability_enqueue_frame [OF e] unfolding approved_by_device_def capability_frame_def by blast
qed

lemma first_grant_keeps:
  fixes db :: "'z capability_db_scheme"
  assumes run: "first_grant env r device h expiry hex note db = Inr db'"
    and r: "r \<in> set (capability_requests db)" "cr_device_id r = device"
  shows "operation_keeps H db db'"
proof -
  define g where "g = \<lparr>cg_id = ''icg_'' @ hex, cg_request_id = cr_id r, cg_device_id = device,
        cg_capability_name = cr_capability_name r, cg_approval_id = cr_approval_id r, cg_token_hash = h,
        cg_action_digest = cr_action_digest r, cg_issued_at = re_now env, cg_expires_at = expiry, cg_consumed_at = None\<rparr>"
  obtain db1 db2 where i: "insert_grant g db = Inr db1"
    and s: "set_request_status (cr_id r) ''waiting_approval'' (\<lambda>x. x\<lparr>cr_status := ''approved''\<rparr>)
      ''capability request changed during authorization'' db1 = Inr db2"
    and d: "record_capability_decision env r ''approved'' device note db2 = Inr db'"
    using run unfolding first_grant_def g_def [symmetric] by (auto simp only: and_then_Inr_iff)
  note ev = record_decision_event [OF d r(2) [symmetric]]
  have k1: "statement_keeps H db db1" by (rule insert_grant_keeps [OF i])
  have "statement_keeps H db1 db2"
    by (rule set_request_status_keeps [OF s]) (simp add: request_fixed_def capability_edge.approve)
  then have k2: "statement_keeps H db1 db'"
    by (rule statement_keeps_trans) (rule capability_frame_keeps [OF ev(1)])
  have k: "statement_keeps H db db'" by (rule statement_keeps_trans [OF k1 k2])
  have gs: "capability_grants db' = capability_grants db @ [g]"
    using i set_request_status_grants [OF s] ev(1)
    by (auto simp: insert_grant_def capability_frame_def split: if_split_asm)
  have "grants_approved db'" if keys: "capability_keys db" and ok: "grants_approved db"
  proof -
    have "row_by cr_id (cr_id r) (capability_requests db) = Some r"
      using keys by (intro row_by_unique r(1)) (simp add: capability_keys_def)
    then obtain r' where r': "row_by cr_id (cr_id r) (capability_requests db') = Some r'" "request_fixed r' = request_fixed r"
      using k unfolding statement_keeps_def requests_evolve_def by blast
    have "approved_by_device r' db'"
      using ev(2) approval_event_fixed [OF r'(2)] unfolding approved_by_device_def by blast
    then have "approved_grant db' g"
      unfolding approved_grant_def using r'(1) r(2) request_fixedD [OF r'(2)] by (simp add: g_def)
    then show ?thesis
      using ok approved_grant_keeps [OF k] unfolding grants_approved_def gs by auto
  qed
  then show ?thesis using k by (simp add: operation_keeps_def)
qed

lemma authorize_keeps:
  fixes db :: "'z capability_db_scheme"
  assumes run: "authorize_locked benv parse fresh svc clk secret ghex rhex i device decision note db = Inr (res, db')"
  shows "operation_keeps H db db'"
proof -
  obtain t where t: "capability_now clk = Inr t"
    using run unfolding authorize_locked_def and_then_Inr_iff by blast
  obtain r where r: "fetchone (sql_select (\<lambda>r. cr_id r = i \<and> cr_device_id r = device) (capability_requests db)) = Some r"
    using run by (auto simp: authorize_locked_def t Let_def capability_conflict_def split: option.split_asm)
  then have mem: "r \<in> set (capability_requests db)" "cr_device_id r = device" by (auto dest: fetchone_select_Some)
  let ?env = "capability_env benv fresh t"
  let ?denied = "db\<lparr>capability_requests := sql_update (\<lambda>x. cr_id x = i \<and> cr_status x = ''waiting_approval'')
    (\<lambda>x. x\<lparr>cr_status := ''denied'', cr_completed_at := Some (isoformat t)\<rparr>) (capability_requests db)\<rparr>"
  have deny: "plain_keeps H db ?denied"
    by (rule plain_same_grants, rule update_requests_keeps) (auto simp: request_fixed_def capability_edge.deny)
  consider (expired) "expire_request_locked ?env r db = Inr db'"
    | (inactive) "cancel_request_locked ?env r ''requesting worker lease is no longer active'' db = Inr db'"
    | (denied) "record_capability_decision ?env r ''denied'' device note ?denied = Inr db'"
    | (rotated) h expiry where "rotate_grant ?env r device h expiry rhex db = Inr db'"
    | (granted) h expiry where "first_grant ?env r device h expiry ghex note db = Inr db'"
    using run unfolding authorize_locked_def t and_then.simps Let_def r option.case
    by (auto simp only: and_then_Inr_iff ended_with_Inr capability_conflict_def sum.distinct sum.inject prod.inject
        split: if_split_asm)
  then show ?thesis
  proof cases
    case denied
    then show ?thesis
      unfolding record_capability_decision_def
      by (intro plain_operation plain_keeps_trans [OF deny] plain_frame) (rule notify_frame)
  qed (auto intro: plain_operation expire_request_keeps cancel_request_keeps rotate_grant_keeps first_grant_keeps [OF _ mem])
qed

lemma consume_keeps:
  fixes db :: "'z capability_db_scheme"
  assumes run: "consume_locked benv fresh clk i device grant digest db = Inr (res, db')"
  shows "plain_keeps H db db'"
proof -
  obtain t where t: "capability_now clk = Inr t"
    using run unfolding consume_locked_def and_then_Inr_iff by blast
  obtain r g where rg: "granted_request i (grant_hash (env_sha256 benv) grant) db = Some (r, g)"
    using run by (auto simp: consume_locked_def t Let_def capability_conflict_def split: option.split_asm)
  let ?env = "capability_env benv fresh t"
  let ?db1 = "db\<lparr>capability_grants := sql_update (\<lambda>x. cg_id x = cg_id g \<and> cg_consumed_at x = None \<and> isoformat t < cg_expires_at x)
    (\<lambda>x. x\<lparr>cg_consumed_at := Some (isoformat t)\<rparr>) (capability_grants db)\<rparr>"
  have k1: "plain_keeps H db ?db1" by (rule plain_update_grants) (simp add: grant_fixed_def)
  consider (expired) "expire_request_locked ?env r db = Inr db'"
    | (inactive) "cancel_request_locked ?env r ''requesting worker lease is no longer active'' db = Inr db'"
    | (consumed) db2 to' ty p s ty2 p2 at where "set_request_status i ''approved''
        (\<lambda>x. x\<lparr>cr_status := ''consumed'', cr_delivered_at := Some (isoformat t)\<rparr>)
        ''capability grant lost a concurrent transition'' ?db1 = Inr db2"
      "capability_enqueue ?env r to' ty p s (snd (capability_audit ?env ty2 p2 at device (cr_task_id r) db2)) = Inr db'"
    using run unfolding consume_locked_def t and_then.simps Let_def rg option.case prod.case
    by (auto simp only: and_then_Inr_iff ended_with_Inr capability_conflict_def sum.distinct sum.inject prod.inject
        split: if_split_asm) blast
  then show ?thesis
  proof cases
    case consumed
    have "plain_keeps H ?db1 db2"
      by (rule plain_set_status [OF consumed(1)]) (simp add: request_fixed_def capability_edge.consume)
    note plain_keeps_trans [OF k1 this]
    then show ?thesis by (rule plain_keeps_trans) (rule plain_frame [OF notify_frame [OF consumed(2)]])
  qed (auto intro: expire_request_keeps cancel_request_keeps)
qed

lemma accept_result_keeps:
  fixes db :: "'z capability_db_scheme"
  assumes "accept_result env r device status text db = Inr db'"
    and "status \<in> set [''completed'', ''cancelled'', ''denied'', ''failed'']"
  shows "plain_keeps H db db'"
proof -
  obtain x db1 f to' ty p s ty2 p2 at db2 where x: "insert_result x db = Inr db1"
    and f: "set_request_status (cr_id r) ''consumed'' f ''capability request changed during result'' db1 = Inr db2"
      "f = (\<lambda>x. x\<lparr>cr_status := status, cr_completed_at := Some (re_now env)\<rparr>)"
    and e: "capability_enqueue env r to' ty p s (snd (capability_audit env ty2 p2 at device (cr_task_id r) db2)) = Inr db'"
    using assms(1) unfolding accept_result_def and_then_Inr_iff by blast
  have "plain_keeps H db db1" by (rule plain_insert_result [OF x])
  also have "plain_keeps H db1 db2"
    by (rule plain_set_status [OF f(1)]) (simp add: f(2) request_fixed_def capability_edge.finish [OF assms(2)])
  also have "plain_keeps H db2 db'"
    by (rule plain_frame [OF notify_frame [OF e]])
  finally show ?thesis .
qed

lemma submit_keeps:
  fixes db :: "'z capability_db_scheme"
  assumes run: "submit_result_locked benv repr fresh clk i device grant digest result db = Inr (res, db')"
  shows "plain_keeps H db db'"
proof -
  obtain t where t: "capability_now clk = Inr t"
    using run unfolding submit_result_locked_def and_then_Inr_iff by blast
  obtain r g where rg: "granted_request i (grant_hash (env_sha256 benv) grant) db = Some (r, g)"
    using run by (auto simp: submit_result_locked_def t Let_def capability_conflict_def split: option.split_asm)
  let ?env = "capability_env benv fresh t" and ?status = "dict_text repr ''status'' result"
  consider (same) "db' = db" | (expired) "expire_request_locked ?env r db = Inr db'"
    | (inactive) "cancel_request_locked ?env r ''requesting worker lease is no longer active'' db = Inr db'"
    | (accepted) "?status \<in> set [''completed'', ''cancelled'', ''denied'', ''failed'']"
      "accept_result ?env r device ?status (json_dumps (JObj result)) db = Inr db'"
    using run unfolding submit_result_locked_def t and_then.simps Let_def rg option.case prod.case
    by (auto simp only: and_then_Inr_iff ended_with_Inr capability_conflict_def sum.distinct sum.inject prod.inject
        split: if_split_asm)
  then show ?thesis
    by cases (auto intro: expire_request_keeps cancel_request_keeps accept_result_keeps)
qed

lemma expire_batch_keeps:
  fixes db :: "'z capability_db_scheme"
  shows "plain_keeps H db (snd (snd (expire_batch benv lsvc fresh t limit m fence db)))"
proof -
  have "plain_keeps H db db'" if "for_each (expire_request_locked (capability_env benv fresh t)) rows db = Inr db'" for rows db'
    by (rule for_each_invariant [where P = "plain_keeps H db", OF that]) (auto intro: plain_keeps_trans expire_request_keeps)
  then show ?thesis
    by (auto simp: expire_batch_def Let_def split: prod.split sum.split)
qed

lemma committed_keeps:
  assumes "\<And>res db'. body db = Inr (res, db') \<Longrightarrow> operation_keeps H db db'"
  shows "operation_keeps H db (snd (committed body db))"
  using assms by (auto simp: committed_def split: sum.split prod.split)

section \<open>Runs\<close>

text \<open>
  One transaction of the service, of the lease reaper on the requests of a job it takes back, or any other
  that leaves the capability tables alone.
\<close>

inductive capability_step :: "board_env \<Rightarrow> 'z capability_db_scheme \<Rightarrow> 'z capability_db_scheme \<Rightarrow> bool" for benv where
  create: "draft_request svc (env_sha256 benv) policy job_id gen name args rh ah = Inr d \<Longrightarrow>
    capability_step benv db (snd (transaction (create_request_locked benv fresh clk d agent job_id token lid gen name) db))"
| authorize: "capability_step benv db
    (snd (committed (authorize_locked benv parse fresh svc clk secret ghex rhex i device decision note) db))"
| consume: "capability_step benv db (snd (committed (consume_locked benv fresh clk i device grant digest) db))"
| submit: "capability_step benv db (snd (committed (submit_result_locked benv repr fresh clk i device grant digest result) db))"
| expire: "capability_step benv db
    (snd (snd (expire_batch benv lsvc fresh t limit (m :: 'z capability_db_scheme moment) fence db)))"
| reap: "cancel_capability env task agent r db = Inr db' \<Longrightarrow> capability_step benv db db'"
| other: "capability_frame db db' \<Longrightarrow> capability_step benv db db'"

lemma step_keeps: "capability_step benv db db' \<Longrightarrow> operation_keeps (env_sha256 benv) db db'"
proof (induction rule: capability_step.induct)
  case (create svc policy job_id gen name args rh ah d db fresh clk agent token lid)
  show ?case
    by (rule transaction_preserves) (auto intro: plain_operation create_request_keeps [OF _ create])
next
  case (other db db')
  then show ?case by (rule plain_operation [OF plain_frame])
next
  case (reap env task agent r db db')
  then show ?case by (rule plain_operation [OF reaper_cancel_keeps])
qed (auto intro: committed_keeps authorize_keeps plain_operation consume_keeps submit_keeps expire_batch_keeps)

lemma run_keeps: "(capability_step benv)\<^sup>*\<^sup>* db db' \<Longrightarrow> operation_keeps (env_sha256 benv) db db'"
  by (induction rule: rtranclp_induct) (auto intro: operation_keeps_trans step_keeps)

lemma run_requests:
  assumes "(capability_step benv)\<^sup>*\<^sup>* db db'" and "row_by cr_id i (capability_requests db) = Some r"
  obtains r' where "row_by cr_id i (capability_requests db') = Some r'" "request_fixed r' = request_fixed r"
    "capability_path (cr_status r) (cr_status r')"
  using run_keeps [OF assms(1)] assms(2) unfolding operation_keeps_def statement_keeps_def requests_evolve_def by blast

text \<open>
  C31. A request lives the life of the machine \<open>capability_edge\<close>: over every interleaving of the operations
  with the reaper and other processes it stays in the table, moves only along the edges, never leaves a
  terminal status, and keeps its device, capability, arguments, digest, approval and expiry.
\<close>

theorem request_refines_lifecycle:
  assumes "(capability_step benv)\<^sup>*\<^sup>* db db'" and "row_by cr_id i (capability_requests db) = Some r"
  shows "\<exists>r'. row_by cr_id i (capability_requests db') = Some r' \<and> capability_path (cr_status r) (cr_status r') \<and>
    (terminal_capability (cr_status r) \<longrightarrow> cr_status r' = cr_status r) \<and>
    request_fixed r' = request_fixed r"
proof -
  obtain r' where "row_by cr_id i (capability_requests db') = Some r'" "request_fixed r' = request_fixed r"
    "capability_path (cr_status r) (cr_status r')"
    by (rule run_requests [OF assms])
  then show ?thesis using terminal_is_final by (auto simp: terminal_capability_def)
qed

section \<open>Grants\<close>

lemma granted_request_Some:
  assumes "granted_request i h db = Some (r, g)"
  shows "r \<in> set (capability_requests db)" "cr_id r = i" "g \<in> set (capability_grants db)" "cg_request_id g = i"
    "cg_token_hash g = h"
  using fetchone_mem [OF assms [unfolded granted_request_def]] by auto

text \<open>With unique keys a request and its grant are found again by the secret.\<close>

lemma granted_request_unique:
  assumes "capability_keys db" and "row_by cr_id i (capability_requests db) = Some r"
    and "row_by cg_request_id i (capability_grants db) = Some g" and "cg_token_hash g = h"
  shows "granted_request i h db = Some (r, g)"
proof -
  have r: "r \<in> set (capability_requests db)" "cr_id r = i" using row_by_SomeD [OF assms(2)] by simp_all
  have g: "g \<in> set (capability_grants db)" "cg_request_id g = i" using row_by_SomeD [OF assms(3)] by simp_all
  let ?all = "concat (map (\<lambda>r. map (Pair r)
      (sql_select (\<lambda>g. cg_request_id g = cr_id r \<and> cg_token_hash g = h) (capability_grants db)))
    (sql_select (\<lambda>r. cr_id r = i) (capability_requests db)))"
  have mem: "(r, g) \<in> set ?all" using r g assms(4) by auto
  have only: "p = (r, g)" if "p \<in> set ?all" for p
  proof -
    obtain r' g' where p: "p = (r', g')" by (rule prod.exhaust)
    then have "r' \<in> set (capability_requests db)" "cr_id r' = cr_id r" "g' \<in> set (capability_grants db)"
      "cg_request_id g' = cg_request_id g" using that r(2) g(2) by auto
    then have "r' = r" "g' = g"
      using assms(1) r(1) g(1) distinct_key_eq [of cr_id "capability_requests db" r' r]
        distinct_key_eq [of cg_request_id "capability_grants db" g' g] by (simp_all add: capability_keys_def)
    then show ?thesis using p by simp
  qed
  obtain p where "fetchone ?all = Some p" using mem by (cases ?all) auto
  then show ?thesis using only [OF fetchone_mem] by (simp add: granted_request_def)
qed

text \<open>What a committed consumption found and did.\<close>

lemma consume_Inr:
  assumes "committed (consume_locked benv fresh clk i device grant digest) db = (Inr now, db')"
  obtains r g db2 env to' ty p s ty2 p2 at where
    "granted_request i (grant_hash (env_sha256 benv) grant) db = Some (r, g)"
    "grant_binding_matches r g device digest = Inr True" "cg_consumed_at g = None" "cr_status r = ''approved''"
    "now < cg_expires_at g" "request_job_is_active_locked r now db"
    "set_request_status i ''approved'' (\<lambda>x. x\<lparr>cr_status := ''consumed'', cr_delivered_at := Some now\<rparr>)
      ''capability grant lost a concurrent transition'' (db\<lparr>capability_grants := sql_update (\<lambda>x. cg_id x = cg_id g \<and>
        cg_consumed_at x = None \<and> now < cg_expires_at x) (\<lambda>x. x\<lparr>cg_consumed_at := Some now\<rparr>) (capability_grants db)\<rparr>) = Inr db2"
    "capability_enqueue env r to' ty p s (snd (capability_audit env ty2 p2 at device (cr_task_id r) db2)) = Inr db'"
proof -
  have run: "consume_locked benv fresh clk i device grant digest db = Inr (Inr now, db')"
    using assms by (auto simp: committed_def split: sum.split_asm)
  obtain t where t: "capability_now clk = Inr t"
    using run unfolding consume_locked_def and_then_Inr_iff by blast
  obtain r g where rg: "granted_request i (grant_hash (env_sha256 benv) grant) db = Some (r, g)"
    using run by (auto simp: consume_locked_def t Let_def capability_conflict_def split: option.split_asm)
  let ?env = "capability_env benv fresh t"
  have c: "grant_binding_matches r g device digest = Inr True" "cg_consumed_at g = None" "cr_status r = ''approved''"
    "\<not> cg_expires_at g \<le> isoformat t" "request_job_is_active_locked r (isoformat t) db"
    using run unfolding consume_locked_def t and_then.simps Let_def rg option.case prod.case
    by (auto simp only: and_then_Inr_iff ended_with_Inr capability_conflict_def sum.distinct sum.inject prod.inject
        split: if_split_asm)
  have c4: "(cg_expires_at g \<le> isoformat t) = False" and c5: "request_job_is_active_locked r (isoformat t) db = True"
    using c(4,5) by simp_all
  let ?hit = "\<lambda>x. cg_id x = cg_id g \<and> cg_consumed_at x = None \<and> isoformat t < cg_expires_at x"
  have "(if sql_rowcount ?hit (capability_grants db) \<noteq> 1
     then capability_conflict ''capability grant lost a concurrent transition''
     else and_then (set_request_status i ''approved'' (\<lambda>x. x\<lparr>cr_status := ''consumed'', cr_delivered_at := Some (isoformat t)\<rparr>)
         ''capability grant lost a concurrent transition'' (db\<lparr>capability_grants := sql_update ?hit
           (\<lambda>x. x\<lparr>cg_consumed_at := Some (isoformat t)\<rparr>) (capability_grants db)\<rparr>)) (\<lambda>db2.
       and_then (capability_enqueue ?env r ''iphone.capabilities'' ''capability_consumed''
         (result_payload i ''consumed'') ''consumed''
         (snd (capability_audit ?env ''iphone.capability.grant_consumed''
           (JObj [(''request_id'', JStr i), (''action_digest'', JStr digest)])
           ''device'' device (cr_task_id r) db2))) (\<lambda>db3.
       Inr (Inr (isoformat t) :: py_error + string, db3)))) = Inr (Inr now, db')"
    using run unfolding consume_locked_def t and_then.simps Let_def rg option.case prod.case c(1-3) c4 c5
      simp_thms if_True if_False .
  then obtain db2 where "set_request_status i ''approved'' (\<lambda>x. x\<lparr>cr_status := ''consumed'', cr_delivered_at := Some (isoformat t)\<rparr>)
         ''capability grant lost a concurrent transition'' (db\<lparr>capability_grants := sql_update ?hit
           (\<lambda>x. x\<lparr>cg_consumed_at := Some (isoformat t)\<rparr>) (capability_grants db)\<rparr>) = Inr db2"
    "capability_enqueue ?env r ''iphone.capabilities'' ''capability_consumed''
         (result_payload i ''consumed'') ''consumed''
         (snd (capability_audit ?env ''iphone.capability.grant_consumed''
           (JObj [(''request_id'', JStr i), (''action_digest'', JStr digest)])
           ''device'' device (cr_task_id r) db2)) = Inr db'" and now: "now = isoformat t"
    unfolding capability_conflict_def by (simp split: if_split_asm) (elim and_then_InrE, simp)
  then show ?thesis using rg c unfolding not_le now [symmetric] by (intro that)
qed

lemma binding_True:
  "grant_binding_matches r g device digest = Inr True \<Longrightarrow>
    cr_device_id r = device \<and> cg_device_id g = device \<and> cr_action_digest r = digest \<and> cg_action_digest g = digest"
  by (auto simp: grant_binding_matches_def and_then_Inr_iff dest!: compare_digest_True split: if_split_asm)

text \<open>The first row of its identifier, which is the only one.\<close>

definition capability_tables_wf :: "(string \<Rightarrow> string) \<Rightarrow> 'z capability_db_scheme \<Rightarrow> bool" where
  "capability_tables_wf H db \<longleftrightarrow> capability_keys db \<and> grants_approved db \<and>
    (\<forall>r \<in> set (capability_requests db). bound_request H r)"

lemma run_wf:
  assumes "(capability_step benv)\<^sup>*\<^sup>* db db'" and "capability_tables_wf (env_sha256 benv) db"
  shows "capability_tables_wf (env_sha256 benv) db'"
proof -
  note k = run_keeps [OF assms(1), unfolded operation_keeps_def statement_keeps_def]
  have "bound_request (env_sha256 benv) r" if "r \<in> set (capability_requests db')" for r
    using k assms(2) that bound_request_fixed unfolding only_bound_requests_def capability_tables_wf_def by blast
  then show ?thesis using k assms(2) by (simp add: capability_tables_wf_def)
qed

lemma empty_wf:
  "capability_requests db = [] \<Longrightarrow> capability_grants db = [] \<Longrightarrow> capability_results db = [] \<Longrightarrow> capability_tables_wf H db"
  by (simp add: capability_tables_wf_def capability_keys_def grants_approved_def sql_select_def)

text \<open>
  C29. A phone acts only on what its user approved: when a grant is consumed, in any state that any
  interleaving of the operations reaches from empty tables, the audit log holds the approval of exactly this
  request by the user of this device, the digest the phone presents is that of the request, its capability
  and its stored arguments, and the worker that asked still holds its lease under the generation it asked in.
\<close>

theorem consumed_grant_was_approved:
  assumes "capability_requests db0 = []" and "capability_grants db0 = []" and "capability_results db0 = []"
    and "(capability_step benv)\<^sup>*\<^sup>* db0 db"
    and "committed (consume_locked benv fresh clk i device grant digest) db = (Inr now, db')"
  shows "\<exists>r args. r \<in> set (capability_requests db) \<and> cr_id r = i \<and> cr_device_id r = device \<and> approved_by_device r db \<and>
    cr_arguments_json r = json_dumps (JObj args) \<and>
    digest = ''sha256:'' @ env_sha256 benv (json_dumps (action_json i (cr_capability_name r) args)) \<and>
    request_job_is_active_locked r now db"
proof -
  have wf: "capability_tables_wf (env_sha256 benv) db" by (rule run_wf [OF assms(4) empty_wf [OF assms(1-3)]])
  obtain r g where rg: "granted_request i (grant_hash (env_sha256 benv) grant) db = Some (r, g)"
    and b: "grant_binding_matches r g device digest = Inr True" and live: "request_job_is_active_locked r now db"
    by (rule consume_Inr [OF assms(5)])
  note m = granted_request_Some [OF rg]
  obtain r' where r': "row_by cr_id i (capability_requests db) = Some r'" "approved_by_device r' db"
    using wf m(3,4) unfolding capability_tables_wf_def grants_approved_def approved_grant_def by blast
  have "row_by cr_id (cr_id r) (capability_requests db) = Some r"
    using wf by (intro row_by_unique m(1)) (simp add: capability_tables_wf_def capability_keys_def)
  then have "r' = r" using r'(1) m(2) by simp
  moreover obtain args where "cr_arguments_json r = json_dumps (JObj args)"
    "cr_action_digest r = ''sha256:'' @ env_sha256 benv (json_dumps (action_json (cr_id r) (cr_capability_name r) args))"
    using wf m(1) unfolding capability_tables_wf_def bound_request_def by blast
  ultimately show ?thesis using r'(2) m(1,2) binding_True [OF b] live by (intro exI [of _ r] exI [of _ args]) simp
qed

lemma consume_consumes:
  fixes db :: "'z capability_db_scheme"
  assumes "committed (consume_locked benv fresh clk i device grant digest) db = (Inr now, db')"
  shows "\<forall>r \<in> set (capability_requests db'). cr_id r = i \<longrightarrow> cr_status r \<noteq> ''approved''"
    "row_by cr_id i (capability_requests db') \<noteq> None"
proof -
  obtain r g db2 env to' ty p s ty2 p2 at where rg: "granted_request i (grant_hash (env_sha256 benv) grant) db = Some (r, g)"
    and s: "set_request_status i ''approved'' (\<lambda>x. x\<lparr>cr_status := ''consumed'', cr_delivered_at := Some now\<rparr>)
      ''capability grant lost a concurrent transition'' (db\<lparr>capability_grants := sql_update (\<lambda>x. cg_id x = cg_id g \<and>
        cg_consumed_at x = None \<and> now < cg_expires_at x) (\<lambda>x. x\<lparr>cg_consumed_at := Some now\<rparr>) (capability_grants db)\<rparr>) = Inr db2"
    and e: "capability_enqueue env r to' ty p s (snd (capability_audit env ty2 p2 at device (cr_task_id r) db2)) = Inr db'"
    by (rule consume_Inr [OF assms])
  have rq: "capability_requests db' = sql_update (\<lambda>x. cr_id x = i \<and> cr_status x = ''approved'')
      (\<lambda>x. x\<lparr>cr_status := ''consumed'', cr_delivered_at := Some now\<rparr>) (capability_requests db)"
    using set_request_status_Inr [OF s] notify_frame [OF e] by (simp add: capability_frame_def)
  show "\<forall>r \<in> set (capability_requests db'). cr_id r = i \<longrightarrow> cr_status r \<noteq> ''approved''"
    unfolding rq by (rule sql_update_all) simp_all
  have "map cr_id (capability_requests db') = map cr_id (capability_requests db)"
    unfolding rq by (rule map_sql_update) simp
  then have "cr_id ` set (capability_requests db') = cr_id ` set (capability_requests db)"
    unfolding set_map [symmetric] by simp
  then show "row_by cr_id i (capability_requests db') \<noteq> None"
    using granted_request_Some(1,2) [OF rg] unfolding row_by_None_iff by auto
qed

text \<open>
  C30. A grant is for one use: after it has been consumed no consumption of the same request succeeds again,
  by any device, with any secret or digest, whatever is decided, rotated, expired, cancelled, submitted or
  asked for again in between.
\<close>

theorem grant_is_consumed_once:
  assumes "capability_tables_wf (env_sha256 benv) db"
    and "committed (consume_locked benv fresh clk i device grant digest) db = (Inr now, db1)"
    and "(capability_step benv)\<^sup>*\<^sup>* db1 db2"
  shows "fst (committed (consume_locked benv fresh2 clk2 i device2 grant2 digest2) db2) \<noteq> Inr now2"
proof
  assume "fst (committed (consume_locked benv fresh2 clk2 i device2 grant2 digest2) db2) = Inr now2"
  then obtain db3 where again: "committed (consume_locked benv fresh2 clk2 i device2 grant2 digest2) db2 = (Inr now2, db3)"
    by (metis prod.collapse)
  have run1: "capability_step benv db db1"
    using capability_step.consume [of benv db fresh clk i device grant digest] assms(2) by simp
  have wf1: "capability_tables_wf (env_sha256 benv) db1"
    using run_wf [OF r_into_rtranclp [of "capability_step benv", OF run1] assms(1)] .
  note wf2 = run_wf [OF assms(3) wf1]
  obtain r1 where r1: "row_by cr_id i (capability_requests db1) = Some r1"
    using consume_consumes(2) [OF assms(2)] by blast
  obtain r g where rg: "granted_request i (grant_hash (env_sha256 benv) grant) db = Some (r, g)" "cr_status r = ''approved''"
    by (rule consume_Inr [OF assms(2)])
  have r: "row_by cr_id i (capability_requests db) = Some r"
    using row_by_unique [of cr_id "capability_requests db" r] assms(1) granted_request_Some [OF rg(1)]
    by (simp add: capability_tables_wf_def capability_keys_def)
  have "capability_path ''approved'' (cr_status r1)"
    by (rule run_requests [OF r_into_rtranclp [of "capability_step benv", OF run1] r]) (use r1 rg(2) in simp)
  moreover have "cr_status r1 \<noteq> ''approved''"
    using consume_consumes(1) [OF assms(2)] row_by_SomeD [OF r1] by blast
  ultimately have later: "cr_status r1 = ''consumed'' \<or> cr_status r1 \<in> set terminal_capability_statuses"
    by (rule path_from_approved)
  obtain r2 where r2: "row_by cr_id i (capability_requests db2) = Some r2" "capability_path (cr_status r1) (cr_status r2)"
    by (rule run_requests [OF assms(3) r1])
  obtain r3 g3 where rg3: "granted_request i (grant_hash (env_sha256 benv) grant2) db2 = Some (r3, g3)" "cr_status r3 = ''approved''"
    by (rule consume_Inr [OF again])
  have "r3 = r2"
    using row_by_unique [of cr_id "capability_requests db2" r3] wf2 granted_request_Some [OF rg3(1)] r2(1)
    by (simp add: capability_tables_wf_def capability_keys_def)
  then have "capability_path (cr_status r1) ''approved''" using r2(2) rg3(2) by simp
  then have "''approved'' = ''consumed'' \<or> ''approved'' \<in> set terminal_capability_statuses"
    using later path_from_consumed terminal_is_final by metis
  then show False by (simp add: terminal_capability_statuses_def)
qed

end
