(* ===== verification/IPhone_Results.thy ===== *)
theory IPhone_Results
  imports IPhone_Safety
begin

text \<open>
  Results of capabilities: what the phone submits is what the worker polls, what a repeated submission is
  answered with, and that the expiry before every read ends.
\<close>

section \<open>Submitting\<close>

text \<open>What an accepted submission found and did.\<close>

lemma submit_accepted:
  assumes "committed (submit_result_locked benv repr fresh clk i device grant digest result) db = (Inr Result_Accepted, db')"
  obtains t r g where "granted_request i (grant_hash (env_sha256 benv) grant) db = Some (r, g)"
    "grant_binding_matches r g device digest = Inr True" "cg_consumed_at g \<noteq> None"
    "dict_text repr ''name'' result = cr_capability_name r"
    "dict_text repr ''status'' result \<in> set [''completed'', ''cancelled'', ''denied'', ''failed'']"
    "cr_status r = ''consumed''"
    "accept_result (capability_env benv fresh t) r device (dict_text repr ''status'' result) (json_dumps (JObj result)) db = Inr db'"
proof -
  have run: "submit_result_locked benv repr fresh clk i device grant digest result db = Inr (Inr Result_Accepted, db')"
    using assms by (auto simp: committed_def split: sum.split_asm)
  obtain t where t: "capability_now clk = Inr t"
    using run unfolding submit_result_locked_def and_then_Inr_iff by blast
  obtain r g where rg: "granted_request i (grant_hash (env_sha256 benv) grant) db = Some (r, g)"
    using run by (auto simp: submit_result_locked_def t Let_def capability_conflict_def split: option.split_asm)
  have "grant_binding_matches r g device digest = Inr True \<and> cg_consumed_at g \<noteq> None \<and>
    dict_text repr ''name'' result = cr_capability_name r \<and>
    dict_text repr ''status'' result \<in> set [''completed'', ''cancelled'', ''denied'', ''failed''] \<and> cr_status r = ''consumed'' \<and>
    accept_result (capability_env benv fresh t) r device (dict_text repr ''status'' result) (json_dumps (JObj result)) db = Inr db'"
    using run unfolding submit_result_locked_def t and_then.simps Let_def rg option.case prod.case
    by (auto simp only: and_then_Inr_iff ended_with_Inr capability_conflict_def sum.distinct sum.inject prod.inject
        result_receipt.distinct split: if_split_asm)
  then show ?thesis using rg by - (elim conjE, rule that)
qed

lemma accept_result_Inr:
  fixes db :: "'z capability_db_scheme"
  assumes "accept_result env r device status text db = Inr db'"
    and "row_by cr_id (cr_id r) (capability_requests db) = Some r" and "cr_status r = ''consumed''"
  obtains x r' where "stored_result (cr_id r) db' = Some x" "cx_result_json x = text"
    "row_by cr_id (cr_id r) (capability_requests db') = Some r'" "cr_status r' = status" "request_fixed r' = request_fixed r"
proof -
  obtain x db1 f to' ty p s ty2 p2 at db2 where x: "insert_result x db = Inr db1" "cx_request_id x = cr_id r" "cx_result_json x = text"
    and f: "set_request_status (cr_id r) ''consumed'' f ''capability request changed during result'' db1 = Inr db2"
      "f = (\<lambda>x. x\<lparr>cr_status := status, cr_completed_at := Some (re_now env)\<rparr>)"
    and e: "capability_enqueue env r to' ty p s (snd (capability_audit env ty2 p2 at device (cr_task_id r) db2)) = Inr db'"
    using assms(1) unfolding accept_result_def and_then_Inr_iff by fastforce
  have db1: "db1 = db\<lparr>capability_results := capability_results db @ [x]\<rparr>" "stored_result (cr_id r) db = None"
    using x(1,2) by (auto simp: insert_result_def split: if_split_asm)
  note db2 = set_request_status_Inr [OF f(1)] and fr = notify_frame [OF e, unfolded capability_frame_def]
  have "stored_result (cr_id r) db' = Some x"
    using fr db1(2) x(2) unfolding stored_result_def db2 db1(1) fetchone_None_iff by simp (simp add: sql_select_def)
  moreover have "row_by cr_id (cr_id r) (capability_requests db') = Some (f r)"
    using fr assms(2,3) unfolding db2 db1(1) by (simp add: row_by_sql_update f(2))
  ultimately show ?thesis
    by (intro that [of x "f r"]) (simp_all add: x(3) f(2) request_fixed_def)
qed

lemma wf_request_row:
  "capability_tables_wf H db \<Longrightarrow> r \<in> set (capability_requests db) \<Longrightarrow> row_by cr_id (cr_id r) (capability_requests db) = Some r"
  by (intro row_by_unique) (simp_all add: capability_tables_wf_def capability_keys_def)

lemma submitted_status_terminal:
  "s \<in> set [''completed'', ''cancelled'', ''denied'', ''failed''] \<Longrightarrow> s \<in> set terminal_capability_statuses"
  by (auto simp: terminal_capability_statuses_def)

text \<open>After an accepted submission the result is stored and the request ended, in every later state.\<close>

lemma accepted_stays:
  fixes db :: "'z capability_db_scheme"
  assumes "capability_tables_wf (env_sha256 benv) db"
    and "committed (submit_result_locked benv repr fresh clk i device grant digest result) db = (Inr Result_Accepted, db1)"
    and "(capability_step benv)\<^sup>*\<^sup>* db1 db2"
  obtains r g x r2 g2 where "capability_tables_wf (env_sha256 benv) db2"
    "grant_binding_matches r g device digest = Inr True" "stored_result i db2 = Some x" "cx_result_json x = json_dumps (JObj result)"
    "row_by cr_id i (capability_requests db2) = Some r2" "request_fixed r2 = request_fixed r"
    "cr_status r2 = dict_text repr ''status'' result" "cr_status r2 \<in> set terminal_capability_statuses"
    "dict_text repr ''name'' result = cr_capability_name r"
    "dict_text repr ''status'' result \<in> set [''completed'', ''cancelled'', ''denied'', ''failed'']"
    "row_by cg_request_id i (capability_grants db2) = Some g2" "grant_fixed g2 = grant_fixed g"
    "cg_consumed_at g2 \<noteq> None" "cg_token_hash g2 = grant_hash (env_sha256 benv) grant"
proof -
  obtain t r g where rg: "granted_request i (grant_hash (env_sha256 benv) grant) db = Some (r, g)"
    and b: "grant_binding_matches r g device digest = Inr True" "cg_consumed_at g \<noteq> None"
      "dict_text repr ''name'' result = cr_capability_name r"
    and st: "dict_text repr ''status'' result \<in> set [''completed'', ''cancelled'', ''denied'', ''failed'']" "cr_status r = ''consumed''"
    and acc: "accept_result (capability_env benv fresh t) r device (dict_text repr ''status'' result) (json_dumps (JObj result)) db = Inr db1"
    by (rule submit_accepted [OF assms(2)])
  note m = granted_request_Some [OF rg]
  have row: "row_by cr_id (cr_id r) (capability_requests db) = Some r" by (rule wf_request_row [OF assms(1) m(1)])
  obtain x r1 where x: "stored_result (cr_id r) db1 = Some x" "cx_result_json x = json_dumps (JObj result)"
    and r1: "row_by cr_id (cr_id r) (capability_requests db1) = Some r1" "cr_status r1 = dict_text repr ''status'' result"
      "request_fixed r1 = request_fixed r"
    by (rule accept_result_Inr [OF acc row st(2)])
  have step: "capability_step benv db db1"
    using capability_step.submit [of benv db repr fresh clk i device grant digest result] assms(2) by simp
  have all: "(capability_step benv)\<^sup>*\<^sup>* db db2" by (rule converse_rtranclp_into_rtranclp [OF step assms(3)])
  note k = run_keeps [OF all, unfolded operation_keeps_def statement_keeps_def]
    and k12 = run_keeps [OF assms(3), unfolded operation_keeps_def statement_keeps_def]
  obtain r2 where r2: "row_by cr_id (cr_id r) (capability_requests db2) = Some r2" "request_fixed r2 = request_fixed r1"
      "capability_path (cr_status r1) (cr_status r2)"
    by (rule run_requests [OF assms(3) r1(1)])
  have s2: "cr_status r2 = cr_status r1"
    using terminal_is_final [OF r2(3)] submitted_status_terminal [OF st(1)] r1(2) by simp
  have "row_by cg_request_id i (capability_grants db) = Some g"
    using assms(1) m(3,4) row_by_unique [of cg_request_id "capability_grants db" g]
    by (simp add: capability_tables_wf_def capability_keys_def)
  then obtain g2 where g2: "row_by cg_request_id i (capability_grants db2) = Some g2" "grant_fixed g2 = grant_fixed g"
      "cg_consumed_at g2 = cg_consumed_at g" "cg_token_hash g2 = cg_token_hash g"
    using k b(2) unfolding grants_evolve_def by blast
  have "stored_result i db2 = Some x" using k12 x(1) m(2) unfolding results_evolve_def by blast
  then show ?thesis
    using run_wf [OF all assms(1)] b x(2) r2(1) s2 r1(2) g2 m(2,5) submitted_status_terminal [OF st(1)] st(1)
      trans [OF r2(2) r1(3)]
    by (intro that [of r g x r2 g2]) (simp_all del: set_simps json_dumps.simps)
qed

section \<open>Polling\<close>

text \<open>
  C32. The result a phone submits is the result the worker gets: from an accepted submission on, whatever
  happens in between, every poll that is answered reports the status submitted and the value submitted,
  as JSON printing and parsing keep it.
\<close>

theorem submitted_result_is_polled:
  assumes "capability_tables_wf (env_sha256 benv) db"
    and "committed (submit_result_locked benv repr fresh clk i device grant digest result) db = (Inr Result_Accepted, db1)"
    and "(capability_step benv)\<^sup>*\<^sup>* db1 db2" and "json_dict (JObj result)"
    and "poll_locked benv clk2 i agent_id job_id token lease_id gen db2 = Inr v"
  shows "\<exists>fields. v = JObj fields \<and> map_of fields ''result'' = Some (json_sort (JObj result)) \<and>
    map_of fields ''status'' = Some (JStr (dict_text repr ''status'' result))"
proof -
  obtain r g x r2 g2 where wf: "capability_tables_wf (env_sha256 benv) db2"
    and x: "stored_result i db2 = Some x" "cx_result_json x = json_dumps (JObj result)"
    and r2: "row_by cr_id i (capability_requests db2) = Some r2" "cr_status r2 = dict_text repr ''status'' result"
    by (rule accepted_stays [OF assms(1-3)])
  obtain t where t: "capability_now clk2 = Inr t" using assms(5) unfolding poll_locked_def and_then_Inr_iff by blast
  let ?sel = "sql_select (\<lambda>r. cr_id r = i \<and> cr_requesting_job_id r = job_id \<and> cr_requesting_agent_id r = agent_id \<and>
    cr_lease_generation r = gen) (capability_requests db2)"
  obtain r3 where r3: "fetchone ?sel = Some r3"
    using assms(5) by (auto simp: poll_locked_def t and_then_Inr_iff capability_conflict_def split: option.split_asm)
  then have "r3 \<in> set (capability_requests db2)" "cr_id r3 = i" by (auto dest: fetchone_select_Some)
  then have "r3 = r2" using wf_request_row [OF wf, of r3] r2(1) by simp
  moreover have "json_dumps (JObj result) \<noteq> []" using opens_dumps [of "JObj result"] by (auto simp: opens_def)
  moreover have "decode_json (json_dumps (JObj result)) = Inr (json_sort (JObj result))"
    by (simp add: decode_json_def json_loads_dumps [OF assms(4)] del: json_dumps.simps)
  moreover have "stored_result (cr_id r3) db2 = Some x" using x(1) \<open>cr_id r3 = i\<close> by simp
  ultimately have "v = JObj [(''request_id'', JStr i), (''capability_name'', JStr (cr_capability_name r2)),
      (''status'', JStr (cr_status r2)), (''result'', json_sort (JObj result)), (''created_at'', JStr (cr_created_at r2)),
      (''expires_at'', JStr (cr_expires_at r2)), (''completed_at'', json_or_null (cr_completed_at r2))]"
    using assms(5) r3 x(2)
    by (auto simp: poll_locked_def t and_then_Inr_iff simp del: json_dumps.simps json_sort.simps)
  then show ?thesis using r2(2) by (simp del: json_sort.simps)
qed

text \<open>
  C33. A submission repeated by the phone is answered as a duplicate, whatever happened since, only if the
  text of the result is ASCII: otherwise the constant-time comparison with the stored text refuses its
  arguments, and the repetition fails with \<open>TypeError\<close>. Either way nothing changes.
\<close>

theorem repeated_result_fails_outside_ascii:
  assumes "capability_tables_wf (env_sha256 benv) db"
    and "committed (submit_result_locked benv repr fresh clk i device grant digest result) db = (Inr Result_Accepted, db1)"
    and "(capability_step benv)\<^sup>*\<^sup>* db1 db2" and "dt_aware clk2"
  shows "committed (submit_result_locked benv repr fresh2 clk2 i device grant digest result) db2 =
    (if is_ascii (json_dumps (JObj result)) then Inr Result_Duplicate
     else Inl (TypeError ''comparing strings with non-ASCII characters is not supported''), db2)"
proof -
  obtain r g x r2 g2 where wf: "capability_tables_wf (env_sha256 benv) db2"
    and b: "grant_binding_matches r g device digest = Inr True"
    and x: "stored_result i db2 = Some x" "cx_result_json x = json_dumps (JObj result)"
    and r2: "row_by cr_id i (capability_requests db2) = Some r2" "request_fixed r2 = request_fixed r"
      "cr_status r2 \<in> set terminal_capability_statuses" "dict_text repr ''name'' result = cr_capability_name r"
    and st: "dict_text repr ''status'' result \<in> set [''completed'', ''cancelled'', ''denied'', ''failed'']"
    and g2: "row_by cg_request_id i (capability_grants db2) = Some g2" "grant_fixed g2 = grant_fixed g"
    "cg_consumed_at g2 \<noteq> None" "cg_token_hash g2 = grant_hash (env_sha256 benv) grant"
    by (rule accepted_stays [OF assms(1-3)])
  have rg: "granted_request i (grant_hash (env_sha256 benv) grant) db2 = Some (r2, g2)"
    using wf by (intro granted_request_unique [OF _ r2(1) g2(1,4)]) (simp add: capability_tables_wf_def)
  have bound: "grant_binding_matches r2 g2 device digest = Inr True"
    using b unfolding grant_binding_matches_def request_fixedD(6,7,10,11) [OF r2(2)] grant_fixedD [OF g2(2)] .
  have now: "capability_now clk2 = Inr (dt_instant clk2)" using assms(4) by (simp add: capability_now_def)
  have unspent: "(cg_consumed_at g2 = None) = False" using g2(3) by simp
  have id: "cr_id r2 = i" using row_by_SomeD [OF r2(1)] by simp
  have same: "compare_digest (json_dumps (JObj result)) (json_dumps (JObj result)) =
      (if is_ascii (json_dumps (JObj result)) then Inr True
       else Inl (TypeError ''comparing strings with non-ASCII characters is not supported''))"
    by (simp add: compare_digest_def del: json_dumps.simps)
  show ?thesis
    using bound r2(3,4) st request_fixedD(7) [OF r2(2)]
    unfolding committed_def submit_result_locked_def now and_then.simps Let_def rg option.case prod.case
    by (simp add: id x same unspent del: json_dumps.simps set_simps)
qed

section \<open>The expiry ends\<close>

lemma for_each_length_bound: "length (examined_requests budget fence rows) \<le> length rows"
  by (simp add: examined_requests_def split: reap_fence.split)

lemma examined_some: "rows \<noteq> [] \<Longrightarrow> 1 \<le> length (examined_requests budget fence rows)"
  by (cases rows) (simp_all add: examined_requests_def split: reap_fence.split)

lemma expire_batch_Inr:
  assumes "expire_batch benv lsvc fresh t limit m fence db = (Inr (n, go_on), fence2, db2)"
  shows "n \<le> limit" "go_on \<Longrightarrow> 1 \<le> n"
proof -
  obtain fence1 where e: "n = length (examined_requests (mo_rows m) fence1 (due_requests (isoformat t) limit db))"
    "go_on \<Longrightarrow> due_requests (isoformat t) limit db \<noteq> []"
    using assms by (auto simp: expire_batch_def Let_def split: prod.split_asm sum.split_asm)
  have "length (due_requests (isoformat t) limit db) \<le> limit" by (simp add: due_requests_def)
  then show "n \<le> limit" using for_each_length_bound le_trans unfolding e(1) by blast
  show "1 \<le> n" if go_on using examined_some [OF e(2) [OF that]] unfolding e(1) .
qed

lemma expire_loop_returns:
  assumes "max_expirations - expired < fuel" and "expired \<le> max_expirations"
  shows "\<exists>res fence' db'. expire_loop fuel benv lsvc fresh ms t k expired fence db = Some (res, fence', db') \<and>
    (case res of Inl e \<Rightarrow> True | Inr n \<Rightarrow> n \<le> max_expirations)"
  using assms
proof (induction fuel arbitrary: k expired fence db)
  case 0
  then show ?case by simp
next
  case (Suc fuel)
  show ?case
  proof (cases "expired < max_expirations")
    case False
    then show ?thesis using Suc.prems by simp
  next
    case True
    obtain a fence1 db1 where rn: "renew_fence lsvc (ms k) fence (mo_others (ms k) db) = (a, fence1, db1)"
      by (rule prod_cases3)
    show ?thesis
    proof (cases a)
      case (Inl e)
      then show ?thesis using True rn by simp
    next
      case (Inr u)
      let ?limit = "min expiry_batch_size (max_expirations - expired)"
      obtain b fence2 db2 where ba: "expire_batch benv lsvc fresh t ?limit (ms (k + 1)) fence1 (mo_others (ms (k + 1)) db1) =
          (b, fence2, db2)" by (rule prod_cases3)
      show ?thesis
      proof (cases b)
        case Inl: (Inl e)
        then show ?thesis using True rn Inr ba by simp
      next
        case b: (Inr p)
        obtain n go_on where p: "p = (n, go_on)" by (rule prod.exhaust)
        note n = expire_batch_Inr [OF ba [unfolded b p]]
        have le: "expired + n \<le> max_expirations" using n(1) True by (simp only: min.bounded_iff) linarith
        show ?thesis
        proof (cases go_on)
          case False
          then show ?thesis using True rn Inr ba b p le by simp
        next
          case go: True
          have "max_expirations - (expired + n) < fuel" using Suc.prems n(2) [OF go] True by linarith
          from Suc.IH [OF this le, of "k + 2" fence2 db2] show ?thesis using True rn Inr ba b p go by simp
        qed
      qed
    qed
  qed
qed

lemma expire_requests_ends:
  "\<exists>res db'. expire_requests svc w p generation guard db = Some (res, db') \<and>
    (case res of Inl e \<Rightarrow> True | Inr n \<Rightarrow> n \<le> 250)"
proof -
  let ?ms = "cw_moments w p"
  obtain a db0 where a: "choose_expirer_fence svc generation guard (mo_fence1 (?ms 0)) (mo_others (?ms 0) db) = (a, db0)"
    by (rule prod.exhaust)
  show ?thesis
  proof (cases a)
    case (Inl e)
    then show ?thesis by (simp add: expire_requests_def Let_def a)
  next
    case (Inr chosen)
    show ?thesis
    proof (cases chosen)
      case None
      then show ?thesis using Inr by (simp add: expire_requests_def Let_def a)
    next
      case (Some fence)
      show ?thesis
      proof (cases "capability_now (mo_clock (?ms 0))")
        case Inl: (Inl e)
        then show ?thesis using Inr Some by (simp add: expire_requests_def Let_def a)
      next
        case now: (Inr t)
        obtain res fence' db1 where l: "expire_loop (max_expirations + 1) (cw_board w) (expirer_service svc (cw_lsvc w) fence)
            (cw_fresh w) ?ms t 1 0 fence db0 = Some (res, fence', db1)"
            "case res of Inl e \<Rightarrow> True | Inr n \<Rightarrow> n \<le> max_expirations"
          using expire_loop_returns [of 0 "max_expirations + 1" "cw_board w" "expirer_service svc (cw_lsvc w) fence"
            "cw_fresh w" ?ms t 1 fence db0] by auto
        then show ?thesis using Inr Some now
          by (cases res) (auto simp: expire_requests_def Let_def a max_expirations_def simp del: expire_loop.simps
              split: prod.split sum.split)
      qed
    qed
  qed
qed

lemma after_expiry_ends: "after_expiry svc w p read db \<noteq> None"
  using expire_requests_ends [of svc w p None None db] by (auto simp: after_expiry_def Let_def split: sum.split)

text \<open>
  C34. The expiry of requests ends, after at most 250 of them, whatever the leases, the clocks and the other
  processes do; so the reads that begin with it, of the phone and of the worker, return as well.
\<close>

theorem expiry_ends:
  "(\<exists>res db'. expire_requests svc w p generation guard db = Some (res, db') \<and>
      (case res of Inl e \<Rightarrow> True | Inr n \<Rightarrow> n \<le> 250)) \<and>
    poll_for_worker svc w2 i agent_id job_id token lease_id gen db2 \<noteq> None \<and>
    get_request_for_device svc w p i device include db \<noteq> None \<and> list_for_device svc w p device limit db \<noteq> None"
  unfolding poll_for_worker_def get_request_for_device_def list_for_device_def
  by (intro conjI expire_requests_ends after_expiry_ends)

end
