(* ===== verification/Job_Lease.thy ===== *)
theory Job_Lease
  imports Reaper_Refinement
begin

text \<open>
  How the other operations move a remote job: the writes of \<open>queue_job\<close>, \<open>claim\<close>, \<open>heartbeat\<close>,
  \<open>submit_result\<close> and of the cancellations (\<open>server/app/services/agent_dispatcher.py\<close>,
  \<open>swift_project_validation.py\<close>, \<open>state_service.py\<close>) on \<open>agent_jobs\<close> and \<open>tasks\<close>, each with the check of
  the lease before it. Which job an agent is offered, and what the payload and the result must
  satisfy, is not modelled: a step of \<open>job_step\<close> may happen whenever its own guards hold.
\<close>

section \<open>Queueing and claiming\<close>

definition job_active :: "job_status \<Rightarrow> bool" where
  "job_active s \<longleftrightarrow> s = Job_Queued \<or> s = Job_Claimed \<or> s = Job_Running"

definition new_job :: "string \<Rightarrow> string \<Rightarrow> string \<Rightarrow> string \<Rightarrow> int \<Rightarrow> string \<Rightarrow> job_row" where
  "new_job job_id task_id skill payload max_attempts now =
    \<lparr>aj_id = job_id, aj_task_id = task_id, aj_required_skill = skill, aj_payload_json = payload,
     aj_status = Job_Queued, aj_claimed_by = None, aj_claim_token = None, aj_lease_id = None,
     aj_lease_token_hash = None, aj_lease_expires_at = None, aj_lease_generation = 0, aj_result_json = None,
     aj_error = None, aj_created_at = now, aj_updated_at = now, aj_claimed_at = None, aj_heartbeat_at = None,
     aj_completed_at = None, aj_attempt_count = 0, aj_max_attempts = max_attempts, aj_last_agent_id = None,
     aj_last_failure_reason = None\<rparr>"

definition dispatch_conflict :: "string option \<Rightarrow> py_error + 'a \<Rightarrow> py_error + 'a" where
  "dispatch_conflict message r = (case r of
      Inl (DistributedStateConflict m) \<Rightarrow> Inl (AgentDispatchConflict (case message of None \<Rightarrow> m | Some w \<Rightarrow> w)) | _ \<Rightarrow> r)"

text \<open>The table's keys: \<open>id\<close>, and \<open>task_id\<close> among the active jobs.\<close>

definition insert_job :: "job_row \<Rightarrow> 'z job_db_scheme \<Rightarrow> py_error + 'z job_db_scheme" where
  "insert_job r db =
    (if list_ex (\<lambda>x. aj_id x = aj_id r \<or> aj_task_id x = aj_task_id r \<and> job_active (aj_status x)) (agent_jobs db)
     then Inl (AgentDispatchConflict ''task cannot acquire another active remote job'')
     else Inr (db\<lparr>agent_jobs := agent_jobs db @ [r]\<rparr>))"

text \<open>\<open>native\<close> is whether the job runs under a project validation grant.\<close>

definition queue_write :: "bool \<Rightarrow> string \<Rightarrow> string \<Rightarrow> string \<Rightarrow> string \<Rightarrow> int \<Rightarrow> task_status \<Rightarrow> string \<Rightarrow> 'z job_db_scheme \<Rightarrow>
    py_error + 'z job_db_scheme" where
  "queue_write native job_id task_id skill payload max_attempts task_status now db =
    (if task_status \<noteq> Task_Created \<and> task_status \<noteq> Task_Planned
     then Inl (AgentDispatchConflict (''task cannot receive a remote job from status '' @ task_status_name task_status))
     else if sql_select (\<lambda>r. aj_task_id r = task_id \<and> job_active (aj_status r)) (agent_jobs db) \<noteq> []
     then Inl (AgentDispatchConflict ''task already owns an active remote job'')
     else and_then (insert_job (new_job job_id task_id skill payload
         (if native \<or> skill = ''code.generate_python'' \<or> skill = ''code.build_project'' \<or> skill = ''writing.draft'' then 1
          else max_attempts) now) db) (\<lambda>db1.
       dispatch_conflict (Some ''task cannot acquire another active remote job'')
         (transition_task task_id task_status Task_Queued now None db1)))"

text \<open>The condition of the candidate query on the job itself.\<close>

definition claimable_job :: "job_row \<Rightarrow> bool" where
  "claimable_job r \<longleftrightarrow> aj_status r = Job_Queued \<and> aj_attempt_count r < aj_max_attempts r"

definition claim_transition :: "(string \<Rightarrow> string) \<Rightarrow> string \<Rightarrow> string \<Rightarrow> string \<Rightarrow> string \<Rightarrow> string \<Rightarrow> job_row \<Rightarrow>
    'z job_db_scheme \<Rightarrow> py_error + 'z job_db_scheme" where
  "claim_transition H agent_id lease_id lease_token now lease_expires_at row db =
    dispatch_conflict None (and_then (transition_job (aj_id row) Job_Queued Job_Claimed now
      [Set_claimed_by (Some agent_id), Set_claim_token None, Set_lease_id (Some lease_id),
       Set_lease_token_hash (Some (lease_token_hash H lease_token)), Set_lease_expires_at (Some lease_expires_at),
       Set_lease_generation (aj_lease_generation row + 1), Set_claimed_at (Some now), Set_heartbeat_at (Some now),
       Set_attempt_count (aj_attempt_count row + 1), Set_last_agent_id (Some agent_id), Set_last_failure_reason None]
      (\<lambda>r. True) db) (\<lambda>db1. transition_task (aj_task_id row) Task_Queued Task_Running now None db1))"

section \<open>Heartbeats and results\<close>

definition stale_lease :: py_error where
  "stale_lease = AgentDispatchConflict ''job lease is stale, expired, or owned by another agent''"

definition check_active_lease :: "(string \<Rightarrow> string) \<Rightarrow> string \<Rightarrow> string \<Rightarrow> string \<Rightarrow> string \<Rightarrow> int \<Rightarrow> string \<Rightarrow>
    'z job_db_scheme \<Rightarrow> py_error + job_row" where
  "check_active_lease H agent_id job_id claim_token lease_id lease_generation now db =
    (case row_by aj_id job_id (agent_jobs db) of
       None \<Rightarrow> Inl (AgentDispatchConflict ''job is not active'')
     | Some row \<Rightarrow>
         if \<not> job_leased (aj_status row) then Inl (AgentDispatchConflict ''job is not active'')
         else if \<not> lease_matches H row agent_id claim_token (Some lease_id) (Some lease_generation) now True
         then Inl stale_lease
         else Inr row)"

definition same_lease :: "job_row \<Rightarrow> job_row \<Rightarrow> bool" where
  "same_lease row r \<longleftrightarrow> aj_lease_generation r = aj_lease_generation row \<and> aj_lease_token_hash row \<noteq> None \<and>
    aj_lease_token_hash r = aj_lease_token_hash row"

definition heartbeat_transition :: "string \<Rightarrow> string \<Rightarrow> job_row \<Rightarrow> 'z job_db_scheme \<Rightarrow> py_error + 'z job_db_scheme" where
  "heartbeat_transition now renewed_until row db =
    (if map_option tk_status (row_by tk_id (aj_task_id row) (tasks db)) \<noteq> Some Task_Running
     then Inl (AgentDispatchConflict ''parent task is not active'')
     else dispatch_conflict None (transition_job (aj_id row) (aj_status row) Job_Running now
       [Set_heartbeat_at (Some now), Set_lease_expires_at (Some renewed_until)] (same_lease row) db))"

definition check_result_lease :: "(string \<Rightarrow> string) \<Rightarrow> string \<Rightarrow> string \<Rightarrow> string \<Rightarrow> string \<Rightarrow> int \<Rightarrow> string \<Rightarrow>
    'z job_db_scheme \<Rightarrow> py_error + job_row" where
  "check_result_lease H agent_id job_id claim_token lease_id lease_generation now db =
    (case row_by aj_id job_id (agent_jobs db) of
       None \<Rightarrow> Inl stale_lease
     | Some row \<Rightarrow>
         if \<not> lease_matches H row agent_id claim_token (Some lease_id) (Some lease_generation) now
           (\<not> job_terminal (aj_status row))
         then Inl stale_lease
         else Inr row)"

text \<open>\<open>status\<close> is \<open>completed\<close> or \<open>failed\<close>.\<close>

definition result_transition :: "bool \<Rightarrow> string option \<Rightarrow> string option \<Rightarrow> string \<Rightarrow> job_row \<Rightarrow> 'z job_db_scheme \<Rightarrow>
    py_error + 'z job_db_scheme" where
  "result_transition completed result_json public_error now row db =
    dispatch_conflict None (and_then (transition_job (aj_id row) (aj_status row)
      (if completed then Job_Completed else Job_Failed) now
      [Set_result_json result_json, Set_error public_error, Set_completed_at (Some now)] (same_lease row) db) (\<lambda>db1.
      transition_task (aj_task_id row) Task_Running (if completed then Task_Completed else Task_Failed) now
        public_error db1))"

section \<open>Cancellation and quarantine\<close>

definition cancel_context_transition :: "string \<Rightarrow> string \<Rightarrow> job_row \<Rightarrow> 'z job_db_scheme \<Rightarrow> py_error + 'z job_db_scheme" where
  "cancel_context_transition now reason row db =
    and_then (transition_job (aj_id row) (aj_status row) Job_Cancelled now
      [Set_completed_at (Some now), Set_last_failure_reason (Some reason), Set_error (Some reason)] (\<lambda>r. True) db)
      (\<lambda>db1. transition_task (aj_task_id row) (if aj_status row = Job_Queued then Task_Queued else Task_Running)
        Task_Cancelled now (Some reason) db1)"

definition cancel_native_transition :: "string \<Rightarrow> string \<Rightarrow> string \<Rightarrow> 'z job_db_scheme \<Rightarrow> py_error + 'z job_db_scheme" where
  "cancel_native_transition task_id reason now db =
    and_then (case fetchone (sql_select (\<lambda>r. aj_task_id r = task_id) (agent_jobs db)) of
        None \<Rightarrow> Inr db
      | Some job \<Rightarrow> if job_active (aj_status job)
          then transition_job (aj_id job) (aj_status job) Job_Cancelled now
            [Set_completed_at (Some now), Set_error (Some reason), Set_last_failure_reason (Some reason)] (\<lambda>r. True) db
          else Inr db) (\<lambda>db1.
      case row_by tk_id task_id (tasks db1) of
        None \<Rightarrow> Inr db1
      | Some task \<Rightarrow> if Task_Cancelled \<in> set (task_allowed (tk_status task))
          then transition_task task_id (tk_status task) Task_Cancelled now (Some reason) db1
          else Inr db1)"

text \<open>The job's part of \<open>StateService.cancel_task\<close>, for a job read earlier in the transaction.\<close>

definition cancel_task_job :: "string \<Rightarrow> string \<Rightarrow> job_row \<Rightarrow> 'z job_db_scheme \<Rightarrow> py_error + 'z job_db_scheme" where
  "cancel_task_job task_id now job db =
    (case transition_job (aj_id job) (aj_status job) Job_Cancelled now
        [Set_claimed_by None, Set_claim_token None, Set_lease_id None, Set_lease_token_hash None,
         Set_lease_expires_at None, Set_lease_generation (aj_lease_generation job + 1), Set_completed_at (Some now),
         Set_last_failure_reason (Some ''parent task cancelled'')]
        (\<lambda>r. aj_task_id r = task_id \<and> aj_lease_generation r = aj_lease_generation job) db of
       Inl (DistributedStateConflict m) \<Rightarrow> Inl (StateConflict ''remote job changed while task was cancelled'')
     | r \<Rightarrow> r)"

definition quarantine_audit :: "reaper_env \<Rightarrow> job_row \<Rightarrow> string \<Rightarrow> 'z job_db_scheme \<Rightarrow> 'z job_db_scheme" where
  "quarantine_audit env job event_type db =
    snd (append_audit_event (env_sha256 (re_board env)) [] (re_clock env) event_type
      (JObj [(''job_id'', JStr (aj_id job)), (''required_skill'', JStr (aj_required_skill job)),
        (''reason'', JStr revoked_reason)]) ''control-plane'' ''dispatcher'' (Some (aj_task_id job))
      (Some (aj_task_id job)) (Some (re_now env)) db)"

definition quarantine_row :: "reaper_env \<Rightarrow> reaped_row \<Rightarrow> nat \<times> 'z job_db_scheme \<Rightarrow>
    py_error + (nat \<times> 'z job_db_scheme)" where
  "quarantine_row env row = (\<lambda>(quarantined, db).
    let job = rp_job row; now = re_now env; i = aj_id job in
    and_then (dispatch_conflict (Some ''job changed during policy quarantine'')
      (and_then (transition_job i Job_Queued Job_Quarantined now
         [Set_completed_at (Some now), Set_last_failure_reason (Some revoked_reason), Set_error (Some revoked_reason)]
         (\<lambda>r. True) db) (\<lambda>db1.
       if rp_task_status row = Task_Queued
       then transition_task (aj_task_id job) Task_Queued Task_Failed now (Some revoked_reason) db1
       else Inr db1))) (\<lambda>db2.
    and_then (reaper_enqueue env ''agent_job'' i ''tasks.status'' ''quarantined''
        (JObj [(''job_id'', JStr i), (''status'', JStr ''quarantined'')]) (aj_task_id job) None
        (''agent-job:'' @ i @ '':skill-revoked'')
        (quarantine_audit env job ''agent.job.quarantined'' (quarantine_audit env job ''agent.job.skill_revoked'' db2)))
      (\<lambda>db3. Inr (quarantined + 1, db3))))"

definition quarantine_denied_queued :: "reaper_env \<Rightarrow> string list \<Rightarrow> int \<Rightarrow> 'z job_db_scheme \<Rightarrow>
    py_error + (nat \<times> 'z job_db_scheme)" where
  "quarantine_denied_queued env denied limit db =
    (if denied = [] then Inr (0, db)
     else if limit < 1 then Inl (ValueError ''quarantine batch limit must be positive'')
     else for_each (quarantine_row env)
       (take (nat limit) (sort_key (\<lambda>p. (aj_created_at (rp_job p), aj_id (rp_job p)))
         (concat (map (\<lambda>j. map (\<lambda>t. \<lparr>rp_job = j, rp_task_status = tk_status t\<rparr>)
             (sql_select (\<lambda>t. tk_id t = aj_task_id j) (tasks db)))
           (sql_select (\<lambda>j. aj_status j = Job_Queued \<and> aj_required_skill j \<in> set denied) (agent_jobs db))))))
       (0, db))"

section \<open>Steps\<close>

text \<open>
  One committed transaction. \<open>others\<close> is any transaction that leaves \<open>agent_jobs\<close> as it is and adds no
  second task with an identifier.
\<close>

inductive job_step :: "(string \<Rightarrow> string) \<Rightarrow> 'z job_db_scheme \<Rightarrow> 'z job_db_scheme \<Rightarrow> bool" for H where
  others: "agent_jobs db' = agent_jobs db \<Longrightarrow> keyed db' \<Longrightarrow> job_step H db db'"
| queue: "queue_write native i task skill payload attempts status now db = Inr db' \<Longrightarrow> 1 \<le> attempts \<Longrightarrow> job_step H db db'"
| claim: "row_by aj_id i (agent_jobs db) = Some row \<Longrightarrow> claimable_job row \<Longrightarrow>
    claim_transition H agent lease token now expires row db = Inr db' \<Longrightarrow> job_step H db db'"
| heartbeat: "check_active_lease H agent i token lease generation now db = Inr row \<Longrightarrow>
    heartbeat_transition now renewed row db = Inr db' \<Longrightarrow> job_step H db db'"
| result: "check_result_lease H agent i token lease generation now db = Inr row \<Longrightarrow> \<not> job_terminal (aj_status row) \<Longrightarrow>
    result_transition completed result_json error now row db = Inr db' \<Longrightarrow> job_step H db db'"
| cancel_context: "row_by aj_id i (agent_jobs db) = Some row \<Longrightarrow>
    cancel_context_transition now reason row db = Inr db' \<Longrightarrow> job_step H db db'"
| cancel_native: "cancel_native_transition task reason now db = Inr db' \<Longrightarrow> job_step H db db'"
| cancel_task: "row_by aj_id i (agent_jobs db) = Some row \<Longrightarrow> cancel_task_job task now row db = Inr db' \<Longrightarrow> job_step H db db'"
| quarantine: "quarantine_denied_queued env denied limit db = Inr (n, db') \<Longrightarrow> job_step H db db'"
| reap: "reap_batch benv lsvc fresh n (m :: 'z job_db_scheme moment) fence local db = (Inr (counts, go_on), local', fence', db') \<Longrightarrow> job_step H db db'"

section \<open>How rows move\<close>

definition lease_columns :: "job_row \<Rightarrow> string option list" where
  "lease_columns r = [aj_claimed_by r, aj_lease_id r, aj_lease_token_hash r, aj_lease_expires_at r]"

text \<open>
  The lease columns agree with the status. A result and most cancellations leave them as a record of the
  last holder, the reaper and the cancellation of the parent task clear them: so a row that has failed or
  was cancelled names a whole lease or none, and which of the two is settled for every other status.
\<close>

definition lease_typed :: "job_row \<Rightarrow> bool" where
  "lease_typed r \<longleftrightarrow>
    (set (lease_columns r) = {None} \<or> None \<notin> set (lease_columns r) \<and> 0 < aj_lease_generation r) \<and>
    (aj_status r = Job_Queued \<or> aj_status r = Job_Quarantined \<longrightarrow> set (lease_columns r) = {None}) \<and>
    (job_leased (aj_status r) \<or> aj_status r = Job_Completed \<longrightarrow> None \<notin> set (lease_columns r))"

definition job_typed :: "job_row \<Rightarrow> bool" where
  "job_typed r \<longleftrightarrow> 0 \<le> aj_lease_generation r \<and> 0 \<le> aj_attempt_count r \<and> aj_attempt_count r \<le> aj_max_attempts r \<and>
    (aj_completed_at r \<noteq> None \<longleftrightarrow> job_terminal (aj_status r)) \<and> lease_typed r"

definition row_moves :: "job_row \<Rightarrow> job_row \<Rightarrow> bool" where
  "row_moves r r' \<longleftrightarrow> job_fixed r' = job_fixed r \<and> (job_terminal (aj_status r) \<longrightarrow> r' = r) \<and>
    (job_typed r \<longrightarrow> job_typed r') \<and>
    (aj_lease_generation r < aj_lease_generation r' \<or> aj_lease_generation r' = aj_lease_generation r \<and>
      (aj_lease_token_hash r' = aj_lease_token_hash r \<or> aj_lease_token_hash r' = None))"

lemma row_moves_refl [simp]: "row_moves r r"
  by (simp add: row_moves_def)

lemma row_movesD:
  assumes "row_moves r r'"
  shows "job_fixed r' = job_fixed r" "job_terminal (aj_status r) \<Longrightarrow> r' = r" "job_typed r \<Longrightarrow> job_typed r'"
    "aj_lease_generation r \<le> aj_lease_generation r'"
    "aj_lease_generation r' = aj_lease_generation r \<Longrightarrow>
      aj_lease_token_hash r' = aj_lease_token_hash r \<or> aj_lease_token_hash r' = None"
  using assms unfolding row_moves_def by (simp_all only: simp_thms) linarith+

lemma row_moves_trans:
  assumes rs: "row_moves r s" and st: "row_moves s t"
  shows "row_moves r t"
  unfolding row_moves_def
proof (intro conjI impI)
  show "job_fixed t = job_fixed r" using row_movesD(1) [OF rs] row_movesD(1) [OF st] by (rule trans [rotated])
  show "t = r" if "job_terminal (aj_status r)"
  proof -
    have "s = r" by (rule row_movesD(2) [OF rs that])
    with st that show ?thesis by (simp only: row_movesD(2))
  qed
  show "job_typed t" if "job_typed r" by (rule row_movesD(3) [OF st row_movesD(3) [OF rs that]])
  have "aj_lease_token_hash t = aj_lease_token_hash r \<or> aj_lease_token_hash t = None"
    if "aj_lease_generation t = aj_lease_generation r"
  proof -
    have "aj_lease_generation s = aj_lease_generation r" "aj_lease_generation t = aj_lease_generation s"
      using row_movesD(4) [OF rs] row_movesD(4) [OF st] that by linarith+
    then show ?thesis using row_movesD(5) [OF rs] row_movesD(5) [OF st] by metis
  qed
  then show "aj_lease_generation r < aj_lease_generation t \<or> aj_lease_generation t = aj_lease_generation r \<and>
      (aj_lease_token_hash t = aj_lease_token_hash r \<or> aj_lease_token_hash t = None)"
    using row_movesD(4) [OF rs] row_movesD(4) [OF st] by linarith
qed

lemma row_moves_id: "row_moves r r' \<Longrightarrow> aj_id r' = aj_id r"
  by (simp add: row_moves_def job_fixed_def)

definition jobs_move :: "'z job_db_scheme \<Rightarrow> 'z job_db_scheme \<Rightarrow> bool" where
  "jobs_move db db' \<longleftrightarrow> list_all2 row_moves (agent_jobs db) (agent_jobs db') \<and> map tk_id (tasks db') = map tk_id (tasks db)"

lemma jobs_move_refl: "agent_jobs db' = agent_jobs db \<Longrightarrow> tasks db' = tasks db \<Longrightarrow> jobs_move db db'"
  by (simp add: jobs_move_def list.rel_refl)

lemma jobs_move_trans: "jobs_move a b \<Longrightarrow> jobs_move b c \<Longrightarrow> jobs_move a c"
  unfolding jobs_move_def by (auto intro: list_all2_trans [of row_moves row_moves row_moves] row_moves_trans)

lemma transition_moves:
  assumes "transition_job i current target now us extra db = Inr db'"
    and "\<And>r. r \<in> set (agent_jobs db) \<Longrightarrow> aj_id r = i \<Longrightarrow> aj_status r = current \<Longrightarrow> extra r \<Longrightarrow>
      target \<in> set (job_allowed current) \<Longrightarrow> row_moves r (moved_job target now us r)"
  shows "jobs_move db db'"
  using assms(2) transition_job_Inr [OF assms(1)]
  by (auto simp: jobs_move_def sql_update_def list_all2_conv_all_nth)

lemma transition_task_moves: "transition_task i current target now error db = Inr db' \<Longrightarrow> jobs_move db db'"
  using transition_task_Inr(1) [of i current target now error db db']
  by (simp add: jobs_move_def list.rel_refl map_sql_update)

text \<open>Leaving an active status for a terminal one, with the end recorded.\<close>

lemma closing_typed:
  assumes "lease_typed r" and "target \<in> set (job_allowed (aj_status r))" and "job_terminal target" and "aj_status r' = target"
    and "lease_columns r' = lease_columns r \<and> (target = Job_Quarantined \<longrightarrow> aj_status r = Job_Queued) \<or>
      set (lease_columns r') = {None} \<and> target \<noteq> Job_Completed"
    and "aj_lease_generation r \<le> aj_lease_generation r'"
  shows "lease_typed r'"
proof -
  have "\<not> job_leased target" "target \<noteq> Job_Queued" using assms(3) by (auto simp: job_leased_def job_terminal_def)
  moreover have "job_leased (aj_status r)" if "target = Job_Completed"
    using assms(2) that by (cases "aj_status r") (simp_all add: job_allowed_def job_leased_def)
  ultimately show ?thesis using assms(1,4-6) unfolding lease_typed_def by (elim disjE conjE) auto
qed

lemma closing_moves:
  assumes "target \<in> set (job_allowed (aj_status r))" and "job_terminal target"
    and "aj_completed_at (moved_job target now us r) \<noteq> None"
    and "aj_attempt_count (moved_job target now us r) = aj_attempt_count r"
    and "aj_lease_generation r < aj_lease_generation (moved_job target now us r) \<or>
      aj_lease_generation (moved_job target now us r) = aj_lease_generation r \<and>
      aj_lease_token_hash (moved_job target now us r) = aj_lease_token_hash r"
    and lease: "lease_columns (moved_job target now us r) = lease_columns r \<and> (target = Job_Quarantined \<longrightarrow> aj_status r = Job_Queued) \<or>
      set (lease_columns (moved_job target now us r)) = {None} \<and> target \<noteq> Job_Completed"
  shows "row_moves r (moved_job target now us r)"
proof -
  have open_row: "\<not> job_terminal (aj_status r)" using assms(1) job_terminal_final by fastforce
  have bound: "aj_max_attempts (moved_job target now us r) = aj_max_attempts r"
    using moved_job_fixed(1) [of target now us r] by (simp add: job_fixed_def)
  show ?thesis
    unfolding row_moves_def
  proof (intro conjI impI)
    show "job_fixed (moved_job target now us r) = job_fixed r" by (rule moved_job_fixed)
    show "moved_job target now us r = r" if "job_terminal (aj_status r)" using that open_row by contradiction
    show "job_typed (moved_job target now us r)" if "job_typed r"
    proof -
      have g: "0 \<le> aj_lease_generation (moved_job target now us r)" "aj_lease_generation r \<le> aj_lease_generation (moved_job target now us r)"
        using that assms(5) unfolding job_typed_def by linarith+
      have "lease_typed (moved_job target now us r)"
        by (rule closing_typed [OF _ assms(1,2) moved_job_fixed(2) lease g(2)]) (use that in \<open>simp add: job_typed_def\<close>)
      then show ?thesis
        using that assms(2-4) bound g(1) unfolding job_typed_def moved_job_fixed(2) by simp
    qed
  qed (use assms(5) in blast)
qed

lemma dispatch_conflict_Inr: "dispatch_conflict m r = Inr a \<longleftrightarrow> r = Inr a"
  by (auto simp: dispatch_conflict_def split: sum.splits py_error.splits)

lemma keyed_job: "keyed db \<Longrightarrow> row_by aj_id i (agent_jobs db) = Some row \<Longrightarrow> r \<in> set (agent_jobs db) \<Longrightarrow> aj_id r = i \<Longrightarrow> r = row"
  using row_by_unique [of aj_id "agent_jobs db" r] by (simp add: keyed_def)

lemma claim_moves:
  assumes "keyed db" and row: "row_by aj_id i (agent_jobs db) = Some row" and c: "claimable_job row"
    and "claim_transition H agent lease token now expires row db = Inr db'"
  shows "jobs_move db db'"
proof -
  obtain db1 where t: "transition_job (aj_id row) Job_Queued Job_Claimed now
      [Set_claimed_by (Some agent), Set_claim_token None, Set_lease_id (Some lease),
       Set_lease_token_hash (Some (lease_token_hash H token)), Set_lease_expires_at (Some expires),
       Set_lease_generation (aj_lease_generation row + 1), Set_claimed_at (Some now), Set_heartbeat_at (Some now),
       Set_attempt_count (aj_attempt_count row + 1), Set_last_agent_id (Some agent), Set_last_failure_reason None]
      (\<lambda>r. True) db = Inr db1"
    and t': "transition_task (aj_task_id row) Task_Queued Task_Running now None db1 = Inr db'"
    using assms(4) unfolding claim_transition_def dispatch_conflict_Inr by blast
  have "jobs_move db db1"
  proof (rule transition_moves [OF t])
    fix r assume r: "r \<in> set (agent_jobs db)" "aj_id r = aj_id row" "aj_status r = Job_Queued"
    have "aj_id row = i" using row_by_SomeD [OF row] by simp
    then have "r = row" using keyed_job [OF assms(1) row r(1)] r(2) by simp
    then show "row_moves r (moved_job Job_Claimed now
      [Set_claimed_by (Some agent), Set_claim_token None, Set_lease_id (Some lease),
       Set_lease_token_hash (Some (lease_token_hash H token)), Set_lease_expires_at (Some expires),
       Set_lease_generation (aj_lease_generation row + 1), Set_claimed_at (Some now), Set_heartbeat_at (Some now),
       Set_attempt_count (aj_attempt_count row + 1), Set_last_agent_id (Some agent), Set_last_failure_reason None] r)"
      using r(3) c
      by (simp add: row_moves_def moved_job_fixed) (simp add: moved_job_def job_typed_def lease_typed_def job_terminal_def job_leased_def
        lease_columns_def claimable_job_def)
  qed
  then show ?thesis using transition_task_moves [OF t'] by (rule jobs_move_trans)
qed

lemma heartbeat_moves:
  assumes c: "check_active_lease H agent i token lease g now db = Inr row"
    and "heartbeat_transition now renewed row db = Inr db'"
  shows "jobs_move db db'"
proof -
  have leased: "job_leased (aj_status row)"
    using c by (auto simp: check_active_lease_def split: option.split_asm if_split_asm)
  have t: "transition_job (aj_id row) (aj_status row) Job_Running now
      [Set_heartbeat_at (Some now), Set_lease_expires_at (Some renewed)] (same_lease row) db = Inr db'"
    using assms(2) by (simp add: heartbeat_transition_def dispatch_conflict_Inr split: if_split_asm)
  show ?thesis
  proof (rule transition_moves [OF t])
    fix r :: job_row assume "aj_status r = aj_status row"
    then have "job_leased (aj_status r)" "\<not> job_terminal (aj_status r)"
      using leased by (auto simp: job_leased_def job_terminal_def)
    then show "row_moves r (moved_job Job_Running now [Set_heartbeat_at (Some now), Set_lease_expires_at (Some renewed)] r)"
      by (simp add: row_moves_def moved_job_fixed) (auto simp: moved_job_def job_typed_def lease_typed_def job_terminal_def job_leased_def
        lease_columns_def)
  qed
qed

lemma result_moves:
  assumes "result_transition completed result_json error now row db = Inr db'"
  shows "jobs_move db db'"
proof -
  let ?target = "if completed then Job_Completed else Job_Failed"
  obtain db1 where t: "transition_job (aj_id row) (aj_status row) ?target now
      [Set_result_json result_json, Set_error error, Set_completed_at (Some now)] (same_lease row) db = Inr db1"
    and t': "transition_task (aj_task_id row) Task_Running (if completed then Task_Completed else Task_Failed) now error db1 = Inr db'"
    using assms unfolding result_transition_def dispatch_conflict_Inr by blast
  have "jobs_move db db1"
    by (rule transition_moves [OF t], rule closing_moves) (simp_all add: moved_job_def job_terminal_def lease_columns_def)
  then show ?thesis using transition_task_moves [OF t'] by (rule jobs_move_trans)
qed

lemma cancel_moves:
  "transition_job i current Job_Cancelled now [Set_completed_at (Some now), Set_last_failure_reason a, Set_error b] (\<lambda>r. True) db =
    Inr db' \<Longrightarrow> jobs_move db db'"
  "transition_job i current Job_Cancelled now [Set_completed_at (Some now), Set_error b, Set_last_failure_reason a] (\<lambda>r. True) db =
    Inr db' \<Longrightarrow> jobs_move db db'"
  "transition_job i Job_Queued Job_Quarantined now [Set_completed_at (Some now), Set_last_failure_reason a, Set_error b] (\<lambda>r. True) db =
    Inr db' \<Longrightarrow> jobs_move db db'"
  by (erule transition_moves, rule closing_moves; simp add: moved_job_def job_terminal_def lease_columns_def)+

lemma cancel_context_moves: "cancel_context_transition now reason row db = Inr db' \<Longrightarrow> jobs_move db db'"
  unfolding cancel_context_transition_def
  by (elim and_then_InrE, drule cancel_moves(1), drule transition_task_moves) (rule jobs_move_trans)

lemma cancel_native_moves:
  assumes "cancel_native_transition task reason now db = Inr db'"
  shows "jobs_move db db'"
proof -
  obtain db1 where first: "(case fetchone (sql_select (\<lambda>r. aj_task_id r = task) (agent_jobs db)) of
        None \<Rightarrow> Inr db
      | Some job \<Rightarrow> if job_active (aj_status job)
          then transition_job (aj_id job) (aj_status job) Job_Cancelled now
            [Set_completed_at (Some now), Set_error (Some reason), Set_last_failure_reason (Some reason)] (\<lambda>r. True) db
          else Inr db) = Inr db1"
    and rest: "(case row_by tk_id task (tasks db1) of
        None \<Rightarrow> Inr db1
      | Some t \<Rightarrow> if Task_Cancelled \<in> set (task_allowed (tk_status t))
          then transition_task task (tk_status t) Task_Cancelled now (Some reason) db1
          else Inr db1) = Inr db'"
    using assms unfolding cancel_native_transition_def by blast
  have "jobs_move db db1"
    using first by (auto split: option.split_asm if_split_asm intro: cancel_moves(2) jobs_move_refl)
  moreover have "jobs_move db1 db'"
    using rest by (auto split: option.split_asm if_split_asm intro: transition_task_moves jobs_move_refl)
  ultimately show ?thesis by (rule jobs_move_trans)
qed

lemma cancel_task_moves:
  assumes "cancel_task_job task now job db = Inr db'"
  shows "jobs_move db db'"
proof -
  have t: "transition_job (aj_id job) (aj_status job) Job_Cancelled now
        [Set_claimed_by None, Set_claim_token None, Set_lease_id None, Set_lease_token_hash None,
         Set_lease_expires_at None, Set_lease_generation (aj_lease_generation job + 1), Set_completed_at (Some now),
         Set_last_failure_reason (Some ''parent task cancelled'')]
        (\<lambda>r. aj_task_id r = task \<and> aj_lease_generation r = aj_lease_generation job) db = Inr db'"
    using assms unfolding cancel_task_job_def by (auto split: sum.split_asm py_error.split_asm)
  show ?thesis
    by (rule transition_moves [OF t], rule closing_moves) (simp_all add: moved_job_def job_terminal_def lease_columns_def)
qed

lemma jobs_move_frame: "job_frame db db' \<Longrightarrow> jobs_move db db'"
  by (simp add: job_frame_def jobs_move_refl)

lemma quarantine_row_moves:
  assumes "quarantine_row env row (n, db) = Inr (n', db')"
  shows "jobs_move db db'"
proof -
  obtain db1 db2 where t: "transition_job (aj_id (rp_job row)) Job_Queued Job_Quarantined (re_now env)
         [Set_completed_at (Some (re_now env)), Set_last_failure_reason (Some revoked_reason), Set_error (Some revoked_reason)]
         (\<lambda>r. True) db = Inr db1"
    and t': "(if rp_task_status row = Task_Queued
       then transition_task (aj_task_id (rp_job row)) Task_Queued Task_Failed (re_now env) (Some revoked_reason) db1
       else Inr db1) = Inr db2"
    and e: "\<exists>at ai top ty payload task agent key.
      reaper_enqueue env at ai top ty payload task agent key
        (quarantine_audit env (rp_job row) ''agent.job.quarantined'' (quarantine_audit env (rp_job row) ''agent.job.skill_revoked'' db2)) = Inr db'"
    using assms unfolding quarantine_row_def Let_def prod.case dispatch_conflict_Inr and_then_Inr_iff by blast
  have "jobs_move db1 db2"
    using t' by (auto split: if_split_asm intro: transition_task_moves jobs_move_refl)
  moreover have "jobs_move db2 db'"
    using e reaper_enqueue_frame
    by (intro jobs_move_refl) (fastforce simp: job_frame_def quarantine_audit_def append_audit_event_def Let_def)+
  ultimately show ?thesis using cancel_moves(3) [OF t] jobs_move_trans by blast
qed

lemma quarantine_moves:
  assumes "quarantine_denied_queued env denied limit db = Inr (n, db')"
  shows "jobs_move db db'"
proof (cases "denied = []")
  case True
  then show ?thesis using assms by (simp add: quarantine_denied_queued_def jobs_move_refl)
next
  case False
  then obtain rows where "for_each (quarantine_row env) rows (0, db) = Inr (n, db')"
    using assms by (simp add: quarantine_denied_queued_def split: if_split_asm)
  then have "jobs_move db (snd (n, db'))"
    by (rule for_each_invariant [where P = "\<lambda>s. jobs_move db (snd s)"])
      (auto simp: jobs_move_refl intro: jobs_move_trans [OF _ quarantine_row_moves])
  then show ?thesis by simp
qed

lemma reaped_moves:
  assumes "reaped row o' now db db'"
  shows "jobs_move db db'"
proof -
  obtain db1 db2 db3 why err where s: "job_frame db db1"
    "reap_transition row (outcome_target o') now why err db1 = Inr db2"
    "case outcome_task o' (rp_task_status row) of None \<Rightarrow> db3 = db2
      | Some target \<Rightarrow> \<exists>error. transition_task (aj_task_id (rp_job row)) (rp_task_status row) target now error db2 = Inr db3"
    "job_frame db3 db'"
    using assms by (auto simp: reaped_def)
  note t = s(2) [unfolded reap_transition_Inr]
  have "jobs_move db1 db2"
  proof (rule transition_moves [OF t])
    fix r :: job_row assume r: "aj_status r = aj_status (rp_job row)" "outcome_target o' \<in> set (job_allowed (aj_status (rp_job row)))"
      and g: "aj_lease_generation r = aj_lease_generation (rp_job row) \<and> aj_lease_expires_at (rp_job row) \<noteq> None \<and>
        aj_lease_expires_at r = aj_lease_expires_at (rp_job row)"
    show "row_moves r (moved_job (outcome_target o') now (reap_updates (rp_job row) (outcome_target o') now why err) r)"
    proof (cases "o' = Reap_Requeued")
      case True
      have open_row: "\<not> job_terminal (aj_status r)" using r job_terminal_final by fastforce
      have bound: "aj_max_attempts (released_row row o' now why err r) = aj_max_attempts r"
        "aj_attempt_count (released_row row o' now why err r) = aj_attempt_count r"
        by (simp_all add: released_row_fields)
      have "job_typed (released_row row o' now why err r)" if "job_typed r"
        using that g True unfolding job_typed_def lease_typed_def bound
        by (simp add: released_row_fields outcome_target_def job_terminal_def job_leased_def lease_columns_def)
      then have "row_moves r (released_row row o' now why err r)"
        using open_row g True
        by (simp add: row_moves_def released_row_fields) (simp add: released_row_def moved_job_fixed)
      then show ?thesis by (simp only: released_row_def)
    next
      case False
      note fields = released_row_fields [unfolded released_row_def]
      have "job_terminal (outcome_target o')" using False by (cases o') (simp_all add: outcome_target_def job_terminal_def)
      then show ?thesis
        by (intro closing_moves) (use r g False in \<open>simp_all add: fields lease_columns_def, simp add: outcome_target_def split: reap_outcome.split\<close>)
    qed
  qed
  moreover have "jobs_move db2 db3"
    using s(3) by (auto split: option.split_asm intro: transition_task_moves jobs_move_refl)
  ultimately show ?thesis using s(1,4) jobs_move_frame jobs_move_trans by blast
qed

lemma reap_moves:
  assumes "reap_batch benv lsvc fresh n m fence local db = (Inr (counts, go_on), local', fence', db')"
  shows "jobs_move db db'"
proof -
  obtain snapshot db1 env rows where l: "load_locked (env_sha256 benv) (isoformat (dt_instant (mo_clock m))) local db = Inr (snapshot, local', db1)"
    and loop: "for_each (reap_step env snapshot) rows (no_counts, db1) = Inr (counts, db')"
    by (rule reap_batch_Inr [OF assms]) blast
  have "jobs_move db1 (snd (counts, db'))"
    by (rule for_each_invariant [where P = "\<lambda>s. jobs_move db1 (snd s)", OF loop])
      (auto simp: reap_step_Inr jobs_move_refl dest!: reap_row_reaped intro: jobs_move_trans [OF _ reaped_moves])
  then show ?thesis using load_locked_table [OF l] by (simp add: jobs_move_def)
qed

section \<open>The invariant\<close>

text \<open>Rows are well typed, keys are unique, and a task has at most one active job.\<close>

definition job_inv :: "'z job_db_scheme \<Rightarrow> bool" where
  "job_inv db \<longleftrightarrow> keyed db \<and> list_all job_typed (agent_jobs db) \<and>
    distinct (map aj_task_id (filter (\<lambda>r. job_active (aj_status r)) (agent_jobs db)))"

lemma row_moves_active: "row_moves r r' \<Longrightarrow> job_active (aj_status r') \<Longrightarrow> job_active (aj_status r)"
  using row_movesD(2) [of r r'] by (cases "aj_status r") (auto simp: job_active_def job_terminal_def)

lemma row_moves_task: "row_moves r r' \<Longrightarrow> aj_task_id r' = aj_task_id r"
  using row_movesD(1) [of r r'] by (simp add: job_fixed_def)

lemma moves_active_tasks:
  assumes "list_all2 row_moves t t'" and "distinct (map aj_task_id (filter (\<lambda>r. job_active (aj_status r)) t))"
  shows "distinct (map aj_task_id (filter (\<lambda>r. job_active (aj_status r)) t')) \<and>
    set (map aj_task_id (filter (\<lambda>r. job_active (aj_status r)) t')) \<subseteq> set (map aj_task_id (filter (\<lambda>r. job_active (aj_status r)) t))"
  using assms
proof (induction rule: list_all2_induct)
  case Nil
  then show ?case by simp
next
  case (Cons r t r' t')
  show ?case
    using Cons row_moves_active [OF Cons(1)] row_moves_task [OF Cons(1)]
    by (cases "job_active (aj_status r')"; cases "job_active (aj_status r)") auto
qed

lemma moves_typed: "list_all2 row_moves t t' \<Longrightarrow> list_all job_typed t \<Longrightarrow> list_all job_typed t'"
  by (induction rule: list_all2_induct) (auto dest: row_movesD(3))

lemma moves_ids: "list_all2 row_moves t t' \<Longrightarrow> map aj_id t' = map aj_id t"
  by (induction rule: list_all2_induct) (auto dest: row_moves_id)

lemma job_inv_moves:
  assumes "job_inv db" and "jobs_move db db'"
  shows "job_inv db'"
  using assms moves_active_tasks moves_typed moves_ids
  by (auto simp: job_inv_def jobs_move_def keyed_def)

lemma queue_write_inv:
  assumes "queue_write native i task skill payload attempts status now db = Inr db'" and "1 \<le> attempts" and "job_inv db"
  shows "job_inv db'"
proof -
  obtain n db1 where n: "1 \<le> n" and ins: "insert_job (new_job i task skill payload n now) db = Inr db1"
    and t: "transition_task task status Task_Queued now None db1 = Inr db'"
    using assms(1,2) by (auto simp: queue_write_def and_then_Inr_iff dispatch_conflict_Inr split: if_split_asm)
  let ?r = "new_job i task skill payload n now"
  have row: "aj_id ?r = i" "aj_task_id ?r = task" "job_typed ?r"
    using n by (simp_all add: new_job_def job_typed_def lease_typed_def job_terminal_def job_leased_def lease_columns_def)
  have new: "\<not> list_ex (\<lambda>x. aj_id x = i \<or> aj_task_id x = task \<and> job_active (aj_status x)) (agent_jobs db)"
    and db1: "db1 = db\<lparr>agent_jobs := agent_jobs db @ [?r]\<rparr>"
    using ins by (simp_all add: insert_job_def row split: if_split_asm)
  have "job_inv db1"
    using assms(3) new row by (auto simp: job_inv_def keyed_def db1 list_ex_iff)
  then show ?thesis using transition_task_moves [OF t] by (rule job_inv_moves)
qed

lemma job_step_inv:
  assumes "job_step H db db'" and "job_inv db"
  shows "job_inv db'"
  using assms
proof (induction rule: job_step.induct)
  case (others db' db)
  then show ?case by (simp add: job_inv_def)
next
  case (queue native i task skill payload attempts status now db db')
  then show ?case by (blast intro: queue_write_inv)
next
  case (claim i db row agent lease token now expires db')
  then show ?case using claim_moves by (blast intro: job_inv_moves dest: job_inv_def [THEN iffD1])
qed (blast intro: job_inv_moves heartbeat_moves result_moves cancel_context_moves cancel_native_moves cancel_task_moves
  quarantine_moves reap_moves)+

end
