(* ===== verification/Job_Safety.thy ===== *)
theory Job_Safety
  imports Job_Lease Fenced_Claims
begin

text \<open>
  What the operations on remote jobs guarantee together: the table stays well typed over every run, a
  batch of the reaper is the fold of its abstract steps, a worker whose lease was reaped is locked out
  for good, and an invocation of the reaper comes to an end.
\<close>

section \<open>Runs\<close>

lemma job_steps_inv: "(job_step H)\<^sup>*\<^sup>* db db' \<Longrightarrow> job_inv db \<Longrightarrow> job_inv db'"
  by (induction rule: rtranclp_induct) (blast intro: job_step_inv)+

lemma moves_row_by:
  "list_all2 row_moves t t' \<Longrightarrow> row_by aj_id i t = Some r \<Longrightarrow> \<exists>r'. row_by aj_id i t' = Some r' \<and> row_moves r r'"
proof (induction rule: list_all2_induct)
  case Nil
  then show ?case by (simp add: sql_select_def)
next
  case (Cons x t y t')
  then show ?case
    using row_moves_id [OF Cons(1)] by (cases "aj_id x = i") (auto simp: sql_select_def)
qed

lemma moves_keyed: "jobs_move db db' \<Longrightarrow> keyed db \<Longrightarrow> keyed db'"
  using moves_ids [of "agent_jobs db" "agent_jobs db'"] by (simp add: jobs_move_def keyed_def)

lemma queue_keeps_rows:
  assumes q: "queue_write native i task skill payload attempts status now db = Inr db'" and "keyed db"
  shows "row_by aj_id k (agent_jobs db) = Some r \<Longrightarrow> \<exists>r'. row_by aj_id k (agent_jobs db') = Some r' \<and> row_moves r r'"
    and "keyed db'"
proof -
  obtain n db1 where ins: "insert_job (new_job i task skill payload n now) db = Inr db1"
    and t: "transition_task task status Task_Queued now None db1 = Inr db'"
    using q by (auto simp: queue_write_def and_then_Inr_iff dispatch_conflict_Inr split: if_split_asm)
  have db1: "db1 = db\<lparr>agent_jobs := agent_jobs db @ [new_job i task skill payload n now]\<rparr>"
    and new: "\<forall>x \<in> set (agent_jobs db). aj_id x \<noteq> aj_id (new_job i task skill payload n now)"
    using ins by (auto simp: insert_job_def list_ex_iff split: if_split_asm)
  note moved = transition_task_moves [OF t, unfolded jobs_move_def]
  have jobs1: "agent_jobs db1 = agent_jobs db @ [new_job i task skill payload n now]" by (simp add: db1)
  show "\<exists>r'. row_by aj_id k (agent_jobs db') = Some r' \<and> row_moves r r'" if r: "row_by aj_id k (agent_jobs db) = Some r"
  proof -
    have "row_by aj_id k (agent_jobs db1) = Some r" unfolding jobs1 row_by_append r by simp
    then show ?thesis using moved by (blast intro: moves_row_by)
  qed
  have "distinct (map aj_id (agent_jobs db1))" using assms(2) new unfolding jobs1 keyed_def by auto
  moreover have "tasks db1 = tasks db" by (simp add: db1)
  ultimately have "keyed db1" using assms(2) by (simp add: keyed_def)
  then show "keyed db'" by (rule moves_keyed [OF transition_task_moves [OF t]])
qed

text \<open>Every step moves each row along its life; none disappears, and identifiers stay unique.\<close>

definition rows_move :: "'z job_db_scheme \<Rightarrow> 'z job_db_scheme \<Rightarrow> bool" where
  "rows_move db db' \<longleftrightarrow> keyed db' \<and> (\<forall>i r. row_by aj_id i (agent_jobs db) = Some r \<longrightarrow>
    (\<exists>r'. row_by aj_id i (agent_jobs db') = Some r' \<and> row_moves r r'))"

lemma job_step_rows_move:
  assumes "job_step H db db'" and "keyed db"
  shows "rows_move db db'"
proof -
  have by_move: "rows_move db db'" if "jobs_move db db'"
    using that assms(2) moves_row_by moves_keyed unfolding jobs_move_def rows_move_def by metis
  show ?thesis
    using assms
  proof (cases rule: job_step.cases)
    case others
    then show ?thesis by (auto simp: rows_move_def)
  next
    case queue
    then show ?thesis using queue_keeps_rows [OF _ assms(2)] unfolding rows_move_def by blast
  next
    case claim
    then show ?thesis using by_move claim_moves assms(2) by blast
  qed (rule by_move, (erule heartbeat_moves | erule result_moves | erule cancel_context_moves | erule cancel_native_moves
    | erule cancel_task_moves | erule quarantine_moves | erule reap_moves); assumption)+
qed

lemma job_step_keyed: "job_step H s t \<Longrightarrow> keyed s \<Longrightarrow> keyed t"
  using job_step_rows_move [of H s t] by (simp add: rows_move_def)

text \<open>The claim a row shows: its generation and the hash of the token it was handed out with.\<close>

definition job_claim :: "'z job_db_scheme \<Rightarrow> string \<Rightarrow> (int \<times> string option) option" where
  "job_claim db i = map_option (\<lambda>r. (aj_lease_generation r, aj_lease_token_hash r)) (row_by aj_id i (agent_jobs db))"

definition keyed_step :: "(string \<Rightarrow> string) \<Rightarrow> 'z job_db_scheme \<Rightarrow> 'z job_db_scheme \<Rightarrow> bool" where
  "keyed_step H db db' \<longleftrightarrow> keyed db \<and> job_step H db db'"

lemma keyed_step_claim:
  assumes "keyed_step H s t" and "job_claim s i = Some (g, h)"
  shows "\<exists>g' h'. job_claim t i = Some (g', h') \<and> (g < g' \<or> g' = g \<and> (h' = h \<or> h' = None))"
proof -
  obtain r where r: "row_by aj_id i (agent_jobs s) = Some r" "g = aj_lease_generation r" "h = aj_lease_token_hash r"
    using assms(2) by (auto simp: job_claim_def)
  obtain r' where r': "row_by aj_id i (agent_jobs t) = Some r'" "row_moves r r'"
    using job_step_rows_move r(1) assms(1) unfolding keyed_step_def rows_move_def by blast
  show ?thesis
    unfolding job_claim_def r'(1) r(2,3) using row_movesD(4,5) [OF r'(2)] by auto
qed

interpretation jobs: fenced_claims "keyed_step H" job_claim for H
  by unfold_locales (rule keyed_step_claim)

lemma keyed_steps:
  assumes "(job_step H)\<^sup>*\<^sup>* s t" and "keyed s"
  shows "(keyed_step H)\<^sup>*\<^sup>* s t" and "keyed t"
proof -
  have "(keyed_step H)\<^sup>*\<^sup>* s t \<and> keyed t"
    using assms
  proof (induction rule: rtranclp_induct)
    case base
    then show ?case by simp
  next
    case (step t u)
    then have t: "(keyed_step H)\<^sup>*\<^sup>* s t" "keyed_step H t u" unfolding keyed_step_def [of H t u] by blast+
    then have "(keyed_step H)\<^sup>*\<^sup>* s u" by (rule rtranclp.rtrancl_into_rtrancl)
    then show ?case using step.hyps(2) step.IH step.prems job_step_keyed by blast
  qed
  then show "(keyed_step H)\<^sup>*\<^sup>* s t" and "keyed t" by simp_all
qed

section \<open>Well-typed tables\<close>

text \<open>
  C25. Over every run of the operations on remote jobs each row stays well typed. Its columns holder,
  lease, token hash and expiry are all absent, or all present under a generation of at least one: absent
  while it is queued and when it was quarantined, present while it is claimed or running and, as the
  record of who finished it, once it has completed; a row that failed or was cancelled may be either. It
  has an end exactly when it has ended, and never more attempts than its bound. Identifiers stay unique,
  and a task never has two active jobs.
\<close>

theorem job_tables_stay_typed:
  assumes "(job_step H)\<^sup>*\<^sup>* db db'" and "job_inv db"
  shows "list_all job_typed (agent_jobs db') \<and> distinct (map aj_id (agent_jobs db')) \<and>
    distinct (map aj_task_id (filter (\<lambda>r. job_active (aj_status r)) (agent_jobs db')))"
  using job_steps_inv [OF assms] by (simp add: job_inv_def keyed_def)

section \<open>The reaper refines the lease machine\<close>

text \<open>
  C24. A committed batch of the reaper refines the abstract lease machine: seen as jobs that wait, are
  leased or are closed under a generation, and tasks with a status, its effect is the fold over the
  expired leases it examined of giving each back or closing it under the next generation, as decided by
  its history, the skill policy, its attempts and its task; its report counts exactly these outcomes.
\<close>

theorem reap_batch_refines_lease_machine:
  assumes "reap_batch benv lsvc fresh n m fence local db = (Inr (counts, go_on), local', fence', db')"
    and "keyed db"
  shows "\<exists>snapshot db1.
    let now = isoformat (dt_instant (mo_clock m)); rows = batch_rows (mo_rows m) fence (expired_rows now n db);
        outcome = decide (request_keys db) snapshot
    in load_locked (env_sha256 benv) now local db = Inr (snapshot, local', db1) \<and>
       abs_state db' = fold (\<lambda>row. abstract_reap (outcome row) row) rows (abs_state db) \<and>
       counts = fold (\<lambda>row. count_outcome (outcome row)) rows no_counts"
proof -
  obtain snapshot db1 where "load_locked (env_sha256 benv) (isoformat (dt_instant (mo_clock m))) local db = Inr (snapshot, local', db1)"
    "abs_state db' = fold (\<lambda>row. abstract_reap (decide (request_keys db) snapshot row) row)
      (batch_rows (mo_rows m) fence (expired_rows (isoformat (dt_instant (mo_clock m))) n db)) (abs_state db)"
    "counts = fold (\<lambda>row. count_outcome (decide (request_keys db) snapshot row))
      (batch_rows (mo_rows m) fence (expired_rows (isoformat (dt_instant (mo_clock m))) n db)) no_counts"
    by (rule batch_refines [OF assms refl refl]) blast
  then show ?thesis by (intro exI [of _ snapshot] exI [of _ db1]) (simp add: Let_def)
qed

section \<open>A reaped worker is locked out\<close>

lemma no_claim_no_lease:
  assumes "row_by aj_id i (agent_jobs db) = Some r" and "\<And>h. job_claim db i \<noteq> Some (g, Some h)"
  shows "\<not> lease_matches H r agent token (Some lease) (Some g) now fresh"
  using assms by (auto simp: job_claim_def lease_matches_def)

lemma reap_releases:
  assumes run: "reap_batch benv lsvc fresh n m fence local db = (Inr (counts, go_on), local', fence', db')" and "keyed db"
    and r: "row_by aj_id i (agent_jobs db) = Some r" "job_leased (aj_status r)"
    and r': "row_by aj_id i (agent_jobs db') = Some r'" "\<not> job_leased (aj_status r')"
  obtains g where "job_claim db' i = Some (g, None)" "aj_lease_generation r \<le> g"
proof -
  define now where "now = isoformat (dt_instant (mo_clock m))"
  define rows where "rows = batch_rows (mo_rows m) fence (expired_rows now n db)"
  obtain dec where eff: "batch_effect now dec rows db db'" "\<forall>row \<in> set rows. unmoved row db"
    by (rule batch_refines [OF assms(1,2) now_def rows_def]) blast
  have "i \<in> row_id ` set rows"
  proof (rule ccontr)
    assume "i \<notin> row_id ` set rows"
    then have "row_by aj_id i (agent_jobs db') = Some r" using eff(1) r(1) by (simp add: batch_effect_def)
    with r' r(2) show False by simp
  qed
  then obtain row why err where row: "row \<in> set rows" "i = row_id row"
    "row_by aj_id i (agent_jobs db') = Some (released_row row (dec row) now why err (rp_job row))"
    using eff(1) by (auto simp: batch_effect_def)
  have "rp_job row = r" using eff(2) row(1,2) r(1) by (simp add: unmoved_def)
  then show ?thesis using that row(3) by (auto simp: job_claim_def released_row_fields)
qed

text \<open>
  C23. A worker whose lease the reaper has taken back is locked out for good: whatever happens
  afterwards, including a new claim of the job by the same worker, no heartbeat and no result under
  the old generation passes the check of the lease again, with any token and at any time.
\<close>

theorem reaped_worker_is_locked_out:
  assumes "reap_batch benv lsvc fresh n m fence local db = (Inr (counts, go_on), local', fence', db1)" and "keyed db"
    and "row_by aj_id i (agent_jobs db) = Some r" and "job_leased (aj_status r)"
    and "row_by aj_id i (agent_jobs db1) = Some r1" and "\<not> job_leased (aj_status r1)"
    and "(job_step H)\<^sup>*\<^sup>* db1 db2"
  shows "(\<exists>e. check_active_lease H agent i token lease (aj_lease_generation r) now db2 = Inl e) \<and>
    check_result_lease H agent i token lease (aj_lease_generation r) now db2 = Inl stale_lease"
proof -
  have "keyed db1" by (rule moves_keyed [OF reap_moves [OF assms(1)] assms(2)])
  note run = keyed_steps [OF assms(7) this]
  obtain g where g: "job_claim db1 i = Some (g, None)" "aj_lease_generation r \<le> g"
    by (rule reap_releases [OF assms(1-6)])
  have gone: "job_claim db2 i \<noteq> Some (aj_lease_generation r, Some h)" for h
    by (rule jobs.lost_forever [OF run(1) g(1)]) (use g(2) in auto)
  show ?thesis
    using no_claim_no_lease [OF _ gone] by (cases "row_by aj_id i (agent_jobs db2)")
      (auto simp: check_active_lease_def check_result_lease_def)
qed

section \<open>The reaper comes to an end\<close>

lemma count_outcome_expired: "rc_expired (count_outcome o' c) = rc_expired c + 1"
  by (cases o') (simp_all add: count_outcome_def Let_def)

lemma reap_rows_expired: "for_each (reap_step env snapshot) rows (c, db) = Inr (c', db') \<Longrightarrow> rc_expired c' = rc_expired c + length rows"
proof (induction rows arbitrary: c db)
  case Nil
  then show ?case by simp
next
  case (Cons row rows)
  then obtain o' db1 where "for_each (reap_step env snapshot) rows (count_outcome o' c, db1) = Inr (c', db')"
    by (auto simp: reap_step_Inr and_then_Inr_iff)
  from Cons.IH [OF this] show ?case by (simp add: count_outcome_expired)
qed

text \<open>A batch after which the loop goes on has examined a row.\<close>

lemma reap_batch_progress:
  assumes "reap_batch benv lsvc fresh n m fence local db = (Inr (counts, True), local', fence', db')"
  shows "0 < rc_expired counts"
proof -
  obtain t fence1 snapshot l db1 where t: "reaper_now (mo_clock m) = Inr t"
    and f: "fence_check lsvc (mo_fence1 m) ''agent lease reaper requires a current maintenance lease'' fence db = (Inr (), fence1)"
    and l: "load_locked (env_sha256 benv) (isoformat t) local db = Inr (snapshot, l, db1)"
    using assms by (auto simp: reap_batch_def split: prod.split_asm sum.split_asm)
  let ?rows = "expired_rows (isoformat t) n db1" and ?env = "\<lparr>re_board = benv, re_now = isoformat t, re_clock = t, re_fresh = fresh\<rparr>"
  have loop: "for_each (reap_step ?env snapshot) (batch_rows (mo_rows m) fence ?rows) (no_counts, db1) = Inr (counts, db')"
    and more: "?rows \<noteq> []"
    using assms t f l by (auto simp: reap_batch_def Let_def split: prod.split_asm sum.split_asm)
  have "batch_rows (mo_rows m) fence ?rows \<noteq> []"
    using more by (cases fence) (auto simp: batch_rows_def)
  then show ?thesis using reap_rows_expired [OF loop] by (cases "batch_rows (mo_rows m) fence ?rows") auto
qed

lemma reap_loop_ends:
  "0 < fuel \<Longrightarrow> max_reaps < rc_expired counts + fuel \<Longrightarrow> reap_loop fuel benv lsvc fresh ms k counts fence local db \<noteq> None"
proof (induction fuel arbitrary: k counts fence local db)
  case 0
  then show ?case by simp
next
  case (Suc fuel)
  show ?case
  proof (cases "rc_expired counts < max_reaps")
    case False
    then show ?thesis by simp
  next
    case True
    then have more: "0 < fuel" using Suc.prems(2) by simp
    obtain r1 fence1 db1 where renew: "renew_fence lsvc (ms k) fence (mo_others (ms k) db) = (r1, fence1, db1)"
      by (cases "renew_fence lsvc (ms k) fence (mo_others (ms k) db)") auto
    obtain r2 local2 fence2 db2 where batch: "reap_batch benv lsvc (fresh k) (min reap_batch_size (max_reaps - rc_expired counts))
        (ms (k + 1)) fence1 local (mo_others (ms (k + 1)) db1) = (r2, local2, fence2, db2)"
      by (metis prod_cases4)
    have "reap_loop fuel benv lsvc fresh ms (k + 2) (add_counts counts c) fence2 local2 db2 \<noteq> None"
      if "r2 = Inr (c, True)" for c
      using Suc.IH [OF more] reap_batch_progress [OF batch [unfolded that]] Suc.prems(2)
      by (simp add: add_counts_def)
    then show ?thesis
      using True renew batch by (cases r1; cases r2) (auto simp: Let_def)
  qed
qed

text \<open>The fuel of \<open>reap_expired\<close> is enough: it always returns or raises.\<close>

lemma reap_expired_ends: "reap_expired benv reaper lsvc board fresh ms maintenance_generation g local db \<noteq> None"
proof -
  have ends: "reap_loop (max_reaps + 1) benv (fence_service reaper lsvc f) fresh ms 1 no_counts f local d \<noteq> None" for f d
    by (rule reap_loop_ends) (simp_all add: no_counts_def)
  obtain c db0 where c: "choose_fence reaper maintenance_generation g (mo_fence1 (ms 0)) (mo_others (ms 0) db) = (c, db0)"
    by (cases "choose_fence reaper maintenance_generation g (mo_fence1 (ms 0)) (mo_others (ms 0) db)") auto
  consider e where "c = Inl e" | "c = Inr None" | fence where "c = Inr (Some fence)"
    by (cases c; cases "projr c") auto
  then show ?thesis
  proof cases
    case (3 fence)
    obtain r k local' fence' db1 where loop: "reap_loop (max_reaps + 1) benv (fence_service reaper lsvc fence) fresh ms 1 no_counts
        fence local db0 = Some (r, k, local', fence', db1)"
      using ends [of fence db0] by (metis option.exhaust prod_cases5)
    show ?thesis
      unfolding reap_expired_def c 3 prod.case sum.case option.case loop by (simp split: prod.split sum.split)
  qed (simp_all add: reap_expired_def c)
qed

end
