(* ===== verification/Lease_Example.thy ===== *)
theory Lease_Example
  imports Job_Safety
begin

text \<open>
  A concrete run of the reaper: one expired lease of a job whose skill may be retried, with empty
  outbox, audit log and policy. The committed batch and its effect are evaluated in stages.
\<close>

section \<open>A fresh event\<close>

lemma required_okI: "v \<noteq> [] \<Longrightarrow> length v \<le> 300 \<Longrightarrow> required_ok label v = Inr ()"
  by (simp add: required_ok_def require_def py_len_def) (meson length_filter_le order_trans)

lemma enqueue_fresh:
  assumes ids: "\<forall>v \<in> set [oq_aggregate_type q, oq_aggregate_id q, oq_topic q, oq_event_type q, oq_dedupe_key q, fresh].
      v \<noteq> [] \<and> length v \<le> 290"
    and "oq_event_id q = None"
    and "assert_safe_shared_payload (env_secret_text env) (oq_payload q) = Inr ()"
    and "oq_payload q = JObj kvs" and "length (json_dumps (oq_payload q)) \<le> max_event_bytes"
    and "json_loads (json_dumps (oq_payload q)) = Some (JObj c)" and "length (json_dumps (JObj c)) \<le> 1000000"
    and "\<And>s. env_fromisoformat env s = Some True"
    and "oq_dedupe_key q \<notin> ob_dedupe_key ` set (outbox_events db)"
    and "''evt_'' @ fresh \<notin> ob_event_id ` set (outbox_events db)"
  obtains i row where "enqueue_locked env clk fresh q db = Inr (i, db\<lparr>outbox_events := outbox_events db @ [row]\<rparr>)"
    "ob_dedupe_key row = oq_dedupe_key q" "ob_event_id row = ''evt_'' @ fresh"
proof -
  let ?e = "(request_event clk fresh q)\<lparr>de_payload := JObj c\<rparr>"
  have fields: "de_schema_version (request_event clk fresh q) = event_schema_version"
    "de_event_id (request_event clk fresh q) = ''evt_'' @ fresh" "de_dedupe_key (request_event clk fresh q) = oq_dedupe_key q"
    "de_topic (request_event clk fresh q) = oq_topic q" "de_event_type (request_event clk fresh q) = oq_event_type q"
    "de_aggregate_type (request_event clk fresh q) = oq_aggregate_type q"
    "de_aggregate_id (request_event clk fresh q) = oq_aggregate_id q" "de_payload (request_event clk fresh q) = oq_payload q"
    using assms(2) by (simp_all add: request_event_def py_or_def or_empty_def)
  have ok: "required_ok label v = Inr ()"
    if "v \<in> set [oq_aggregate_type q, oq_aggregate_id q, oq_topic q, oq_event_type q, oq_dedupe_key q, ''evt_'' @ fresh]" for label v
    by (rule required_okI) (use ids that in auto)
  have canonical: "canonical_json (oq_payload q) = Inr (json_dumps (oq_payload q))"
    using assms(5) by (simp add: canonical_json_def)
  have event: "new_durable_event env (request_event clk fresh q) = Inr ?e"
    unfolding new_durable_event_def fields canonical assms(3,8)
    by (simp add: ok require_def assms(4,6) canonical [unfolded assms(4)] assms(6) [unfolded assms(4)] del: json_dumps.simps)
  have none: "row_by ob_dedupe_key (oq_dedupe_key q) (outbox_events db) = None"
    "row_by ob_event_id (de_event_id ?e) (outbox_events db) = None"
    unfolding row_by_None_iff using assms(9,10) by (simp_all add: fields)
  have "enqueue_locked env clk fresh q db = Inr (next_rowid ob_id (outbox_events db), db\<lparr>outbox_events := outbox_events db @
      [new_outbox_row (next_rowid ob_id (outbox_events db)) ?e (json_dumps (de_payload ?e)) (py_or (oq_message_id q) (oq_aggregate_id q))]\<rparr>)"
    unfolding enqueue_locked_def assms(3) event and_then.simps Let_def none
    using ids assms(7) by (simp add: require_def)
  then show ?thesis by (rule that) (simp_all add: new_outbox_row_def fields)
qed

section \<open>The example\<close>

definition demo_short_env :: board_env where
  "demo_short_env = \<lparr>env_sha256 = (\<lambda>m. ''h''), env_secret_text = (\<lambda>s. False), env_fromisoformat = (\<lambda>s. Some True)\<rparr>"

definition demo_leased_job :: job_row where
  "demo_leased_job = (new_job ''j'' ''t'' ''workspace.list_dir'' ''{}'' 3 ''n'')\<lparr>aj_status := Job_Running,
    aj_claimed_by := Some ''a'', aj_lease_id := Some ''l'', aj_lease_token_hash := Some ''sha256:h'',
    aj_lease_expires_at := Some (isoformat 0), aj_lease_generation := 1, aj_attempt_count := 1\<rparr>"

definition demo_running_task :: task_row where
  "demo_running_task = \<lparr>tk_id = ''t'', tk_title = [], tk_input = [], tk_mode = [], tk_source = [],
    tk_conversation_id = None, tk_status = Task_Running, tk_priority = 0, tk_created_at = [], tk_updated_at = [],
    tk_completed_at = None, tk_error_json = None\<rparr>"

definition demo_job_db :: job_db where
  "demo_job_db = \<lparr>control_plane_instances = [], maintenance_leases = [], audit_events = [],
     message_board_events = [], outbox_events = [], outbox_metrics_singleton = None,
     consumer_deliveries = [], consumer_checkpoints = [], tasks = [demo_running_task], approvals = [], tool_calls = [],
     agent_jobs = [demo_leased_job],
     job_metrics = Some \<lparr>jm_lease_expirations = 0, jm_retries = 0, jm_dead_letter_events = 0, jm_updated_at = None\<rparr>,
     capability_requests = [], capability_grants = [], skill_policy_state = None\<rparr>"

definition demo_reap_moment :: "job_db moment" where
  "demo_reap_moment = \<lparr>mo_clock = \<lparr>dt_instant = 0, dt_aware = True\<rparr>, mo_fence1 = \<lparr>dt_instant = 0, dt_aware = True\<rparr>,
    mo_fence2 = \<lparr>dt_instant = 0, dt_aware = True\<rparr>, mo_latency_ms = 0, mo_rows = 0, mo_others = (\<lambda>d. d)\<rparr>"

definition demo_reaper_env :: reaper_env where
  "demo_reaper_env = \<lparr>re_board = demo_short_env, re_now = isoformat 0, re_clock = 0, re_fresh = (\<lambda>k. k)\<rparr>"

definition demo_reaped :: reaped_row where
  "demo_reaped = \<lparr>rp_job = demo_leased_job, rp_task_status = Task_Running\<rparr>"

text \<open>What the stages need of the state besides jobs and tasks.\<close>

definition demo_stage :: "string list \<Rightarrow> 'z job_db_scheme \<Rightarrow> bool" where
  "demo_stage keys db \<longleftrightarrow> capability_requests db = [] \<and> job_metrics db \<noteq> None \<and>
    map ob_dedupe_key (outbox_events db) = keys \<and> map ob_event_id (outbox_events db) = map (\<lambda>k. ''evt_'' @ k) keys"

lemma demo_stage_audit: "demo_stage keys (reaper_audit env ty payload task db) = demo_stage keys db"
  by (simp add: demo_stage_def reaper_audit_def append_audit_event_def Let_def)

lemma demo_stage_enqueue:
  assumes "demo_stage keys db" and "key \<notin> set keys"
    and "\<forall>v \<in> set [at, ai, topic, ty, key]. v \<noteq> [] \<and> length v \<le> 290"
    and "assert_safe_shared_payload (\<lambda>s. False) (JObj kvs) = Inr ()"
    and "length (json_dumps (JObj kvs)) \<le> max_event_bytes"
    and "json_loads (json_dumps (JObj kvs)) = Some (JObj c)" and "length (json_dumps (JObj c)) \<le> 1000000"
  obtains t where "reaper_enqueue demo_reaper_env at ai topic ty (JObj kvs) task agent key db = Inr (db\<lparr>outbox_events := t\<rparr>)"
    "demo_stage (keys @ [key]) (db\<lparr>outbox_events := t\<rparr>)"
proof -
  let ?q = "\<lparr>oq_aggregate_type = at, oq_aggregate_id = ai, oq_topic = topic, oq_event_type = ty, oq_payload = JObj kvs,
    oq_dedupe_key = key, oq_task_id = Some task, oq_agent_id = agent, oq_message_id = Some ai, oq_event_id = None,
    oq_created_at = Some (isoformat 0)\<rparr>"
  have keys: "ob_dedupe_key ` set (outbox_events db) = set keys"
    "ob_event_id ` set (outbox_events db) = (\<lambda>k. ''evt_'' @ k) ` set keys"
    using assms(1) unfolding demo_stage_def set_map [symmetric] by simp_all
  obtain i row where e: "enqueue_locked demo_short_env 0 key ?q db = Inr (i, db\<lparr>outbox_events := outbox_events db @ [row]\<rparr>)"
    "ob_dedupe_key row = oq_dedupe_key ?q" "ob_event_id row = ''evt_'' @ key"
  proof (rule enqueue_fresh [of ?q key demo_short_env kvs c db 0])
    show "\<forall>v \<in> set [oq_aggregate_type ?q, oq_aggregate_id ?q, oq_topic ?q, oq_event_type ?q, oq_dedupe_key ?q, key].
      v \<noteq> [] \<and> length v \<le> 290" using assms(3) by simp
    show "oq_dedupe_key ?q \<notin> ob_dedupe_key ` set (outbox_events db)" using assms(2) keys by simp
    show "''evt_'' @ key \<notin> ob_event_id ` set (outbox_events db)" using assms(2) unfolding keys by auto
  qed (use assms(4-7) in \<open>simp_all add: demo_short_env_def del: json_dumps.simps\<close>)
  show ?thesis
  proof (rule that [of "outbox_events db @ [row]"])
    show "reaper_enqueue demo_reaper_env at ai topic ty (JObj kvs) task agent key db = Inr (db\<lparr>outbox_events := outbox_events db @ [row]\<rparr>)"
      by (simp add: reaper_enqueue_def demo_reaper_env_def e(1) del: json_dumps.simps)
    show "demo_stage (keys @ [key]) (db\<lparr>outbox_events := outbox_events db @ [row]\<rparr>)"
      using assms(1) e(2,3) by (simp add: demo_stage_def)
  qed
qed

lemma demo_stage_increment:
  assumes "demo_stage keys db"
  obtains m where "increment_operational_metrics now a b c db = Inr (db\<lparr>job_metrics := Some m\<rparr>)"
    "demo_stage keys (db\<lparr>job_metrics := Some m\<rparr>)"
  using assms by (cases "job_metrics db") (auto simp: demo_stage_def increment_operational_metrics_def)

section \<open>Payloads\<close>

lemma demo_payload1:
  "assert_safe_shared_payload (\<lambda>s. False) (JObj [(''job_id'', JStr ''j''), (''lease_generation'', JInt 1)]) = Inr ()"
  "length (json_dumps (JObj [(''job_id'', JStr ''j''), (''lease_generation'', JInt 1)])) \<le> 100"
  "json_loads (json_dumps (JObj [(''job_id'', JStr ''j''), (''lease_generation'', JInt 1)])) =
    Some (JObj [(''job_id'', JStr ''j''), (''lease_generation'', JInt 1)])"
  subgoal by code_simp
  subgoal by code_simp
  subgoal by code_simp
  done

lemma demo_payload2:
  "assert_safe_shared_payload (\<lambda>s. False)
    (JObj [(''job_id'', JStr ''j''), (''status'', JStr ''queued''), (''lease_generation'', JInt 1)]) = Inr ()"
  "length (json_dumps (JObj [(''job_id'', JStr ''j''), (''status'', JStr ''queued''), (''lease_generation'', JInt 1)])) \<le> 100"
  "json_loads (json_dumps (JObj [(''job_id'', JStr ''j''), (''status'', JStr ''queued''), (''lease_generation'', JInt 1)])) =
    Some (JObj [(''job_id'', JStr ''j''), (''lease_generation'', JInt 1), (''status'', JStr ''queued'')])"
  "length (json_dumps (JObj [(''job_id'', JStr ''j''), (''lease_generation'', JInt 1), (''status'', JStr ''queued'')])) \<le> 100"
  subgoal by code_simp
  subgoal by code_simp
  subgoal by code_simp
  subgoal by code_simp
  done

section \<open>The batch\<close>

lemma demo_keys:
  "''agent-job:'' @ ''j'' @ '':lease-expired:'' @ show_int 1 = ''agent-job:j:lease-expired:1''"
  "''agent-job:'' @ ''j'' @ '':'' @ ''requeued'' @ '':'' @ show_int 1 = ''agent-job:j:requeued:1''"
  by code_simp+

lemma demo_job_fields: "aj_id demo_leased_job = ''j''" "aj_task_id demo_leased_job = ''t''" "aj_lease_generation demo_leased_job = 1"
  "aj_claimed_by demo_leased_job = Some ''a''" "aj_status demo_leased_job = Job_Running" "aj_attempt_count demo_leased_job = 1"
  "aj_max_attempts demo_leased_job = 3" "aj_required_skill demo_leased_job = ''workspace.list_dir''"
  "aj_lease_expires_at demo_leased_job = Some (isoformat 0)"
  by (simp_all add: demo_leased_job_def new_job_def)

lemma demo_texts:
  "\<forall>v \<in> set [''agent_job'', ''j'', ''tasks.status'', ''lease_expired'', ''agent-job:j:lease-expired:1'']. v \<noteq> [] \<and> length v \<le> 290"
  "\<forall>v \<in> set [''agent_job'', ''j'', ''tasks.inbox'', ''published'', ''agent-job:j:requeued:1'']. v \<noteq> [] \<and> length v \<le> 290"
  "''agent-job:j:requeued:1'' \<notin> set [''agent-job:j:lease-expired:1'']"
  by code_simp+

lemma demo_record_expiry:
  obtains db1 where "record_expiry demo_reaper_env demo_reaped demo_job_db = Inr db1"
    "demo_stage [''agent-job:j:lease-expired:1''] db1" "agent_jobs db1 = [demo_leased_job]" "tasks db1 = [demo_running_task]"
proof -
  let ?p = "[(''job_id'', JStr ''j''), (''lease_generation'', JInt 1)]"
  define d where "d = reaper_audit demo_reaper_env ''agent.job.lease_expired'' (JObj [(''job_id'', JStr ''j''),
    (''agent_id'', json_opt (Some ''a'')), (''lease_generation'', JInt 1)]) ''t'' demo_job_db"
  have "demo_stage [] d" unfolding d_def demo_stage_audit by (simp add: demo_stage_def demo_job_db_def)
  then obtain t where e: "reaper_enqueue demo_reaper_env ''agent_job'' ''j'' ''tasks.status'' ''lease_expired'' (JObj ?p) ''t'' (Some ''a'')
      ''agent-job:j:lease-expired:1'' d = Inr (d\<lparr>outbox_events := t\<rparr>)"
    "demo_stage [''agent-job:j:lease-expired:1''] (d\<lparr>outbox_events := t\<rparr>)"
    by (rule demo_stage_enqueue [OF _ _ demo_texts(1) demo_payload1(1) _ demo_payload1(3)])
      (use demo_payload1(2) in \<open>simp_all only: max_event_bytes_def list.set empty_iff append_Nil, simp_all\<close>)
  obtain m where m: "increment_operational_metrics (isoformat 0) 1 0 0 (d\<lparr>outbox_events := t\<rparr>) = Inr (d\<lparr>outbox_events := t, job_metrics := Some m\<rparr>)"
    "demo_stage [''agent-job:j:lease-expired:1''] (d\<lparr>outbox_events := t, job_metrics := Some m\<rparr>)"
    using demo_stage_increment [OF e(2), of "isoformat 0" 1 0 0] by metis
  let ?db = "d\<lparr>outbox_events := t, job_metrics := Some m\<rparr>"
  have c: "cancel_capabilities demo_reaper_env ''j'' 1 ''t'' (Some ''a'') ?db = Inr ?db"
    using m(2) by (simp add: cancel_capabilities_def demo_stage_def sql_select_def)
  have agent: "(if or_empty (Some ''a'') = [] then None else Some ''a'') = Some ''a''" by (simp add: or_empty_def)
  have now: "re_now demo_reaper_env = isoformat 0" by (simp add: demo_reaper_env_def)
  have "record_expiry demo_reaper_env demo_reaped demo_job_db = Inr ?db"
    unfolding record_expiry_def Let_def demo_reaped_def reaped_row.select_convs demo_job_fields demo_keys agent now
      d_def [symmetric] e(1) and_then.simps m(1) by (rule c)
  moreover have "agent_jobs ?db = [demo_leased_job] \<and> tasks ?db = [demo_running_task]"
    by (simp add: d_def reaper_audit_def append_audit_event_def Let_def demo_job_db_def)
  ultimately show ?thesis using m(2) that by blast
qed

lemma demo_outcome:
  assumes "demo_stage [''agent-job:j:lease-expired:1''] d"
  obtains d' where "record_outcome demo_reaper_env demo_reaped Reap_Requeued expired_reason d = Inr d'" "job_frame d d'"
proof -
  let ?p = "[(''job_id'', JStr ''j''), (''status'', JStr ''queued''), (''lease_generation'', JInt 1)]"
  define d1 where "d1 = reaper_audit demo_reaper_env (''agent.job.'' @ ''requeued'') (JObj [(''job_id'', JStr ''j''),
    (''lease_generation'', JInt 1), (''reason'', JStr expired_reason)]) ''t'' d"
  have "demo_stage [''agent-job:j:lease-expired:1''] d1" unfolding d1_def demo_stage_audit by (rule assms)
  then obtain t where e: "reaper_enqueue demo_reaper_env ''agent_job'' ''j'' ''tasks.inbox'' ''published'' (JObj ?p) ''t'' None
      ''agent-job:j:requeued:1'' d1 = Inr (d1\<lparr>outbox_events := t\<rparr>)"
    "demo_stage ([''agent-job:j:lease-expired:1''] @ [''agent-job:j:requeued:1'']) (d1\<lparr>outbox_events := t\<rparr>)"
    by (rule demo_stage_enqueue [OF _ demo_texts(3) demo_texts(2) demo_payload2(1) _ demo_payload2(3)])
      (use demo_payload2(2,4) in \<open>simp_all only: max_event_bytes_def, simp_all\<close>)
  obtain m where m: "increment_operational_metrics (isoformat 0) 0 1 0 (d1\<lparr>outbox_events := t\<rparr>) =
      Inr (d1\<lparr>outbox_events := t, job_metrics := Some m\<rparr>)"
    using demo_stage_increment [OF e(2), of "isoformat 0" 0 1 0] by metis
  have now: "re_now demo_reaper_env = isoformat 0" by (simp add: demo_reaper_env_def)
  have name: "outcome_name Reap_Requeued = ''requeued''" by (simp add: outcome_name_def)
  have flags: "(Reap_Requeued = Reap_Requeued) = True" "(Reap_Requeued = Reap_Dead_Lettered) = False" "1 + (0::int) = 1" by simp_all
  have "record_outcome demo_reaper_env demo_reaped Reap_Requeued expired_reason d = Inr (d1\<lparr>outbox_events := t, job_metrics := Some m\<rparr>)"
    unfolding record_outcome_def Let_def demo_reaped_def reaped_row.select_convs demo_job_fields name flags if_True if_False
      demo_keys now d1_def [symmetric] e(1) and_then.simps m(1) by (rule refl)
  then show ?thesis using record_outcome_frame that by blast
qed

lemma demo_reap_row:
  obtains d' where "reap_row_locked demo_reaper_env None demo_reaped demo_job_db = Inr (Reap_Requeued, d')"
proof -
  obtain db1 where db1: "record_expiry demo_reaper_env demo_reaped demo_job_db = Inr db1"
    "demo_stage [''agent-job:j:lease-expired:1''] db1" "agent_jobs db1 = [demo_leased_job]" "tasks db1 = [demo_running_task]"
    by (rule demo_record_expiry)
  obtain db2 where t: "reap_transition demo_reaped Job_Queued (isoformat 0) expired_reason None db1 = Inr db2"
    "tasks db2 = tasks db1" "demo_stage [''agent-job:j:lease-expired:1''] db2"
    using db1(2,3) by (fastforce simp: reap_transition_def or_runtime_error_def transition_job_def Let_def demo_reaped_def
      demo_job_fields job_allowed_def reap_updates_def sql_rowcount_def sql_update_def demo_stage_def)
  obtain db3 where t': "transition_task ''t'' Task_Running Task_Queued (isoformat 0) None db2 = Inr db3"
    "demo_stage [''agent-job:j:lease-expired:1''] db3"
    using t(2,3) db1(4) by (fastforce simp: transition_task_def Let_def task_allowed_def sql_rowcount_def demo_running_task_def
      demo_stage_def)
  obtain d' where o': "record_outcome demo_reaper_env demo_reaped Reap_Requeued expired_reason db3 = Inr d'"
    by (rule demo_outcome [OF t'(2)])
  have facts: "sql_select (\<lambda>r. cr_requesting_job_id r = ''j'' \<and> cr_lease_generation r = 1) (capability_requests demo_job_db) = []"
    "can_redistribute ''workspace.list_dir'' None" "\<not> task_terminal Task_Running" "re_now demo_reaper_env = isoformat 0"
    by (simp_all add: demo_job_db_def sql_select_def can_redistribute_def automatic_retry_skills_def task_terminal_def demo_reaper_env_def)
  have "reap_row_locked demo_reaper_env None demo_reaped demo_job_db = Inr (Reap_Requeued, d')"
    using facts db1(1) t(1) t'(1) o'
    by (simp only: reap_row_locked_def Let_def demo_reaped_def reaped_row.select_convs demo_job_fields and_then.simps)
      (simp add: or_runtime_error_def)
  then show ?thesis by (rule that)
qed

definition demo_batch :: "(py_error + reap_counts \<times> bool) \<times> permission_policy option \<times> reap_fence \<times> job_db" where
  "demo_batch = reap_batch demo_short_env \<lparr>ls_lease_seconds = 5\<rparr> (\<lambda>k. k) 8 demo_reap_moment Unfenced None demo_job_db"

lemma demo_keyed: "keyed demo_job_db"
  by (simp add: keyed_def demo_job_db_def)

lemma demo_expired_rows: "expired_rows (isoformat 0) 8 demo_job_db = [demo_reaped]"
  by (simp add: expired_rows_def demo_job_db_def sql_select_def expired_lease_def demo_job_fields job_leased_def
      demo_running_task_def demo_reaped_def)

lemma demo_batch_commits:
  obtains d' where "demo_batch = (Inr (count_outcome Reap_Requeued no_counts, False), None, Unfenced, d')"
proof -
  obtain d' where r: "reap_row_locked demo_reaper_env None demo_reaped demo_job_db = Inr (Reap_Requeued, d')"
    by (rule demo_reap_row)
  have loop: "for_each (reap_step demo_reaper_env None) [demo_reaped] (no_counts, demo_job_db) =
      Inr (count_outcome Reap_Requeued no_counts, d')"
    using r by (simp add: reap_step_def)
  have clk: "reaper_now (mo_clock demo_reap_moment) = Inr 0" by (simp add: reaper_now_def demo_reap_moment_def)
  have env: "\<lparr>re_board = demo_short_env, re_now = isoformat 0, re_clock = 0, re_fresh = (\<lambda>k. k)\<rparr> = demo_reaper_env"
    by (simp add: demo_reaper_env_def)
  have load: "load_locked (env_sha256 demo_short_env) (isoformat 0) None demo_job_db = Inr (None, None, demo_job_db)"
    by (simp add: load_locked_def demo_job_db_def)
  have "demo_batch = (Inr (count_outcome Reap_Requeued no_counts, False), None, Unfenced, d')"
    unfolding demo_batch_def reap_batch_def clk sum.case load prod.case Let_def env demo_expired_rows
    using loop by (simp add: fence_check_def batch_rows_def)
  then show ?thesis by (rule that)
qed

lemma demo_batch_run: "reap_batch demo_short_env \<lparr>ls_lease_seconds = 5\<rparr> (\<lambda>k. k) 8 demo_reap_moment Unfenced None demo_job_db =
    (Inr (count_outcome Reap_Requeued no_counts, False), None, Unfenced, snd (snd (snd demo_batch)))"
  using demo_batch_commits unfolding demo_batch_def by (metis snd_conv)

lemma demo_clock: "isoformat (dt_instant (mo_clock demo_reap_moment)) = isoformat 0"
  by (simp add: demo_reap_moment_def)

lemma reap_batch_refines_lease_machine_witness:
  "\<exists>outcome.
    abs_state (snd (snd (snd demo_batch))) = abstract_reap outcome demo_reaped (abs_state demo_job_db) \<and>
    count_outcome Reap_Requeued no_counts = count_outcome outcome no_counts"
proof -
  have rows: "batch_rows (mo_rows demo_reap_moment) Unfenced [demo_reaped] = [demo_reaped]" by (simp add: batch_rows_def)
  show ?thesis
    using reap_batch_refines_lease_machine [OF demo_batch_run demo_keyed]
    unfolding Let_def demo_clock demo_expired_rows rows by auto
qed

section \<open>After the batch\<close>

lemma demo_reaped_row:
  obtains why err where "row_by aj_id ''j'' (agent_jobs (snd (snd (snd demo_batch)))) =
    Some (released_row demo_reaped Reap_Requeued (isoformat 0) why err demo_leased_job)"
    "abs_state (snd (snd (snd demo_batch))) = abstract_reap Reap_Requeued demo_reaped (abs_state demo_job_db)"
proof -
  obtain snapshot where s: "count_outcome Reap_Requeued no_counts =
      fold (\<lambda>row. count_outcome (decide (request_keys demo_job_db) snapshot row)) [demo_reaped] no_counts"
    "batch_effect (isoformat 0) (decide (request_keys demo_job_db) snapshot) [demo_reaped] demo_job_db (snd (snd (snd demo_batch)))"
    "abs_state (snd (snd (snd demo_batch))) = fold (\<lambda>row. abstract_reap (decide (request_keys demo_job_db) snapshot row) row)
      [demo_reaped] (abs_state demo_job_db)"
    by (rule batch_refines [OF demo_batch_run demo_keyed refl refl, unfolded demo_clock demo_expired_rows batch_rows_def reap_fence.case]) blast
  have "decide (request_keys demo_job_db) snapshot demo_reaped = Reap_Requeued"
    using s(1) by (cases "decide (request_keys demo_job_db) snapshot demo_reaped") (simp_all add: count_outcome_def no_counts_def)
  with s(2,3) show ?thesis using that by (auto simp: batch_effect_def demo_reaped_def demo_job_fields)
qed

abbreviation demo_after :: job_db where
  "demo_after \<equiv> snd (snd (snd demo_batch))"

lemma demo_after_tables:
  obtains r t where "agent_jobs demo_after = [r]" "tasks demo_after = [t]" "row_by aj_id ''j'' (agent_jobs demo_after) = Some r"
    "aj_id r = ''j''" "aj_task_id r = ''t''" "aj_status r = Job_Queued" "claimable_job r" "tk_id t = ''t''" "tk_status t = Task_Queued"
proof -
  obtain why err where row: "row_by aj_id ''j'' (agent_jobs demo_after) =
    Some (released_row demo_reaped Reap_Requeued (isoformat 0) why err demo_leased_job)"
    and state: "abs_state demo_after = abstract_reap Reap_Requeued demo_reaped (abs_state demo_job_db)"
    by (rule demo_reaped_row)
  let ?r = "released_row demo_reaped Reap_Requeued (isoformat 0) why err demo_leased_job"
  have "jobs_move demo_job_db demo_after" by (rule reap_moves [OF demo_batch_run])
  then have len: "length (agent_jobs demo_after) = 1" "map tk_id (tasks demo_after) = [''t'']"
    by (auto simp: jobs_move_def demo_job_db_def demo_running_task_def dest: list_all2_lengthD)
  then obtain r t where one: "agent_jobs demo_after = [r]" "tasks demo_after = [t]" "tk_id t = ''t''"
    by (auto simp: length_Suc_conv)
  have r: "r = ?r" using row one(1) by (auto simp: sql_select_def split: if_split_asm)
  have "job_fixed r = job_fixed demo_leased_job" unfolding r released_row_def by (rule moved_job_fixed)
  then have id: "aj_id r = ''j''" and task: "aj_task_id r = ''t''" by (simp_all add: job_fixed_def demo_job_fields)
  have queued: "aj_status r = Job_Queued" "claimable_job r"
    by (simp_all add: r claimable_job_def released_row_fields outcome_target_def demo_job_fields)
  have "as_tasks (abs_state demo_after) ''t'' = Some Task_Queued"
    unfolding state by (simp add: abstract_reap_def Let_def outcome_task_def demo_reaped_def demo_job_fields)
  then have "tk_status t = Task_Queued" using one(2,3) by (simp add: abs_state_def sql_select_def)
  then show ?thesis using that [OF one(1,2) _ id task queued one(3)] row unfolding r by blast
qed

text \<open>The same worker claims the job again, under the next generation.\<close>

definition demo_reclaimed :: "py_error + job_db" where
  "demo_reclaimed = claim_transition (\<lambda>m. ''h'') ''a'' ''l2'' ''x'' (isoformat 0) (isoformat 9)
    (the (row_by aj_id ''j'' (agent_jobs demo_after))) demo_after"

lemma demo_reclaims:
  obtains d where "demo_reclaimed = Inr d" "job_step (\<lambda>m. ''h'') demo_after d"
proof -
  obtain r t where a: "agent_jobs demo_after = [r]" "tasks demo_after = [t]" "row_by aj_id ''j'' (agent_jobs demo_after) = Some r"
    "aj_id r = ''j''" "aj_task_id r = ''t''" "aj_status r = Job_Queued" "claimable_job r" "tk_id t = ''t''" "tk_status t = Task_Queued"
    by (rule demo_after_tables)
  obtain d where d: "claim_transition (\<lambda>m. ''h'') ''a'' ''l2'' ''x'' (isoformat 0) (isoformat 9) r demo_after = Inr d"
    using a by (simp add: claim_transition_def dispatch_conflict_def transition_job_def transition_task_def Let_def
      job_allowed_def task_allowed_def sql_rowcount_def)
  show ?thesis
  proof
    show "demo_reclaimed = Inr d" using d a(3) by (simp add: demo_reclaimed_def)
    show "job_step (\<lambda>m. ''h'') demo_after d" by (rule job_step.claim [OF a(3,7) d])
  qed
qed

lemma reaped_worker_is_locked_out_witness:
  "\<exists>d. demo_reclaimed = Inr d \<and>
    (\<exists>e. check_active_lease (\<lambda>m. ''h'') ''a'' ''j'' ''x'' ''l2'' 1 (isoformat 0) d = Inl e) \<and>
    check_result_lease (\<lambda>m. ''h'') ''a'' ''j'' ''x'' ''l2'' 1 (isoformat 0) d = Inl stale_lease"
proof -
  obtain d where d: "demo_reclaimed = Inr d" "job_step (\<lambda>m. ''h'') demo_after d" by (rule demo_reclaims)
  obtain r t where r: "row_by aj_id ''j'' (agent_jobs demo_after) = Some r" "aj_status r = Job_Queued"
    by (rule demo_after_tables)
  have before: "row_by aj_id ''j'' (agent_jobs demo_job_db) = Some demo_leased_job"
    by (simp add: demo_job_db_def sql_select_def demo_job_fields)
  have leased: "job_leased (aj_status demo_leased_job)" "\<not> job_leased (aj_status r)"
    by (simp_all add: job_leased_def demo_job_fields r(2))
  show ?thesis
    using reaped_worker_is_locked_out [OF demo_batch_run demo_keyed before leased(1) r(1) leased(2) r_into_rtranclp [of "job_step (\<lambda>m. ''h'')", OF d(2)]]
      d(1) unfolding demo_job_fields by blast
qed

section \<open>A typed table\<close>

lemma job_tables_stay_typed_witness:
  "job_step (\<lambda>m. ''h'') demo_job_db demo_after \<and> list_all job_typed (agent_jobs demo_after)"
proof -
  have step: "job_step (\<lambda>m. ''h'') demo_job_db demo_after" by (rule job_step.reap [OF demo_batch_run])
  have "job_typed demo_leased_job"
    by (simp add: job_typed_def lease_typed_def job_terminal_def job_leased_def lease_columns_def demo_leased_job_def new_job_def)
  then have "job_inv demo_job_db"
    using demo_keyed by (simp add: job_inv_def) (simp add: demo_job_db_def job_active_def)
  then show ?thesis using step job_tables_stay_typed [OF r_into_rtranclp [of "job_step (\<lambda>m. ''h'')", OF step]] by blast
qed

end
