(* ===== verification/Device_Auth_Safety.thy ===== *)
theory Device_Auth_Safety
  imports Device_Auth
begin

text \<open>
  What pairing guarantees over every run of its operations. Who may authenticate with which credential
  is an abstract machine on pairs of device and digest, \<open>cred_move\<close>, that every operation refines.
\<close>

section \<open>The credential machine\<close>

type_synonym creds = "(string \<times> string) list \<times> (string \<times> string) list"

fun put_cred :: "string \<Rightarrow> string \<Rightarrow> (string \<times> string) list \<Rightarrow> (string \<times> string) list" where
  "put_cred i t [] = [(i, t)]"
| "put_cred i t (c # cs) = (if fst c = i then (i, t) # cs else c # put_cred i t cs)"

definition cred_sub :: "(string \<times> string) list \<Rightarrow> (string \<times> string) list \<Rightarrow> bool" where
  "cred_sub cs' cs \<longleftrightarrow> set cs' \<subseteq> set cs \<and> (distinct (map fst cs) \<longrightarrow> distinct (map fst cs')) \<and>
    (distinct (map snd cs) \<longrightarrow> distinct (map snd cs'))"

text \<open>Candidates are dropped, minted under an unused digest, or promoted. \<open>h\<close> is never minted.\<close>

inductive cred_move :: "string \<Rightarrow> creds \<Rightarrow> creds \<Rightarrow> bool" for h where
  drop: "cred_sub cs' cs \<Longrightarrow> cred_move h (ds, cs) (ds, cs')"
| mint: "t \<notin> snd ` set ds \<Longrightarrow> t \<notin> snd ` set (filter (\<lambda>c. fst c \<noteq> i) cs) \<Longrightarrow> t \<noteq> h \<Longrightarrow>
    cred_move h (ds, cs) (ds, filter (\<lambda>c. fst c \<noteq> i) cs @ [(i, t)])"
| promote: "(i, t) \<in> set cs \<Longrightarrow> t \<notin> snd ` set ds \<Longrightarrow> cred_move h (ds, cs) (put_cred i t ds, filter (\<lambda>c. fst c \<noteq> i) cs)"

definition cred_wf :: "creds \<Rightarrow> bool" where
  "cred_wf s \<longleftrightarrow> distinct (map fst (fst s)) \<and> distinct (map snd (fst s)) \<and> distinct (map fst (snd s)) \<and>
    distinct (map snd (snd s)) \<and> snd ` set (fst s) \<inter> snd ` set (snd s) = {}"

definition cred_dead :: "string \<Rightarrow> creds \<Rightarrow> bool" where
  "cred_dead h s \<longleftrightarrow> h \<notin> snd ` set (fst s) \<and> h \<notin> snd ` set (snd s)"

lemma put_cred_fst: "map fst (put_cred i t ds) = (if i \<in> fst ` set ds then map fst ds else map fst ds @ [i])"
  by (induction ds) auto

lemma put_cred_set: "c \<in> set (put_cred i t ds) \<Longrightarrow> c = (i, t) \<or> c \<in> set ds"
  by (induction ds) (auto split: if_split_asm)

lemma put_cred_other: "distinct (map fst ds) \<Longrightarrow> c \<in> set (put_cred i t ds) \<Longrightarrow> c = (i, t) \<or> c \<in> set ds \<and> fst c \<noteq> i"
  by (induction ds) (auto split: if_split_asm simp: image_iff)

lemma put_cred_snd: "distinct (map snd ds) \<Longrightarrow> t \<notin> snd ` set ds \<Longrightarrow> distinct (map snd (put_cred i t ds))"
  by (induction ds) (auto dest: put_cred_set)

lemma put_cred_lookup: "(i, t) \<in> set (put_cred i t ds)"
  by (induction ds) auto

lemma snd_unique: "distinct (map snd cs) \<Longrightarrow> (a, t) \<in> set cs \<Longrightarrow> (b, t) \<in> set cs \<Longrightarrow> a = b"
  using distinct_key_eq [of snd cs "(a, t)" "(b, t)"] by simp

lemma cred_move_wf: "cred_move h s s' \<Longrightarrow> cred_wf s \<Longrightarrow> cred_wf s'"
proof (induction rule: cred_move.induct)
  case (drop cs' cs ds)
  then show ?case by (auto simp: cred_wf_def cred_sub_def)
next
  case (mint t ds i cs)
  then show ?case by (auto simp: cred_wf_def distinct_map_filter)
next
  case (promote i t cs ds)
  have "snd ` set (put_cred i t ds) \<subseteq> insert t (snd ` set ds)" using put_cred_set by fastforce
  moreover have "t \<notin> snd ` set (filter (\<lambda>c. fst c \<noteq> i) cs)"
  proof
    assume "t \<in> snd ` set (filter (\<lambda>c. fst c \<noteq> i) cs)"
    then obtain j where "(j, t) \<in> set cs" "j \<noteq> i" by auto
    then show False using promote snd_unique [of cs j t i] by (simp add: cred_wf_def)
  qed
  moreover have "snd ` set (filter (\<lambda>c. fst c \<noteq> i) cs) \<subseteq> snd ` set cs" by auto
  moreover have "snd ` set ds \<inter> snd ` set cs = {}" using promote by (simp add: cred_wf_def)
  ultimately have "snd ` set (put_cred i t ds) \<inter> snd ` set (filter (\<lambda>c. fst c \<noteq> i) cs) = {}" by blast
  then show ?case
    using promote put_cred_snd [of ds t i] by (simp add: cred_wf_def distinct_map_filter put_cred_fst)
qed

lemma cred_moves_wf: "(cred_move h)\<^sup>*\<^sup>* s s' \<Longrightarrow> cred_wf s \<Longrightarrow> cred_wf s'"
  by (induction rule: rtranclp_induct) (auto intro: cred_move_wf)

lemma cred_move_dead: "cred_move h s s' \<Longrightarrow> cred_dead h s \<Longrightarrow> cred_dead h s'"
proof (induction rule: cred_move.induct)
  case (promote i t cs ds)
  have "snd ` set (put_cred i t ds) \<subseteq> insert t (snd ` set ds)" using put_cred_set by fastforce
  moreover have "t \<noteq> h" using promote by (force simp: cred_dead_def)
  ultimately show ?case using promote by (auto simp: cred_dead_def)
qed (auto simp: cred_dead_def cred_sub_def)

lemma cred_moves_dead: "(cred_move h)\<^sup>*\<^sup>* s s' \<Longrightarrow> cred_dead h s \<Longrightarrow> cred_dead h s'"
  by (induction rule: rtranclp_induct) (auto intro: cred_move_dead)

text \<open>A digest that is a device's credential stays it until it is dead.\<close>

lemma cred_move_owner:
  assumes "cred_move h s s'" and "cred_wf s" and "(i, h) \<in> set (fst s) \<or> cred_dead h s"
  shows "(i, h) \<in> set (fst s') \<or> cred_dead h s'"
proof (cases "cred_dead h s")
  case True
  then show ?thesis using cred_move_dead [OF assms(1)] by simp
next
  case False
  then have own: "(i, h) \<in> set (fst s)" using assms(3) by simp
  show ?thesis
    using assms(1,2) own
  proof (cases rule: cred_move.cases)
    case (promote j t cs ds)
    show ?thesis
    proof (cases "j = i")
      case True
      have "snd c \<noteq> h" if "c \<in> set (put_cred i t ds)" for c
      proof
        assume c: "snd c = h"
        have ne: "t \<noteq> h" using promote own by (force simp: True)
        then have "c \<noteq> (i, t)" using c by auto
        then have "c \<in> set ds" "fst c \<noteq> i"
          using put_cred_other [OF _ that] assms(2) c promote(1) by (auto simp: cred_wf_def)
        then show False using own assms(2) c promote(1) snd_unique [of ds "fst c" h i]
          by (cases c) (auto simp: cred_wf_def)
      qed
      then have "h \<notin> snd ` set (put_cred i t ds)" by blast
      moreover have "h \<in> snd ` set ds" using own unfolding promote(1) by force
      then have "h \<notin> snd ` set cs" using assms(2) unfolding promote(1) cred_wf_def by auto
      ultimately show ?thesis using promote True by (auto simp: cred_dead_def)
    next
      case False
      have "(i, h) \<in> set (put_cred j t ds)"
        using own False unfolding promote(1) by (induction ds) auto
      then show ?thesis using promote by simp
    qed
  qed auto
qed

lemma cred_moves_owner:
  assumes "(cred_move h)\<^sup>*\<^sup>* s s'" and "cred_wf s" and "(i, h) \<in> set (fst s) \<or> cred_dead h s"
  shows "(i, h) \<in> set (fst s') \<or> cred_dead h s'"
  using assms
proof (induction rule: rtranclp_induct)
  case base
  then show ?case by simp
next
  case (step t u)
  then show ?case using cred_move_owner [OF step.hyps(2) cred_moves_wf [OF step.hyps(1)]] by blast
qed

section \<open>The operations refine it\<close>

definition creds :: "'z auth_db_scheme \<Rightarrow> creds" where
  "creds db = (map (\<lambda>d. (dv_id d, dv_token d)) (devices db), map (\<lambda>r. (pd_device_id r, pd_token_hash r)) (pairing_candidates db))"

definition auth_wf :: "'z auth_db_scheme \<Rightarrow> bool" where
  "auth_wf db \<longleftrightarrow> cred_wf (creds db)"

abbreviation cred_moves :: "string \<Rightarrow> 'z auth_db_scheme \<Rightarrow> 'z auth_db_scheme \<Rightarrow> bool" where
  "cred_moves h db db' \<equiv> (cred_move h)\<^sup>*\<^sup>* (creds db) (creds db')"

lemma cred_sub_filter: "cred_sub (map (\<lambda>r. (f r, g r)) (filter P t)) (map (\<lambda>r. (f r, g r)) t)"
  by (auto simp: cred_sub_def distinct_map_filter comp_def)

lemma move_drop:
  assumes "map (\<lambda>d. (dv_id d, dv_token d)) (devices db') = map (\<lambda>d. (dv_id d, dv_token d)) (devices db)"
    and "pairing_candidates db' = filter P (pairing_candidates db)"
  shows "cred_moves h db db'"
  using cred_move.drop [OF cred_sub_filter] assms by (fastforce simp: creds_def)

lemma move_same: "creds db' = creds db \<Longrightarrow> cred_moves h db db'"
  by simp

lemma delete_expired_moves: "cred_moves h db (delete_expired_candidates now db)"
  by (rule move_drop) (simp_all add: delete_expired_candidates_def sql_delete_def)

lemma creds_touch_devices:
  assumes "\<And>d. dv_id (f d) = dv_id d" and "\<And>d. dv_token (f d) = dv_token d"
  shows "creds (db\<lparr>devices := sql_update P f (devices db)\<rparr>) = creds db"
  using assms by (simp add: creds_def sql_update_def)

lemma creds_touch_candidates:
  assumes "\<And>r. pd_device_id (f r) = pd_device_id r" and "\<And>r. pd_token_hash (f r) = pd_token_hash r"
  shows "creds (db\<lparr>pairing_candidates := sql_update P f (pairing_candidates db)\<rparr>) = creds db"
  using assms by (simp add: creds_def sql_update_def)

lemma creds_frame [simp]: "creds (db\<lparr>pairing_codes := a\<rparr>) = creds db" "creds (db\<lparr>websocket_tickets := b\<rparr>) = creds db"
  by (simp_all add: creds_def)

lemma upsert_put: "distinct (map dv_id t) \<Longrightarrow> map (\<lambda>d. (dv_id d, dv_token d)) (upsert_device ready h now t) =
    put_cred (pd_device_id ready) h (map (\<lambda>d. (dv_id d, dv_token d)) t)"
proof (induction t)
  case Nil
  then show ?case by (simp add: upsert_device_def sql_select_def)
next
  case (Cons d t)
  show ?case
  proof (cases "dv_id d = pd_device_id ready")
    case True
    then have "sql_update (\<lambda>d. dv_id d = pd_device_id ready) f t = t" for f
      using Cons.prems by (intro sql_update_id) (force simp: image_iff)
    then show ?thesis using True by (simp add: upsert_device_def sql_select_def sql_update_def)
  next
    case False
    then show ?thesis
      using Cons by (auto simp: upsert_device_def sql_select_def sql_update_def split: if_split_asm)
  qed
qed

lemma promote_moves:
  assumes "row_by dv_token h' (devices db) = None" and "auth_wf db"
  shows "cred_moves h db (promote_candidate h' now db)"
proof (cases "fetchone (sql_select (\<lambda>r. pd_token_hash r = h' \<and> pd_status r = ''finalized'' \<and> now < pd_expires_at r)
        (pairing_candidates db))")
  case None
  then show ?thesis by (simp add: promote_candidate_def)
next
  case (Some ready)
  then have r: "ready \<in> set (pairing_candidates db)" "pd_token_hash ready = h'"
    by (auto dest: fetchone_select_Some)
  let ?i = "pd_device_id ready"
  have ids: "distinct (map dv_id (devices db))"
    using assms(2) by (simp add: auth_wf_def cred_wf_def creds_def comp_def)
  have "creds (promote_candidate h' now db) = (put_cred ?i h' (fst (creds db)), filter (\<lambda>c. fst c \<noteq> ?i) (snd (creds db)))"
    by (simp add: promote_candidate_def Some creds_def upsert_put [OF ids] sql_delete_def filter_map comp_def)
  moreover have "(?i, h') \<in> set (snd (creds db))" using r by (force simp: creds_def)
  moreover have "h' \<notin> snd ` set (fst (creds db))"
    using assms(1) unfolding row_by_None_iff by (auto simp: creds_def)
  ultimately show ?thesis
    using cred_move.promote [of ?i h' "snd (creds db)" "fst (creds db)" h] by simp
qed

lemma wf_moves: "cred_moves h db db' \<Longrightarrow> auth_wf db \<Longrightarrow> auth_wf db'"
  unfolding auth_wf_def by (rule cred_moves_wf)

lemma authenticate_locked_moves:
  assumes "authenticate_token_locked h' now db = (p, db')" and "auth_wf db"
  shows "cred_moves h db db'"
proof -
  let ?db1 = "delete_expired_candidates now db"
  define db2 where "db2 = (case row_by dv_token h' (devices ?db1) of None \<Rightarrow> promote_candidate h' now ?db1 | Some d \<Rightarrow> ?db1)"
  note m1 = delete_expired_moves [of h db now]
  have "cred_moves h ?db1 db2"
    unfolding db2_def using promote_moves wf_moves [OF m1 assms(2)]
    by (cases "row_by dv_token h' (devices ?db1)") simp_all
  then have m2: "cred_moves h db db2" using m1 by (rule rtranclp_trans [rotated])
  have "creds db' = creds db2"
    using assms(1) by (auto simp: authenticate_token_locked_def db2_def [symmetric] Let_def creds_touch_devices
      split: option.split_asm)
  then show ?thesis using m2 by simp
qed

lemma stage_moves:
  assumes "stage_candidate env svc t i name tokens hex db = Inr (c, db')" and "\<forall>x \<in> set tokens. stored_token env x \<noteq> h"
  shows "cred_moves h db db'"
proof -
  let ?db1 = "delete_expired_candidates (isoformat t) db"
  let ?db2 = "?db1\<lparr>pairing_candidates := sql_delete (\<lambda>r. pd_device_id r = i) (pairing_candidates ?db1)\<rparr>"
  obtain token where f: "find (\<lambda>x. \<not> token_taken (stored_token env x) ?db2) (take 5 tokens) = Some token"
    using assms(1) by (cases "find (\<lambda>x. \<not> token_taken (stored_token env x) ?db2) (take 5 tokens)")
      (simp_all add: stage_candidate_def Let_def)
  then have free: "\<not> token_taken (stored_token env token) ?db2" and mem: "token \<in> set tokens"
    by (auto simp: find_Some_iff dest: in_set_takeD)
  obtain expires db3 where ins: "insert_candidate (staged_candidate (''pair_'' @ hex) (stored_token env token) i name t expires) ?db2 = Inr db3"
    and db': "db' = db3\<lparr>pairing_codes := []\<rparr>"
    using assms(1) f by (auto simp: stage_candidate_def Let_def and_then_Inr_iff)
  define row where "row = staged_candidate (''pair_'' @ hex) (stored_token env token) i name t expires"
  have row: "pd_device_id row = i" "pd_token_hash row = stored_token env token" by (simp_all add: row_def staged_candidate_def)
  have "pairing_candidates db3 = pairing_candidates ?db2 @ [row]" "devices db3 = devices ?db2"
    using ins unfolding row_def [symmetric] by (auto simp: insert_candidate_def split: if_split_asm)
  then have "creds db' = (fst (creds ?db1), filter (\<lambda>c. fst c \<noteq> i) (snd (creds ?db1)) @ [(i, stored_token env token)])"
    by (simp add: creds_def db' row sql_delete_def filter_map comp_def)
  moreover have "stored_token env token \<notin> snd ` set (fst (creds ?db1))"
    "stored_token env token \<notin> snd ` set (filter (\<lambda>c. fst c \<noteq> i) (snd (creds ?db1)))"
    using free by (auto simp: token_taken_def sql_select_def filter_empty_conv creds_def sql_delete_def)
  ultimately have "cred_moves h ?db1 db'"
    using cred_move.mint [of "stored_token env token" "fst (creds ?db1)" i "snd (creds ?db1)" h] assms(2) mem by simp
  with delete_expired_moves show ?thesis by (rule rtranclp_trans)
qed

lemma complete_moves:
  assumes "\<forall>x \<in> set tokens. stored_token env x \<noteq> h"
  shows "cred_moves h db (snd (complete_pairing env svc clk code i name tokens hex db))"
proof -
  have "cred_moves h db (snd (transaction (stage_candidate env svc t i name tokens hex) db))" for t
    by (rule transaction_preserves) (simp, erule stage_moves, rule assms)
  then show ?thesis by (simp add: complete_pairing_def Let_def split: sum.split option.split)
qed

lemma candidate_auth_moves: "cred_moves h db (snd (authenticate_pairing_candidate env clk token db))"
proof -
  have "cred_moves h db (snd (transaction (\<lambda>db. and_then (auth_now clk) (\<lambda>now.
       let db1 = delete_expired_candidates (isoformat now) db in
       Inr (fetchone (sql_select (\<lambda>r. pd_token_hash r = stored_token env token \<and> isoformat now < pd_expires_at r \<and>
         pd_status r = ''staged'') (pairing_candidates db1)), db1))) db))"
    by (rule transaction_preserves) (auto simp: and_then_Inr_iff Let_def intro: delete_expired_moves)
  then show ?thesis by (simp add: authenticate_pairing_candidate_def)
qed

lemma finalize_moves: "cred_moves h db (snd (finalize_pairing env svc clk token pid i db))"
proof -
  have body: "cred_moves h db db'" if "and_then (auth_now clk) (\<lambda>t.
       let h = stored_token env token; now = isoformat t; db1 = delete_expired_candidates now db in
       case row_by dv_token h (devices db1) of
         Some active \<Rightarrow>
           if dv_id active \<noteq> i \<or> (case dv_last_pairing_id active of None \<Rightarrow> ''None'' | Some p \<Rightarrow> p) \<noteq> pid
           then Inl (PairingConflict ''pairing finalization does not match this credential'')
           else Inr (Some \<lparr>pf_pairing_id = pid, pf_device_id = i, pf_status = ''active'',
               pf_already_finalized = True\<rparr>,
             db1\<lparr>devices := sql_update (\<lambda>d. dv_id d = i) (\<lambda>d. d\<lparr>dv_last_seen_at := Some now\<rparr>) (devices db1)\<rparr>)
       | None \<Rightarrow>
           (case fetchone (sql_select (\<lambda>r. pd_token_hash r = h \<and> now < pd_expires_at r) (pairing_candidates db1)) of
              None \<Rightarrow> Inr (None, db1)
            | Some staged \<Rightarrow>
                if pd_pairing_id staged \<noteq> pid \<or> pd_device_id staged \<noteq> i
                then Inl (PairingConflict ''pairing finalization does not match this candidate'')
                else
                  (let ready = (\<lambda>was. Some \<lparr>pf_pairing_id = pid, pf_device_id = i, pf_status = ''ready'',
                       pf_already_finalized = was\<rparr>) in
                   if pd_status staged = ''finalized'' then Inr (ready True, db1)
                   else and_then (dt_add_seconds t (au_candidate_ttl_seconds svc)) (\<lambda>activation_expires.
                     Inr (ready False, db1\<lparr>pairing_candidates := sql_update
                       (\<lambda>r. pd_pairing_id r = pid \<and> pd_token_hash r = h \<and> pd_status r = ''staged'')
                       (\<lambda>r. r\<lparr>pd_status := ''finalized'', pd_finalized_at := Some now,
                         pd_expires_at := isoformat activation_expires\<rparr>) (pairing_candidates db1)\<rparr>))))) = Inr (r, db')" for r db'
  proof -
    note run = that
    obtain t where t: "creds db' = creds (delete_expired_candidates (isoformat t) db)"
      using run
      by (auto simp: Let_def creds_touch_devices creds_touch_candidates split: option.split_asm if_split_asm)
    show ?thesis using delete_expired_moves [of h db "isoformat t"] t by simp
  qed
  show ?thesis
    unfolding finalize_pairing_def by (simp, intro impI, rule transaction_preserves) (auto intro: body)
qed

lemma authenticate_moves:
  assumes "auth_wf db"
  shows "cred_moves h db (snd (authenticate_token env clk0 clk (\<lambda>d. d) token db))"
proof -
  have body: "cred_moves h db db'" if "and_then (auth_now clk) (\<lambda>now.
         case authenticate_token_locked (stored_token env token) (isoformat now) db of
           (p, db1) \<Rightarrow> Inr (map_option (\<lambda>q. q\<lparr>pl_last_seen_at := Some (isoformat now)\<rparr>) p, db1)) = Inr (r, db')" for r db'
  proof -
    note run = that
    obtain t where "auth_now clk = Inr t" using run by (cases "auth_now clk") simp_all
    then obtain p where "authenticate_token_locked (stored_token env token) (isoformat t) db = (p, db')"
      using run by (cases "authenticate_token_locked (stored_token env token) (isoformat t) db") simp
    then show ?thesis by (rule authenticate_locked_moves [OF _ assms])
  qed
  have "cred_moves h db (snd (transaction (\<lambda>db. and_then (auth_now clk) (\<lambda>now.
         case authenticate_token_locked (stored_token env token) (isoformat now) db of
           (p, db1) \<Rightarrow> Inr (map_option (\<lambda>q. q\<lparr>pl_last_seen_at := Some (isoformat now)\<rparr>) p, db1))) db))"
    by (rule transaction_preserves) (simp, erule body)
  then show ?thesis by (simp add: authenticate_token_def split: sum.split)
qed

lemma ticket_moves:
  assumes "auth_wf db"
  shows "cred_moves h db (snd (create_websocket_ticket env clk0 clk (\<lambda>d. d) token ticket db))"
proof -
  have body: "cred_moves h db db'" if "and_then (auth_now clk) (\<lambda>t.
         case authenticate_token_locked (stored_token env token) (isoformat t) db of
           (None, db1) \<Rightarrow> Inr (None, db1)
         | (Some p, db1) \<Rightarrow>
             and_then (dt_add_seconds t 30) (\<lambda>expires.
               let kept = sql_delete (\<lambda>r. wt_expires_at r < isoformat t \<or> wt_device_id r = pl_id p) (websocket_tickets db1);
                   h = ae_sha256 env ticket
               in if sql_select (\<lambda>r. wt_ticket_hash r = h) kept \<noteq> []
                  then Inl (IntegrityError ''UNIQUE constraint failed: websocket_tickets.ticket_hash'')
                  else Inr (Some ticket, db1\<lparr>websocket_tickets := kept @
                    [\<lparr>wt_ticket_hash = h, wt_device_id = pl_id p, wt_expires_at = isoformat expires\<rparr>]\<rparr>))) = Inr (r, db')" for r db'
  proof -
    note run = that
    obtain t where t: "auth_now clk = Inr t" using run by (cases "auth_now clk") simp_all
    obtain p db1 where a: "authenticate_token_locked (stored_token env token) (isoformat t) db = (p, db1)"
      by (rule prod.exhaust)
    have "creds db' = creds db1"
      using run by (cases p) (auto simp: t a Let_def and_then_Inr_iff split: if_split_asm)
    then show ?thesis using authenticate_locked_moves [OF a assms, of h] by simp
  qed
  have "cred_moves h db (snd (transaction (\<lambda>db. and_then (auth_now clk) (\<lambda>t.
         case authenticate_token_locked (stored_token env token) (isoformat t) db of
           (None, db1) \<Rightarrow> Inr (None, db1)
         | (Some p, db1) \<Rightarrow>
             and_then (dt_add_seconds t 30) (\<lambda>expires.
               let kept = sql_delete (\<lambda>r. wt_expires_at r < isoformat t \<or> wt_device_id r = pl_id p) (websocket_tickets db1);
                   h = ae_sha256 env ticket
               in if sql_select (\<lambda>r. wt_ticket_hash r = h) kept \<noteq> []
                  then Inl (IntegrityError ''UNIQUE constraint failed: websocket_tickets.ticket_hash'')
                  else Inr (Some ticket, db1\<lparr>websocket_tickets := kept @
                    [\<lparr>wt_ticket_hash = h, wt_device_id = pl_id p, wt_expires_at = isoformat expires\<rparr>]\<rparr>)))) db))"
    by (rule transaction_preserves) (simp, erule body)
  then show ?thesis by (simp add: create_websocket_ticket_def split: sum.split)
qed

lemma consume_creds: "creds (snd (consume_websocket_ticket env clk ticket db)) = creds db"
  unfolding consume_websocket_ticket_def by (rule transaction_preserves) (auto simp: Let_def)

lemma activate_creds: "creds (snd (activate_websocket_connection clk i sid conn db)) = creds db"
proof -
  have "creds (snd (transaction (\<lambda>db. and_then (auth_now clk) (\<lambda>t.
       let hit = (\<lambda>d. dv_id d = i \<and> dv_last_pairing_id d = Some sid \<and> \<not> cutover_pending (dv_id d) (isoformat t) db)
       in Inr (sql_rowcount hit (devices db) = 1,
         db\<lparr>devices := sql_update hit (\<lambda>d. d\<lparr>dv_websocket_connection_id := Some conn\<rparr>) (devices db)\<rparr>))) db)) = creds db"
    by (rule transaction_preserves) (auto simp: Let_def creds_touch_devices)
  then show ?thesis by (simp add: activate_websocket_connection_def)
qed

lemma clear_creds: "creds (clear_websocket_connection i sid conn db) = creds db"
  by (simp add: clear_websocket_connection_def creds_touch_devices)

lemma create_code_creds: "creds (snd (create_pairing_code env svc clk n db)) = creds db"
  unfolding create_pairing_code_def by (rule transaction_preserves) (auto simp: Let_def)

section \<open>Runs\<close>

text \<open>
  One operation by anyone. The random generators never again give a credential with digest \<open>h\<close> or a
  ticket with digest \<open>k\<close>. \<open>other\<close> is any transaction that leaves credentials and tickets alone.
\<close>

inductive auth_step :: "auth_env \<Rightarrow> string \<Rightarrow> string \<Rightarrow> 'z auth_db_scheme \<Rightarrow> 'z auth_db_scheme \<Rightarrow> bool" for env h k where
  code: "auth_step env h k db (snd (create_pairing_code env svc clk n db))"
| complete: "\<forall>x \<in> set tokens. stored_token env x \<noteq> h \<Longrightarrow>
    auth_step env h k db (snd (complete_pairing env svc clk code i name tokens hex db))"
| candidate: "auth_step env h k db (snd (authenticate_pairing_candidate env clk token db))"
| finalize: "auth_step env h k db (snd (finalize_pairing env svc clk token pid i db))"
| authenticate: "auth_step env h k db (snd (authenticate_token env clk0 clk (\<lambda>d. d) token db))"
| ticket: "ae_sha256 env ticket \<noteq> k \<Longrightarrow>
    auth_step env h k db (snd (create_websocket_ticket env clk0 clk (\<lambda>d. d) token ticket db))"
| consume: "auth_step env h k db (snd (consume_websocket_ticket env clk ticket db))"
| activate: "auth_step env h k db (snd (activate_websocket_connection clk i sid conn db))"
| clear: "auth_step env h k db (clear_websocket_connection i sid conn db)"
| other: "creds db' = creds db \<Longrightarrow> websocket_tickets db' = websocket_tickets db \<Longrightarrow> auth_step env h k db db'"

lemma auth_step_moves: "auth_step env h k db db' \<Longrightarrow> auth_wf db \<Longrightarrow> cred_moves h db db'"
  by (induction rule: auth_step.induct)
    (simp_all add: create_code_creds complete_moves candidate_auth_moves finalize_moves authenticate_moves ticket_moves
      consume_creds activate_creds clear_creds)

lemma auth_steps_moves: "(auth_step env h k)\<^sup>*\<^sup>* db db' \<Longrightarrow> auth_wf db \<Longrightarrow> cred_moves h db db'"
proof (induction rule: rtranclp_induct)
  case base
  then show ?case by simp
next
  case (step t u)
  have m: "cred_moves h db t" using step by blast
  have "cred_moves h t u" by (rule auth_step_moves [OF step.hyps(2) wf_moves [OF m step.prems]])
  with m show ?case by (rule rtranclp_trans)
qed

section \<open>Replaced credentials\<close>

lemma dead_authenticate:
  assumes "cred_dead h (creds db)"
  shows "fst (authenticate_token_locked h now db) = None"
proof -
  let ?db1 = "delete_expired_candidates now db"
  have "cred_dead h (creds ?db1)" by (rule cred_moves_dead [OF delete_expired_moves assms])
  then have d: "row_by dv_token h (devices ?db1) = None" "sql_select (\<lambda>r. pd_token_hash r = h \<and> pd_status r = ''finalized'' \<and>
      now < pd_expires_at r) (pairing_candidates ?db1) = []"
    unfolding row_by_None_iff by (force simp: cred_dead_def creds_def sql_select_def filter_empty_conv)+
  then have "promote_candidate h now ?db1 = ?db1" by (simp add: promote_candidate_def)
  then show ?thesis using d(1) by (simp add: authenticate_token_locked_def Let_def)
qed

text \<open>
  C26. A credential that has been replaced is dead: once a device's credential has changed, whatever
  happens afterwards the former one neither authenticates nor gets a WebSocket ticket, at any time,
  as long as the random generator does not give the same value again.
\<close>

theorem replaced_credential_is_dead:
  assumes "auth_wf db0" and "row_by dv_id i (devices db0) = Some d" and "dv_token d = stored_token env token"
    and "(auth_step env (stored_token env token) k)\<^sup>*\<^sup>* db0 db1"
    and "row_by dv_id i (devices db1) = Some d1" and "dv_token d1 \<noteq> stored_token env token"
    and "(auth_step env (stored_token env token) k)\<^sup>*\<^sup>* db1 db2"
  shows "fst (authenticate_token env clk0 clk (\<lambda>d. d) token db2) \<noteq> Inr (Some p) \<and>
    fst (create_websocket_ticket env clk0 clk (\<lambda>d. d) token ticket db2) \<noteq> Inr (Some t)"
proof -
  let ?h = "stored_token env token"
  have "(i, ?h) \<in> set (fst (creds db0))"
    using row_by_SomeD [OF assms(2)] assms(3) by (force simp: creds_def)
  note m1 = auth_steps_moves [OF assms(4,1)]
  have wf1: "auth_wf db1" by (rule wf_moves [OF m1 assms(1)])
  have "(i, ?h) \<in> set (fst (creds db1)) \<or> cred_dead ?h (creds db1)"
    using cred_moves_owner [OF m1] assms(1) \<open>(i, ?h) \<in> set (fst (creds db0))\<close> by (simp add: auth_wf_def)
  moreover have "(i, ?h) \<notin> set (fst (creds db1))"
  proof
    assume "(i, ?h) \<in> set (fst (creds db1))"
    then obtain x where x: "x \<in> set (devices db1)" "dv_id x = i" "dv_token x = ?h" by (auto simp: creds_def)
    have "distinct (map dv_id (devices db1))" using wf1 by (simp add: auth_wf_def cred_wf_def creds_def comp_def)
    then show False using row_by_unique [of dv_id "devices db1" x] x assms(5,6) by simp
  qed
  ultimately have dead: "cred_dead ?h (creds db2)"
    using cred_moves_dead [OF auth_steps_moves [OF assms(7) wf1]] by blast
  have auth: "\<exists>d. authenticate_token_locked ?h now db2 = (None, d)" for now
    using dead_authenticate [OF dead, of now] by (cases "authenticate_token_locked ?h now db2") simp
  have "fst (authenticate_token env clk0 clk (\<lambda>d. d) token db2) \<noteq> Inr (Some p)"
  proof (cases "auth_now clk")
    case (Inr t)
    then show ?thesis using auth [of "isoformat t"]
      by (auto simp: authenticate_token_def fst_transaction split: sum.split)
  qed (auto simp: authenticate_token_def fst_transaction split: sum.split)
  moreover have "fst (create_websocket_ticket env clk0 clk (\<lambda>d. d) token ticket db2) \<noteq> Inr (Some t)"
  proof (cases "auth_now clk")
    case (Inr t)
    then show ?thesis using auth [of "isoformat t"]
      by (auto simp: create_websocket_ticket_def fst_transaction split: sum.split)
  qed (auto simp: create_websocket_ticket_def fst_transaction split: sum.split)
  ultimately show ?thesis by blast
qed

section \<open>Tickets\<close>

definition ticket_spent :: "string \<Rightarrow> 'z auth_db_scheme \<Rightarrow> bool" where
  "ticket_spent k db \<longleftrightarrow> k \<notin> wt_ticket_hash ` set (websocket_tickets db)"

lemma ticket_spentI: "set (websocket_tickets db') \<subseteq> set (websocket_tickets db) \<Longrightarrow> ticket_spent k db \<Longrightarrow> ticket_spent k db'"
  by (auto simp: ticket_spent_def)

lemma delete_expired_tickets [simp]: "websocket_tickets (delete_expired_candidates now db) = websocket_tickets db"
  by (simp add: delete_expired_candidates_def)

lemma promote_tickets: "set (websocket_tickets (promote_candidate h now db)) \<subseteq> set (websocket_tickets db)"
  by (auto simp: promote_candidate_def sql_delete_def split: option.split)

lemma authenticate_locked_tickets:
  assumes "authenticate_token_locked h now db = (p, db')"
  shows "set (websocket_tickets db') \<subseteq> set (websocket_tickets db)"
  using assms promote_tickets [of h now "delete_expired_candidates now db"]
  by (auto simp: authenticate_token_locked_def Let_def split: option.split_asm)

lemma insert_candidate_tickets: "insert_candidate r db = Inr db' \<Longrightarrow> websocket_tickets db' = websocket_tickets db"
  by (auto simp: insert_candidate_def split: if_split_asm)

lemma stage_tickets:
  "stage_candidate env svc t i name tokens hex db = Inr (c, db') \<Longrightarrow> websocket_tickets db' = websocket_tickets db"
  by (auto simp: stage_candidate_def Let_def and_then_Inr_iff split: option.split_asm dest!: insert_candidate_tickets)

lemma create_code_tickets: "websocket_tickets (snd (create_pairing_code env svc clk n db)) = websocket_tickets db"
  unfolding create_pairing_code_def by (rule transaction_preserves) (auto simp: Let_def)

lemma complete_tickets: "websocket_tickets (snd (complete_pairing env svc clk code i name tokens hex db)) = websocket_tickets db"
proof -
  have "websocket_tickets (snd (transaction (stage_candidate env svc t i name tokens hex) db)) = websocket_tickets db" for t
    by (rule transaction_preserves) (simp, erule stage_tickets)
  then show ?thesis by (simp add: complete_pairing_def Let_def split: sum.split option.split)
qed

lemma candidate_auth_tickets:
  "websocket_tickets (snd (authenticate_pairing_candidate env clk token db)) = websocket_tickets db"
  by (cases "auth_now clk") (simp_all add: authenticate_pairing_candidate_def transaction_def Let_def)

lemma finalize_tickets: "websocket_tickets (snd (finalize_pairing env svc clk token pid i db)) = websocket_tickets db"
proof (cases "auth_now clk")
  case (Inr t)
  show ?thesis
  proof (cases "dt_add_seconds t (au_candidate_ttl_seconds svc)")
    case Inl: (Inl e)
    show ?thesis by (simp add: finalize_pairing_def snd_transaction Inr Inl Let_def split: option.split)
  next
    case 2: (Inr x)
    show ?thesis by (simp add: finalize_pairing_def snd_transaction Inr 2 Let_def split: option.split)
  qed
qed (simp add: finalize_pairing_def transaction_def)

lemma authenticate_tickets:
  "set (websocket_tickets (snd (authenticate_token env clk0 clk (\<lambda>d. d) token db))) \<subseteq> set (websocket_tickets db)"
proof (cases "auth_now clk")
  case (Inr t)
  obtain p db1 where a: "authenticate_token_locked (stored_token env token) (isoformat t) db = (p, db1)" by (rule prod.exhaust)
  show ?thesis
    using authenticate_locked_tickets [OF a]
    by (simp add: authenticate_token_def transaction_def Inr a split: sum.split)
qed (simp add: authenticate_token_def transaction_def split: sum.split)

lemma create_ticket_spent:
  assumes "ticket_spent k db" and "ae_sha256 env ticket \<noteq> k"
  shows "ticket_spent k (snd (create_websocket_ticket env clk0 clk (\<lambda>d. d) token ticket db))"
proof (cases "auth_now clk")
  case (Inr t)
  obtain p db1 where a: "authenticate_token_locked (stored_token env token) (isoformat t) db = (p, db1)" by (rule prod.exhaust)
  have s: "ticket_spent k db1" using ticket_spentI [OF authenticate_locked_tickets [OF a] assms(1)] .
  show ?thesis
  proof (cases "dt_add_seconds t 30")
    case Inl: (Inl e)
    show ?thesis using assms(1) s
      by (simp add: create_websocket_ticket_def transaction_def Inr a Inl split: sum.split option.split)
  next
    case 2: (Inr x)
    have "ticket_spent k (db1\<lparr>websocket_tickets := sql_delete P (websocket_tickets db1) @
        [\<lparr>wt_ticket_hash = ae_sha256 env ticket, wt_device_id = j, wt_expires_at = y\<rparr>]\<rparr>)" for P j y
      using s assms(2) by (auto simp: ticket_spent_def sql_delete_def)
    then show ?thesis using assms(1) s
      by (simp add: create_websocket_ticket_def transaction_def Inr a 2 Let_def split: sum.split option.split)
  qed
qed (simp add: create_websocket_ticket_def transaction_def assms(1) split: sum.split)

lemma consume_tickets:
  "set (websocket_tickets (snd (consume_websocket_ticket env clk ticket db))) \<subseteq> set (websocket_tickets db)"
  by (cases "auth_now clk") (auto simp: consume_websocket_ticket_def transaction_def Let_def sql_delete_def)

lemma activate_tickets: "websocket_tickets (snd (activate_websocket_connection clk i sid conn db)) = websocket_tickets db"
  by (cases "auth_now clk") (simp_all add: activate_websocket_connection_def transaction_def Let_def)

lemma auth_step_tickets: "auth_step env h k db db' \<Longrightarrow> ticket_spent k db \<Longrightarrow> ticket_spent k db'"
proof (induction rule: auth_step.induct)
  case (authenticate db clk0 clk token)
  show ?case by (rule ticket_spentI [OF authenticate_tickets authenticate])
next
  case (ticket ticket db clk0 clk token)
  show ?case by (rule create_ticket_spent [OF ticket(2,1)])
next
  case (consume db clk ticket)
  show ?case by (rule ticket_spentI [OF consume_tickets consume])
qed (auto simp: create_code_tickets complete_tickets candidate_auth_tickets finalize_tickets activate_tickets
    clear_websocket_connection_def elim!: ticket_spentI [rotated])

lemma auth_steps_tickets: "(auth_step env h k)\<^sup>*\<^sup>* db db' \<Longrightarrow> ticket_spent k db \<Longrightarrow> ticket_spent k db'"
  by (induction rule: rtranclp_induct) (auto intro: auth_step_tickets)

lemma consume_spends:
  assumes "consume_websocket_ticket env clk ticket db = (Inr r, db')"
  shows "ticket_spent (ae_sha256 env ticket) db'"
  using assms unfolding consume_websocket_ticket_def transaction_Inr_iff
  by (auto simp: Let_def ticket_spent_def sql_delete_def)

lemma consume_spent: "ticket_spent (ae_sha256 env ticket) db \<Longrightarrow> fst (consume_websocket_ticket env clk ticket db) \<noteq> Inr (Some r)"
proof (cases "auth_now clk")
  case (Inr t)
  assume "ticket_spent (ae_sha256 env ticket) db"
  then have "sql_select (\<lambda>r. wt_ticket_hash r = ae_sha256 env ticket \<and> isoformat t \<le> wt_expires_at r) (websocket_tickets db) = []"
    unfolding ticket_spent_def sql_select_def filter_empty_conv by (metis imageI)
  then show ?thesis by (simp add: consume_websocket_ticket_def fst_transaction Inr Let_def)
qed (simp add: consume_websocket_ticket_def fst_transaction)

text \<open>
  C27. A WebSocket ticket opens one session: it is accepted only for a device that exists, has a current
  session and an unexpired ticket, and once it has been presented, accepted or not, whatever happens
  afterwards it is never accepted again, as long as no new ticket has its digest.
\<close>

theorem websocket_ticket_opens_one_session:
  assumes "consume_websocket_ticket env clk ticket db0 = (Inr r, db1)"
    and "(auth_step env h (ae_sha256 env ticket))\<^sup>*\<^sup>* db1 db2"
  shows "(\<forall>i sid. r = Some (i, sid) \<longrightarrow> (\<exists>d \<in> set (devices db0). dv_id d = i \<and> dv_last_pairing_id d = Some sid) \<and>
      (\<exists>w \<in> set (websocket_tickets db0). wt_device_id w = i \<and> wt_ticket_hash w = ae_sha256 env ticket \<and>
        isoformat (dt_instant clk) \<le> wt_expires_at w)) \<and>
    fst (consume_websocket_ticket env clk' ticket db2) \<noteq> Inr (Some q)"
proof
  show "fst (consume_websocket_ticket env clk' ticket db2) \<noteq> Inr (Some q)"
    by (rule consume_spent [OF auth_steps_tickets [OF assms(2) consume_spends [OF assms(1)]]])
  obtain t where t: "auth_now clk = Inr t"
    using assms(1) unfolding consume_websocket_ticket_def transaction_Inr_iff by blast
  then have now: "t = dt_instant clk" by (simp add: auth_now_def split: if_split_asm)
  let ?live = "sql_select (\<lambda>r. wt_ticket_hash r = ae_sha256 env ticket \<and> isoformat t \<le> wt_expires_at r) (websocket_tickets db0)"
  let ?at = "\<lambda>w. sql_select (\<lambda>d. dv_id d = wt_device_id w \<and> dv_last_pairing_id d \<noteq> None) (devices db0)"
  have r: "r = fetchone (concat (map (\<lambda>w. map (\<lambda>d. (wt_device_id w, or_empty (dv_last_pairing_id d))) (?at w)) ?live))"
    using assms(1) unfolding consume_websocket_ticket_def transaction_Inr_iff t and_then.simps Let_def by simp
  show "\<forall>i sid. r = Some (i, sid) \<longrightarrow> (\<exists>d \<in> set (devices db0). dv_id d = i \<and> dv_last_pairing_id d = Some sid) \<and>
      (\<exists>w \<in> set (websocket_tickets db0). wt_device_id w = i \<and> wt_ticket_hash w = ae_sha256 env ticket \<and>
        isoformat (dt_instant clk) \<le> wt_expires_at w)"
  proof (intro allI impI)
    fix i sid
    assume "r = Some (i, sid)"
    then have "(i, sid) \<in> set (concat (map (\<lambda>w. map (\<lambda>d. (wt_device_id w, or_empty (dv_last_pairing_id d))) (?at w)) ?live))"
      unfolding r by (rule fetchone_mem)
    then obtain w d where w: "w \<in> set ?live" "d \<in> set (?at w)" "i = wt_device_id w" "sid = or_empty (dv_last_pairing_id d)"
      by auto
    then have d: "d \<in> set (devices db0)" "dv_id d = i" "dv_last_pairing_id d = Some sid"
      by (auto simp: or_empty_def sql_select_def)
    have "w \<in> set (websocket_tickets db0) \<and> wt_ticket_hash w = ae_sha256 env ticket \<and> isoformat t \<le> wt_expires_at w"
      using w(1) by (simp add: sql_select_def)
    then show "(\<exists>d \<in> set (devices db0). dv_id d = i \<and> dv_last_pairing_id d = Some sid) \<and>
      (\<exists>w \<in> set (websocket_tickets db0). wt_device_id w = i \<and> wt_ticket_hash w = ae_sha256 env ticket \<and>
        isoformat (dt_instant clk) \<le> wt_expires_at w)"
      unfolding now [symmetric]
      by (intro conjI bexI [of _ d] bexI [of _ w]) (simp_all add: d w(3))
  qed
qed

section \<open>Guessing a pairing code\<close>

text \<open>A guess, and what other processes do before it; what came of it.\<close>

record pairing_guess =
  pg_clock :: py_datetime
  pg_code :: string
  pg_device_id :: string
  pg_name :: string
  pg_tokens :: "string list"
  pg_hex :: string

datatype guess_outcome = Guess_Ignored | Guess_Wrong | Guess_Staged

definition live_code :: "py_datetime \<Rightarrow> 'z auth_db_scheme \<Rightarrow> pairing_code_row option" where
  "live_code clk db = (case (auth_now clk, newest_code db) of
      (Inr now, Some row) \<Rightarrow> if pc_expires_at row < isoformat now then None else Some row
    | _ \<Rightarrow> None)"

definition pairing_guess_result :: "auth_env \<Rightarrow> auth_service \<Rightarrow> pairing_guess \<Rightarrow> 'z auth_db_scheme \<Rightarrow>
    (py_error + pairing_candidate option) \<times> 'z auth_db_scheme" where
  "pairing_guess_result env svc g db =
    complete_pairing env svc (pg_clock g) (pg_code g) (pg_device_id g) (pg_name g) (pg_tokens g) (pg_hex g) db"

text \<open>A guess is wrong when it was compared with a code in force and differed.\<close>

definition guess_outcome :: "auth_env \<Rightarrow> auth_service \<Rightarrow> pairing_guess \<Rightarrow> 'z auth_db_scheme \<Rightarrow> guess_outcome" where
  "guess_outcome env svc g db = (case live_code (pg_clock g) db of
      None \<Rightarrow> Guess_Ignored
    | Some row \<Rightarrow> if pc_code row \<noteq> pairing_digest env svc (pg_code g) then Guess_Wrong
        else case fst (pairing_guess_result env svc g db) of Inr (Some c) \<Rightarrow> Guess_Staged | _ \<Rightarrow> Guess_Ignored)"

fun guess_outcomes :: "auth_env \<Rightarrow> auth_service \<Rightarrow> (('z auth_db_scheme \<Rightarrow> 'z auth_db_scheme) \<times> pairing_guess) list \<Rightarrow>
    'z auth_db_scheme \<Rightarrow> guess_outcome list" where
  "guess_outcomes env svc [] db = []"
| "guess_outcomes env svc ((others, g) # gs) db = guess_outcome env svc g (others db) #
    guess_outcomes env svc gs (snd (pairing_guess_result env svc g (others db)))"

text \<open>What is left to guess.\<close>

definition guess_budget :: "'z auth_db_scheme \<Rightarrow> nat" where
  "guess_budget db = (case pairing_codes db of [] \<Rightarrow> 0 | r # rs \<Rightarrow> nat (pc_attempts_remaining r))"

definition one_code :: "'z auth_db_scheme \<Rightarrow> bool" where
  "one_code db \<longleftrightarrow> pairing_codes db = [] \<or> (\<exists>r. pairing_codes db = [r] \<and> 0 < pc_attempts_remaining r)"

fun guess_cost :: "guess_outcome \<Rightarrow> nat" where
  "guess_cost Guess_Ignored = 0"
| "guess_cost Guess_Wrong = 1"
| "guess_cost Guess_Staged = 1"

lemma newest_code_single: "pairing_codes db = [r] \<Longrightarrow> newest_code db = Some r"
  by (simp add: newest_code_def sort_key_def)

lemma newest_code_none: "pairing_codes db = [] \<Longrightarrow> newest_code db = None"
  by (simp add: newest_code_def)

lemma stage_codes: "stage_candidate env svc t i name tokens hex db = Inr (c, db') \<Longrightarrow> pairing_codes db' = []"
  by (auto simp: stage_candidate_def Let_def and_then_Inr_iff split: option.split_asm)

lemma guess_step:
  fixes env :: auth_env and svc :: auth_service and g :: pairing_guess and db :: "'z auth_db_scheme"
  assumes "one_code db"
  defines "db' \<equiv> snd (pairing_guess_result env svc g db)" and "o' \<equiv> guess_outcome env svc g db"
  shows "one_code db' \<and> guess_cost o' + guess_budget db' \<le> guess_budget db \<and> (o' = Guess_Staged \<longrightarrow> pairing_codes db' = [])"
proof (cases "auth_now (pg_clock g)")
  case (Inl e)
  then show ?thesis using assms(1)
    by (simp add: db'_def o'_def pairing_guess_result_def complete_pairing_def guess_outcome_def live_code_def)
next
  case (Inr t)
  show ?thesis
  proof (cases "pairing_codes db")
    case Nil
    then show ?thesis using newest_code_none [OF Nil]
      by (simp add: db'_def o'_def Inr pairing_guess_result_def complete_pairing_def guess_outcome_def live_code_def
          one_code_def guess_budget_def)
  next
    case (Cons r rs)
    then have c: "pairing_codes db = [r]" "0 < pc_attempts_remaining r" using assms(1) by (auto simp: one_code_def)
    note n = newest_code_single [OF c(1)]
    let ?run = "stage_candidate env svc t (pg_device_id g) (pg_name g) (pg_tokens g) (pg_hex g) db"
    consider (late) "pc_expires_at r < isoformat t"
      | (wrong) "\<not> pc_expires_at r < isoformat t" "pc_code r \<noteq> pairing_digest env svc (pg_code g)"
      | (right) "\<not> pc_expires_at r < isoformat t" "pc_code r = pairing_digest env svc (pg_code g)" by blast
    then show ?thesis
    proof cases
      case late
      then show ?thesis
        by (simp add: db'_def o'_def Inr n pairing_guess_result_def complete_pairing_def guess_outcome_def live_code_def
            one_code_def guess_budget_def)
    next
      case wrong
      then show ?thesis using c
        by (auto simp: db'_def o'_def Inr n pairing_guess_result_def complete_pairing_def guess_outcome_def live_code_def
            one_code_def guess_budget_def sql_update_def Let_def nat_diff_distrib)
    next
      case right
      show ?thesis
      proof (cases ?run)
        case Inl: (Inl e)
        then show ?thesis using right assms(1)
          by (simp add: db'_def o'_def Inr n pairing_guess_result_def complete_pairing_def guess_outcome_def live_code_def
              transaction_def)
      next
        case (Inr p)
        obtain x y where p: "p = (x, y)" by (rule prod.exhaust)
        have "pairing_codes y = []" using stage_codes Inr p by blast
        then show ?thesis using right c Inr \<open>auth_now (pg_clock g) = Inr t\<close> p
          by (simp add: db'_def o'_def n pairing_guess_result_def complete_pairing_def guess_outcome_def live_code_def
              transaction_def one_code_def guess_budget_def split: option.split) linarith
      qed
    qed
  qed
qed

lemma guesses_within_budget:
  assumes "one_code db" and "\<forall>(others, g) \<in> set gs. \<forall>db. pairing_codes (others db) = pairing_codes db"
  shows "sum_list (map guess_cost (guess_outcomes env svc gs db)) \<le> guess_budget db"
  using assms
proof (induction gs arbitrary: db)
  case Nil
  then show ?case by simp
next
  case (Cons a gs)
  obtain others g where a: "a = (others, g)" by (rule prod.exhaust)
  have o1: "one_code (others db)" "guess_budget (others db) = guess_budget db"
    using Cons.prems by (auto simp: a one_code_def guess_budget_def)
  note step = guess_step [OF o1(1), of env svc g]
  have "sum_list (map guess_cost (guess_outcomes env svc gs (snd (pairing_guess_result env svc g (others db))))) \<le>
      guess_budget (snd (pairing_guess_result env svc g (others db)))"
    by (rule Cons.IH) (use step Cons.prems in auto)
  then show ?case using step o1(2) by (simp add: a)
qed

lemma no_code_no_cost:
  assumes "pairing_codes db = []" and "\<forall>(others, g) \<in> set gs. \<forall>db. pairing_codes (others db) = pairing_codes db"
  shows "Guess_Staged \<notin> set (guess_outcomes env svc gs db)"
proof
  assume "Guess_Staged \<in> set (guess_outcomes env svc gs db)"
  then have "1 \<le> sum_list (map guess_cost (guess_outcomes env svc gs db))"
    using member_le_sum_list [of 1 "map guess_cost (guess_outcomes env svc gs db)"] by force
  moreover have "guess_budget db = 0" "one_code db" using assms(1) by (simp_all add: guess_budget_def one_code_def)
  ultimately show False using guesses_within_budget [OF _ assms(2), of db env svc] by linarith
qed

lemma staged_once:
  assumes "one_code db" and "\<forall>(others, g) \<in> set gs. \<forall>db. pairing_codes (others db) = pairing_codes db"
  shows "count_list (guess_outcomes env svc gs db) Guess_Staged \<le> 1"
  using assms
proof (induction gs arbitrary: db)
  case Nil
  then show ?case by simp
next
  case (Cons a gs)
  obtain others g where a: "a = (others, g)" by (rule prod.exhaust)
  have o1: "one_code (others db)" using Cons.prems by (auto simp: a one_code_def)
  note step = guess_step [OF o1, of env svc g]
  have rest: "\<forall>(others, g) \<in> set gs. \<forall>db. pairing_codes (others db) = pairing_codes db" using Cons.prems by auto
  show ?case
  proof (cases "guess_outcome env svc g (others db) = Guess_Staged")
    case True
    then have "Guess_Staged \<notin> set (guess_outcomes env svc gs (snd (pairing_guess_result env svc g (others db))))"
      using step rest by (intro no_code_no_cost) auto
    then show ?thesis by (simp add: a count_list_0_iff)
  next
    case False
    then show ?thesis using Cons.IH [of "snd (pairing_guess_result env svc g (others db))"] step rest by (simp add: a)
  qed
qed

lemma cost_counts: "sum_list (map guess_cost os) = count_list os Guess_Wrong + count_list os Guess_Staged"
proof (induction os)
  case (Cons x xs)
  then show ?case by (cases x) auto
qed simp

text \<open>
  C28. A pairing code cannot be guessed by trying: whatever the guesses, their order and times, and
  whatever happens in between except that no new code is made, at most \<open>max_attempts\<close>, that is at most
  twenty, of them are compared with the code and committed, and at most one credential is staged.
\<close>

theorem pairing_guesses_are_bounded:
  assumes "create_pairing_code env (new_auth_service ttl attempts cttl pepper) clk n db0 = (Inr code, db1)"
    and "\<forall>(others, g) \<in> set gs. \<forall>db. pairing_codes (others db) = pairing_codes db"
  defines "os \<equiv> guess_outcomes env (new_auth_service ttl attempts cttl pepper) gs db1"
  shows "int (count_list os Guess_Wrong + count_list os Guess_Staged) \<le> min (max attempts 1) 20 \<and>
    count_list os Guess_Staged \<le> 1"
proof -
  let ?svc = "new_auth_service ttl attempts cttl pepper"
  obtain r where r: "pairing_codes db1 = [r]" "pc_attempts_remaining r = au_pairing_max_attempts ?svc"
    using assms(1) unfolding create_pairing_code_def transaction_Inr_iff Let_def by auto
  have m: "au_pairing_max_attempts ?svc = min (max attempts 1) 20" by (simp add: new_auth_service_def)
  have one: "one_code db1" using r m by (simp add: one_code_def)
  have "guess_budget db1 = nat (min (max attempts 1) 20)" using r m by (simp add: guess_budget_def)
  then have "int (sum_list (map guess_cost os)) \<le> min (max attempts 1) 20"
    using guesses_within_budget [OF one assms(2), of env ?svc] unfolding os_def by linarith
  moreover have "count_list os Guess_Staged \<le> 1" unfolding os_def by (rule staged_once [OF one assms(2)])
  ultimately show ?thesis unfolding cost_counts by blast
qed

end
