(* ===== verification/Device_Auth_Example.thy ===== *)
theory Device_Auth_Example
  imports Device_Auth_Safety
begin

text \<open>Concrete pairings: a replaced credential, a spent ticket and a guessed code.\<close>

definition demo_auth_env :: auth_env where
  "demo_auth_env = \<lparr>ae_sha256 = (\<lambda>s. s), ae_hmac = (\<lambda>key s. key @ s)\<rparr>"

definition demo_auth_clock :: py_datetime where
  "demo_auth_clock = \<lparr>dt_instant = 0, dt_aware = True\<rparr>"

definition demo_phone :: device_row where
  "demo_phone = \<lparr>dv_id = ''d'', dv_name = ''phone'', dv_token = ''sha256:old'', dv_created_at = ''0'',
    dv_last_seen_at = None, dv_last_pairing_id = Some ''pair_1'', dv_websocket_connection_id = None\<rparr>"

text \<open>A phone with a session and a ticket, and a confirmed candidate for its next credential.\<close>

definition demo_auth_db :: auth_db where
  "demo_auth_db = \<lparr>control_plane_instances = [], maintenance_leases = [], audit_events = [],
     message_board_events = [], outbox_events = [], outbox_metrics_singleton = None,
     consumer_deliveries = [], consumer_checkpoints = [], tasks = [], approvals = [], tool_calls = [],
     agent_jobs = [], job_metrics = None, capability_requests = [], capability_grants = [], skill_policy_state = None,
     pairing_codes = [],
     pairing_candidates = [\<lparr>pd_pairing_id = ''pair_2'', pd_token_hash = ''sha256:new'', pd_device_id = ''d'',
       pd_name = ''phone'', pd_status = ''finalized'', pd_created_at = ''0'', pd_expires_at = isoformat 60000000, pd_finalized_at = Some ''0''\<rparr>],
     devices = [demo_phone],
     websocket_tickets = [\<lparr>wt_ticket_hash = ''ticket'', wt_device_id = ''d'', wt_expires_at = isoformat 60000000\<rparr>]\<rparr>"

definition demo_cutover_db :: auth_db where
  "demo_cutover_db = snd (authenticate_token demo_auth_env demo_auth_clock demo_auth_clock (\<lambda>d. d) ''new'' demo_auth_db)"

lemma demo_auth_wf: "auth_wf demo_auth_db"
  by (simp add: auth_wf_def cred_wf_def creds_def demo_auth_db_def demo_phone_def)

lemma demo_auth_iso: "isoformat 0 < isoformat 60000000" "\<not> isoformat 60000000 \<le> isoformat 0" "isoformat 0 \<le> isoformat 60000000"
  "\<not> isoformat 60000000 < isoformat 0"
proof -
  show "isoformat 0 < isoformat 60000000" by (simp add: isoformat_less_iff max_instant_def us_per_day_def)
  then show "\<not> isoformat 60000000 \<le> isoformat 0" "isoformat 0 \<le> isoformat 60000000" "\<not> isoformat 60000000 < isoformat 0"
    by (simp_all add: not_le less_imp_le)
qed

lemma demo_now: "auth_now demo_auth_clock = Inr 0"
  by (simp add: auth_now_def demo_auth_clock_def)

lemmas demo_auth_simps = demo_now demo_auth_iso stored_token_def demo_auth_env_def demo_auth_db_def demo_phone_def transaction_def
  sql_select_def sql_delete_def sql_update_def Let_def

lemma demo_cutover:
  "map_option dv_token (row_by dv_id ''d'' (devices demo_cutover_db)) = Some ''sha256:new''"
  by (simp add: demo_cutover_db_def demo_auth_simps authenticate_token_def authenticate_token_locked_def promote_candidate_def
      delete_expired_candidates_def upsert_device_def)

lemma replaced_credential_is_dead_witness:
  "\<forall>p t. fst (authenticate_token demo_auth_env demo_auth_clock demo_auth_clock (\<lambda>d. d) ''old'' demo_cutover_db) \<noteq> Inr (Some p) \<and>
    fst (create_websocket_ticket demo_auth_env demo_auth_clock demo_auth_clock (\<lambda>d. d) ''old'' ''x'' demo_cutover_db) \<noteq> Inr (Some t)"
proof (intro allI)
  fix p t
  have tok: "stored_token demo_auth_env ''old'' = ''sha256:old''" by (simp add: stored_token_def demo_auth_env_def)
  obtain d1 where d1: "row_by dv_id ''d'' (devices demo_cutover_db) = Some d1" "dv_token d1 = ''sha256:new''"
    using demo_cutover by (auto simp: map_option_eq_Some)
  have run: "(auth_step demo_auth_env (stored_token demo_auth_env ''old'') [])\<^sup>*\<^sup>* demo_auth_db demo_cutover_db"
    unfolding demo_cutover_db_def by (rule r_into_rtranclp) (rule auth_step.authenticate)
  show "fst (authenticate_token demo_auth_env demo_auth_clock demo_auth_clock (\<lambda>d. d) ''old'' demo_cutover_db) \<noteq> Inr (Some p) \<and>
    fst (create_websocket_ticket demo_auth_env demo_auth_clock demo_auth_clock (\<lambda>d. d) ''old'' ''x'' demo_cutover_db) \<noteq> Inr (Some t)"
    by (rule replaced_credential_is_dead [OF demo_auth_wf _ _ run d1(1) _ rtranclp.rtrancl_refl, of demo_phone])
      (simp_all add: demo_auth_db_def demo_phone_def tok d1(2) sql_select_def)
qed

definition demo_consumed_db :: auth_db where
  "demo_consumed_db = snd (consume_websocket_ticket demo_auth_env demo_auth_clock ''ticket'' demo_auth_db)"

lemma demo_consumed:
  "consume_websocket_ticket demo_auth_env demo_auth_clock ''ticket'' demo_auth_db = (Inr (Some (''d'', ''pair_1'')), demo_consumed_db)"
proof (rule prod_eqI)
  show "fst (consume_websocket_ticket demo_auth_env demo_auth_clock ''ticket'' demo_auth_db) =
      fst (Inr (Some (''d'', ''pair_1'')), demo_consumed_db)"
    by (simp add: demo_auth_simps consume_websocket_ticket_def or_empty_def)
qed (simp add: demo_consumed_db_def)

lemma websocket_ticket_opens_one_session_witness:
  "\<forall>q. fst (consume_websocket_ticket demo_auth_env demo_auth_clock ''ticket'' demo_consumed_db) \<noteq> Inr (Some q)"
  using websocket_ticket_opens_one_session [OF demo_consumed rtranclp.rtrancl_refl] by blast

definition demo_guess :: "string \<Rightarrow> pairing_guess" where
  "demo_guess code = \<lparr>pg_clock = demo_auth_clock, pg_code = code, pg_device_id = ''d'', pg_name = ''phone'',
    pg_tokens = [''fresh''], pg_hex = ''3''\<rparr>"

definition demo_pairing_svc :: auth_service where
  "demo_pairing_svc = new_auth_service 60 3 30 ''pepper''"

lemma demo_add: "dt_add_seconds 0 60 = Inr 60000000" "dt_add_seconds 0 30 = Inr 30000000"
  by (simp_all add: dt_add_seconds_def us_per_second_def max_instant_def us_per_day_def)

definition demo_code :: "int \<Rightarrow> pairing_code_row" where
  "demo_code attempts = \<lparr>pc_code = ''pepper000042'', pc_expires_at = isoformat 60000000, pc_attempts_remaining = attempts,
    pc_created_at = isoformat 0\<rparr>"

definition demo_coded_db :: "int \<Rightarrow> auth_db" where
  "demo_coded_db attempts = demo_auth_db\<lparr>pairing_codes := [demo_code attempts]\<rparr>"

lemma demo_number: "pad 6 42 = ''000042''"
  by code_simp

lemma demo_svc: "au_pairing_ttl_seconds demo_pairing_svc = 60" "au_pairing_max_attempts demo_pairing_svc = 3"
  "au_candidate_ttl_seconds demo_pairing_svc = 30" "au_pairing_pepper demo_pairing_svc = ''pepper''"
  by (simp_all add: demo_pairing_svc_def new_auth_service_def)

lemma demo_coded:
  "create_pairing_code demo_auth_env demo_pairing_svc demo_auth_clock 42 demo_auth_db = (Inr ''000042'', demo_coded_db 3)"
  by (simp add: create_pairing_code_def demo_now demo_add demo_number demo_svc transaction_def Let_def pairing_digest_def
      demo_auth_env_def demo_coded_db_def demo_code_def)

lemma demo_newest: "newest_code (demo_coded_db a) = Some (demo_code a)"
  by (rule newest_code_single) (simp add: demo_coded_db_def)

lemma demo_live: "live_code demo_auth_clock (demo_coded_db a) = Some (demo_code a)"
  by (simp add: live_code_def demo_now demo_newest) (simp add: demo_code_def demo_auth_iso)

lemma demo_wrong:
  assumes "code \<noteq> ''000042''" and "1 < a"
  shows "guess_outcome demo_auth_env demo_pairing_svc (demo_guess code) (demo_coded_db a) = Guess_Wrong"
    "snd (pairing_guess_result demo_auth_env demo_pairing_svc (demo_guess code) (demo_coded_db a)) = demo_coded_db (a - 1)"
proof -
  have ne: "pc_code (demo_code a) \<noteq> pairing_digest demo_auth_env demo_pairing_svc code"
    using assms(1) by (simp add: demo_code_def pairing_digest_def demo_auth_env_def demo_svc)
  show "guess_outcome demo_auth_env demo_pairing_svc (demo_guess code) (demo_coded_db a) = Guess_Wrong"
    using ne by (simp add: guess_outcome_def demo_guess_def demo_live)
  have "\<not> pc_expires_at (demo_code a) < isoformat 0" by (simp add: demo_code_def demo_auth_iso)
  then show "snd (pairing_guess_result demo_auth_env demo_pairing_svc (demo_guess code) (demo_coded_db a)) = demo_coded_db (a - 1)"
    using ne assms(2)
    by (simp add: pairing_guess_result_def demo_guess_def complete_pairing_def demo_now demo_newest Let_def)
      (simp add: demo_coded_db_def sql_update_def demo_code_def)
qed

lemma demo_right:
  "guess_outcome demo_auth_env demo_pairing_svc (demo_guess ''000042'') (demo_coded_db a) = Guess_Staged"
  "pairing_codes (snd (pairing_guess_result demo_auth_env demo_pairing_svc (demo_guess ''000042'') (demo_coded_db a))) = []"
proof -
  have eq: "pc_code (demo_code a) = pairing_digest demo_auth_env demo_pairing_svc ''000042''"
    by (simp add: demo_code_def pairing_digest_def demo_auth_env_def demo_svc)
  have late: "\<not> pc_expires_at (demo_code a) < isoformat 0" by (simp add: demo_code_def demo_auth_iso)
  have "\<exists>c db. stage_candidate demo_auth_env demo_pairing_svc 0 ''d'' ''phone'' [''fresh''] ''3'' (demo_coded_db a) =
      Inr (Some c, db)"
    by (simp add: stage_candidate_def demo_svc demo_add token_taken_def insert_candidate_def delete_expired_candidates_def
        demo_coded_db_def demo_auth_simps)
  then obtain c db where run: "stage_candidate demo_auth_env demo_pairing_svc 0 ''d'' ''phone'' [''fresh''] ''3'' (demo_coded_db a) =
      Inr (Some c, db)" by blast
  have r: "pairing_guess_result demo_auth_env demo_pairing_svc (demo_guess ''000042'') (demo_coded_db a) =
      (Inr (Some c), db)"
    using eq late run
    by (simp add: pairing_guess_result_def demo_guess_def complete_pairing_def demo_now demo_newest transaction_def)
  show "guess_outcome demo_auth_env demo_pairing_svc (demo_guess ''000042'') (demo_coded_db a) = Guess_Staged"
    using eq r by (simp add: guess_outcome_def) (simp add: demo_guess_def demo_live)
  show "pairing_codes (snd (pairing_guess_result demo_auth_env demo_pairing_svc (demo_guess ''000042'') (demo_coded_db a))) = []"
    using r stage_codes [OF run] by simp
qed

text \<open>Two wrong guesses and the right one: three attempts were granted and all are used.\<close>

definition demo_guesses :: "((auth_db \<Rightarrow> auth_db) \<times> pairing_guess) list" where
  "demo_guesses = map (\<lambda>c. ((\<lambda>d. d), demo_guess c)) [''000000'', ''000001'', ''000042'', ''000042'']"

lemma demo_outcomes: "guess_outcomes demo_auth_env demo_pairing_svc demo_guesses (demo_coded_db 3) =
    [Guess_Wrong, Guess_Wrong, Guess_Staged, Guess_Ignored]"
proof -
  let ?after = "snd (pairing_guess_result demo_auth_env demo_pairing_svc (demo_guess ''000042'') (demo_coded_db 1))"
  have "guess_outcome demo_auth_env demo_pairing_svc (demo_guess ''000042'') ?after = Guess_Ignored"
    using newest_code_none [OF demo_right(2) [of 1]] by (simp add: guess_outcome_def live_code_def split: sum.split)
  then show ?thesis by (simp add: demo_guesses_def demo_wrong demo_right)
qed

lemma pairing_guesses_are_bounded_witness:
  "count_list (guess_outcomes demo_auth_env demo_pairing_svc demo_guesses (demo_coded_db 3)) Guess_Wrong = 2 \<and>
    (2 :: int) + 1 \<le> min (max 3 1) 20"
  using pairing_guesses_are_bounded [OF demo_coded [unfolded demo_pairing_svc_def], of demo_guesses]
  unfolding demo_pairing_svc_def [symmetric] demo_outcomes by (simp add: demo_guesses_def)

end
