(* ===== verification/IPhone_Example.thy ===== *)
theory IPhone_Example
  imports IPhone_Results Lease_Example Device_Auth_Example
begin

text \<open>
  A capability from the request to the result: a worker asks, the phone's user approves, the phone consumes
  the grant, submits a result with a letter outside ASCII, and the worker polls.
\<close>

section \<open>The stages\<close>

definition phone_env :: reaper_env where
  "phone_env = capability_env demo_short_env (\<lambda>k. k) 0"

definition phone_job :: job_row where
  "phone_job = demo_leased_job\<lparr>aj_lease_expires_at := Some (isoformat 60000000)\<rparr>"

definition phone_stage :: "string list \<Rightarrow> capability_request_row list \<Rightarrow> capability_grant_row list \<Rightarrow>
    capability_result_row list \<Rightarrow> capability_db \<Rightarrow> bool" where
  "phone_stage keys rs gs xs db \<longleftrightarrow> capability_requests db = rs \<and> capability_grants db = gs \<and> capability_results db = xs \<and>
    tasks db = [demo_running_task] \<and> agent_jobs db = [phone_job] \<and> devices db = [demo_phone] \<and>
    map ob_dedupe_key (outbox_events db) = keys \<and> map ob_event_id (outbox_events db) = map (\<lambda>k. ''evt_'' @ k) keys"

lemma phone_audited:
  "phone_stage keys rs gs xs db \<Longrightarrow> phone_stage keys rs gs xs (snd (capability_audit phone_env ty p at ai task db))"
  by (simp add: phone_stage_def capability_audit_def append_audit_event_def Let_def)

lemma phone_enqueue:
  fixes r :: capability_request_row and suffix :: string
  assumes "phone_stage keys rs gs xs db"
  defines "key \<equiv> ''iphone-capability:'' @ cr_id r @ '':'' @ suffix"
  assumes "key \<notin> set keys"
    and "\<forall>v \<in> set [cr_id r, topic, ty, key]. v \<noteq> [] \<and> length v \<le> 290"
    and "assert_safe_shared_payload (\<lambda>s. False) (JObj kvs) = Inr ()"
    and "length (json_dumps (JObj kvs)) \<le> max_event_bytes"
    and "json_loads (json_dumps (JObj kvs)) = Some (JObj c)" and "length (json_dumps (JObj c)) \<le> 1000000"
  shows "\<exists>db'. capability_enqueue phone_env r topic ty (JObj kvs) suffix db = Inr db' \<and>
    phone_stage (keys @ [key]) rs gs xs db'"
proof -
  note st = assms(1)
  let ?q = "\<lparr>oq_aggregate_type = ''iphone_capability_request'', oq_aggregate_id = cr_id r, oq_topic = topic, oq_event_type = ty,
    oq_payload = JObj kvs, oq_dedupe_key = key, oq_task_id = Some (cr_task_id r), oq_agent_id = Some (cr_requesting_agent_id r),
    oq_message_id = Some (cr_id r), oq_event_id = None, oq_created_at = Some (isoformat 0)\<rparr>"
  have keys: "ob_dedupe_key ` set (outbox_events db) = set keys"
    "ob_event_id ` set (outbox_events db) = (\<lambda>k. ''evt_'' @ k) ` set keys"
    using st unfolding phone_stage_def set_map [symmetric] by simp_all
  obtain i row where e: "enqueue_locked demo_short_env 0 key ?q db = Inr (i, db\<lparr>outbox_events := outbox_events db @ [row]\<rparr>)"
    "ob_dedupe_key row = oq_dedupe_key ?q" "ob_event_id row = ''evt_'' @ key"
  proof (rule enqueue_fresh [of ?q key demo_short_env kvs c db 0])
    show "\<forall>v \<in> set [oq_aggregate_type ?q, oq_aggregate_id ?q, oq_topic ?q, oq_event_type ?q, oq_dedupe_key ?q, key].
      v \<noteq> [] \<and> length v \<le> 290" using assms(4) by simp
    show "oq_dedupe_key ?q \<notin> ob_dedupe_key ` set (outbox_events db)" using assms(3) keys by simp
    show "''evt_'' @ key \<notin> ob_event_id ` set (outbox_events db)" using assms(3) unfolding keys by auto
  qed (use assms(5-8) in \<open>simp_all add: demo_short_env_def del: json_dumps.simps\<close>)
  show ?thesis
  proof (intro exI conjI)
    show "capability_enqueue phone_env r topic ty (JObj kvs) suffix db = Inr (db\<lparr>outbox_events := outbox_events db @ [row]\<rparr>)"
      using e(1) by (simp add: capability_enqueue_def reaper_enqueue_def phone_env_def capability_env_def key_def del: json_dumps.simps)
    show "phone_stage (keys @ [key]) rs gs xs (db\<lparr>outbox_events := outbox_events db @ [row]\<rparr>)"
      using st e(2,3) by (simp add: phone_stage_def)
  qed
qed

section \<open>Payloads\<close>

definition phone_payload :: "string \<Rightarrow> json" where
  "phone_payload status = result_payload ''iphreq_1'' status"

lemma phone_payload_facts:
  "\<forall>s \<in> set [''approved'', ''consumed'', ''completed'']. assert_safe_shared_payload (\<lambda>s. False) (result_payload ''iphreq_1'' s) = Inr () \<and>
    length (json_dumps (result_payload ''iphreq_1'' s)) \<le> 100 \<and>
    json_loads (json_dumps (result_payload ''iphreq_1'' s)) = Some (result_payload ''iphreq_1'' s)"
  by code_simp

lemma phone_request_payload:
  "assert_safe_shared_payload (\<lambda>s. False) (JObj [(''request_id'', JStr ''iphreq_1''), (''capability_name'', JStr ''iphone.location.current''),
    (''device_id'', JStr ''d''), (''status'', JStr ''waiting_approval'')]) = Inr ()"
  "length (json_dumps (JObj [(''request_id'', JStr ''iphreq_1''), (''capability_name'', JStr ''iphone.location.current''),
    (''device_id'', JStr ''d''), (''status'', JStr ''waiting_approval'')])) \<le> 200"
  "json_loads (json_dumps (JObj [(''request_id'', JStr ''iphreq_1''), (''capability_name'', JStr ''iphone.location.current''),
    (''device_id'', JStr ''d''), (''status'', JStr ''waiting_approval'')])) =
   Some (JObj [(''capability_name'', JStr ''iphone.location.current''), (''device_id'', JStr ''d''),
    (''request_id'', JStr ''iphreq_1''), (''status'', JStr ''waiting_approval'')])"
  subgoal by code_simp
  subgoal by code_simp
  subgoal by code_simp
  done

section \<open>The request\<close>

definition phone_rule :: tool_rule where
  "phone_rule = \<lparr>tr_id = ''r'', tr_description = ''location'', tr_decision = ''ask'', tr_risk = ''high'',
    tr_approval_ttl_seconds = Some 60\<rparr>"

definition phone_policy :: permission_policy where
  "phone_policy = \<lparr>pp_protected_paths = [], pp_process = \<lparr>xp_backend = [], xp_binary = [], xp_limiter_binary = [], xp_network = [],
      xp_allowed_commands = [], xp_max_timeout_seconds = 1, xp_max_output_bytes = 1, xp_max_memory_bytes = 1,
      xp_max_processes = 1, xp_max_file_bytes = 1, xp_max_open_files = 1\<rparr>,
    pp_tool_rules = [], pp_capability_rules = [(''iphone.location.current'', phone_rule)], pp_worker_skill_rules = []\<rparr>"

definition phone_service :: "outbox_service \<Rightarrow> capability_service" where
  "phone_service outbox = \<lparr>ic_extended_agenda_enabled = False, ic_grant_ttl_seconds = 30, ic_leases = None, ic_owner = None,
    ic_outbox = outbox\<rparr>"

definition phone_draft :: capability_draft where
  "phone_draft = \<lparr>cd_rule = phone_rule, cd_ttl_seconds = 60, cd_request_id = ''iphreq_1'', cd_approval_id = ''icapr_1'',
    cd_arguments_json = ''{}'', cd_fingerprint = ''sha256:h'', cd_action_digest = ''sha256:h''\<rparr>"

lemma phone_drafted: "draft_request (phone_service outbox) (env_sha256 demo_short_env) phone_policy ''j'' 1
    ''iphone.location.current'' [] ''1'' ''1'' = Inr phone_draft"
  by (simp add: draft_request_def extended_agenda_capabilities_def evaluate_capability_def phone_policy_def phone_rule_def
      canonical_capability_request_fingerprint_def canonical_action_digest_def phone_draft_def demo_short_env_def dump_pairs_def)

definition phone_row :: "int \<Rightarrow> string \<Rightarrow> string option \<Rightarrow> string option \<Rightarrow> capability_request_row" where
  "phone_row aid status delivered completed =
    \<lparr>cr_id = ''iphreq_1'', cr_task_id = ''t'', cr_requesting_agent_id = ''a'', cr_requesting_job_id = ''j'',
     cr_lease_generation = 1, cr_device_id = ''d'', cr_capability_name = ''iphone.location.current'', cr_arguments_json = ''{}'',
     cr_request_fingerprint = ''sha256:h'', cr_action_digest = ''sha256:h'', cr_status = status, cr_approval_id = ''icapr_1'',
     cr_request_audit_id = aid, cr_created_at = isoformat 0, cr_expires_at = isoformat 60000000, cr_delivered_at = delivered,
     cr_completed_at = completed\<rparr>"

definition phone_grant :: "string option \<Rightarrow> capability_grant_row" where
  "phone_grant consumed = \<lparr>cg_id = ''icg_1'', cg_request_id = ''iphreq_1'', cg_device_id = ''d'',
    cg_capability_name = ''iphone.location.current'', cg_approval_id = ''icapr_1'', cg_token_hash = ''sha256:h'',
    cg_action_digest = ''sha256:h'', cg_issued_at = isoformat 0, cg_expires_at = isoformat 30000000, cg_consumed_at = consumed\<rparr>"

definition phone_db :: capability_db where
  "phone_db = \<lparr>control_plane_instances = [], maintenance_leases = [], audit_events = [],
     message_board_events = [], outbox_events = [], outbox_metrics_singleton = None,
     consumer_deliveries = [], consumer_checkpoints = [], tasks = [demo_running_task], approvals = [], tool_calls = [],
     agent_jobs = [phone_job], job_metrics = None, capability_requests = [], capability_grants = [], skill_policy_state = None,
     pairing_codes = [], pairing_candidates = [], devices = [demo_phone], websocket_tickets = [], capability_results = []\<rparr>"

definition phone_key :: "string \<Rightarrow> string" where
  "phone_key suffix = ''iphone-capability:iphreq_1:'' @ suffix"

lemma phone_now: "capability_now demo_auth_clock = Inr 0"
  by (simp add: capability_now_def demo_auth_clock_def)

lemma phone_iso: "isoformat 0 < isoformat 30000000" "\<not> isoformat 30000000 \<le> isoformat 0"
proof -
  show "isoformat 0 < isoformat 30000000" by (simp add: isoformat_less_iff max_instant_def us_per_day_def)
  then show "\<not> isoformat 30000000 \<le> isoformat 0" by (simp add: not_le)
qed

lemma phone_start: "phone_stage [] [] [] [] phone_db"
  by (simp add: phone_stage_def phone_db_def)

lemma phone_lease:
  assumes "phone_stage keys rs gs xs db"
  shows "job_with_task ''j'' db = Some (phone_job, demo_running_task)"
    "require_active_lease_locked (env_sha256 demo_short_env) ''a'' ''j'' token ''l'' 1 (isoformat 0) db = Inr (phone_job, demo_running_task)"
    "request_job_is_active_locked (phone_row aid s d c) (isoformat 0) db"
proof -
  have id: "aj_id phone_job = ''j''" "aj_task_id phone_job = ''t''" "tk_id demo_running_task = ''t''"
    "job_leased (aj_status phone_job)" "tk_status demo_running_task = Task_Running"
    "aj_claimed_by phone_job = Some ''a''" "aj_lease_token_hash phone_job = Some ''sha256:h''" "aj_lease_id phone_job = Some ''l''"
    "aj_lease_generation phone_job = 1" "aj_lease_expires_at phone_job = Some (isoformat 60000000)"
    by (simp_all add: phone_job_def demo_leased_job_def new_job_def demo_running_task_def job_leased_def)
  show j: "job_with_task ''j'' db = Some (phone_job, demo_running_task)"
    using assms by (simp add: job_with_task_def phone_stage_def sql_select_def id)
  show "require_active_lease_locked (env_sha256 demo_short_env) ''a'' ''j'' token ''l'' 1 (isoformat 0) db = Inr (phone_job, demo_running_task)"
    by (simp add: require_active_lease_locked_def j id lease_matches_def lease_token_hash_def demo_short_env_def demo_auth_iso)
  show "request_job_is_active_locked (phone_row aid s d c) (isoformat 0) db"
    by (simp add: request_job_is_active_locked_def j id phone_row_def demo_auth_iso)
qed

lemma phone_created:
  obtains aid db where "transaction (create_request_locked demo_short_env (\<lambda>k. k) demo_auth_clock phone_draft ''a'' ''j'' token ''l'' 1
      ''iphone.location.current'') phone_db = (Inr (New_Request ''d''), db)"
    "phone_stage [phone_key ''requested''] [phone_row aid ''waiting_approval'' None None] [] [] db"
proof -
  let ?audit = "capability_audit phone_env ''iphone.capability.requested''
          (JObj [(''request_id'', JStr (cd_request_id phone_draft)), (''approval_id'', JStr (cd_approval_id phone_draft)),
            (''capability_name'', JStr ''iphone.location.current''), (''requesting_agent_id'', JStr ''a''),
            (''requesting_job_id'', JStr ''j''), (''action_digest'', JStr (cd_action_digest phone_draft)),
            (''policy'', approval_context (cd_rule phone_draft)), (''arguments_redacted'', JBool True)])
          ''agent'' ''a'' (aj_task_id phone_job) phone_db"
  obtain a d1 where au: "?audit = (a, d1)" by (rule prod.exhaust)
  let ?row = "phone_row (ae_id a) ''waiting_approval'' None None"
  let ?d2 = "d1\<lparr>capability_requests := [?row]\<rparr>"
  have st1: "phone_stage [] [] [] [] d1"
    using phone_audited [OF phone_start, of "''iphone.capability.requested''"] au by (metis snd_conv)
  then have st2: "phone_stage [] [?row] [] [] ?d2" by (simp add: phone_stage_def)
  have key: "''iphone-capability:'' @ cr_id ?row @ '':'' @ ''requested'' = phone_key ''requested''"
    by (simp add: phone_row_def phone_key_def)
  have "\<exists>d3. capability_enqueue phone_env ?row ''iphone.capabilities'' ''capability_requested''
      (JObj [(''request_id'', JStr ''iphreq_1''), (''capability_name'', JStr ''iphone.location.current''),
        (''device_id'', JStr ''d''), (''status'', JStr ''waiting_approval'')]) ''requested'' ?d2 = Inr d3 \<and>
      phone_stage ([] @ [''iphone-capability:'' @ cr_id ?row @ '':'' @ ''requested'']) [?row] [] [] d3"
  proof (rule phone_enqueue [OF st2 _ _ phone_request_payload(1) _ phone_request_payload(3)])
    show "length (json_dumps (JObj [(''request_id'', JStr ''iphreq_1''), (''capability_name'', JStr ''iphone.location.current''),
        (''device_id'', JStr ''d''), (''status'', JStr ''waiting_approval'')])) \<le> max_event_bytes"
      using phone_request_payload(2) by (rule le_trans) (simp add: max_event_bytes_def)
    show "length (json_dumps (JObj [(''capability_name'', JStr ''iphone.location.current''), (''device_id'', JStr ''d''),
        (''request_id'', JStr ''iphreq_1''), (''status'', JStr ''waiting_approval'')])) \<le> 1000000"
      by (simp add: dump_pairs_def json_quote_def escape_char_def)
  qed (simp_all add: phone_row_def)
  then obtain d3 where e: "capability_enqueue phone_env ?row ''iphone.capabilities'' ''capability_requested''
      (JObj [(''request_id'', JStr ''iphreq_1''), (''capability_name'', JStr ''iphone.location.current''),
        (''device_id'', JStr ''d''), (''status'', JStr ''waiting_approval'')]) ''requested'' ?d2 = Inr d3"
    and st3: "phone_stage ([] @ [''iphone-capability:'' @ cr_id ?row @ '':'' @ ''requested'']) [?row] [] [] d3" by blast
  have none: "open_request (cd_fingerprint phone_draft) phone_db = None"
    by (simp add: open_request_def phone_db_def sql_select_def)
  have device: "select_device_locked (tk_source demo_running_task) phone_db = Inr ''d''"
    by (simp add: select_device_locked_def demo_running_task_def phone_db_def demo_phone_def sql_select_def)
  have row: "drafted_row phone_draft phone_job ''a'' ''j'' 1 ''iphone.location.current'' ''d'' (ae_id a) (re_clock phone_env) 60000000 = ?row"
    by (simp add: drafted_row_def phone_draft_def phone_row_def phone_job_def demo_leased_job_def new_job_def phone_env_def capability_env_def)
  have ins: "insert_capability_request ?row d1 = Inr ?d2"
    using st1 by (simp add: insert_capability_request_def phone_stage_def)
  have new: "new_request_locked phone_env 60000000 phone_draft ''a'' ''j'' 1 ''iphone.location.current'' phone_job demo_running_task phone_db =
      Inr (New_Request ''d'', d3)"
    unfolding new_request_locked_def device and_then.simps au Let_def prod.case row ins
    using e by (simp add: phone_draft_def)
  have "transaction (create_request_locked demo_short_env (\<lambda>k. k) demo_auth_clock phone_draft ''a'' ''j'' token ''l'' 1
      ''iphone.location.current'') phone_db = (Inr (New_Request ''d''), d3)"
    using new unfolding transaction_Inr_iff create_request_locked_def phone_now and_then.simps
    by (simp add: demo_add phone_lease(2) [OF phone_start] none phone_env_def) (simp add: phone_draft_def demo_add)
  then show ?thesis using st3 unfolding key by (intro that) simp_all
qed

section \<open>Decision, use and result\<close>

lemma phone_notified:
  assumes "phone_stage keys rs gs xs db" and "status \<in> set [''approved'', ''consumed'', ''completed'']"
    and "phone_key suffix \<notin> set keys" and "length suffix \<le> 30"
    and "topic \<noteq> [] \<and> length topic \<le> 290 \<and> ty \<noteq> [] \<and> length ty \<le> 290"
  shows "\<exists>db'. capability_enqueue phone_env (phone_row aid s d c) topic ty (result_payload ''iphreq_1'' status) suffix
      (snd (capability_audit phone_env ty2 p2 at ai task db)) = Inr db' \<and> phone_stage (keys @ [phone_key suffix]) rs gs xs db'"
proof -
  have key: "''iphone-capability:'' @ cr_id (phone_row aid s d c) @ '':'' @ suffix = phone_key suffix"
    by (simp add: phone_row_def phone_key_def)
  have p: "assert_safe_shared_payload (\<lambda>s. False) (result_payload ''iphreq_1'' status) = Inr ()"
    "length (json_dumps (result_payload ''iphreq_1'' status)) \<le> 100"
    "json_loads (json_dumps (result_payload ''iphreq_1'' status)) = Some (result_payload ''iphreq_1'' status)"
    using phone_payload_facts assms(2) by blast+
  show ?thesis
    unfolding result_payload_def key [symmetric]
  proof (rule phone_enqueue [OF phone_audited [OF assms(1)] _ _ p(1) [unfolded result_payload_def] _ p(3) [unfolded result_payload_def]])
    show "''iphone-capability:'' @ cr_id (phone_row aid s d c) @ '':'' @ suffix \<notin> set keys" unfolding key by (rule assms(3))
    show "length (json_dumps (JObj [(''request_id'', JStr ''iphreq_1''), (''status'', JStr status)])) \<le> max_event_bytes"
      using p(2)[unfolded result_payload_def] by (rule le_trans) (simp add: max_event_bytes_def)
    show "length (json_dumps (JObj [(''request_id'', JStr ''iphreq_1''), (''status'', JStr status)])) \<le> 1000000"
      using p(2)[unfolded result_payload_def] by (rule le_trans) simp
  qed (use assms(4,5) in \<open>simp add: phone_row_def\<close>)
qed

abbreviation phone_clock :: py_datetime where
  "phone_clock \<equiv> demo_auth_clock"

definition phone_db1 :: capability_db where
  "phone_db1 = snd (transaction (create_request_locked demo_short_env (\<lambda>k. k) phone_clock phone_draft ''a'' ''j'' ''k'' ''l'' 1
    ''iphone.location.current'') phone_db)"

definition phone_approve :: "capability_db \<Rightarrow> py_error + (py_error + capability_request_row \<times> (string \<times> string) option) \<times> capability_db" where
  "phone_approve = authorize_locked demo_short_env (\<lambda>s. Inr 60000000) (\<lambda>k. k) (phone_service \<lparr>os_instance_id = ''o'', os_lease_seconds = 30\<rparr>)
    phone_clock ''s'' ''1'' ''1'' ''iphreq_1'' ''d'' ''approve'' None"

definition phone_db2 :: capability_db where
  "phone_db2 = snd (committed phone_approve phone_db1)"

definition phone_consume :: "capability_db \<Rightarrow> py_error + (py_error + string) \<times> capability_db" where
  "phone_consume = consume_locked demo_short_env (\<lambda>k. k) phone_clock ''iphreq_1'' ''d'' ''grt_s'' ''sha256:h''"

definition phone_db3 :: capability_db where
  "phone_db3 = snd (committed phone_consume phone_db2)"

text \<open>A result with a letter outside ASCII.\<close>

definition phone_result :: "(string \<times> json) list" where
  "phone_result = [(''name'', JStr ''iphone.location.current''), (''status'', JStr ''completed''), (''value'', JStr [CHR 0xC3, CHR 0xA9])]"

definition phone_submit :: "capability_db \<Rightarrow> py_error + (py_error + result_receipt) \<times> capability_db" where
  "phone_submit = submit_result_locked demo_short_env (\<lambda>v. []) (\<lambda>k. k) phone_clock ''iphreq_1'' ''d'' ''grt_s'' ''sha256:h'' phone_result"

definition phone_db4 :: capability_db where
  "phone_db4 = snd (committed phone_submit phone_db3)"

lemma phone_stage1: "\<exists>aid. phone_stage [phone_key ''requested''] [phone_row aid ''waiting_approval'' None None] [] [] phone_db1"
proof -
  obtain aid db where "transaction (create_request_locked demo_short_env (\<lambda>k. k) demo_auth_clock phone_draft ''a'' ''j'' ''k'' ''l'' 1
      ''iphone.location.current'') phone_db = (Inr (New_Request ''d''), db)"
    "phone_stage [phone_key ''requested''] [phone_row aid ''waiting_approval'' None None] [] [] db"
    by (rule phone_created)
  then show ?thesis unfolding phone_db1_def by auto
qed

lemma phone_fields:
  "cr_id (phone_row aid s d c) = ''iphreq_1''" "cr_device_id (phone_row aid s d c) = ''d''" "cr_status (phone_row aid s d c) = s"
  "cr_expires_at (phone_row aid s d c) = isoformat 60000000" "cr_capability_name (phone_row aid s d c) = ''iphone.location.current''"
  "cr_approval_id (phone_row aid s d c) = ''icapr_1''" "cr_action_digest (phone_row aid s d c) = ''sha256:h''"
  "cr_task_id (phone_row aid s d c) = ''t''" "cr_requesting_job_id (phone_row aid s d c) = ''j''"
  "cr_requesting_agent_id (phone_row aid s d c) = ''a''" "cr_lease_generation (phone_row aid s d c) = 1"
  by (simp_all add: phone_row_def)

lemma phone_hash: "grant_hash (env_sha256 demo_short_env) x = ''sha256:h''"
  by (simp add: grant_hash_def demo_short_env_def)

lemma phone_stage2: "\<exists>aid. committed phone_approve phone_db1 = (Inr (phone_row aid ''approved'' None None, Some (isoformat 0, isoformat 30000000)), phone_db2) \<and>
  phone_stage [phone_key ''requested'', phone_key ''approved''] [phone_row aid ''approved'' None None] [phone_grant None] [] phone_db2"
proof -
  obtain aid where st: "phone_stage [phone_key ''requested''] [phone_row aid ''waiting_approval'' None None] [] [] phone_db1"
    using phone_stage1 by blast
  let ?r = "phone_row aid ''waiting_approval'' None None" and ?r2 = "phone_row aid ''approved'' None None"
  let ?d = "phone_db1\<lparr>capability_grants := [phone_grant None], capability_requests := [?r2]\<rparr>"
  have st2: "phone_stage [phone_key ''requested''] [?r2] [phone_grant None] [] ?d" using st by (simp add: phone_stage_def)
  have upd: "?r\<lparr>cr_status := ''approved''\<rparr> = ?r2" by (simp add: phone_row_def)
  have ins: "insert_grant (phone_grant None) phone_db1 = Inr (phone_db1\<lparr>capability_grants := [phone_grant None]\<rparr>)"
    using st by (simp add: insert_grant_def phone_stage_def)
  have set: "set_request_status ''iphreq_1'' ''waiting_approval'' (\<lambda>x. x\<lparr>cr_status := ''approved''\<rparr>)
      ''capability request changed during authorization'' (phone_db1\<lparr>capability_grants := [phone_grant None]\<rparr>) = Inr ?d"
  proof -
    have rows: "capability_requests (phone_db1\<lparr>capability_grants := [phone_grant None]\<rparr>) = [?r]"
      using st by (simp add: phone_stage_def)
    show ?thesis unfolding set_request_status_def rows Let_def
      by (simp add: table_simps phone_fields upd)
  qed
  have "\<exists>db. record_capability_decision phone_env ?r ''approved'' ''d'' None ?d = Inr db \<and>
      phone_stage ([phone_key ''requested''] @ [phone_key ''approved'']) [?r2] [phone_grant None] [] db"
    unfolding record_capability_decision_def phone_fields simp_thms if_True
    by (rule phone_notified [OF st2]) (simp_all add: phone_key_def)
  then obtain db where e: "record_capability_decision phone_env ?r ''approved'' ''d'' None ?d = Inr db"
    and st3: "phone_stage [phone_key ''requested'', phone_key ''approved''] [?r2] [phone_grant None] [] db" by auto
  have g: "\<lparr>cg_id = ''icg_'' @ ''1'', cg_request_id = cr_id ?r, cg_device_id = ''d'',
        cg_capability_name = cr_capability_name ?r, cg_approval_id = cr_approval_id ?r, cg_token_hash = ''sha256:h'',
        cg_action_digest = cr_action_digest ?r, cg_issued_at = re_now phone_env, cg_expires_at = isoformat 30000000,
        cg_consumed_at = None\<rparr> = phone_grant None"
    by (simp add: phone_grant_def phone_fields phone_env_def capability_env_def)
  have f: "first_grant phone_env ?r ''d'' ''sha256:h'' (isoformat 30000000) ''1'' None phone_db1 = Inr db"
    unfolding first_grant_def g ins and_then.simps unfolding phone_fields set and_then.simps by (rule e)
  have sel: "fetchone (sql_select (\<lambda>r. cr_id r = ''iphreq_1'' \<and> cr_device_id r = ''d'') (capability_requests phone_db1)) = Some ?r"
    using st by (simp add: phone_stage_def sql_select_def phone_fields)
  have "phone_approve phone_db1 = Inr (Inr (?r2, Some (isoformat 0, isoformat 30000000)), db)"
    unfolding phone_approve_def authorize_locked_def phone_now and_then.simps Let_def sel option.case
    using f phone_lease(3) [OF st, of aid "''waiting_approval''" None None]
    by (simp add: phone_fields demo_auth_iso phone_service_def demo_add phone_hash phone_env_def [symmetric] upd min_def)
  then show ?thesis using st3 unfolding phone_db2_def committed_def by auto
qed

lemma phone_binding: "grant_binding_matches (phone_row aid s d c) (phone_grant consumed) ''d'' ''sha256:h'' = Inr True"
  by (simp add: grant_binding_matches_def phone_fields phone_grant_def compare_digest_def is_ascii_def)

lemma phone_granted:
  assumes "phone_stage keys [phone_row aid s d c] [phone_grant consumed] xs db"
  shows "granted_request ''iphreq_1'' ''sha256:h'' db = Some (phone_row aid s d c, phone_grant consumed)"
  using assms by (simp add: granted_request_def phone_stage_def table_simps phone_fields phone_grant_def)

lemma phone_stage3: "\<exists>aid. committed phone_consume phone_db2 = (Inr (isoformat 0), phone_db3) \<and>
  phone_stage [phone_key ''requested'', phone_key ''approved'', phone_key ''consumed'']
    [phone_row aid ''consumed'' (Some (isoformat 0)) None] [phone_grant (Some (isoformat 0))] [] phone_db3"
proof -
  obtain aid where st: "phone_stage [phone_key ''requested'', phone_key ''approved''] [phone_row aid ''approved'' None None]
      [phone_grant None] [] phone_db2"
    using phone_stage2 by blast
  let ?r = "phone_row aid ''approved'' None None" and ?r2 = "phone_row aid ''consumed'' (Some (isoformat 0)) None"
  let ?g2 = "phone_grant (Some (isoformat 0))"
  let ?d1 = "phone_db2\<lparr>capability_grants := [?g2]\<rparr>"
  let ?d = "?d1\<lparr>capability_requests := [?r2]\<rparr>"
  have st2: "phone_stage [phone_key ''requested'', phone_key ''approved''] [?r2] [?g2] [] ?d" using st by (simp add: phone_stage_def)
  have upd: "?r\<lparr>cr_status := ''consumed'', cr_delivered_at := Some (isoformat 0)\<rparr> = ?r2" by (simp add: phone_row_def)
  have updg: "(phone_grant None)\<lparr>cg_consumed_at := Some (isoformat 0)\<rparr> = ?g2" by (simp add: phone_grant_def)
  have gf: "cg_id (phone_grant x) = ''icg_1''" "cg_consumed_at (phone_grant x) = x" "cg_expires_at (phone_grant x) = isoformat 30000000"
    for x by (simp_all add: phone_grant_def)
  have rows: "capability_requests ?d1 = [?r]" "capability_grants phone_db2 = [phone_grant None]"
    using st by (simp_all add: phone_stage_def)
  have set: "set_request_status ''iphreq_1'' ''approved'' (\<lambda>x. x\<lparr>cr_status := ''consumed'', cr_delivered_at := Some (isoformat 0)\<rparr>)
      ''capability grant lost a concurrent transition'' ?d1 = Inr ?d"
    unfolding set_request_status_def rows Let_def by (simp add: table_simps phone_fields upd)
  have "\<exists>db. capability_enqueue phone_env ?r ''iphone.capabilities'' ''capability_consumed'' (result_payload ''iphreq_1'' ''consumed'')
      ''consumed'' (snd (capability_audit phone_env ''iphone.capability.grant_consumed''
        (JObj [(''request_id'', JStr ''iphreq_1''), (''action_digest'', JStr ''sha256:h'')]) ''device'' ''d'' ''t'' ?d)) = Inr db \<and>
      phone_stage ([phone_key ''requested'', phone_key ''approved''] @ [phone_key ''consumed'']) [?r2] [?g2] [] db"
    by (rule phone_notified [OF st2]) (simp_all add: phone_key_def)
  then obtain db where e: "capability_enqueue phone_env ?r ''iphone.capabilities'' ''capability_consumed'' (result_payload ''iphreq_1'' ''consumed'')
      ''consumed'' (snd (capability_audit phone_env ''iphone.capability.grant_consumed''
        (JObj [(''request_id'', JStr ''iphreq_1''), (''action_digest'', JStr ''sha256:h'')]) ''device'' ''d'' ''t'' ?d)) = Inr db"
    and st3: "phone_stage [phone_key ''requested'', phone_key ''approved'', phone_key ''consumed''] [?r2] [?g2] [] db" by auto
  have one: "sql_rowcount (\<lambda>x. cg_id x = ''icg_1'' \<and> cg_consumed_at x = None \<and> isoformat 0 < cg_expires_at x) [phone_grant None] = 1"
    "sql_update (\<lambda>x. cg_id x = ''icg_1'' \<and> cg_consumed_at x = None \<and> isoformat 0 < cg_expires_at x)
      (\<lambda>x. x\<lparr>cg_consumed_at := Some (isoformat 0)\<rparr>) [phone_grant None] = [?g2]"
    by (simp_all add: table_simps gf phone_iso updg)
  have flags: "(cg_consumed_at (phone_grant None) \<noteq> None \<or> cr_status ?r \<noteq> ''approved'') = False"
    "(cg_expires_at (phone_grant None) \<le> isoformat 0) = False" "request_job_is_active_locked ?r (isoformat 0) phone_db2 = True"
    "(Suc 0 \<noteq> 1) = False"
    using phone_lease(3) [OF st, of aid "''approved''" None None] by (simp_all add: gf phone_fields phone_iso)
  have "phone_consume phone_db2 = Inr (Inr (isoformat 0), db)"
    unfolding phone_consume_def consume_locked_def phone_now and_then.simps Let_def phone_hash phone_granted [OF st] option.case prod.case
      phone_binding flags rows(2) gf(1) phone_env_def [symmetric] one simp_thms if_True if_False set phone_fields e
    by (simp add: gf)
  then show ?thesis using st3 unfolding phone_db3_def committed_def by auto
qed

lemma phone_result_texts:
  "dict_text (\<lambda>v. []) ''name'' phone_result = ''iphone.location.current''"
  "dict_text (\<lambda>v. []) ''status'' phone_result = ''completed''"
  "\<not> is_ascii (json_dumps (JObj phone_result))" "json_dict (JObj phone_result)"
  subgoal by (simp add: dict_text_def phone_result_def)
  subgoal by (simp add: dict_text_def phone_result_def)
  subgoal by code_simp
  subgoal by (simp add: phone_result_def)
  done

lemma phone_stage4: "\<exists>aid x. committed phone_submit phone_db3 = (Inr Result_Accepted, phone_db4) \<and>
  phone_stage [phone_key ''requested'', phone_key ''approved'', phone_key ''consumed'', phone_key ''result'']
    [phone_row aid ''completed'' (Some (isoformat 0)) (Some (isoformat 0))] [phone_grant (Some (isoformat 0))] [x] phone_db4 \<and>
  cx_request_id x = ''iphreq_1'' \<and> cx_result_json x = json_dumps (JObj phone_result)"
proof -
  obtain aid where st: "phone_stage [phone_key ''requested'', phone_key ''approved'', phone_key ''consumed'']
    [phone_row aid ''consumed'' (Some (isoformat 0)) None] [phone_grant (Some (isoformat 0))] [] phone_db3"
    using phone_stage3 by blast
  let ?r = "phone_row aid ''consumed'' (Some (isoformat 0)) None"
    and ?r2 = "phone_row aid ''completed'' (Some (isoformat 0)) (Some (isoformat 0))"
  define x where "x = \<lparr>cx_request_id = ''iphreq_1'', cx_status = ''completed'', cx_result_json = json_dumps (JObj phone_result),
    cx_created_at = isoformat 0\<rparr>"
  let ?d1 = "phone_db3\<lparr>capability_results := [x]\<rparr>"
  let ?d = "?d1\<lparr>capability_requests := [?r2]\<rparr>"
  have st2: "phone_stage [phone_key ''requested'', phone_key ''approved'', phone_key ''consumed''] [?r2]
      [phone_grant (Some (isoformat 0))] [x] ?d" using st by (simp add: phone_stage_def)
  have upd: "?r\<lparr>cr_status := ''completed'', cr_completed_at := Some (isoformat 0)\<rparr> = ?r2" by (simp add: phone_row_def)
  have rows: "capability_requests ?d1 = [?r]" "capability_results phone_db3 = []"
    using st by (simp_all add: phone_stage_def)
  have ins: "insert_result x phone_db3 = Inr ?d1" by (simp add: insert_result_def stored_result_def rows(2) table_simps)
  have set: "set_request_status ''iphreq_1'' ''consumed'' (\<lambda>x. x\<lparr>cr_status := ''completed'', cr_completed_at := Some (isoformat 0)\<rparr>)
      ''capability request changed during result'' ?d1 = Inr ?d"
    unfolding set_request_status_def rows Let_def by (simp add: table_simps phone_fields upd)
  have now: "re_now phone_env = isoformat 0" by (simp add: phone_env_def capability_env_def)
  have "\<exists>db. accept_result phone_env ?r ''d'' ''completed'' (json_dumps (JObj phone_result)) phone_db3 = Inr db \<and>
      phone_stage ([phone_key ''requested'', phone_key ''approved'', phone_key ''consumed''] @ [phone_key ''result'']) [?r2]
        [phone_grant (Some (isoformat 0))] [x] db"
    unfolding accept_result_def phone_fields now x_def [symmetric] ins and_then.simps set
    by (rule phone_notified [OF st2]) (simp_all add: phone_key_def)
  then obtain db where e: "accept_result phone_env ?r ''d'' ''completed'' (json_dumps (JObj phone_result)) phone_db3 = Inr db"
    and st3: "phone_stage [phone_key ''requested'', phone_key ''approved'', phone_key ''consumed'', phone_key ''result''] [?r2]
        [phone_grant (Some (isoformat 0))] [x] db" by auto
  have flags: "(cg_consumed_at (phone_grant (Some (isoformat 0))) = None) = False" "(''iphone.location.current'' \<noteq> cr_capability_name ?r) = False"
    "(''completed'' \<notin> set [''completed'', ''cancelled'', ''denied'', ''failed'']) = False"
    "(cr_status ?r \<in> set terminal_capability_statuses) = False" "(cr_status ?r \<noteq> ''consumed'') = False"
    "request_job_is_active_locked ?r (isoformat 0) phone_db3 = True" "(cr_expires_at ?r \<le> isoformat 0) = False"
    using phone_lease(3) [OF st, of aid "''consumed''" "Some (isoformat 0)" None]
    by (simp_all add: phone_grant_def phone_fields demo_auth_iso terminal_capability_statuses_def)
  have "phone_submit phone_db3 = Inr (Inr Result_Accepted, db)"
    unfolding phone_submit_def submit_result_locked_def phone_now and_then.simps Let_def phone_hash phone_granted [OF st] option.case
      prod.case phone_binding phone_result_texts flags phone_env_def [symmetric] simp_thms if_True if_False e ..
  then show ?thesis using st3 unfolding phone_db4_def committed_def
    by (intro exI [of _ aid] exI [of _ x]) (simp add: x_def del: json_dumps.simps)
qed

section \<open>Witnesses\<close>

lemma phone_run2: "(capability_step demo_short_env)\<^sup>*\<^sup>* phone_db phone_db2"
proof -
  have "capability_step demo_short_env phone_db phone_db1"
    unfolding phone_db1_def
    by (rule capability_step.create [OF phone_drafted [of "\<lparr>os_instance_id = ''o'', os_lease_seconds = 30\<rparr>"]])
  moreover have "capability_step demo_short_env phone_db1 phone_db2"
    unfolding phone_db2_def phone_approve_def by (rule capability_step.authorize)
  ultimately show ?thesis by (meson r_into_rtranclp rtranclp_trans)
qed

lemma phone_run3: "(capability_step demo_short_env)\<^sup>*\<^sup>* phone_db phone_db3"
  unfolding phone_db3_def phone_consume_def by (rule rtranclp.rtrancl_into_rtrancl [OF phone_run2 capability_step.consume])

lemma phone_run4: "(capability_step demo_short_env)\<^sup>*\<^sup>* phone_db3 phone_db4"
  unfolding phone_db4_def phone_submit_def by (rule r_into_rtranclp [of "capability_step demo_short_env", OF capability_step.submit])

lemma phone_empty: "capability_requests phone_db = []" "capability_grants phone_db = []" "capability_results phone_db = []"
  by (simp_all add: phone_db_def)

lemma phone_wf: "capability_tables_wf (env_sha256 demo_short_env) phone_db2" "capability_tables_wf (env_sha256 demo_short_env) phone_db3"
  by (rule run_wf [OF phone_run2 empty_wf [OF phone_empty]], rule run_wf [OF phone_run3 empty_wf [OF phone_empty]])

lemma phone_consumed: "committed (consume_locked demo_short_env (\<lambda>k. k) phone_clock ''iphreq_1'' ''d'' ''grt_s'' ''sha256:h'') phone_db2 =
    (Inr (isoformat 0), phone_db3)"
  using phone_stage3 unfolding phone_consume_def by blast

lemma phone_submitted: "committed (submit_result_locked demo_short_env (\<lambda>v. []) (\<lambda>k. k) phone_clock ''iphreq_1'' ''d'' ''grt_s''
    ''sha256:h'' phone_result) phone_db3 = (Inr Result_Accepted, phone_db4)"
  using phone_stage4 unfolding phone_submit_def by blast

lemma request_refines_lifecycle_witness:
  "\<exists>r. row_by cr_id ''iphreq_1'' (capability_requests phone_db4) = Some r \<and> capability_path ''consumed'' (cr_status r) \<and>
    cr_status r = ''completed''"
proof -
  obtain aid where "phone_stage [phone_key ''requested'', phone_key ''approved'', phone_key ''consumed'']
    [phone_row aid ''consumed'' (Some (isoformat 0)) None] [phone_grant (Some (isoformat 0))] [] phone_db3"
    using phone_stage3 by blast
  then have r: "row_by cr_id ''iphreq_1'' (capability_requests phone_db3) = Some (phone_row aid ''consumed'' (Some (isoformat 0)) None)"
    by (simp add: phone_stage_def table_simps phone_fields)
  obtain aid2 x where "phone_stage [phone_key ''requested'', phone_key ''approved'', phone_key ''consumed'', phone_key ''result'']
    [phone_row aid2 ''completed'' (Some (isoformat 0)) (Some (isoformat 0))] [phone_grant (Some (isoformat 0))] [x] phone_db4"
    using phone_stage4 by blast
  then have "row_by cr_id ''iphreq_1'' (capability_requests phone_db4) = Some (phone_row aid2 ''completed'' (Some (isoformat 0)) (Some (isoformat 0)))"
    by (simp add: phone_stage_def table_simps phone_fields)
  then show ?thesis using request_refines_lifecycle [OF phone_run4 r] by (auto simp: phone_fields)
qed

lemma consumed_grant_was_approved_witness:
  "\<exists>r. r \<in> set (capability_requests phone_db2) \<and> cr_id r = ''iphreq_1'' \<and> cr_device_id r = ''d'' \<and> approved_by_device r phone_db2 \<and>
    request_job_is_active_locked r (isoformat 0) phone_db2"
  using consumed_grant_was_approved [OF phone_empty phone_run2 phone_consumed] by blast

lemma grant_is_consumed_once_witness:
  "\<forall>fresh clk device grant digest now.
    fst (committed (consume_locked demo_short_env fresh clk ''iphreq_1'' device grant digest) phone_db4) \<noteq> Inr now"
  using grant_is_consumed_once [OF phone_wf(1) phone_consumed phone_run4] by blast

lemma phone_polled:
  "\<exists>v. poll_locked demo_short_env phone_clock ''iphreq_1'' ''a'' ''j'' ''k'' ''l'' 1 phone_db4 = Inr v"
proof -
  obtain aid x where st: "phone_stage [phone_key ''requested'', phone_key ''approved'', phone_key ''consumed'', phone_key ''result'']
    [phone_row aid ''completed'' (Some (isoformat 0)) (Some (isoformat 0))] [phone_grant (Some (isoformat 0))] [x] phone_db4"
    and x: "cx_request_id x = ''iphreq_1''" "cx_result_json x = json_dumps (JObj phone_result)"
    using phone_stage4 by blast
  let ?r = "phone_row aid ''completed'' (Some (isoformat 0)) (Some (isoformat 0))"
  have sel: "fetchone (sql_select (\<lambda>r. cr_id r = ''iphreq_1'' \<and> cr_requesting_job_id r = ''j'' \<and> cr_requesting_agent_id r = ''a'' \<and>
      cr_lease_generation r = 1) (capability_requests phone_db4)) = Some ?r"
    using st by (simp add: phone_stage_def table_simps phone_fields)
  have res: "stored_result (cr_id ?r) phone_db4 = Some x"
    using st x(1) by (simp add: phone_stage_def stored_result_def table_simps phone_fields)
  have dec: "decode_json (json_dumps (JObj phone_result)) = Inr (json_sort (JObj phone_result))"
    by (simp add: decode_json_def json_loads_dumps [OF phone_result_texts(4)] del: json_dumps.simps)
  show ?thesis
    unfolding poll_locked_def phone_now and_then.simps phone_lease(2) [OF st] sel option.case res x(2) dec
    by (simp add: dec del: json_dumps.simps)
qed

lemma submitted_result_is_polled_witness:
  "\<exists>v fields. poll_locked demo_short_env phone_clock ''iphreq_1'' ''a'' ''j'' ''k'' ''l'' 1 phone_db4 = Inr v \<and> v = JObj fields \<and>
    map_of fields ''result'' = Some (json_sort (JObj phone_result))"
proof -
  obtain v where v: "poll_locked demo_short_env phone_clock ''iphreq_1'' ''a'' ''j'' ''k'' ''l'' 1 phone_db4 = Inr v"
    using phone_polled by blast
  show ?thesis
    using submitted_result_is_polled [OF phone_wf(2) phone_submitted rtranclp.rtrancl_refl phone_result_texts(4) v] v by blast
qed

lemma repeated_result_fails_outside_ascii_witness:
  "committed (submit_result_locked demo_short_env (\<lambda>v. []) (\<lambda>k. k) phone_clock ''iphreq_1'' ''d'' ''grt_s'' ''sha256:h'' phone_result)
    phone_db4 = (Inl (TypeError ''comparing strings with non-ASCII characters is not supported''), phone_db4)"
proof -
  have "dt_aware phone_clock" by (simp add: demo_auth_clock_def)
  then show ?thesis
    using repeated_result_fails_outside_ascii [OF phone_wf(2) phone_submitted rtranclp.rtrancl_refl] phone_result_texts(3)
    by (simp del: json_dumps.simps)
qed

end
