(* ===== verification/Startup_Recovery.thy ===== *)
theory Startup_Recovery
  imports IPhone_Capability Job_Lease
begin

text \<open>
  The recovery of \<open>StateService.initialize\<close> in \<open>server/app/services/state_service.py\<close>: one transaction at
  every start that makes jobs, tasks, capability requests and tool calls agree again. It fences leases of
  earlier versions, leaves at most one active job to a task, cancels ambiguous capability requests, fails
  what the last process was executing, and fails tasks without work. The migrations of the schema and of
  the memory and goal tables around it are not modelled.
\<close>

section \<open>State\<close>

text \<open>The columns of \<open>goal_runs\<close> that the recovery reads.\<close>

record goal_run_row =
  gr_id :: string
  gr_root_task_id :: string
  gr_status :: string
  gr_started_at :: "string option"
  gr_completed_at :: "string option"

record startup_db = capability_db +
  goal_runs :: "goal_run_row sql_table"

definition migration_audit :: "reaper_env \<Rightarrow> string \<Rightarrow> json \<Rightarrow> string \<Rightarrow> 'z audit_db_scheme \<Rightarrow> 'z audit_db_scheme" where
  "migration_audit env event_type payload task_id db =
    snd (capability_audit env event_type payload ''control-plane'' ''migration'' task_id db)"

definition error_message :: "string \<Rightarrow> string" where
  "error_message m = json_ascii False '', '' '': '' (JObj [(''message'', JStr m)])"

text \<open>A dictionary of lists, in the order in which its keys appear.\<close>

definition grouped :: "('r \<Rightarrow> 'k) \<Rightarrow> 'r list \<Rightarrow> ('k \<times> 'r list) list" where
  "grouped key rows = map (\<lambda>k. (k, filter (\<lambda>r. key r = k) rows)) (rev (remdups (rev (map key rows))))"

section \<open>Fencing what is ambiguous\<close>

definition cancel_capability_for_migration :: "reaper_env \<Rightarrow> string \<Rightarrow> string \<Rightarrow> capability_request_row \<Rightarrow>
    'z job_db_scheme \<Rightarrow> py_error + 'z job_db_scheme" where
  "cancel_capability_for_migration env reason suffix r db =
    (if sql_rowcount (\<lambda>x. cr_id x = cr_id r \<and> open_capability x) (capability_requests db) \<noteq> 1 then Inr db
     else capability_enqueue env r ''agent.job.capability.result'' ''capability_result''
       (result_payload (cr_id r) ''cancelled'') suffix
       (migration_audit env ''iphone.capability.cancelled''
         (JObj [(''request_id'', JStr (cr_id r)), (''reason'', JStr reason)]) (cr_task_id r)
         (end_request r (\<lambda>s. s \<notin> set terminal_capability_statuses) ''cancelled'' (re_now env) db)))"

definition fenced_job :: "string \<Rightarrow> string \<Rightarrow> job_row \<Rightarrow> job_row" where
  "fenced_job now reason j = j\<lparr>aj_status := Job_Cancelled, aj_claimed_by := None, aj_claim_token := None,
    aj_lease_id := None, aj_lease_token_hash := None, aj_lease_expires_at := None,
    aj_lease_generation := aj_lease_generation j + 1, aj_updated_at := now, aj_completed_at := Some now,
    aj_last_failure_reason := Some reason\<rparr>"

definition cancel_job_for_migration :: "reaper_env \<Rightarrow> string \<Rightarrow> string \<Rightarrow> job_row \<Rightarrow> 'z job_db_scheme \<Rightarrow>
    py_error + 'z job_db_scheme" where
  "cancel_job_for_migration env reason suffix job db =
    and_then (for_each (cancel_capability_for_migration env reason (suffix @ ''-job''))
      (sql_select (\<lambda>r. cr_requesting_job_id r = aj_id job \<and> open_capability r) (capability_requests db)) db) (\<lambda>db1.
    let hit = (\<lambda>j. aj_id j = aj_id job \<and> job_active (aj_status j)) in
    if sql_rowcount hit (agent_jobs db1) \<noteq> 1 then Inr db1
    else reaper_enqueue env ''agent_job'' (aj_id job) ''tasks.status'' ''cancelled''
      (JObj [(''job_id'', JStr (aj_id job)), (''reason'', JStr ''migration_fence'')]) (aj_task_id job) None
      (''agent-job:'' @ aj_id job @ '':'' @ suffix)
      (migration_audit env ''agent.job.cancelled.migration''
        (JObj [(''job_id'', JStr (aj_id job)), (''reason'', JStr reason)]) (aj_task_id job)
        (db1\<lparr>agent_jobs := sql_update hit (fenced_job (re_now env) reason) (agent_jobs db1)\<rparr>)))"

section \<open>One task and its active jobs\<close>

definition status_rank :: "job_status \<Rightarrow> nat" where
  "status_rank s = (case s of Job_Running \<Rightarrow> 0 | Job_Claimed \<Rightarrow> 1 | _ \<Rightarrow> 2)"

definition active_rows :: "'z job_db_scheme \<Rightarrow> reaped_row list" where
  "active_rows db = sort_key
    (\<lambda>p. (aj_task_id (rp_job p), status_rank (aj_status (rp_job p)), aj_created_at (rp_job p), aj_id (rp_job p)))
    (concat (map (\<lambda>j. map (\<lambda>t. \<lparr>rp_job = j, rp_task_status = tk_status t\<rparr>)
        (sql_select (\<lambda>t. tk_id t = aj_task_id j) (tasks db)))
      (sql_select (\<lambda>j. job_active (aj_status j)) (agent_jobs db))))"

text \<open>A lease of an earlier version: a claim token in plain text, or a column of the lease missing.\<close>

definition legacy_lease :: "job_row \<Rightarrow> bool" where
  "legacy_lease j \<longleftrightarrow> aj_claim_token j \<noteq> None \<or> aj_lease_id j = None \<or> aj_lease_token_hash j = None \<or>
    aj_lease_expires_at j = None"

definition recoverable_task :: "task_status \<Rightarrow> bool" where
  "recoverable_task s \<longleftrightarrow> s = Task_Created \<or> s = Task_Planned \<or> s = Task_Queued \<or> s = Task_Running"

definition safe_retry_skills :: "string list" where
  "safe_retry_skills = [''workspace.list_dir'', ''workspace.read_text'']"

definition local_execution :: "string \<Rightarrow> 'z approval_db_scheme \<Rightarrow> bool" where
  "local_execution task_id db \<longleftrightarrow> list_ex (\<lambda>c. tc_task_id c = task_id \<and> tc_status c = Tool_Running) (tool_calls db)"

text \<open>The job that stays, of those read for a task; \<open>None\<close> when the task has ended.\<close>

definition survivor_of :: "task_status \<Rightarrow> job_row list \<Rightarrow> job_row option" where
  "survivor_of task_status jobs =
    (if task_terminal task_status then None
     else if task_status = Task_Queued
     then (case find (\<lambda>j. aj_status j = Job_Queued) jobs of None \<Rightarrow> Some (hd jobs) | Some j \<Rightarrow> Some j)
     else Some (hd jobs))"

definition invalidated_job :: "bool \<Rightarrow> string \<Rightarrow> string \<Rightarrow> job_row \<Rightarrow> job_row" where
  "invalidated_job can_requeue now reason j = j\<lparr>aj_status := if can_requeue then Job_Queued else Job_Failed,
    aj_claimed_by := None, aj_claim_token := None, aj_lease_id := None, aj_lease_token_hash := None,
    aj_lease_expires_at := None, aj_lease_generation := aj_lease_generation j + 1, aj_updated_at := now,
    aj_completed_at := if can_requeue then None else Some now, aj_last_failure_reason := Some reason,
    aj_error := if can_requeue then None else Some ''legacy worker lease was invalidated''\<rparr>"

definition recovered_tasks :: "bool \<Rightarrow> bool \<Rightarrow> string \<Rightarrow> string \<Rightarrow> task_status \<Rightarrow> task_row sql_table \<Rightarrow> task_row sql_table" where
  "recovered_tasks can_requeue local_running now task_id task_status t =
    (if can_requeue \<and> task_status \<in> {Task_Created, Task_Planned, Task_Running}
     then sql_update (\<lambda>x. tk_id x = task_id \<and> tk_status x \<in> {Task_Created, Task_Planned, Task_Running})
       (\<lambda>x. x\<lparr>tk_status := Task_Queued, tk_updated_at := now, tk_completed_at := None, tk_error_json := None\<rparr>) t
     else if \<not> can_requeue \<and> task_status \<in> {Task_Queued, Task_Running} \<and> \<not> local_running
     then sql_update (\<lambda>x. tk_id x = task_id \<and> tk_status x \<in> {Task_Queued, Task_Running})
       (\<lambda>x. x\<lparr>tk_status := Task_Failed, tk_updated_at := now, tk_completed_at := Some now,
         tk_error_json := Some (error_message ''legacy remote lease could not be recovered'')\<rparr>) t
     else t)"

definition recover_legacy_lease :: "reaper_env \<Rightarrow> string \<Rightarrow> task_status \<Rightarrow> job_row \<Rightarrow> 'z job_db_scheme \<Rightarrow>
    py_error + 'z job_db_scheme" where
  "recover_legacy_lease env task_id task_status job db =
    (let now = re_now env; job_id = aj_id job; local_running = local_execution task_id db;
         can_requeue = (aj_required_skill job \<in> set safe_retry_skills \<and> \<not> local_running);
         reason = ''legacy plaintext claim invalidated during v0.9 migration'';
         event_type = (if can_requeue then ''requeued'' else ''dead_lettered'')
     in and_then (for_each (cancel_capability_for_migration env reason ''migration-legacy-lease'')
         (sql_select (\<lambda>r. cr_requesting_job_id r = job_id \<and> cr_lease_generation r = aj_lease_generation job \<and>
           open_capability r) (capability_requests db)) db) (\<lambda>db1.
       reaper_enqueue env ''agent_job'' job_id (if can_requeue then ''tasks.inbox'' else ''tasks.status'')
         (if can_requeue then ''published'' else ''failed'')
         (JObj [(''job_id'', JStr job_id), (''reason'', JStr ''legacy_lease_invalidated'')]) task_id None
         (''agent-job:'' @ job_id @ '':migration-'' @ event_type)
         (migration_audit env (''agent.job.'' @ event_type)
           (JObj [(''job_id'', JStr job_id), (''reason'', JStr ''legacy lease invalidated'')]) task_id
           (db1\<lparr>agent_jobs := sql_update (\<lambda>j. aj_id j = job_id \<and> job_leased (aj_status j))
               (invalidated_job can_requeue now reason) (agent_jobs db1),
             tasks := recovered_tasks can_requeue local_running now task_id task_status (tasks db1)\<rparr>))))"

definition reconcile_survivor :: "reaper_env \<Rightarrow> string \<Rightarrow> task_status \<Rightarrow> job_row \<Rightarrow> 'z job_db_scheme \<Rightarrow>
    py_error + 'z job_db_scheme" where
  "reconcile_survivor env task_id task_status job db =
    (if aj_status job = Job_Queued
     then if task_status = Task_Created \<or> task_status = Task_Planned
       then Inr (db\<lparr>tasks := sql_update (\<lambda>t. tk_id t = task_id \<and> tk_status t = task_status)
         (\<lambda>t. t\<lparr>tk_status := Task_Queued, tk_updated_at := re_now env\<rparr>) (tasks db)\<rparr>)
       else if task_status \<noteq> Task_Queued
       then cancel_job_for_migration env (''queued job is incompatible with task status '' @ task_status_name task_status)
         ''incompatible-task'' job db
       else Inr db
     else if \<not> legacy_lease job
     then let db1 = db\<lparr>agent_jobs := sql_update (\<lambda>j. aj_id j = aj_id job) (\<lambda>j. j\<lparr>aj_claim_token := None\<rparr>) (agent_jobs db)\<rparr>
       in if task_status \<noteq> Task_Running
          then cancel_job_for_migration env (''leased job is incompatible with task status '' @ task_status_name task_status)
            ''incompatible-task'' job db1
          else Inr db1
     else if \<not> recoverable_task task_status
     then cancel_job_for_migration env (''legacy lease is incompatible with task status '' @ task_status_name task_status)
       ''incompatible-task'' job db
     else recover_legacy_lease env task_id task_status job db)"

definition reconcile_task :: "reaper_env \<Rightarrow> string \<times> reaped_row list \<Rightarrow> 'z job_db_scheme \<Rightarrow>
    py_error + 'z job_db_scheme" where
  "reconcile_task env g db =
    (let (task_id, rows) = g; task_status = rp_task_status (hd rows); jobs = map rp_job rows;
         survivor = survivor_of task_status jobs
     in and_then (for_each (cancel_job_for_migration env ''duplicate active job fenced during v0.9 migration'' ''migration-fence'')
         (case survivor of None \<Rightarrow> jobs | Some s \<Rightarrow> filter (\<lambda>j. aj_id j \<noteq> aj_id s) jobs) db) (\<lambda>db1.
       case survivor of None \<Rightarrow> Inr db1 | Some job \<Rightarrow> reconcile_survivor env task_id task_status job db1))"

definition reconcile_jobs :: "reaper_env \<Rightarrow> 'z job_db_scheme \<Rightarrow> py_error + 'z job_db_scheme" where
  "reconcile_jobs env db = for_each (reconcile_task env) (grouped (\<lambda>p. aj_task_id (rp_job p)) (active_rows db)) db"

section \<open>Tasks without work\<close>

definition orphan_reason :: string where
  "orphan_reason = ''active task has no executable local or remote work after reconciliation''"

text \<open>The latest event of the task, publications apart, is the failure an earlier start recorded.\<close>

definition failed_by_migration :: "task_row \<Rightarrow> 'z audit_db_scheme \<Rightarrow> audit_row \<Rightarrow> bool" where
  "failed_by_migration t db a \<longleftrightarrow>
    ae_task_id a = Some (tk_id t) \<and> ae_event_type a = ''task.failed.migration'' \<and> ae_actor_type a = ''control-plane'' \<and>
    ae_actor_id a = ''migration'' \<and> ae_trace_id a = tk_id t \<and>
    ae_payload_json a = json_dumps (JObj [(''reason'', JStr orphan_reason)]) \<and> ae_hash a \<noteq> None \<and>
    ae_created_at a = tk_updated_at t \<and> tk_completed_at t = Some (ae_created_at a) \<and>
    list_all (\<lambda>x. ae_task_id x = Some (tk_id t) \<and> ae_event_type x \<noteq> ''outbox.publication.acknowledged'' \<longrightarrow>
      ae_id x \<le> ae_id a) (audit_events db)"

definition recoverable_roots :: "'z startup_db_scheme \<Rightarrow> (string \<times> string \<times> int) list" where
  "recoverable_roots db = concat (map (\<lambda>t. concat (map (\<lambda>g. map (\<lambda>a. (tk_id t, gr_id g, ae_id a))
        (sql_select (failed_by_migration t db) (audit_events db)))
      (sql_select (\<lambda>g. gr_root_task_id g = tk_id t \<and> gr_status g \<in> set [''running'', ''waiting_permission''] \<and>
        gr_started_at g \<noteq> None \<and> gr_completed_at g = None) (goal_runs db))))
    (sort_key tk_id (sql_select (\<lambda>t. tk_status t = Task_Failed \<and> tk_error_json t = Some (error_message orphan_reason) \<and>
      \<not> list_ex (\<lambda>j. aj_task_id j = tk_id t) (agent_jobs db) \<and>
      \<not> list_ex (\<lambda>c. tc_task_id c = tk_id t) (tool_calls db)) (tasks db))))"

definition recover_root :: "reaper_env \<Rightarrow> string \<times> string \<times> int \<Rightarrow> 'z startup_db_scheme \<Rightarrow>
    py_error + 'z startup_db_scheme" where
  "recover_root env root db =
    (let (task_id, goal_id, audit_id) = root; hit = (\<lambda>t. tk_id t = task_id \<and> tk_status t = Task_Failed) in
     if sql_rowcount hit (tasks db) \<noteq> 1 then Inl (RuntimeError ''goal root changed during startup recovery'')
     else reaper_enqueue env ''task'' task_id ''tasks.status'' ''running''
       (JObj [(''task_id'', JStr task_id), (''status'', JStr ''running''), (''reason'', JStr ''active_goal_root_recovered'')])
       task_id None (''task:'' @ task_id @ '':goal-root-recovered:'' @ show_int audit_id)
       (migration_audit env ''task.goal_root.recovered''
         (JObj [(''goal_run_id'', JStr goal_id), (''migration_failure_audit_id'', JInt audit_id),
           (''previous_status'', JStr ''failed''), (''status'', JStr ''running'')]) task_id
         (db\<lparr>tasks := sql_update hit (\<lambda>t. t\<lparr>tk_status := Task_Running, tk_updated_at := re_now env,
           tk_completed_at := None, tk_error_json := None\<rparr>) (tasks db)\<rparr>)))"

definition has_work :: "'z startup_db_scheme \<Rightarrow> string \<Rightarrow> bool" where
  "has_work db task_id \<longleftrightarrow>
    list_ex (\<lambda>g. gr_root_task_id g = task_id \<and> gr_status g \<in> set [''planning'', ''running'', ''waiting_permission'']) (goal_runs db) \<or>
    list_ex (\<lambda>j. aj_task_id j = task_id \<and> job_active (aj_status j)) (agent_jobs db) \<or>
    list_ex (\<lambda>c. tc_task_id c = task_id \<and> (tc_status c = Tool_Queued \<or> tc_status c = Tool_Running)) (tool_calls db)"

definition orphaned_tasks :: "'z startup_db_scheme \<Rightarrow> task_row list" where
  "orphaned_tasks db = sort_key tk_id (sql_select (\<lambda>t. (tk_status t = Task_Queued \<or> tk_status t = Task_Running) \<and>
    \<not> has_work db (tk_id t)) (tasks db))"

definition fail_orphan :: "reaper_env \<Rightarrow> task_row \<Rightarrow> 'z startup_db_scheme \<Rightarrow> py_error + 'z startup_db_scheme" where
  "fail_orphan env t db =
    and_then (transition_task (tk_id t) (tk_status t) Task_Failed (re_now env) (Some orphan_reason) db) (\<lambda>db1.
    reaper_enqueue env ''task'' (tk_id t) ''tasks.status'' ''failed''
      (JObj [(''task_id'', JStr (tk_id t)), (''status'', JStr ''failed''), (''reason'', JStr ''orphaned_work'')])
      (tk_id t) None (''task:'' @ tk_id t @ '':migration-orphaned'')
      (migration_audit env ''task.failed.migration'' (JObj [(''reason'', JStr orphan_reason)]) (tk_id t) db1))"

definition reconcile_agent_jobs :: "reaper_env \<Rightarrow> 'z startup_db_scheme \<Rightarrow> py_error + 'z startup_db_scheme" where
  "reconcile_agent_jobs env db =
    and_then (reconcile_jobs env db) (\<lambda>db1.
    and_then (for_each (recover_root env) (recoverable_roots db1) db1) (\<lambda>db2.
    for_each (fail_orphan env) (orphaned_tasks db2) db2))"

section \<open>Capability requests\<close>

definition recomputed_fingerprint :: "(string \<Rightarrow> string) \<Rightarrow> capability_request_row \<Rightarrow> py_error + string" where
  "recomputed_fingerprint H r =
    (case json_loads (cr_arguments_json r) of
       Some (JObj arguments) \<Rightarrow> canonical_capability_request_fingerprint H (cr_requesting_job_id r)
         (cr_lease_generation r) (cr_capability_name r) arguments
     | _ \<Rightarrow> Inl (CapabilityRequestBindingError ''capability request arguments are not an object''))"

text \<open>\<open>indexed\<close>: an earlier start has created the unique index on the fingerprints of open requests.\<close>

definition set_fingerprint :: "bool \<Rightarrow> string \<Rightarrow> capability_request_row \<Rightarrow> 'z job_db_scheme \<Rightarrow>
    py_error + 'z job_db_scheme" where
  "set_fingerprint indexed fingerprint r db =
    (let t = sql_update (\<lambda>x. cr_id x = cr_id r) (\<lambda>x. x\<lparr>cr_request_fingerprint := fingerprint\<rparr>) (capability_requests db) in
     if indexed \<and> \<not> distinct (map cr_request_fingerprint (sql_select open_capability t))
     then Inl (IntegrityError ''UNIQUE constraint failed: iphone_capability_requests.request_fingerprint'')
     else Inr (db\<lparr>capability_requests := t\<rparr>))"

definition reconcile_fingerprint :: "reaper_env \<Rightarrow> bool \<Rightarrow> capability_request_row \<Rightarrow> 'z job_db_scheme \<Rightarrow>
    py_error + 'z job_db_scheme" where
  "reconcile_fingerprint env indexed r db =
    (case recomputed_fingerprint (env_sha256 (re_board env)) r of
       Inr fingerprint \<Rightarrow> set_fingerprint indexed fingerprint r db
     | Inl e \<Rightarrow>
         and_then (set_fingerprint indexed
           (''sha256:'' @ env_sha256 (re_board env) (''invalid-capability-request:'' @ cr_id r)) r db) (\<lambda>db1.
         cancel_capability_for_migration env ''capability request has invalid canonical arguments''
           ''migration-invalid-binding'' r db1))"

definition capability_rank :: "string \<Rightarrow> nat" where
  "capability_rank s = (if s = ''consumed'' then 0 else if s = ''approved'' then 1
    else if s = ''waiting_approval'' then 2 else 3)"

definition duplicate_capabilities :: "'z job_db_scheme \<Rightarrow> capability_request_row list" where
  "duplicate_capabilities db = concat (map (\<lambda>(fingerprint, rows). tl rows) (grouped cr_request_fingerprint
    (sort_key (\<lambda>r. (cr_request_fingerprint r, capability_rank (cr_status r), cr_created_at r, cr_id r))
      (sql_select open_capability (capability_requests db)))))"

definition reconcile_capability_requests :: "reaper_env \<Rightarrow> bool \<Rightarrow> 'z job_db_scheme \<Rightarrow> py_error + 'z job_db_scheme" where
  "reconcile_capability_requests env indexed db =
    and_then (for_each (reconcile_fingerprint env indexed)
      (sort_key (\<lambda>r. (cr_created_at r, cr_id r)) (capability_requests db)) db) (\<lambda>db1.
    for_each (cancel_capability_for_migration env ''duplicate nonterminal capability request reconciled'' ''migration-duplicate'')
      (duplicate_capabilities db1) db1)"

section \<open>Interrupted tool calls\<close>

datatype interrupted_stage = Stage_Running | Stage_Approved | Stage_Queued

definition stage_name :: "interrupted_stage \<Rightarrow> string" where
  "stage_name s = (case s of Stage_Running \<Rightarrow> ''running'' | Stage_Approved \<Rightarrow> ''approved_before_claim''
    | Stage_Queued \<Rightarrow> ''queued_before_claim'')"

definition stage_message :: "interrupted_stage \<Rightarrow> string" where
  "stage_message s = (case s of
      Stage_Running \<Rightarrow> ''control plane restarted during execution; outcome uncertain; not retried''
    | Stage_Approved \<Rightarrow>
        ''control plane restarted after approval but before execution claim; execution not started; not retried''
    | Stage_Queued \<Rightarrow>
        ''control plane restarted after a tool call was queued but before execution claim; execution not started; not retried'')"

definition failed_call :: "interrupted_stage \<Rightarrow> string \<Rightarrow> tool_call_row \<Rightarrow> tool_call_row" where
  "failed_call s now c = c\<lparr>tc_status := Tool_Failed, tc_error := Some (stage_message s), tc_updated_at := now\<rparr>"

definition interrupted_task :: "interrupted_stage \<Rightarrow> string \<Rightarrow> task_row \<Rightarrow> task_row" where
  "interrupted_task s now t = t\<lparr>tk_status := Task_Failed, tk_updated_at := now, tk_completed_at := Some now,
    tk_error_json := Some (error_message (stage_message s))\<rparr>"

definition running_calls :: "'z approval_db_scheme \<Rightarrow> (string \<times> string \<times> interrupted_stage) list" where
  "running_calls db = map (\<lambda>c. (tc_id c, tc_task_id c, Stage_Running))
    (sql_select (\<lambda>c. tc_status c = Tool_Running) (tool_calls db))"

definition fail_running :: "string \<Rightarrow> 'z approval_db_scheme \<Rightarrow> 'z approval_db_scheme" where
  "fail_running now db =
    (if running_calls db = [] then db
     else db\<lparr>tool_calls := sql_update (\<lambda>c. tc_status c = Tool_Running) (failed_call Stage_Running now) (tool_calls db),
       tasks := fold (\<lambda>task_id. sql_update (\<lambda>t. tk_id t = task_id \<and> tk_status t = Task_Running)
           (interrupted_task Stage_Running now))
         (remdups (map (\<lambda>(i, task_id, s). task_id) (running_calls db))) (tasks db)\<rparr>)"

definition queued_calls :: "'z approval_db_scheme \<Rightarrow> (string \<times> string \<times> interrupted_stage) list" where
  "queued_calls db = concat (map (\<lambda>c. map (\<lambda>t. (tc_id c, tc_task_id c,
        case tc_approval_id c of None \<Rightarrow> Stage_Queued
        | Some i \<Rightarrow> (case row_by ap_id i (approvals db) of None \<Rightarrow> Stage_Queued
            | Some a \<Rightarrow> if ap_status a = Approval_Approved then Stage_Approved else Stage_Queued)))
      (sql_select (\<lambda>t. tk_id t = tc_task_id c \<and> tk_status t = Task_Queued) (tasks db)))
    (sql_select (\<lambda>c. tc_status c = Tool_Queued) (tool_calls db)))"

definition fail_queued :: "string \<Rightarrow> string \<times> string \<times> interrupted_stage \<Rightarrow> 'z approval_db_scheme \<Rightarrow> 'z approval_db_scheme" where
  "fail_queued now call db =
    (let (call_id, task_id, s) = call in
     db\<lparr>tool_calls := sql_update (\<lambda>c. tc_id c = call_id \<and> tc_task_id c = task_id \<and> tc_status c = Tool_Queued)
         (failed_call s now) (tool_calls db),
       tasks := sql_update (\<lambda>t. tk_id t = task_id \<and> tk_status t = Task_Queued) (interrupted_task s now) (tasks db)\<rparr>)"

definition interruption_audit :: "reaper_env \<Rightarrow> string \<times> string \<times> interrupted_stage \<Rightarrow> 'z audit_db_scheme \<Rightarrow>
    'z audit_db_scheme" where
  "interruption_audit env call db =
    (let (call_id, task_id, s) = call;
         event_type = (if s = Stage_Running then ''execution.interrupted'' else ''execution.not_started'')
     in snd (append_audit_event (env_sha256 (re_board env)) (re_fresh env event_type) (re_clock env) event_type
       (JObj [(''tool_call_id'', JStr call_id), (''stage'', JStr (stage_name s)),
         (''outcome'', JStr (if s = Stage_Running then ''uncertain'' else ''not_started'')), (''retry'', JBool False)])
       ''system'' ''control-plane'' (Some task_id) (Some task_id) None db))"

definition fail_interrupted :: "reaper_env \<Rightarrow> reaper_env \<Rightarrow> reaper_env \<Rightarrow> 'z approval_db_scheme \<Rightarrow> 'z approval_db_scheme" where
  "fail_interrupted env1 env2 env3 db =
    (let running = running_calls db; db1 = fail_running (re_now env1) db;
         queued = queued_calls db1; db2 = fold (fail_queued (re_now env2)) queued db1
     in fold (interruption_audit env3) (running @ queued) db2)"

section \<open>The transaction\<close>

definition unique_index :: "('r \<Rightarrow> bool) \<Rightarrow> ('r \<Rightarrow> 'k) \<Rightarrow> 'r sql_table \<Rightarrow> py_error + unit" where
  "unique_index P key t = require (distinct (map key (sql_select P t))) (IntegrityError ''UNIQUE constraint failed'')"

definition create_indexes :: "'z auth_db_scheme \<Rightarrow> py_error + unit" where
  "create_indexes db =
    and_then (unique_index (\<lambda>e. mb_dedupe_key e \<noteq> None) mb_dedupe_key (message_board_events db)) (\<lambda>_.
    and_then (unique_index (\<lambda>a. True) ap_request_audit_id (approvals db)) (\<lambda>_.
    and_then (unique_index (\<lambda>d. dv_last_pairing_id d \<noteq> None) dv_last_pairing_id (devices db)) (\<lambda>_.
    and_then (unique_index (\<lambda>j. job_active (aj_status j)) aj_task_id (agent_jobs db)) (\<lambda>_.
    unique_index open_capability cr_request_fingerprint (capability_requests db)))))"

definition historical_metrics :: "string \<Rightarrow> audit_row sql_table \<Rightarrow> job_metrics_row" where
  "historical_metrics now t =
    (let count = (\<lambda>event_type. int (sql_rowcount (\<lambda>a. ae_event_type a = event_type) t)) in
     \<lparr>jm_lease_expirations = count ''agent.job.lease_expired'', jm_retries = count ''agent.job.requeued'',
      jm_dead_letter_events = count ''agent.job.dead_lettered'', jm_updated_at = Some now\<rparr>)"

text \<open>
  The version is that of the schema before the start; \<open>env\<close> has one reading of the clock for each
  step: the two installations of the counters, the passes and the failures of calls.
\<close>

definition startup_recovery :: "(nat \<Rightarrow> reaper_env) \<Rightarrow> bool \<Rightarrow> int \<Rightarrow> 'z startup_db_scheme \<Rightarrow> py_error + 'z startup_db_scheme" where
  "startup_recovery env indexed version db =
    (let seed = (job_metrics db = None);
         db0 = db\<lparr>outbox_metrics_singleton := (case outbox_metrics_singleton db of
               None \<Rightarrow> Some \<lparr>om_claim_expirations = 0, om_duplicate_publications = 0, om_latency_count = 0,
                 om_latency_total = 0, om_latency_max = 0, om_updated_at = None\<rparr>
             | m \<Rightarrow> m),
           job_metrics := (if seed then Some \<lparr>jm_lease_expirations = 0, jm_retries = 0, jm_dead_letter_events = 0,
             jm_updated_at = Some (re_now (env 0))\<rparr> else job_metrics db)\<rparr>
     in and_then (reconcile_agent_jobs (env 1) db0) (\<lambda>db1.
        and_then (reconcile_capability_requests (env 2) indexed db1) (\<lambda>db2.
        and_then (create_indexes db2) (\<lambda>_.
        let db3 = (if version < 23 then db2\<lparr>pairing_codes := [], pairing_candidates := []\<rparr> else db2) in
        and_then (reconcile_agent_jobs (env 6) (fail_interrupted (env 3) (env 4) (env 5) db3)) (\<lambda>db4.
        Inr (if seed then db4\<lparr>job_metrics := Some (historical_metrics (re_now (env 7)) (audit_events db4))\<rparr> else db4))))))"

end
