(* ===== verification/Startup_Jobs.thy ===== *)
theory Startup_Jobs
  imports Startup_Recovery IPhone_Safety
begin

text \<open>
  What the pass over jobs of the startup recovery leaves: each task is handled on its own, and afterwards
  it has at most one active job, which agrees with it.
\<close>

section \<open>Statements that leave jobs and tasks alone\<close>

text \<open>Besides what it notes in the audit log and the outbox, only capability tables may change.\<close>

definition work_frame :: "'z startup_db_scheme \<Rightarrow> 'z startup_db_scheme \<Rightarrow> bool" where
  "work_frame db db' \<longleftrightarrow> agent_jobs db' = agent_jobs db \<and> tasks db' = tasks db \<and> tool_calls db' = tool_calls db \<and>
    goal_runs db' = goal_runs db"

lemma work_frame_refl [simp]: "work_frame db db"
  by (simp add: work_frame_def)

lemma work_frame_trans [trans]: "work_frame a b \<Longrightarrow> work_frame b c \<Longrightarrow> work_frame a c"
  by (simp add: work_frame_def)

lemma migration_audit_frame: "work_frame db (migration_audit env ty p task db)"
  by (simp add: work_frame_def migration_audit_def capability_audit_def append_audit_event_def Let_def)

lemma reaper_enqueue_work:
  fixes db :: "'z startup_db_scheme"
  shows "reaper_enqueue env at ai to' ty p task agent key db = Inr db' \<Longrightarrow> work_frame db db'"
  unfolding reaper_enqueue_def by (auto simp: and_then_Inr_iff work_frame_def elim!: enqueue_shape)

lemma end_request_work: "work_frame db (end_request r f s now db)"
  by (simp add: work_frame_def end_request_def)

lemma cancel_capability_work:
  fixes db :: "'z startup_db_scheme"
  assumes "cancel_capability_for_migration env reason suffix r db = Inr db'"
  shows "work_frame db db'"
  using assms unfolding cancel_capability_for_migration_def capability_enqueue_def
  by (auto split: if_split_asm dest!: reaper_enqueue_work
      intro: work_frame_trans [OF work_frame_trans [OF end_request_work migration_audit_frame]])

lemma cancel_capabilities_work:
  fixes db :: "'z startup_db_scheme"
  shows "for_each (cancel_capability_for_migration env reason suffix) rs db = Inr db' \<Longrightarrow> work_frame db db'"
  by (erule for_each_invariant [where P = "work_frame db"]) (auto intro: work_frame_trans cancel_capability_work)

section \<open>Statements about one task\<close>

text \<open>The jobs and the row of every other task stay, and so do all keys.\<close>

definition elsewhere :: "string \<Rightarrow> 'z startup_db_scheme \<Rightarrow> 'z startup_db_scheme \<Rightarrow> bool" where
  "elsewhere k db db' \<longleftrightarrow>
    map (\<lambda>j. (aj_id j, aj_task_id j)) (agent_jobs db') = map (\<lambda>j. (aj_id j, aj_task_id j)) (agent_jobs db) \<and>
    map tk_id (tasks db') = map tk_id (tasks db) \<and>
    (\<forall>k'. k' \<noteq> k \<longrightarrow> filter (\<lambda>j. aj_task_id j = k') (agent_jobs db') = filter (\<lambda>j. aj_task_id j = k') (agent_jobs db) \<and>
      row_by tk_id k' (tasks db') = row_by tk_id k' (tasks db)) \<and>
    tool_calls db' = tool_calls db \<and> goal_runs db' = goal_runs db"

lemma elsewhere_refl [simp]: "elsewhere k db db"
  by (simp add: elsewhere_def)

lemma elsewhere_trans [trans]: "elsewhere k a b \<Longrightarrow> elsewhere k b c \<Longrightarrow> elsewhere k a c"
  by (simp add: elsewhere_def)

lemma work_elsewhere: "work_frame a b \<Longrightarrow> elsewhere k a b"
  by (simp add: elsewhere_def work_frame_def)

lemma elsewhere_keyed: "elsewhere k a b \<Longrightarrow> keyed b \<longleftrightarrow> keyed a"
proof -
  assume e: "elsewhere k a b"
  then have "map fst (map (\<lambda>j. (aj_id j, aj_task_id j)) (agent_jobs b)) = map fst (map (\<lambda>j. (aj_id j, aj_task_id j)) (agent_jobs a))"
    by (simp only: elsewhere_def)
  then show ?thesis using e by (simp add: elsewhere_def keyed_def comp_def)
qed

lemma elsewhere_job:
  assumes "elsewhere k a b" and "j \<in> set (agent_jobs b)"
  obtains i where "i \<in> set (agent_jobs a)" "aj_id i = aj_id j" "aj_task_id i = aj_task_id j"
proof -
  have "(aj_id j, aj_task_id j) \<in> set (map (\<lambda>j. (aj_id j, aj_task_id j)) (agent_jobs b))" using assms(2) by auto
  then have "(aj_id j, aj_task_id j) \<in> set (map (\<lambda>j. (aj_id j, aj_task_id j)) (agent_jobs a))"
    using assms(1) unfolding elsewhere_def by (simp only:)
  then show ?thesis using that by auto
qed

text \<open>The jobs change by a function that concerns the task alone, its row by an update.\<close>

lemma filter_map_elsewhere:
  assumes "\<And>j. j \<in> set t \<Longrightarrow> aj_task_id (h j) = aj_task_id j" and "\<And>j. j \<in> set t \<Longrightarrow> aj_task_id j \<noteq> k \<Longrightarrow> h j = j"
    and "k' \<noteq> k"
  shows "filter (\<lambda>j. aj_task_id j = k') (map h t) = filter (\<lambda>j. aj_task_id j = k') t"
  using assms by (induction t) auto

lemma update_jobs_elsewhere:
  fixes db :: "'z startup_db_scheme"
  assumes "\<And>j. j \<in> set (agent_jobs db) \<Longrightarrow> P j \<Longrightarrow> aj_task_id j = k"
    and "\<And>j. aj_id (f j) = aj_id j \<and> aj_task_id (f j) = aj_task_id j"
  shows "elsewhere k db (db\<lparr>agent_jobs := sql_update P f (agent_jobs db)\<rparr>)"
proof -
  have "filter (\<lambda>j. aj_task_id j = k') (sql_update P f (agent_jobs db)) = filter (\<lambda>j. aj_task_id j = k') (agent_jobs db)"
    if "k' \<noteq> k" for k'
    unfolding sql_update_def by (rule filter_map_elsewhere [OF _ _ that]) (use assms in auto)
  then show ?thesis using assms(2) by (auto simp: elsewhere_def map_sql_update)
qed

lemma update_task_elsewhere:
  fixes db :: "'z startup_db_scheme"
  assumes "\<And>t. P t \<Longrightarrow> tk_id t = k" and "\<And>t. tk_id (f t) = tk_id t"
  shows "elsewhere k db (db\<lparr>tasks := sql_update P f (tasks db)\<rparr>)"
proof -
  have "row_by tk_id k' (sql_update P f (tasks db)) = row_by tk_id k' (tasks db)" if "k' \<noteq> k" for k'
    using assms that by (subst row_by_sql_update) (auto simp: option.map_ident_strong dest!: row_by_SomeD intro!: option.map_ident_strong)
  then show ?thesis using assms(2) by (auto simp: elsewhere_def map_sql_update)
qed

section \<open>Agreement of a task with its jobs\<close>

definition active_of :: "string \<Rightarrow> 'z job_db_scheme \<Rightarrow> job_row list" where
  "active_of k db = filter (\<lambda>j. job_active (aj_status j)) (filter (\<lambda>j. aj_task_id j = k) (agent_jobs db))"

text \<open>A queued job of a queued task, or a lease of the present form for a running task.\<close>

definition job_agrees :: "job_row \<Rightarrow> task_status \<Rightarrow> bool" where
  "job_agrees j s \<longleftrightarrow> aj_status j = Job_Queued \<and> s = Task_Queued \<or>
    job_leased (aj_status j) \<and> \<not> legacy_lease j \<and> s = Task_Running"

definition task_agrees :: "'z job_db_scheme \<Rightarrow> string \<Rightarrow> bool" where
  "task_agrees db k \<longleftrightarrow> active_of k db = [] \<or>
    (\<exists>j t. active_of k db = [j] \<and> row_by tk_id k (tasks db) = Some t \<and> job_agrees j (tk_status t))"

lemma elsewhere_agrees:
  assumes "elsewhere k db db'" and "k' \<noteq> k"
  shows "task_agrees db' k' \<longleftrightarrow> task_agrees db k'" "active_of k' db' = active_of k' db"
    "row_by tk_id k' (tasks db') = row_by tk_id k' (tasks db)"
  using assms by (simp_all add: elsewhere_def task_agrees_def active_of_def)

lemma work_agrees: "work_frame db db' \<Longrightarrow> task_agrees db' k \<longleftrightarrow> task_agrees db k"
  by (simp add: work_frame_def task_agrees_def active_of_def)

lemma in_active_of: "j \<in> set (active_of k db) \<longleftrightarrow> j \<in> set (agent_jobs db) \<and> aj_task_id j = k \<and> job_active (aj_status j)"
  by (auto simp: active_of_def)

lemma active_of_update:
  assumes "\<And>j. aj_task_id (f j) = aj_task_id j"
  shows "active_of k (db\<lparr>agent_jobs := sql_update P f (agent_jobs db)\<rparr>) =
    filter (\<lambda>j. job_active (aj_status j)) (sql_update P f (filter (\<lambda>j. aj_task_id j = k) (agent_jobs db)))"
  using assms by (simp add: active_of_def sql_update_def filter_map comp_def if_distrib cong: if_cong)

text \<open>To cancel is to take the job out of the active ones.\<close>

lemma fenced_fields [simp]: "aj_id (fenced_job now reason j) = aj_id j" "aj_task_id (fenced_job now reason j) = aj_task_id j"
  "aj_status (fenced_job now reason j) = Job_Cancelled"
  by (simp_all add: fenced_job_def)

lemma active_update_out:
  assumes "\<And>j. \<not> job_active (aj_status (f j))"
  shows "filter (\<lambda>j. job_active (aj_status j)) (sql_update (\<lambda>j. Q j \<and> job_active (aj_status j)) f t) =
    filter (\<lambda>j. job_active (aj_status j) \<and> \<not> Q j) t"
  using assms by (induction t) (auto simp: sql_update_def)

lemma cancel_job_shape:
  fixes db :: "'z startup_db_scheme"
  assumes "cancel_job_for_migration env reason suffix job db = Inr db'" and "keyed db"
    and "\<And>j. j \<in> set (agent_jobs db) \<Longrightarrow> aj_id j = aj_id job \<Longrightarrow> aj_task_id j = k"
  shows "elsewhere k db db'" "tasks db' = tasks db"
    "active_of k db' = filter (\<lambda>j. aj_id j \<noteq> aj_id job) (active_of k db)"
proof -
  let ?hit = "\<lambda>j. aj_id j = aj_id job \<and> job_active (aj_status j)"
  let ?upd = "\<lambda>db :: 'z startup_db_scheme. db\<lparr>agent_jobs := sql_update ?hit (fenced_job (re_now env) reason) (agent_jobs db)\<rparr>"
  obtain db1 where c: "for_each (cancel_capability_for_migration env reason (suffix @ ''-job''))
      (sql_select (\<lambda>r. cr_requesting_job_id r = aj_id job \<and> open_capability r) (capability_requests db)) db = Inr db1"
    and r: "(if sql_rowcount ?hit (agent_jobs db1) \<noteq> 1 then Inr db1
    else reaper_enqueue env ''agent_job'' (aj_id job) ''tasks.status'' ''cancelled''
      (JObj [(''job_id'', JStr (aj_id job)), (''reason'', JStr ''migration_fence'')]) (aj_task_id job) None
      (''agent-job:'' @ aj_id job @ '':'' @ suffix)
      (migration_audit env ''agent.job.cancelled.migration''
        (JObj [(''job_id'', JStr (aj_id job)), (''reason'', JStr reason)]) (aj_task_id job) (?upd db1))) = Inr db'"
    using assms(1) unfolding cancel_job_for_migration_def Let_def by auto
  note w = cancel_capabilities_work [OF c, unfolded work_frame_def]
  have none: "?upd db1 = db1" if "sql_rowcount ?hit (agent_jobs db1) \<noteq> 1"
  proof -
    have "sql_rowcount ?hit (agent_jobs db1) \<le> 1"
      by (rule sql_rowcount_le_1 [of aj_id _ _ "aj_id job"]) (use assms(2) w in \<open>simp_all add: keyed_def\<close>)
    then show ?thesis using that by (simp add: sql_update_none)
  qed
  have wf: "work_frame (?upd db1) db'"
  proof (cases "sql_rowcount ?hit (agent_jobs db1) = 1")
    case True
    then show ?thesis using r by (auto intro: work_frame_trans [OF migration_audit_frame reaper_enqueue_work])
  qed (use r none in simp)
  have e: "elsewhere k db1 (?upd db1)"
    by (rule update_jobs_elsewhere) (use assms(3) w in auto)
  have "elsewhere k db db1" using cancel_capabilities_work [OF c] by (rule work_elsewhere)
  also note e
  also have "elsewhere k (?upd db1) db'" using wf by (rule work_elsewhere)
  finally show "elsewhere k db db'" .
  show "tasks db' = tasks db" using wf w by (simp add: work_frame_def)
  have "active_of k db' = active_of k (?upd db1)" using wf by (simp add: work_frame_def active_of_def)
  also have "\<dots> = filter (\<lambda>j. aj_id j \<noteq> aj_id job) (active_of k db1)"
    unfolding active_of_update [OF fenced_fields(2)]
    by (subst active_update_out) (simp_all add: job_active_def active_of_def conj_ac)
  finally show "active_of k db' = filter (\<lambda>j. aj_id j \<noteq> aj_id job) (active_of k db)"
    using w by (simp add: active_of_def)
qed

lemma cancel_jobs_shape:
  fixes db :: "'z startup_db_scheme"
  assumes "for_each (cancel_job_for_migration env reason suffix) js db = Inr db'" and "keyed db"
    and "\<And>job j. job \<in> set js \<Longrightarrow> j \<in> set (agent_jobs db) \<Longrightarrow> aj_id j = aj_id job \<Longrightarrow> aj_task_id j = k"
  shows "elsewhere k db db' \<and> tasks db' = tasks db \<and>
    active_of k db' = filter (\<lambda>j. aj_id j \<notin> aj_id ` set js) (active_of k db)"
  using assms
proof (induction js arbitrary: db)
  case (Cons job js)
  obtain db1 where c: "cancel_job_for_migration env reason suffix job db = Inr db1"
    and r: "for_each (cancel_job_for_migration env reason suffix) js db1 = Inr db'"
    using Cons.prems(1) by auto
  note s = cancel_job_shape [OF c Cons.prems(2), of k, OF Cons.prems(3) [OF list.set_intros(1)]]
  have k: "keyed db1" using elsewhere_keyed [OF s(1)] Cons.prems(2) by simp
  have t: "aj_task_id j = k" if "j1 \<in> set js" "j \<in> set (agent_jobs db1)" "aj_id j = aj_id j1" for j1 j
    by (rule elsewhere_job [OF s(1) that(2)]) (use Cons.prems(3) [of j1] that in auto)
  have "elsewhere k db1 db' \<and> tasks db' = tasks db1 \<and>
    active_of k db' = filter (\<lambda>j. aj_id j \<notin> aj_id ` set js) (active_of k db1)"
    by (rule Cons.IH [OF r k t])
  then show ?case using s elsewhere_trans by (auto intro: filter_cong)
qed simp

section \<open>The job that stays\<close>

text \<open>The only active job of a task, whose status is as read.\<close>

definition sole :: "string \<Rightarrow> job_row \<Rightarrow> task_status \<Rightarrow> 'z job_db_scheme \<Rightarrow> bool" where
  "sole k job s db \<longleftrightarrow> keyed db \<and> active_of k db = [job] \<and> (\<exists>t. row_by tk_id k (tasks db) = Some t \<and> tk_status t = s)"

lemma soleD:
  assumes "sole k job s db"
  shows "keyed db" "job \<in> set (agent_jobs db)" "aj_task_id job = k" "job_active (aj_status job)" "active_of k db = [job]"
    "\<And>j. j \<in> set (agent_jobs db) \<Longrightarrow> aj_id j = aj_id job \<Longrightarrow> j = job"
proof -
  show k: "keyed db" and a: "active_of k db = [job]" using assms by (simp_all add: sole_def)
  have "job \<in> set (active_of k db)" unfolding a by simp
  then show j: "job \<in> set (agent_jobs db)" "aj_task_id job = k" "job_active (aj_status job)" by (simp_all add: in_active_of)
  show "j = job" if "j \<in> set (agent_jobs db)" "aj_id j = aj_id job" for j
    using that j(1) k distinct_key_eq [of aj_id "agent_jobs db" j job] by (simp add: keyed_def)
qed

lemma cancel_sole:
  fixes db :: "'z startup_db_scheme"
  assumes "cancel_job_for_migration env reason suffix job db = Inr db'" and "sole k job s db"
  shows "elsewhere k db db' \<and> task_agrees db' k"
proof -
  note j = soleD [OF assms(2)]
  have own: "aj_task_id i = k" if "i \<in> set (agent_jobs db)" "aj_id i = aj_id job" for i
    using j(6) [OF that] j(3) by simp
  show ?thesis
    using cancel_job_shape [OF assms(1) j(1) own] j(5) by (simp add: task_agrees_def)
qed

lemma clear_token_id:
  assumes "\<And>j. j \<in> set t \<Longrightarrow> P j \<Longrightarrow> aj_claim_token j = None"
  shows "sql_update P (\<lambda>j. j\<lparr>aj_claim_token := None\<rparr>) t = t"
proof -
  have "(if P j then j\<lparr>aj_claim_token := None\<rparr> else j) = j" if "j \<in> set t" for j
    using assms [OF that] by (cases "P j"; cases j) simp_all
  then show ?thesis unfolding sql_update_def by (rule map_idI)
qed

lemma filter_update_in:
  assumes "\<And>j. Q j \<Longrightarrow> R j \<and> R (f j)"
  shows "filter R (sql_update Q f t) = sql_update Q f (filter R t)"
  using assms by (induction t) (auto simp: sql_update_def)

lemma filter_update_out:
  assumes "\<And>j. Q j \<Longrightarrow> R j \<and> \<not> R (f j)"
  shows "filter R (sql_update Q f t) = filter (\<lambda>j. \<not> Q j) (filter R t)"
  using assms by (induction t) (auto simp: sql_update_def)

lemma invalidated_fields [simp]: "aj_id (invalidated_job c now reason j) = aj_id j"
  "aj_task_id (invalidated_job c now reason j) = aj_task_id j"
  "aj_status (invalidated_job c now reason j) = (if c then Job_Queued else Job_Failed)"
  by (simp_all add: invalidated_job_def)

lemma recovered_tasks_elsewhere:
  fixes db :: "'z startup_db_scheme"
  shows "elsewhere k db (db\<lparr>tasks := recovered_tasks c l now k s (tasks db)\<rparr>)"
proof -
  have same: "db\<lparr>tasks := tasks db\<rparr> = db" by simp
  show ?thesis unfolding recovered_tasks_def
    by (simp only: if_distrib [of "\<lambda>t. db\<lparr>tasks := t\<rparr>"] if_distrib [of "elsewhere k db"] same elsewhere_refl)
      (auto intro!: update_task_elsewhere)
qed

lemma recovered_tasks_requeued:
  assumes "row_by tk_id k t = Some r" and "recoverable_task (tk_status r)"
  shows "\<exists>r'. row_by tk_id k (recovered_tasks True l now k (tk_status r) t) = Some r' \<and> tk_status r' = Task_Queued"
  using assms row_by_SomeD [OF assms(1)]
  by (auto simp: recovered_tasks_def recoverable_task_def row_by_sql_update)

lemma recover_legacy_shape:
  fixes db :: "'z startup_db_scheme"
  assumes "recover_legacy_lease env k s job db = Inr db'" and "sole k job s db" and "aj_status job \<noteq> Job_Queued"
    and "recoverable_task s"
  shows "elsewhere k db db' \<and> task_agrees db' k"
proof -
  note j = soleD [OF assms(2)]
  obtain t where t: "row_by tk_id k (tasks db) = Some t" "tk_status t = s" using assms(2) by (auto simp: sole_def)
  define l where "l = local_execution k db"
  define c where "c \<longleftrightarrow> aj_required_skill job \<in> set safe_retry_skills \<and> \<not> l"
  let ?hit = "\<lambda>j. aj_id j = aj_id job \<and> job_leased (aj_status j)"
  let ?f = "invalidated_job c (re_now env) ''legacy plaintext claim invalidated during v0.9 migration''"
  obtain db1 ty p q to' key where cap: "for_each (cancel_capability_for_migration env
        ''legacy plaintext claim invalidated during v0.9 migration'' ''migration-legacy-lease'')
      (sql_select (\<lambda>r. cr_requesting_job_id r = aj_id job \<and> cr_lease_generation r = aj_lease_generation job \<and>
        open_capability r) (capability_requests db)) db = Inr db1"
    and e: "reaper_enqueue env ''agent_job'' (aj_id job) to' (if c then ''published'' else ''failed'') p k None key
      (migration_audit env ty q k (db1\<lparr>agent_jobs := sql_update ?hit ?f (agent_jobs db1),
        tasks := recovered_tasks c l (re_now env) k s (tasks db1)\<rparr>)) = Inr db'"
    using assms(1) unfolding recover_legacy_lease_def Let_def l_def [symmetric] c_def [symmetric]
    by (elim and_then_InrE) (rule that)
  let ?db2 = "db1\<lparr>agent_jobs := sql_update ?hit ?f (agent_jobs db1)\<rparr>"
  let ?db3 = "?db2\<lparr>tasks := recovered_tasks c l (re_now env) k s (tasks ?db2)\<rparr>"
  note w1 = cancel_capabilities_work [OF cap]
  note same = w1 [unfolded work_frame_def]
  have w3: "work_frame ?db3 db'"
    using e by (auto intro: work_frame_trans [OF migration_audit_frame reaper_enqueue_work])
  have own: "aj_task_id i = k" if "i \<in> set (agent_jobs db1)" "?hit i" for i
    using j(3) j(6) [of i] that same by simp
  have "elsewhere k db db1" using w1 by (rule work_elsewhere)
  also have "elsewhere k db1 ?db2" by (rule update_jobs_elsewhere) (use own in auto)
  also have "elsewhere k ?db2 ?db3" by (rule recovered_tasks_elsewhere)
  also have "elsewhere k ?db3 db'" using w3 by (rule work_elsewhere)
  finally have elsewhere: "elsewhere k db db'" .
  have leased: "?hit job" using j(4) assms(3) by (auto simp: job_active_def job_leased_def)
  have act: "active_of k db1 = [job]" using j(5) same by (simp add: active_of_def)
  let ?L = "filter (\<lambda>j. job_active (aj_status j)) (sql_update ?hit ?f (filter (\<lambda>j. aj_task_id j = k) (agent_jobs db1)))"
  have "active_of k db' = ?L"
    using w3 active_of_update [where f = ?f and k = k and db = db1 and P = ?hit] by (simp add: work_frame_def active_of_def)
  also have "\<dots> = (if c then [?f job] else [])"
  proof (cases c)
    case True
    have "?L = sql_update ?hit ?f (active_of k db1)"
      unfolding active_of_def by (rule filter_update_in) (simp add: True job_active_def job_leased_def)
    then show ?thesis unfolding act using leased True by (simp add: table_simps del: filter.simps)
  next
    case False
    have "?L = filter (\<lambda>j. \<not> ?hit j) (active_of k db1)"
      unfolding active_of_def by (rule filter_update_out) (simp add: False job_active_def job_leased_def)
    then show ?thesis unfolding act using leased False by simp
  qed
  finally have active: "active_of k db' = (if c then [?f job] else [])" .
  have "task_agrees db' k"
  proof (cases c)
    case True
    obtain t' where t': "row_by tk_id k (recovered_tasks True l (re_now env) k (tk_status t) (tasks db)) = Some t'"
      "tk_status t' = Task_Queued"
      using recovered_tasks_requeued [OF t(1), of l "re_now env"] assms(4) t(2) by auto
    have "tasks db' = recovered_tasks True l (re_now env) k (tk_status t) (tasks db)"
      using w3 same True t(2) by (simp add: work_frame_def)
    then show ?thesis using active t' True by (auto simp: task_agrees_def job_agrees_def)
  qed (use active in \<open>simp add: task_agrees_def\<close>)
  then show ?thesis using elsewhere by simp
qed

lemma reconcile_survivor_shape:
  fixes db :: "'z startup_db_scheme"
  assumes "reconcile_survivor env k s job db = Inr db'" and "sole k job s db"
  shows "elsewhere k db db' \<and> task_agrees db' k"
proof (cases "aj_status job = Job_Queued")
  case True
  obtain t where t: "row_by tk_id k (tasks db) = Some t" "tk_status t = s" using assms(2) by (auto simp: sole_def)
  consider "s = Task_Created \<or> s = Task_Planned" | "s = Task_Queued" | "s \<notin> {Task_Created, Task_Planned, Task_Queued}" by blast
  then show ?thesis
  proof cases
    case 1
    then have db': "db' = db\<lparr>tasks := sql_update (\<lambda>t. tk_id t = k \<and> tk_status t = s)
         (\<lambda>t. t\<lparr>tk_status := Task_Queued, tk_updated_at := re_now env\<rparr>) (tasks db)\<rparr>"
      using assms(1) True by (auto simp: reconcile_survivor_def)
    have "elsewhere k db db'" unfolding db' by (rule update_task_elsewhere) simp_all
    moreover have "task_agrees db' k"
      using soleD(5) [OF assms(2)] t True row_by_SomeD [OF t(1)]
      by (auto simp: task_agrees_def active_of_def db' row_by_sql_update job_agrees_def)
    ultimately show ?thesis ..
  next
    case 2
    then show ?thesis
      using assms(1) soleD(5) [OF assms(2)] t True by (simp add: reconcile_survivor_def task_agrees_def job_agrees_def)
  next
    case 3
    then show ?thesis
      using assms(1) True by (auto simp: reconcile_survivor_def dest!: cancel_sole [OF _ assms(2)])
  qed
next
  case leased: False
  then have l: "job_leased (aj_status job)" using soleD(4) [OF assms(2)] by (auto simp: job_active_def job_leased_def)
  show ?thesis
  proof (cases "legacy_lease job")
    case True
    then show ?thesis
      using assms(1) leased
      by (auto simp: reconcile_survivor_def dest!: cancel_sole [OF _ assms(2)] recover_legacy_shape [OF _ assms(2) leased]
          split: if_split_asm)
  next
    case False
    have "sql_update (\<lambda>j. aj_id j = aj_id job) (\<lambda>j. j\<lparr>aj_claim_token := None\<rparr>) (agent_jobs db) = agent_jobs db"
      by (rule clear_token_id) (use soleD(6) [OF assms(2)] False in \<open>auto simp: legacy_lease_def\<close>)
    then have same: "db\<lparr>agent_jobs := sql_update (\<lambda>j. aj_id j = aj_id job) (\<lambda>j. j\<lparr>aj_claim_token := None\<rparr>) (agent_jobs db)\<rparr> = db"
      by simp
    show ?thesis
    proof (cases "s = Task_Running")
      case True
      then have "db' = db" using assms(1) leased False by (simp add: reconcile_survivor_def same)
      then show ?thesis using assms(2) True l False by (auto simp: sole_def task_agrees_def job_agrees_def)
    next
      case other: False
      then show ?thesis using assms(1) leased False
        by (auto simp: reconcile_survivor_def same Let_def dest!: cancel_sole [OF _ assms(2)])
    qed
  qed
qed

section \<open>One group\<close>

text \<open>What the pass has read of a task still holds.\<close>

definition reads :: "string \<Rightarrow> reaped_row list \<Rightarrow> 'z job_db_scheme \<Rightarrow> bool" where
  "reads k rows db \<longleftrightarrow> rows \<noteq> [] \<and> rp_job ` set rows = set (active_of k db) \<and>
    (\<exists>t. row_by tk_id k (tasks db) = Some t \<and> (\<forall>p \<in> set rows. rp_task_status p = tk_status t))"

lemma survivor_of_mem: "jobs \<noteq> [] \<Longrightarrow> survivor_of s jobs = Some j \<Longrightarrow> j \<in> set jobs"
  by (auto simp: survivor_of_def find_Some_iff split: if_split_asm option.split_asm)

lemma filter_key_single:
  assumes "distinct (map key t)" and "x \<in> set t"
  shows "filter (\<lambda>y. key y = key x) t = [x]"
  using assms
proof (induction t)
  case (Cons y t)
  show ?case
  proof (cases "y = x")
    case True
    then have "filter (\<lambda>z. key z = key x) t = []" using Cons.prems(1)
      unfolding filter_empty_conv by (metis distinct.simps(2) image_eqI list.simps(9) list.set_map)
    then show ?thesis using True by simp
  next
    case False
    then have "key y \<noteq> key x" using Cons.prems by force
    then show ?thesis using Cons False by simp
  qed
qed simp

lemma active_of_keys: "keyed db \<Longrightarrow> distinct (map aj_id (active_of k db))"
  by (simp add: active_of_def keyed_def distinct_map_filter)

lemma reconcile_task_shape:
  fixes db :: "'z startup_db_scheme"
  assumes "reconcile_task env (k, rows) db = Inr db'" and "keyed db" and "reads k rows db"
  shows "elsewhere k db db' \<and> task_agrees db' k"
proof -
  define s where "s = rp_task_status (hd rows)"
  define jobs where "jobs = map rp_job rows"
  have jobs: "jobs \<noteq> []" "set jobs = set (active_of k db)" using assms(3) by (auto simp: reads_def jobs_def)
  have st: "\<exists>t. row_by tk_id k (tasks db) = Some t \<and> tk_status t = s"
    using assms(3) by (auto simp: reads_def s_def)
  define out where "out = (case survivor_of s jobs of None \<Rightarrow> jobs | Some x \<Rightarrow> filter (\<lambda>j. aj_id j \<noteq> aj_id x) jobs)"
  obtain db1 where c: "for_each (cancel_job_for_migration env ''duplicate active job fenced during v0.9 migration''
      ''migration-fence'') out db = Inr db1"
    and r: "(case survivor_of s jobs of None \<Rightarrow> Inr db1 | Some job \<Rightarrow> reconcile_survivor env k s job db1) = Inr db'"
    using assms(1) unfolding reconcile_task_def Let_def prod.case s_def [symmetric] jobs_def [symmetric] out_def [symmetric]
    by (elim and_then_InrE) (rule that)
  have sub: "set out \<subseteq> set (active_of k db)" unfolding out_def jobs(2) [symmetric] by (auto split: option.split)
  have own: "aj_task_id j = k" if "job \<in> set out" "j \<in> set (agent_jobs db)" "aj_id j = aj_id job" for job j
  proof -
    have "job \<in> set (agent_jobs db)" "aj_task_id job = k" using that(1) sub by (auto simp: in_active_of)
    then show ?thesis using that(2,3) assms(2) distinct_key_eq [of aj_id "agent_jobs db" j job] by (simp add: keyed_def)
  qed
  have e: "elsewhere k db db1 \<and> tasks db1 = tasks db \<and>
    active_of k db1 = filter (\<lambda>j. aj_id j \<notin> aj_id ` set out) (active_of k db)"
    by (rule cancel_jobs_shape [OF c assms(2)]) (rule own)
  have k1: "keyed db1" using e elsewhere_keyed assms(2) by blast
  show ?thesis
  proof (cases "survivor_of s jobs")
    case None
    then have "active_of k db' = []" using e r jobs(2) by (auto simp: out_def filter_empty_conv)
    then show ?thesis using e r None by (simp add: task_agrees_def)
  next
    case (Some job)
    have job: "job \<in> set (active_of k db)" using survivor_of_mem [OF jobs(1) Some] jobs(2) by simp
    have "active_of k db1 = filter (\<lambda>j. aj_id j \<notin> aj_id ` set out) (active_of k db)" using e by simp
    also have "\<dots> = filter (\<lambda>j. aj_id j = aj_id job) (active_of k db)"
      using jobs(2) by (intro filter_cong) (auto simp: out_def Some)
    also have "\<dots> = [job]" by (rule filter_key_single [OF active_of_keys [OF assms(2)] job])
    finally have "sole k job s db1" using st e k1 by (simp add: sole_def)
    then have "elsewhere k db1 db' \<and> task_agrees db' k"
      using r Some by (simp add: reconcile_survivor_shape)
    then show ?thesis using e elsewhere_trans by blast
  qed
qed

section \<open>The pass over all jobs\<close>

text \<open>What every step of the recovery keeps of the keys.\<close>

definition same_keys :: "'z startup_db_scheme \<Rightarrow> 'z startup_db_scheme \<Rightarrow> bool" where
  "same_keys db db' \<longleftrightarrow>
    map (\<lambda>j. (aj_id j, aj_task_id j)) (agent_jobs db') = map (\<lambda>j. (aj_id j, aj_task_id j)) (agent_jobs db) \<and>
    map tk_id (tasks db') = map tk_id (tasks db) \<and> goal_runs db' = goal_runs db"

lemma same_keys_refl [simp]: "same_keys db db"
  by (simp add: same_keys_def)

lemma same_keys_trans [trans]: "same_keys a b \<Longrightarrow> same_keys b c \<Longrightarrow> same_keys a c"
  by (simp add: same_keys_def)

lemma elsewhere_same_keys: "elsewhere k a b \<Longrightarrow> same_keys a b"
  by (simp add: elsewhere_def same_keys_def)

lemma work_same_keys: "work_frame a b \<Longrightarrow> same_keys a b"
  by (simp add: work_frame_def same_keys_def)

definition jobs_have_tasks :: "'z job_db_scheme \<Rightarrow> bool" where
  "jobs_have_tasks db \<longleftrightarrow> aj_task_id ` set (agent_jobs db) \<subseteq> tk_id ` set (tasks db)"

lemma same_keysD:
  assumes "same_keys a b"
  shows "keyed b \<longleftrightarrow> keyed a" "jobs_have_tasks b \<longleftrightarrow> jobs_have_tasks a"
proof -
  have m: "map (\<lambda>j. (aj_id j, aj_task_id j)) (agent_jobs b) = map (\<lambda>j. (aj_id j, aj_task_id j)) (agent_jobs a)"
    "map tk_id (tasks b) = map tk_id (tasks a)" using assms by (simp_all add: same_keys_def)
  have i: "map aj_id (agent_jobs b) = map aj_id (agent_jobs a)" and t: "map aj_task_id (agent_jobs b) = map aj_task_id (agent_jobs a)"
    using arg_cong [OF m(1), of "map fst"] arg_cong [OF m(1), of "map snd"] by (simp_all add: comp_def)
  show "keyed b \<longleftrightarrow> keyed a" by (simp add: keyed_def i m(2))
  show "jobs_have_tasks b \<longleftrightarrow> jobs_have_tasks a"
    unfolding jobs_have_tasks_def set_map [symmetric] t m(2) ..
qed

lemma reads_elsewhere:
  "elsewhere k db db' \<Longrightarrow> k' \<noteq> k \<Longrightarrow> reads k' rows db' \<longleftrightarrow> reads k' rows db"
  by (simp add: reads_def elsewhere_agrees)

lemma reconcile_groups:
  fixes db :: "'z startup_db_scheme"
  assumes "for_each (reconcile_task env) gs db = Inr db'" and "keyed db" and "distinct (map fst gs)"
    and "\<forall>(k, rows) \<in> set gs. reads k rows db"
  shows "same_keys db db' \<and> tool_calls db' = tool_calls db \<and> (\<forall>k \<in> fst ` set gs. task_agrees db' k) \<and>
    (\<forall>k. k \<notin> fst ` set gs \<longrightarrow> active_of k db' = active_of k db \<and> row_by tk_id k (tasks db') = row_by tk_id k (tasks db))"
  using assms
proof (induction gs arbitrary: db)
  case (Cons g gs)
  obtain k rows where g: "g = (k, rows)" by (cases g)
  obtain db1 where c: "reconcile_task env (k, rows) db = Inr db1" and r: "for_each (reconcile_task env) gs db1 = Inr db'"
    using Cons.prems(1) g by auto
  have e: "elsewhere k db db1" "task_agrees db1 k"
    using reconcile_task_shape [OF c Cons.prems(2)] Cons.prems(4) g by auto
  have fresh: "k \<notin> fst ` set gs" using Cons.prems(3) g by simp
  have "\<forall>(k', rows') \<in> set gs. reads k' rows' db1"
  proof (intro ballI, clarify)
    fix k' rows'
    assume "(k', rows') \<in> set gs"
    then have "reads k' rows' db" "k' \<noteq> k" using Cons.prems(4) fresh by (auto simp: image_iff)
    then show "reads k' rows' db1" using reads_elsewhere [OF e(1)] by simp
  qed
  moreover have "keyed db1" using same_keysD(1) [OF elsewhere_same_keys [OF e(1)]] Cons.prems(2) by simp
  moreover have "distinct (map fst gs)" using Cons.prems(3) by simp
  ultimately have ih: "same_keys db1 db' \<and> tool_calls db' = tool_calls db1 \<and> (\<forall>k \<in> fst ` set gs. task_agrees db' k) \<and>
    (\<forall>k. k \<notin> fst ` set gs \<longrightarrow> active_of k db' = active_of k db1 \<and> row_by tk_id k (tasks db') = row_by tk_id k (tasks db1))"
    using Cons.IH r by blast
  have "task_agrees db' k" using ih fresh e(2) by (simp add: task_agrees_def)
  moreover have "active_of k' db1 = active_of k' db" "row_by tk_id k' (tasks db1) = row_by tk_id k' (tasks db)" if "k' \<noteq> k" for k'
    using elsewhere_agrees(2,3) [OF e(1) that] .
  moreover have "same_keys db db'" using ih elsewhere_same_keys [OF e(1)] same_keys_trans by blast
  moreover have "tool_calls db' = tool_calls db" using ih e(1) by (simp add: elsewhere_def)
  ultimately show ?case using ih g by auto
qed simp

lemma grouped_keys: "distinct (map fst (grouped key rows))" "fst ` set (grouped key rows) = key ` set rows"
  by (simp_all add: grouped_def comp_def image_image)

lemma mem_grouped: "(k, rs) \<in> set (grouped key rows) \<longleftrightarrow> k \<in> key ` set rows \<and> rs = filter (\<lambda>r. key r = k) rows"
  by (auto simp: grouped_def)

lemma mem_active_rows: "p \<in> set (active_rows db) \<longleftrightarrow> rp_job p \<in> set (agent_jobs db) \<and> job_active (aj_status (rp_job p)) \<and>
    (\<exists>t \<in> set (tasks db). tk_id t = aj_task_id (rp_job p) \<and> rp_task_status p = tk_status t)"
  by (cases p) (auto simp: active_rows_def)

lemma active_rows_reads:
  assumes "keyed db" and "(k, rows) \<in> set (grouped (\<lambda>p. aj_task_id (rp_job p)) (active_rows db))"
  shows "reads k rows db"
proof -
  have rows: "rows = filter (\<lambda>p. aj_task_id (rp_job p) = k) (active_rows db)"
    and k: "k \<in> (\<lambda>p. aj_task_id (rp_job p)) ` set (active_rows db)" using assms(2) by (simp_all add: mem_grouped)
  obtain p where p: "p \<in> set (active_rows db)" "aj_task_id (rp_job p) = k" using k by blast
  obtain t where t: "t \<in> set (tasks db)" "tk_id t = k" using p by (auto simp: mem_active_rows)
  have row: "row_by tk_id k (tasks db) = Some t" using row_by_unique [of tk_id "tasks db" t] t assms(1) by (simp add: keyed_def)
  have st: "rp_task_status q = tk_status t" if q: "q \<in> set rows" for q
  proof -
    obtain u where "u \<in> set (tasks db)" "tk_id u = k" "rp_task_status q = tk_status u"
      using q by (auto simp: rows mem_active_rows)
    then show ?thesis using distinct_key_eq [of tk_id "tasks db" u t] assms(1) t by (simp add: keyed_def)
  qed
  have "j \<in> rp_job ` set rows" if "j \<in> set (active_of k db)" for j
    using that t unfolding rows by (intro image_eqI [of _ _ "\<lparr>rp_job = j, rp_task_status = tk_status t\<rparr>"])
      (auto simp: in_active_of mem_active_rows)
  moreover have "rp_job q \<in> set (active_of k db)" if "q \<in> set rows" for q
    using that by (auto simp: rows mem_active_rows in_active_of)
  moreover have "rows \<noteq> []" using p by (auto simp: rows filter_empty_conv)
  ultimately show ?thesis using row st by (auto simp: reads_def)
qed

lemma reconcile_jobs_agree:
  fixes db :: "'z startup_db_scheme"
  assumes "reconcile_jobs env db = Inr db'" and "keyed db" and "jobs_have_tasks db"
  shows "same_keys db db'" "tool_calls db' = tool_calls db" "\<And>k. task_agrees db' k"
proof -
  let ?gs = "grouped (\<lambda>p. aj_task_id (rp_job p)) (active_rows db)"
  have g: "same_keys db db' \<and> tool_calls db' = tool_calls db \<and> (\<forall>k \<in> fst ` set ?gs. task_agrees db' k) \<and>
    (\<forall>k. k \<notin> fst ` set ?gs \<longrightarrow> active_of k db' = active_of k db \<and> row_by tk_id k (tasks db') = row_by tk_id k (tasks db))"
    using active_rows_reads [OF assms(2)]
    by (intro reconcile_groups [OF assms(1) [unfolded reconcile_jobs_def] assms(2) grouped_keys(1)]) blast
  then show "same_keys db db'" "tool_calls db' = tool_calls db" by simp_all
  show "task_agrees db' k" for k
  proof (cases "k \<in> fst ` set ?gs")
    case False
    have "active_of k db = []"
    proof (rule ccontr)
      assume "active_of k db \<noteq> []"
      then obtain j where j: "j \<in> set (active_of k db)" by (cases "active_of k db") auto
      then obtain t where "t \<in> set (tasks db)" "tk_id t = k"
        using assms(3) by (force simp: in_active_of jobs_have_tasks_def)
      then have "\<lparr>rp_job = j, rp_task_status = tk_status t\<rparr> \<in> set (active_rows db)"
        using j by (auto simp: mem_active_rows in_active_of)
      then show False using False j unfolding grouped_keys(2) by (force simp: in_active_of image_iff)
    qed
    then show ?thesis using g False by (simp add: task_agrees_def)
  qed (use g in blast)
qed

end
