(* ===== verification/Startup_Passes.thy ===== *)
theory Startup_Passes
  imports Startup_Jobs
begin

text \<open>
  The recovery of goal roots and the failing of tasks without work, and with them one whole pass: what it
  leaves is settled, and a settled state is left as it is.
\<close>

section \<open>Steps that move tasks without active jobs\<close>

text \<open>The tasks in the set end in the status, and the audit log tells of them only.\<close>

definition tasks_moved :: "string set \<Rightarrow> task_status \<Rightarrow> 'z startup_db_scheme \<Rightarrow> 'z startup_db_scheme \<Rightarrow> bool" where
  "tasks_moved K s db db' \<longleftrightarrow> agent_jobs db' = agent_jobs db \<and> tool_calls db' = tool_calls db \<and> goal_runs db' = goal_runs db \<and>
    map tk_id (tasks db') = map tk_id (tasks db) \<and>
    (\<forall>k \<in> K. \<exists>t. row_by tk_id k (tasks db') = Some t \<and> tk_status t = s) \<and>
    (\<forall>k. k \<notin> K \<longrightarrow> row_by tk_id k (tasks db') = row_by tk_id k (tasks db)) \<and>
    (\<exists>new. audit_events db' = audit_events db @ new \<and> (\<forall>a \<in> set new. \<exists>k \<in> K. ae_task_id a = Some k))"

lemma tasks_moved_refl: "tasks_moved {} s db db"
  by (simp add: tasks_moved_def)

lemma tasks_moved_trans:
  assumes "tasks_moved K s a b" and "tasks_moved K' s b c"
  shows "tasks_moved (K \<union> K') s a c"
proof -
  obtain new where n: "audit_events b = audit_events a @ new" "\<forall>x \<in> set new. \<exists>k \<in> K. ae_task_id x = Some k"
    using assms(1) by (auto simp: tasks_moved_def)
  obtain new' where n': "audit_events c = audit_events b @ new'" "\<forall>x \<in> set new'. \<exists>k \<in> K'. ae_task_id x = Some k"
    using assms(2) by (auto simp: tasks_moved_def)
  have "\<exists>new. audit_events c = audit_events a @ new \<and> (\<forall>x \<in> set new. \<exists>k \<in> K \<union> K'. ae_task_id x = Some k)"
    by (rule exI [of _ "new @ new'"]) (use n n' in auto)
  moreover have "\<forall>k \<in> K \<union> K'. \<exists>t. row_by tk_id k (tasks c) = Some t \<and> tk_status t = s"
    using assms unfolding tasks_moved_def by (metis Un_iff)
  ultimately show ?thesis using assms by (simp add: tasks_moved_def)
qed

lemma for_each_moved:
  fixes db :: "'z startup_db_scheme"
  assumes "for_each f xs db = Inr db'" and "keyed db"
    and "\<And>x a b. x \<in> set xs \<Longrightarrow> keyed a \<Longrightarrow> f x a = Inr b \<Longrightarrow> tasks_moved {key x} s a (b :: 'z startup_db_scheme)"
  shows "tasks_moved (key ` set xs) s db db'"
  using assms
proof (induction xs arbitrary: db)
  case Nil
  then show ?case by (simp add: tasks_moved_refl)
next
  case (Cons x xs)
  obtain db1 where f: "f x db = Inr db1" and r: "for_each f xs db1 = Inr db'" using Cons.prems(1) by auto
  have m: "tasks_moved {key x} s db db1" using Cons.prems(3) [OF _ Cons.prems(2) f] by simp
  have k: "keyed db1" using m Cons.prems(2) by (simp add: tasks_moved_def keyed_def)
  have "tasks_moved (key ` set xs) s db1 db'"
    by (rule Cons.IH [OF r k]) (rule Cons.prems(3), simp_all)
  then show ?case using tasks_moved_trans [OF m] by simp
qed

lemma migration_noted:
  fixes db :: "'z startup_db_scheme"
  assumes "reaper_enqueue env at ai to' ty p k agent key (migration_audit env ty2 p2 k db) = Inr db'"
  shows "work_frame db db' \<and> (\<exists>a. audit_events db' = audit_events db @ [a] \<and> ae_task_id a = Some k \<and> ae_event_type a = ty2)"
proof -
  have "audit_events db' = audit_events (migration_audit env ty2 p2 k db)"
    using assms unfolding reaper_enqueue_def by (auto simp: and_then_Inr_iff elim!: enqueue_shape)
  then show ?thesis using work_frame_trans [OF migration_audit_frame reaper_enqueue_work [OF assms]]
    by (simp add: migration_audit_def capability_audit_def append_audit_event_def Let_def)
qed

text \<open>An update of the one row of a task, then the note of it.\<close>

lemma update_moved:
  fixes db :: "'z startup_db_scheme"
  assumes "sql_rowcount (\<lambda>t. tk_id t = k \<and> tk_status t = s0) (tasks db) = 1" and "keyed db"
    and "\<And>t. tk_id (f t) = tk_id t \<and> tk_status (f t) = s"
    and "work_frame (db\<lparr>tasks := sql_update (\<lambda>t. tk_id t = k \<and> tk_status t = s0) f (tasks db)\<rparr>) db'"
    and "audit_events db' = audit_events db @ [a]" and "ae_task_id a = Some k"
  shows "tasks_moved {k} s db db'"
proof -
  obtain t where t: "t \<in> set (tasks db)" "tk_id t = k" "tk_status t = s0"
    using assms(1) sql_rowcount_0_iff [of "\<lambda>t. tk_id t = k \<and> tk_status t = s0" "tasks db"] by auto
  have "row_by tk_id k (tasks db) = Some t" using row_by_unique [of tk_id "tasks db" t] t assms(2) by (simp add: keyed_def)
  moreover have "row_by tk_id k' (sql_update (\<lambda>t. tk_id t = k \<and> tk_status t = s0) f (tasks db)) =
      map_option (\<lambda>t. if tk_id t = k \<and> tk_status t = s0 then f t else t) (row_by tk_id k' (tasks db))" for k'
    by (rule row_by_sql_update) (use assms(3) in simp)
  moreover have "map_option (\<lambda>t. if tk_id t = k \<and> tk_status t = s0 then f t else t) (row_by tk_id k' (tasks db)) =
      row_by tk_id k' (tasks db)" if "k' \<noteq> k" for k'
    using that by (cases "row_by tk_id k' (tasks db)") (auto dest!: row_by_SomeD)
  ultimately show ?thesis
    using assms(3-6) t by (auto simp: tasks_moved_def work_frame_def map_sql_update)
qed

lemma recover_root_moved:
  fixes db :: "'z startup_db_scheme"
  assumes "recover_root env root db = Inr db'" and "keyed db"
  shows "tasks_moved {fst root} Task_Running db db'"
proof -
  obtain k g i where root: "root = (k, g, i)" by (cases root)
  let ?hit = "\<lambda>t. tk_id t = k \<and> tk_status t = Task_Failed"
  let ?f = "\<lambda>t. t\<lparr>tk_status := Task_Running, tk_updated_at := re_now env, tk_completed_at := None, tk_error_json := None\<rparr>"
  have one: "sql_rowcount ?hit (tasks db) = 1"
    using assms(1) by (simp add: recover_root_def root Let_def split: if_split_asm)
  obtain p q key where e: "reaper_enqueue env ''task'' k ''tasks.status'' ''running'' p k None key
      (migration_audit env ''task.goal_root.recovered'' q k (db\<lparr>tasks := sql_update ?hit ?f (tasks db)\<rparr>)) = Inr db'"
    using assms(1) that unfolding recover_root_def root Let_def prod.case one by (simp only: if_False simp_thms)
  show ?thesis
    using migration_noted [OF e] unfolding root fst_conv
    by (elim conjE exE) (rule update_moved [OF one assms(2)], simp_all)
qed

lemma fail_orphan_moved:
  fixes db :: "'z startup_db_scheme"
  assumes "fail_orphan env t db = Inr db'" and "keyed db"
  shows "tasks_moved {tk_id t} Task_Failed db db'"
proof -
  let ?hit = "\<lambda>x. tk_id x = tk_id t \<and> tk_status x = tk_status t"
  let ?db1 = "db\<lparr>tasks := sql_update ?hit (moved_task Task_Failed (re_now env) (Some orphan_reason)) (tasks db)\<rparr>"
  obtain db1 p q key where m: "transition_task (tk_id t) (tk_status t) Task_Failed (re_now env) (Some orphan_reason) db = Inr db1"
    and e: "reaper_enqueue env ''task'' (tk_id t) ''tasks.status'' ''failed'' p (tk_id t) None key
      (migration_audit env ''task.failed.migration'' q (tk_id t) db1) = Inr db'"
    using assms(1) unfolding fail_orphan_def by auto
  have one: "sql_rowcount ?hit (tasks db) = 1" and db1: "db1 = ?db1"
    using m by (auto simp: transition_task_def Let_def split: if_split_asm)
  show ?thesis
    using migration_noted [OF e] unfolding db1
    by (elim conjE exE) (rule update_moved [OF one assms(2)], simp_all)
qed

section \<open>One pass\<close>

definition no_orphans :: "'z startup_db_scheme \<Rightarrow> bool" where
  "no_orphans db \<longleftrightarrow> (\<forall>t \<in> set (tasks db). tk_status t = Task_Queued \<or> tk_status t = Task_Running \<longrightarrow> has_work db (tk_id t))"

definition settled :: "'z startup_db_scheme \<Rightarrow> bool" where
  "settled db \<longleftrightarrow> (\<forall>k. task_agrees db k) \<and> no_orphans db \<and> recoverable_roots db = []"

lemma moved_row:
  assumes "tasks_moved K s a b" and "keyed a" and "t \<in> set (tasks b)"
  shows "if tk_id t \<in> K then tk_status t = s else t \<in> set (tasks a)"
proof -
  have "row_by tk_id (tk_id t) (tasks b) = Some t"
    using row_by_unique [of tk_id "tasks b" t] assms by (simp add: keyed_def tasks_moved_def)
  then show ?thesis using assms(1) unfolding tasks_moved_def by (metis option.inject row_by_SomeD)
qed

lemma moved_has_work: "tasks_moved K s a b \<Longrightarrow> has_work b k \<longleftrightarrow> has_work a k"
  by (simp add: tasks_moved_def has_work_def)

lemma moved_agrees:
  assumes "tasks_moved K s a b" and "\<And>k. k \<in> K \<Longrightarrow> active_of k a = []" and "task_agrees a k"
  shows "task_agrees b k"
  using assms by (cases "k \<in> K") (auto simp: tasks_moved_def task_agrees_def active_of_def)

lemma moved_same_keys: "tasks_moved K s a b \<Longrightarrow> same_keys a b"
  by (simp add: tasks_moved_def same_keys_def)

lemma mem_recoverable_roots: "x \<in> set (recoverable_roots db) \<longleftrightarrow> (\<exists>t g a. x = (tk_id t, gr_id g, ae_id a) \<and>
    a \<in> set (audit_events db) \<and> failed_by_migration t db a \<and>
    g \<in> set (goal_runs db) \<and> gr_root_task_id g = tk_id t \<and> gr_status g \<in> set [''running'', ''waiting_permission''] \<and>
    gr_started_at g \<noteq> None \<and> gr_completed_at g = None \<and>
    t \<in> set (tasks db) \<and> tk_status t = Task_Failed \<and> tk_error_json t = Some (error_message orphan_reason) \<and>
    \<not> list_ex (\<lambda>j. aj_task_id j = tk_id t) (agent_jobs db) \<and> \<not> list_ex (\<lambda>c. tc_task_id c = tk_id t) (tool_calls db))"
  unfolding recoverable_roots_def by (simp del: list.set) blast

lemma root_no_jobs:
  assumes "k \<in> fst ` set (recoverable_roots db)"
  shows "active_of k db = []"
proof -
  obtain x where "x \<in> set (recoverable_roots db)" "fst x = k" using assms by blast
  then have "\<not> list_ex (\<lambda>j. aj_task_id j = k) (agent_jobs db)" unfolding mem_recoverable_roots by (elim exE conjE) simp
  then show ?thesis by (auto simp: active_of_def filter_empty_conv list_ex_iff)
qed

lemma orphan_no_jobs:
  assumes "k \<in> tk_id ` set (orphaned_tasks db)"
  shows "active_of k db = []" "\<not> has_work db k"
proof -
  show w: "\<not> has_work db k" using assms by (auto simp: orphaned_tasks_def)
  then show "active_of k db = []" by (auto simp: has_work_def active_of_def filter_empty_conv list_ex_iff)
qed

text \<open>The three loops of a pass and the states between them.\<close>

lemma pass_steps:
  fixes db :: "'z startup_db_scheme"
  assumes "reconcile_agent_jobs env db = Inr db'" and "keyed db" and "jobs_have_tasks db"
  obtains dbJ dbR where "reconcile_jobs env db = Inr dbJ" "keyed dbJ" "keyed dbR"
    "tasks_moved (fst ` set (recoverable_roots dbJ)) Task_Running dbJ dbR"
    "tasks_moved (tk_id ` set (orphaned_tasks dbR)) Task_Failed dbR db'"
proof -
  obtain dbJ dbR where j: "reconcile_jobs env db = Inr dbJ" and r: "for_each (recover_root env) (recoverable_roots dbJ) dbJ = Inr dbR"
    and o: "for_each (fail_orphan env) (orphaned_tasks dbR) dbR = Inr db'"
    using assms(1) unfolding reconcile_agent_jobs_def by auto
  have k: "keyed dbJ" using same_keysD(1) [OF reconcile_jobs_agree(1) [OF j assms(2,3)]] assms(2) by simp
  have mr: "tasks_moved (fst ` set (recoverable_roots dbJ)) Task_Running dbJ dbR"
    by (rule for_each_moved [OF r k]) (rule recover_root_moved)
  have kr: "keyed dbR" using same_keysD(1) [OF moved_same_keys [OF mr]] k by simp
  have "tasks_moved (tk_id ` set (orphaned_tasks dbR)) Task_Failed dbR db'"
    by (rule for_each_moved [OF o kr]) (rule fail_orphan_moved)
  then show ?thesis using that j k kr mr by blast
qed

lemma pass_agrees:
  fixes db :: "'z startup_db_scheme"
  assumes "reconcile_agent_jobs env db = Inr db'" and "keyed db" and "jobs_have_tasks db"
  shows "task_agrees db' k" "same_keys db db'" "tool_calls db' = tool_calls db"
proof -
  obtain dbJ dbR where s: "reconcile_jobs env db = Inr dbJ" "keyed dbJ" "keyed dbR"
    "tasks_moved (fst ` set (recoverable_roots dbJ)) Task_Running dbJ dbR"
    "tasks_moved (tk_id ` set (orphaned_tasks dbR)) Task_Failed dbR db'"
    by (rule pass_steps [OF assms])
  note j = reconcile_jobs_agree [OF s(1) assms(2,3)]
  show "task_agrees db' k"
    by (rule moved_agrees [OF s(5) orphan_no_jobs(1) moved_agrees [OF s(4) root_no_jobs j(3)]])
  show "same_keys db db'"
    using j(1) moved_same_keys [OF s(4)] moved_same_keys [OF s(5)] same_keys_trans by blast
  show "tool_calls db' = tool_calls db" using j(2) s(4,5) by (simp add: tasks_moved_def)
qed

lemma pass_no_orphans:
  fixes db :: "'z startup_db_scheme"
  assumes "reconcile_agent_jobs env db = Inr db'" and "keyed db" and "jobs_have_tasks db"
  shows "no_orphans db'"
  unfolding no_orphans_def
proof (intro ballI impI)
  fix t
  assume t: "t \<in> set (tasks db')" and st: "tk_status t = Task_Queued \<or> tk_status t = Task_Running"
  obtain dbJ dbR where s: "reconcile_jobs env db = Inr dbJ" "keyed dbJ" "keyed dbR"
    "tasks_moved (fst ` set (recoverable_roots dbJ)) Task_Running dbJ dbR"
    "tasks_moved (tk_id ` set (orphaned_tasks dbR)) Task_Failed dbR db'"
    by (rule pass_steps [OF assms])
  note m = moved_row [OF s(5,3) t]
  have "tk_id t \<notin> tk_id ` set (orphaned_tasks dbR)" "t \<in> set (tasks dbR)" using m st by (auto split: if_split_asm)
  then have "has_work dbR (tk_id t)" using st by (auto simp: orphaned_tasks_def)
  then show "has_work db' (tk_id t)" using moved_has_work [OF s(5)] by simp
qed

lemma failed_by_migration_prefix:
  assumes "audit_events db' = audit_events db @ new" and "\<forall>x \<in> set new. ae_task_id x \<noteq> Some (tk_id t)"
    and "a \<in> set (audit_events db')" and "failed_by_migration t db' a"
  shows "a \<in> set (audit_events db) \<and> failed_by_migration t db a"
proof -
  have "a \<in> set (audit_events db)" using assms by (auto simp: failed_by_migration_def)
  then show ?thesis using assms(1,4) by (simp add: failed_by_migration_def)
qed

lemma pass_no_roots:
  fixes db :: "'z startup_db_scheme"
  assumes "reconcile_agent_jobs env db = Inr db'" and "keyed db" and "jobs_have_tasks db"
  shows "recoverable_roots db' = []"
proof (rule ccontr)
  assume "recoverable_roots db' \<noteq> []"
  then obtain x where "x \<in> set (recoverable_roots db')" by (cases "recoverable_roots db'") auto
  then obtain t g a where a: "a \<in> set (audit_events db')" "failed_by_migration t db' a"
    and g: "g \<in> set (goal_runs db')" "gr_root_task_id g = tk_id t" "gr_status g \<in> set [''running'', ''waiting_permission'']"
      "gr_started_at g \<noteq> None" "gr_completed_at g = None"
    and t: "t \<in> set (tasks db')" "tk_status t = Task_Failed" "tk_error_json t = Some (error_message orphan_reason)"
    and n: "\<not> list_ex (\<lambda>j. aj_task_id j = tk_id t) (agent_jobs db')" "\<not> list_ex (\<lambda>c. tc_task_id c = tk_id t) (tool_calls db')"
    unfolding mem_recoverable_roots by blast
  obtain dbJ dbR where s: "reconcile_jobs env db = Inr dbJ" "keyed dbJ" "keyed dbR"
    "tasks_moved (fst ` set (recoverable_roots dbJ)) Task_Running dbJ dbR"
    "tasks_moved (tk_id ` set (orphaned_tasks dbR)) Task_Failed dbR db'"
    by (rule pass_steps [OF assms])
  have same: "agent_jobs db' = agent_jobs dbJ" "tool_calls db' = tool_calls dbJ" "goal_runs db' = goal_runs dbR" "goal_runs db' = goal_runs dbJ"
    using s(4,5) by (simp_all add: tasks_moved_def)
  have "has_work dbR (tk_id t)" using g same(3) by (auto simp: has_work_def list_ex_iff)
  then have no: "tk_id t \<notin> tk_id ` set (orphaned_tasks dbR)" using orphan_no_jobs(2) by blast
  then have tr: "t \<in> set (tasks dbR)" using moved_row [OF s(5,3) t(1)] by simp
  have nr: "tk_id t \<notin> fst ` set (recoverable_roots dbJ)" using moved_row [OF s(4,2) tr] t(2) by (metis task_status.distinct)
  then have tj: "t \<in> set (tasks dbJ)" using moved_row [OF s(4,2) tr] by simp
  obtain n1 n2 where n1: "audit_events dbR = audit_events dbJ @ n1" "\<forall>a \<in> set n1. \<exists>k \<in> fst ` set (recoverable_roots dbJ). ae_task_id a = Some k"
    and n2: "audit_events db' = audit_events dbR @ n2" "\<forall>a \<in> set n2. \<exists>k \<in> tk_id ` set (orphaned_tasks dbR). ae_task_id a = Some k"
    using s(4,5) by (auto simp: tasks_moved_def)
  have "\<forall>x \<in> set n2. ae_task_id x \<noteq> Some (tk_id t)" using n2(2) no by (metis option.inject)
  then have aR: "a \<in> set (audit_events dbR)" "failed_by_migration t dbR a"
    using failed_by_migration_prefix [OF n2(1) _ a] by simp_all
  have "\<forall>x \<in> set n1. ae_task_id x \<noteq> Some (tk_id t)" using n1(2) nr by (metis option.inject)
  then have "a \<in> set (audit_events dbJ)" "failed_by_migration t dbJ a"
    using failed_by_migration_prefix [OF n1(1) _ aR] by simp_all
  then have "(tk_id t, gr_id g, ae_id a) \<in> set (recoverable_roots dbJ)"
    unfolding mem_recoverable_roots using g t(2,3) n tj same by auto
  then show False using nr by force
qed

lemma pass_settles:
  fixes db :: "'z startup_db_scheme"
  assumes "reconcile_agent_jobs env db = Inr db'" and "keyed db" and "jobs_have_tasks db"
  shows "settled db'"
  using pass_agrees(1) [OF assms] pass_no_orphans [OF assms] pass_no_roots [OF assms] by (simp add: settled_def)

section \<open>Passes that find nothing to do\<close>

text \<open>
  After a task has ended by other means its jobs may still be active. A pass then fences them and leaves
  the tasks as they are; when they agree it leaves everything.
\<close>

definition agrees_or_ended :: "'z job_db_scheme \<Rightarrow> string \<Rightarrow> bool" where
  "agrees_or_ended db k \<longleftrightarrow> task_agrees db k \<or> (\<exists>t. row_by tk_id k (tasks db) = Some t \<and> task_terminal (tk_status t))"

lemma reconcile_task_agreed:
  fixes db :: "'z startup_db_scheme"
  assumes "reads k rows db" and "task_agrees db k" and "keyed db"
  shows "reconcile_task env (k, rows) db = Inr db"
proof -
  obtain t where t: "row_by tk_id k (tasks db) = Some t" "\<forall>p \<in> set rows. rp_task_status p = tk_status t"
    and rows: "rows \<noteq> []" "rp_job ` set rows = set (active_of k db)" using assms(1) by (auto simp: reads_def)
  have ne: "active_of k db \<noteq> []" using rows by auto
  obtain j where j: "active_of k db = [j]" "job_agrees j (tk_status t)" using assms(2) ne t(1) by (auto simp: task_agrees_def)
  define jobs where "jobs = map rp_job rows"
  have jobs: "set jobs = {j}" "jobs \<noteq> []" using rows j(1) by (auto simp: jobs_def)
  then have hd: "hd jobs = j" using hd_in_set [of jobs] by simp
  have s: "rp_task_status (hd rows) = tk_status t" using t(2) rows(1) by simp
  have find: "find (\<lambda>j. aj_status j = Job_Queued) jobs = Some j" if "aj_status j = Job_Queued"
    using jobs that by (cases jobs) auto
  have surv: "survivor_of (tk_status t) jobs = Some j"
    using j(2) find hd by (auto simp: survivor_of_def job_agrees_def task_terminal_def)
  have none: "filter (\<lambda>x. aj_id x \<noteq> aj_id j) jobs = []" using jobs(1) by (auto simp: filter_empty_conv)
  have "sole k j (tk_status t) db" using assms(3) j(1) t(1) by (simp add: sole_def)
  note own = soleD(6) [OF this]
  have "sql_update (\<lambda>x. aj_id x = aj_id j) (\<lambda>j. j\<lparr>aj_claim_token := None\<rparr>) (agent_jobs db) = agent_jobs db" if "\<not> legacy_lease j"
    by (rule clear_token_id) (use own that in \<open>auto simp: legacy_lease_def\<close>)
  then have "reconcile_survivor env k (tk_status t) j db = Inr db"
    using j(2) unfolding job_agrees_def reconcile_survivor_def Let_def by (elim disjE conjE) (simp_all only: if_True if_False simp_thms
      job_leased_def job_status.distinct task_status.distinct, elim disjE, simp_all only: job_status.distinct if_False, simp_all)
  then show ?thesis by (simp add: reconcile_task_def s jobs_def [symmetric] surv none)
qed

lemma for_each_id: "(\<And>x. x \<in> set xs \<Longrightarrow> f x s = Inr s) \<Longrightarrow> for_each f xs s = Inr s"
  by (induction xs) simp_all

lemma pass_settled:
  fixes db :: "'z startup_db_scheme"
  assumes "settled db" and "keyed db"
  shows "reconcile_agent_jobs env db = Inr db"
proof -
  have "reconcile_task env g db = Inr db" if "g \<in> set (grouped (\<lambda>p. aj_task_id (rp_job p)) (active_rows db))" for g
    using reconcile_task_agreed [OF active_rows_reads [OF assms(2)]] that assms by (cases g) (simp add: settled_def)
  then have j: "reconcile_jobs env db = Inr db" unfolding reconcile_jobs_def by (rule for_each_id)
  have "set (orphaned_tasks db) = {}" using assms(1) by (auto simp: settled_def no_orphans_def orphaned_tasks_def)
  then have o: "orphaned_tasks db = []" by simp
  have r: "recoverable_roots db = []" using assms(1) by (simp add: settled_def)
  show ?thesis unfolding reconcile_agent_jobs_def j and_then.simps r for_each.simps o ..
qed

lemma reconcile_task_ended:
  fixes db :: "'z startup_db_scheme"
  assumes "reconcile_task env (k, rows) db = Inr db'" and "reads k rows db" and "keyed db" and "agrees_or_ended db k"
  shows "tasks db' = tasks db"
proof (cases "task_agrees db k")
  case True
  then show ?thesis using assms(1) reconcile_task_agreed [OF assms(2) True assms(3)] by simp
next
  case False
  then obtain t where t: "row_by tk_id k (tasks db) = Some t" "task_terminal (tk_status t)"
    using assms(4) by (auto simp: agrees_or_ended_def)
  then have s: "task_terminal (rp_task_status (hd rows))" using assms(2) by (auto simp: reads_def)
  have c: "for_each (cancel_job_for_migration env ''duplicate active job fenced during v0.9 migration''
      ''migration-fence'') (map rp_job rows) db = Inr db'"
    using assms(1) s by (simp add: reconcile_task_def survivor_of_def and_then_Inr_iff)
  have "aj_task_id j = k" if "job \<in> set (map rp_job rows)" "j \<in> set (agent_jobs db)" "aj_id j = aj_id job" for job j
  proof -
    have "job \<in> set (active_of k db)" using that(1) assms(2) by (auto simp: reads_def)
    then have "job \<in> set (agent_jobs db)" "aj_task_id job = k" by (simp_all add: in_active_of)
    then show ?thesis using that(2,3) assms(3) distinct_key_eq [of aj_id "agent_jobs db" j job] by (simp add: keyed_def)
  qed
  then have "elsewhere k db db' \<and> tasks db' = tasks db \<and>
    active_of k db' = filter (\<lambda>j. aj_id j \<notin> aj_id ` set (map rp_job rows)) (active_of k db)"
    by (rule cancel_jobs_shape [OF c assms(3)])
  then show ?thesis by simp
qed

lemma reconcile_groups_ended:
  fixes db :: "'z startup_db_scheme"
  assumes "for_each (reconcile_task env) gs db = Inr db'" and "keyed db" and "distinct (map fst gs)"
    and "\<forall>(k, rows) \<in> set gs. reads k rows db" and "\<And>k. agrees_or_ended db k"
  shows "tasks db' = tasks db"
  using assms
proof (induction gs arbitrary: db)
  case (Cons g gs)
  obtain k rows where g: "g = (k, rows)" by (cases g)
  obtain db1 where c: "reconcile_task env (k, rows) db = Inr db1" and r: "for_each (reconcile_task env) gs db1 = Inr db'"
    using Cons.prems(1) g by auto
  have rd: "reads k rows db" using Cons.prems(4) g by simp
  note e = reconcile_task_shape [OF c Cons.prems(2) rd]
  have t: "tasks db1 = tasks db" by (rule reconcile_task_ended [OF c rd Cons.prems(2,5)])
  have "agrees_or_ended db1 k'" for k'
    using Cons.prems(5) [of k'] e elsewhere_agrees(1) [of k db db1 k'] t by (cases "k' = k") (auto simp: agrees_or_ended_def)
  moreover have "\<forall>(k', rows') \<in> set gs. reads k' rows' db1"
  proof (intro ballI, clarify)
    fix k' rows'
    assume "(k', rows') \<in> set gs"
    then have "reads k' rows' db" "k' \<noteq> k" using Cons.prems(3,4) g by (auto simp: image_iff)
    then show "reads k' rows' db1" using reads_elsewhere e by blast
  qed
  moreover have "keyed db1" using elsewhere_keyed e Cons.prems(2) by blast
  ultimately show ?case using Cons.IH [OF r] Cons.prems(3) t by simp
qed simp

text \<open>A pass over such a state makes no task queued.\<close>

lemma pass_queues_nothing:
  fixes db :: "'z startup_db_scheme"
  assumes "reconcile_agent_jobs env db = Inr db'" and "keyed db" and "jobs_have_tasks db" and "\<And>k. agrees_or_ended db k"
    and "t \<in> set (tasks db')" and "tk_status t = Task_Queued"
  shows "t \<in> set (tasks db)"
proof -
  obtain dbJ dbR where s: "reconcile_jobs env db = Inr dbJ" "keyed dbJ" "keyed dbR"
    "tasks_moved (fst ` set (recoverable_roots dbJ)) Task_Running dbJ dbR"
    "tasks_moved (tk_id ` set (orphaned_tasks dbR)) Task_Failed dbR db'"
    by (rule pass_steps [OF assms(1-3)])
  have "t \<in> set (tasks dbR)" using moved_row [OF s(5,3) assms(5)] assms(6) by (metis task_status.distinct)
  then have "t \<in> set (tasks dbJ)" using moved_row [OF s(4,2)] assms(6) by (metis task_status.distinct)
  moreover have "tasks dbJ = tasks db"
    using active_rows_reads [OF assms(2)]
    by (intro reconcile_groups_ended [OF s(1) [unfolded reconcile_jobs_def] assms(2) grouped_keys(1) _ assms(4)]) blast
  ultimately show ?thesis by simp
qed

end
