(* ===== verification/Startup_Capabilities.thy ===== *)
theory Startup_Capabilities
  imports Startup_Passes
begin

text \<open>
  What the recovery does to capability requests, and to the tables no step of it writes: afterwards every
  request has the fingerprint of what it asks for, and no two open requests share one.
\<close>

section \<open>What a pass over jobs keeps\<close>

definition requests_shrink :: "capability_request_row list \<Rightarrow> capability_request_row list \<Rightarrow> bool" where
  "requests_shrink t t' \<longleftrightarrow> (\<exists>h. t' = map h t \<and>
    (\<forall>r. request_fixed (h r) = request_fixed r \<and> (h r = r \<or> \<not> open_capability (h r))))"

lemma requests_shrink_refl [simp]: "requests_shrink t t"
  unfolding requests_shrink_def by (rule exI [of _ id]) simp

lemma requests_shrink_trans:
  assumes "requests_shrink a b" and "requests_shrink b c"
  shows "requests_shrink a c"
proof -
  obtain h1 where h1: "b = map h1 a" "\<And>r. request_fixed (h1 r) = request_fixed r \<and> (h1 r = r \<or> \<not> open_capability (h1 r))"
    using assms(1) by (auto simp: requests_shrink_def)
  obtain h2 where h2: "c = map h2 b" "\<And>r. request_fixed (h2 r) = request_fixed r \<and> (h2 r = r \<or> \<not> open_capability (h2 r))"
    using assms(2) by (auto simp: requests_shrink_def)
  have "h2 (h1 r) = r \<or> \<not> open_capability (h2 (h1 r))" for r
    using h1(2) [of r] h2(2) [of "h1 r"] by (cases "h2 (h1 r) = h1 r") auto
  then show ?thesis unfolding requests_shrink_def using h1 h2
    by (intro exI [of _ "h2 \<circ> h1"]) simp
qed

definition rest_frame :: "'z startup_db_scheme \<Rightarrow> 'z startup_db_scheme \<Rightarrow> bool" where
  "rest_frame db db' \<longleftrightarrow> message_board_events db' = message_board_events db \<and> approvals db' = approvals db \<and>
    devices db' = devices db \<and> outbox_metrics_singleton db' = outbox_metrics_singleton db \<and> job_metrics db' = job_metrics db \<and>
    goal_runs db' = goal_runs db \<and> set (audit_events db) \<subseteq> set (audit_events db')"

definition startup_frame :: "'z startup_db_scheme \<Rightarrow> 'z startup_db_scheme \<Rightarrow> bool" where
  "startup_frame db db' \<longleftrightarrow> rest_frame db db' \<and> requests_shrink (capability_requests db) (capability_requests db')"

lemma startup_frame_refl [simp]: "startup_frame db db"
  by (simp add: startup_frame_def rest_frame_def)

lemma startup_frame_trans [trans]: "startup_frame a b \<Longrightarrow> startup_frame b c \<Longrightarrow> startup_frame a c"
  by (auto simp: startup_frame_def rest_frame_def intro: requests_shrink_trans)

lemma same_requests_frame: "rest_frame a b \<Longrightarrow> capability_requests b = capability_requests a \<Longrightarrow> startup_frame a b"
  by (simp add: startup_frame_def)

lemma migration_notified:
  fixes db :: "'z startup_db_scheme"
  assumes "reaper_enqueue env at ai to' ty p task agent key (migration_audit env ty2 p2 task2 db) = Inr db'"
  shows "startup_frame db db'" "rest_frame db db'" "capability_requests db' = capability_requests db"
    "capability_grants db' = capability_grants db"
proof -
  have "rest_frame db db' \<and> capability_requests db' = capability_requests db \<and> capability_grants db' = capability_grants db"
    using assms unfolding reaper_enqueue_def
    by (auto simp: and_then_Inr_iff rest_frame_def migration_audit_def capability_audit_def append_audit_event_def Let_def
        elim!: enqueue_shape)
  then show "startup_frame db db'" "rest_frame db db'" "capability_requests db' = capability_requests db"
    "capability_grants db' = capability_grants db" by (simp_all add: same_requests_frame)
qed

lemma update_frame:
  fixes db :: "'z startup_db_scheme"
  shows "startup_frame db (db\<lparr>agent_jobs := js\<rparr>)" "startup_frame db (db\<lparr>tasks := ts\<rparr>)"
    "startup_frame db (db\<lparr>agent_jobs := js, tasks := ts\<rparr>)"
  by (simp_all add: startup_frame_def rest_frame_def)

text \<open>With unique identifiers the cancellation is the update alone.\<close>

definition cancelled_request :: "string \<Rightarrow> capability_request_row \<Rightarrow> capability_request_row" where
  "cancelled_request now x = x\<lparr>cr_status := ''cancelled'', cr_completed_at := Some now\<rparr>"

lemma cancelled_request_fields [simp]: "request_fixed (cancelled_request now x) = request_fixed x"
  "\<not> open_capability (cancelled_request now x)" "cr_id (cancelled_request now x) = cr_id x"
  by (simp_all add: cancelled_request_def request_fixed_def open_capability_def terminal_capability_statuses_def)

lemma cancel_capability_shape:
  fixes db :: "'z startup_db_scheme"
  assumes "cancel_capability_for_migration env reason suffix r db = Inr db'"
  shows "rest_frame db db'"
    "capability_requests db' = capability_requests db \<or> capability_requests db' =
      sql_update (\<lambda>x. cr_id x = cr_id r \<and> open_capability x) (cancelled_request (re_now env)) (capability_requests db)"
    "distinct (map cr_id (capability_requests db)) \<Longrightarrow> capability_requests db' =
      sql_update (\<lambda>x. cr_id x = cr_id r \<and> open_capability x) (cancelled_request (re_now env)) (capability_requests db)"
proof -
  let ?hit = "\<lambda>x. cr_id x = cr_id r \<and> open_capability x"
  let ?db1 = "end_request r (\<lambda>s. s \<notin> set terminal_capability_statuses) ''cancelled'' (re_now env) db"
  have one: "capability_requests ?db1 = sql_update ?hit (cancelled_request (re_now env)) (capability_requests db)"
    by (simp add: end_request_def open_capability_def [abs_def] cancelled_request_def [abs_def])
  have f1: "rest_frame db ?db1" by (simp add: end_request_def rest_frame_def)
  have s: "if sql_rowcount ?hit (capability_requests db) \<noteq> 1 then db' = db
    else rest_frame ?db1 db' \<and> capability_requests db' = capability_requests ?db1"
    using assms unfolding cancel_capability_for_migration_def capability_enqueue_def
    by (auto split: if_split_asm dest: migration_notified(2,3))
  then show "rest_frame db db'" using f1 by (auto simp: rest_frame_def split: if_split_asm)
  show "capability_requests db' = capability_requests db \<or> capability_requests db' =
      sql_update ?hit (cancelled_request (re_now env)) (capability_requests db)"
    using s one by (auto split: if_split_asm)
  assume d: "distinct (map cr_id (capability_requests db))"
  have "sql_rowcount ?hit (capability_requests db) \<le> 1"
    by (rule sql_rowcount_le_1 [of cr_id _ _ "cr_id r"]) (use d in simp_all)
  then have "sql_update ?hit (cancelled_request (re_now env)) (capability_requests db) = capability_requests db"
    if "sql_rowcount ?hit (capability_requests db) \<noteq> 1" using that by (simp add: sql_update_none)
  then show "capability_requests db' = sql_update ?hit (cancelled_request (re_now env)) (capability_requests db)"
    using s one by (auto split: if_split_asm)
qed

lemma shrink_update: "requests_shrink t (sql_update P (cancelled_request now) t)"
  unfolding requests_shrink_def sql_update_def by (rule exI [of _ "\<lambda>r. if P r then cancelled_request now r else r"]) simp

lemma cancel_capability_startup:
  fixes db :: "'z startup_db_scheme"
  assumes "cancel_capability_for_migration env reason suffix r db = Inr db'"
  shows "startup_frame db db'"
  using cancel_capability_shape(1,2) [OF assms] by (auto simp: startup_frame_def shrink_update)

lemma cancel_capabilities_startup:
  fixes db :: "'z startup_db_scheme"
  shows "for_each (cancel_capability_for_migration env reason suffix) rs db = Inr db' \<Longrightarrow> startup_frame db db'"
  by (erule for_each_invariant [where P = "startup_frame db"]) (auto intro: startup_frame_trans cancel_capability_startup)

lemma cancel_job_startup:
  fixes db :: "'z startup_db_scheme"
  assumes "cancel_job_for_migration env reason suffix job db = Inr db'"
  shows "startup_frame db db'"
proof -
  let ?hit = "\<lambda>j. aj_id j = aj_id job \<and> job_active (aj_status j)"
  obtain db1 where c: "for_each (cancel_capability_for_migration env reason (suffix @ ''-job''))
      (sql_select (\<lambda>r. cr_requesting_job_id r = aj_id job \<and> open_capability r) (capability_requests db)) db = Inr db1"
    and r: "(if sql_rowcount ?hit (agent_jobs db1) \<noteq> 1 then Inr db1
    else reaper_enqueue env ''agent_job'' (aj_id job) ''tasks.status'' ''cancelled''
      (JObj [(''job_id'', JStr (aj_id job)), (''reason'', JStr ''migration_fence'')]) (aj_task_id job) None
      (''agent-job:'' @ aj_id job @ '':'' @ suffix)
      (migration_audit env ''agent.job.cancelled.migration''
        (JObj [(''job_id'', JStr (aj_id job)), (''reason'', JStr reason)]) (aj_task_id job)
        (db1\<lparr>agent_jobs := sql_update ?hit (fenced_job (re_now env) reason) (agent_jobs db1)\<rparr>))) = Inr db'"
    using assms unfolding cancel_job_for_migration_def Let_def by auto
  have "startup_frame db1 db'"
  proof (cases "sql_rowcount ?hit (agent_jobs db1) = 1")
    case True
    then show ?thesis using r startup_frame_trans [OF update_frame(1) migration_notified(1)] by simp
  qed (use r in simp)
  then show ?thesis using cancel_capabilities_startup [OF c] startup_frame_trans by blast
qed

lemma recover_legacy_startup:
  fixes db :: "'z startup_db_scheme"
  assumes "recover_legacy_lease env k s job db = Inr db'"
  shows "startup_frame db db'"
  using assms unfolding recover_legacy_lease_def Let_def
  by (elim and_then_InrE) (rule startup_frame_trans [OF cancel_capabilities_startup
      startup_frame_trans [OF update_frame(3) migration_notified(1)]])

lemma reconcile_survivor_startup:
  fixes db :: "'z startup_db_scheme"
  assumes "reconcile_survivor env k s job db = Inr db'"
  shows "startup_frame db db'"
  using assms unfolding reconcile_survivor_def Let_def
  by (auto simp only: split: if_split_asm dest!: cancel_job_startup recover_legacy_startup
      intro: update_frame startup_frame_trans [OF update_frame(1)] startup_frame_refl sum.inject)

lemma for_each_startup:
  fixes db :: "'z startup_db_scheme"
  assumes "for_each f xs db = Inr db'" and "\<And>x a b. f x a = Inr b \<Longrightarrow> startup_frame a (b :: 'z startup_db_scheme)"
  shows "startup_frame db db'"
  by (rule for_each_invariant [OF assms(1) startup_frame_refl]) (auto intro: startup_frame_trans assms(2))

lemma reconcile_task_startup:
  fixes db :: "'z startup_db_scheme"
  assumes "reconcile_task env g db = Inr db'"
  shows "startup_frame db db'"
proof -
  obtain k rows where g: "g = (k, rows)" by (cases g)
  obtain out db1 where c: "for_each (cancel_job_for_migration env ''duplicate active job fenced during v0.9 migration''
      ''migration-fence'') out db = Inr db1"
    and r: "(case survivor_of (rp_task_status (hd rows)) (map rp_job rows) of None \<Rightarrow> Inr db1
      | Some job \<Rightarrow> reconcile_survivor env k (rp_task_status (hd rows)) job db1) = Inr db'"
    using assms unfolding g reconcile_task_def Let_def prod.case by (elim and_then_InrE) (rule that)
  have "startup_frame db1 db'"
    using r by (auto split: option.split_asm dest: reconcile_survivor_startup)
  moreover have "startup_frame db db1" by (rule for_each_startup [OF c]) (rule cancel_job_startup)
  ultimately show ?thesis using startup_frame_trans by blast
qed

lemma pass_startup:
  fixes db :: "'z startup_db_scheme"
  assumes "reconcile_agent_jobs env db = Inr db'"
  shows "startup_frame db db'"
proof -
  have root: "startup_frame a b" if "recover_root env x a = Inr b" for x and a b :: "'z startup_db_scheme"
  proof -
    obtain k g i where x: "x = (k, g, i)" by (cases x)
    show ?thesis using that startup_frame_trans [OF update_frame(2) migration_notified(1)]
      unfolding recover_root_def x Let_def prod.case by (simp only: split: if_split_asm) (blast | simp)+
  qed
  have orphan: "startup_frame a b" if "fail_orphan env t a = Inr b" for t and a b :: "'z startup_db_scheme"
    using that startup_frame_trans [OF update_frame(2) migration_notified(1)]
    unfolding fail_orphan_def transition_task_def Let_def by (auto simp: and_then_Inr_iff split: if_split_asm)
  obtain a b where j: "for_each (reconcile_task env) (grouped (\<lambda>p. aj_task_id (rp_job p)) (active_rows db)) db = Inr a"
    and g: "for_each (recover_root env) (recoverable_roots a) a = Inr b"
    and o: "for_each (fail_orphan env) (orphaned_tasks b) b = Inr db'"
    using assms unfolding reconcile_agent_jobs_def reconcile_jobs_def by auto
  have "startup_frame db a" by (rule for_each_startup [OF j]) (rule reconcile_task_startup)
  also have "startup_frame a b" by (rule for_each_startup [OF g]) (rule root)
  also have "startup_frame b db'" by (rule for_each_startup [OF o]) (rule orphan)
  finally show ?thesis .
qed

section \<open>Fingerprints\<close>

definition invalid_fingerprint :: "(string \<Rightarrow> string) \<Rightarrow> string \<Rightarrow> string" where
  "invalid_fingerprint H i = ''sha256:'' @ H (''invalid-capability-request:'' @ i)"

text \<open>The request has the fingerprint of what it asks for, or has ended.\<close>

definition fingerprinted :: "(string \<Rightarrow> string) \<Rightarrow> capability_request_row \<Rightarrow> bool" where
  "fingerprinted H r \<longleftrightarrow> (case recomputed_fingerprint H r of
      Inr fingerprint \<Rightarrow> cr_request_fingerprint r = fingerprint
    | Inl e \<Rightarrow> cr_request_fingerprint r = invalid_fingerprint H (cr_id r) \<and> \<not> open_capability r)"

definition capabilities_settled :: "(string \<Rightarrow> string) \<Rightarrow> 'z job_db_scheme \<Rightarrow> bool" where
  "capabilities_settled H db \<longleftrightarrow> (\<forall>r \<in> set (capability_requests db). fingerprinted H r) \<and>
    distinct (map cr_request_fingerprint (sql_select open_capability (capability_requests db)))"

text \<open>The columns the fingerprint is computed from.\<close>

definition asked :: "capability_request_row \<Rightarrow> string \<times> string \<times> string \<times> int \<times> string" where
  "asked r = (cr_id r, cr_arguments_json r, cr_requesting_job_id r, cr_lease_generation r, cr_capability_name r)"

lemma asked_fingerprint:
  assumes "asked r = asked r'"
  shows "recomputed_fingerprint H r = recomputed_fingerprint H r'"
proof -
  have "recomputed_fingerprint H r = (\<lambda>(i, a, j, g, n). case json_loads a of
      Some (JObj arguments) \<Rightarrow> canonical_capability_request_fingerprint H j g n arguments
    | _ \<Rightarrow> Inl (CapabilityRequestBindingError ''capability request arguments are not an object'')) (asked r)" for r
    unfolding asked_def recomputed_fingerprint_def prod.case ..
  then show ?thesis using assms by simp
qed

lemma fixed_asked: "request_fixed r = request_fixed r' \<Longrightarrow> asked r = asked r' \<and> cr_request_fingerprint r = cr_request_fingerprint r'"
  unfolding asked_def prod.inject by (intro conjI) (erule request_fixedD)+

lemma fingerprinted_shrink:
  assumes "fingerprinted H r" and "request_fixed r' = request_fixed r" and "r' = r \<or> \<not> open_capability r'"
  shows "fingerprinted H r'"
  using assms(1,3) fixed_asked [OF assms(2)] asked_fingerprint [of r' r H]
  by (auto simp: fingerprinted_def asked_def split: sum.splits)

lemma shrink_settled:
  assumes "requests_shrink (capability_requests db) (capability_requests db')" and "capabilities_settled H db"
  shows "capabilities_settled H db'"
proof -
  obtain h where h: "capability_requests db' = map h (capability_requests db)"
    "\<And>r. request_fixed (h r) = request_fixed r \<and> (h r = r \<or> \<not> open_capability (h r))"
    using assms(1) by (auto simp: requests_shrink_def)
  have "fingerprinted H (h r)" if "r \<in> set (capability_requests db)" for r
    using fingerprinted_shrink [of H r "h r"] h(2) [of r] assms(2) that by (simp add: capabilities_settled_def)
  moreover have "distinct (map cr_request_fingerprint (filter open_capability (map h (capability_requests db))))"
  proof (rule distinct_shrink)
    show "distinct (map cr_request_fingerprint (filter open_capability (capability_requests db)))"
      using assms(2) by (simp add: capabilities_settled_def sql_select_def)
    show "cr_request_fingerprint (h r) = cr_request_fingerprint r" for r using h(2) [of r] fixed_asked by blast
    show "open_capability r" if "open_capability (h r)" for r using h(2) [of r] that by metis
  qed
  ultimately show ?thesis by (auto simp: capabilities_settled_def h(1) sql_select_def)
qed

lemma shrink_ids:
  assumes "requests_shrink t t'"
  shows "map cr_id t' = map cr_id t"
proof -
  obtain h where h: "t' = map h t" "\<And>r. request_fixed (h r) = request_fixed r"
    using assms by (auto simp: requests_shrink_def)
  have "cr_id (h r) = cr_id r" for r by (rule request_fixedD(1)) (rule h(2))
  then show ?thesis by (simp add: h(1))
qed

text \<open>What one step does to the rows of its identifier, and to the others.\<close>

definition rows_fingerprinted :: "(string \<Rightarrow> string) \<Rightarrow> string set \<Rightarrow> 'z startup_db_scheme \<Rightarrow> 'z startup_db_scheme \<Rightarrow> bool" where
  "rows_fingerprinted H I db db' \<longleftrightarrow> (\<exists>h. capability_requests db' = map h (capability_requests db) \<and>
    (\<forall>x \<in> set (capability_requests db). asked (h x) = asked x \<and>
      (if cr_id x \<in> I then fingerprinted H (h x) else h x = x)))"

lemma rows_fingerprinted_trans:
  assumes "rows_fingerprinted H I a b" and "rows_fingerprinted H I' b c"
  shows "rows_fingerprinted H (I \<union> I') a c"
proof -
  obtain h where h: "capability_requests b = map h (capability_requests a)"
    "\<And>x. x \<in> set (capability_requests a) \<Longrightarrow> asked (h x) = asked x \<and> (if cr_id x \<in> I then fingerprinted H (h x) else h x = x)"
    using assms(1) by (auto simp: rows_fingerprinted_def)
  obtain h' where h': "capability_requests c = map h' (capability_requests b)"
    "\<And>x. x \<in> set (capability_requests b) \<Longrightarrow> asked (h' x) = asked x \<and> (if cr_id x \<in> I' then fingerprinted H (h' x) else h' x = x)"
    using assms(2) by (auto simp: rows_fingerprinted_def)
  have "asked (h' (h x)) = asked x \<and> (if cr_id x \<in> I \<union> I' then fingerprinted H (h' (h x)) else h' (h x) = x)"
    if "x \<in> set (capability_requests a)" for x
    using h(2) [OF that] h'(2) [of "h x"] that by (auto simp: h(1) asked_def split: if_split_asm)
  then show ?thesis unfolding rows_fingerprinted_def using h(1) h'(1)
    by (intro exI [of _ "h' \<circ> h"]) (auto simp del: Un_iff)
qed

lemma reconcile_fingerprint_rows:
  fixes db :: "'z startup_db_scheme"
  assumes "reconcile_fingerprint env indexed r db = Inr db'" and "distinct (map cr_id (capability_requests db))"
    and "asked r \<in> asked ` set (capability_requests db)"
  shows "rows_fingerprinted (env_sha256 (re_board env)) {cr_id r} db db' \<and> rest_frame db db'"
proof -
  let ?H = "env_sha256 (re_board env)"
  let ?set = "\<lambda>f. sql_update (\<lambda>x. cr_id x = cr_id r) (\<lambda>x. x\<lparr>cr_request_fingerprint := f\<rparr>) (capability_requests db)"
  obtain r0 where r0: "r0 \<in> set (capability_requests db)" "asked r0 = asked r" using assms(3) by auto
  have same: "recomputed_fingerprint ?H x = recomputed_fingerprint ?H r" if "x \<in> set (capability_requests db)" "cr_id x = cr_id r" for x
  proof -
    have "x = r0" using distinct_key_eq [OF assms(2) that(1) r0(1)] that(2) r0(2) by (simp add: asked_def)
    then show ?thesis using asked_fingerprint [OF r0(2)] by simp
  qed
  have fp: "recomputed_fingerprint ?H (x\<lparr>cr_request_fingerprint := f\<rparr>) = recomputed_fingerprint ?H x" for x f
    by (rule asked_fingerprint) (simp add: asked_def)
  show ?thesis
  proof (cases "recomputed_fingerprint ?H r")
    case (Inr f)
    have db': "db' = db\<lparr>capability_requests := ?set f\<rparr>"
      using assms(1) Inr by (simp add: reconcile_fingerprint_def set_fingerprint_def Let_def split: if_split_asm)
    have "rows_fingerprinted ?H {cr_id r} db db'" unfolding rows_fingerprinted_def db'
      by (rule exI [of _ "\<lambda>x. if cr_id x = cr_id r then x\<lparr>cr_request_fingerprint := f\<rparr> else x"])
        (auto simp: sql_update_def asked_def fingerprinted_def fp same Inr)
    then show ?thesis by (simp add: db' rest_frame_def)
  next
    case (Inl e)
    let ?f = "invalid_fingerprint ?H (cr_id r)"
    let ?db1 = "db\<lparr>capability_requests := ?set ?f\<rparr>"
    have c: "cancel_capability_for_migration env ''capability request has invalid canonical arguments''
           ''migration-invalid-binding'' r ?db1 = Inr db'"
      using assms(1) Inl
      by (simp add: reconcile_fingerprint_def set_fingerprint_def Let_def invalid_fingerprint_def split: if_split_asm)
    have ids: "map cr_id (?set ?f) = map cr_id (capability_requests db)" by (simp add: map_sql_update)
    let ?hit = "\<lambda>x. cr_id x = cr_id r \<and> open_capability x"
    let ?g = "\<lambda>x. if cr_id x = cr_id r then x\<lparr>cr_request_fingerprint := ?f\<rparr> else x"
    let ?h = "\<lambda>x. if ?hit (?g x) then cancelled_request (re_now env) (?g x) else ?g x"
    have "capability_requests db' = sql_update ?hit (cancelled_request (re_now env)) (?set ?f)"
      using cancel_capability_shape(3) [OF c] assms(2) ids by simp
    then have h: "capability_requests db' = map ?h (capability_requests db)" by (simp add: sql_update_def)
    have "asked (?h x) = asked x \<and> (if cr_id x \<in> {cr_id r} then fingerprinted ?H (?h x) else ?h x = x)"
      if x: "x \<in> set (capability_requests db)" for x
    proof (cases "cr_id x = cr_id r")
      case True
      have a: "asked (?h x) = asked x" using True by (simp add: asked_def cancelled_request_def)
      have "recomputed_fingerprint ?H (?h x) = Inl e"
        using asked_fingerprint [OF a] same [OF x True] Inl by simp
      moreover have "\<not> open_capability (?h x)" using True by simp
      moreover have "cr_request_fingerprint (?h x) = ?f" "cr_id (?h x) = cr_id r" using True by (simp_all add: cancelled_request_def)
      ultimately have "fingerprinted ?H (?h x)" unfolding fingerprinted_def by (simp only: sum.case) simp
      then show ?thesis using a True by simp
    qed simp
    then have "rows_fingerprinted ?H {cr_id r} db db'" unfolding rows_fingerprinted_def using h by blast
    then show ?thesis using cancel_capability_shape(1) [OF c] by (simp add: rest_frame_def)
  qed
qed

lemma rows_fingerprinted_asked: "rows_fingerprinted H I a b \<Longrightarrow> map asked (capability_requests b) = map asked (capability_requests a)"
  by (auto simp: rows_fingerprinted_def)

lemma asked_ids: "map asked t = map asked t' \<Longrightarrow> map cr_id t = map cr_id t'"
proof -
  assume "map asked t = map asked t'"
  then have "map fst (map asked t) = map fst (map asked t')" by simp
  then show ?thesis by (simp add: comp_def asked_def)
qed

lemma reconcile_fingerprints_rows:
  fixes db :: "'z startup_db_scheme"
  assumes "for_each (reconcile_fingerprint env indexed) rs db = Inr db'" and "distinct (map cr_id (capability_requests db))"
    and "asked ` set rs \<subseteq> asked ` set (capability_requests db)"
  shows "rows_fingerprinted (env_sha256 (re_board env)) (cr_id ` set rs) db db' \<and> rest_frame db db'"
  using assms
proof (induction rs arbitrary: db)
  case Nil
  then show ?case by (auto simp: rows_fingerprinted_def rest_frame_def intro: exI [of _ id])
next
  case (Cons r rs)
  obtain db1 where f: "reconcile_fingerprint env indexed r db = Inr db1"
    and l: "for_each (reconcile_fingerprint env indexed) rs db1 = Inr db'" using Cons.prems(1) by auto
  have one: "rows_fingerprinted (env_sha256 (re_board env)) {cr_id r} db db1" "rest_frame db db1"
    using reconcile_fingerprint_rows [OF f Cons.prems(2)] Cons.prems(3) by auto
  note a = rows_fingerprinted_asked [OF one(1)]
  have "rows_fingerprinted (env_sha256 (re_board env)) (cr_id ` set rs) db1 db' \<and> rest_frame db1 db'"
    by (rule Cons.IH [OF l]) (use Cons.prems(2,3) asked_ids [OF a] in \<open>simp_all add: set_map [symmetric] a del: set_map\<close>)
  then show ?case using rows_fingerprinted_trans [OF one(1)] one(2) by (auto simp: rest_frame_def)
qed

section \<open>The pass over capability requests\<close>

lemma distinct_sort_key: "distinct (map k (sort_key f t)) \<longleftrightarrow> distinct (map k t)"
  by (metis mset_eq_imp_distinct_iff mset_map mset_sort)

text \<open>Of the rows of a group all but the first are cancelled.\<close>

lemma cancel_list_shape:
  fixes db :: "'z startup_db_scheme"
  assumes "for_each (cancel_capability_for_migration env reason suffix) rs db = Inr db'"
    and "distinct (map cr_id (capability_requests db))"
  shows "\<exists>h. capability_requests db' = map h (capability_requests db) \<and>
    (\<forall>x. cr_id (h x) = cr_id x \<and> (h x = x \<or> \<not> open_capability (h x)) \<and> (cr_id x \<in> cr_id ` set rs \<longrightarrow> \<not> open_capability (h x)))"
  using assms
proof (induction rs arbitrary: db)
  case Nil
  then show ?case by (intro exI [of _ id]) simp
next
  case (Cons r rs)
  obtain db1 where c: "cancel_capability_for_migration env reason suffix r db = Inr db1"
    and l: "for_each (cancel_capability_for_migration env reason suffix) rs db1 = Inr db'" using Cons.prems(1) by auto
  let ?g = "\<lambda>x. if cr_id x = cr_id r \<and> open_capability x then cancelled_request (re_now env) x else x"
  have g: "capability_requests db1 = map ?g (capability_requests db)"
    using cancel_capability_shape(3) [OF c Cons.prems(2)] by (simp add: sql_update_def)
  have "map cr_id (capability_requests db1) = map cr_id (capability_requests db)" by (simp add: g)
  then have "distinct (map cr_id (capability_requests db1))" using Cons.prems(2) by simp
  then obtain h where h: "capability_requests db' = map h (capability_requests db1)"
    "\<And>x. cr_id (h x) = cr_id x \<and> (h x = x \<or> \<not> open_capability (h x)) \<and> (cr_id x \<in> cr_id ` set rs \<longrightarrow> \<not> open_capability (h x))"
    using Cons.IH [OF l] by blast
  have "cr_id (h (?g x)) = cr_id x \<and> (h (?g x) = x \<or> \<not> open_capability (h (?g x))) \<and>
      (cr_id x \<in> cr_id ` set (r # rs) \<longrightarrow> \<not> open_capability (h (?g x)))" for x
    using h(2) [of "?g x"] cancelled_request_fields [of "re_now env" x] by (auto split: if_split_asm) (metis+)?
  then show ?case using h(1) g by (intro exI [of _ "\<lambda>x. h (?g x)"]) simp
qed

lemma mem_duplicates:
  assumes "x \<in> set (capability_requests db)" and "y \<in> set (capability_requests db)" and "open_capability x"
    and "open_capability y" and "cr_request_fingerprint x = cr_request_fingerprint y" and "x \<noteq> y"
  shows "x \<in> set (duplicate_capabilities db) \<or> y \<in> set (duplicate_capabilities db)"
proof -
  let ?s = "sort_key (\<lambda>r. (cr_request_fingerprint r, capability_rank (cr_status r), cr_created_at r, cr_id r))
      (sql_select open_capability (capability_requests db))"
  let ?g = "filter (\<lambda>r. cr_request_fingerprint r = cr_request_fingerprint x) ?s"
  have mem: "x \<in> set ?g" "y \<in> set ?g" using assms(1-5) by auto
  then have "x \<in> set (tl ?g) \<or> y \<in> set (tl ?g)" using assms(6) by (cases ?g) auto
  moreover have "(cr_request_fingerprint x, ?g) \<in> set (grouped cr_request_fingerprint ?s)"
    using mem(1) by (auto simp: mem_grouped)
  then have "set (tl ?g) \<subseteq> set (duplicate_capabilities db)" unfolding duplicate_capabilities_def by force
  ultimately show ?thesis by blast
qed

lemma capabilities_pass:
  fixes db :: "'z startup_db_scheme"
  assumes "reconcile_capability_requests env indexed db = Inr db'" and "distinct (map cr_id (capability_requests db))"
  shows "capabilities_settled (env_sha256 (re_board env)) db' \<and> rest_frame db db' \<and>
    map cr_id (capability_requests db') = map cr_id (capability_requests db)"
proof -
  let ?H = "env_sha256 (re_board env)"
  obtain db1 where f: "for_each (reconcile_fingerprint env indexed)
      (sort_key (\<lambda>r. (cr_created_at r, cr_id r)) (capability_requests db)) db = Inr db1"
    and d: "for_each (cancel_capability_for_migration env ''duplicate nonterminal capability request reconciled''
      ''migration-duplicate'') (duplicate_capabilities db1) db1 = Inr db'"
    using assms(1) unfolding reconcile_capability_requests_def by auto
  have one: "rows_fingerprinted ?H (cr_id ` set (capability_requests db)) db db1" "rest_frame db db1"
    using reconcile_fingerprints_rows [OF f assms(2)] by auto
  have ids: "map cr_id (capability_requests db1) = map cr_id (capability_requests db)"
    by (rule asked_ids) (rule rows_fingerprinted_asked [OF one(1)])
  then have dist: "distinct (map cr_id (capability_requests db1))" using assms(2) by simp
  have good: "\<forall>r \<in> set (capability_requests db1). fingerprinted ?H r"
    using one(1) by (auto simp: rows_fingerprinted_def)
  note sf = cancel_capabilities_startup [OF d, unfolded startup_frame_def]
  obtain h where h: "capability_requests db' = map h (capability_requests db1)"
    "\<And>x. cr_id (h x) = cr_id x \<and> (h x = x \<or> \<not> open_capability (h x)) \<and>
      (cr_id x \<in> cr_id ` set (duplicate_capabilities db1) \<longrightarrow> \<not> open_capability (h x))"
    using cancel_list_shape [OF d dist] by blast
  have still: "x \<in> set (capability_requests db1) \<and> x \<notin> set (duplicate_capabilities db1)"
    if x: "x \<in> set (capability_requests db')" "open_capability x" for x
  proof -
    obtain y where y: "y \<in> set (capability_requests db1)" "x = h y" using x(1) h(1) by auto
    then have "x = y" using h(2) [of y] x(2) by auto
    then show ?thesis using y h(2) [of y] x(2) by auto
  qed
  have same: "map cr_id (capability_requests db') = map cr_id (capability_requests db1)"
    by (rule shrink_ids) (use sf in simp)
  then have "distinct (capability_requests db')" using dist by (metis distinct_map)
  then have "distinct (sql_select open_capability (capability_requests db'))" by (simp add: sql_select_def)
  moreover have "inj_on cr_request_fingerprint (set (sql_select open_capability (capability_requests db')))"
  proof (rule inj_onI)
    fix x y
    assume x: "x \<in> set (sql_select open_capability (capability_requests db'))" and y: "y \<in> set (sql_select open_capability (capability_requests db'))"
      and e: "cr_request_fingerprint x = cr_request_fingerprint y"
    show "x = y" using still [of x] still [of y] x y mem_duplicates [of x db1 y] e by auto
  qed
  ultimately have "distinct (map cr_request_fingerprint (sql_select open_capability (capability_requests db')))"
    by (simp add: distinct_map)
  moreover have "\<forall>r \<in> set (capability_requests db'). fingerprinted ?H r"
  proof -
    obtain k where k: "capability_requests db' = map k (capability_requests db1)"
      "\<And>r. request_fixed (k r) = request_fixed r \<and> (k r = r \<or> \<not> open_capability (k r))"
      using sf by (auto simp: requests_shrink_def)
    have "fingerprinted ?H (k r)" if "r \<in> set (capability_requests db1)" for r
      using fingerprinted_shrink [of ?H r "k r"] good k(2) [of r] that by blast
    then show ?thesis by (simp add: k(1))
  qed
  moreover have "map cr_id (capability_requests db') = map cr_id (capability_requests db)"
    using same ids by simp
  moreover have "rest_frame db db'" using one(2) sf by (auto simp: rest_frame_def)
  ultimately show ?thesis by (simp add: capabilities_settled_def)
qed

text \<open>What is settled stays as it is.\<close>

lemma set_fingerprint_same:
  assumes "distinct (map cr_id (capability_requests db))" and "r \<in> set (capability_requests db)"
    and "distinct (map cr_request_fingerprint (sql_select open_capability (capability_requests db)))"
  shows "set_fingerprint indexed (cr_request_fingerprint r) r db = Inr db"
proof -
  have "(if cr_id x = cr_id r then x\<lparr>cr_request_fingerprint := cr_request_fingerprint r\<rparr> else x) = x"
    if "x \<in> set (capability_requests db)" for x
  proof (cases "cr_id x = cr_id r")
    case True
    then have "x = r" using distinct_key_eq [OF assms(1) that assms(2)] by simp
    then show ?thesis by (cases r) simp
  qed simp
  then have "sql_update (\<lambda>x. cr_id x = cr_id r) (\<lambda>x. x\<lparr>cr_request_fingerprint := cr_request_fingerprint r\<rparr>) (capability_requests db) =
    capability_requests db" unfolding sql_update_def by (rule map_idI)
  then show ?thesis using assms(3) by (simp add: set_fingerprint_def)
qed

lemma capabilities_settled_pass:
  fixes db :: "'z startup_db_scheme"
  assumes "capabilities_settled (env_sha256 (re_board env)) db" and "distinct (map cr_id (capability_requests db))"
  shows "reconcile_capability_requests env indexed db = Inr db"
proof -
  have d: "distinct (map cr_request_fingerprint (sql_select open_capability (capability_requests db)))"
    using assms(1) by (simp add: capabilities_settled_def)
  have "reconcile_fingerprint env indexed r db = Inr db" if "r \<in> set (capability_requests db)" for r
  proof -
    note s = set_fingerprint_same [OF assms(2) that d, of indexed]
    have f: "fingerprinted (env_sha256 (re_board env)) r" using assms(1) that by (simp add: capabilities_settled_def)
    show ?thesis
    proof (cases "recomputed_fingerprint (env_sha256 (re_board env)) r")
      case (Inl e)
      then have o: "\<not> open_capability r" and fp: "cr_request_fingerprint r =
          ''sha256:'' @ env_sha256 (re_board env) (''invalid-capability-request:'' @ cr_id r)"
        using f by (simp_all add: fingerprinted_def invalid_fingerprint_def)
      have "\<not> open_capability x" if "x \<in> set (capability_requests db)" "cr_id x = cr_id r" for x
        using distinct_key_eq [OF assms(2) that(1) \<open>r \<in> _\<close> that(2)] o by simp
      then have "sql_rowcount (\<lambda>x. cr_id x = cr_id r \<and> open_capability x) (capability_requests db) = 0"
        by (auto simp: sql_rowcount_0_iff)
      then show ?thesis using s unfolding fp
        by (simp add: reconcile_fingerprint_def Inl cancel_capability_for_migration_def)
    next
      case (Inr fp)
      then show ?thesis using f s by (simp add: reconcile_fingerprint_def fingerprinted_def)
    qed
  qed
  then have first: "for_each (reconcile_fingerprint env indexed)
      (sort_key (\<lambda>r. (cr_created_at r, cr_id r)) (capability_requests db)) db = Inr db"
    by (intro for_each_id) simp
  have "tl rows = []" if "(f, rows) \<in> set (grouped cr_request_fingerprint
      (sort_key (\<lambda>r. (cr_request_fingerprint r, capability_rank (cr_status r), cr_created_at r, cr_id r))
        (sql_select open_capability (capability_requests db))))" for f rows
  proof (cases rows)
    case (Cons r rs)
    let ?s = "sort_key (\<lambda>r. (cr_request_fingerprint r, capability_rank (cr_status r), cr_created_at r, cr_id r))
        (sql_select open_capability (capability_requests db))"
    have rows: "rows = filter (\<lambda>r. cr_request_fingerprint r = f) ?s" using that by (simp add: mem_grouped)
    then have "r \<in> set (filter (\<lambda>r. cr_request_fingerprint r = f) ?s)" using Cons by (metis list.set_intros(1))
    then have r: "r \<in> set ?s" "f = cr_request_fingerprint r" by auto
    have "rows = [r]" unfolding rows r(2)
      by (rule filter_key_single [OF _ r(1)]) (use d in \<open>simp add: distinct_sort_key\<close>)
    then show ?thesis by simp
  qed simp
  then have "duplicate_capabilities db = []" unfolding duplicate_capabilities_def by auto
  then show ?thesis by (simp add: reconcile_capability_requests_def first)
qed

end
