(* ===== verification/Startup_Safety.thy ===== *)
theory Startup_Safety
  imports Startup_Capabilities
begin

text \<open>
  What a start leaves: jobs, tasks and capability requests agree, what the last process was executing has
  failed and is not taken up again, and a second start finds nothing to do.
\<close>

section \<open>Interrupted tool calls\<close>

text \<open>A call stays as it is, or was waiting or running and has failed.\<close>

definition calls_fail :: "tool_call_row list \<Rightarrow> tool_call_row list \<Rightarrow> bool" where
  "calls_fail = list_all2 (\<lambda>c c'. c' = c \<or>
    (tc_status c = Tool_Running \<or> tc_status c = Tool_Queued) \<and> (\<exists>s now. c' = failed_call s now c))"

definition tasks_fail :: "task_row list \<Rightarrow> task_row list \<Rightarrow> bool" where
  "tasks_fail = list_all2 (\<lambda>t t'. tk_id t' = tk_id t \<and> (t' = t \<or> tk_status t' = Task_Failed))"

lemma failed_call_fields [simp]: "tc_status (failed_call s now c) = Tool_Failed" "tc_id (failed_call s now c) = tc_id c"
  by (simp_all add: failed_call_def)

lemma interrupted_task_fields [simp]: "tk_status (interrupted_task s now t) = Task_Failed" "tk_id (interrupted_task s now t) = tk_id t"
  by (simp_all add: interrupted_task_def)

lemma fail_refl [simp]: "calls_fail t t" "tasks_fail u u"
  by (simp_all add: calls_fail_def tasks_fail_def list.rel_refl)

lemma calls_fail_trans: "calls_fail a b \<Longrightarrow> calls_fail b c \<Longrightarrow> calls_fail a c"
  unfolding calls_fail_def by (erule (1) list_all2_trans [rotated]) auto

lemma tasks_fail_trans: "tasks_fail a b \<Longrightarrow> tasks_fail b c \<Longrightarrow> tasks_fail a c"
  unfolding tasks_fail_def by (erule (1) list_all2_trans [rotated]) auto

lemma calls_fail_mem: "calls_fail t t' \<Longrightarrow> c \<in> set t' \<Longrightarrow> tc_status c \<noteq> Tool_Failed \<Longrightarrow> c \<in> set t"
  unfolding calls_fail_def by (induction rule: list_all2_induct) auto

lemma calls_fail_kept: "calls_fail t t' \<Longrightarrow> c \<in> set t \<Longrightarrow> tc_status c = Tool_Failed \<Longrightarrow> c \<in> set t'"
  unfolding calls_fail_def by (induction rule: list_all2_induct) auto

lemma tasks_fail_mem: "tasks_fail t t' \<Longrightarrow> x \<in> set t' \<Longrightarrow> tk_status x \<noteq> Task_Failed \<Longrightarrow> x \<in> set t"
  unfolding tasks_fail_def by (induction rule: list_all2_induct) auto

lemma tasks_fail_ids: "tasks_fail t t' \<Longrightarrow> map tk_id t' = map tk_id t"
  unfolding tasks_fail_def by (induction rule: list_all2_induct) auto

lemma tasks_fail_row:
  "tasks_fail t t' \<Longrightarrow> row_by tk_id k t' = row_by tk_id k t \<or> (\<exists>x. row_by tk_id k t' = Some x \<and> tk_status x = Task_Failed)"
  unfolding tasks_fail_def by (induction rule: list_all2_induct) (auto simp: sql_select_def)

text \<open>Only calls, tasks and the audit log are written.\<close>

definition calls_frame :: "'z startup_db_scheme \<Rightarrow> 'z startup_db_scheme \<Rightarrow> bool" where
  "calls_frame db db' \<longleftrightarrow> agent_jobs db' = agent_jobs db \<and> rest_frame db db' \<and>
    capability_requests db' = capability_requests db \<and> calls_fail (tool_calls db) (tool_calls db') \<and>
    tasks_fail (tasks db) (tasks db')"

lemma calls_frame_refl [simp]: "calls_frame db db"
  by (simp add: calls_frame_def rest_frame_def)

lemma calls_frame_trans [trans]: "calls_frame a b \<Longrightarrow> calls_frame b c \<Longrightarrow> calls_frame a c"
  by (auto simp: calls_frame_def rest_frame_def intro: calls_fail_trans tasks_fail_trans)

lemma tasks_fail_update: "tasks_fail t (sql_update P (interrupted_task s now) t)"
  unfolding tasks_fail_def by (rule list_all2_sql_update) simp_all

lemma calls_fail_update:
  "(\<And>c. P c \<Longrightarrow> tc_status c = Tool_Running \<or> tc_status c = Tool_Queued) \<Longrightarrow> calls_fail t (sql_update P (failed_call s now) t)"
  unfolding calls_fail_def by (rule list_all2_sql_update) auto

lemma fail_running_frame: "calls_frame db (fail_running now db)"
proof -
  have "tasks_fail t (fold (\<lambda>k. sql_update (\<lambda>t. tk_id t = k \<and> tk_status t = Task_Running) (interrupted_task Stage_Running now)) ks t)"
    for ks t
  proof (induction ks arbitrary: t)
    case (Cons k ks)
    show ?case unfolding fold_simps by (rule tasks_fail_trans [OF tasks_fail_update Cons.IH])
  qed simp
  then show ?thesis by (simp add: fail_running_def calls_frame_def rest_frame_def calls_fail_update)
qed

lemma fail_queued_frame: "calls_frame db (fail_queued now call db)"
  by (cases call) (auto simp: fail_queued_def calls_frame_def rest_frame_def intro: calls_fail_update tasks_fail_update)

lemma interruption_audit_frame: "calls_frame db (interruption_audit env call db)"
  by (cases call) (simp add: interruption_audit_def calls_frame_def rest_frame_def append_audit_event_def Let_def subset_insertI)

lemma fold_frame:
  fixes db :: "'z startup_db_scheme"
  assumes "\<And>x db. calls_frame (db :: 'z startup_db_scheme) (f x db)"
  shows "calls_frame db (fold f xs db)"
proof (induction xs arbitrary: db)
  case (Cons x xs)
  show ?case unfolding fold_simps by (rule calls_frame_trans [OF assms Cons.IH])
qed simp

lemma fail_interrupted_frame: "calls_frame db (fail_interrupted env1 env2 env3 db)"
  unfolding fail_interrupted_def Let_def
  by (intro calls_frame_trans [OF calls_frame_trans [OF fail_running_frame fold_frame] fold_frame]
      fail_queued_frame interruption_audit_frame)

lemma running_calls_failed:
  assumes "c \<in> set (tool_calls db)" and "tc_status c = Tool_Running"
  shows "failed_call Stage_Running now c \<in> set (tool_calls (fail_running now db))"
  using assms by (auto simp: fail_running_def running_calls_def sql_update_def sql_select_def filter_empty_conv)

lemma no_running_after: "c \<in> set (tool_calls (fail_running now db)) \<Longrightarrow> tc_status c \<noteq> Tool_Running"
  by (auto simp: fail_running_def running_calls_def sql_update_def sql_select_def filter_empty_conv split: if_split_asm)

lemma mem_sql_update: "x \<in> set (sql_update P f t) \<Longrightarrow> \<exists>y \<in> set t. x = (if P y then f y else y)"
  unfolding sql_update_def set_map by blast

lemma queued_calls_failed:
  fixes db :: "'z startup_db_scheme"
  assumes "(i, k, s) \<in> set qs" and "c \<in> set (tool_calls (fold (fail_queued now) qs db))" and "tc_id c = i" and "tc_task_id c = k"
  shows "tc_status c \<noteq> Tool_Queued"
  using assms
proof (induction qs arbitrary: db)
  case (Cons p qs)
  show ?case
  proof (cases "p = (i, k, s)")
    case True
    show ?thesis
    proof
      assume q: "tc_status c = Tool_Queued"
      have "calls_frame (fail_queued now p db) (fold (fail_queued now) qs (fail_queued now p db))"
        by (rule fold_frame) (rule fail_queued_frame)
      then have "calls_fail (tool_calls (fail_queued now p db)) (tool_calls (fold (fail_queued now) qs (fail_queued now p db)))"
        by (simp add: calls_frame_def)
      then have "c \<in> set (tool_calls (fail_queued now p db))"
        by (rule calls_fail_mem) (use Cons.prems(2) q in simp_all)
      then obtain x where "c = (if tc_id x = i \<and> tc_task_id x = k \<and> tc_status x = Tool_Queued then failed_call s now x else x)"
        unfolding True fail_queued_def Let_def prod.case by (auto simp del: if_split dest!: mem_sql_update)
      then show False using q Cons.prems(3,4) by (simp split: if_split_asm)
    qed
  next
    case False
    then show ?thesis using Cons.IH [of "fail_queued now p db"] Cons.prems by simp
  qed
qed simp

lemma mem_queued_calls:
  assumes "c \<in> set (tool_calls db)" and "tc_status c = Tool_Queued" and "t \<in> set (tasks db)" and "tk_id t = tc_task_id c"
    and "tk_status t = Task_Queued"
  shows "\<exists>s. (tc_id c, tc_task_id c, s) \<in> set (queued_calls db)"
proof -
  have "\<exists>s. (tc_id c, tc_task_id c, s) \<in> set (map (\<lambda>t. (tc_id c, tc_task_id c,
        case tc_approval_id c of None \<Rightarrow> Stage_Queued
        | Some i \<Rightarrow> (case row_by ap_id i (approvals db) of None \<Rightarrow> Stage_Queued
            | Some a \<Rightarrow> if ap_status a = Approval_Approved then Stage_Approved else Stage_Queued)))
      (sql_select (\<lambda>t. tk_id t = tc_task_id c \<and> tk_status t = Task_Queued) (tasks db)))"
    using assms(3-5) by auto
  then show ?thesis using assms(1,2) unfolding queued_calls_def by auto
qed

text \<open>After the failures no call is running, and none waits for a task that does.\<close>

definition no_local_work :: "'z approval_db_scheme \<Rightarrow> bool" where
  "no_local_work db \<longleftrightarrow> (\<forall>c \<in> set (tool_calls db). tc_status c \<noteq> Tool_Running \<and>
    (tc_status c = Tool_Queued \<longrightarrow> (\<forall>t \<in> set (tasks db). tk_id t = tc_task_id c \<longrightarrow> tk_status t \<noteq> Task_Queued)))"

lemma fail_interrupted_done:
  fixes db :: "'z startup_db_scheme"
  shows "no_local_work (fail_interrupted env1 env2 env3 db)"
proof -
  define db1 where "db1 = fail_running (re_now env1) db"
  define db2 where "db2 = fold (fail_queued (re_now env2)) (queued_calls db1) db1"
  let ?db3 = "fail_interrupted env1 env2 env3 db"
  have db3: "?db3 = fold (interruption_audit env3) (running_calls db @ queued_calls db1) db2"
    by (simp add: fail_interrupted_def Let_def db1_def db2_def)
  have f12: "calls_frame db1 db2" unfolding db2_def by (rule fold_frame) (rule fail_queued_frame)
  have f23: "calls_frame db2 ?db3" unfolding db3 by (rule fold_frame) (rule interruption_audit_frame)
  note f13 = calls_frame_trans [OF f12 f23]
  have "tc_status c \<noteq> Tool_Running" if "c \<in> set (tool_calls ?db3)" for c
  proof
    assume r: "tc_status c = Tool_Running"
    then have "c \<in> set (tool_calls db1)" using that f13 calls_fail_mem by (fastforce simp: calls_frame_def)
    then show False using no_running_after r by (auto simp: db1_def)
  qed
  moreover have "tk_status t \<noteq> Task_Queued" if c: "c \<in> set (tool_calls ?db3)" "tc_status c = Tool_Queued"
    and t: "t \<in> set (tasks ?db3)" "tk_id t = tc_task_id c" for c t
  proof
    assume q: "tk_status t = Task_Queued"
    have c2: "c \<in> set (tool_calls db2)" using c f23 calls_fail_mem by (fastforce simp: calls_frame_def)
    have "c \<in> set (tool_calls db1)" using c f13 calls_fail_mem by (fastforce simp: calls_frame_def)
    moreover have "t \<in> set (tasks db1)" using t(1) q f13 tasks_fail_mem by (fastforce simp: calls_frame_def)
    ultimately obtain s where "(tc_id c, tc_task_id c, s) \<in> set (queued_calls db1)"
      using mem_queued_calls c(2) t(2) q by blast
    then show False using queued_calls_failed [OF _ c2 [unfolded db2_def]] c(2) by blast
  qed
  ultimately show ?thesis by (simp add: no_local_work_def)
qed

lemma no_local_work_done:
  fixes db :: "'z startup_db_scheme"
  assumes "no_local_work db"
  shows "fail_interrupted env1 env2 env3 db = db"
proof -
  have r: "running_calls db = []" using assms by (auto simp: no_local_work_def running_calls_def sql_select_def filter_empty_conv)
  have "set (queued_calls db) = {}" using assms by (auto simp: no_local_work_def queued_calls_def)
  then have q: "queued_calls db = []" by simp
  show ?thesis by (simp add: fail_interrupted_def Let_def r q fail_running_def)
qed

text \<open>What the audit log is told of a call that was running.\<close>

definition interruption_noted :: "tool_call_row \<Rightarrow> audit_row \<Rightarrow> bool" where
  "interruption_noted c a \<longleftrightarrow> ae_event_type a = ''execution.interrupted'' \<and> ae_task_id a = Some (tc_task_id c) \<and>
    ae_payload_json a = json_dumps (JObj [(''tool_call_id'', JStr (tc_id c)), (''stage'', JStr ''running''),
      (''outcome'', JStr ''uncertain''), (''retry'', JBool False)])"

lemma interruption_audited:
  fixes db :: "'z startup_db_scheme"
  assumes "(tc_id c, tc_task_id c, Stage_Running) \<in> set calls"
  shows "\<exists>a \<in> set (audit_events (fold (interruption_audit env) calls db)). interruption_noted c a"
  using assms
proof (induction calls arbitrary: db)
  case (Cons x calls)
  show ?case
  proof (cases "x = (tc_id c, tc_task_id c, Stage_Running)")
    case True
    have "\<exists>a \<in> set (audit_events (interruption_audit env x db)). interruption_noted c a"
      by (simp add: True interruption_audit_def append_audit_event_def Let_def interruption_noted_def stage_name_def del: json_dumps.simps)
    moreover have "calls_frame (interruption_audit env x db) (fold (interruption_audit env) calls (interruption_audit env x db))"
      by (rule fold_frame) (rule interruption_audit_frame)
    ultimately show ?thesis by (auto simp: calls_frame_def rest_frame_def)
  qed (use Cons in simp)
qed simp

lemma running_call_interrupted:
  fixes db :: "'z startup_db_scheme"
  assumes "c \<in> set (tool_calls db)" and "tc_status c = Tool_Running"
  shows "failed_call Stage_Running (re_now env1) c \<in> set (tool_calls (fail_interrupted env1 env2 env3 db))"
    "\<exists>a \<in> set (audit_events (fail_interrupted env1 env2 env3 db)). interruption_noted c a"
proof -
  let ?db1 = "fail_running (re_now env1) db"
  have "calls_frame ?db1 (fail_interrupted env1 env2 env3 db)"
    unfolding fail_interrupted_def Let_def
    by (intro calls_frame_trans [OF fold_frame fold_frame] fail_queued_frame interruption_audit_frame)
  then show "failed_call Stage_Running (re_now env1) c \<in> set (tool_calls (fail_interrupted env1 env2 env3 db))"
    using calls_fail_kept [OF _ running_calls_failed [OF assms]] by (simp add: calls_frame_def)
  show "\<exists>a \<in> set (audit_events (fail_interrupted env1 env2 env3 db)). interruption_noted c a"
    unfolding fail_interrupted_def Let_def by (rule interruption_audited) (use assms in \<open>auto simp: running_calls_def\<close>)
qed

section \<open>The steps of a start\<close>

lemma reconcile_capabilities_work:
  fixes db :: "'z startup_db_scheme"
  assumes "reconcile_capability_requests env indexed db = Inr db'"
  shows "work_frame db db'"
proof -
  have "work_frame a b" if "reconcile_fingerprint env indexed r a = Inr b" for r and a b :: "'z startup_db_scheme"
    using that unfolding reconcile_fingerprint_def set_fingerprint_def Let_def
    by (auto split: sum.split_asm if_split_asm dest!: cancel_capability_work simp: work_frame_def)
  then show ?thesis
    using assms unfolding reconcile_capability_requests_def
    by (elim and_then_InrE) (rule work_frame_trans [OF for_each_invariant [where P = "work_frame db", OF _ work_frame_refl]
        cancel_capabilities_work], auto intro: work_frame_trans)
qed

text \<open>The keys of the tables, which the schema enforces.\<close>

definition startup_keys :: "'z job_db_scheme \<Rightarrow> bool" where
  "startup_keys db \<longleftrightarrow> distinct (map aj_id (agent_jobs db)) \<and> distinct (map tk_id (tasks db)) \<and>
    distinct (map cr_id (capability_requests db)) \<and> aj_task_id ` set (agent_jobs db) \<subseteq> tk_id ` set (tasks db)"

lemma startup_keys_iff: "startup_keys db \<longleftrightarrow> keyed db \<and> jobs_have_tasks db \<and> distinct (map cr_id (capability_requests db))"
  by (auto simp: startup_keys_def keyed_def jobs_have_tasks_def)

lemma pass_startup_keys:
  fixes db :: "'z startup_db_scheme"
  assumes "reconcile_agent_jobs env db = Inr db'" and "startup_keys db"
  shows "startup_keys db'"
proof -
  have k: "keyed db" "jobs_have_tasks db" using assms(2) by (simp_all add: startup_keys_iff)
  have "map cr_id (capability_requests db') = map cr_id (capability_requests db)"
    using pass_startup [OF assms(1)] shrink_ids by (auto simp: startup_frame_def)
  then show ?thesis using same_keysD [OF pass_agrees(2) [OF assms(1) k]] assms(2) by (simp add: startup_keys_iff)
qed

lemma calls_startup_keys:
  assumes "calls_frame db db'" and "startup_keys db"
  shows "startup_keys db'"
proof -
  have t: "map tk_id (tasks db') = map tk_id (tasks db)" using assms(1) tasks_fail_ids by (auto simp: calls_frame_def)
  have "tk_id ` set (tasks db') = tk_id ` set (tasks db)" using arg_cong [OF t, of set] by simp
  then show ?thesis using assms t by (simp add: calls_frame_def startup_keys_def)
qed

lemma agrees_distinct:
  assumes "\<And>k. task_agrees db k" and "distinct (map aj_id (agent_jobs db))"
  shows "distinct (map aj_task_id (sql_select (\<lambda>j. job_active (aj_status j)) (agent_jobs db)))"
proof -
  have "inj_on aj_task_id (set (sql_select (\<lambda>j. job_active (aj_status j)) (agent_jobs db)))"
  proof (rule inj_onI)
    fix x y
    assume x: "x \<in> set (sql_select (\<lambda>j. job_active (aj_status j)) (agent_jobs db))"
      and y: "y \<in> set (sql_select (\<lambda>j. job_active (aj_status j)) (agent_jobs db))" and e: "aj_task_id x = aj_task_id y"
    have "x \<in> set (active_of (aj_task_id x) db)" "y \<in> set (active_of (aj_task_id x) db)" using x y e by (simp_all add: in_active_of)
    then show "x = y" using assms(1) [of "aj_task_id x"] by (auto simp: task_agrees_def)
  qed
  moreover have "distinct (agent_jobs db)" using assms(2) by (simp add: distinct_map)
  ultimately show ?thesis by (simp add: distinct_map sql_select_def)
qed

lemma startup_steps:
  fixes db :: "'z startup_db_scheme"
  assumes "startup_recovery env indexed version db = Inr db'" and "startup_keys db"
  obtains db1 db2 db3 db4 where "tool_calls db1 = tool_calls db" "startup_keys db1" "\<forall>k. task_agrees db1 k"
    "work_frame db1 db2" "create_indexes db2 = Inr ()" "capabilities_settled (env_sha256 (re_board (env 2))) db2"
    "work_frame db2 db3" "startup_keys db3" "rest_frame db2 db3" "capability_requests db3 = capability_requests db2"
    "outbox_metrics_singleton db3 \<noteq> None"
    "reconcile_agent_jobs (env 6) (fail_interrupted (env 3) (env 4) (env 5) db3) = Inr db4"
    "db' = db4 \<or> (\<exists>m. db' = db4\<lparr>job_metrics := Some m\<rparr>)" "job_metrics db' \<noteq> None"
proof -
  let ?seed = "job_metrics db = None"
  let ?db0 = "db\<lparr>outbox_metrics_singleton := (case outbox_metrics_singleton db of
               None \<Rightarrow> Some \<lparr>om_claim_expirations = 0, om_duplicate_publications = 0, om_latency_count = 0,
                 om_latency_total = 0, om_latency_max = 0, om_updated_at = None\<rparr>
             | m \<Rightarrow> m),
           job_metrics := (if ?seed then Some \<lparr>jm_lease_expirations = 0, jm_retries = 0, jm_dead_letter_events = 0,
             jm_updated_at = Some (re_now (env 0))\<rparr> else job_metrics db)\<rparr>"
  obtain db1 db2 u db4 where p1: "reconcile_agent_jobs (env 1) ?db0 = Inr db1"
    and c: "reconcile_capability_requests (env 2) indexed db1 = Inr db2" and i: "create_indexes db2 = Inr u"
    and p2: "reconcile_agent_jobs (env 6) (fail_interrupted (env 3) (env 4) (env 5)
      (if version < 23 then db2\<lparr>pairing_codes := [], pairing_candidates := []\<rparr> else db2)) = Inr db4"
    and e: "db' = (if ?seed then db4\<lparr>job_metrics := Some (historical_metrics (re_now (env 7)) (audit_events db4))\<rparr> else db4)"
    using assms(1) unfolding startup_recovery_def Let_def by (elim and_then_InrE) (rule that, assumption+, rule sum.inject(2) [THEN iffD1, symmetric], assumption)
  let ?db3 = "if version < 23 then db2\<lparr>pairing_codes := [], pairing_candidates := []\<rparr> else db2"
  have k0: "startup_keys ?db0" using assms(2) by (simp add: startup_keys_def)
  have k1: "startup_keys db1" by (rule pass_startup_keys [OF p1 k0])
  have kk: "keyed ?db0" "jobs_have_tasks ?db0" using k0 by (simp_all add: startup_keys_iff)
  note a1 = pass_agrees [OF p1 kk]
  note s1 = pass_startup [OF p1]
  have cap: "capabilities_settled (env_sha256 (re_board (env 2))) db2" "rest_frame db1 db2"
    "map cr_id (capability_requests db2) = map cr_id (capability_requests db1)"
    using capabilities_pass [OF c] k1 by (simp_all add: startup_keys_def)
  note w2 = reconcile_capabilities_work [OF c]
  have k3: "startup_keys ?db3" using k1 w2 cap(3) by (simp add: startup_keys_def work_frame_def)
  have w3: "work_frame db2 ?db3" "rest_frame db2 ?db3" "capability_requests ?db3 = capability_requests db2"
    by (simp_all add: work_frame_def rest_frame_def)
  have m: "outbox_metrics_singleton ?db3 \<noteq> None" "job_metrics ?db3 \<noteq> None"
    using s1 cap(2) w3(2) by (auto simp: startup_frame_def rest_frame_def split: option.split_asm)
  have f: "rest_frame ?db3 (fail_interrupted (env 3) (env 4) (env 5) ?db3)"
    using fail_interrupted_frame [of ?db3] unfolding calls_frame_def by blast
  have m4: "job_metrics db4 \<noteq> None" using pass_startup [OF p2] f m(2) by (simp add: startup_frame_def rest_frame_def)
  have e4: "db' = db4 \<or> (\<exists>m. db' = db4\<lparr>job_metrics := Some m\<rparr>)"
    unfolding e by (cases ?seed) (simp_all only: if_True if_False simp_thms, blast)
  have e5: "job_metrics db' \<noteq> None" unfolding e using m4 by (cases ?seed) simp_all
  show ?thesis
  proof (rule that [of db1 db2 ?db3 db4])
    show "tool_calls db1 = tool_calls db" using a1(3) by simp
    show "\<forall>k. task_agrees db1 k" using a1(1) by blast
    show "create_indexes db2 = Inr ()" using i by simp
  qed (fact k1 w2 cap(1) w3(1) k3 w3(2) w3(3) m(1) p2 e4 e5)+
qed

section \<open>What a start leaves\<close>

lemma startup_end:
  fixes db :: "'z startup_db_scheme"
  assumes "startup_recovery env indexed version db = Inr db'" and "startup_keys db"
  shows "settled db'" "startup_keys db'"
    "capabilities_settled (env_sha256 (re_board (env 2))) db'" "no_local_work db'" "create_indexes db' = Inr ()"
    "job_metrics db' \<noteq> None" "outbox_metrics_singleton db' \<noteq> None"
proof -
  obtain db1 db2 db3 db4 where s: "startup_keys db1" "\<forall>k. task_agrees db1 k"
    "work_frame db1 db2" "create_indexes db2 = Inr ()" "capabilities_settled (env_sha256 (re_board (env 2))) db2"
    "work_frame db2 db3" "startup_keys db3" "rest_frame db2 db3" "capability_requests db3 = capability_requests db2"
    "outbox_metrics_singleton db3 \<noteq> None"
    "reconcile_agent_jobs (env 6) (fail_interrupted (env 3) (env 4) (env 5) db3) = Inr db4"
    "db' = db4 \<or> (\<exists>m. db' = db4\<lparr>job_metrics := Some m\<rparr>)" "job_metrics db' \<noteq> None"
    by (rule startup_steps [OF assms], rule that, assumption+)
  let ?F = "fail_interrupted (env 3) (env 4) (env 5) db3"
  have f: "calls_frame db3 ?F" by (rule fail_interrupted_frame)
  note kF = calls_startup_keys [OF f s(7)]
  have kk: "keyed ?F" "jobs_have_tasks ?F" using kF by (simp_all add: startup_keys_iff)
  have k4: "startup_keys db4" by (rule pass_startup_keys [OF s(11) kF])
  have "settled db4" by (rule pass_settles [OF s(11) kk])
  have same: "agent_jobs db' = agent_jobs db4" "tasks db' = tasks db4" "tool_calls db' = tool_calls db4" "goal_runs db' = goal_runs db4"
    "audit_events db' = audit_events db4" "capability_requests db' = capability_requests db4" "approvals db' = approvals db4"
    "message_board_events db' = message_board_events db4" "devices db' = devices db4"
    "outbox_metrics_singleton db' = outbox_metrics_singleton db4"
    using s(12) by auto
  have "settled db4" by (rule pass_settles [OF s(11) kk])
  then show st: "settled db'"
    by (simp add: settled_def task_agrees_def active_of_def no_orphans_def has_work_def recoverable_roots_def same
        failed_by_migration_def [abs_def])
  show k': "startup_keys db'" using pass_startup_keys [OF s(11) kF] by (simp add: startup_keys_def same)
  have caps: "capabilities_settled (env_sha256 (re_board (env 2))) ?F"
    using s(5,9) f by (simp add: capabilities_settled_def calls_frame_def)
  note p = pass_startup [OF s(11), unfolded startup_frame_def]
  have "capabilities_settled (env_sha256 (re_board (env 2))) db4" using shrink_settled p caps by blast
  then show c: "capabilities_settled (env_sha256 (re_board (env 2))) db'" by (simp add: capabilities_settled_def same)
  have rest: "rest_frame db2 db4"
    using s(8) f p unfolding calls_frame_def rest_frame_def by auto
  have "distinct (map aj_task_id (sql_select (\<lambda>j. job_active (aj_status j)) (agent_jobs db')))"
    by (rule agrees_distinct) (use st k' in \<open>simp_all add: settled_def startup_keys_def\<close>)
  then show "create_indexes db' = Inr ()"
    using s(4) c rest
    by (simp add: create_indexes_def unique_index_def and_then_Inr_iff require_Inr_iff capabilities_settled_def same rest_frame_def)
  show "job_metrics db' \<noteq> None" by (rule s(13))
  show "outbox_metrics_singleton db' \<noteq> None" using s(8,10) rest by (simp add: same rest_frame_def)
  have "agrees_or_ended ?F k" for k
  proof -
    have "task_agrees db3 k" using s(2,3,6) work_agrees by blast
    then show ?thesis using tasks_fail_row [of "tasks db3" "tasks ?F" k] f
      by (auto simp: agrees_or_ended_def task_agrees_def active_of_def calls_frame_def task_terminal_def)
  qed
  then have "t \<in> set (tasks ?F)" if "t \<in> set (tasks db4)" "tk_status t = Task_Queued" for t
    using pass_queues_nothing [OF s(11) kk _ that] by blast
  then show "no_local_work db'"
    using fail_interrupted_done [of "env 3" "env 4" "env 5" db3] pass_agrees(3) [OF s(11) kk]
    unfolding no_local_work_def same by auto
qed

text \<open>
  C35. A start leaves the work of the system consistent, whatever it finds: no task has two active jobs,
  every active job is queued for a queued task or leased, in the present form of leases, for a running one,
  and every task that is queued or running has such a job, a waiting tool call or a live goal behind it.
\<close>

theorem startup_leaves_work_consistent:
  assumes "startup_recovery env indexed version db = Inr db'" and "startup_keys db"
  shows "distinct (map aj_task_id (sql_select (\<lambda>j. job_active (aj_status j)) (agent_jobs db'))) \<and>
    (\<forall>j \<in> set (agent_jobs db'). job_active (aj_status j) \<longrightarrow> (\<exists>t \<in> set (tasks db'). tk_id t = aj_task_id j \<and>
      (aj_status j = Job_Queued \<and> tk_status t = Task_Queued \<or>
       job_leased (aj_status j) \<and> \<not> legacy_lease j \<and> tk_status t = Task_Running))) \<and>
    (\<forall>t \<in> set (tasks db'). tk_status t = Task_Queued \<or> tk_status t = Task_Running \<longrightarrow> has_work db' (tk_id t))"
proof -
  note e = startup_end [OF assms]
  have "\<exists>t \<in> set (tasks db'). tk_id t = aj_task_id j \<and> job_agrees j (tk_status t)"
    if "j \<in> set (agent_jobs db')" "job_active (aj_status j)" for j
  proof -
    have "j \<in> set (active_of (aj_task_id j) db')" using that by (simp add: in_active_of)
    moreover have "task_agrees db' (aj_task_id j)" using e(1) by (simp add: settled_def)
    ultimately show ?thesis by (auto simp: task_agrees_def dest: row_by_SomeD)
  qed
  moreover have "distinct (map aj_task_id (sql_select (\<lambda>j. job_active (aj_status j)) (agent_jobs db')))"
    by (rule agrees_distinct) (use e(1,2) in \<open>simp_all add: settled_def startup_keys_def\<close>)
  ultimately show ?thesis using e(1) by (simp add: settled_def no_orphans_def job_agrees_def)
qed

text \<open>
  C36. What the last process was executing is not taken up again: over a start each tool call stays as it
  was or fails; each that was running fails, with an uncertain outcome on record, and afterwards none is
  running and none waits for a task that does.
\<close>

theorem interrupted_calls_are_not_resumed:
  assumes "startup_recovery env indexed version db = Inr db'" and "startup_keys db"
  shows "list_all2 (\<lambda>c c'. c' = c \<or> (tc_status c = Tool_Running \<or> tc_status c = Tool_Queued) \<and>
      (\<exists>s now. c' = failed_call s now c)) (tool_calls db) (tool_calls db') \<and>
    (\<forall>c \<in> set (tool_calls db). tc_status c = Tool_Running \<longrightarrow>
      failed_call Stage_Running (re_now (env 3)) c \<in> set (tool_calls db') \<and>
      (\<exists>a \<in> set (audit_events db'). interruption_noted c a)) \<and>
    (\<forall>c \<in> set (tool_calls db'). tc_status c \<noteq> Tool_Running \<and>
      (tc_status c = Tool_Queued \<longrightarrow> (\<forall>t \<in> set (tasks db'). tk_id t = tc_task_id c \<longrightarrow> tk_status t \<noteq> Task_Queued)))"
proof -
  obtain db1 db2 db3 db4 where s: "tool_calls db1 = tool_calls db" "work_frame db1 db2" "work_frame db2 db3" "startup_keys db3"
    "reconcile_agent_jobs (env 6) (fail_interrupted (env 3) (env 4) (env 5) db3) = Inr db4"
    "db' = db4 \<or> (\<exists>m. db' = db4\<lparr>job_metrics := Some m\<rparr>)"
    by (rule startup_steps [OF assms], rule that, assumption+)
  let ?F = "fail_interrupted (env 3) (env 4) (env 5) db3"
  have f: "calls_frame db3 ?F" by (rule fail_interrupted_frame)
  have kk: "keyed ?F" "jobs_have_tasks ?F" using calls_startup_keys [OF f s(4)] by (simp_all add: startup_keys_iff)
  have c3: "tool_calls db3 = tool_calls db" using s(1-3) by (simp add: work_frame_def)
  have c': "tool_calls db' = tool_calls ?F" using pass_agrees(3) [OF s(5) kk] s(6) by auto
  have "set (audit_events ?F) \<subseteq> set (audit_events db4)"
    using pass_startup [OF s(5)] by (simp add: startup_frame_def rest_frame_def)
  then have a': "set (audit_events ?F) \<subseteq> set (audit_events db')" using s(6) by auto
  have "calls_fail (tool_calls db) (tool_calls db')" using f c3 c' by (simp add: calls_frame_def)
  moreover have "failed_call Stage_Running (re_now (env 3)) c \<in> set (tool_calls db') \<and>
      (\<exists>a \<in> set (audit_events db'). interruption_noted c a)" if "c \<in> set (tool_calls db)" "tc_status c = Tool_Running" for c
  proof -
    have "c \<in> set (tool_calls db3)" using that(1) c3 by simp
    note i = running_call_interrupted [OF this that(2), where ?env1.0 = "env 3" and ?env2.0 = "env 4" and ?env3.0 = "env 5"]
    show ?thesis using i(1) i(2) a' unfolding c' by blast
  qed
  moreover have "no_local_work db'" by (rule startup_end(4) [OF assms])
  ultimately show ?thesis by (simp add: calls_fail_def no_local_work_def)
qed

text \<open>
  C37. After a start every open capability request carries the fingerprint of what it asks for, recomputed
  from its stored columns, and no two open requests share one, so that the unique index can be built.
\<close>

theorem open_requests_are_unique:
  assumes "startup_recovery env indexed version db = Inr db'" and "startup_keys db"
  shows "distinct (map cr_request_fingerprint (sql_select open_capability (capability_requests db'))) \<and>
    (\<forall>r \<in> set (capability_requests db'). open_capability r \<longrightarrow>
      recomputed_fingerprint (env_sha256 (re_board (env 2))) r = Inr (cr_request_fingerprint r))"
proof -
  note c = startup_end(3) [OF assms, unfolded capabilities_settled_def]
  have "recomputed_fingerprint (env_sha256 (re_board (env 2))) r = Inr (cr_request_fingerprint r)"
    if "r \<in> set (capability_requests db')" "open_capability r" for r
    using c that by (cases "recomputed_fingerprint (env_sha256 (re_board (env 2))) r") (auto simp: fingerprinted_def)
  then show ?thesis using c by simp
qed

text \<open>
  C38. A start is idempotent: on what a start has left a second one changes nothing, whatever its clocks.
\<close>

theorem second_start_changes_nothing:
  assumes "startup_recovery env indexed version db = Inr db'" and "startup_keys db"
    and "env_sha256 (re_board (env2 2)) = env_sha256 (re_board (env 2))" and "23 \<le> version2"
  shows "startup_recovery env2 indexed2 version2 db' = Inr db'"
proof -
  note e = startup_end [OF assms(1,2)]
  have k: "keyed db'" "distinct (map cr_id (capability_requests db'))" using e(2) by (simp_all add: startup_keys_iff)
  obtain m where m: "outbox_metrics_singleton db' = Some m" using e(7) by auto
  have same: "db'\<lparr>outbox_metrics_singleton := Some m, job_metrics := job_metrics db'\<rparr> = db'" using m by simp
  have caps: "reconcile_capability_requests (env2 2) indexed2 db' = Inr db'"
    by (rule capabilities_settled_pass [OF _ k(2)]) (use e(3) assms(3) in simp)
  have v: "(version2 < 23) = False" and s: "(job_metrics db' = None) = False" using assms(4) e(6) by simp_all
  show ?thesis
    unfolding startup_recovery_def Let_def m option.case s if_False same pass_settled [OF e(1) k(1)] and_then.simps caps e(5)
      v no_local_work_done [OF e(4)] ..
qed

end
