(* ===== verification/Startup_Example.thy ===== *)
theory Startup_Example
  imports Startup_Safety Lease_Example
begin

text \<open>
  A restart of a control plane that left a lease with an open capability request behind, whose fingerprint
  is stale, a tool call in execution, and a queued job of a task that was still only planned.
\<close>

section \<open>The restart\<close>

definition restart_env :: "nat \<Rightarrow> reaper_env" where
  "restart_env i = \<lparr>re_board = demo_short_env, re_now = ''n'', re_clock = 0, re_fresh = (\<lambda>k. k)\<rparr>"

definition restart_task :: "string \<Rightarrow> task_status \<Rightarrow> task_row" where
  "restart_task i s = demo_running_task\<lparr>tk_id := i, tk_status := s\<rparr>"

definition restart_leased :: job_row where
  "restart_leased = (new_job ''j'' ''t'' ''workspace.list_dir'' ''{}'' 3 ''n'')\<lparr>aj_status := Job_Running,
    aj_claimed_by := Some ''a'', aj_lease_id := Some ''l'', aj_lease_token_hash := Some ''h'',
    aj_lease_expires_at := Some ''z'', aj_lease_generation := 1, aj_attempt_count := 1\<rparr>"

definition restart_db :: startup_db where
  "restart_db = \<lparr>control_plane_instances = [], maintenance_leases = [], audit_events = [],
     message_board_events = [], outbox_events = [], outbox_metrics_singleton = Some \<lparr>om_claim_expirations = 0,
       om_duplicate_publications = 0, om_latency_count = 0, om_latency_total = 0, om_latency_max = 0, om_updated_at = None\<rparr>,
     consumer_deliveries = [], consumer_checkpoints = [],
     tasks = [restart_task ''t'' Task_Running, restart_task ''u'' Task_Running, restart_task ''v'' Task_Planned],
     approvals = [],
     tool_calls = [\<lparr>tc_id = ''c'', tc_task_id = ''u'', tc_tool_name = ''f'', tc_arguments_json = ''{}'', tc_summary = [],
       tc_risk = ''low'', tc_status = Tool_Running, tc_approval_id = None, tc_result_json = None, tc_error = None,
       tc_created_at = [], tc_updated_at = []\<rparr>],
     agent_jobs = [restart_leased, new_job ''k'' ''v'' ''workspace.list_dir'' ''{}'' 3 ''n''],
     job_metrics = Some \<lparr>jm_lease_expirations = 0, jm_retries = 0, jm_dead_letter_events = 0, jm_updated_at = None\<rparr>,
     capability_requests = [\<lparr>cr_id = ''r'', cr_task_id = ''t'', cr_requesting_agent_id = ''a'', cr_requesting_job_id = ''j'',
       cr_lease_generation = 1, cr_device_id = ''d'', cr_capability_name = ''iphone.location.current'', cr_arguments_json = ''{}'',
       cr_request_fingerprint = ''stale'', cr_action_digest = ''sha256:h'', cr_status = ''approved'', cr_approval_id = ''b'',
       cr_request_audit_id = 1, cr_created_at = ''n'', cr_expires_at = ''z'', cr_delivered_at = None, cr_completed_at = None\<rparr>],
      capability_grants = [], skill_policy_state = None,
     pairing_codes = [], pairing_candidates = [], devices = [], websocket_tickets = [], capability_results = [],
     goal_runs = []\<rparr>"


lemma restart_rows: "grouped (\<lambda>p. aj_task_id (rp_job p)) (active_rows restart_db) =
   [(''t'', [\<lparr>rp_job = restart_leased, rp_task_status = Task_Running\<rparr>]),
    (''v'', [\<lparr>rp_job = new_job ''k'' ''v'' ''workspace.list_dir'' ''{}'' 3 ''n'', rp_task_status = Task_Planned\<rparr>])]"
  by code_simp

lemma restart_task_t: "reconcile_task (restart_env i) (''t'', [\<lparr>rp_job = restart_leased, rp_task_status = Task_Running\<rparr>]) restart_db =
   Inr restart_db"
  by (simp add: reconcile_task_def survivor_of_def task_terminal_def reconcile_survivor_def legacy_lease_def restart_leased_def Let_def
   restart_db_def table_simps new_job_def)

lemma restart_task_v: "reconcile_task (restart_env i) (''v'', [\<lparr>rp_job = new_job ''k'' ''v'' ''workspace.list_dir'' ''{}'' 3 ''n'', rp_task_status = Task_Planned\<rparr>]) restart_db =
   Inr (restart_db\<lparr>tasks := [restart_task ''t'' Task_Running, restart_task ''u'' Task_Running, (restart_task ''v'' Task_Queued)\<lparr>tk_updated_at := ''n''\<rparr>]\<rparr>)"
  by (simp add: reconcile_task_def survivor_of_def task_terminal_def reconcile_survivor_def legacy_lease_def restart_leased_def Let_def
   restart_db_def table_simps new_job_def restart_task_def demo_running_task_def restart_env_def)


lemma restart_roots: "goal_runs db = [] \<Longrightarrow> recoverable_roots db = []"
  by (simp add: recoverable_roots_def table_simps)

definition restart_db1 :: startup_db where
  "restart_db1 = restart_db\<lparr>tasks := [restart_task ''t'' Task_Running, restart_task ''u'' Task_Running,
     (restart_task ''v'' Task_Queued)\<lparr>tk_updated_at := ''n''\<rparr>]\<rparr>"

lemma restart_orphans: "orphaned_tasks restart_db1 = []"
  by code_simp

lemma restart_pass: "reconcile_agent_jobs (restart_env i) restart_db = Inr restart_db1"
proof -
  have "goal_runs restart_db1 = []" by (simp add: restart_db1_def restart_db_def)
  then show ?thesis
    by (simp add: reconcile_agent_jobs_def reconcile_jobs_def restart_rows restart_task_t restart_task_v restart_db1_def [symmetric]
        restart_roots restart_orphans)
qed

definition restart_request :: capability_request_row where
  "restart_request = (hd (capability_requests restart_db))\<lparr>cr_request_fingerprint := ''sha256:h''\<rparr>"

definition restart_db2 :: startup_db where
  "restart_db2 = restart_db1\<lparr>capability_requests := [restart_request]\<rparr>"

lemma restart_fingerprint: "recomputed_fingerprint (\<lambda>m. ''h'') (hd (capability_requests restart_db)) = Inr ''sha256:h''"
  "duplicate_capabilities restart_db2 = []" "capability_requests restart_db1 = [hd (capability_requests restart_db)]"
  subgoal by code_simp
  subgoal by code_simp
  subgoal by (simp add: restart_db1_def restart_db_def)
  done

lemma restart_capabilities: "reconcile_capability_requests (restart_env i) False restart_db1 = Inr restart_db2"
proof -
  have "reconcile_fingerprint (restart_env i) False (hd (capability_requests restart_db)) restart_db1 = Inr restart_db2"
    by (simp add: reconcile_fingerprint_def restart_env_def demo_short_env_def restart_fingerprint set_fingerprint_def Let_def
      sql_update_def restart_db2_def restart_request_def)
  then show ?thesis by (simp add: reconcile_capability_requests_def restart_fingerprint)
qed

lemma restart_indexes: "create_indexes restart_db2 = Inr ()"
  by code_simp

definition restart_end :: startup_db where
  "restart_end = fail_interrupted (restart_env 3) (restart_env 4) (restart_env 5) restart_db2"

lemma restart_end_tables:
  "agent_jobs restart_end = [restart_leased, new_job ''k'' ''v'' ''workspace.list_dir'' ''{}'' 3 ''n'']" "goal_runs restart_end = []"
  "tasks restart_end = [restart_task ''t'' Task_Running, interrupted_task Stage_Running ''n'' (restart_task ''u'' Task_Running),
     (restart_task ''v'' Task_Queued)\<lparr>tk_updated_at := ''n''\<rparr>]"
  by (simp_all add: restart_end_def fail_interrupted_def Let_def interruption_audit_def append_audit_event_def running_calls_def
    fail_running_def restart_db2_def restart_db1_def restart_db_def table_simps queued_calls_def restart_env_def
    restart_task_def demo_running_task_def del: json_dumps.simps)

lemma restart_rows_end: "aj_task_id restart_leased = ''t''" "aj_status restart_leased = Job_Running" "\<not> legacy_lease restart_leased"
  "tk_id (restart_task i s) = i" "tk_status (restart_task i s) = s" "aj_id restart_leased = ''j''"
  "tk_id (interrupted_task g now t) = tk_id t" "tk_status (interrupted_task g now t) = Task_Failed"
  by (simp_all add: restart_leased_def new_job_def legacy_lease_def restart_task_def interrupted_task_def)

lemma restart_settled: "settled restart_end" "keyed restart_end"
proof -
  have "task_agrees restart_end k" for k
    by (cases "k = ''v''") (auto simp: task_agrees_def active_of_def restart_end_tables restart_rows_end new_job_def table_simps job_agrees_def job_leased_def)
  moreover have "no_orphans restart_end"
    by (simp add: no_orphans_def has_work_def restart_end_tables restart_rows_end new_job_def job_active_def)
  ultimately show "settled restart_end" by (simp add: settled_def restart_roots restart_end_tables)
  show "keyed restart_end" by (simp add: keyed_def restart_end_tables restart_rows_end new_job_def)
qed

lemma restarted: "startup_recovery restart_env False 23 restart_db = Inr restart_end"
proof -
  have m: "job_metrics restart_db \<noteq> None"
    "restart_db\<lparr>outbox_metrics_singleton := (case outbox_metrics_singleton restart_db of
       None \<Rightarrow> Some \<lparr>om_claim_expirations = 0, om_duplicate_publications = 0, om_latency_count = 0,
         om_latency_total = 0, om_latency_max = 0, om_updated_at = None\<rparr> | m \<Rightarrow> m),
       job_metrics := job_metrics restart_db\<rparr> = restart_db"
    by (simp_all add: restart_db_def)
  then have f: "(job_metrics restart_db = None) = False" by simp
  have v: "((23::int) < 23) = False" by simp
  show ?thesis
    unfolding startup_recovery_def Let_def f if_False m(2) restart_pass and_then.simps restart_capabilities restart_indexes v
      restart_end_def [symmetric] pass_settled [OF restart_settled] ..
qed

lemma restart_keys: "startup_keys restart_db"
  by (simp add: startup_keys_def restart_db_def restart_rows_end new_job_def)

section \<open>Witnesses\<close>

lemma startup_leaves_work_consistent_witness:
  "distinct (map aj_task_id (sql_select (\<lambda>j. job_active (aj_status j)) (agent_jobs restart_end))) \<and>
    (\<exists>t \<in> set (tasks restart_end). tk_id t = ''v'' \<and> tk_status t = Task_Queued) \<and>
    has_work restart_end ''t'' \<and> has_work restart_end ''v''"
proof -
  note e = startup_leaves_work_consistent [OF restarted restart_keys]
  obtain k where k: "k \<in> set (agent_jobs restart_end)" "aj_status k = Job_Queued" "aj_task_id k = ''v''"
    by (rule that [of "new_job ''k'' ''v'' ''workspace.list_dir'' ''{}'' 3 ''n''"]) (simp_all add: restart_end_tables, simp_all add: new_job_def)
  have t: "restart_task ''t'' Task_Running \<in> set (tasks restart_end)" "(restart_task ''v'' Task_Queued)\<lparr>tk_updated_at := ''n''\<rparr> \<in> set (tasks restart_end)"
    by (simp_all add: restart_end_tables)
  have "\<exists>t \<in> set (tasks restart_end). tk_id t = ''v'' \<and> tk_status t = Task_Queued"
    using bspec [OF conjunct1 [OF conjunct2 [OF e]] k(1)] k(2,3) by (simp add: job_active_def job_leased_def)
  moreover have "has_work restart_end ''t''" "has_work restart_end ''v''"
    using e t by (auto simp: restart_rows_end)
  ultimately show ?thesis using e by blast
qed

lemma interrupted_calls_are_not_resumed_witness:
  "\<exists>c. tool_calls restart_db = [c] \<and> tc_status c = Tool_Running \<and>
    failed_call Stage_Running ''n'' c \<in> set (tool_calls restart_end) \<and> (\<exists>a \<in> set (audit_events restart_end). interruption_noted c a)"
proof -
  obtain c where c: "tool_calls restart_db = [c]" "tc_status c = Tool_Running" by (simp add: restart_db_def)
  then show ?thesis using interrupted_calls_are_not_resumed [OF restarted restart_keys] by (simp add: restart_env_def)
qed

lemma open_requests_are_unique_witness:
  "\<exists>r. capability_requests restart_end = [r] \<and> recomputed_fingerprint (\<lambda>m. ''h'') r = Inr (cr_request_fingerprint r)"
proof -
  have "capability_requests restart_end = [restart_request]"
    using fail_interrupted_frame [of restart_db2] by (simp add: calls_frame_def restart_end_def restart_db2_def)
  moreover have "open_capability restart_request" by code_simp
  ultimately show ?thesis
    using open_requests_are_unique [OF restarted restart_keys] by (simp add: restart_env_def demo_short_env_def)
qed

lemma second_start_changes_nothing_witness:
  "startup_recovery (\<lambda>i. (restart_env i)\<lparr>re_now := ''later''\<rparr>) True 24 restart_end = Inr restart_end"
  by (rule second_start_changes_nothing [OF restarted restart_keys]) (simp_all add: restart_env_def)

end
