(* ===== verification/Spec2Isabelle.thy ===== *)
theory Spec2Isabelle
  imports Outbox_Delivery Consumer_Delivery Approval_Example Plan_Validation IPhone_Example Startup_Example
begin

text \<open>
  The control plane of the Swarm application (\<open>server/app\<close>): one SQLite database, several server
  instances that share it, workers that poll it for jobs, and a phone that approves what may run.
  The development models the services that keep this safe, translated from the Python sources.

  \<^bold>\<open>How the program is put together.\<close> Every service opens a transaction (\<open>BEGIN IMMEDIATE\<close>), checks, writes,
  and appends an audit event and an outbox event in the same transaction. The outbox publishes its
  rows to a message board after the commit; consumers deliver what is on the board at least once.
  Work that must run on one instance at a time (recovering claims, reaping leases) holds a
  maintenance lease and is fenced by its generation. Tool calls wait for a one-shot approval. Plans
  proposed by language models are validated before any of their nodes becomes a job; jobs are leased
  to workers under a generation, and a reaper takes back what expires.

  \<^bold>\<open>Conventions.\<close> Text is the list of its UTF-8 bytes, a timestamp its ISO text, so that comparing
  timestamps in SQL is the lexicographic order (\<open>Iso_Time\<close> proves that it is the order of the instants).
  Exceptions are values of \<open>py_error\<close>; code that may raise returns a sum. The database is one
  extensible record that each theory extends by its tables; a table is a list of rows in rowid order.
  SHA-256, the scan for credential-like text, \<open>fromisoformat\<close> and \<open>uuid4\<close> are parameters; digests are
  injective up to a collision, which the theorems name. What other processes do between two
  transactions is a function in a \<open>moment\<close> or a step of a run. Where the model is simpler than
  the code: \<open>strip\<close> and \<open>lower\<close> work on ASCII; JSON numbers are integers, so a stored float counts as
  invalid and the timeouts of processes are whole seconds; stored digests of leases and policies, which the code
  writes as ASCII itself, are compared by plain equality; one reading of the clock serves all the audit
  events of interrupted tool calls; a renewed lease is read again before the commit instead of after it;
  where SQL gives no order, rows come in rowid order.

  \<^bold>\<open>Theories.\<close>
  \<^item> \<open>Swarm_Prelude\<close>: exceptions, sums, SQL tables, transactions. \<open>Iso_Time\<close>: clocks and timestamps.
    \<open>Json_Text\<close>: JSON values, \<open>json.dumps\<close> and \<open>json.loads\<close> and their round trip.
  \<^item> \<open>Fenced_Claims\<close>: the locale behind every lease (generations never go back, a lost claim stays lost);
    interpreted for maintenance leases, outbox publications, consumer deliveries and job leases.
  \<^item> \<open>Control_Plane_Instance\<close> (\<open>control_plane_instance.py\<close>) and \<open>Maintenance_Lease\<close> (\<open>maintenance_lease.py\<close>):
    acquiring, renewing and releasing leases, the guard and its fenced transaction.
  \<^item> \<open>Audit_Log\<close> (\<open>audit_log.py\<close>): the hash chain, kept by every append and evident when tampered with.
  \<^item> \<open>Event_Privacy\<close> (\<open>event_privacy.py\<close>): what may be shared, characterised at every depth, and the
    projection of WebSocket events.
  \<^item> \<open>Message_Board\<close> (\<open>message_board.py\<close>): envelopes, digests and the SQLite board.
  \<^item> \<open>Outbox\<close>, \<open>Outbox_Claims\<close>, \<open>Outbox_Delivery\<close> (\<open>outbox.py\<close>): enqueueing, claiming, draining and recovery;
    idempotence, exclusive and fenced claims, and, against a locale of the board's adapter which the SQLite
    board interprets, that only delivered events are marked published.
  \<^item> \<open>Message_Consumer\<close>, \<open>Consumer_Ledger\<close>, \<open>Consumer_Delivery\<close> (\<open>message_consumer.py\<close>): the delivery ledger and
    the runner; consistency, round trip, bounded attempts, final acknowledgements.
  \<^item> \<open>Permission_Policy\<close> (\<open>permission_policy.py\<close>, skill sets of \<open>agent_card.py\<close>): parsing and evaluating the
    policy. \<open>Process_Sandbox\<close> (\<open>process_sandbox.py\<close>): commands, mounts, bounded output.
  \<^item> \<open>Approval_Binding\<close>, \<open>Approval_Gateway\<close>, \<open>Tool_Execution\<close> (\<open>approval_binding.py\<close>, \<open>approval_gateway.py\<close>,
    \<open>execution_engine.py\<close>): proposing, deciding, claiming and finishing tool calls. \<open>Approval_Safety\<close> composes
    them: over every interleaving only approved calls start, once. \<open>Approval_Example\<close> runs one.
  \<^item> \<open>Plan_Graph\<close>, \<open>Plan_Validation\<close> (\<open>plan_validation.py\<close>, \<open>swarm_contracts.py\<close>): Kahn's algorithm and its
    specification, the policy and budget checks, fingerprints that ignore the names of nodes.
  \<^item> \<open>Distributed_State\<close> (\<open>distributed_state.py\<close>, \<open>agent_lease.py\<close>): the state machines of tasks and jobs.
    \<open>Worker_Skill_Policy\<close> (\<open>worker_skill_policy.py\<close>): the epochs of the skill policy.
  \<^item> \<open>Lease_Reaper\<close> (\<open>agent_lease_reaper.py\<close>) and \<open>Reaper_Refinement\<close>: the reaper with its fences and
    transactions, and the abstract lease machine that a batch refines.
  \<^item> \<open>Job_Lease\<close> (\<open>agent_dispatcher.py\<close>, \<open>swift_project_validation.py\<close>, \<open>state_service.py\<close>): the writes of
    queueing, claiming, heartbeats, results, cancellations and quarantine, as steps. \<open>Job_Safety\<close>: the
    table stays typed, a reaped worker is locked out, the reaper ends. \<open>Lease_Example\<close> runs one batch.
  \<^item> \<open>Device_Auth\<close> (\<open>auth_service.py\<close>): pairing codes, candidate credentials, their promotion on first use and
    WebSocket tickets. \<open>Device_Auth_Safety\<close>: an abstract machine of credentials that every operation refines,
    hence replaced credentials are dead; single-use tickets; bounded guesses. \<open>Device_Auth_Example\<close> runs them.
  \<^item> \<open>IPhone_Capability\<close>, \<open>IPhone_Service\<close> (\<open>iphone_capability_service.py\<close>, \<open>iphone_capability_binding.py\<close>): what
    a worker asks of a phone, first each transaction, then the operations with their drains, the batched expiry
    and the projections. \<open>IPhone_Safety\<close>: requests refine an abstract life cycle over every interleaving with
    the reaper; a grant is consumed once, after its approval. \<open>IPhone_Results\<close>: what was submitted is what is
    polled, repetitions, and the end of the expiry. \<open>IPhone_Example\<close> runs one request to its result.
  \<^item> \<open>Startup_Recovery\<close> (\<open>initialize\<close> of \<open>state_service.py\<close>): the transaction of every start, its two passes over
    jobs and tasks (\<open>_reconcile_agent_jobs_locked\<close>), the one over capability requests, the failure of interrupted
    tool calls, indexes and counters. \<open>Startup_Jobs\<close>: the turn of a task settles it and touches no other.
    \<open>Startup_Passes\<close>: a pass settles every task, and changes nothing where all are. \<open>Startup_Capabilities\<close>: open
    requests carry their fingerprints, each its own. \<open>Startup_Safety\<close> composes them: what a start leaves, and
    that a second one changes nothing. \<open>Startup_Example\<close> runs one restart.

  \<^bold>\<open>Bounds and fuel.\<close> \<open>recover_loop\<close> has 501 iterations for at most 500 recovered claims, \<open>reap_loop\<close> 129 for
  128 reaped leases, \<open>expire_loop\<close> 251 for 250 expired requests: each iteration that goes on has handled a
  row (\<open>recovery_terminates\<close>, \<open>reap_expired_ends\<close>, \<open>expiry_ends\<close>). The signature of a node visits its
  dependencies with fuel the number of nodes plus one, enough for an accepted, hence acyclic, graph
  (\<open>visit_computes\<close>). JSON is parsed with fuel the length of the text (\<open>parse_value_dumps\<close>). Kahn's loop is total by a measure.

  \<^bold>\<open>Findings.\<close> An event whose payload just fits the size limit is published once and every retry fails
  (\<open>event_at_size_limit_is_not_republished\<close>). Grouped interpreter flags pass the check for inline code
  (\<open>combined_flag_is_not_inline\<close>). \<open>_finish\<close> can return normally and leave the call running
  (\<open>finish_leaves_call_running\<close>). A phone that repeats a result whose text is not ASCII gets a \<open>TypeError\<close> instead of
  the receipt (\<open>repeated_result_fails_outside_ascii\<close>).

  \<^bold>\<open>Not modelled.\<close> The goal loop (\<open>goal_manager.py\<close> and its modules), the model providers and routers, the
  agent scheduler (floating-point scores; the job steps hold whichever candidate is chosen), context,
  memory and embeddings (Unicode normalisation, vector search), the schemas of payloads and results by
  skill (Pydantic and regular expressions), project, website and media publication (file system, browser),
  the lock files and notifications of device sessions, the HTTP routes, the workers themselves
  and the mobile application. Of \<open>state_service.py\<close> only the schema of the modelled tables, the recovery at
  a start and the job part of \<open>cancel_task\<close>, not the migrations of schema, memory and goals; of \<open>goal_runs\<close>
  only the columns the recovery reads. Of the dispatcher not the choice of a candidate, the payload and the
  checks of results on goal and project tables; no Redis board; no cancellation of asyncio tasks.
\<close>

end
